(* ===== verification/Prelude.thy ===== *)
theory Prelude
  imports Main "HOL-Library.Word" "HOL-Library.Monad_Syntax"
begin

text \<open>
  Shared vocabulary of the development: the machine types of the RX65N build (8, 16 and 32 bit
  words, 32 bit pointers, little endian), C strings as character lists, \<open>memcpy\<close> into a
  buffer, the byte layout of a 32 bit object, and the list lemmas the components use.

  A computation of type \<open>'a option\<close> is one that may not return: \<open>None\<close> stands for a
  failed \<open>configASSERT\<close> (which spins forever in this build, \<open>target/rx65n/config/FreeRTOSConfig.h\<close>)
  or for an access outside an object. Error codes the code returns are ordinary values.
\<close>

unbundle bit_operations_syntax

named_theorems buf_simps \<open>lengths and elements of byte buffers\<close>

type_synonym byte = "8 word"
type_synonym u16 = "16 word"
type_synonym u32 = "32 word"

text \<open>Unsigned 32 bit arithmetic on \<open>nat\<close>, with the wrap-around written out.\<close>

definition u32_of :: "nat \<Rightarrow> nat" where
  "u32_of n = n mod 2 ^ 32"

definition u32_sub :: "nat \<Rightarrow> nat \<Rightarrow> nat" where
  "u32_sub a b = (a + (2 ^ 32 - b mod 2 ^ 32)) mod 2 ^ 32"

lemma u32_of_id [simp]: "n < 2 ^ 32 \<Longrightarrow> u32_of n = n"
  by (simp add: u32_of_def)

lemma u32_of_less [simp]: "u32_of n < 2 ^ 32"
  by (simp add: u32_of_def)

lemma u32_sub_le [simp]: "b \<le> a \<Longrightarrow> a < 2 ^ 32 \<Longrightarrow> u32_sub a b = a - b"
proof -
  assume a: "b \<le> a" "a < 2 ^ 32"
  then have "b mod 2 ^ 32 = b" and "a + (2 ^ 32 - b) = (a - b) + 2 ^ 32" by simp_all
  then have "u32_sub a b = ((a - b) + 2 ^ 32) mod 2 ^ 32" by (simp only: u32_sub_def)
  also have "\<dots> = (a - b) mod 2 ^ 32" by (rule mod_add_self2)
  finally show ?thesis using a by simp
qed

lemma u32_sub_self [simp]: "a < 2 ^ 32 \<Longrightarrow> u32_sub a a = 0"
  by simp

lemma unat_u32_less [simp]: "unat (w :: u32) < 4294967296"
  using unsigned_less [of w, where ?'a = nat] by simp

text \<open>\<open>configASSERT\<close>: spins forever (no result) when its condition is false.\<close>

definition configASSERT :: "bool \<Rightarrow> unit option" where
  "configASSERT b = (if b then Some () else None)"

lemma configASSERT_True [simp]: "configASSERT True = Some ()"
  by (simp add: configASSERT_def)

lemma configASSERT_False [simp]: "configASSERT False = None"
  by (simp add: configASSERT_def)

subsection \<open>Buffers\<close>

text \<open>\<open>memcpy\<close> of the bytes \<open>xs\<close> to \<open>&buf[i]\<close>; \<open>None\<close> when it would leave the object.\<close>

definition overwrite :: "nat \<Rightarrow> 'a list \<Rightarrow> 'a list \<Rightarrow> 'a list" where
  "overwrite i xs buf = take i buf @ xs @ drop (i + length xs) buf"

definition mem_write :: "nat \<Rightarrow> 'a list \<Rightarrow> 'a list \<Rightarrow> 'a list option" where
  "mem_write i xs buf =
     (if i + length xs \<le> length buf then Some (overwrite i xs buf) else None)"

definition mem_read :: "nat \<Rightarrow> nat \<Rightarrow> 'a list \<Rightarrow> 'a list option" where
  "mem_read i n buf = (if i + n \<le> length buf then Some (take n (drop i buf)) else None)"

lemma length_overwrite [simp, buf_simps]:
  "i + length xs \<le> length buf \<Longrightarrow> length (overwrite i xs buf) = length buf"
  by (simp add: overwrite_def)

lemma overwrite_Nil [simp]: "overwrite i [] buf = buf"
  by (simp add: overwrite_def)

lemma overwrite_all [simp]: "length xs = length buf \<Longrightarrow> overwrite 0 xs buf = xs"
  by (simp add: overwrite_def)

lemma take_overwrite0 [simp, buf_simps]:
  "n \<le> length xs \<Longrightarrow> take n (overwrite 0 xs buf) = take n xs"
  by (simp add: overwrite_def)

lemma overwrite_adjacent:
  assumes "length xs + length ys = length buf"
  shows "overwrite (length xs) ys (overwrite 0 xs buf) = xs @ ys"
  using assms by (simp add: overwrite_def)

lemma nth_overwrite:
  assumes "i + length xs \<le> length buf" "k < length buf"
  shows "overwrite i xs buf ! k =
    (if i \<le> k \<and> k < i + length xs then xs ! (k - i) else buf ! k)"
  using assms by (auto simp: overwrite_def nth_append nth_drop min_def)

lemma mem_write_Some [simp]:
  "i + length xs \<le> length buf \<Longrightarrow> mem_write i xs buf = Some (overwrite i xs buf)"
  by (simp add: mem_write_def)

lemma mem_read_Some [simp]: "i + n \<le> length buf \<Longrightarrow> mem_read i n buf = Some (take n (drop i buf))"
  by (simp add: mem_read_def)

lemma mem_read_length: "mem_read i n buf = Some xs \<Longrightarrow> length xs = n"
  by (auto simp: mem_read_def split: if_splits)

subsection \<open>The four bytes of a 32 bit object, little endian\<close>

definition le_bytes :: "u32 \<Rightarrow> byte list" where
  "le_bytes w = [ucast w, ucast (drop_bit 8 w), ucast (drop_bit 16 w), ucast (drop_bit 24 w)]"

fun le_word :: "byte list \<Rightarrow> u32" where
  "le_word [] = 0"
| "le_word (b # bs) = ucast b OR push_bit 8 (le_word bs)"

lemma length_le_bytes [simp]: "length (le_bytes w) = 4"
  by (simp add: le_bytes_def)

lemma le_word_le_bytes [simp]: "le_word (le_bytes w) = w"
proof (rule bit_word_eqI)
  fix n assume "n < LENGTH(32)"
  then have n: "n < 32" by simp
  have "n < 8 \<or> (8 \<le> n \<and> n < 16) \<or> (16 \<le> n \<and> n < 24) \<or> (24 \<le> n \<and> n < 32)"
    using n by arith
  then show "bit (le_word (le_bytes w)) n = bit w n"
    by (elim disjE conjE) (auto simp: le_bytes_def bit_or_iff bit_push_bit_iff bit_ucast_iff
        bit_drop_bit_eq not_le)
qed

lemma le_bytes_le_word [simp]:
  assumes "length bs = 4"
  shows "le_bytes (le_word bs) = bs"
proof -
  from assms obtain a b c d where bs: "bs = [a, b, c, d]"
    by (auto simp: numeral_eq_Suc length_Suc_conv)
  have hi: "\<not> bit x (8 + n)" "\<not> bit x (16 + n)" "\<not> bit x (24 + n)" for x :: byte and n
    by (auto dest!: bit_imp_le_length)
  show ?thesis
    unfolding bs le_bytes_def
    by (auto intro!: bit_word_eqI simp: bit_or_iff bit_push_bit_iff bit_ucast_iff bit_drop_bit_eq hi)
qed

subsection \<open>C strings\<close>

abbreviation NUL :: char where
  "NUL \<equiv> CHR 0x00"

text \<open>A C string in a buffer ends at its first NUL.\<close>

definition c_str :: "string \<Rightarrow> string" where
  "c_str s = takeWhile (\<lambda>c. c \<noteq> NUL) s"

definition strlen :: "string \<Rightarrow> nat" where
  "strlen s = length (c_str s)"

definition strnlen :: "string \<Rightarrow> nat \<Rightarrow> nat" where
  "strnlen s n = min (strlen s) n"

text \<open>The character at position \<open>i\<close> of a NUL terminated string (the terminator included).\<close>

definition char_at :: "string \<Rightarrow> nat \<Rightarrow> char" where
  "char_at s i = (if i < length (c_str s) then c_str s ! i else NUL)"

text \<open>\<open>strncmp(a, b, n) == 0\<close> and \<open>strcmp(a, b) == 0\<close>.\<close>

definition strncmp_eq :: "string \<Rightarrow> string \<Rightarrow> nat \<Rightarrow> bool" where
  "strncmp_eq a b n = (take n (c_str a @ [NUL]) = take n (c_str b @ [NUL]))"

definition strcmp_eq :: "string \<Rightarrow> string \<Rightarrow> bool" where
  "strcmp_eq a b = (c_str a = c_str b)"

definition c_string :: "string \<Rightarrow> bool" where
  "c_string s = (NUL \<notin> set s)"

lemma c_str_id [simp]: "c_string s \<Longrightarrow> c_str s = s"
  by (auto simp: c_str_def c_string_def intro!: takeWhile_eq_all_conv [THEN iffD2])

lemma c_string_c_str [simp]: "c_string (c_str s)"
  by (auto simp: c_string_def c_str_def dest: set_takeWhileD)

lemma c_string_Nil [simp]: "c_string []"
  by (simp add: c_string_def)

lemma c_string_Cons [simp]: "c_string (c # s) \<longleftrightarrow> c \<noteq> NUL \<and> c_string s"
  by (auto simp: c_string_def)

lemma c_string_append [simp]: "c_string (s @ t) \<longleftrightarrow> c_string s \<and> c_string t"
  by (auto simp: c_string_def)

lemma c_str_NUL: "c_string s \<Longrightarrow> c_str (s @ NUL # t) = s"
  by (simp add: c_str_def c_string_def takeWhile_append)

text \<open>Comparing a whole string including its terminator is equality.\<close>

lemma strncmp_eq_full:
  assumes "c_string a" "c_string b" "length b < n" "length a < n"
  shows "strncmp_eq a b n \<longleftrightarrow> a = b"
  using assms by (simp add: strncmp_eq_def)

text \<open>Comparing \<open>length b\<close> characters is a prefix test.\<close>

lemma strncmp_eq_prefix:
  assumes "c_string a" "c_string b"
  shows "strncmp_eq a b (length b) \<longleftrightarrow> (\<exists>r. a = b @ r)"
proof -
  have len: "length b \<le> length a" if "take (length b) (a @ [NUL]) = b"
  proof (rule ccontr)
    assume "\<not> length b \<le> length a"
    then have "take (length b) (a @ [NUL]) = a @ [NUL]" by simp
    with that have "NUL \<in> set b" by (metis in_set_conv_decomp)
    with assms(2) show False by (simp add: c_string_def)
  qed
  have "strncmp_eq a b (length b) \<longleftrightarrow> take (length b) (a @ [NUL]) = b"
    using assms by (simp add: strncmp_eq_def)
  also have "\<dots> \<longleftrightarrow> (\<exists>r. a = b @ r)"
  proof
    assume t: "take (length b) (a @ [NUL]) = b"
    have "take (length b) (a @ [NUL]) = take (length b) a" using len [OF t] by simp
    then have "take (length b) a = b" using t by (rule subst)
    then have "b @ drop (length b) a = a" by (rule subst) (rule append_take_drop_id)
    then have "a = b @ drop (length b) a" by (rule sym)
    then show "\<exists>r. a = b @ r" by (rule exI)
  qed auto
  finally show ?thesis .
qed

subsection \<open>Characters and bytes\<close>

definition byte_of :: "char \<Rightarrow> byte" where
  "byte_of c = word_of_nat (of_char c)"

definition char_of_byte :: "byte \<Rightarrow> char" where
  "char_of_byte b = char_of (unat b)"

lemma char_byte [simp]: "char_of_byte (byte_of c) = c"
proof -
  have "(of_char c :: nat) < 256" using of_char_of [of "of_char c :: nat"] by (metis char_of_char of_char_mod_256 mod_less_divisor zero_less_numeral)
  then show ?thesis by (simp add: byte_of_def char_of_byte_def unat_of_nat)
qed

lemma byte_of_NUL [simp]: "byte_of NUL = 0"
  by (simp add: byte_of_def)

subsection \<open>Decimal numbers\<close>

text \<open>The digits, as \<open>%lu\<close> and \<open>%ld\<close> print them.\<close>

definition digit :: "nat \<Rightarrow> char" where
  "digit d = char_of (48 + d)"

fun dec :: "nat \<Rightarrow> string" where
  "dec n = (if n < 10 then [digit n] else dec (n div 10) @ [digit (n mod 10)])"

declare dec.simps [simp del]

lemma dec_length: "n < 10 ^ k \<Longrightarrow> 0 < k \<Longrightarrow> length (dec n) \<le> k"
proof (induction n arbitrary: k rule: dec.induct)
  case (1 n)
  show ?case
  proof (cases "n < 10")
    case True
    then show ?thesis using 1(3) by (simp add: dec.simps)
  next
    case False
    obtain j where k: "k = Suc j" using 1(3) by (cases k) simp_all
    have "0 < j" using 1(2) False k by (cases j) simp_all
    with k have j: "k = Suc j" "0 < j" by simp_all
    then have "n div 10 < 10 ^ j" using 1(2) by (simp add: less_mult_imp_div_less)
    then have "length (dec (n div 10)) \<le> j" using 1(1) False j by simp
    then show ?thesis using False j by (subst dec.simps) simp
  qed
qed

lemma dec_not_Nil [simp]: "dec n \<noteq> []"
  by (subst dec.simps) simp

lemma c_string_dec [simp]: "c_string (dec n)"
proof (induction n rule: dec.induct)
  case (1 n)
  have "char_of (48 + d) \<noteq> NUL" if "d < 10" for d :: nat
  proof
    assume "char_of (48 + d) = NUL"
    then have "(of_char (char_of (48 + d)) :: nat) = of_char NUL" by (rule arg_cong)
    with that show False by (simp add: of_char_of)
  qed
  with 1 show ?case by (subst dec.simps) (simp add: digit_def)
qed

subsection \<open>Arrays updated by index\<close>

text \<open>An array write \<open>a[i] = x\<close>; \<open>None\<close> when \<open>i\<close> is outside the array.\<close>

definition arr_set :: "nat \<Rightarrow> 'a \<Rightarrow> 'a list \<Rightarrow> 'a list option" where
  "arr_set i x xs = (if i < length xs then Some (xs[i := x]) else None)"

definition arr_get :: "nat \<Rightarrow> 'a list \<Rightarrow> 'a option" where
  "arr_get i xs = (if i < length xs then Some (xs ! i) else None)"

lemma arr_set_Some [simp]: "i < length xs \<Longrightarrow> arr_set i x xs = Some (xs[i := x])"
  by (simp add: arr_set_def)

lemma arr_get_Some [simp]: "i < length xs \<Longrightarrow> arr_get i xs = Some (xs ! i)"
  by (simp add: arr_get_def)

end
