(* ===== verification/KvStore.thy ===== *)
theory KvStore
  imports Prelude
begin

text \<open>
  The key/value store's public interface (\<open>src/source/kvstore/kvstore.c\<close>, \<open>kvstore.h\<close>,
  \<open>kvstore_prv.h\<close>, \<open>src/source/include/kvstore_config.h\<close>).

  The C file reaches its storage through two macros, \<open>READ_ENTRY\<close> and \<open>WRITE_ENTRY\<close>, so the
  operations below take the two functions as arguments (\<open>rd\<close>, \<open>wr\<close>), beside the table of
  defaults (\<open>dfl\<close>), which is data. The locale \<open>kv_backend\<close> states what the interface relies on;
  its lemmas are the client side of the contract, and \<open>KvCache\<close> discharges it for the RAM cache,
  the storage the macros name in this build. The mutex only orders callers, so it does not occur.
\<close>

subsection \<open>Keys, types and defaults\<close>

text \<open>
  An object of the C enumeration can hold any integer (a header read from flash sets one), so the
  type has a constructor for the values that are no enumerator.
\<close>

datatype KVStoreValueType_t =
    KV_TYPE_NONE | KV_TYPE_BASE_T | KV_TYPE_UBASE_T | KV_TYPE_INT32 | KV_TYPE_UINT32
  | KV_TYPE_STRING | KV_TYPE_BLOB | KV_TYPE_LAST | KV_TYPE_RAW u32

text \<open>The keys are the enumerators of \<open>KvStoreEnum\<close>, in their order.\<close>

type_synonym KVStoreKey_t = nat

definition CS_NUM_KEYS :: nat where
  "CS_NUM_KEYS = 6"

definition SIZEOF_PTR :: nat where
  "SIZEOF_PTR = 4"

lemmas kv_consts [simp] = CS_NUM_KEYS_def SIZEOF_PTR_def

text \<open>The union of a default entry: a word, or a pointer (its address and what it points at).\<close>

datatype kv_default_val = DfltWord u32 | DfltPtr u32 "byte list"

record KVStoreDefaultEntry_t =
  df_type :: KVStoreValueType_t
  df_length :: nat
  df_union :: kv_default_val

definition union_bytes :: "kv_default_val \<Rightarrow> byte list" where
  "union_bytes u = (case u of DfltWord w \<Rightarrow> le_bytes w | DfltPtr a bs \<Rightarrow> le_bytes a)"

lemma length_union_bytes [simp]: "length (union_bytes u) = 4"
  by (simp add: union_bytes_def split: kv_default_val.splits)

definition KV_DFLT_STRING :: "u32 \<Rightarrow> byte list \<Rightarrow> KVStoreDefaultEntry_t" where
  "KV_DFLT_STRING a s = \<lparr>df_type = KV_TYPE_STRING, df_length = length s + 1, df_union = DfltPtr a (s @ [0])\<rparr>"

definition KV_DFLT_UINT32 :: "u32 \<Rightarrow> KVStoreDefaultEntry_t" where
  "KV_DFLT_UINT32 w = \<lparr>df_type = KV_TYPE_UINT32, df_length = 4, df_union = DfltWord w\<rparr>"

text \<open>The build's table; \<open>lit\<close> gives the address the linker assigns to the literal of a key.\<close>

definition kvStoreDefaults :: "(nat \<Rightarrow> u32) \<Rightarrow> KVStoreDefaultEntry_t list" where
  "kvStoreDefaults lit =
     [KV_DFLT_STRING (lit 0) [], KV_DFLT_STRING (lit 1) [], KV_DFLT_UINT32 8883,
      KV_DFLT_STRING (lit 3) [], KV_DFLT_STRING (lit 4) [], KV_DFLT_UINT32 0]"

definition kvStoreKeyMap :: "string list" where
  "kvStoreKeyMap =
     [''thing_name'', ''mqtt_endpoint'', ''mqtt_port'', ''wifi_ssid'', ''wifi_credential'', ''time_hwm'']"

definition kvKeyToString :: "KVStoreKey_t \<Rightarrow> string option" where
  "kvKeyToString xKey = (if xKey < CS_NUM_KEYS then Some (kvStoreKeyMap ! xKey) else None)"

fun kvStringToKey_loop :: "string list \<Rightarrow> nat \<Rightarrow> string \<Rightarrow> KVStoreKey_t" where
  "kvStringToKey_loop [] i pcKey = CS_NUM_KEYS"
| "kvStringToKey_loop (m # ms) i pcKey =
     (if strcmp_eq m pcKey then i else kvStringToKey_loop ms (Suc i) pcKey)"

definition kvStringToKey :: "string \<Rightarrow> KVStoreKey_t" where
  "kvStringToKey pcKey = kvStringToKey_loop kvStoreKeyMap 0 pcKey"

subsection \<open>Reading and writing entries\<close>

text \<open>
  \<open>READ_ENTRY(key, NULL, &len, buf, size)\<close> yields whether it copied something, the type and
  length it stored through the out-pointers (none when it stored nothing) and the caller's buffer.
  \<open>WRITE_ENTRY(key, type, len, data)\<close> yields its result and the new store.
\<close>

type_synonym 's read_entry =
  "'s \<Rightarrow> KVStoreKey_t \<Rightarrow> byte list \<Rightarrow> nat \<Rightarrow> (bool \<times> (KVStoreValueType_t \<times> nat) option \<times> byte list) option"

type_synonym 's write_entry =
  "'s \<Rightarrow> KVStoreKey_t \<Rightarrow> KVStoreValueType_t \<Rightarrow> nat \<Rightarrow> byte list \<Rightarrow> (bool \<times> 's) option"

type_synonym defaults = "KVStoreDefaultEntry_t list"

abbreviation dfl_type :: "defaults \<Rightarrow> KVStoreKey_t \<Rightarrow> KVStoreValueType_t" where
  "dfl_type dfl key \<equiv> df_type (dfl ! key)"

text \<open>The copy of a default value: by pointer when it is longer than a pointer, else from the union.\<close>

definition read_default :: "KVStoreDefaultEntry_t \<Rightarrow> byte list \<Rightarrow> nat \<Rightarrow> byte list option" where
  "read_default e pvBuffer xBufferSize =
     (let xDataLen = (if xBufferSize < df_length e then xBufferSize else df_length e) in
      do { src \<leftarrow> (if SIZEOF_PTR < xDataLen
                  then (case df_union e of DfltPtr a bs \<Rightarrow> mem_read 0 xDataLen bs | DfltWord w \<Rightarrow> None)
                  else mem_read 0 xDataLen (union_bytes (df_union e)));
           mem_write 0 src pvBuffer })"

definition xReadEntryOrDefault ::
  "'s read_entry \<Rightarrow> defaults \<Rightarrow> 's \<Rightarrow> KVStoreKey_t \<Rightarrow> byte list \<Rightarrow> nat \<Rightarrow> (nat \<times> byte list) option" where
  "xReadEntryOrDefault rd dfl s xKey pvBuffer xBufferSize =
     do { configASSERT (xKey < CS_NUM_KEYS);
          (ok, stored, buf) \<leftarrow> rd s xKey pvBuffer xBufferSize;
          let xLength = (case stored of None \<Rightarrow> 0 | Some (t, l) \<Rightarrow> l);
          (if xLength = 0
           then do { buf' \<leftarrow> read_default (dfl ! xKey) buf xBufferSize;
                     Some (df_length (dfl ! xKey), buf') }
           else Some (xLength, buf)) }"

subsection \<open>Setters\<close>

definition KVStore_setBlob ::
  "'s write_entry \<Rightarrow> defaults \<Rightarrow> 's \<Rightarrow> KVStoreKey_t \<Rightarrow> nat \<Rightarrow> byte list option \<Rightarrow> (bool \<times> 's) option" where
  "KVStore_setBlob wr dfl s key xLength pvNewValue =
     (case pvNewValue of
        Some v \<Rightarrow> if key < CS_NUM_KEYS \<and> 0 < xLength \<and> dfl_type dfl key = KV_TYPE_BLOB
                  then wr s key KV_TYPE_BLOB xLength v else Some (False, s)
      | None \<Rightarrow> Some (False, s))"

text \<open>A C string argument is the list of its bytes without the terminator, which the copy includes.\<close>

definition KVStore_setString ::
  "'s write_entry \<Rightarrow> defaults \<Rightarrow> 's \<Rightarrow> KVStoreKey_t \<Rightarrow> byte list option \<Rightarrow> (bool \<times> 's) option" where
  "KVStore_setString wr dfl s key pcNewValue =
     (case pcNewValue of
        Some v \<Rightarrow> if key < CS_NUM_KEYS \<and> dfl_type dfl key = KV_TYPE_STRING
                  then wr s key KV_TYPE_STRING (length v + 1) (v @ [0]) else Some (False, s)
      | None \<Rightarrow> Some (False, s))"

definition KVStore_setUInt32 ::
  "'s write_entry \<Rightarrow> defaults \<Rightarrow> 's \<Rightarrow> KVStoreKey_t \<Rightarrow> u32 \<Rightarrow> (bool \<times> 's) option" where
  "KVStore_setUInt32 wr dfl s key ulNewVal =
     (if key < CS_NUM_KEYS \<and> dfl_type dfl key = KV_TYPE_UINT32
      then wr s key KV_TYPE_UINT32 4 (le_bytes ulNewVal) else Some (False, s))"

definition KVStore_setInt32 ::
  "'s write_entry \<Rightarrow> defaults \<Rightarrow> 's \<Rightarrow> KVStoreKey_t \<Rightarrow> u32 \<Rightarrow> (bool \<times> 's) option" where
  "KVStore_setInt32 wr dfl s key lNewVal =
     (if key < CS_NUM_KEYS \<and> dfl_type dfl key = KV_TYPE_INT32
      then wr s key KV_TYPE_INT32 4 (le_bytes lNewVal) else Some (False, s))"

definition KVStore_setUBase ::
  "'s write_entry \<Rightarrow> defaults \<Rightarrow> 's \<Rightarrow> KVStoreKey_t \<Rightarrow> u32 \<Rightarrow> (bool \<times> 's) option" where
  "KVStore_setUBase wr dfl s key uxNewVal =
     (if key < CS_NUM_KEYS \<and> dfl_type dfl key = KV_TYPE_UBASE_T
      then wr s key KV_TYPE_UBASE_T 4 (le_bytes uxNewVal) else Some (False, s))"

definition KVStore_setBase ::
  "'s write_entry \<Rightarrow> defaults \<Rightarrow> 's \<Rightarrow> KVStoreKey_t \<Rightarrow> u32 \<Rightarrow> (bool \<times> 's) option" where
  "KVStore_setBase wr dfl s key xNewVal =
     (if key < CS_NUM_KEYS \<and> dfl_type dfl key = KV_TYPE_BASE_T
      then wr s key KV_TYPE_BASE_T 4 (le_bytes xNewVal) else Some (False, s))"

subsection \<open>Getters\<close>

text \<open>\<open>len\<close> is the length the storage reports for a key.\<close>

definition KVStore_getSize :: "('s \<Rightarrow> KVStoreKey_t \<Rightarrow> nat option) \<Rightarrow> defaults \<Rightarrow> 's \<Rightarrow> KVStoreKey_t \<Rightarrow> nat option" where
  "KVStore_getSize len dfl s xKey =
     (if xKey < CS_NUM_KEYS
      then do { xDataLen \<leftarrow> len s xKey;
                Some (if xDataLen = 0 then df_length (dfl ! xKey) else xDataLen) }
      else Some 0)"

definition KVStore_getType :: "defaults \<Rightarrow> KVStoreKey_t \<Rightarrow> KVStoreValueType_t" where
  "KVStore_getType dfl key = (if key < CS_NUM_KEYS then dfl_type dfl key else KV_TYPE_NONE)"

definition KVStore_getBlob ::
  "'s read_entry \<Rightarrow> defaults \<Rightarrow> 's \<Rightarrow> KVStoreKey_t \<Rightarrow> byte list option \<Rightarrow> nat \<Rightarrow> (nat \<times> byte list option) option" where
  "KVStore_getBlob rd dfl s key pvBuffer xMaxLength =
     (case pvBuffer of
        Some buf \<Rightarrow>
          if key < CS_NUM_KEYS \<and> dfl_type dfl key = KV_TYPE_BLOB
          then do { (xLength, buf') \<leftarrow> xReadEntryOrDefault rd dfl s key buf xMaxLength;
                    Some (xLength, Some buf') }
          else Some (0, Some buf)
      | None \<Rightarrow> Some (0, None))"

text \<open>\<open>pcBuffer[xMaxLength - 1] = 0\<close> is outside the object when \<open>xMaxLength\<close> is 0.\<close>

definition KVStore_getString ::
  "'s read_entry \<Rightarrow> defaults \<Rightarrow> 's \<Rightarrow> KVStoreKey_t \<Rightarrow> byte list option \<Rightarrow> nat \<Rightarrow> (nat \<times> byte list option) option" where
  "KVStore_getString rd dfl s key pcBuffer xMaxLength =
     do { (xSizeWritten, b) \<leftarrow>
            (case pcBuffer of
               Some buf \<Rightarrow>
                 if key < CS_NUM_KEYS \<and> dfl_type dfl key = KV_TYPE_STRING
                 then do { (n, buf1) \<leftarrow> xReadEntryOrDefault rd dfl s key buf xMaxLength;
                           buf2 \<leftarrow> (if xMaxLength = 0 then None else arr_set (xMaxLength - 1) 0 buf1);
                           Some (n, Some buf2) }
                 else Some (0, Some buf)
             | None \<Rightarrow> Some (0, None));
          Some (if 0 < xSizeWritten then xSizeWritten - 1 else xSizeWritten, b) }"

text \<open>
  The \<open>Heap\<close> variants allocate the buffer: \<open>mal n\<close> is the buffer \<open>pvPortMalloc\<close> gives for
  \<open>n\<close> bytes, \<open>None\<close> for NULL. They return the buffer pointer and what they store in \<open>*pxLength\<close>.
\<close>

definition KVStore_getBlobHeap ::
  "('s \<Rightarrow> KVStoreKey_t \<Rightarrow> nat option) \<Rightarrow> 's read_entry \<Rightarrow> (nat \<Rightarrow> byte list option) \<Rightarrow> defaults \<Rightarrow> 's \<Rightarrow>
   KVStoreKey_t \<Rightarrow> (byte list option \<times> nat) option" where
  "KVStore_getBlobHeap len rd mal dfl s key =
     do { xLen \<leftarrow> KVStore_getSize len dfl s key;
          (if 0 < xLen
           then (case mal xLen of
                   Some buf \<Rightarrow>
                     do { (n, b) \<leftarrow> KVStore_getBlob rd dfl s key (Some buf) xLen;
                          Some (if n = 0 then (None, 0) else (b, xLen)) }
                 | None \<Rightarrow> Some (None, xLen))
           else Some (None, xLen)) }"

definition KVStore_getStringHeap ::
  "('s \<Rightarrow> KVStoreKey_t \<Rightarrow> nat option) \<Rightarrow> 's read_entry \<Rightarrow> (nat \<Rightarrow> byte list option) \<Rightarrow> defaults \<Rightarrow> 's \<Rightarrow>
   KVStoreKey_t \<Rightarrow> (byte list option \<times> nat) option" where
  "KVStore_getStringHeap len rd mal dfl s key =
     do { xLen \<leftarrow> KVStore_getSize len dfl s key;
          (pcBuffer, xLen') \<leftarrow>
            (if 0 < xLen
             then (case mal xLen of
                     Some buf \<Rightarrow>
                       do { (n, b) \<leftarrow> KVStore_getString rd dfl s key (Some buf) xLen;
                            Some (if n = 0 then (None, 0) else (b, xLen)) }
                   | None \<Rightarrow> Some (None, xLen))
             else Some (None, xLen));
          Some (pcBuffer, u32_sub xLen' 1) }"

text \<open>The four scalar getters share their shape: the type they test is the only difference.\<close>

definition get_scalar ::
  "'s read_entry \<Rightarrow> defaults \<Rightarrow> 's \<Rightarrow> KVStoreValueType_t \<Rightarrow> KVStoreKey_t \<Rightarrow> (u32 \<times> bool) option" where
  "get_scalar rd dfl s t key =
     do { (xSizeWritten, buf) \<leftarrow>
            (if key < CS_NUM_KEYS \<and> dfl_type dfl key = t
             then xReadEntryOrDefault rd dfl s key (le_bytes 0) 4
             else Some (0, le_bytes 0));
          Some (le_word buf, xSizeWritten = 4) }"

definition KVStore_getUInt32 :: "'s read_entry \<Rightarrow> defaults \<Rightarrow> 's \<Rightarrow> KVStoreKey_t \<Rightarrow> (u32 \<times> bool) option" where
  "KVStore_getUInt32 rd dfl s key = get_scalar rd dfl s KV_TYPE_UINT32 key"

definition KVStore_getInt32 :: "'s read_entry \<Rightarrow> defaults \<Rightarrow> 's \<Rightarrow> KVStoreKey_t \<Rightarrow> (u32 \<times> bool) option" where
  "KVStore_getInt32 rd dfl s key = get_scalar rd dfl s KV_TYPE_INT32 key"

definition KVStore_getBase :: "'s read_entry \<Rightarrow> defaults \<Rightarrow> 's \<Rightarrow> KVStoreKey_t \<Rightarrow> (u32 \<times> bool) option" where
  "KVStore_getBase rd dfl s key = get_scalar rd dfl s KV_TYPE_BASE_T key"

text \<open>The source tests \<open>KV_TYPE_BASE_T\<close> here too.\<close>

definition KVStore_getUBase :: "'s read_entry \<Rightarrow> defaults \<Rightarrow> 's \<Rightarrow> KVStoreKey_t \<Rightarrow> (u32 \<times> bool) option" where
  "KVStore_getUBase rd dfl s key = get_scalar rd dfl s KV_TYPE_BASE_T key"


subsection \<open>Well-formed defaults\<close>

definition wf_default :: "KVStoreDefaultEntry_t \<Rightarrow> bool" where
  "wf_default e =
     (df_length e < 2 ^ 32 \<and>
      (case df_union e of DfltPtr a bs \<Rightarrow> df_length e \<le> length bs | DfltWord w \<Rightarrow> df_length e = 4))"

definition wf_defaults :: "defaults \<Rightarrow> bool" where
  "wf_defaults dfl = (length dfl = CS_NUM_KEYS \<and> list_all wf_default dfl)"

lemma wf_kvStoreDefaults: "wf_defaults (kvStoreDefaults lit)"
  by (simp add: wf_defaults_def kvStoreDefaults_def wf_default_def KV_DFLT_STRING_def KV_DFLT_UINT32_def)

lemma wf_defaultsD: "wf_defaults dfl \<Longrightarrow> k < 6 \<Longrightarrow> wf_default (dfl ! k)"
  by (simp add: wf_defaults_def list_all_length)

text \<open>Copying a default never fails: the buffer keeps its size and gets at most \<open>n\<close> bytes.\<close>

lemma read_default_total:
  assumes "wf_default e" "n \<le> length buf"
  obtains src where "read_default e buf n = Some (overwrite 0 src buf)" "length src = min n (df_length e)"
proof -
  let ?d = "if n < df_length e then n else df_length e"
  have d: "?d = min n (df_length e)" by simp
  consider (ptr) a bs where "df_union e = DfltPtr a bs" "df_length e \<le> length bs"
    | (word) w where "df_union e = DfltWord w" "df_length e = 4"
    using assms(1) by (auto simp: wf_default_def split: kv_default_val.splits)
  then show thesis
  proof cases
    case ptr
    then have "?d \<le> length bs" by simp
    then show ?thesis
      using that [of "take ?d (if 4 < ?d then bs else union_bytes (df_union e))"] ptr assms(2)
      by (cases "4 < ?d") (auto simp: read_default_def Let_def)
  next
    case word
    then show ?thesis
      using that [of "take ?d (union_bytes (df_union e))"] assms(2)
      by (auto simp: read_default_def Let_def)
  qed
qed

subsection \<open>The contract of the storage\<close>

definition storable :: "KVStoreValueType_t \<Rightarrow> bool" where
  "storable t = (t \<in> {KV_TYPE_BASE_T, KV_TYPE_UBASE_T, KV_TYPE_INT32, KV_TYPE_UINT32, KV_TYPE_STRING, KV_TYPE_BLOB})"

lemma storable_simps [simp]:
  "storable KV_TYPE_BASE_T" "storable KV_TYPE_UBASE_T" "storable KV_TYPE_INT32"
  "storable KV_TYPE_UINT32" "storable KV_TYPE_STRING" "storable KV_TYPE_BLOB"
  by (simp_all add: storable_def)

text \<open>
  \<open>view s k\<close> is the value held for a key, as a map; \<open>inv\<close> is what every operation keeps.
\<close>

locale kv_backend =
  fixes rd :: "'s read_entry"
    and wr :: "'s write_entry"
    and len :: "'s \<Rightarrow> KVStoreKey_t \<Rightarrow> nat option"
    and inv :: "'s \<Rightarrow> bool"
    and view :: "'s \<Rightarrow> KVStoreKey_t \<Rightarrow> (KVStoreValueType_t \<times> byte list) option"
  assumes rd_hit: "inv s \<Longrightarrow> k < CS_NUM_KEYS \<Longrightarrow> view s k = Some (t, v) \<Longrightarrow> n \<le> length buf \<Longrightarrow>
      rd s k buf n = Some (0 < min n (length v), Some (t, length v), overwrite 0 (take n v) buf)"
    and rd_miss: "inv s \<Longrightarrow> k < CS_NUM_KEYS \<Longrightarrow> view s k = None \<Longrightarrow>
      rd s k buf n = Some (False, None, buf) \<or> (\<exists>t. rd s k buf n = Some (False, Some (t, 0), buf))"
    and view_nonempty: "inv s \<Longrightarrow> view s k = Some (t, v) \<Longrightarrow> v \<noteq> []"
    and len_hit: "inv s \<Longrightarrow> k < CS_NUM_KEYS \<Longrightarrow> view s k = Some (t, v) \<Longrightarrow> len s k = Some (length v)"
    and wr_result: "inv s \<Longrightarrow> k < CS_NUM_KEYS \<Longrightarrow> storable t \<Longrightarrow> 0 < n \<Longrightarrow> n \<le> length v \<Longrightarrow>
      wr s k t n v = Some (r, s') \<Longrightarrow> r \<and> inv s' \<and> view s' = (view s)(k \<mapsto> (t, take n v))"
begin

lemma read_value:
  assumes "inv s" "k < CS_NUM_KEYS" "view s k = Some (t, v)" "n \<le> length buf"
  shows "xReadEntryOrDefault rd dfl s k buf n = Some (length v, overwrite 0 (take n v) buf)"
proof -
  from view_nonempty [OF assms(1,3)] have "length v \<noteq> 0" by simp
  then show ?thesis
    using rd_hit [OF assms] assms(2) by (simp add: xReadEntryOrDefault_def)
qed

lemma read_dflt:
  assumes "inv s" "k < CS_NUM_KEYS" "view s k = None"
  shows "xReadEntryOrDefault rd dfl s k buf n =
    do { buf' \<leftarrow> read_default (dfl ! k) buf n; Some (df_length (dfl ! k), buf') }"
  using rd_miss [OF assms, of buf n] assms(2) by (auto simp: xReadEntryOrDefault_def)

lemma setString_view:
  assumes "inv s" "KVStore_setString wr dfl s k (Some v) = Some (True, s')"
  shows "inv s' \<and> view s' = (view s)(k \<mapsto> (KV_TYPE_STRING, v @ [0])) \<and>
    k < CS_NUM_KEYS \<and> dfl_type dfl k = KV_TYPE_STRING"
proof -
  from assms(2) have k: "k < CS_NUM_KEYS" "dfl_type dfl k = KV_TYPE_STRING"
    and w: "wr s k KV_TYPE_STRING (length v + 1) (v @ [0]) = Some (True, s')"
    by (auto simp: KVStore_setString_def split: if_splits)
  from wr_result [OF assms(1) k(1) _ _ _ w] k show ?thesis by simp
qed

text \<open>
  What a string getter yields: the bytes that fit and a terminator in the buffer's last place; the
  returned count is the stored length, also when the copy was cut.
\<close>

lemma getString_value:
  assumes "inv s" "k < CS_NUM_KEYS" "dfl_type dfl k = KV_TYPE_STRING"
    and "view s k = Some (t, v)" "0 < n" "n \<le> length buf"
  shows "KVStore_getString rd dfl s k (Some buf) n =
    Some (length v - 1, Some ((overwrite 0 (take n v) buf)[n - 1 := 0]))"
proof -
  from view_nonempty [OF assms(1,4)] have "0 < length v" by simp
  moreover have "n - 1 < length (overwrite 0 (take n v) buf)" using assms(5,6) by simp
  ultimately show ?thesis
    using read_value [OF assms(1,2,4,6), of dfl] assms(2,3,5) by (simp add: KVStore_getString_def)
qed

lemma set_getString:
  assumes "inv s" "KVStore_setString wr dfl s k (Some v) = Some (True, s')"
    and "length v < n" "n \<le> length buf"
  shows "\<exists>buf'. KVStore_getString rd dfl s' k (Some buf) n = Some (length v, Some buf') \<and>
    take (length v + 1) buf' = v @ [0]"
proof -
  note sv = setString_view [OF assms(1,2)]
  let ?b = "(overwrite 0 (v @ [0]) buf)[n - 1 := 0]"
  have eq: "take n (v @ [0]) = v @ [0]" using assms(3) by simp
  from sv have "KVStore_getString rd dfl s' k (Some buf) n = Some (length (v @ [0]) - 1, Some ?b)"
    using getString_value [of s' k dfl KV_TYPE_STRING "v @ [0]" n buf] assms(3,4) by (simp add: eq)
  moreover have "take (length v + 1) ?b = v @ [0]"
  proof (cases "n - 1 = length v")
    case True
    then show ?thesis using assms(3,4) by (simp add: overwrite_def list_update_append)
  next
    case False
    then have "length v + 1 \<le> n - 1" using assms(3) by simp
    then show ?thesis by (simp add: overwrite_def take_update_cancel)
  qed
  ultimately show ?thesis by auto
qed

lemma setScalar_view:
  assumes "inv s" "k < CS_NUM_KEYS" "storable t" "wr s k t 4 (le_bytes w) = Some (r, s')"
  shows "r \<and> inv s' \<and> view s' = (view s)(k \<mapsto> (t, le_bytes w))"
  using wr_result [OF assms(1-3) _ _ assms(4)] by simp

lemma getScalar_value:
  assumes "inv s" "k < CS_NUM_KEYS" "dfl_type dfl k = t" "view s k = Some (t', le_bytes w)"
  shows "get_scalar rd dfl s t k = Some (w, True)"
  using read_value [OF assms(1,2,4), of 4 "le_bytes 0" dfl] assms(2,3) by (simp add: get_scalar_def)

text \<open>A string that is not empty is returned in a buffer of its own, with its length.\<close>

lemma getStringHeap_value:
  assumes "inv s" "k < CS_NUM_KEYS" "dfl_type dfl k = KV_TYPE_STRING" "view s k = Some (t, v @ [0])" "v \<noteq> []"
    and "mal (length v + 1) = Some buf" "length buf = length v + 1" "length v + 1 < 2 ^ 32"
  shows "KVStore_getStringHeap len rd mal dfl s k = Some (Some (v @ [0]), length v)"
proof -
  have "KVStore_getSize len dfl s k = Some (length v + 1)"
    using len_hit [OF assms(1,2,4)] assms(2) by (simp add: KVStore_getSize_def)
  moreover have "KVStore_getString rd dfl s k (Some buf) (length v + 1) = Some (length v, Some (v @ [0]))"
    using getString_value [OF assms(1-4), of "length v + 1" buf] assms(7) by (simp add: list_update_append)
  ultimately show ?thesis using assms(5,6,8) by (simp add: KVStore_getStringHeap_def)
qed

text \<open>Getters depend on the view of their key only.\<close>

lemma getString_frame:
  assumes "inv s" "inv s'" "view s k = view s' k" "0 < n" "n \<le> length buf"
  shows "KVStore_getString rd dfl s k (Some buf) n = KVStore_getString rd dfl s' k (Some buf) n"
proof (cases "k < CS_NUM_KEYS \<and> dfl_type dfl k = KV_TYPE_STRING")
  case True
  then show ?thesis
  proof (cases "view s k")
    case None
    then have "xReadEntryOrDefault rd dfl s k buf n = xReadEntryOrDefault rd dfl s' k buf n"
      using True read_dflt [OF assms(1)] read_dflt [OF assms(2)] assms(3) by simp
    then show ?thesis by (simp add: KVStore_getString_def)
  next
    case (Some tv)
    then show ?thesis
      using True getString_value [OF assms(1)] getString_value [OF assms(2)] assms(3-5)
      by (cases tv) simp
  qed
next
  case False
  then show ?thesis by (auto simp: KVStore_getString_def)
qed

end

end
