(* ===== verification/KvCache.thy ===== *)
theory KvCache
  imports KvStore
begin

text \<open>
  The RAM cache behind the key/value store (\<open>src/source/kvstore/kvstore_cache.c\<close>).

  A cache entry keeps its value in a 32 bit union when the value is at most as long as a pointer,
  else in a heap buffer whose address the union holds. The union is modelled as the word it is,
  and the heap as a map from addresses to buffers, so that reusing, replacing and losing a buffer
  are what they are in the code. \<open>pvPortMalloc\<close> is not under \<open>src/\<close>: it is the argument
  \<open>mal\<close>, and \<open>malloc_spec\<close> is what its documentation promises.
\<close>

subsection \<open>State\<close>

type_synonym kv_heap = "u32 \<rightharpoonup> byte list"

text \<open>\<open>mal h n\<close>: the address and the contents of a new buffer of \<open>n\<close> bytes; \<open>None\<close> for NULL.\<close>

type_synonym malloc = "kv_heap \<Rightarrow> nat \<Rightarrow> (u32 \<times> byte list) option"

definition malloc_spec :: "malloc \<Rightarrow> bool" where
  "malloc_spec mal =
     (\<forall>h n a b. mal h n = Some (a, b) \<longrightarrow> a \<noteq> 0 \<and> h a = None \<and> length b = n)"

record KVStoreCacheEntry_t =
  ce_type :: KVStoreValueType_t
  ce_length :: nat
  ce_union :: u32
  ce_pending :: bool

record kv_state =
  kvStoreCache :: "KVStoreCacheEntry_t list"
  heap :: kv_heap

definition empty_entry :: KVStoreCacheEntry_t where
  "empty_entry = \<lparr>ce_type = KV_TYPE_NONE, ce_length = 0, ce_union = 0, ce_pending = False\<rparr>"

definition kv_boot :: kv_state where
  "kv_boot = \<lparr>kvStoreCache = replicate CS_NUM_KEYS empty_entry, heap = Map.empty\<rparr>"

abbreviation entry :: "kv_state \<Rightarrow> KVStoreKey_t \<Rightarrow> KVStoreCacheEntry_t" where
  "entry s k \<equiv> kvStoreCache s ! k"

definition set_entry :: "KVStoreKey_t \<Rightarrow> KVStoreCacheEntry_t \<Rightarrow> kv_state \<Rightarrow> kv_state" where
  "set_entry k e s = s\<lparr>kvStoreCache := (kvStoreCache s)[k := e]\<rparr>"

subsection \<open>Pointers into the cache\<close>

text \<open>A data pointer is NULL, the address of an entry's union, or a heap address.\<close>

datatype kv_ptr = PNull | PInline KVStoreKey_t | PHeap u32

definition heap_ptr :: "u32 \<Rightarrow> kv_ptr" where
  "heap_ptr a = (if a = 0 then PNull else PHeap a)"

definition pvGetDataWritePtr :: "kv_state \<Rightarrow> KVStoreKey_t \<Rightarrow> kv_ptr option" where
  "pvGetDataWritePtr s key =
     (let pvData = (if SIZEOF_PTR < ce_length (entry s key) then heap_ptr (ce_union (entry s key))
                    else PInline key)
      in do { configASSERT (pvData \<noteq> PNull); Some pvData })"

definition pvGetDataReadPtr :: "kv_state \<Rightarrow> KVStoreKey_t \<Rightarrow> kv_ptr" where
  "pvGetDataReadPtr s key =
     (if ce_type (entry s key) = KV_TYPE_NONE then PNull
      else if SIZEOF_PTR < ce_length (entry s key) then heap_ptr (ce_union (entry s key))
      else PInline key)"

text \<open>Copying through such a pointer; \<open>None\<close> for NULL, a freed buffer or one that is too short.\<close>

definition kv_load :: "kv_state \<Rightarrow> kv_ptr \<Rightarrow> nat \<Rightarrow> byte list option" where
  "kv_load s p n =
     (case p of
        PNull \<Rightarrow> None
      | PInline k \<Rightarrow> mem_read 0 n (le_bytes (ce_union (entry s k)))
      | PHeap a \<Rightarrow> (case heap s a of None \<Rightarrow> None | Some b \<Rightarrow> mem_read 0 n b))"

definition kv_copy :: "kv_state \<Rightarrow> kv_ptr \<Rightarrow> byte list \<Rightarrow> kv_state option" where
  "kv_copy s p xs =
     (case p of
        PNull \<Rightarrow> None
      | PInline k \<Rightarrow> do { b \<leftarrow> mem_write 0 xs (le_bytes (ce_union (entry s k)));
                         Some (set_entry k ((entry s k)\<lparr>ce_union := le_word b\<rparr>) s) }
      | PHeap a \<Rightarrow> (case heap s a of
                     None \<Rightarrow> None
                   | Some b \<Rightarrow> do { b' \<leftarrow> mem_write 0 xs b; Some (s\<lparr>heap := (heap s)(a \<mapsto> b')\<rparr>) }))"

subsection \<open>Buffers of an entry\<close>

definition vAllocateDataBuffer :: "malloc \<Rightarrow> kv_state \<Rightarrow> KVStoreKey_t \<Rightarrow> nat \<Rightarrow> kv_state" where
  "vAllocateDataBuffer mal s key xNewLength =
     (if SIZEOF_PTR < xNewLength
      then (case mal (heap s) xNewLength of
              Some (a, b) \<Rightarrow> set_entry key ((entry s key)\<lparr>ce_union := a, ce_length := xNewLength\<rparr>)
                               (s\<lparr>heap := (heap s)(a \<mapsto> b)\<rparr>)
            | None \<Rightarrow> set_entry key ((entry s key)\<lparr>ce_union := 0, ce_length := xNewLength\<rparr>) s)
      else set_entry key ((entry s key)\<lparr>ce_union := 0, ce_length := xNewLength\<rparr>) s)"

text \<open>\<open>vPortFree\<close> releases a buffer; of NULL it does nothing.\<close>

definition vPortFree :: "u32 \<Rightarrow> kv_state \<Rightarrow> kv_state" where
  "vPortFree a s = (if a = 0 then s else s\<lparr>heap := (heap s)(a := None)\<rparr>)"

definition vClearDataBuffer :: "kv_state \<Rightarrow> KVStoreKey_t \<Rightarrow> kv_state" where
  "vClearDataBuffer s key =
     (if SIZEOF_PTR < ce_length (entry s key)
      then set_entry key ((entry s key)\<lparr>ce_union := 0, ce_length := 0\<rparr>)
             (vPortFree (ce_union (entry s key)) s)
      else set_entry key ((entry s key)\<lparr>ce_length := 0, ce_union := 0\<rparr>) s)"

definition vReallocDataBuffer :: "malloc \<Rightarrow> kv_state \<Rightarrow> KVStoreKey_t \<Rightarrow> nat \<Rightarrow> kv_state" where
  "vReallocDataBuffer mal s key xNewLength =
     (if ce_length (entry s key) < xNewLength
      then vAllocateDataBuffer mal (vClearDataBuffer s key) key xNewLength
      else set_entry key ((entry s key)\<lparr>ce_length := xNewLength\<rparr>) s)"

subsection \<open>Entry operations\<close>

definition prvGetCacheEntryLength :: "kv_state \<Rightarrow> KVStoreKey_t \<Rightarrow> nat option" where
  "prvGetCacheEntryLength s xKey =
     do { configASSERT (xKey < CS_NUM_KEYS); Some (ce_length (entry s xKey)) }"

definition prvGetCacheEntryType :: "kv_state \<Rightarrow> KVStoreKey_t \<Rightarrow> KVStoreValueType_t option" where
  "prvGetCacheEntryType s xKey =
     do { configASSERT (xKey < CS_NUM_KEYS); Some (ce_type (entry s xKey)) }"

text \<open>\<open>xNewType < KV_TYPE_LAST\<close>\<close>

definition below_last :: "KVStoreValueType_t \<Rightarrow> bool" where
  "below_last t = (case t of KV_TYPE_LAST \<Rightarrow> False | KV_TYPE_RAW n \<Rightarrow> False | _ \<Rightarrow> True)"

definition mark_changed :: "KVStoreKey_t \<Rightarrow> KVStoreValueType_t \<Rightarrow> kv_state \<Rightarrow> kv_state" where
  "mark_changed k t s = set_entry k ((entry s k)\<lparr>ce_type := t, ce_pending := True\<rparr>) s"

text \<open>The four-way test that sizes the buffer and decides whether the value is to be stored.\<close>

definition prepare_entry :: "malloc \<Rightarrow> kv_state \<Rightarrow> KVStoreKey_t \<Rightarrow> KVStoreValueType_t \<Rightarrow> nat \<Rightarrow> byte list \<Rightarrow> kv_state option" where
  "prepare_entry mal s xKey xNewType xLength new =
     (if ce_type (entry s xKey) = KV_TYPE_NONE
      then Some (mark_changed xKey xNewType (vAllocateDataBuffer mal s xKey xLength))
      else if ce_length (entry s xKey) \<noteq> xLength
      then Some (mark_changed xKey xNewType (vReallocDataBuffer mal s xKey xLength))
      else if ce_type (entry s xKey) \<noteq> xNewType
      then Some (mark_changed xKey xNewType s)
      else (case pvGetDataReadPtr s xKey of
              PNull \<Rightarrow> Some (set_entry xKey ((entry s xKey)\<lparr>ce_pending := True\<rparr>) s)
            | p \<Rightarrow> do { old \<leftarrow> kv_load s p xLength;
                        Some (if old \<noteq> new then set_entry xKey ((entry s xKey)\<lparr>ce_pending := True\<rparr>) s
                              else s) }))"

definition xprvWriteCacheEntry :: "malloc \<Rightarrow> kv_state write_entry" where
  "xprvWriteCacheEntry mal s xKey xNewType xLength pvNewValue =
     do { configASSERT (xKey < CS_NUM_KEYS);
          configASSERT (below_last xNewType);
          configASSERT (0 < xLength);
          new \<leftarrow> mem_read 0 xLength pvNewValue;
          s1 \<leftarrow> prepare_entry mal s xKey xNewType xLength new;
          s2 \<leftarrow> (if ce_pending (entry s1 xKey)
                then do { p \<leftarrow> pvGetDataWritePtr s1 xKey; kv_copy s1 p new }
                else Some s1);
          Some (True, s2) }"

definition xprvCopyValueFromCache :: "kv_state read_entry" where
  "xprvCopyValueFromCache s xKey pvBuffer xBufferSize =
     do { configASSERT (xKey < CS_NUM_KEYS);
          (case pvGetDataReadPtr s xKey of
             PNull \<Rightarrow> Some (False, None, pvBuffer)
           | p \<Rightarrow>
             let l = ce_length (entry s xKey); xDataLen = (if xBufferSize < l then xBufferSize else l) in
             do { d \<leftarrow> kv_load s p xDataLen;
                  buf \<leftarrow> mem_write 0 d pvBuffer;
                  Some (0 < xDataLen, Some (ce_type (entry s xKey), l), buf) }) }"

text \<open>
  \<open>KVStore_xCommitChanges\<close> with the storage below the cache as an argument: \<open>wri fs key type
  len data\<close> writes a value to it (\<open>data\<close> is \<open>None\<close> for a NULL pointer).
\<close>

type_synonym 'f write_impl =
  "'f \<Rightarrow> KVStoreKey_t \<Rightarrow> KVStoreValueType_t \<Rightarrow> nat \<Rightarrow> byte list option \<Rightarrow> (bool \<times> 'f) option"

definition commit_one :: "'f write_impl \<Rightarrow> kv_state \<Rightarrow> KVStoreKey_t \<Rightarrow> bool \<times> 'f \<Rightarrow> (bool \<times> 'f) option" where
  "commit_one wri s i acc =
     (case acc of (xSuccess, fs) \<Rightarrow>
        if ce_pending (entry s i)
        then (case pvGetDataReadPtr s i of
                PNull \<Rightarrow> do { (r, fs') \<leftarrow> wri fs i (ce_type (entry s i)) (ce_length (entry s i)) None;
                             Some (xSuccess \<and> r, fs') }
              | p \<Rightarrow> do { d \<leftarrow> kv_load s p (ce_length (entry s i));
                         (r, fs') \<leftarrow> wri fs i (ce_type (entry s i)) (ce_length (entry s i)) (Some d);
                         Some (xSuccess \<and> r, fs') })
        else Some (xSuccess, fs))"

fun commit_loop :: "'f write_impl \<Rightarrow> kv_state \<Rightarrow> KVStoreKey_t list \<Rightarrow> bool \<times> 'f \<Rightarrow> (bool \<times> 'f) option" where
  "commit_loop wri s [] acc = Some acc"
| "commit_loop wri s (i # is) acc = do { acc' \<leftarrow> commit_one wri s i acc; commit_loop wri s is acc' }"

definition KVStore_xCommitChanges :: "'f write_impl \<Rightarrow> kv_state \<Rightarrow> 'f \<Rightarrow> (bool \<times> 'f) option" where
  "KVStore_xCommitChanges wri s fs = commit_loop wri s [0..<CS_NUM_KEYS] (True, fs)"

text \<open>
  \<open>vprvCacheInit\<close>: \<open>nvlen\<close> and \<open>nvread\<close> are the storage's length and read functions.
  \<open>nvread fs key size\<close> gives what it stored through its out-pointers (type and length, nothing
  when it fails) and the bytes it wrote to the start of the caller's buffer.
\<close>

type_synonym 'f read_impl = "'f \<Rightarrow> KVStoreKey_t \<Rightarrow> nat \<Rightarrow> ((KVStoreValueType_t \<times> nat) option \<times> byte list) option"

definition init_one :: "malloc \<Rightarrow> ('f \<Rightarrow> KVStoreKey_t \<Rightarrow> nat) \<Rightarrow> 'f read_impl \<Rightarrow> 'f \<Rightarrow> kv_state \<Rightarrow> KVStoreKey_t \<Rightarrow> kv_state option" where
  "init_one mal nvlen nvread fs s i =
     (let s1 = set_entry i ((entry s i)\<lparr>ce_pending := False, ce_type := KV_TYPE_NONE\<rparr>) s;
          xNvLength = nvlen fs i in
      if 0 < xNvLength
      then let s2 = vAllocateDataBuffer mal s1 i xNvLength in
           do { p \<leftarrow> pvGetDataWritePtr s2 i;
                (stored, d) \<leftarrow> nvread fs i (ce_length (entry s2 i));
                s3 \<leftarrow> kv_copy s2 p d;
                Some (case stored of
                        None \<Rightarrow> s3
                      | Some (t, l) \<Rightarrow> set_entry i ((entry s3 i)\<lparr>ce_type := t, ce_length := l\<rparr>) s3) }
      else Some s1)"

fun init_loop :: "malloc \<Rightarrow> ('f \<Rightarrow> KVStoreKey_t \<Rightarrow> nat) \<Rightarrow> 'f read_impl \<Rightarrow> 'f \<Rightarrow> KVStoreKey_t list \<Rightarrow> kv_state \<Rightarrow> kv_state option" where
  "init_loop mal nvlen nvread fs [] s = Some s"
| "init_loop mal nvlen nvread fs (i # is) s =
     do { s' \<leftarrow> init_one mal nvlen nvread fs s i; init_loop mal nvlen nvread fs is s' }"

definition vprvCacheInit :: "malloc \<Rightarrow> ('f \<Rightarrow> KVStoreKey_t \<Rightarrow> nat) \<Rightarrow> 'f read_impl \<Rightarrow> 'f \<Rightarrow> kv_state \<Rightarrow> kv_state option" where
  "vprvCacheInit mal nvlen nvread fs s = init_loop mal nvlen nvread fs [0..<CS_NUM_KEYS] s"


subsection \<open>Invariant and abstract view\<close>

text \<open>An entry whose value is in a heap buffer.\<close>

definition on_heap :: "kv_state \<Rightarrow> KVStoreKey_t \<Rightarrow> bool" where
  "on_heap s k = (k < CS_NUM_KEYS \<and> ce_type (entry s k) \<noteq> KV_TYPE_NONE \<and> SIZEOF_PTR < ce_length (entry s k))"

text \<open>No other entry's value is in the buffer at \<open>a\<close>.\<close>

definition unshared :: "kv_state \<Rightarrow> KVStoreKey_t \<Rightarrow> u32 \<Rightarrow> bool" where
  "unshared s k a = (\<forall>j. j \<noteq> k \<longrightarrow> on_heap s j \<longrightarrow> ce_union (entry s j) \<noteq> a)"

text \<open>The buffer of entry \<open>k\<close>, if it has one, exists, is long enough and belongs to it alone.\<close>

definition buffer_ok :: "kv_state \<Rightarrow> KVStoreKey_t \<Rightarrow> bool" where
  "buffer_ok s k =
     (\<exists>b. heap s (ce_union (entry s k)) = Some b \<and> ce_length (entry s k) \<le> length b \<and>
          unshared s k (ce_union (entry s k)))"

definition cache_inv :: "kv_state \<Rightarrow> bool" where
  "cache_inv s =
     (length (kvStoreCache s) = CS_NUM_KEYS \<and> heap s 0 = None \<and>
      (\<forall>k. on_heap s k \<longrightarrow> buffer_ok s k) \<and>
      (\<forall>k < CS_NUM_KEYS. ce_pending (entry s k) \<longrightarrow> ce_type (entry s k) \<noteq> KV_TYPE_NONE))"

definition entry_data :: "kv_state \<Rightarrow> KVStoreKey_t \<Rightarrow> byte list" where
  "entry_data s k =
     (if SIZEOF_PTR < ce_length (entry s k)
      then take (ce_length (entry s k)) (case heap s (ce_union (entry s k)) of Some b \<Rightarrow> b | None \<Rightarrow> [])
      else take (ce_length (entry s k)) (le_bytes (ce_union (entry s k))))"

definition kv_view :: "kv_state \<Rightarrow> KVStoreKey_t \<Rightarrow> (KVStoreValueType_t \<times> byte list) option" where
  "kv_view s k =
     (if k < CS_NUM_KEYS \<and> ce_type (entry s k) \<noteq> KV_TYPE_NONE \<and> 0 < ce_length (entry s k)
      then Some (ce_type (entry s k), entry_data s k) else None)"

lemma cache_invD:
  assumes "cache_inv s"
  shows "length (kvStoreCache s) = 6" "heap s 0 = None" "on_heap s k \<Longrightarrow> buffer_ok s k"
    "k < 6 \<Longrightarrow> ce_pending (entry s k) \<Longrightarrow> ce_type (entry s k) \<noteq> KV_TYPE_NONE"
  using assms by (simp_all add: cache_inv_def)

lemma cache_inv_boot: "cache_inv kv_boot"
  by (auto simp: cache_inv_def kv_boot_def on_heap_def empty_entry_def)

lemma kv_view_boot [simp]: "kv_view kv_boot = Map.empty"
  by (rule ext) (simp add: kv_view_def kv_boot_def empty_entry_def)

lemma on_heap_ptr:
  assumes "cache_inv s" "on_heap s k"
  shows "heap_ptr (ce_union (entry s k)) = PHeap (ce_union (entry s k))"
  using cache_invD(2) [OF assms(1)] cache_invD(3) [OF assms(1) assms(2)]
  by (auto simp: heap_ptr_def buffer_ok_def)

lemma read_ptr:
  assumes "cache_inv s" "k < 6" "ce_type (entry s k) \<noteq> KV_TYPE_NONE"
  shows "pvGetDataReadPtr s k =
    (if 4 < ce_length (entry s k) then PHeap (ce_union (entry s k)) else PInline k)"
  using assms on_heap_ptr [OF assms(1), of k] by (simp add: pvGetDataReadPtr_def on_heap_def)

lemma load_entry:
  assumes "cache_inv s" "k < 6" "ce_type (entry s k) \<noteq> KV_TYPE_NONE" "n \<le> ce_length (entry s k)"
  shows "kv_load s (pvGetDataReadPtr s k) n = Some (take n (entry_data s k))"
proof (cases "4 < ce_length (entry s k)")
  case True
  with assms have "buffer_ok s k" using cache_invD(3) [OF assms(1)] by (simp add: on_heap_def)
  then obtain b where "heap s (ce_union (entry s k)) = Some b" "ce_length (entry s k) \<le> length b"
    by (auto simp: buffer_ok_def)
  then show ?thesis using True assms by (simp add: read_ptr kv_load_def entry_data_def min_def)
next
  case False
  then show ?thesis using assms by (simp add: read_ptr kv_load_def entry_data_def min_def)
qed

lemma length_entry_data:
  assumes "cache_inv s" "k < 6" "ce_type (entry s k) \<noteq> KV_TYPE_NONE"
  shows "length (entry_data s k) = ce_length (entry s k)"
proof (cases "4 < ce_length (entry s k)")
  case True
  with assms have "buffer_ok s k" using cache_invD(3) [OF assms(1)] by (simp add: on_heap_def)
  then show ?thesis using True by (auto simp: buffer_ok_def entry_data_def)
next
  case False
  then show ?thesis by (simp add: entry_data_def)
qed

subsection \<open>Frames\<close>

text \<open>
  \<open>s'\<close> differs from \<open>s\<close> at entry \<open>k\<close> only: the other entries and the buffers they own are
  the same.
\<close>

definition only_entry :: "KVStoreKey_t \<Rightarrow> kv_state \<Rightarrow> kv_state \<Rightarrow> bool" where
  "only_entry k s s' =
     (length (kvStoreCache s') = length (kvStoreCache s) \<and> heap s' 0 = heap s 0 \<and>
      (\<forall>j. j \<noteq> k \<longrightarrow> entry s' j = entry s j \<and>
           (on_heap s j \<longrightarrow> heap s' (ce_union (entry s j)) = heap s (ce_union (entry s j)))))"

lemma only_entryD:
  assumes "only_entry k s s'"
  shows "length (kvStoreCache s') = length (kvStoreCache s)" "heap s' 0 = heap s 0"
    "j \<noteq> k \<Longrightarrow> entry s' j = entry s j"
    "j \<noteq> k \<Longrightarrow> on_heap s j \<Longrightarrow> heap s' (ce_union (entry s j)) = heap s (ce_union (entry s j))"
  using assms by (simp_all add: only_entry_def)

lemma only_entry_on_heap: "only_entry k s s' \<Longrightarrow> j \<noteq> k \<Longrightarrow> on_heap s' j = on_heap s j"
  by (simp add: on_heap_def only_entryD)

lemma only_entry_unshared: "only_entry k s s' \<Longrightarrow> unshared s' k a = unshared s k a"
  by (auto simp: unshared_def only_entry_on_heap only_entryD(3))

lemma only_entry_trans [trans]:
  "only_entry k s s' \<Longrightarrow> only_entry k s' s'' \<Longrightarrow> only_entry k s s''"
  using only_entry_on_heap [of k s s'] by (auto simp: only_entry_def)

lemma only_entry_set [simp]: "only_entry k s (set_entry k e s)"
  by (simp add: only_entry_def set_entry_def)

lemma only_entry_heap:
  "unshared s k a \<Longrightarrow> a \<noteq> 0 \<Longrightarrow> only_entry k s (s\<lparr>heap := (heap s)(a := b)\<rparr>)"
  by (auto simp: only_entry_def unshared_def)

lemma set_entry_simps [simp]:
  "heap (set_entry k e s) = heap s"
  "length (kvStoreCache (set_entry k e s)) = length (kvStoreCache s)"
  "k < length (kvStoreCache s) \<Longrightarrow> entry (set_entry k e s) k = e"
  "j \<noteq> k \<Longrightarrow> entry (set_entry k e s) j = entry s j"
  by (simp_all add: set_entry_def)

text \<open>
  An update of one entry that leaves it with a buffer of its own (or none) keeps the invariant and
  every other entry's value.
\<close>

lemma only_entry_inv:
  assumes "cache_inv s" "only_entry k s s'" "k < 6"
    and "on_heap s' k \<Longrightarrow> buffer_ok s' k"
    and "ce_pending (entry s' k) \<Longrightarrow> ce_type (entry s' k) \<noteq> KV_TYPE_NONE"
  shows "cache_inv s'"
proof -
  note inv = cache_invD [OF assms(1)] and fr = only_entryD [OF assms(2)]
  have "buffer_ok s' j" if "on_heap s' j" "j \<noteq> k" for j
  proof -
    have "on_heap s j" using only_entry_on_heap [OF assms(2)] that by simp
    with inv(3) have ok: "buffer_ok s j" by simp
    have "unshared s' j (ce_union (entry s j))"
    proof (unfold unshared_def, intro allI impI)
      fix i assume i: "i \<noteq> j" "on_heap s' i"
      show "ce_union (entry s' i) \<noteq> ce_union (entry s j)"
      proof (cases "i = k")
        case True
        with i assms(4) have "buffer_ok s' k" by simp
        then have "unshared s' k (ce_union (entry s' k))" by (auto simp: buffer_ok_def)
        with that have "ce_union (entry s' j) \<noteq> ce_union (entry s' k)" by (simp add: unshared_def)
        with True that(2) fr(3) show ?thesis by auto
      next
        case False
        then show ?thesis
          using ok i fr(3) only_entry_on_heap [OF assms(2)] by (auto simp: buffer_ok_def unshared_def)
      qed
    qed
    then show ?thesis using ok that(2) \<open>on_heap s j\<close> fr(3,4) by (auto simp: buffer_ok_def)
  qed
  with assms(4) have "\<forall>j. on_heap s' j \<longrightarrow> buffer_ok s' j" by metis
  moreover have "ce_pending (entry s' j) \<Longrightarrow> ce_type (entry s' j) \<noteq> KV_TYPE_NONE" if "j < 6" for j
    using inv(4) [OF that] assms(5) fr(3) [of j] by (cases "j = k") auto
  ultimately show ?thesis using inv(1,2) fr(1,2) by (simp add: cache_inv_def)
qed

lemma only_entry_view:
  assumes "only_entry k s s'" "j \<noteq> k"
  shows "kv_view s' j = kv_view s j"
proof (cases "on_heap s j")
  case True
  then show ?thesis
    using only_entryD(3,4) [OF assms(1) assms(2)] by (simp add: kv_view_def entry_data_def)
next
  case False
  then show ?thesis
    using only_entryD(3) [OF assms] by (auto simp: kv_view_def entry_data_def on_heap_def)
qed


subsection \<open>Buffer operations keep their hands off the other entries\<close>

text \<open>Entry \<open>k\<close> has room for \<open>n\<close> bytes, or the allocation of a buffer for it has failed.\<close>

definition sized :: "kv_state \<Rightarrow> KVStoreKey_t \<Rightarrow> nat \<Rightarrow> bool" where
  "sized s k n =
     (ce_length (entry s k) = n \<and> (SIZEOF_PTR < n \<longrightarrow> ce_union (entry s k) = 0 \<or> buffer_ok s k))"

lemma buffer_ok_set:
  assumes "k < length (kvStoreCache s)" "ce_union e = ce_union (entry s k)"
    and "ce_length e \<le> ce_length (entry s k)" "buffer_ok s k"
  shows "buffer_ok (set_entry k e s) k"
proof -
  have "unshared (set_entry k e s) k (ce_union e) = unshared s k (ce_union e)"
    by (rule only_entry_unshared) simp
  then show ?thesis using assms by (auto simp: buffer_ok_def)
qed

lemma mal_unshared:
  assumes "cache_inv s" "malloc_spec mal" "mal (heap s) n = Some (a, b)"
  shows "unshared s k a" "a \<noteq> 0" "length b = n"
proof -
  from assms(2,3) have a: "a \<noteq> 0" "heap s a = None" "length b = n" by (auto simp: malloc_spec_def)
  show "unshared s k a"
  proof (unfold unshared_def, intro allI impI)
    fix j assume "j \<noteq> k" "on_heap s j"
    then have "buffer_ok s j" using cache_invD(3) [OF assms(1)] by simp
    with a(2) show "ce_union (entry s j) \<noteq> a" by (auto simp: buffer_ok_def)
  qed
qed (use assms in \<open>auto simp: malloc_spec_def\<close>)

lemma allocate_frame:
  assumes "cache_inv s" "malloc_spec mal" "k < 6"
  shows "only_entry k s (vAllocateDataBuffer mal s k n) \<and> sized (vAllocateDataBuffer mal s k n) k n"
proof -
  have len: "k < length (kvStoreCache s)" using cache_invD(1) [OF assms(1)] assms(3) by simp
  show ?thesis
  proof (cases "4 < n \<and> (\<exists>a b. mal (heap s) n = Some (a, b))")
    case True
    then obtain a b where m: "mal (heap s) n = Some (a, b)" and n: "4 < n" by auto
    note fresh = mal_unshared [OF assms(1,2) m]
    let ?s1 = "s\<lparr>heap := (heap s)(a \<mapsto> b)\<rparr>"
    let ?s2 = "set_entry k ((entry s k)\<lparr>ce_union := a, ce_length := n\<rparr>) ?s1"
    have eq: "vAllocateDataBuffer mal s k n = ?s2" using m n by (simp add: vAllocateDataBuffer_def)
    have fr: "only_entry k s ?s2"
      by (rule only_entry_trans [OF only_entry_heap [OF fresh(1,2), where b = "Some b"] only_entry_set])
    have "unshared ?s2 k a" using only_entry_unshared [OF fr] fresh(1) by simp
    then have "buffer_ok ?s2 k" using len fresh(3) by (simp add: buffer_ok_def)
    then show ?thesis unfolding eq using fr len by (simp add: sized_def)
  next
    case False
    then have eq: "vAllocateDataBuffer mal s k n =
        set_entry k ((entry s k)\<lparr>ce_union := 0, ce_length := n\<rparr>) s"
      by (auto simp: vAllocateDataBuffer_def split: option.splits)
    show ?thesis unfolding eq using len by (simp add: sized_def)
  qed
qed

lemma clear_frame:
  assumes "cache_inv s" "k < 6" "ce_type (entry s k) \<noteq> KV_TYPE_NONE"
  shows "only_entry k s (vClearDataBuffer s k) \<and> cache_inv (vClearDataBuffer s k)"
proof -
  have len: "k < length (kvStoreCache s)" using cache_invD(1) [OF assms(1)] assms(2) by simp
  have fr: "only_entry k s (vClearDataBuffer s k)"
  proof (cases "4 < ce_length (entry s k)")
    case True
    then have "on_heap s k" using assms by (simp add: on_heap_def)
    with cache_invD [OF assms(1)] have ok: "buffer_ok s k" and h0: "heap s 0 = None" by simp_all
    from ok have u: "unshared s k (ce_union (entry s k))" and nz: "ce_union (entry s k) \<noteq> 0"
      using h0 by (auto simp: buffer_ok_def)
    have "only_entry k s (vPortFree (ce_union (entry s k)) s)"
      using only_entry_heap [OF u nz] nz by (simp add: vPortFree_def)
    from only_entry_trans [OF this only_entry_set] show ?thesis
      using True by (simp add: vClearDataBuffer_def)
  next
    case False
    then show ?thesis by (simp add: vClearDataBuffer_def)
  qed
  have pf: "kvStoreCache (vPortFree a s) = kvStoreCache s" for a by (simp add: vPortFree_def)
  then have e: "ce_length (entry (vClearDataBuffer s k) k) = 0"
    "ce_type (entry (vClearDataBuffer s k) k) = ce_type (entry s k)"
    using len by (simp_all add: vClearDataBuffer_def)
  have "cache_inv (vClearDataBuffer s k)"
    by (rule only_entry_inv [OF assms(1) fr assms(2)]) (use e assms(3) in \<open>simp_all add: on_heap_def\<close>)
  with fr show ?thesis by simp
qed

lemma realloc_frame:
  assumes "cache_inv s" "malloc_spec mal" "k < 6" "ce_type (entry s k) \<noteq> KV_TYPE_NONE"
  shows "only_entry k s (vReallocDataBuffer mal s k n) \<and> sized (vReallocDataBuffer mal s k n) k n"
proof (cases "ce_length (entry s k) < n")
  case True
  note cl = clear_frame [OF assms(1,3,4)]
  with allocate_frame [OF _ assms(2,3), of "vClearDataBuffer s k" n] only_entry_trans True
  show ?thesis by (auto simp: vReallocDataBuffer_def)
next
  case False
  have len: "k < length (kvStoreCache s)" using cache_invD(1) [OF assms(1)] assms(3) by simp
  have "buffer_ok s k" if "4 < n"
    using that False assms cache_invD(3) [OF assms(1), of k] by (simp add: on_heap_def)
  then have "sized (set_entry k ((entry s k)\<lparr>ce_length := n\<rparr>) s) k n"
    using len False buffer_ok_set [OF len, of "(entry s k)\<lparr>ce_length := n\<rparr>"] by (auto simp: sized_def)
  with False show ?thesis by (simp add: vReallocDataBuffer_def)
qed


lemma sized_mark:
  assumes "k < length (kvStoreCache s)" "sized s k n"
  shows "sized (mark_changed k t s) k n"
proof -
  have "buffer_ok (mark_changed k t s) k" if "buffer_ok s k"
    unfolding mark_changed_def by (rule buffer_ok_set [OF assms(1) _ _ that]) simp_all
  with assms show ?thesis by (auto simp: sized_def mark_changed_def)
qed

lemma mark_frame:
  assumes "only_entry k s s'" "sized s' k n" "k < length (kvStoreCache s)"
  shows "only_entry k s (mark_changed k t s')" "sized (mark_changed k t s') k n"
    "ce_type (entry (mark_changed k t s') k) = t" "ce_pending (entry (mark_changed k t s') k)"
proof -
  have len: "k < length (kvStoreCache s')" using only_entryD(1) [OF assms(1)] assms(3) by simp
  show "only_entry k s (mark_changed k t s')"
    unfolding mark_changed_def by (rule only_entry_trans [OF assms(1) only_entry_set])
  show "sized (mark_changed k t s') k n" by (rule sized_mark [OF len assms(2)])
qed (use assms only_entryD(1) [OF assms(1)] in \<open>simp_all add: mark_changed_def\<close>)

text \<open>
  What the sizing step leaves: the value is already there and nothing is to be done, or the entry
  is marked as changed, with its new type and length and room for the value.
\<close>

lemma prepare_result:
  assumes "cache_inv s" "malloc_spec mal" "k < 6" "0 < n" "length new = n" "t \<noteq> KV_TYPE_NONE"
    and "prepare_entry mal s k t n new = Some s1"
  shows "only_entry k s s1 \<and> sized s1 k n \<and> ce_type (entry s1 k) = t \<and>
    (ce_pending (entry s1 k) \<or> s1 = s \<and> entry_data s k = new)"
proof -
  have len: "k < length (kvStoreCache s)" using cache_invD(1) [OF assms(1)] assms(3) by simp
  have refl: "only_entry k s s" by (simp add: only_entry_def)
  consider (fresh) "ce_type (entry s k) = KV_TYPE_NONE"
    | (resize) "ce_type (entry s k) \<noteq> KV_TYPE_NONE" "ce_length (entry s k) \<noteq> n"
    | (retype) "ce_type (entry s k) \<noteq> KV_TYPE_NONE" "ce_length (entry s k) = n" "ce_type (entry s k) \<noteq> t"
    | (same) "ce_type (entry s k) \<noteq> KV_TYPE_NONE" "ce_length (entry s k) = n" "ce_type (entry s k) = t"
    by blast
  then show ?thesis
  proof cases
    case fresh
    with allocate_frame [OF assms(1-3), of n] mark_frame [of k s _ n t, OF _ _ len] assms(7)
    show ?thesis by (auto simp: prepare_entry_def)
  next
    case resize
    with realloc_frame [OF assms(1-3), of n] mark_frame [of k s _ n t, OF _ _ len] assms(7)
    show ?thesis by (auto simp: prepare_entry_def)
  next
    case retype
    then have "sized s k n"
      using assms(3) cache_invD(3) [OF assms(1), of k] by (auto simp: sized_def on_heap_def)
    with retype mark_frame [OF refl _ len, of n t] assms(7) show ?thesis by (auto simp: prepare_entry_def)
  next
    case same
    then have sz: "sized s k n"
      using assms(3) cache_invD(3) [OF assms(1), of k] by (auto simp: sized_def on_heap_def)
    have ld: "kv_load s (pvGetDataReadPtr s k) n = Some (take n (entry_data s k))"
      using load_entry [OF assms(1,3), of n] same by simp
    have dn: "take n (entry_data s k) = entry_data s k"
      using length_entry_data [OF assms(1,3)] same by simp
    from ld same assms(7) have s1: "s1 = (if entry_data s k \<noteq> new
        then set_entry k ((entry s k)\<lparr>ce_pending := True\<rparr>) s else s)"
      by (auto simp: prepare_entry_def dn kv_load_def split: kv_ptr.splits)
    have "mark_changed k t s = set_entry k ((entry s k)\<lparr>ce_pending := True\<rparr>) s"
      by (simp add: mark_changed_def same(3) [symmetric])
    then show ?thesis using s1 mark_frame [OF refl sz len, of t] same sz refl by auto
  qed
qed

text \<open>The copy into a prepared entry.\<close>

lemma write_prepared:
  assumes "only_entry k s s1" "cache_inv s" "k < 6" "sized s1 k n" "0 < n" "length new = n"
    and "ce_type (entry s1 k) = t" "t \<noteq> KV_TYPE_NONE"
    and "pvGetDataWritePtr s1 k = Some p" "kv_copy s1 p new = Some s2"
  shows "cache_inv s2 \<and> kv_view s2 = (kv_view s)(k \<mapsto> (t, new))"
proof -
  have len: "k < length (kvStoreCache s1)"
    using cache_invD(1) [OF assms(2)] only_entryD(1) [OF assms(1)] assms(3) by simp
  have n: "ce_length (entry s1 k) = n" using assms(4) by (simp add: sized_def)
  have core: "only_entry k s1 s2 \<and> (on_heap s2 k \<longrightarrow> buffer_ok s2 k) \<and> entry_data s2 k = new \<and>
      ce_type (entry s2 k) = t \<and> ce_length (entry s2 k) = n"
  proof (cases "4 < n")
    case True
    let ?a = "ce_union (entry s1 k)"
    from True n assms(9) have nz: "?a \<noteq> 0" and p: "p = PHeap ?a"
      by (auto simp: pvGetDataWritePtr_def heap_ptr_def configASSERT_def split: if_splits)
    with True assms(4) have "buffer_ok s1 k" by (simp add: sized_def)
    then obtain b where b: "heap s1 ?a = Some b" "n \<le> length b" and u: "unshared s1 k ?a"
      using n by (auto simp: buffer_ok_def)
    with p assms(6,10) have s2: "s2 = s1\<lparr>heap := (heap s1)(?a \<mapsto> overwrite 0 new b)\<rparr>"
      by (simp add: kv_copy_def)
    have fr: "only_entry k s1 s2" unfolding s2 by (rule only_entry_heap [OF u nz])
    have "unshared s2 k ?a" using only_entry_unshared [OF fr] u by simp
    then have "buffer_ok s2 k" using b n assms(6) by (simp add: buffer_ok_def s2)
    moreover have "entry_data s2 k = new" using True n b assms(6) by (simp add: entry_data_def s2)
    ultimately show ?thesis using fr assms(7) n by (simp add: s2)
  next
    case False
    then have "p = PInline k" using n assms(9)
      by (auto simp: pvGetDataWritePtr_def configASSERT_def split: if_splits)
    with False assms(6,10) have s2: "s2 = set_entry k ((entry s1 k)
        \<lparr>ce_union := le_word (overwrite 0 new (le_bytes (ce_union (entry s1 k))))\<rparr>) s1"
      by (simp add: kv_copy_def)
    have "take n (le_bytes (le_word (overwrite 0 new (le_bytes w)))) = new" for w
      using le_bytes_le_word [of "overwrite 0 new (le_bytes w)"] False assms(6) by simp
    then show ?thesis using False n len assms(7) by (simp add: s2 entry_data_def on_heap_def)
  qed
  have fr: "only_entry k s s2" by (rule only_entry_trans [OF assms(1)]) (use core in simp)
  have "cache_inv s2"
    by (rule only_entry_inv [OF assms(2) fr assms(3)]) (use core assms(8) in auto)
  moreover have "kv_view s2 = (kv_view s)(k \<mapsto> (t, new))"
    using core only_entry_view [OF fr] assms(3,5,8) by (auto simp: kv_view_def [of s2 k])
  ultimately show ?thesis by simp
qed

lemma write_cache_entry:
  assumes "malloc_spec mal" "cache_inv s" "k < CS_NUM_KEYS" "storable t" "0 < n" "n \<le> length v"
    and "xprvWriteCacheEntry mal s k t n v = Some (r, s')"
  shows "r \<and> cache_inv s' \<and> kv_view s' = (kv_view s)(k \<mapsto> (t, take n v))"
proof -
  let ?new = "take n v"
  have t: "t \<noteq> KV_TYPE_NONE" and k: "k < 6" and ln: "length ?new = n"
    using assms(3,4,6) by (auto simp: storable_def)
  from assms(3,5,6,7) obtain s1 where r: "r" and prep: "prepare_entry mal s k t n ?new = Some s1"
    and cp: "if ce_pending (entry s1 k) then (\<exists>p. pvGetDataWritePtr s1 k = Some p \<and> kv_copy s1 p ?new = Some s')
             else s' = s1"
    by (auto simp: xprvWriteCacheEntry_def configASSERT_def bind_eq_Some_conv split: if_splits)
  note pr = prepare_result [OF assms(2,1) k assms(5) ln t prep]
  show ?thesis
  proof (cases "ce_pending (entry s1 k)")
    case True
    with cp obtain p where "pvGetDataWritePtr s1 k = Some p" "kv_copy s1 p ?new = Some s'" by auto
    with pr write_prepared [OF _ assms(2) k _ assms(5) ln _ t, of s1 p s'] r show ?thesis by blast
  next
    case False
    with pr cp have eq: "s' = s" "entry_data s k = ?new" "ce_type (entry s k) = t" "ce_length (entry s k) = n"
      by (auto simp: sized_def)
    then have "kv_view s k = Some (t, ?new)" using k t assms(5) by (simp add: kv_view_def)
    then have "(kv_view s)(k \<mapsto> (t, ?new)) = kv_view s" by (rule map_upd_triv)
    then show ?thesis using eq r assms(2) by simp
  qed
qed


subsection \<open>The write returns when memory is available\<close>

lemma sized_write_ptr:
  assumes "cache_inv s" "k < 6" "malloc_spec mal" "4 < n \<Longrightarrow> mal (heap s) n \<noteq> None"
  shows "ce_union (entry (vAllocateDataBuffer mal s k n) k) \<noteq> 0 \<or> n \<le> 4"
  using assms cache_invD(1) [OF assms(1)] by (auto simp: vAllocateDataBuffer_def malloc_spec_def)

lemma prepare_returns:
  assumes "cache_inv s" "malloc_spec mal" "k < 6" "0 < n" "length new = n" "t \<noteq> KV_TYPE_NONE"
    and "4 < n \<Longrightarrow> mal (heap s) n \<noteq> None" "4 < n \<Longrightarrow> mal (heap (vClearDataBuffer s k)) n \<noteq> None"
  shows "\<exists>s1. prepare_entry mal s k t n new = Some s1 \<and> (n \<le> 4 \<or> ce_union (entry s1 k) \<noteq> 0)"
proof -
  have len: "length (kvStoreCache s) = 6" using cache_invD(1) [OF assms(1)] .
  have nz: "ce_union (entry s k) \<noteq> 0" if "on_heap s k" for k
    using cache_invD(2) [OF assms(1)] cache_invD(3) [OF assms(1) that] by (auto simp: buffer_ok_def)
  have mk: "ce_union (entry (mark_changed k t s') k) = ce_union (entry s' k)" for s'
    by (cases "k < length (kvStoreCache s')")
       (simp_all add: mark_changed_def set_entry_def not_less list_update_beyond)
  consider (fresh) "ce_type (entry s k) = KV_TYPE_NONE"
    | (resize) "ce_type (entry s k) \<noteq> KV_TYPE_NONE" "ce_length (entry s k) \<noteq> n"
    | (keep) "ce_type (entry s k) \<noteq> KV_TYPE_NONE" "ce_length (entry s k) = n"
    by blast
  then show ?thesis
  proof cases
    case fresh
    with sized_write_ptr [OF assms(1,3,2)] assms(7) show ?thesis by (auto simp: prepare_entry_def mk)
  next
    case resize
    have "n \<le> 4 \<or> ce_union (entry (vReallocDataBuffer mal s k n) k) \<noteq> 0"
    proof (cases "ce_length (entry s k) < n")
      case True
      with clear_frame [OF assms(1,3) resize(1)] sized_write_ptr [OF _ assms(3,2)] assms(8)
      show ?thesis by (auto simp: vReallocDataBuffer_def)
    next
      case False
      with nz [of k] assms(3) len resize show ?thesis
        by (auto simp: vReallocDataBuffer_def on_heap_def)
    qed
    with resize show ?thesis by (simp add: prepare_entry_def mk)
  next
    case keep
    have ld: "kv_load s (pvGetDataReadPtr s k) n = Some (take n (entry_data s k))"
      using load_entry [OF assms(1,3), of n] keep by simp
    have u: "n \<le> 4 \<or> ce_union (entry s k) \<noteq> 0" using nz [of k] keep assms(3) by (auto simp: on_heap_def)
    then show ?thesis
      using keep ld assms(3) len
      by (cases "pvGetDataReadPtr s k") (auto simp: prepare_entry_def mk kv_load_def)
  qed
qed

lemma write_returns:
  assumes "malloc_spec mal" "cache_inv s" "k < CS_NUM_KEYS" "storable t" "0 < n" "n \<le> length v"
    and "4 < n \<Longrightarrow> mal (heap s) n \<noteq> None" "4 < n \<Longrightarrow> mal (heap (vClearDataBuffer s k)) n \<noteq> None"
  shows "\<exists>s'. xprvWriteCacheEntry mal s k t n v = Some (True, s')"
proof -
  let ?new = "take n v"
  have t: "t \<noteq> KV_TYPE_NONE" "below_last t" and k: "k < 6" and ln: "length ?new = n"
    using assms(3,4,6) by (auto simp: storable_def below_last_def)
  from prepare_returns [OF assms(2,1) k assms(5) ln t(1) assms(7,8)] obtain s1
    where prep: "prepare_entry mal s k t n ?new = Some s1" and u: "n \<le> 4 \<or> ce_union (entry s1 k) \<noteq> 0"
    by blast
  note pr = prepare_result [OF assms(2,1) k assms(5) ln t(1) prep]
  then have sz: "ce_length (entry s1 k) = n" and b: "4 < n \<Longrightarrow> buffer_ok s1 k"
    using u by (auto simp: sized_def)
  have "\<exists>p s2. pvGetDataWritePtr s1 k = Some p \<and> kv_copy s1 p ?new = Some s2"
  proof (cases "4 < n")
    case True
    with b obtain b where "heap s1 (ce_union (entry s1 k)) = Some b" "n \<le> length b"
      using sz by (auto simp: buffer_ok_def)
    with True sz u ln show ?thesis by (simp add: pvGetDataWritePtr_def heap_ptr_def kv_copy_def)
  next
    case False
    with sz ln show ?thesis by (simp add: pvGetDataWritePtr_def kv_copy_def)
  qed
  with prep assms(3,5,6) t show ?thesis by (auto simp: xprvWriteCacheEntry_def)
qed

subsection \<open>The cache implements the contract\<close>

lemma copy_hit:
  assumes "cache_inv s" "k < CS_NUM_KEYS" "kv_view s k = Some (t, v)" "n \<le> length buf"
  shows "xprvCopyValueFromCache s k buf n =
    Some (0 < min n (length v), Some (t, length v), overwrite 0 (take n v) buf)"
proof -
  from assms(2,3) have k: "k < 6" and e: "ce_type (entry s k) = t" "t \<noteq> KV_TYPE_NONE" "v = entry_data s k"
    by (auto simp: kv_view_def split: if_splits)
  note lv = length_entry_data [OF assms(1) k]
  let ?d = "if n < ce_length (entry s k) then n else ce_length (entry s k)"
  have "kv_load s (pvGetDataReadPtr s k) ?d = Some (take ?d v)"
    using load_entry [OF assms(1) k, of ?d] e by simp
  moreover have "take ?d v = take n v" "?d = min n (length v)" "length (take ?d v) \<le> length buf"
    using lv e assms(4) by auto
  ultimately show ?thesis
    using assms(2) e lv read_ptr [OF assms(1) k]
    by (auto simp: xprvCopyValueFromCache_def Let_def split: if_splits)
qed

lemma copy_miss:
  assumes "cache_inv s" "k < CS_NUM_KEYS" "kv_view s k = None"
  shows "xprvCopyValueFromCache s k buf n = Some (False, None, buf) \<or>
    (\<exists>t. xprvCopyValueFromCache s k buf n = Some (False, Some (t, 0), buf))"
  using assms by (auto simp: xprvCopyValueFromCache_def kv_view_def pvGetDataReadPtr_def kv_load_def
      split: if_splits)

lemma view_nonempty:
  assumes "cache_inv s" "kv_view s k = Some (t, v)"
  shows "v \<noteq> []" "k < 6" "t \<noteq> KV_TYPE_NONE" "ce_type (entry s k) = t" "ce_length (entry s k) = length v"
    "entry_data s k = v"
  using assms length_entry_data [OF assms(1), of k] by (auto simp: kv_view_def split: if_splits)

text \<open>
  For every allocator that keeps its promise, the cache is a storage as the interface expects it.
\<close>

interpretation kvc: kv_backend xprvCopyValueFromCache "xprvWriteCacheEntry mal" prvGetCacheEntryLength
    "\<lambda>s. malloc_spec mal \<and> cache_inv s" kv_view
  for mal
proof
  fix s k t v n and buf :: "byte list"
  assume "malloc_spec mal \<and> cache_inv s" "k < CS_NUM_KEYS" "kv_view s k = Some (t, v)" "n \<le> length buf"
  then show "xprvCopyValueFromCache s k buf n =
      Some (0 < min n (length v), Some (t, length v), overwrite 0 (take n v) buf)"
    using copy_hit by blast
next
  fix s k n and buf :: "byte list"
  assume "malloc_spec mal \<and> cache_inv s" "k < CS_NUM_KEYS" "kv_view s k = None"
  then show "xprvCopyValueFromCache s k buf n = Some (False, None, buf) \<or>
      (\<exists>t. xprvCopyValueFromCache s k buf n = Some (False, Some (t, 0), buf))"
    using copy_miss by blast
next
  fix s k t v assume "malloc_spec mal \<and> cache_inv s" "kv_view s k = Some (t, v)"
  then show "v \<noteq> []" using view_nonempty(1) by blast
next
  fix s k t v assume "malloc_spec mal \<and> cache_inv s" "k < CS_NUM_KEYS" "kv_view s k = Some (t, v)"
  then show "prvGetCacheEntryLength s k = Some (length v)"
    using view_nonempty(5) [of s k t v] by (simp add: prvGetCacheEntryLength_def)
next
  fix s k t n v r s'
  assume "malloc_spec mal \<and> cache_inv s" "k < CS_NUM_KEYS" "storable t" "0 < n" "n \<le> length v"
    "xprvWriteCacheEntry mal s k t n v = Some (r, s')"
  then show "r \<and> (malloc_spec mal \<and> cache_inv s') \<and> kv_view s' = (kv_view s)(k \<mapsto> (t, take n v))"
    using write_cache_entry [of mal s k t n v r s'] by blast
qed

text \<open>A first-fit allocator over a small arena, to run the operations with.\<close>

definition first_fit :: malloc where
  "first_fit h n =
     (if 4096 < n then None
      else case find (\<lambda>a. h a = None) [0x1000, 0x2000, 0x3000, 0x4000, 0x5000, 0x6000, 0x7000, 0x8000] of
        None \<Rightarrow> None
      | Some a \<Rightarrow> Some (a, replicate n 0))"

lemma first_fit_spec: "malloc_spec first_fit"
  by (auto simp: malloc_spec_def first_fit_def find_Some_iff nth_Cons split: if_splits option.splits nat.splits)

subsection \<open>Pending changes\<close>

lemma entry_set: "entry (set_entry k e s) j = (if j = k \<and> k < length (kvStoreCache s) then e else entry s j)"
  by (auto simp: set_entry_def list_update_beyond)

lemma kv_copy_entry:
  assumes "kv_copy s p d = Some s'"
  shows "ce_pending (entry s' k) = ce_pending (entry s k)" "ce_type (entry s' k) = ce_type (entry s k)"
    "ce_length (entry s' k) = ce_length (entry s k)" "length (kvStoreCache s') = length (kvStoreCache s)"
  using assms
  by (auto simp: kv_copy_def entry_set mem_write_def split: kv_ptr.splits option.splits if_splits)

lemma kv_copy_only:
  assumes "pvGetDataWritePtr s k = Some p" "kv_copy s p v = Some s'" "sized s k n"
  shows "only_entry k s s'"
proof (cases "4 < ce_length (entry s k)")
  case True
  with assms(1) have p: "p = PHeap (ce_union (entry s k))" and nz: "ce_union (entry s k) \<noteq> 0"
    by (auto simp: pvGetDataWritePtr_def heap_ptr_def configASSERT_def split: if_splits)
  with True assms(3) have "unshared s k (ce_union (entry s k))" by (auto simp: sized_def buffer_ok_def)
  from only_entry_heap [OF this nz] p assms(2) show ?thesis
    by (auto simp: kv_copy_def mem_write_def split: option.splits if_splits)
next
  case False
  with assms(1) have "p = PInline k"
    by (auto simp: pvGetDataWritePtr_def configASSERT_def split: if_splits)
  with assms(2) show ?thesis by (auto simp: kv_copy_def mem_write_def split: if_splits)
qed

lemma write_only_entry:
  assumes "malloc_spec mal" "cache_inv s" "k < CS_NUM_KEYS" "storable t" "0 < n" "n \<le> length v"
    and "xprvWriteCacheEntry mal s k t n v = Some (r, s')"
  shows "only_entry k s s'"
proof -
  have t: "t \<noteq> KV_TYPE_NONE" and k: "k < 6" and ln: "length (take n v) = n"
    using assms(3,4,6) by (auto simp: storable_def)
  from assms(3,5,6,7) obtain s1 where prep: "prepare_entry mal s k t n (take n v) = Some s1"
    and cp: "s' = s1 \<or> (\<exists>p. pvGetDataWritePtr s1 k = Some p \<and> kv_copy s1 p (take n v) = Some s')"
    by (auto simp: xprvWriteCacheEntry_def configASSERT_def bind_eq_Some_conv split: if_splits)
  note pr = prepare_result [OF assms(2,1) k assms(5) ln t prep]
  with cp kv_copy_only only_entry_trans show ?thesis by blast
qed

lemma write_frame:
  assumes "malloc_spec mal" "cache_inv s" "k < CS_NUM_KEYS" "storable t" "0 < n" "n \<le> length v"
    and "xprvWriteCacheEntry mal s k t n v = Some (r, s')" "j \<noteq> k"
  shows "ce_type (entry s' j) = ce_type (entry s j)" "ce_length (entry s' j) = ce_length (entry s j)"
    "ce_pending (entry s' j) = ce_pending (entry s j)"
  using only_entryD(3) [OF write_only_entry [OF assms(1-7)] assms(8)] by simp_all

text \<open>An entry that is not marked after a write was not marked before it and has kept its value.\<close>

lemma write_unmarked:
  assumes "malloc_spec mal" "cache_inv s" "k < CS_NUM_KEYS" "storable t" "0 < n" "n \<le> length v"
    and "xprvWriteCacheEntry mal s k t n v = Some (r, s')" "\<not> ce_pending (entry s' j)"
  shows "\<not> ce_pending (entry s j) \<and> kv_view s' j = kv_view s j"
proof -
  let ?new = "take n v"
  have t: "t \<noteq> KV_TYPE_NONE" and k: "k < 6" and ln: "length ?new = n"
    using assms(3,4,6) by (auto simp: storable_def)
  from assms(3,5,6,7) obtain s1 where prep: "prepare_entry mal s k t n ?new = Some s1"
    and cp: "if ce_pending (entry s1 k) then (\<exists>p. pvGetDataWritePtr s1 k = Some p \<and> kv_copy s1 p ?new = Some s')
             else s' = s1"
    by (auto simp: xprvWriteCacheEntry_def configASSERT_def bind_eq_Some_conv split: if_splits)
  note pr = prepare_result [OF assms(2,1) k assms(5) ln t prep]
  show ?thesis
  proof (cases "j = k")
    case True
    with cp assms(8) pr kv_copy_entry(1) show ?thesis by (auto split: if_splits)
  next
    case False
    have "\<not> ce_pending (entry s j)" using write_frame(3) [OF assms(1-7) False] assms(8) by simp
    moreover have "kv_view s' j = kv_view s j"
      using write_cache_entry [OF assms(1-7)] False by simp
    ultimately show ?thesis by simp
  qed
qed

end
