(* ===== verification/KvPersist.thy ===== *)
theory KvPersist
  imports KvCache
begin

text \<open>
  What the cache makes of the storage below it: \<open>KVStore_xCommitChanges\<close> and
  \<open>vprvCacheInit\<close> (\<open>src/source/kvstore/kvstore_cache.c\<close>) as clients of a non-volatile
  store. The locale \<open>kv_storage\<close> states what they rely on; \<open>KvNv\<close> discharges it for the
  littlefs implementation.
\<close>

subsection \<open>Coherence\<close>

text \<open>Entries that are not marked as changed are what the store holds.\<close>

definition coherent :: "(KVStoreKey_t \<Rightarrow> (KVStoreValueType_t \<times> byte list) option) \<Rightarrow> kv_state \<Rightarrow> bool" where
  "coherent nv s = (\<forall>k < CS_NUM_KEYS. \<not> ce_pending (entry s k) \<longrightarrow> kv_view s k = nv k)"

text \<open>Every value to be committed has a proper type and is shorter than \<open>cap\<close>.\<close>

definition fits :: "nat \<Rightarrow> kv_state \<Rightarrow> bool" where
  "fits cap s = (\<forall>k < CS_NUM_KEYS. ce_pending (entry s k) \<longrightarrow>
                   storable (ce_type (entry s k)) \<and> 0 < ce_length (entry s k) \<and> ce_length (entry s k) < cap)"

lemma write_coherent:
  assumes "malloc_spec mal" "cache_inv s" "k < CS_NUM_KEYS" "storable t" "0 < n" "n \<le> length v"
    and "xprvWriteCacheEntry mal s k t n v = Some (r, s')" "coherent nv s"
  shows "coherent nv s'"
  using write_unmarked [OF assms(1-7)] assms(8) by (auto simp: coherent_def)

lemma write_fits:
  assumes "malloc_spec mal" "cache_inv s" "k < CS_NUM_KEYS" "storable t" "0 < n" "n \<le> length v" "n < cap"
    and "xprvWriteCacheEntry mal s k t n v = Some (r, s')" "fits cap s"
  shows "fits cap s'"
proof (unfold fits_def, intro allI impI)
  fix j assume j: "j < CS_NUM_KEYS" "ce_pending (entry s' j)"
  note w = write_cache_entry [OF assms(1-6,8)]
  show "storable (ce_type (entry s' j)) \<and> 0 < ce_length (entry s' j) \<and> ce_length (entry s' j) < cap"
  proof (cases "j = k")
    case True
    from w have "cache_inv s'" "kv_view s' k = Some (t, take n v)" by simp_all
    from view_nonempty [OF this] True assms(4-7) show ?thesis by simp
  next
    case False
    from write_frame [OF assms(1-6,8) False] j assms(9) show ?thesis by (simp add: fits_def)
  qed
qed

text \<open>Once a write has failed, the result of the commit is false.\<close>

lemma commit_loop_false:
  "commit_loop wri s ks (False, fs) = Some (b, fs') \<Longrightarrow> \<not> b"
proof (induction ks arbitrary: fs)
  case (Cons i ks)
  have "\<not> b1" if "commit_one wri s i (False, fs) = Some (b1, fs1)" for b1 fs1
    using that by (auto simp: commit_one_def bind_eq_Some_conv split: if_splits kv_ptr.splits)
  with Cons show ?case by (fastforce simp: bind_eq_Some_conv)
qed simp

lemma al_pending:
  "k < length (kvStoreCache s) \<Longrightarrow>
   ce_pending (entry (vAllocateDataBuffer mal s k n) k) = ce_pending (entry s k)"
  by (auto simp: vAllocateDataBuffer_def split: option.splits)

lemma write_ptr_type:
  "k < length (kvStoreCache s) \<Longrightarrow>
   pvGetDataWritePtr (set_entry k ((entry s k)\<lparr>ce_type := t\<rparr>) s) k = pvGetDataWritePtr s k"
  by (simp add: pvGetDataWritePtr_def)

text \<open>Setting the type of an entry commutes with the copy of its value.\<close>

lemma copy_then_type:
  assumes "pvGetDataWritePtr s k = Some p" "kv_copy s p v = Some s3" "k < length (kvStoreCache s)"
  shows "kv_copy (set_entry k ((entry s k)\<lparr>ce_type := t\<rparr>) s) p v =
    Some (set_entry k ((entry s3 k)\<lparr>ce_type := t\<rparr>) s3)"
proof -
  from assms(1) have "p = PInline k \<or> (\<exists>a. p = PHeap a)"
    by (auto simp: pvGetDataWritePtr_def heap_ptr_def configASSERT_def Let_def split: if_splits)
  moreover have comm: "e\<lparr>ce_union := a, ce_type := t\<rparr> = e\<lparr>ce_type := t, ce_union := a\<rparr>"
    for e :: KVStoreCacheEntry_t and a
    by (cases e) simp
  ultimately show ?thesis
    using assms(2,3)
    by (auto simp: kv_copy_def set_entry_def mem_write_def comm split: option.splits if_splits)
qed

subsection \<open>The contract of the non-volatile store\<close>

text \<open>
  \<open>nview fs k\<close> is the value stored for a key; \<open>cap\<close> bounds the length of a value the store can
  give back.
\<close>

locale kv_storage =
  fixes nvlen :: "'f \<Rightarrow> KVStoreKey_t \<Rightarrow> nat"
    and nvread :: "'f read_impl"
    and nvwrite :: "'f write_impl"
    and inv :: "'f \<Rightarrow> bool"
    and nview :: "'f \<Rightarrow> KVStoreKey_t \<Rightarrow> (KVStoreValueType_t \<times> byte list) option"
    and cap :: nat
  assumes nv_miss: "inv fs \<Longrightarrow> k < CS_NUM_KEYS \<Longrightarrow> nview fs k = None \<Longrightarrow> nvlen fs k = 0"
    and nv_hit: "inv fs \<Longrightarrow> k < CS_NUM_KEYS \<Longrightarrow> nview fs k = Some (t, v) \<Longrightarrow>
      v \<noteq> [] \<and> t \<noteq> KV_TYPE_NONE \<and> nvlen fs k = length v \<and>
      nvread fs k (length v) = Some (Some (t, length v), v)"
    and nv_write: "inv fs \<Longrightarrow> k < CS_NUM_KEYS \<Longrightarrow> storable t \<Longrightarrow> v \<noteq> [] \<Longrightarrow> length v < cap \<Longrightarrow>
      nvwrite fs k t (length v) (Some v) = Some (True, fs') \<Longrightarrow>
      inv fs' \<and> (\<forall>j < CS_NUM_KEYS. nview fs' j = ((nview fs)(k \<mapsto> (t, v))) j)"
    and nv_fail: "k < CS_NUM_KEYS \<Longrightarrow> nvwrite fs k t n None = Some (r, fs') \<Longrightarrow> \<not> r"
begin

lemma commit_one_view:
  assumes "cache_inv s" "fits cap s" "inv fs" "i < CS_NUM_KEYS"
    and "commit_one nvwrite s i (b, fs) = Some (True, fs')"
  shows "b \<and> inv fs' \<and> (\<forall>j < CS_NUM_KEYS. nview fs' j =
    (if j = i \<and> ce_pending (entry s i) then kv_view s j else nview fs j))"
proof (cases "ce_pending (entry s i)")
  case True
  have i: "i < 6" using assms(4) by simp
  have t: "ce_type (entry s i) \<noteq> KV_TYPE_NONE" using cache_invD(4) [OF assms(1) i True] .
  let ?n = "ce_length (entry s i)" and ?t = "ce_type (entry s i)" and ?v = "entry_data s i"
  have n: "storable ?t" "0 < ?n" "?n < cap" using assms(2,4) True by (auto simp: fits_def)
  have lv: "length ?v = ?n" by (rule length_entry_data [OF assms(1) i t])
  have "kv_load s (pvGetDataReadPtr s i) ?n = Some ?v"
    using load_entry [OF assms(1) i t, of ?n] lv by simp
  with True assms(5) have b: "b" and "nvwrite fs i ?t ?n (Some ?v) = Some (True, fs')"
    by (auto simp: commit_one_def kv_load_def split: kv_ptr.splits option.splits bind_splits)
  moreover have "?v \<noteq> []" using lv n by auto
  ultimately have "inv fs' \<and> (\<forall>j < CS_NUM_KEYS. nview fs' j = ((nview fs)(i \<mapsto> (?t, ?v))) j)"
    using nv_write [OF assms(3,4) n(1), of ?v fs'] lv n by simp
  moreover have "kv_view s i = Some (?t, ?v)" using i t n by (simp add: kv_view_def)
  ultimately show ?thesis using b True by simp
next
  case False
  with assms show ?thesis by (simp add: commit_one_def)
qed

lemma commit_loop_view:
  assumes "cache_inv s" "fits cap s" "inv fs" "\<forall>i \<in> set ks. i < CS_NUM_KEYS"
    and "commit_loop nvwrite s ks (b, fs) = Some (True, fs')"
  shows "b \<and> inv fs' \<and> (\<forall>j < CS_NUM_KEYS. nview fs' j =
    (if j \<in> set ks \<and> ce_pending (entry s j) then kv_view s j else nview fs j))"
  using assms(3-)
proof (induction ks arbitrary: b fs)
  case Nil
  then show ?case by simp
next
  case (Cons i ks)
  then obtain b1 fs1 where one: "commit_one nvwrite s i (b, fs) = Some (b1, fs1)"
    and rest: "commit_loop nvwrite s ks (b1, fs1) = Some (True, fs')"
    by (auto simp: bind_eq_Some_conv)
  have i: "i < CS_NUM_KEYS" using Cons.prems(2) by simp
  have "b1"
    using commit_loop_false [of nvwrite s ks fs1 True fs'] rest by (cases b1) auto
  with one have one': "commit_one nvwrite s i (b, fs) = Some (True, fs1)" by simp
  note v1 = commit_one_view [OF assms(1,2) Cons.prems(1) i one']
  have "\<forall>i \<in> set ks. i < CS_NUM_KEYS" using Cons.prems(2) by simp
  with Cons.IH [OF _ _ rest] v1
  have "inv fs'" and v2: "\<And>j. j < CS_NUM_KEYS \<Longrightarrow> nview fs' j =
      (if j \<in> set ks \<and> ce_pending (entry s j) then kv_view s j else nview fs1 j)"
    by blast+
  moreover have "nview fs' j = (if j \<in> set (i # ks) \<and> ce_pending (entry s j) then kv_view s j else nview fs j)"
    if "j < CS_NUM_KEYS" for j
    using v2 [OF that] v1 that by auto
  ultimately show ?case using v1 by blast
qed

lemma commit_view:
  assumes "cache_inv s" "fits cap s" "inv fs" "coherent (nview fs) s"
    and "KVStore_xCommitChanges nvwrite s fs = Some (True, fs')"
  shows "inv fs' \<and> (\<forall>k < CS_NUM_KEYS. nview fs' k = kv_view s k)"
  using commit_loop_view [OF assms(1-3), of "[0..<CS_NUM_KEYS]" True fs'] assms(4,5)
  by (auto simp: KVStore_xCommitChanges_def coherent_def)

text \<open>Reading one entry back.\<close>

lemma init_one_view:
  assumes "malloc_spec mal" "cache_inv s" "inv fs" "k < CS_NUM_KEYS"
    and "init_one mal nvlen nvread fs s k = Some s'"
  shows "only_entry k s s' \<and> cache_inv s' \<and> kv_view s' k = nview fs k \<and> \<not> ce_pending (entry s' k)"
proof -
  have k: "k < 6" and len: "k < length (kvStoreCache s)"
    using assms(4) cache_invD(1) [OF assms(2)] by simp_all
  let ?s1 = "set_entry k ((entry s k)\<lparr>ce_pending := False, ce_type := KV_TYPE_NONE\<rparr>) s"
  have inv1: "cache_inv ?s1"
    by (rule only_entry_inv [OF assms(2) only_entry_set k]) (use len in \<open>auto simp: on_heap_def\<close>)
  show ?thesis
  proof (cases "nview fs k")
    case None
    with nv_miss [OF assms(3,4)] assms(5) have "s' = ?s1" by (simp add: init_one_def)
    with inv1 None len k show ?thesis by (simp add: kv_view_def)
  next
    case (Some tv)
    then obtain t v where tv: "nview fs k = Some (t, v)" by (cases tv) auto
    note nv = nv_hit [OF assms(3,4) tv]
    let ?s2 = "vAllocateDataBuffer mal ?s1 k (length v)"
    let ?s2t = "set_entry k ((entry ?s2 k)\<lparr>ce_type := t\<rparr>) ?s2"
    note al = allocate_frame [OF inv1 assms(1) k, of "length v"]
    have len2: "k < length (kvStoreCache ?s2)" using al only_entryD(1) len by fastforce
    have l2: "ce_length (entry ?s2 k) = length v" using al by (simp add: sized_def)
    from assms(5) nv l2 obtain p s3 where p: "pvGetDataWritePtr ?s2 k = Some p"
      and s3: "kv_copy ?s2 p v = Some s3"
      and s': "s' = set_entry k ((entry s3 k)\<lparr>ce_type := t, ce_length := length v\<rparr>) s3"
      by (auto simp: init_one_def Let_def bind_eq_Some_conv)
    have "(entry s3 k)\<lparr>ce_type := t, ce_length := length v\<rparr> = (entry s3 k)\<lparr>ce_type := t\<rparr>"
      using l2 kv_copy_entry(3) [OF s3, of k] by (cases "entry s3 k") simp
    then have cp: "kv_copy ?s2t p v = Some s'"
      using copy_then_type [OF p s3 len2, of t] s' by simp
    have p': "pvGetDataWritePtr ?s2t k = Some p"
      using p write_ptr_type [OF len2] by simp
    have sz: "sized ?s2t k (length v)"
      using al len2 buffer_ok_set [OF len2, of "(entry ?s2 k)\<lparr>ce_type := t\<rparr>"] by (auto simp: sized_def)
    have fr: "only_entry k s ?s2t"
      using only_entry_trans [OF only_entry_set only_entry_trans [OF _ only_entry_set]] al by blast
    have "cache_inv s' \<and> kv_view s' = (kv_view s)(k \<mapsto> (t, v))"
      by (rule write_prepared [OF fr assms(2) k sz _ refl _ _ p' cp]) (use nv len2 in simp_all)
    moreover have "\<not> ce_pending (entry s' k)"
      using kv_copy_entry(1) [OF cp, of k] len2 len al_pending [of k ?s1 mal "length v"] by simp
    moreover have "only_entry k s s'"
      by (rule only_entry_trans [OF fr kv_copy_only [OF p' cp sz]])
    ultimately show ?thesis using tv by simp
  qed
qed

lemma init_loop_view:
  assumes "malloc_spec mal" "inv fs" "cache_inv s" "set ks \<subseteq> {..<CS_NUM_KEYS}"
    and "init_loop mal nvlen nvread fs ks s = Some s'"
  shows "cache_inv s' \<and> (\<forall>j. kv_view s' j = (if j \<in> set ks then nview fs j else kv_view s j)) \<and>
    (\<forall>j \<in> set ks. \<not> ce_pending (entry s' j)) \<and> (\<forall>j. j \<notin> set ks \<longrightarrow> entry s' j = entry s j)"
  using assms(3-)
proof (induction ks arbitrary: s)
  case (Cons k ks)
  then obtain s1 where one: "init_one mal nvlen nvread fs s k = Some s1"
    and rest: "init_loop mal nvlen nvread fs ks s1 = Some s'"
    by (auto simp: bind_eq_Some_conv)
  have k: "k < CS_NUM_KEYS" using Cons.prems(2) by simp
  note v1 = init_one_view [OF assms(1) Cons.prems(1) assms(2) k one]
  then have e1: "entry s1 j = entry s j" "kv_view s1 j = kv_view s j" if "j \<noteq> k" for j
    using only_entryD(3) only_entry_view that by blast+
  have sub: "set ks \<subseteq> {..<CS_NUM_KEYS}" using Cons.prems(2) by simp
  from v1 have inv1: "cache_inv s1" by blast
  note v2 = Cons.IH [OF inv1 sub rest]
  have "kv_view s' j = (if j \<in> set (k # ks) then nview fs j else kv_view s j)" for j
    using v2 v1 e1 [of j] by (cases "j = k") auto
  moreover have "\<not> ce_pending (entry s' j)" if "j \<in> set (k # ks)" for j
    using v2 v1 that by (cases "j \<in> set ks") auto
  moreover have "entry s' j = entry s j" if "j \<notin> set (k # ks)" for j
    using v2 e1 [of j] that by auto
  ultimately show ?case using v2 by blast
qed simp

text \<open>
  After the start-up every key has the value the store holds, whatever was in the cache.
\<close>

lemma cache_init_view:
  assumes "malloc_spec mal" "inv fs" "cache_inv s" "vprvCacheInit mal nvlen nvread fs s = Some s'"
  shows "cache_inv s' \<and> (\<forall>k < CS_NUM_KEYS. kv_view s' k = nview fs k) \<and> coherent (nview fs) s'"
  using init_loop_view [OF assms(1-3), of "[0..<CS_NUM_KEYS]" s'] assms(4)
  by (auto simp: vprvCacheInit_def coherent_def atLeast0LessThan)

text \<open>Commit, restart, read: the values survive.\<close>

lemma commit_restart:
  assumes "malloc_spec mal" "inv fs" "cache_inv s" "fits cap s" "coherent (nview fs) s"
    and "KVStore_xCommitChanges nvwrite s fs = Some (True, fs')"
    and "cache_inv s0" "vprvCacheInit mal nvlen nvread fs' s0 = Some s'"
  shows "cache_inv s' \<and> kv_view s' = kv_view s"
proof -
  from commit_view [OF assms(3,4,2,5,6)] have fs': "inv fs'"
    and v: "\<And>k. k < CS_NUM_KEYS \<Longrightarrow> nview fs' k = kv_view s k" by blast+
  from cache_init_view [OF assms(1) fs' assms(7,8)] have "cache_inv s'"
    and "\<And>k. k < CS_NUM_KEYS \<Longrightarrow> kv_view s' k = nview fs' k" by blast+
  moreover have "kv_view s' k = kv_view s k" if "\<not> k < CS_NUM_KEYS" for k
    using that by (simp add: kv_view_def)
  ultimately show ?thesis using v by (intro conjI ext) metis+
qed

end

end
