(* ===== verification/KvNv.thy ===== *)
theory KvNv
  imports KvPersist
begin

text \<open>
  The littlefs storage of the key/value store (\<open>src/source/kvstore/kvstore_nv_littlefs.c\<close>): one
  file per key, \<open>/cfg/<key>\<close>, holding a header (type, length) and the value.

  littlefs is a submodule of the repository and not part of it: its calls are the fields of the
  record \<open>lfs_ops\<close>, an argument of every definition, and \<open>lfs_spec\<close> is what its documentation
  promises about them. \<open>KVSTORE_VAL_MAX_LEN\<close> is not defined in the repository and is the
  argument \<open>cap\<close>.
\<close>

subsection \<open>littlefs\<close>

record lfs_info =
  info_type :: "8 word"
  info_size :: nat

text \<open>
  \<open>'f\<close> is the state of the file system and \<open>'h\<close> an open file. Calls return their \<open>int\<close>
  result and the new states; \<open>lfs_file_read\<close> also the bytes it put into the buffer.
\<close>

record ('f, 'h) lfs_ops =
  lfs_stat :: "'f \<Rightarrow> string \<Rightarrow> int \<times> lfs_info"
  lfs_file_open :: "'f \<Rightarrow> string \<Rightarrow> u32 \<Rightarrow> int \<times> 'f \<times> 'h"
  lfs_file_read :: "'f \<Rightarrow> 'h \<Rightarrow> nat \<Rightarrow> int \<times> byte list \<times> 'h"
  lfs_file_write :: "'f \<Rightarrow> 'h \<Rightarrow> byte list \<Rightarrow> int \<times> 'f \<times> 'h"
  lfs_file_sync :: "'f \<Rightarrow> 'h \<Rightarrow> int \<times> 'f \<times> 'h"
  lfs_file_close :: "'f \<Rightarrow> 'h \<Rightarrow> int \<times> 'f"
  lfs_remove :: "'f \<Rightarrow> string \<Rightarrow> int \<times> 'f"

definition LFS_ERR_OK :: int where "LFS_ERR_OK = 0"
definition LFS_ERR_CORRUPT :: int where "LFS_ERR_CORRUPT = - 84"
definition LFS_ERR_INVAL :: int where "LFS_ERR_INVAL = - 22"
definition LFS_TYPE_REG :: "8 word" where "LFS_TYPE_REG = 1"
definition LFS_O_RDONLY :: u32 where "LFS_O_RDONLY = 1"
definition LFS_O_WRONLY :: u32 where "LFS_O_WRONLY = 2"
definition LFS_O_CREAT :: u32 where "LFS_O_CREAT = 0x100"
definition LFS_O_TRUNC :: u32 where "LFS_O_TRUNC = 0x400"

abbreviation write_flags :: u32 where
  "write_flags \<equiv> LFS_O_WRONLY OR LFS_O_TRUNC OR LFS_O_CREAT"

lemmas lfs_consts = LFS_ERR_OK_def LFS_ERR_CORRUPT_def LFS_ERR_INVAL_def LFS_TYPE_REG_def

subsection \<open>The file format\<close>

definition kv_type_code :: "KVStoreValueType_t \<Rightarrow> u32" where
  "kv_type_code t = (case t of KV_TYPE_NONE \<Rightarrow> 0 | KV_TYPE_BASE_T \<Rightarrow> 1 | KV_TYPE_UBASE_T \<Rightarrow> 2
     | KV_TYPE_INT32 \<Rightarrow> 3 | KV_TYPE_UINT32 \<Rightarrow> 4 | KV_TYPE_STRING \<Rightarrow> 5 | KV_TYPE_BLOB \<Rightarrow> 6
     | KV_TYPE_LAST \<Rightarrow> 7 | KV_TYPE_RAW w \<Rightarrow> w)"

definition kv_type_of_code :: "u32 \<Rightarrow> KVStoreValueType_t" where
  "kv_type_of_code w = (if w = 0 then KV_TYPE_NONE else if w = 1 then KV_TYPE_BASE_T
     else if w = 2 then KV_TYPE_UBASE_T else if w = 3 then KV_TYPE_INT32
     else if w = 4 then KV_TYPE_UINT32 else if w = 5 then KV_TYPE_STRING
     else if w = 6 then KV_TYPE_BLOB else if w = 7 then KV_TYPE_LAST else KV_TYPE_RAW w)"

definition SIZEOF_HEADER :: nat where
  "SIZEOF_HEADER = 8"

text \<open>The eight bytes of a \<open>KVStoreTLVHeader_t\<close> and back.\<close>

record KVStoreTLVHeader_t =
  tlv_type :: KVStoreValueType_t
  tlv_length :: nat

definition header_bytes :: "KVStoreTLVHeader_t \<Rightarrow> byte list" where
  "header_bytes h = le_bytes (kv_type_code (tlv_type h)) @ le_bytes (of_nat (tlv_length h))"

definition header_of_bytes :: "byte list \<Rightarrow> KVStoreTLVHeader_t" where
  "header_of_bytes bs = \<lparr>tlv_type = kv_type_of_code (le_word (take 4 bs)),
     tlv_length = unat (le_word (take 4 (drop 4 bs)))\<rparr>"

definition kv_file_name :: "KVStoreKey_t \<Rightarrow> string" where
  "kv_file_name xKey = ''/cfg/'' @ kvStoreKeyMap ! xKey"

subsection \<open>Operations\<close>

text \<open>The comparison is between a 32 bit signed and an unsigned value, so it is modulo \<open>2 ^ 32\<close>.\<close>

definition vLfsSSizeToErr :: "int \<Rightarrow> nat \<Rightarrow> int" where
  "vLfsSSizeToErr ret xExpectedLength =
     (if ret mod 2 ^ 32 = int xExpectedLength then LFS_ERR_OK
      else if 0 \<le> ret then LFS_ERR_CORRUPT else ret)"

definition xValidateFile :: "('f, 'h) lfs_ops \<Rightarrow> 'f \<Rightarrow> string \<Rightarrow> bool" where
  "xValidateFile ops fs pcFileName =
     (case lfs_stat ops fs pcFileName of (r, info) \<Rightarrow>
        r = LFS_ERR_OK \<and> info_type info AND LFS_TYPE_REG = LFS_TYPE_REG \<and>
        SIZEOF_HEADER \<le> info_size info)"

text \<open>The difference wraps when the file is shorter than a header.\<close>

definition xprvGetValueLengthFromImpl :: "('f, 'h) lfs_ops \<Rightarrow> 'f \<Rightarrow> KVStoreKey_t \<Rightarrow> nat" where
  "xprvGetValueLengthFromImpl ops fs xKey =
     (case lfs_stat ops fs (kv_file_name xKey) of (r, info) \<Rightarrow>
        if r = LFS_ERR_OK then u32_sub (info_size info) SIZEOF_HEADER else 0)"

text \<open>
  The buffer is \<open>xBufferSize\<close> bytes long; the source reads as many bytes as the header says, whatever the
  size, so a longer copy is a write outside it. The result is what is stored through the
  out-pointers (nothing on failure) and the bytes at the start of the buffer; the file is only read
  and closed, which leaves the file system as it is.
\<close>

definition xprvReadValueFromImpl :: "nat \<Rightarrow> ('f, 'h) lfs_ops \<Rightarrow> 'f read_impl" where
  "xprvReadValueFromImpl cap ops fs xKey xBufferSize =
     (if xValidateFile ops fs (kv_file_name xKey)
      then (case lfs_file_open ops fs (kv_file_name xKey) LFS_O_RDONLY of (r0, fs1, f0) \<Rightarrow>
        let zero = \<lparr>tlv_type = KV_TYPE_NONE, tlv_length = 0\<rparr>;
            (r1, xTlvHeader, f1) =
              (if r0 = LFS_ERR_OK
               then (case lfs_file_read ops fs1 f0 SIZEOF_HEADER of (r, bs, f) \<Rightarrow>
                       (vLfsSSizeToErr r SIZEOF_HEADER,
                        header_of_bytes (overwrite 0 bs (header_bytes zero)), f))
               else (r0, zero, f0))
        in do { configASSERT (tlv_length xTlvHeader < cap);
                let (r2, data) =
                  (if LFS_ERR_OK \<le> r1
                   then (case lfs_file_read ops fs1 f1 (tlv_length xTlvHeader) of (r, bs, f) \<Rightarrow>
                           (vLfsSSizeToErr r (tlv_length xTlvHeader), bs))
                   else (r1, []));
                (if length data \<le> xBufferSize
                 then Some (if r2 = LFS_ERR_OK then Some (tlv_type xTlvHeader, tlv_length xTlvHeader) else None, data)
                 else None) })
      else Some (None, []))"

definition xprvWriteValueToImpl :: "('f, 'h) lfs_ops \<Rightarrow> 'f write_impl" where
  "xprvWriteValueToImpl ops fs xKey xType xLength pvData =
     (case pvData of
        None \<Rightarrow> Some (False, fs)
      | Some d \<Rightarrow>
        do { d' \<leftarrow> mem_read 0 xLength d;
             let pcFileName = kv_file_name xKey;
             let (r0, fs0, f0) = lfs_file_open ops fs pcFileName write_flags;
             Some (if r0 \<noteq> LFS_ERR_OK then (False, fs0)
               else let xTlvHeader = \<lparr>tlv_type = xType, tlv_length = xLength\<rparr>;
                        (w1, fs1, f1) = lfs_file_write ops fs0 f0 (header_bytes xTlvHeader);
                        r1 = vLfsSSizeToErr w1 SIZEOF_HEADER;
                        (r2, fs2, f2) =
                          (if r1 \<noteq> LFS_ERR_OK then (r1, fs1, f1)
                           else (case lfs_file_write ops fs1 f1 d' of (w2, fs2, f2) \<Rightarrow>
                                   (vLfsSSizeToErr w2 xLength, fs2, f2)));
                        (r3, fs3, f3) = lfs_file_sync ops fs2 f2;
                        (r4, fs4) = lfs_file_close ops fs3 f3;
                        fs5 = (if r2 \<noteq> LFS_ERR_OK then snd (lfs_remove ops fs4 pcFileName) else fs4)
                    in (r2 = LFS_ERR_OK, fs5)) })"


text \<open>
  The start of the store: with the RAM cache in front, every key is read from its file.
  \<open>vprvNvImplInit\<close> has an empty body, and nobody else holds the mutex before the call.
\<close>

definition KVStore_init :: "malloc \<Rightarrow> nat \<Rightarrow> ('f, 'h) lfs_ops \<Rightarrow> 'f \<Rightarrow> kv_state \<Rightarrow> kv_state option" where
  "KVStore_init mal cap ops fs s = vprvCacheInit mal (xprvGetValueLengthFromImpl ops) (xprvReadValueFromImpl cap ops) fs s"

subsection \<open>What littlefs promises\<close>

text \<open>
  \<open>content fs name\<close> is the content of a regular file; \<open>rdata\<close> the bytes an open file has yet
  to give; \<open>wdata\<close> the name of a file open for writing and the bytes written to it so far.
  On a healthy medium reads succeed and a synchronised file has the bytes written to it; opening,
  writing and removing may fail.
\<close>

definition lfs_reads :: "('f, 'h) lfs_ops \<Rightarrow> ('f \<Rightarrow> string \<Rightarrow> byte list option) \<Rightarrow> ('h \<Rightarrow> byte list) \<Rightarrow> bool" where
  "lfs_reads ops content rdata =
     ((\<forall>fs name. content fs name = None \<longrightarrow> fst (lfs_stat ops fs name) \<noteq> LFS_ERR_OK) \<and>
      (\<forall>fs name bs. content fs name = Some bs \<longrightarrow>
         lfs_stat ops fs name = (LFS_ERR_OK, \<lparr>info_type = LFS_TYPE_REG, info_size = length bs\<rparr>)) \<and>
      (\<forall>fs name bs. content fs name = Some bs \<longrightarrow>
         (\<exists>f. lfs_file_open ops fs name LFS_O_RDONLY = (LFS_ERR_OK, fs, f) \<and> rdata f = bs)) \<and>
      (\<forall>fs f n. \<exists>f'. lfs_file_read ops fs f n =
           (int (min n (length (rdata f))), take n (rdata f), f') \<and> rdata f' = drop n (rdata f)))"

definition lfs_writes :: "('f, 'h) lfs_ops \<Rightarrow> ('f \<Rightarrow> string \<Rightarrow> byte list option) \<Rightarrow> ('h \<Rightarrow> string \<times> byte list) \<Rightarrow> bool" where
  "lfs_writes ops content wdata =
     ((\<forall>fs name r fs' f. lfs_file_open ops fs name write_flags = (r, fs', f) \<longrightarrow>
         (\<forall>m. m \<noteq> name \<longrightarrow> content fs' m = content fs m) \<and> (r = LFS_ERR_OK \<longrightarrow> wdata f = (name, []))) \<and>
      (\<forall>fs f bs r fs' f'. lfs_file_write ops fs f bs = (r, fs', f') \<longrightarrow>
         content fs' = content fs \<and> r \<le> int (length bs) \<and> fst (wdata f') = fst (wdata f) \<and>
         - (2 ^ 31) \<le> r \<and> (0 \<le> r \<longrightarrow> snd (wdata f') = snd (wdata f) @ take (nat r) bs)) \<and>
      (\<forall>fs f r fs' f'. lfs_file_sync ops fs f = (r, fs', f') \<longrightarrow>
         r = LFS_ERR_OK \<and> content fs' = (content fs)(fst (wdata f) \<mapsto> snd (wdata f)) \<and> wdata f' = wdata f) \<and>
      (\<forall>fs f r fs'. lfs_file_close ops fs f = (r, fs') \<longrightarrow> content fs' = content fs) \<and>
      (\<forall>fs name r fs'. lfs_remove ops fs name = (r, fs') \<longrightarrow>
         content fs' = (if r = LFS_ERR_OK then (content fs)(name := None) else content fs)))"

definition lfs_spec ::
  "('f, 'h) lfs_ops \<Rightarrow> ('f \<Rightarrow> string \<Rightarrow> byte list option) \<Rightarrow> ('h \<Rightarrow> byte list) \<Rightarrow> ('h \<Rightarrow> string \<times> byte list) \<Rightarrow> bool" where
  "lfs_spec ops content rdata wdata = (lfs_reads ops content rdata \<and> lfs_writes ops content wdata)"

subsection \<open>Format lemmas\<close>

lemma length_header_bytes [simp]: "length (header_bytes h) = 8"
  by (simp add: header_bytes_def)

lemma type_code_inverse: "storable t \<Longrightarrow> kv_type_of_code (kv_type_code t) = t"
  by (auto simp: storable_def kv_type_of_code_def kv_type_code_def)

lemma header_roundtrip:
  assumes "storable (tlv_type h)" "tlv_length h < 2 ^ 32"
  shows "header_of_bytes (header_bytes h) = h"
  using assms by (simp add: header_of_bytes_def header_bytes_def type_code_inverse unat_of_nat)

lemma file_name_inj: "j < 6 \<Longrightarrow> k < 6 \<Longrightarrow> kv_file_name j = kv_file_name k \<longleftrightarrow> j = k"
proof -
  assume "j < 6" "k < 6"
  moreover have "distinct kvStoreKeyMap" by (simp add: kvStoreKeyMap_def)
  moreover have "length kvStoreKeyMap = 6" by (simp add: kvStoreKeyMap_def)
  ultimately show ?thesis by (simp add: kv_file_name_def nth_eq_iff_index_eq)
qed


subsection \<open>Invariant and view\<close>

text \<open>A complete file: the header describes the bytes that follow.\<close>

definition wf_file :: "nat \<Rightarrow> byte list \<Rightarrow> bool" where
  "wf_file cap bs =
     (let h = header_of_bytes bs in
      SIZEOF_HEADER < length bs \<and> tlv_type h \<noteq> KV_TYPE_NONE \<and>
      tlv_length h = length bs - SIZEOF_HEADER \<and> tlv_length h < cap)"

definition nv_view :: "(string \<Rightarrow> byte list option) \<Rightarrow> KVStoreKey_t \<Rightarrow> (KVStoreValueType_t \<times> byte list) option" where
  "nv_view c k = (case c (kv_file_name k) of
      None \<Rightarrow> None
    | Some bs \<Rightarrow> Some (tlv_type (header_of_bytes bs), drop SIZEOF_HEADER bs))"

definition nv_inv :: "nat \<Rightarrow> (string \<Rightarrow> byte list option) \<Rightarrow> bool" where
  "nv_inv cap c = (cap + SIZEOF_HEADER \<le> 2 ^ 31 \<and>
     (\<forall>k < CS_NUM_KEYS. case c (kv_file_name k) of None \<Rightarrow> True | Some bs \<Rightarrow> wf_file cap bs))"

lemma nv_invD: "nv_inv cap c \<Longrightarrow> k < 6 \<Longrightarrow> c (kv_file_name k) = Some bs \<Longrightarrow> wf_file cap bs"
  by (force simp: nv_inv_def split: option.splits)

lemma wf_file_written:
  assumes "storable t" "v \<noteq> []" "length v < cap" "cap + 8 \<le> 2 ^ 31"
  shows "wf_file cap (header_bytes \<lparr>tlv_type = t, tlv_length = length v\<rparr> @ v)"
    "tlv_type (header_of_bytes (header_bytes \<lparr>tlv_type = t, tlv_length = length v\<rparr> @ v)) = t"
proof -
  let ?h = "\<lparr>tlv_type = t, tlv_length = length v\<rparr>"
  have "header_of_bytes (header_bytes ?h @ v) = header_of_bytes (header_bytes ?h)"
    by (simp add: header_of_bytes_def header_bytes_def)
  also have "\<dots> = ?h" by (rule header_roundtrip) (use assms in simp_all)
  finally have eq: "header_of_bytes (header_bytes ?h @ v) = ?h" .
  show "tlv_type (header_of_bytes (header_bytes ?h @ v)) = t" by (simp add: eq)
  show "wf_file cap (header_bytes ?h @ v)"
    using assms by (auto simp: wf_file_def eq SIZEOF_HEADER_def storable_def)
qed

text \<open>Exactly the expected length counts as success.\<close>

lemma ssize_ok:
  assumes "- (2 ^ 31) \<le> r" "r \<le> int n" "n < 2 ^ 31"
  shows "vLfsSSizeToErr r n = LFS_ERR_OK \<longleftrightarrow> r = int n"
proof (cases "0 \<le> r")
  case True
  then have "r mod 2 ^ 32 = r" using assms by simp
  then show ?thesis using True by (simp add: vLfsSSizeToErr_def lfs_consts)
next
  case False
  have "r mod 2 ^ 32 = (r + 2 ^ 32) mod 2 ^ 32" by (rule mod_add_self2 [symmetric])
  also have "\<dots> = r + 2 ^ 32" by (rule mod_pos_pos_trivial) (use False assms(1) in simp_all)
  finally have "r mod 2 ^ 32 = r + 2 ^ 32" .
  then show ?thesis using False assms by (simp add: vLfsSSizeToErr_def lfs_consts)
qed


subsection \<open>Reading\<close>

lemma lfs_readsD:
  assumes "lfs_reads ops content rdata"
  shows "content fs name = None \<Longrightarrow> fst (lfs_stat ops fs name) \<noteq> LFS_ERR_OK"
    "content fs name = Some bs \<Longrightarrow>
      lfs_stat ops fs name = (LFS_ERR_OK, \<lparr>info_type = LFS_TYPE_REG, info_size = length bs\<rparr>)"
    "content fs name = Some bs \<Longrightarrow>
      \<exists>f. lfs_file_open ops fs name LFS_O_RDONLY = (LFS_ERR_OK, fs, f) \<and> rdata f = bs"
    "\<exists>f'. lfs_file_read ops fs f n = (int (min n (length (rdata f))), take n (rdata f), f') \<and>
      rdata f' = drop n (rdata f)"
  using assms unfolding lfs_reads_def by blast+

lemma nv_length:
  assumes "lfs_reads ops content rdata" "content fs (kv_file_name k) = Some bs" "8 \<le> length bs" "length bs < 2 ^ 32"
  shows "xprvGetValueLengthFromImpl ops fs k = length bs - 8"
  using lfs_readsD(2) [OF assms(1,2)] assms(3,4)
  by (simp add: xprvGetValueLengthFromImpl_def SIZEOF_HEADER_def)

text \<open>
  What reading a file of at least a header does, for any header: it fails without reading outside
  the buffer, or gives the value.
\<close>

lemma nv_read_file:
  assumes "lfs_reads ops content rdata" "content fs (kv_file_name k) = Some bs" "8 \<le> length bs"
    and "length bs < 2 ^ 31" "tlv_length (header_of_bytes bs) < cap"
    and "n = min (tlv_length (header_of_bytes bs)) (length bs - 8)" "n \<le> sz"
  shows "xprvReadValueFromImpl cap ops fs k sz =
    Some (if n = tlv_length (header_of_bytes bs) then Some (tlv_type (header_of_bytes bs), n) else None,
          take n (drop 8 bs))"
proof -
  note R = lfs_readsD [OF assms(1)]
  have val: "xValidateFile ops fs (kv_file_name k)"
    using R(2) [OF assms(2)] assms(3) by (simp add: xValidateFile_def SIZEOF_HEADER_def)
  from R(3) [OF assms(2)] obtain f0
    where op: "lfs_file_open ops fs (kv_file_name k) LFS_O_RDONLY = (LFS_ERR_OK, fs, f0)" and f0: "rdata f0 = bs"
    by blast
  from R(4) [of fs f0 8] f0 assms(3) obtain f1 where
    r1: "lfs_file_read ops fs f0 8 = (8, take 8 bs, f1)" and f1: "rdata f1 = drop 8 bs"
    by (auto simp: min_def)
  have hd: "header_of_bytes (overwrite 0 (take 8 bs) z) = header_of_bytes bs" if "length z = 8" for z
    using assms(3) that by (simp add: header_of_bytes_def drop_take min_def)
  let ?l = "tlv_length (header_of_bytes bs)"
  from R(4) [of fs f1 ?l] f1 assms(6) obtain f2 where
    r2: "lfs_file_read ops fs f1 ?l = (int n, take n (drop 8 bs), f2)"
    by (auto simp: min_def)
  have "int n mod 2 ^ 32 = int n" using assms(4,6) by simp
  moreover have "?l < 2 ^ 32" by (simp add: header_of_bytes_def)
  ultimately have ss: "vLfsSSizeToErr (int n) ?l = (if n = ?l then LFS_ERR_OK else LFS_ERR_CORRUPT)"
    by (simp add: vLfsSSizeToErr_def)
  have ln: "length (take n (drop 8 bs)) = n" using assms(6) by simp
  show ?thesis
    using val op r1 r2 assms(5,7) ss hd ln
    by (simp add: xprvReadValueFromImpl_def SIZEOF_HEADER_def vLfsSSizeToErr_def lfs_consts)
qed

text \<open>A key without a file has length 0 and cannot be read.\<close>

lemma nv_no_file:
  assumes "lfs_reads ops content rdata" "content fs (kv_file_name k) = None"
  shows "xprvGetValueLengthFromImpl ops fs k = 0" "xprvReadValueFromImpl cap ops fs k sz = Some (None, [])"
  using lfs_readsD(1) [OF assms]
  by (auto simp: xprvGetValueLengthFromImpl_def xprvReadValueFromImpl_def xValidateFile_def split: prod.splits)


subsection \<open>Writing\<close>

lemma lfs_writesD:
  assumes "lfs_writes ops content wdata"
  shows "lfs_file_open ops fs name write_flags = (r, fs', f) \<Longrightarrow> m \<noteq> name \<Longrightarrow> content fs' m = content fs m"
    "lfs_file_open ops fs name write_flags = (LFS_ERR_OK, fs', f) \<Longrightarrow> wdata f = (name, [])"
    "lfs_file_write ops fs f bs = (r, fs', f') \<Longrightarrow>
      content fs' = content fs \<and> r \<le> int (length bs) \<and> fst (wdata f') = fst (wdata f) \<and> - (2 ^ 31) \<le> r"
    "lfs_file_write ops fs f bs = (int (length bs), fs', f') \<Longrightarrow> snd (wdata f') = snd (wdata f) @ bs"
    "lfs_file_sync ops fs f = (r, fs', f') \<Longrightarrow>
      content fs' = (content fs)(fst (wdata f) \<mapsto> snd (wdata f)) \<and> wdata f' = wdata f"
    "lfs_file_close ops fs f = (r, fs') \<Longrightarrow> content fs' = content fs"
    "lfs_remove ops fs name = (r, fs') \<Longrightarrow>
      content fs' = (if r = LFS_ERR_OK then (content fs)(name := None) else content fs)"
  using assms unfolding lfs_writes_def by (blast | fastforce)+

text \<open>A write only touches the file of its key.\<close>

lemma nv_write_frame:
  assumes "lfs_writes ops content wdata" "xprvWriteValueToImpl ops fs k t n d = Some (r, fs')"
    and "m \<noteq> kv_file_name k"
  shows "content fs' m = content fs m"
proof (cases d)
  case None
  with assms(2) show ?thesis by (simp add: xprvWriteValueToImpl_def)
next
  case (Some d')
  note W = lfs_writesD [OF assms(1)]
  let ?name = "kv_file_name k" and ?hd = "header_bytes \<lparr>tlv_type = t, tlv_length = n\<rparr>"
  obtain r0 fs0 f0 where op: "lfs_file_open ops fs ?name write_flags = (r0, fs0, f0)" by (metis prod.exhaust)
  obtain w1 fs1 f1 where w1: "lfs_file_write ops fs0 f0 ?hd = (w1, fs1, f1)" by (metis prod.exhaust)
  from assms(2) Some obtain d2 where d2: "mem_read 0 n d' = Some d2"
    by (auto simp: xprvWriteValueToImpl_def bind_eq_Some_conv)
  obtain w2 fs2 f2 where w2: "lfs_file_write ops fs1 f1 d2 = (w2, fs2, f2)" by (metis prod.exhaust)
  have c0: "content fs0 m = content fs m" using W(1) [OF op assms(3)] .
  have sync_close: "content (snd (lfs_file_close ops (fst (snd (lfs_file_sync ops x f)))
      (snd (snd (lfs_file_sync ops x f))))) m = content x m" if "fst (wdata f) = ?name" for x f
  proof -
    obtain r3 fs3 f3 where "lfs_file_sync ops x f = (r3, fs3, f3)" by (metis prod.exhaust)
    moreover obtain r4 fs4 where "lfs_file_close ops fs3 f3 = (r4, fs4)" by (metis prod.exhaust)
    ultimately show ?thesis using W(5) [of x f r3 fs3 f3] W(6) [of fs3 f3 r4 fs4] that assms(3) by simp
  qed
  have rm: "content (snd (lfs_remove ops x ?name)) m = content x m" for x
    using W(7) [of x ?name "fst (lfs_remove ops x ?name)" "snd (lfs_remove ops x ?name)"] assms(3) by simp
  show ?thesis
  proof (cases "r0 = LFS_ERR_OK")
    case True
    have n0: "fst (wdata f0) = ?name" using W(2) [of fs ?name fs0 f0] op True by simp
    note w = W(3) [OF w1] W(3) [OF w2]
    show ?thesis
      using assms(2) Some op True w1 w2 d2 n0 w c0 sync_close rm
      by (auto simp: xprvWriteValueToImpl_def Let_def split_beta split: if_splits)
  next
    case False
    with assms(2) Some op c0 show ?thesis
      by (auto simp: xprvWriteValueToImpl_def bind_eq_Some_conv)
  qed
qed

text \<open>A write that reports success leaves exactly the header and the value in the file.\<close>

lemma nv_write_ok:
  assumes "lfs_writes ops content wdata" "n < 2 ^ 31" "length d = n"
    and "xprvWriteValueToImpl ops fs k t n (Some d) = Some (True, fs')"
  shows "content fs' (kv_file_name k) = Some (header_bytes \<lparr>tlv_type = t, tlv_length = n\<rparr> @ d)"
proof -
  note W = lfs_writesD [OF assms(1)]
  let ?name = "kv_file_name k" and ?hd = "header_bytes \<lparr>tlv_type = t, tlv_length = n\<rparr>"
  obtain r0 fs0 f0 where op: "lfs_file_open ops fs ?name write_flags = (r0, fs0, f0)" by (metis prod.exhaust)
  obtain w1 fs1 f1 where w1: "lfs_file_write ops fs0 f0 ?hd = (w1, fs1, f1)" by (metis prod.exhaust)
  obtain w2 fs2 f2 where w2: "lfs_file_write ops fs1 f1 d = (w2, fs2, f2)" by (metis prod.exhaust)
  obtain r3 fs3 f3 where sy: "lfs_file_sync ops fs2 f2 = (r3, fs3, f3)" by (metis prod.exhaust)
  obtain r4 fs4 where cl: "lfs_file_close ops fs3 f3 = (r4, fs4)" by (metis prod.exhaust)
  from assms(3,4) op w1 have r0: "r0 = LFS_ERR_OK" and s1: "vLfsSSizeToErr w1 8 = LFS_ERR_OK"
    by (auto simp: xprvWriteValueToImpl_def Let_def split_beta SIZEOF_HEADER_def split: if_splits)
  with assms(3,4) op w1 w2 sy cl have s2: "vLfsSSizeToErr w2 n = LFS_ERR_OK" and fs': "fs' = fs4"
    by (auto simp: xprvWriteValueToImpl_def Let_def SIZEOF_HEADER_def split: if_splits)
  have l1: "w1 = int (length ?hd)" using ssize_ok [of w1 8] W(3) [OF w1] s1 by simp
  have l2: "w2 = int (length d)" using ssize_ok [of w2 n] W(3) [OF w2] s2 assms(2,3) by simp
  have "wdata f0 = (?name, [])" using W(2) op r0 by blast
  then have "wdata f1 = (?name, ?hd)" using W(3) [OF w1] W(4) [of fs0 f0 ?hd] w1 l1 by (simp add: prod_eq_iff)
  then have "wdata f2 = (?name, ?hd @ d)" using W(3) [OF w2] W(4) [of fs1 f1 d] w2 l2 by (simp add: prod_eq_iff)
  then show ?thesis using W(5) [OF sy] W(6) [OF cl] fs' by simp
qed

text \<open>
  The store implements the contract of \<open>kv_storage\<close> on every file system that behaves as
  \<open>lfs_spec\<close> says.
\<close>

interpretation nv: kv_storage "xprvGetValueLengthFromImpl ops" "xprvReadValueFromImpl cap ops"
    "xprvWriteValueToImpl ops" "\<lambda>fs. lfs_spec ops content rdata wdata \<and> nv_inv cap (content fs)"
    "\<lambda>fs. nv_view (content fs)" cap
  for ops content rdata wdata cap
proof
  fix fs k
  assume "lfs_spec ops content rdata wdata \<and> nv_inv cap (content fs)" "nv_view (content fs) k = None"
  then show "xprvGetValueLengthFromImpl ops fs k = 0"
    using nv_no_file(1) [of ops content rdata fs k] by (auto simp: lfs_spec_def nv_view_def split: option.splits)
next
  fix fs k t v
  assume a: "lfs_spec ops content rdata wdata \<and> nv_inv cap (content fs)" "k < CS_NUM_KEYS"
    "nv_view (content fs) k = Some (t, v)"
  then obtain bs where bs: "content fs (kv_file_name k) = Some bs"
    and tv: "t = tlv_type (header_of_bytes bs)" "v = drop 8 bs"
    by (auto simp: nv_view_def SIZEOF_HEADER_def split: option.splits)
  have wf: "wf_file cap bs" using nv_invD a bs by fastforce
  have R: "lfs_reads ops content rdata" and cap: "cap + 8 \<le> 2 ^ 31"
    using a(1) by (simp_all add: lfs_spec_def nv_inv_def SIZEOF_HEADER_def)
  have len: "8 < length bs" "tlv_length (header_of_bytes bs) = length bs - 8" "length bs - 8 < cap"
    using wf by (auto simp: wf_file_def Let_def SIZEOF_HEADER_def)
  then have "length bs < 2 ^ 31" using cap by linarith
  then show "v \<noteq> [] \<and> t \<noteq> KV_TYPE_NONE \<and> xprvGetValueLengthFromImpl ops fs k = length v \<and>
      xprvReadValueFromImpl cap ops fs k (length v) = Some (Some (t, length v), v)"
    using nv_read_file [OF R bs _ _ _ refl, of cap "length v"] nv_length [OF R bs] wf len tv
    by (simp add: wf_file_def Let_def)
next
  fix fs k t v fs'
  assume a: "lfs_spec ops content rdata wdata \<and> nv_inv cap (content fs)" "k < CS_NUM_KEYS" "storable t"
    "v \<noteq> []" "length v < cap" "xprvWriteValueToImpl ops fs k t (length v) (Some v) = Some (True, fs')"
  have W: "lfs_writes ops content wdata" and cap: "cap + 8 \<le> 2 ^ 31"
    using a(1) by (simp_all add: lfs_spec_def nv_inv_def SIZEOF_HEADER_def)
  let ?bs = "header_bytes \<lparr>tlv_type = t, tlv_length = length v\<rparr> @ v"
  have ck: "content fs' (kv_file_name k) = Some ?bs"
    by (rule nv_write_ok [OF W _ refl a(6)]) (use a(5) cap in linarith)
  have cj: "content fs' (kv_file_name j) = content fs (kv_file_name j)" if "j < 6" "j \<noteq> k" for j
    by (rule nv_write_frame [OF W a(6)]) (use that a(2) file_name_inj in simp)
  note wf = wf_file_written [OF a(3-5) cap]
  have "case content fs' (kv_file_name j) of None \<Rightarrow> True | Some bs \<Rightarrow> wf_file cap bs" if "j < 6" for j
    using a(1) that ck wf(1) cj [OF that] by (cases "j = k") (simp_all add: nv_inv_def)
  then have "nv_inv cap (content fs')" using a(1) by (simp add: nv_inv_def)
  moreover have "nv_view (content fs') j = ((nv_view (content fs))(k \<mapsto> (t, v))) j" if "j < 6" for j
    using ck wf(2) cj [OF that] by (cases "j = k") (simp_all add: nv_view_def SIZEOF_HEADER_def)
  ultimately show "(lfs_spec ops content rdata wdata \<and> nv_inv cap (content fs')) \<and>
      (\<forall>j < CS_NUM_KEYS. nv_view (content fs') j = ((nv_view (content fs))(k \<mapsto> (t, v))) j)"
    using a(1) by simp
next
  fix k fs t n r fs'
  assume "xprvWriteValueToImpl ops fs k t n None = Some (r, fs')"
  then show "\<not> r" by (simp add: xprvWriteValueToImpl_def)
qed

end
