(* ===== verification/KvSpec.thy ===== *)
theory KvSpec
  imports KvNv
begin

text \<open>
  The properties of the key/value store as its users see it: the setters and getters of
  \<open>kvstore.c\<close> over the cache of \<open>kvstore_cache.c\<close> over the files of
  \<open>kvstore_nv_littlefs.c\<close>. A small RAM file system and the first-fit allocator are the instances
  the witnesses run on.
\<close>

subsection \<open>A RAM file system\<close>

type_synonym ram_fs = "string \<rightharpoonup> byte list"

definition ram_ops :: "(ram_fs, string \<times> byte list) lfs_ops" where
  "ram_ops = \<lparr>
     lfs_stat = (\<lambda>m n. case m n of None \<Rightarrow> (- 2, \<lparr>info_type = 0, info_size = 0\<rparr>)
                       | Some bs \<Rightarrow> (0, \<lparr>info_type = 1, info_size = length bs\<rparr>)),
     lfs_file_open = (\<lambda>m n flags. if flags = LFS_O_RDONLY
                       then (case m n of None \<Rightarrow> (- 2, m, (n, [])) | Some bs \<Rightarrow> (0, m, (n, bs)))
                       else (0, m, (n, []))),
     lfs_file_read = (\<lambda>m f n. (int (min n (length (snd f))), take n (snd f), (fst f, drop n (snd f)))),
     lfs_file_write = (\<lambda>m f bs. if length bs < 2 ^ 31 then (int (length bs), m, (fst f, snd f @ bs)) else (- 28, m, f)),
     lfs_file_sync = (\<lambda>m f. (0, m(fst f \<mapsto> snd f), f)),
     lfs_file_close = (\<lambda>m f. (0, m)),
     lfs_remove = (\<lambda>m n. (0, m(n := None)))\<rparr>"

lemma write_flags_ne [simp]: "write_flags \<noteq> LFS_O_RDONLY"
  by (simp add: LFS_O_RDONLY_def LFS_O_WRONLY_def LFS_O_CREAT_def LFS_O_TRUNC_def)

lemma ram_spec: "lfs_spec ram_ops (\<lambda>m. m) snd (\<lambda>f. f)"
proof -
  have "lfs_reads ram_ops (\<lambda>m. m) snd"
    by (auto simp: lfs_reads_def ram_ops_def lfs_consts)
  moreover have "lfs_writes ram_ops (\<lambda>m. m) (\<lambda>f. f)"
    by (auto simp: lfs_writes_def ram_ops_def lfs_consts split: if_splits)
  ultimately show ?thesis by (simp add: lfs_spec_def)
qed

lemma ram_inv_empty: "nv_inv 1024 (\<lambda>n. None)"
  by (simp add: nv_inv_def SIZEOF_HEADER_def)

subsection \<open>A run: set, commit, restart\<close>

definition w_dfl :: defaults where
  "w_dfl = kvStoreDefaults (\<lambda>k. 0xFFF00061)"

definition w_v :: "byte list" where
  "w_v = [0x61, 0x62, 0x63, 0x64, 0x65]"

definition w_s1 :: kv_state where
  "w_s1 = \<lparr>kvStoreCache = \<lparr>ce_type = KV_TYPE_STRING, ce_length = 6, ce_union = 0x1000, ce_pending = True\<rparr>
     # replicate 5 empty_entry, heap = [0x1000 \<mapsto> w_v @ [0]]\<rparr>"

definition w_fs :: ram_fs where
  "w_fs = [''/cfg/thing_name'' \<mapsto> [5, 0, 0, 0, 6, 0, 0, 0] @ w_v @ [0]]"

definition w_s2 :: kv_state where
  "w_s2 = \<lparr>kvStoreCache = \<lparr>ce_type = KV_TYPE_STRING, ce_length = 6, ce_union = 0x1000, ce_pending = False\<rparr>
     # replicate 5 empty_entry, heap = [0x1000 \<mapsto> w_v @ [0]]\<rparr>"

lemma replicates:
  "replicate 6 x = [x, x, x, x, x, x]" "replicate 5 x = [x, x, x, x, x]"
  by (simp_all add: numeral_eq_Suc)

lemmas cache_eval = replicates overwrite_def xprvWriteCacheEntry_def prepare_entry_def vAllocateDataBuffer_def
  mark_changed_def set_entry_def pvGetDataWritePtr_def pvGetDataReadPtr_def heap_ptr_def kv_copy_def
  kv_load_def below_last_def first_fit_def vClearDataBuffer_def vPortFree_def vReallocDataBuffer_def

lemmas nv_eval = ram_ops_def kv_file_name_def kvStoreKeyMap_def vLfsSSizeToErr_def lfs_consts SIZEOF_HEADER_def

lemma w_set: "KVStore_setString (xprvWriteCacheEntry first_fit) w_dfl kv_boot 0 (Some w_v) = Some (True, w_s1)"
  by (simp add: KVStore_setString_def w_dfl_def kvStoreDefaults_def KV_DFLT_STRING_def cache_eval kv_boot_def
      empty_entry_def w_v_def w_s1_def)

lemma w_commit: "KVStore_xCommitChanges (xprvWriteValueToImpl ram_ops) w_s1 (\<lambda>n. None) = Some (True, w_fs)"
  by (simp add: KVStore_xCommitChanges_def upt_rec commit_one_def cache_eval w_s1_def w_v_def empty_entry_def
      xprvWriteValueToImpl_def nv_eval header_bytes_def le_bytes_def kv_type_code_def w_fs_def)

lemma w_restart: "vprvCacheInit first_fit (xprvGetValueLengthFromImpl ram_ops)
    (xprvReadValueFromImpl 1024 ram_ops) w_fs kv_boot = Some w_s2"
  by (simp add: vprvCacheInit_def upt_rec init_one_def cache_eval w_fs_def w_v_def w_s2_def kv_boot_def
      empty_entry_def xprvGetValueLengthFromImpl_def xprvReadValueFromImpl_def xValidateFile_def nv_eval
      header_of_bytes_def kv_type_of_code_def)

subsection \<open>Shared steps\<close>

lemma coherent_boot: "coherent (nv_view (\<lambda>n. None)) kv_boot"
  by (auto simp: coherent_def nv_view_def)

lemma fits_boot: "fits cap kv_boot"
  by (auto simp: fits_def kv_boot_def empty_entry_def)

lemma set_string_write:
  assumes "KVStore_setString wr dfl s k (Some v) = Some (True, s')"
  shows "k < CS_NUM_KEYS" "dfl_type dfl k = KV_TYPE_STRING"
    "wr s k KV_TYPE_STRING (length v + 1) (v @ [0]) = Some (True, s')"
  using assms by (auto simp: KVStore_setString_def split: if_splits)

lemma set_string_commits:
  assumes "malloc_spec mal" "cache_inv s" "coherent nv s" "fits cap s" "length v + 1 < cap"
    and "KVStore_setString (xprvWriteCacheEntry mal) dfl s k (Some v) = Some (True, s')"
  shows "coherent nv s'" "fits cap s'" "cache_inv s'"
    "kv_view s' = (kv_view s)(k \<mapsto> (KV_TYPE_STRING, v @ [0]))"
proof -
  note w = set_string_write [OF assms(6)]
  have n: "0 < length v + 1" "length v + 1 \<le> length (v @ [0])" by simp_all
  note args = assms(1,2) w(1) storable_simps(5) n
  show "coherent nv s'" by (rule write_coherent [OF args w(3) assms(3)])
  show "fits cap s'" by (rule write_fits [OF args assms(5) w(3) assms(4)])
  show "cache_inv s'" "kv_view s' = (kv_view s)(k \<mapsto> (KV_TYPE_STRING, v @ [0]))"
    using write_cache_entry [OF args w(3)] by simp_all
qed

subsection \<open>Properties\<close>



text \<open>
  Setting a string and reading it back gives the string with its terminator, and leaves what
  every other key reads unchanged.
\<close>

lemma kv_set_get_string:
  assumes "malloc_spec mal" "cache_inv s"
    and "KVStore_setString (xprvWriteCacheEntry mal) dfl s k (Some v) = Some (True, s')"
    and "length v < n" "n \<le> length buf"
  shows "cache_inv s' \<and>
    (\<exists>buf'. KVStore_getString xprvCopyValueFromCache dfl s' k (Some buf) n = Some (length v, Some buf') \<and>
       take (length v + 1) buf' = v @ [0]) \<and>
    (\<forall>j. j \<noteq> k \<longrightarrow> KVStore_getString xprvCopyValueFromCache dfl s' j (Some buf) n =
                   KVStore_getString xprvCopyValueFromCache dfl s j (Some buf) n)"
proof -
  have c: "malloc_spec mal \<and> cache_inv s" using assms(1,2) by simp
  note sv = kvc.setString_view [OF c assms(3)]
  then have c': "malloc_spec mal \<and> cache_inv s'" by simp
  have "KVStore_getString xprvCopyValueFromCache dfl s' j (Some buf) n =
      KVStore_getString xprvCopyValueFromCache dfl s j (Some buf) n" if "j \<noteq> k" for j
    by (rule kvc.getString_frame [OF c' c]) (use sv that assms(4,5) in auto)
  with kvc.set_getString [OF c assms(3-5)] c' show ?thesis by blast
qed


text \<open>
  The setters of 32 bit values and the getters of the same type are inverse: a value set is the
  value read, with the success flag set (the unsigned base type has no such getter, see
  \<open>kv_ubase_unreadable\<close>).
\<close>

lemma kv_set_get_scalar:
  assumes "malloc_spec mal" "cache_inv s"
  shows "(KVStore_setUInt32 (xprvWriteCacheEntry mal) dfl s k w = Some (True, s') \<longrightarrow>
      cache_inv s' \<and> KVStore_getUInt32 xprvCopyValueFromCache dfl s' k = Some (w, True)) \<and>
    (KVStore_setInt32 (xprvWriteCacheEntry mal) dfl s k w = Some (True, s') \<longrightarrow>
      cache_inv s' \<and> KVStore_getInt32 xprvCopyValueFromCache dfl s' k = Some (w, True)) \<and>
    (KVStore_setBase (xprvWriteCacheEntry mal) dfl s k w = Some (True, s') \<longrightarrow>
      cache_inv s' \<and> KVStore_getBase xprvCopyValueFromCache dfl s' k = Some (w, True))"
proof -
  have c: "malloc_spec mal \<and> cache_inv s" using assms by simp
  have gen: "cache_inv s' \<and> get_scalar xprvCopyValueFromCache dfl s' t k = Some (w, True)"
    if "k < CS_NUM_KEYS" "dfl_type dfl k = t" "storable t"
      "xprvWriteCacheEntry mal s k t 4 (le_bytes w) = Some (True, s')" for t
  proof -
    note sv = kvc.setScalar_view [OF c that(1,3,4)]
    from kvc.getScalar_value [OF _ that(1,2), of mal s' t w] sv show ?thesis by simp
  qed
  then show ?thesis
    by (auto simp: KVStore_setUInt32_def KVStore_getUInt32_def KVStore_setInt32_def KVStore_getInt32_def
        KVStore_setBase_def KVStore_getBase_def split: if_splits)
qed


definition w_s3 :: kv_state where
  "w_s3 = \<lparr>kvStoreCache = [empty_entry, empty_entry,
     \<lparr>ce_type = KV_TYPE_UINT32, ce_length = 4, ce_union = 1883, ce_pending = True\<rparr>,
     empty_entry, empty_entry, empty_entry], heap = Map.empty\<rparr>"


text \<open>
  Setting a string returns, with success, whenever the memory it may ask for is available: none
  of the assertions on the way can fail.
\<close>

lemma kv_set_string_returns:
  assumes "malloc_spec mal" "cache_inv s" "k < CS_NUM_KEYS" "dfl_type dfl k = KV_TYPE_STRING"
    and "mal (heap s) (length v + 1) \<noteq> None" "mal (heap (vClearDataBuffer s k)) (length v + 1) \<noteq> None"
  shows "\<exists>s'. KVStore_setString (xprvWriteCacheEntry mal) dfl s k (Some v) = Some (True, s') \<and> cache_inv s'"
proof -
  have "\<exists>s'. xprvWriteCacheEntry mal s k KV_TYPE_STRING (length v + 1) (v @ [0]) = Some (True, s')"
    by (rule write_returns) (use assms in simp_all)
  then obtain s' where w: "KVStore_setString (xprvWriteCacheEntry mal) dfl s k (Some v) = Some (True, s')"
    using assms(3,4) by (auto simp: KVStore_setString_def)
  with kvc.setString_view [of mal s dfl k v s'] assms(1,2) show ?thesis by blast
qed


text \<open>
  A string that does not fit the caller's buffer is cut: the buffer holds the first
  \<open>n - 1\<close> characters and a terminator, and the returned count is still the full length.
\<close>

lemma kv_get_string_truncates:
  assumes "cache_inv s" "k < CS_NUM_KEYS" "dfl_type dfl k = KV_TYPE_STRING"
    and "kv_view s k = Some (KV_TYPE_STRING, v @ [0])" "0 < n" "n \<le> length v" "n \<le> length buf"
  shows "\<exists>buf'. KVStore_getString xprvCopyValueFromCache dfl s k (Some buf) n = Some (length v, Some buf') \<and>
    take n buf' = take (n - 1) v @ [0] \<and> drop n buf' = drop n buf"
proof -
  let ?b = "(overwrite 0 (take n (v @ [0])) buf)[n - 1 := 0]"
  have "malloc_spec first_fit \<and> cache_inv s" using first_fit_spec assms(1) by simp
  from kvc.getString_value [OF this assms(2-5,7)]
  have "KVStore_getString xprvCopyValueFromCache dfl s k (Some buf) n = Some (length v, Some ?b)" by simp
  moreover have "take n ?b = take (n - 1) v @ [0]"
  proof -
    have "take n v = take (n - 1) v @ [v ! (n - 1)]"
      using assms(5,6) take_Suc_conv_app_nth [of "n - 1" v] by simp
    then show ?thesis using assms(5-7) by (simp add: overwrite_def list_update_append)
  qed
  moreover have "drop n ?b = drop n buf"
    using assms(5-7) by (simp add: overwrite_def drop_update_cancel)
  ultimately show ?thesis by blast
qed


text \<open>
  A key that was never set and has no file reads as its default when the default is a number:
  the port of the broker is 8883.
\<close>

lemma kv_default_number:
  assumes "cache_inv s" "k < CS_NUM_KEYS" "kv_view s k = None" "dfl ! k = KV_DFLT_UINT32 w"
  shows "KVStore_getUInt32 xprvCopyValueFromCache dfl s k = Some (w, True)"
proof -
  have "malloc_spec first_fit \<and> cache_inv s" using first_fit_spec assms(1) by simp
  from kvc.read_dflt [OF this assms(2,3)] assms(2,4) show ?thesis
    by (simp add: KVStore_getUInt32_def get_scalar_def KV_DFLT_UINT32_def read_default_def union_bytes_def)
qed


text \<open>
  A default string of at most three characters is not what its reader gets: the value is copied
  from the union itself, so that the buffer receives the low bytes of the address of the literal.
  For the empty default of the table the reader sees one byte of that address.
\<close>

lemma kv_default_string_address:
  assumes "cache_inv s" "k < CS_NUM_KEYS" "kv_view s k = None" "dfl ! k = KV_DFLT_STRING a v"
    and "length v < SIZEOF_PTR" "length v + 1 < n" "n \<le> length buf"
  shows "\<exists>buf'. KVStore_getString xprvCopyValueFromCache dfl s k (Some buf) n = Some (length v, Some buf') \<and>
    take (length v + 1) buf' = take (length v + 1) (le_bytes a)"
proof -
  let ?src = "take (length v + 1) (le_bytes a)"
  let ?b = "(overwrite 0 ?src buf)[n - 1 := 0]"
  have "malloc_spec first_fit \<and> cache_inv s" using first_fit_spec assms(1) by simp
  from kvc.read_dflt [OF this assms(2,3)]
  have "KVStore_getString xprvCopyValueFromCache dfl s k (Some buf) n = Some (length v, Some ?b)"
    using assms(2,4-7)
    by (simp add: KVStore_getString_def KV_DFLT_STRING_def read_default_def union_bytes_def min_def)
  moreover have "take (length v + 1) ?b = ?src"
  proof -
    have "length ?src = length v + 1" using assms(5) by simp
    then show ?thesis using assms(6) by (simp add: overwrite_def take_update_cancel)
  qed
  ultimately show ?thesis by blast
qed


text \<open>
  A value of the unsigned base type can be set but never read: its getter tests for the signed
  base type and reports failure.
\<close>

lemma kv_ubase_unreadable:
  assumes "dfl_type dfl k = KV_TYPE_UBASE_T"
  shows "KVStore_getUBase rd dfl s k = Some (0, False)"
proof -
  have "le_word (le_bytes 0) = (0 :: u32)" by (rule le_word_le_bytes)
  with assms show ?thesis by (simp add: KVStore_getUBase_def get_scalar_def)
qed


lemma init_one_length:
  assumes "init_one mal nvlen nvread fs s i = Some s'"
  shows "length (kvStoreCache s') = length (kvStoreCache s)"
proof -
  have "length (kvStoreCache (vAllocateDataBuffer mal x i n)) = length (kvStoreCache x)" for x n
    by (auto simp: vAllocateDataBuffer_def split: option.splits)
  with assms show ?thesis
    by (auto simp: init_one_def Let_def bind_eq_Some_conv kv_copy_entry(4) split: if_splits option.splits)
qed

text \<open>
  A file of fewer bytes than a header stops the device at every start: its length wraps to
  almost \<open>2 ^ 32\<close>, the allocation fails and the assertion on the buffer spins.
\<close>

lemma kv_short_file_blocks_start:
  assumes "lfs_reads ops content rdata" "content fs (kv_file_name k) = Some bs" "length bs < SIZEOF_HEADER"
    and "k < CS_NUM_KEYS" "\<forall>h. mal h (2 ^ 32 - (SIZEOF_HEADER - length bs)) = None"
    and "length (kvStoreCache s) = CS_NUM_KEYS"
  shows "xprvGetValueLengthFromImpl ops fs k = 2 ^ 32 - (SIZEOF_HEADER - length bs) \<and>
    vprvCacheInit mal (xprvGetValueLengthFromImpl ops) nvread fs s = None"
proof -
  let ?n = "2 ^ 32 - (8 - length bs)"
  have len: "xprvGetValueLengthFromImpl ops fs k = ?n"
    using lfs_readsD(2) [OF assms(1,2)] assms(3)
    by (simp add: xprvGetValueLengthFromImpl_def SIZEOF_HEADER_def u32_sub_def)
  have stuck: "init_one mal (xprvGetValueLengthFromImpl ops) nvread fs s k = None"
    if "k < length (kvStoreCache s)" for s
    using that len assms(3,5)
    by (simp add: init_one_def vAllocateDataBuffer_def pvGetDataWritePtr_def heap_ptr_def SIZEOF_HEADER_def)
  have "init_loop mal (xprvGetValueLengthFromImpl ops) nvread fs ks s = None"
    if "k \<in> set ks" "length (kvStoreCache s) = 6" for ks s
    using that
  proof (induction ks arbitrary: s)
    case (Cons i ks)
    then show ?case
    proof (cases "i = k")
      case False
      have "length (kvStoreCache s') = 6" if "init_one mal (xprvGetValueLengthFromImpl ops) nvread fs s i = Some s'" for s'
        using init_one_length [OF that] Cons.prems(2) by simp
      with False Cons show ?thesis
        by (cases "init_one mal (xprvGetValueLengthFromImpl ops) nvread fs s i") simp_all
    qed (use stuck assms(4) in simp)
  qed simp
  then show ?thesis using len assms(3,4,6) by (simp add: vprvCacheInit_def SIZEOF_HEADER_def)
qed


text \<open>
  A write that fails after the file was opened leaves no partial file behind, provided the
  removal works, and never touches the file of another key.
\<close>

lemma nv_failed_write_leaves_nothing:
  assumes "lfs_writes ops content wdata" "xprvWriteValueToImpl ops fs k t n (Some d) = Some (False, fs')"
    and "fst (lfs_file_open ops fs (kv_file_name k) write_flags) = LFS_ERR_OK"
    and "\<forall>x. fst (lfs_remove ops x (kv_file_name k)) = LFS_ERR_OK"
  shows "content fs' = (content fs)(kv_file_name k := None)"
proof
  fix m
  note W = lfs_writesD [OF assms(1)]
  have rm: "content (snd (lfs_remove ops x (kv_file_name k))) (kv_file_name k) = None" for x
    using W(7) [of x "kv_file_name k" LFS_ERR_OK "snd (lfs_remove ops x (kv_file_name k))"] assms(4)
    by (metis fun_upd_same prod.collapse)
  show "content fs' m = ((content fs)(kv_file_name k := None)) m"
  proof (cases "m = kv_file_name k")
    case True
    with assms(2,3) rm show ?thesis
      by (auto simp: xprvWriteValueToImpl_def Let_def bind_eq_Some_conv split_beta split: if_splits)
  next
    case False
    then show ?thesis using nv_write_frame [OF assms(1,2)] by simp
  qed
qed

definition full_ops :: "(ram_fs, string \<times> byte list) lfs_ops" where
  "full_ops = ram_ops\<lparr>lfs_file_write := (\<lambda>m f bs. (- 28, m, f))\<rparr>"


text \<open>
  Shrinking a value from a heap buffer to at most four bytes loses the buffer: it stays
  allocated and no entry refers to it any more.
\<close>

lemma kv_shrink_leaks:
  assumes "malloc_spec mal" "cache_inv s" "on_heap s k" "storable t" "0 < n" "n \<le> SIZEOF_PTR" "n \<le> length v"
    and "xprvWriteCacheEntry mal s k t n v = Some (r, s')"
  shows "heap s' = heap s \<and> heap s' (ce_union (entry s k)) \<noteq> None \<and>
    (\<forall>j. on_heap s' j \<longrightarrow> ce_union (entry s' j) \<noteq> ce_union (entry s k))"
proof -
  have k: "k < 6" "ce_type (entry s k) \<noteq> KV_TYPE_NONE" "4 < ce_length (entry s k)"
    using assms(3) by (simp_all add: on_heap_def)
  have kl: "k < length (kvStoreCache s)" using k cache_invD(1) [OF assms(2)] by simp
  note w = write_cache_entry [OF assms(1,2) _ assms(4,5,7,8)]
  have h: "heap s' = heap s"
    using assms(5-8) k kl
    by (auto simp: xprvWriteCacheEntry_def prepare_entry_def vReallocDataBuffer_def mark_changed_def
        pvGetDataWritePtr_def kv_copy_def configASSERT_def bind_eq_Some_conv split: if_splits)
  obtain b where b: "heap s (ce_union (entry s k)) = Some b" "unshared s k (ce_union (entry s k))"
    using cache_invD(3) [OF assms(2,3)] by (auto simp: buffer_ok_def)
  have "ce_union (entry s' j) \<noteq> ce_union (entry s k)" if "on_heap s' j" for j
  proof (cases "j = k")
    case True
    from w k have "kv_view s' k = Some (t, take n v)" "cache_inv s'" by simp_all
    from view_nonempty(5) [OF this(2,1)] that True assms(6) show ?thesis by (simp add: on_heap_def)
  next
    case False
    have fr: "only_entry k s s'" by (rule write_only_entry [OF assms(1,2) _ assms(4,5,7,8)]) (use k in simp)
    from only_entry_on_heap [OF fr False] only_entryD(3) [OF fr False] that False b(2) show ?thesis
      by (auto simp: unshared_def)
  qed
  with h b show ?thesis by simp
qed


end
