(* ===== verification/OtaFrag.thy ===== *)
theory OtaFrag
  imports Prelude "HOL-Library.Multiset"
begin

text \<open>
  The receive path of the over-the-air update (\<open>src/target/rx65n/ota_pal_rx65n.c\<close>): the list of
  fragments that do not fill a flash page, their assembly into pages, the queue to the flashing
  task and the flashing task itself.

  A list pointer is the list of its nodes, NULL the empty list. \<open>pvPortMalloc\<close> is not under
  \<open>src/\<close>: its outcomes are the argument \<open>ok\<close>, which says for each call, by its number, and size
  whether it succeeds; the number of calls made so far is threaded. Two reads through a NULL list
  pointer (\<open>current->content.offset\<close> at the end of the list in the insertion, \<open>tmp->content.offset\<close>
  in the assembly) do not fault on this part, which has RAM at address 0, and whatever they read the
  code goes on to its test for NULL, so they have no effect here. A write through NULL and every
  access outside a buffer is \<open>None\<close>.
\<close>

subsection \<open>Fragments\<close>

definition FLASH_CF_MIN_PGM_SIZE :: nat where
  "FLASH_CF_MIN_PGM_SIZE = 128"

definition SIZEOF_FLASH_BLOCK :: nat where
  "SIZEOF_FLASH_BLOCK = 12"

lemmas ota_sizes [simp] = FLASH_CF_MIN_PGM_SIZE_def SIZEOF_FLASH_BLOCK_def

text \<open>\<open>x & OTA_FLASH_MIN_PGM_SIZE_MASK\<close>\<close>

definition page_of :: "nat \<Rightarrow> nat" where
  "page_of x = x - x mod FLASH_CF_MIN_PGM_SIZE"

record FLASH_BLOCK =
  fb_offset :: nat
  fb_binary :: "byte list"
  fb_length :: nat

type_synonym frag_list = "FLASH_BLOCK list"
type_synonym mallocs = "nat \<Rightarrow> nat \<Rightarrow> bool"

text \<open>The search of the insertion: before the first node with a larger offset.\<close>

fun insert_node :: "FLASH_BLOCK \<Rightarrow> frag_list \<Rightarrow> frag_list" where
  "insert_node new [] = [new]"
| "insert_node new (current # rest) =
     (if fb_offset new < fb_offset current then new # current # rest
      else current # insert_node new rest)"

definition fragmented_flash_block_list_insert ::
  "mallocs \<Rightarrow> nat \<Rightarrow> frag_list \<Rightarrow> nat \<Rightarrow> byte list \<Rightarrow> nat \<Rightarrow> (frag_list \<times> nat) option" where
  "fragmented_flash_block_list_insert ok n head offset binary len =
     (if \<not> ok n SIZEOF_FLASH_BLOCK then None
      else if \<not> ok (n + 1) len then Some ([], n + 2)
      else do { d \<leftarrow> mem_read 0 len binary;
                Some (insert_node \<lparr>fb_offset = offset, fb_binary = d, fb_length = len\<rparr> head, n + 2) })"

text \<open>The first node with the offset is unlinked; when there is none the result is NULL.\<close>

fun delete_search :: "frag_list \<Rightarrow> frag_list \<Rightarrow> nat \<Rightarrow> frag_list" where
  "delete_search before [] offset = []"
| "delete_search before (tmp # rest) offset =
     (if fb_offset tmp = offset then before @ rest
      else if rest = [] then [] else delete_search (before @ [tmp]) rest offset)"

definition fragmented_flash_block_list_delete :: "frag_list \<Rightarrow> nat \<Rightarrow> frag_list" where
  "fragmented_flash_block_list_delete head offset = delete_search [] head offset"

text \<open>The totals the print function logs: heap bytes and number of nodes.\<close>

definition fragmented_flash_block_list_print :: "frag_list \<Rightarrow> nat \<times> nat" where
  "fragmented_flash_block_list_print head =
     (u32_of (sum_list (map (\<lambda>b. 16 + fb_length b) head)), length head)"

subsection \<open>Assembly of a page\<close>

text \<open>
  The inner loop, from the node \<open>tmp\<close> on: the candidates (a node that crosses its page's end is cut
  and the rest of it goes back into the list), the list after them and the assembled length.
\<close>

fun collect :: "mallocs \<Rightarrow> nat \<Rightarrow> nat \<Rightarrow> nat \<Rightarrow> frag_list \<Rightarrow> (frag_list \<times> frag_list \<times> nat \<times> nat) option" where
  "collect ok n assembled loop_counter [] = Some ([], [], assembled, n)"
| "collect ok n assembled loop_counter (tmp # rest) =
     (if assembled < FLASH_CF_MIN_PGM_SIZE \<and> loop_counter < FLASH_CF_MIN_PGM_SIZE
      then if u32_of (page_of (fb_offset tmp) + FLASH_CF_MIN_PGM_SIZE) < u32_of (fb_offset tmp + fb_length tmp)
           then let frag = FLASH_CF_MIN_PGM_SIZE - assembled in
                do { (rest', n') \<leftarrow> fragmented_flash_block_list_insert ok n rest
                       (u32_of (fb_offset tmp + frag)) (drop frag (fb_binary tmp)) (u32_sub (fb_length tmp) frag);
                     Some ([tmp\<lparr>fb_length := frag\<rparr>], rest', FLASH_CF_MIN_PGM_SIZE, n') }
           else do { (cs, rest', a', n') \<leftarrow> collect ok n (u32_of (assembled + fb_length tmp)) (loop_counter + 1) rest;
                     Some (tmp # cs, rest', a', n') }
      else Some ([], tmp # rest, assembled, n))"

lemma collect_length:
  "collect ok n a c xs = Some (cs, r, a', n') \<Longrightarrow> a' \<noteq> FLASH_CF_MIN_PGM_SIZE \<Longrightarrow>
   length cs + length r = length xs"
proof (induction ok n a c xs arbitrary: cs r a' n' rule: collect.induct)
  case (2 ok n a c t ts)
  then show ?case
    by (auto simp: Let_def bind_eq_Some_conv split: if_splits)
qed simp

text \<open>
  The outer loop: the first aligned node from which a page is complete. \<open>before\<close> are the nodes
  passed over. After a failed attempt the loop goes on with the node after the one where the attempt
  stopped. The result is the list before, the candidates and the list after, or nothing.
\<close>

function search_page :: "mallocs \<Rightarrow> nat \<Rightarrow> frag_list \<Rightarrow> frag_list \<Rightarrow> ((frag_list \<times> frag_list \<times> frag_list) option \<times> nat) option" where
  "search_page ok n before [] = Some (None, n)"
| "search_page ok n before (tmp # rest) =
     (if fb_offset tmp mod FLASH_CF_MIN_PGM_SIZE = 0
      then (case collect ok n 0 0 (tmp # rest) of
              None \<Rightarrow> None
            | Some (cs, r, assembled, n') \<Rightarrow>
                if assembled = FLASH_CF_MIN_PGM_SIZE then Some (Some (before, cs, r), n')
                else (case r of [] \<Rightarrow> Some (None, n')
                      | x # r' \<Rightarrow> search_page ok n' (before @ cs @ [x]) r'))
      else search_page ok n (before @ [tmp]) rest)"
  by pat_completeness auto
termination
proof (relation "measure (\<lambda>(ok, n, before, xs). length xs)", goal_cases)
  case (2 ok n before tmp rest res cs p r q a n' x r')
  then have "length cs + length r = length (tmp # rest)" using collect_length by blast
  with 2 show ?case by simp
qed auto

text \<open>
  The copy of the candidates into the page buffer and their removal from the list. The source sets
  \<open>index\<close> to the length of the last candidate; it does not add it.
\<close>

fun emit_page :: "frag_list \<Rightarrow> nat \<Rightarrow> byte list \<Rightarrow> frag_list \<Rightarrow> (byte list \<times> frag_list) option" where
  "emit_page [] index buf tmp = Some (buf, tmp)"
| "emit_page (c # cs) index buf tmp =
     do { d \<leftarrow> mem_read 0 (fb_length c) (fb_binary c);
          buf' \<leftarrow> mem_write index d buf;
          emit_page cs (fb_length c) buf' (fragmented_flash_block_list_delete tmp (fb_offset c)) }"

text \<open>The result: the new list, the assembled block (none when \<open>binary\<close> is set to NULL), the buffer.\<close>

definition fragmented_flash_block_list_assemble ::
  "mallocs \<Rightarrow> nat \<Rightarrow> frag_list \<Rightarrow> byte list \<Rightarrow> (frag_list \<times> FLASH_BLOCK option \<times> byte list \<times> nat) option" where
  "fragmented_flash_block_list_assemble ok n head buf =
     do { (found, n') \<leftarrow> search_page ok n [] head;
          (case found of
             None \<Rightarrow> Some (head, None, buf, n')
           | Some (before, cs, r) \<Rightarrow>
               do { (buf', tmp) \<leftarrow> emit_page cs 0 buf (before @ cs @ r);
                    Some (tmp, Some \<lparr>fb_offset = fb_offset (hd cs), fb_binary = buf',
                                     fb_length = FLASH_CF_MIN_PGM_SIZE\<rparr>, buf', n') }) }"


subsection \<open>Properties of the list\<close>

definition sorted_frags :: "frag_list \<Rightarrow> bool" where
  "sorted_frags xs = sorted (map fb_offset xs)"

lemma set_insert_node [simp]: "set (insert_node b xs) = insert b (set xs)"
  by (induction xs) auto

lemma insert_node_sorted: "sorted_frags xs \<Longrightarrow> sorted_frags (insert_node b xs)"
  by (induction xs) (auto simp: sorted_frags_def)

lemma mset_insert_node: "mset (insert_node b xs) = add_mset b (mset xs)"
  by (induction xs) auto

lemma delete_search_found:
  "fb_offset t = ofs \<Longrightarrow> \<forall>x \<in> set xs. fb_offset x \<noteq> ofs \<Longrightarrow>
   delete_search before (xs @ t # ys) ofs = before @ xs @ ys"
  by (induction xs arbitrary: before) auto

lemma delete_search_missing:
  "\<forall>x \<in> set xs. fb_offset x \<noteq> ofs \<Longrightarrow> delete_search before xs ofs = []"
  by (induction xs arbitrary: before) auto

lemma delete_found:
  "\<forall>x \<in> set xs. fb_offset x \<noteq> fb_offset t \<Longrightarrow>
   fragmented_flash_block_list_delete (xs @ t # ys) (fb_offset t) = xs @ ys"
  using delete_search_found [of t "fb_offset t" xs "[]" ys]
  by (simp add: fragmented_flash_block_list_delete_def)

lemma delete_head [simp]:
  "fb_offset t = ofs \<Longrightarrow> fragmented_flash_block_list_delete (t # ys) ofs = ys"
  using delete_found [of "[]" t ys] by simp

lemma page_of_aligned [simp]: "x mod 128 = 0 \<Longrightarrow> page_of x = x"
  by (simp add: page_of_def)

subsection \<open>Assembling from one fragment\<close>

text \<open>Every allocation succeeds.\<close>

definition mallocs_ok :: "mallocs \<Rightarrow> bool" where
  "mallocs_ok ok = (\<forall>n k. ok n k)"

lemma insert_ok:
  assumes "mallocs_ok ok" "len \<le> length d"
  shows "fragmented_flash_block_list_insert ok n head ofs d len =
    Some (insert_node \<lparr>fb_offset = ofs, fb_binary = take len d, fb_length = len\<rparr> head, n + 2)"
  using assms by (simp add: fragmented_flash_block_list_insert_def mallocs_ok_def)

text \<open>
  A single fragment that starts a page and is longer than it: the page is emitted and the rest of the
  fragment stays.
\<close>

lemma assemble_long:
  assumes "mallocs_ok ok" "ofs mod 128 = 0" "128 < length d" "ofs + length d < 2 ^ 32" "length buf = 128"
  shows "fragmented_flash_block_list_assemble ok n [\<lparr>fb_offset = ofs, fb_binary = d, fb_length = length d\<rparr>] buf =
    Some ([\<lparr>fb_offset = ofs + 128, fb_binary = drop 128 d, fb_length = length d - 128\<rparr>],
          Some \<lparr>fb_offset = ofs, fb_binary = take 128 d, fb_length = 128\<rparr>, take 128 d, n + 2)"
proof -
  have ins: "fragmented_flash_block_list_insert ok n [] (ofs + 128) (drop 128 d) (length d - 128) =
      Some ([\<lparr>fb_offset = ofs + 128, fb_binary = drop 128 d, fb_length = length d - 128\<rparr>], n + 2)"
    using insert_ok [OF assms(1), of "length d - 128" "drop 128 d"] by simp
  have sub: "u32_sub (length d) 128 = length d - 128" using assms(3,4) by simp
  show ?thesis
    using assms(2-5) ins sub
    by (simp add: fragmented_flash_block_list_assemble_def)
qed

text \<open>A single fragment shorter than a page stays where it is.\<close>

lemma assemble_short:
  assumes "ofs mod 128 = 0" "length d < 128" "ofs + 128 < 2 ^ 32"
  shows "fragmented_flash_block_list_assemble ok n [\<lparr>fb_offset = ofs, fb_binary = d, fb_length = length d\<rparr>] buf =
    Some ([\<lparr>fb_offset = ofs, fb_binary = d, fb_length = length d\<rparr>], None, buf, n)"
  using assms by (simp add: fragmented_flash_block_list_assemble_def)

lemma assemble_empty:
  "fragmented_flash_block_list_assemble ok n [] buf = Some ([], None, buf, n)"
  by (simp add: fragmented_flash_block_list_assemble_def)


subsection \<open>Assembling from two and three fragments\<close>

text \<open>The fragment of the bytes \<open>d\<close> of the file at \<open>ofs\<close>.\<close>

definition frag :: "nat \<Rightarrow> byte list \<Rightarrow> FLASH_BLOCK" where
  "frag ofs d = \<lparr>fb_offset = ofs, fb_binary = d, fb_length = length d\<rparr>"

lemma frag_simps [simp]:
  "fb_offset (frag ofs d) = ofs" "fb_binary (frag ofs d) = d" "fb_length (frag ofs d) = length d"
  by (simp_all add: frag_def)

lemma page_of_inside: "ofs mod 128 = 0 \<Longrightarrow> k < 128 \<Longrightarrow> page_of (ofs + k) = ofs"
  by (simp add: page_of_def mod_add_eq [symmetric])

lemma assemble_two_exact:
  assumes "ofs mod 128 = 0" "0 < length d" "0 < length e" "length d + length e = 128"
    and "ofs + 128 < 2 ^ 32" "length buf = 128"
  shows "fragmented_flash_block_list_assemble ok n (frag ofs d # frag (ofs + length d) e # zs) buf =
    Some (zs, Some (frag ofs (d @ e)), d @ e, n)"
proof -
  have lt: "length d < 128" using assms(3,4) by linarith
  then have pg: "page_of (ofs + length d) = ofs" by (rule page_of_inside [OF assms(1)])
  have c0: "collect ok n 128 k zs = Some ([], zs, 128, n)" for k by (cases zs) simp_all
  have "collect ok n 0 0 (frag ofs d # frag (ofs + length d) e # zs) =
      Some ([frag ofs d, frag (ofs + length d) e], zs, 128, n)"
    using assms pg c0 lt by (simp add: add.assoc)
  then have sp: "search_page ok n [] (frag ofs d # frag (ofs + length d) e # zs) =
      Some (Some ([], [frag ofs d, frag (ofs + length d) e], zs), n)"
    using assms(1) by simp
  have "overwrite (length d) e (overwrite 0 d buf) = d @ e"
    by (rule overwrite_adjacent) (use assms in simp)
  then show ?thesis
    using sp assms
    by (simp add: fragmented_flash_block_list_assemble_def frag_def)
qed

lemma assemble_two_split:
  assumes "mallocs_ok ok" "ofs mod 128 = 0" "0 < length d" "length d < 128" "128 < length d + length e"
    and "ofs + length d + length e < 2 ^ 32" "length buf = 128"
    and "\<forall>z \<in> set zs. ofs + length d + length e \<le> fb_offset z"
  shows "fragmented_flash_block_list_assemble ok n (frag ofs d # frag (ofs + length d) e # zs) buf =
    Some (frag (ofs + 128) (drop (128 - length d) e) # zs, Some (frag ofs (take 128 (d @ e))), take 128 (d @ e), n + 2)"
proof -
  let ?k = "128 - length d"
  have pg: "page_of (ofs + length d) = ofs" using assms by (simp add: page_of_inside)
  have sub: "u32_sub (length e) ?k = length e - ?k" using assms by (intro u32_sub_le) simp_all
  have ins: "fragmented_flash_block_list_insert ok n zs (ofs + 128) (drop ?k e) (length e - ?k) =
      Some (frag (ofs + 128) (drop ?k e) # zs, n + 2)"
    using insert_ok [OF assms(1), of "length e - ?k" "drop ?k e" n zs "ofs + 128"] assms(5,8)
    by (cases zs) (auto simp: frag_def)
  have u: "u32_of (ofs + length d + ?k) = ofs + 128" using assms by simp
  have "collect ok n 0 0 (frag ofs d # frag (ofs + length d) e # zs) =
      Some ([frag ofs d, (frag (ofs + length d) e)\<lparr>fb_length := ?k\<rparr>],
            frag (ofs + 128) (drop ?k e) # zs, 128, n + 2)"
    using assms pg ins sub u by (simp add: Let_def)
  then have sp: "search_page ok n [] (frag ofs d # frag (ofs + length d) e # zs) =
      Some (Some ([], [frag ofs d, (frag (ofs + length d) e)\<lparr>fb_length := ?k\<rparr>],
            frag (ofs + 128) (drop ?k e) # zs), n + 2)"
    using assms(2) by simp
  have "overwrite (length d) (take ?k e) (overwrite 0 d buf) = d @ take ?k e"
    by (rule overwrite_adjacent) (use assms in simp)
  then show ?thesis
    using sp assms
    by (simp add: fragmented_flash_block_list_assemble_def frag_def)
qed

text \<open>With a third fragment the copies overlap: it lands after the second one's length.\<close>

lemma assemble_three:
  assumes "ofs mod 128 = 0" "0 < length a" "0 < length b" "0 < length c" "length a + length b + length c = 128"
    and "ofs + 128 < 2 ^ 32" "length buf = 128"
  shows "fragmented_flash_block_list_assemble ok n
      (frag ofs a # frag (ofs + length a) b # frag (ofs + length a + length b) c # zs) buf =
    Some (zs, Some (frag ofs (overwrite (length b) c (overwrite (length a) b (overwrite 0 a buf)))),
          overwrite (length b) c (overwrite (length a) b (overwrite 0 a buf)), n)"
proof -
  let ?xs = "frag ofs a # frag (ofs + length a) b # frag (ofs + length a + length b) c # zs"
  have lt: "length a < 128" "length a + length b < 128" using assms(2-5) by linarith+
  have pg: "page_of (ofs + length a) = ofs" "page_of (ofs + length a + length b) = ofs"
    using page_of_inside [OF assms(1)] lt by (simp_all add: add.assoc)
  have c0: "collect ok n 128 k zs = Some ([], zs, 128, n)" for k by (cases zs) simp_all
  have "collect ok n 0 0 ?xs =
      Some ([frag ofs a, frag (ofs + length a) b, frag (ofs + length a + length b) c], zs, 128, n)"
    using assms pg c0 lt by (simp add: add.assoc)
  then have sp: "search_page ok n [] ?xs =
      Some (Some ([], [frag ofs a, frag (ofs + length a) b, frag (ofs + length a + length b) c], zs), n)"
    using assms(1) by simp
  then show ?thesis
    using assms
    by (simp add: fragmented_flash_block_list_assemble_def frag_def)
qed

end
