(* ===== verification/OtaFlash.thy ===== *)
theory OtaFlash
  imports OtaFrag
begin

text \<open>
  Writing received blocks to the flash (\<open>src/target/rx65n/ota_pal_rx65n.c\<close>):
  \<open>otaPal_WriteBlock\<close>, which puts packets on a queue of \<open>otaconfigMAX_NUM_BLOCKS_REQUEST\<close>
  places, and \<open>ota_flashing_task\<close>, which takes them off and programs them.

  The two run in different tasks. How they interleave is an explicit schedule: before each send the
  flashing task handles as many packets as the schedule says. \<open>xSemaphoreWriteBlock\<close> makes a
  \<open>otaPal_WriteBlock\<close> atomic with respect to another one, and \<open>xSemaphoreFlashig\<close> holds a
  write back until the last one is complete, so neither occurs. The flash driver is the argument
  \<open>wrf\<close>: the memory after programming some bytes at an address.
\<close>

definition otaconfigMAX_NUM_BLOCKS_REQUEST :: nat where
  "otaconfigMAX_NUM_BLOCKS_REQUEST = 2"

definition otaconfigFILE_BLOCK_SIZE :: nat where
  "otaconfigFILE_BLOCK_SIZE = 2048"

definition BOOT_LOADER_USER_FIRMWARE_HEADER_LENGTH :: nat where
  "BOOT_LOADER_USER_FIRMWARE_HEADER_LENGTH = 0x200"

definition R_OTA_ERR_QUEUE_SEND_FAIL :: int where
  "R_OTA_ERR_QUEUE_SEND_FAIL = - 2"

text \<open>Addresses are relative to \<open>BOOT_LOADER_UPDATE_TEMPORARY_AREA_LOW_ADDRESS\<close>.\<close>

type_synonym flash_mem = "nat \<Rightarrow> byte"
type_synonym flash_write = "flash_mem \<Rightarrow> byte list \<Rightarrow> nat \<Rightarrow> flash_mem"

record PACKET_BLOCK_FOR_QUEUE =
  pk_offset :: nat
  pk_length :: nat
  pk_packet :: "byte list"

record ota_rx =
  frags :: frag_list
  page_buf :: "byte list"
  xQueue :: "PACKET_BLOCK_FOR_QUEUE list"
  flash :: flash_mem
  total_image_length :: nat
  malloc_count :: nat
  sched :: "nat list"

subsection \<open>The flashing task\<close>

text \<open>One round of the task's loop; with an empty queue it waits.\<close>

definition ota_flashing_task :: "flash_write \<Rightarrow> ota_rx \<Rightarrow> ota_rx option" where
  "ota_flashing_task wrf s =
     (case xQueue s of
        [] \<Rightarrow> Some s
      | p # q \<Rightarrow>
          do { d \<leftarrow> mem_read 0 (pk_length p) (pk_packet p);
               _ \<leftarrow> mem_write 0 d (replicate otaconfigFILE_BLOCK_SIZE 0);
               Some (s\<lparr>xQueue := q,
                       flash := wrf (flash s) d (pk_offset p + BOOT_LOADER_USER_FIRMWARE_HEADER_LENGTH),
                       total_image_length := u32_of (total_image_length s + pk_length p)\<rparr>) })"

fun flash_rounds :: "flash_write \<Rightarrow> nat \<Rightarrow> ota_rx \<Rightarrow> ota_rx option" where
  "flash_rounds wrf 0 s = Some s"
| "flash_rounds wrf (Suc k) s = do { s' \<leftarrow> ota_flashing_task wrf s; flash_rounds wrf k s' }"

text \<open>The flashing task runs its share, then the packet is put on the queue if there is room.\<close>

definition queue_send :: "flash_write \<Rightarrow> PACKET_BLOCK_FOR_QUEUE \<Rightarrow> ota_rx \<Rightarrow> (bool \<times> ota_rx) option" where
  "queue_send wrf p s =
     do { s1 \<leftarrow> (case sched s of [] \<Rightarrow> Some s | k # ks \<Rightarrow> flash_rounds wrf k (s\<lparr>sched := ks\<rparr>));
          Some (if length (xQueue s1) < otaconfigMAX_NUM_BLOCKS_REQUEST
                then (True, s1\<lparr>xQueue := xQueue s1 @ [p]\<rparr>) else (False, s1)) }"

subsection \<open>Writing a block\<close>

text \<open>\<open>( int16_t ) ulBlockSize\<close>\<close>

definition int16_of :: "nat \<Rightarrow> int" where
  "int16_of n = (int n + 2 ^ 15) mod 2 ^ 16 - 2 ^ 15"

text \<open>
  \<open>pvPortMalloc\<close> for a packet and the copy into it; the source does not test for NULL, so a failed
  allocation is a write through NULL.
\<close>

definition make_packet :: "mallocs \<Rightarrow> nat \<Rightarrow> byte list \<Rightarrow> nat \<Rightarrow> ota_rx \<Rightarrow> (PACKET_BLOCK_FOR_QUEUE \<times> ota_rx) option" where
  "make_packet ok ofs d len s =
     (if ok (malloc_count s) len
      then do { d' \<leftarrow> mem_read 0 len d;
                Some (\<lparr>pk_offset = ofs, pk_length = len, pk_packet = d'\<rparr>,
                      s\<lparr>malloc_count := malloc_count s + 1\<rparr>) }
      else None)"

partial_function (option) write_pages :: "mallocs \<Rightarrow> flash_write \<Rightarrow> nat \<Rightarrow> ota_rx \<Rightarrow> (int \<times> ota_rx) option" where
  "write_pages ok wrf ulBlockSize s =
     Option.bind (fragmented_flash_block_list_assemble ok (malloc_count s) (frags s) (page_buf s)) (\<lambda>r.
       case r of (frags', blk, buf', n') \<Rightarrow>
         let s1 = s\<lparr>frags := frags', page_buf := buf', malloc_count := n'\<rparr> in
         case blk of
           None \<Rightarrow> Some (int16_of ulBlockSize, s1)
         | Some b \<Rightarrow>
             Option.bind (make_packet ok (fb_offset b) (fb_binary b) (fb_length b) s1) (\<lambda>(p, s2).
               Option.bind (queue_send wrf p s2) (\<lambda>(sent, s3).
                 if sent then write_pages ok wrf ulBlockSize s3
                 else Some (R_OTA_ERR_QUEUE_SEND_FAIL, s3))))"

definition otaPal_WriteBlock ::
  "mallocs \<Rightarrow> flash_write \<Rightarrow> nat \<Rightarrow> byte list \<Rightarrow> nat \<Rightarrow> ota_rx \<Rightarrow> (int \<times> ota_rx) option" where
  "otaPal_WriteBlock ok wrf ulOffset pData ulBlockSize s =
     (if ulOffset mod FLASH_CF_MIN_PGM_SIZE = 0 \<and> ulBlockSize mod FLASH_CF_MIN_PGM_SIZE = 0
      then do { (p, s1) \<leftarrow> make_packet ok ulOffset pData ulBlockSize s;
                (sent, s2) \<leftarrow> queue_send wrf p s1;
                Some (if sent then int16_of ulBlockSize else R_OTA_ERR_QUEUE_SEND_FAIL, s2) }
      else do { (frags', n') \<leftarrow> fragmented_flash_block_list_insert ok (malloc_count s) (frags s) ulOffset pData ulBlockSize;
                let s1 = s\<lparr>frags := frags', malloc_count := n'\<rparr>;
                (if frags' \<noteq> [] then write_pages ok wrf ulBlockSize s1
                 else Some (int16_of ulBlockSize, s1)) })"


subsection \<open>What is on its way to the flash\<close>

text \<open>The flash as it will be once the queue is drained.\<close>

definition flash_image :: "flash_write \<Rightarrow> ota_rx \<Rightarrow> flash_mem" where
  "flash_image wrf s = fold (\<lambda>p fl. wrf fl (pk_packet p) (pk_offset p + BOOT_LOADER_USER_FIRMWARE_HEADER_LENGTH))
                   (xQueue s) (flash s)"

definition packet_ok :: "PACKET_BLOCK_FOR_QUEUE \<Rightarrow> bool" where
  "packet_ok p = (pk_length p = length (pk_packet p) \<and> pk_length p \<le> otaconfigFILE_BLOCK_SIZE)"

definition queue_ok :: "ota_rx \<Rightarrow> bool" where
  "queue_ok s = (length (xQueue s) \<le> otaconfigMAX_NUM_BLOCKS_REQUEST \<and> list_all packet_ok (xQueue s))"

text \<open>The bytes accounted for: those flashed and those queued.\<close>

definition received :: "ota_rx \<Rightarrow> nat" where
  "received s = total_image_length s + sum_list (map pk_length (xQueue s))"

lemma flashing_round:
  assumes "queue_ok s" "received s < 2 ^ 32"
  shows "\<exists>s'. ota_flashing_task wrf s = Some s' \<and> xQueue s' = tl (xQueue s) \<and> flash_image wrf s' = flash_image wrf s \<and>
    queue_ok s' \<and> received s' = received s \<and>
    frags s' = frags s \<and> page_buf s' = page_buf s \<and> malloc_count s' = malloc_count s \<and> sched s' = sched s"
proof (cases "xQueue s")
  case Nil
  then show ?thesis using assms by (simp add: ota_flashing_task_def)
next
  case (Cons p q)
  then have p: "pk_length p = length (pk_packet p)" "length (pk_packet p) \<le> 2048"
    using assms(1) by (simp_all add: queue_ok_def packet_ok_def otaconfigFILE_BLOCK_SIZE_def)
  have "total_image_length s + pk_length p < 2 ^ 32" using assms(2) Cons by (simp add: received_def)
  then have "u32_of (total_image_length s + pk_length p) = total_image_length s + pk_length p" by simp
  then show ?thesis
    using p Cons assms(1)
    by (simp add: ota_flashing_task_def otaconfigFILE_BLOCK_SIZE_def flash_image_def queue_ok_def received_def)
qed

lemma flash_rounds_ok:
  assumes "queue_ok s" "received s < 2 ^ 32"
  shows "\<exists>s'. flash_rounds wrf k s = Some s' \<and> xQueue s' = drop k (xQueue s) \<and> flash_image wrf s' = flash_image wrf s \<and>
    queue_ok s' \<and> received s' = received s \<and>
    frags s' = frags s \<and> page_buf s' = page_buf s \<and> malloc_count s' = malloc_count s \<and> sched s' = sched s"
  using assms
proof (induction k arbitrary: s)
  case (Suc k)
  from flashing_round [OF Suc.prems, of wrf] obtain s1 where
    1: "ota_flashing_task wrf s = Some s1" "xQueue s1 = tl (xQueue s)" "flash_image wrf s1 = flash_image wrf s" "queue_ok s1"
      "received s1 = received s" "frags s1 = frags s" "page_buf s1 = page_buf s" "malloc_count s1 = malloc_count s"
      "sched s1 = sched s" by blast
  from Suc.IH [OF 1(4)] 1(5) Suc.prems(2) obtain s2 where
    "flash_rounds wrf k s1 = Some s2" "xQueue s2 = drop k (xQueue s1)" "flash_image wrf s2 = flash_image wrf s1" "queue_ok s2"
      "received s2 = received s1" "frags s2 = frags s1" "page_buf s2 = page_buf s1"
      "malloc_count s2 = malloc_count s1" "sched s2 = sched s1" by auto
  with 1 show ?case by (simp add: drop_Suc)
qed simp

text \<open>
  A send succeeds when the flashing task has run since the last one, and fails only on a full
  queue; a packet that is accepted is on its way to the flash, one that is not leaves no trace.
\<close>

lemma queue_send_result:
  assumes "queue_ok s" "packet_ok p" "received s + pk_length p < 2 ^ 32"
  shows "\<exists>sent s'. queue_send wrf p s = Some (sent, s') \<and> queue_ok s' \<and>
    flash_image wrf s' = (if sent then wrf (flash_image wrf s) (pk_packet p) (pk_offset p + BOOT_LOADER_USER_FIRMWARE_HEADER_LENGTH)
                    else flash_image wrf s) \<and>
    received s' = received s + (if sent then pk_length p else 0) \<and>
    (sched s \<noteq> [] \<and> 0 < hd (sched s) \<longrightarrow> sent) \<and> (length (xQueue s) < otaconfigMAX_NUM_BLOCKS_REQUEST \<longrightarrow> sent) \<and>
    frags s' = frags s \<and> page_buf s' = page_buf s \<and> malloc_count s' = malloc_count s \<and> sched s' = tl (sched s)"
proof -
  let ?s0 = "s\<lparr>sched := tl (sched s)\<rparr>"
  let ?k = "case sched s of [] \<Rightarrow> 0 | k # ks \<Rightarrow> k"
  have eq: "flash_image wrf ?s0 = flash_image wrf s" "queue_ok ?s0 = queue_ok s" "received ?s0 = received s"
    by (simp_all add: flash_image_def queue_ok_def received_def)
  have "received ?s0 < 2 ^ 32" using assms(3) eq by simp
  from flash_rounds_ok [OF _ this, of wrf ?k] assms(1) eq obtain s1 where
    1: "flash_rounds wrf ?k ?s0 = Some s1" "xQueue s1 = drop ?k (xQueue s)" "flash_image wrf s1 = flash_image wrf s" "queue_ok s1"
      "received s1 = received s" "frags s1 = frags s" "page_buf s1 = page_buf s" "malloc_count s1 = malloc_count s"
      "sched s1 = tl (sched s)" by auto
  have s1: "(case sched s of [] \<Rightarrow> Some s | k # ks \<Rightarrow> flash_rounds wrf k (s\<lparr>sched := ks\<rparr>)) = Some s1"
  proof (cases "sched s")
    case Nil
    then have "?s0 = s" by (cases s) simp
    with 1(1) Nil show ?thesis by simp
  qed (use 1(1) in simp)
  have room: "length (xQueue s1) < 2" if "sched s \<noteq> [] \<and> 0 < hd (sched s) \<or> length (xQueue s) < 2"
    using 1(2) that assms(1)
    by (cases "sched s") (auto simp: queue_ok_def otaconfigMAX_NUM_BLOCKS_REQUEST_def)
  show ?thesis
  proof (cases "length (xQueue s1) < 2")
    case True
    then have "queue_send wrf p s = Some (True, s1\<lparr>xQueue := xQueue s1 @ [p]\<rparr>)"
      by (simp add: queue_send_def s1 otaconfigMAX_NUM_BLOCKS_REQUEST_def)
    with True 1 assms(2) show ?thesis
      by (auto simp: flash_image_def queue_ok_def received_def otaconfigMAX_NUM_BLOCKS_REQUEST_def)
  next
    case False
    then have "queue_send wrf p s = Some (False, s1)"
      by (simp add: queue_send_def s1 otaconfigMAX_NUM_BLOCKS_REQUEST_def)
    with False room 1 show ?thesis by (auto simp: otaconfigMAX_NUM_BLOCKS_REQUEST_def)
  qed
qed


subsection \<open>Writing a block that does not fill its last page\<close>

text \<open>The flashing task runs at least once before each of the next \<open>m\<close> sends.\<close>

definition keeps_up :: "nat \<Rightarrow> ota_rx \<Rightarrow> bool" where
  "keeps_up m s = (m \<le> length (sched s) \<and> (\<forall>k \<in> set (take m (sched s)). 0 < k))"

lemma keeps_up_step:
  "keeps_up (Suc m) s \<Longrightarrow> sched s \<noteq> [] \<and> 0 < hd (sched s)"
  "keeps_up (Suc m) s \<Longrightarrow> sched s' = tl (sched s) \<Longrightarrow> keeps_up m s'"
  by (cases "sched s"; simp add: keeps_up_def)+

text \<open>The pages of a block are written in order.\<close>

fun write_image :: "flash_write \<Rightarrow> nat \<Rightarrow> nat \<Rightarrow> byte list \<Rightarrow> flash_mem \<Rightarrow> flash_mem" where
  "write_image wrf 0 ofs d fl = fl"
| "write_image wrf (Suc m) ofs d fl =
     write_image wrf m (ofs + FLASH_CF_MIN_PGM_SIZE) (drop FLASH_CF_MIN_PGM_SIZE d)
       (wrf fl (take FLASH_CF_MIN_PGM_SIZE d) (ofs + BOOT_LOADER_USER_FIRMWARE_HEADER_LENGTH))"

lemma write_pages_ok:
  assumes "mallocs_ok ok" "queue_ok s" "keeps_up m s" "length (page_buf s) = 128"
    and "frags s = [\<lparr>fb_offset = ofs, fb_binary = d, fb_length = length d\<rparr>]"
    and "ofs mod 128 = 0" "length d = 128 * m + r" "0 < r" "r < 128" "ofs + length d + 128 < 2 ^ 32"
    and "received s + length d < 2 ^ 32"
  shows "\<exists>s'. write_pages ok wrf bs s = Some (int16_of bs, s') \<and> queue_ok s' \<and> length (page_buf s') = 128 \<and>
    flash_image wrf s' = write_image wrf m ofs d (flash_image wrf s) \<and> received s' = received s + 128 * m \<and>
    frags s' = [\<lparr>fb_offset = ofs + 128 * m, fb_binary = drop (128 * m) d, fb_length = r\<rparr>]"
  using assms(2-)
proof (induction m arbitrary: s ofs d)
  case 0
  let ?b = "\<lparr>fb_offset = ofs, fb_binary = d, fb_length = length d\<rparr>"
  let ?s' = "s\<lparr>frags := [?b], page_buf := page_buf s, malloc_count := malloc_count s\<rparr>"
  have as: "fragmented_flash_block_list_assemble ok (malloc_count s) (frags s) (page_buf s) =
      Some ([?b], None, page_buf s, malloc_count s)"
    unfolding 0(4) by (rule assemble_short) (use 0 in simp_all)
  have eq: "write_pages ok wrf bs s = Some (int16_of bs, ?s')"
    unfolding write_pages.simps [of ok wrf bs s] as by simp
  show ?case
    unfolding eq using 0 by (simp add: queue_ok_def flash_image_def received_def)
next
  case (Suc m)
  let ?s1 = "s\<lparr>frags := [\<lparr>fb_offset = ofs + 128, fb_binary = drop 128 d, fb_length = length d - 128\<rparr>],
      page_buf := take 128 d, malloc_count := malloc_count s + 2\<rparr>"
  let ?p = "\<lparr>pk_offset = ofs, pk_length = 128, pk_packet = take 128 d\<rparr>"
  let ?s2 = "?s1\<lparr>malloc_count := malloc_count s + 3\<rparr>"
  have as: "fragmented_flash_block_list_assemble ok (malloc_count s) (frags s) (page_buf s) =
      Some (frags ?s1, Some \<lparr>fb_offset = ofs, fb_binary = take 128 d, fb_length = 128\<rparr>,
            take 128 d, malloc_count s + 2)"
    unfolding Suc.prems(4) using assemble_long [OF assms(1) Suc.prems(5), of d "page_buf s"] Suc.prems by simp
  have mp: "make_packet ok ofs (take 128 d) 128 ?s1 = Some (?p, ?s2)"
    using assms(1) Suc.prems(6) by (simp add: make_packet_def mallocs_ok_def)
  have q2: "queue_ok ?s2" "received ?s2 = received s" "flash_image wrf ?s2 = flash_image wrf s"
    using Suc.prems(1) by (simp_all add: queue_ok_def received_def flash_image_def)
  have pok: "packet_ok ?p" using Suc.prems(6) by (simp add: packet_ok_def otaconfigFILE_BLOCK_SIZE_def)
  have "received ?s2 + pk_length ?p < 2 ^ 32" using q2 Suc.prems(6,10) by simp
  from queue_send_result [OF q2(1) pok this, of wrf] keeps_up_step(1) [OF Suc.prems(2)] obtain s3 where
    3: "queue_send wrf ?p ?s2 = Some (True, s3)" "queue_ok s3"
      "flash_image wrf s3 = wrf (flash_image wrf s) (take 128 d) (ofs + BOOT_LOADER_USER_FIRMWARE_HEADER_LENGTH)"
      "received s3 = received s + 128" "frags s3 = frags ?s1" "page_buf s3 = take 128 d" "sched s3 = tl (sched s)"
    using q2 by auto
  have eq: "write_pages ok wrf bs s = write_pages ok wrf bs s3"
    unfolding write_pages.simps [of ok wrf bs s] as using mp 3(1) by simp
  have "\<exists>s'. write_pages ok wrf bs s3 = Some (int16_of bs, s') \<and> queue_ok s' \<and> length (page_buf s') = 128 \<and>
      flash_image wrf s' = write_image wrf m (ofs + 128) (drop 128 d) (flash_image wrf s3) \<and>
      received s' = received s3 + 128 * m \<and>
      frags s' = [\<lparr>fb_offset = (ofs + 128) + 128 * m, fb_binary = drop (128 * m) (drop 128 d), fb_length = r\<rparr>]"
    by (rule Suc.IH [OF 3(2) keeps_up_step(2) [OF Suc.prems(2) 3(7)]])
       (use Suc.prems 3 in \<open>simp_all add: mod_add_eq [symmetric]\<close>)
  then show ?case unfolding eq using 3(3,4) by (auto simp: add.commute)
qed


lemma write_block_partial:
  assumes "mallocs_ok ok" "queue_ok s" "keeps_up (length d div 128) s" "length (page_buf s) = 128" "frags s = []"
    and "ofs mod 128 = 0" "length d mod 128 \<noteq> 0" "ofs + length d + 128 < 2 ^ 32" "received s + length d < 2 ^ 32"
  shows "\<exists>s'. otaPal_WriteBlock ok wrf ofs d (length d) s = Some (int16_of (length d), s') \<and> queue_ok s' \<and>
    flash_image wrf s' = write_image wrf (length d div 128) ofs d (flash_image wrf s) \<and>
    received s' = received s + 128 * (length d div 128) \<and>
    frags s' = [\<lparr>fb_offset = ofs + 128 * (length d div 128), fb_binary = drop (128 * (length d div 128)) d,
                 fb_length = length d mod 128\<rparr>]"
proof -
  let ?b = "\<lparr>fb_offset = ofs, fb_binary = d, fb_length = length d\<rparr>"
  let ?s1 = "s\<lparr>frags := [?b], malloc_count := malloc_count s + 2\<rparr>"
  have ins: "fragmented_flash_block_list_insert ok (malloc_count s) [] ofs d (length d) = Some ([?b], malloc_count s + 2)"
    using insert_ok [OF assms(1), of "length d" d] by simp
  have eq: "otaPal_WriteBlock ok wrf ofs d (length d) s = write_pages ok wrf (length d) ?s1"
    using assms(5-7) ins by (simp add: otaPal_WriteBlock_def)
  have im: "flash_image wrf ?s1 = flash_image wrf s" "received ?s1 = received s" by (simp_all add: flash_image_def received_def)
  have "\<exists>s'. write_pages ok wrf (length d) ?s1 = Some (int16_of (length d), s') \<and> queue_ok s' \<and>
      length (page_buf s') = 128 \<and> flash_image wrf s' = write_image wrf (length d div 128) ofs d (flash_image wrf ?s1) \<and>
      received s' = received ?s1 + 128 * (length d div 128) \<and>
      frags s' = [\<lparr>fb_offset = ofs + 128 * (length d div 128), fb_binary = drop (128 * (length d div 128)) d,
                   fb_length = length d mod 128\<rparr>]"
    by (rule write_pages_ok [OF assms(1)])
       (use assms(2-9) im in \<open>simp_all add: queue_ok_def keeps_up_def\<close>)
  then show ?thesis unfolding eq im by blast
qed

lemma write_block_full:
  assumes "mallocs_ok ok" "queue_ok s" "ofs mod 128 = 0" "length d mod 128 = 0" "length d \<le> otaconfigFILE_BLOCK_SIZE"
    and "received s + length d < 2 ^ 32"
  shows "\<exists>sent s'. otaPal_WriteBlock ok wrf ofs d (length d) s =
      Some (if sent then int (length d) else R_OTA_ERR_QUEUE_SEND_FAIL, s') \<and> queue_ok s' \<and> frags s' = frags s \<and>
    flash_image wrf s' = (if sent then wrf (flash_image wrf s) d (ofs + BOOT_LOADER_USER_FIRMWARE_HEADER_LENGTH) else flash_image wrf s) \<and>
    received s' = received s + (if sent then length d else 0) \<and>
    (sched s \<noteq> [] \<and> 0 < hd (sched s) \<longrightarrow> sent) \<and> sched s' = tl (sched s)"
proof -
  let ?p = "\<lparr>pk_offset = ofs, pk_length = length d, pk_packet = d\<rparr>"
  let ?s1 = "s\<lparr>malloc_count := malloc_count s + 1\<rparr>"
  have mp: "make_packet ok ofs d (length d) s = Some (?p, ?s1)"
    using assms(1) by (simp add: make_packet_def mallocs_ok_def)
  have q: "queue_ok ?s1" "received ?s1 = received s" "flash_image wrf ?s1 = flash_image wrf s"
    using assms(2) by (simp_all add: queue_ok_def received_def flash_image_def)
  have pok: "packet_ok ?p" using assms(5) by (simp add: packet_ok_def)
  have "received ?s1 + pk_length ?p < 2 ^ 32" using q assms(6) by simp
  have f: "sched ?s1 = sched s" "frags ?s1 = frags s" "pk_packet ?p = d" "pk_offset ?p = ofs" "pk_length ?p = length d"
    by simp_all
  from queue_send_result [OF q(1) pok \<open>received ?s1 + pk_length ?p < 2 ^ 32\<close>, of wrf, unfolded q f]
  obtain sent s' where s: "queue_send wrf ?p ?s1 = Some (sent, s')" "queue_ok s'" "frags s' = frags s"
      "flash_image wrf s' = (if sent then wrf (flash_image wrf s) d (ofs + BOOT_LOADER_USER_FIRMWARE_HEADER_LENGTH)
                             else flash_image wrf s)"
      "received s' = received s + (if sent then length d else 0)"
      "sched s \<noteq> [] \<and> 0 < hd (sched s) \<longrightarrow> sent" "sched s' = tl (sched s)"
    by blast
  have i: "int16_of (length d) = int (length d)"
    using assms(5) by (simp add: int16_of_def otaconfigFILE_BLOCK_SIZE_def)
  have "otaPal_WriteBlock ok wrf ofs d (length d) s =
      Some (if sent then int (length d) else R_OTA_ERR_QUEUE_SEND_FAIL, s')"
    using assms(3,4) mp s(1) i by (simp add: otaPal_WriteBlock_def)
  with s show ?thesis by blast
qed

subsection \<open>Flash contents\<close>

text \<open>
  What the driver promises: no cell outside the range changes, and bytes programmed into erased cells
  are there. Programming a cell that is not erased is an error and nothing is promised about it.
\<close>

definition erased :: "flash_mem \<Rightarrow> nat \<Rightarrow> nat \<Rightarrow> bool" where
  "erased fl a n = (\<forall>i < n. fl (a + i) = 0xFF)"

definition overlay :: "flash_mem \<Rightarrow> byte list \<Rightarrow> nat \<Rightarrow> flash_mem" where
  "overlay fl d a = (\<lambda>x. if a \<le> x \<and> x < a + length d then d ! (x - a) else fl x)"

definition flash_spec :: "flash_write \<Rightarrow> bool" where
  "flash_spec wrf =
     ((\<forall>fl d a. erased fl a (length d) \<longrightarrow> wrf fl d a = overlay fl d a) \<and>
      (\<forall>fl d a x. \<not> (a \<le> x \<and> x < a + length d) \<longrightarrow> wrf fl d a x = fl x))"

lemma erased_mono: "erased fl a n \<Longrightarrow> a \<le> b \<Longrightarrow> b + m \<le> a + n \<Longrightarrow> erased fl b m"
  unfolding erased_def
proof (intro allI impI)
  fix i assume *: "\<forall>i<n. fl (a + i) = 0xFF" "a \<le> b" "b + m \<le> a + n" "i < m"
  then have "(b - a) + i < n" "a + ((b - a) + i) = b + i" by linarith+
  with *(1) show "fl (b + i) = 0xFF" by metis
qed

lemma erased_overlay: "erased fl b m \<Longrightarrow> a + length d \<le> b \<or> b + m \<le> a \<Longrightarrow> erased (overlay fl d a) b m"
  by (auto simp: erased_def overlay_def)

lemma overlay_append: "overlay (overlay fl d a) e (a + length d) = overlay fl (d @ e) a"
  by (auto simp: overlay_def nth_append fun_eq_iff)

lemma write_image_overlay:
  assumes "flash_spec wrf" "erased fl (ofs + 0x200) (128 * m)" "128 * m \<le> length d"
  shows "write_image wrf m ofs d fl = overlay fl (take (128 * m) d) (ofs + 0x200)"
  using assms(2-)
proof (induction m arbitrary: ofs d fl)
  case 0
  show ?case by (rule ext) (auto simp: overlay_def)
next
  case (Suc m)
  let ?fl = "overlay fl (take 128 d) (ofs + 0x200)"
  have len: "length (take 128 d) = 128" using Suc.prems(2) by simp
  have "erased fl (ofs + 0x200) (length (take 128 d))"
    by (rule erased_mono [OF Suc.prems(1)]) (use Suc.prems(2) in simp_all)
  then have w: "wrf fl (take 128 d) (ofs + 0x200) = ?fl" using assms(1) by (simp add: flash_spec_def)
  have "erased fl (ofs + 128 + 0x200) (128 * m)" by (rule erased_mono [OF Suc.prems(1)]) simp_all
  then have "erased ?fl (ofs + 128 + 0x200) (128 * m)" by (rule erased_overlay) (use len in simp)
  from Suc.IH [OF this, of "drop 128 d"] Suc.prems(2)
  have "write_image wrf (Suc m) ofs d fl = overlay ?fl (take (128 * m) (drop 128 d)) (ofs + 128 + 0x200)"
    by (simp add: w BOOT_LOADER_USER_FIRMWARE_HEADER_LENGTH_def)
  also have "\<dots> = overlay fl (take 128 d @ take (128 * m) (drop 128 d)) (ofs + 0x200)"
    using overlay_append [of fl "take 128 d" "ofs + 0x200"] len by (simp add: ac_simps)
  also have "take 128 d @ take (128 * m) (drop 128 d) = take (128 * Suc m) d"
    using take_add [of 128 "128 * m" d] by simp
  finally show ?case .
qed

end
