(* ===== verification/OtaPal.thy ===== *)
theory OtaPal
  imports OtaFlash
begin

text \<open>
  The file operations of the over-the-air update (\<open>src/target/rx65n/ota_pal_rx65n.c\<close>): creating,
  aborting and closing the received file, the signature check, the firmware header with the parsed
  ECDSA signature, the image state and the lookup of the signer's certificate.

  Outside \<open>src/\<close> or hardware, and so arguments: the PKCS #11 module (record \<open>pkcs11\<close>), the
  signature verification and the flash driver (record \<open>ota_env\<close>). A driver call that reports an
  error starts no operation, so that the completion callback the code then waits for in a busy loop
  never comes: no result.
\<close>

subsection \<open>Types\<close>

datatype OtaImageState_t =
    OtaImageStateUnknown | OtaImageStateTesting | OtaImageStateAccepted
  | OtaImageStateRejected | OtaImageStateAborted

datatype OtaPalImageState_t =
    OtaPalImageStateUnknown | OtaPalImageStatePendingCommit | OtaPalImageStateValid | OtaPalImageStateInvalid

datatype OtaPalMainStatus_t =
    OtaPalSuccess | OtaPalUninitialized | OtaPalRxFileCreateFailed | OtaPalFileClose
  | OtaPalSignatureCheckFailed | OtaPalBadSignerCert | OtaPalCommitFailed | OtaPalBadImageState

record OtaFileContext_t =
  pFilePath :: "string option"
  pFile :: bool
  pSignature :: "(byte list \<times> nat) option"
  pCertFilepath :: string

text \<open>\<open>pSignature\<close> is the signature's data array and its size, or NULL.\<close>

record ota_pal =
  rx :: ota_rx
  xTask :: bool
  queue_exists :: bool
  sem_flashing :: bool
  sem_write :: bool
  eSavedAgentState :: OtaImageState_t

record ota_env =
  env_wrf :: flash_write
  env_write_ok :: "flash_mem \<Rightarrow> byte list \<Rightarrow> nat \<Rightarrow> bool"
  env_erase :: "flash_mem \<Rightarrow> bool \<times> flash_mem"
  env_open_ok :: bool
  env_verify_start :: bool
  env_verify :: "byte list \<Rightarrow> byte list \<Rightarrow> byte list \<Rightarrow> bool"
  env_bank0 :: "byte list"

definition LIFECYCLE_STATE_TESTING :: byte where
  "LIFECYCLE_STATE_TESTING = 0xfe"

subsection \<open>Create and abort\<close>

definition otaPal_CreateFileForRx ::
  "ota_env \<Rightarrow> OtaFileContext_t option \<Rightarrow> ota_pal \<Rightarrow> (OtaPalMainStatus_t \<times> OtaFileContext_t option \<times> ota_pal) option" where
  "otaPal_CreateFileForRx env ctx s =
     (case ctx of
        None \<Rightarrow> Some (OtaPalRxFileCreateFailed, ctx, s)
      | Some c \<Rightarrow>
          if pFilePath c = None then Some (OtaPalRxFileCreateFailed, ctx, s)
          else let s1 = s\<lparr>xTask := True, queue_exists := True, sem_flashing := True, sem_write := True,
                          rx := (rx s)\<lparr>xQueue := [], frags := []\<rparr>\<rparr> in
               if env_open_ok env
               then (case env_erase env (flash (rx s1)) of (ok, fl) \<Rightarrow>
                       if ok
                       then Some (OtaPalSuccess, Some (c\<lparr>pFile := True\<rparr>),
                              s1\<lparr>rx := (rx s1)\<lparr>flash := fl, total_image_length := 0\<rparr>,
                                 eSavedAgentState := OtaImageStateUnknown\<rparr>)
                       else None)
               else Some (OtaPalRxFileCreateFailed, ctx, s1))"

text \<open>\<open>NULL != pFileContext\<close> is 0 or 1.\<close>

definition ota_context_validate :: "OtaFileContext_t option \<Rightarrow> int" where
  "ota_context_validate ctx = (if ctx \<noteq> None then 1 else 0)"

definition R_OTA_ERR_INVALID_CONTEXT :: int where
  "R_OTA_ERR_INVALID_CONTEXT = - 1"

definition ota_context_close :: "OtaFileContext_t option \<Rightarrow> OtaFileContext_t option" where
  "ota_context_close ctx = map_option (\<lambda>c. c\<lparr>pFile := False\<rparr>) ctx"

definition release :: "ota_pal \<Rightarrow> ota_pal" where
  "release s = s\<lparr>xTask := False, queue_exists := False, sem_flashing := False, sem_write := False,
                 rx := (rx s)\<lparr>xQueue := []\<rparr>\<rparr>"

definition otaPal_Abort ::
  "OtaFileContext_t option \<Rightarrow> ota_pal \<Rightarrow> OtaPalMainStatus_t \<times> OtaFileContext_t option \<times> ota_pal" where
  "otaPal_Abort ctx s =
     (let eResult = (if ota_context_validate ctx = R_OTA_ERR_INVALID_CONTEXT then OtaPalFileClose else OtaPalSuccess)
      in (eResult, ota_context_close ctx, if eResult = OtaPalSuccess then release s else s))"

subsection \<open>The signer's certificate\<close>

type_synonym CK_RV = nat

definition CKR_OK :: CK_RV where "CKR_OK = 0"
definition CKR_HOST_MEMORY :: CK_RV where "CKR_HOST_MEMORY = 2"
definition CKR_CRYPTOKI_ALREADY_INITIALIZED :: CK_RV where "CKR_CRYPTOKI_ALREADY_INITIALIZED = 0x191"

text \<open>
  The calls of the PKCS #11 module. \<open>C_FindObjects\<close> gives a handle when it finds an object and
  leaves the variable as it was otherwise; \<open>C_GetAttributeValue\<close> gives the length first, then
  the bytes.
\<close>

record pkcs11 =
  C_GetFunctionList :: CK_RV
  C_Initialize :: CK_RV
  C_GetSlotList :: "CK_RV \<times> nat"
  C_OpenSession :: "nat \<Rightarrow> CK_RV \<times> nat"
  C_FindObjectsInit :: "nat \<Rightarrow> string \<Rightarrow> CK_RV"
  C_FindObjects :: "nat \<Rightarrow> string \<Rightarrow> CK_RV \<times> nat option"
  C_FindObjectsFinal :: "nat \<Rightarrow> CK_RV"
  C_GetAttributeLength :: "nat \<Rightarrow> nat \<Rightarrow> CK_RV \<times> nat"
  C_GetAttributeValue :: "nat \<Rightarrow> nat \<Rightarrow> CK_RV \<times> byte list"

definition prvGetCertificateHandle :: "pkcs11 \<Rightarrow> nat \<Rightarrow> string \<Rightarrow> nat \<Rightarrow> CK_RV \<times> nat" where
  "prvGetCertificateHandle m xSession pcLabelName xHandle =
     (let xResult = C_FindObjectsInit m xSession pcLabelName in
      if xResult = CKR_OK
      then (case C_FindObjects m xSession pcLabelName of (r, h) \<Rightarrow>
              (C_FindObjectsFinal m xSession, case h of Some x \<Rightarrow> x | None \<Rightarrow> xHandle))
      else (xResult, xHandle))"

text \<open>
  \<open>junk\<close> is the value of the uninitialised \<open>xHandle\<close>; the results are \<open>xResult\<close> and the
  certificate with its size, when the function stored one (\<open>Some None\<close> for a NULL it stored).
\<close>

definition prvGetCertificate ::
  "pkcs11 \<Rightarrow> (nat \<Rightarrow> bool) \<Rightarrow> nat \<Rightarrow> string \<Rightarrow> CK_RV \<times> (byte list option) option" where
  "prvGetCertificate m ok junk pcLabelName =
     (let r0 = C_GetFunctionList m;
          r1 = (if r0 = CKR_OK then C_Initialize m else r0);
          (r2, slot) = (if r1 = CKR_OK \<or> r1 = CKR_CRYPTOKI_ALREADY_INITIALIZED then C_GetSlotList m else (r1, 0));
          (r3, xSession) = (if r2 = CKR_OK then C_OpenSession m slot else (r2, 0));
          (r4, xHandle) = (if r3 = CKR_OK then prvGetCertificateHandle m xSession pcLabelName junk else (r3, junk))
      in if xHandle \<noteq> 0 \<and> r4 = CKR_OK
         then (case C_GetAttributeLength m xSession xHandle of (r5, len) \<Rightarrow>
                 if r5 \<noteq> CKR_OK then (r5, None)
                 else if \<not> ok len then (CKR_HOST_MEMORY, None)
                 else (case C_GetAttributeValue m xSession xHandle of (r6, bs) \<Rightarrow>
                         if r6 = CKR_OK then (r6, Some (Some bs)) else (r6, None)))
         else (r4, Some None))"

text \<open>
  The certificate of the label, or a copy of the built-in one (\<open>defcert\<close>, with its terminator) plus
  a further zero; NULL when there is no memory for the copy. \<open>pucSignerCert\<close> starts as NULL.
\<close>

definition otaPal_ReadAndAssumeCertificate ::
  "pkcs11 \<Rightarrow> (nat \<Rightarrow> bool) \<Rightarrow> nat \<Rightarrow> byte list \<Rightarrow> string \<Rightarrow> byte list option" where
  "otaPal_ReadAndAssumeCertificate m ok junk defcert pucCertName =
     (case prvGetCertificate m ok junk pucCertName of (xResult, stored) \<Rightarrow>
        let pucSignerCert = (case stored of Some p \<Rightarrow> p | None \<Rightarrow> None) in
        if xResult = CKR_OK \<and> pucSignerCert \<noteq> None then pucSignerCert
        else if ok (length defcert + 1) then Some (defcert @ [0]) else None)"

subsection \<open>Signature check\<close>

text \<open>
  The remaining fragments are merged into their pages. The source indexes the page buffer with the
  offset of the fragment in the file.
\<close>

definition flush_one :: "ota_env \<Rightarrow> FLASH_BLOCK \<Rightarrow> ota_rx \<Rightarrow> ota_rx option" where
  "flush_one env t s =
     (let addr = page_of (fb_offset t) + BOOT_LOADER_USER_FIRMWARE_HEADER_LENGTH;
          page = map (flash s) [addr..<addr + FLASH_CF_MIN_PGM_SIZE] in
      do { d \<leftarrow> mem_read 0 (fb_length t) (fb_binary t);
           buf \<leftarrow> mem_write (fb_offset t) d page;
           (if env_write_ok env (flash s) buf addr
            then Some (s\<lparr>flash := env_wrf env (flash s) buf addr,
                         total_image_length := u32_of (total_image_length s + fb_length t)\<rparr>)
            else None) })"

function flush_fragments :: "ota_env \<Rightarrow> frag_list \<Rightarrow> ota_rx \<Rightarrow> ota_rx option" where
  "flush_fragments env [] s = Some s"
| "flush_fragments env (t # ts) s =
     do { s' \<leftarrow> flush_one env t s;
          flush_fragments env (fragmented_flash_block_list_delete (t # ts) (fb_offset t)) s' }"
  by pat_completeness auto
termination by (relation "measure (\<lambda>(env, ts, s). length ts)") auto

text \<open>The bytes the signature is checked over: as many as were flashed, from the start of the image.\<close>

definition firmware_bytes :: "ota_rx \<Rightarrow> byte list" where
  "firmware_bytes s = map (flash s) [BOOT_LOADER_USER_FIRMWARE_HEADER_LENGTH..<
     BOOT_LOADER_USER_FIRMWARE_HEADER_LENGTH + total_image_length s]"

definition otaPal_CheckFileSignature ::
  "ota_env \<Rightarrow> (string \<Rightarrow> byte list option) \<Rightarrow> OtaFileContext_t \<Rightarrow> byte list \<times> nat \<Rightarrow> ota_pal \<Rightarrow> (OtaPalMainStatus_t \<times> ota_pal) option" where
  "otaPal_CheckFileSignature env readcert c sig s =
     do { rx' \<leftarrow> flush_fragments env (frags (rx s)) (rx s);
          let s' = s\<lparr>rx := rx'\<rparr>;
          Some (if \<not> env_verify_start env then (OtaPalSignatureCheckFailed, s')
                else case readcert (pCertFilepath c) of
                       None \<Rightarrow> (OtaPalBadSignerCert, s')
                     | Some cert \<Rightarrow> (if env_verify env (firmware_bytes rx') cert (take (snd sig) (fst sig))
                                     then OtaPalSuccess else OtaPalSignatureCheckFailed, s')) }"


subsection \<open>The firmware header\<close>

definition R_OTA_ERR_NONE :: int where
  "R_OTA_ERR_NONE = 0"

text \<open>
  The loop over the two integers of the DER signature, from position \<open>src\<close> of the signature data;
  \<open>dst\<close> is the position in the header block. A tag other than INTEGER ends it with an error.
\<close>

function der_integers :: "byte list \<Rightarrow> nat \<Rightarrow> nat \<Rightarrow> nat \<Rightarrow> byte list \<Rightarrow> (int \<times> byte list) option" where
  "der_integers data data_length src dst block =
     (case arr_get src data of
        None \<Rightarrow> None
      | Some tag \<Rightarrow>
          if tag = 0x02
          then (case arr_get (src + 1) data of
                  None \<Rightarrow> None
                | Some len \<Rightarrow>
                    let src' = src + 1 + (if len = 0x21 then 2 else 1) in
                    (case mem_read src' 32 data of
                       None \<Rightarrow> None
                     | Some d \<Rightarrow>
                         (case mem_write dst d block of
                            None \<Rightarrow> None
                          | Some block' \<Rightarrow>
                              if src' + 32 = data_length then Some (R_OTA_ERR_NONE, block')
                              else der_integers data data_length (src' + 32) (dst + 32) block')))
          else Some (R_OTA_ERR_INVALID_CONTEXT, block))"
  by pat_completeness auto
termination
  by (relation "measure (\<lambda>(data, n, src, dst, block). length data - src)")
     (auto simp: mem_read_def split: if_splits)

text \<open>
  The header in the running bank with the image flag set to testing, the signature type and the
  signature. The flag is byte 7, the type bytes 8 to 39, the signature starts at byte 44. The source
  clears as many bytes of it as a pointer has. \<open>sigtype\<close> is \<open>OTA_JsonFileSignatureKey\<close>, whose size
  is \<open>OTA_FILE_SIG_KEY_STR_MAX_LENGTH\<close>, 32.
\<close>

definition sigtype :: "byte list" where
  "sigtype = map (\<lambda>c. of_nat (of_char c)) ''sig-sha256-ecdsa'' @ replicate 16 0"

definition build_header :: "byte list \<Rightarrow> byte list \<Rightarrow> (int \<times> byte list) option" where
  "build_header bank0 data =
     do { block0 \<leftarrow> mem_read 0 BOOT_LOADER_USER_FIRMWARE_HEADER_LENGTH bank0;
          block1 \<leftarrow> mem_write 7 [LIFECYCLE_STATE_TESTING] block0;
          block2 \<leftarrow> mem_write 8 sigtype block1;
          len \<leftarrow> arr_get 1 data;
          block3 \<leftarrow> mem_write 44 (replicate 4 0) block2;
          top \<leftarrow> arr_get 0 data;
          (if top = 0x30 then der_integers data (unat (len + 2)) 2 44 block3
           else Some (R_OTA_ERR_INVALID_CONTEXT, block3)) }"

definition ota_context_update_user_firmware_header ::
  "ota_env \<Rightarrow> byte list \<Rightarrow> ota_pal \<Rightarrow> (int \<times> ota_pal) option" where
  "ota_context_update_user_firmware_header env data s =
     do { (ret, block) \<leftarrow> build_header (env_bank0 env) data;
          (if ret = R_OTA_ERR_NONE
           then if env_write_ok env (flash (rx s)) block 0
                then Some (ret, s\<lparr>rx := (rx s)\<lparr>flash := env_wrf env (flash (rx s)) block 0\<rparr>\<rparr>)
                else None
           else Some (ret, s)) }"

subsection \<open>Close\<close>

text \<open>A NULL context is dereferenced after its test.\<close>

definition otaPal_CloseFile ::
  "ota_env \<Rightarrow> (string \<Rightarrow> byte list option) \<Rightarrow> OtaFileContext_t option \<Rightarrow> ota_pal \<Rightarrow>
   (OtaPalMainStatus_t \<times> OtaFileContext_t option \<times> ota_pal) option" where
  "otaPal_CloseFile env readcert ctx s =
     (case ctx of
        None \<Rightarrow> None
      | Some c \<Rightarrow>
          do { (eResult, s1) \<leftarrow> (case pSignature c of
                                  Some sig \<Rightarrow> otaPal_CheckFileSignature env readcert c sig s
                                | None \<Rightarrow> Some (OtaPalSignatureCheckFailed, s));
               (eResult', s2) \<leftarrow>
                 (if eResult = OtaPalSuccess
                  then do { (ret, s') \<leftarrow> ota_context_update_user_firmware_header env (fst (the (pSignature c))) s1;
                            Some (if ret = R_OTA_ERR_NONE then OtaPalSuccess else OtaPalFileClose, release s') }
                  else Some (eResult, s1\<lparr>eSavedAgentState := OtaImageStateRejected\<rparr>));
               Some (eResult', ota_context_close ctx, s2) })"

subsection \<open>Image state and reset\<close>

definition otaPal_SetPlatformImageState ::
  "ota_env \<Rightarrow> OtaImageState_t \<Rightarrow> ota_pal \<Rightarrow> OtaPalMainStatus_t \<times> ota_pal" where
  "otaPal_SetPlatformImageState env eState s =
     (let (eResult, s1) =
        (case eState of
           OtaImageStateAccepted \<Rightarrow>
             if eSavedAgentState s = OtaImageStateTesting
             then (case env_erase env (flash (rx s)) of (ok, fl) \<Rightarrow>
                     if ok then (OtaPalSuccess, s\<lparr>rx := (rx s)\<lparr>flash := fl\<rparr>\<rparr>) else (OtaPalCommitFailed, s))
             else (OtaPalCommitFailed, s)
         | OtaImageStateRejected \<Rightarrow> (OtaPalSuccess, s)
         | OtaImageStateAborted \<Rightarrow> (OtaPalSuccess, s)
         | OtaImageStateTesting \<Rightarrow> (OtaPalSuccess, s)
         | OtaImageStateUnknown \<Rightarrow> (OtaPalBadImageState, s))
      in (eResult, s1\<lparr>eSavedAgentState := eState\<rparr>))"

definition otaPal_GetPlatformImageState :: "ota_pal \<Rightarrow> OtaPalImageState_t" where
  "otaPal_GetPlatformImageState s =
     (case eSavedAgentState s of
        OtaImageStateTesting \<Rightarrow> OtaPalImageStatePendingCommit
      | OtaImageStateAccepted \<Rightarrow> OtaPalImageStateValid
      | OtaImageStateUnknown \<Rightarrow> OtaPalImageStateValid
      | OtaImageStateRejected \<Rightarrow> OtaPalImageStateInvalid
      | OtaImageStateAborted \<Rightarrow> OtaPalImageStateInvalid)"

end
