(* ===== verification/OtaSpec.thy ===== *)
theory OtaSpec
  imports OtaPal
begin

text \<open>
  The properties of the over-the-air update port: what reaches the flash, when an image is marked for
  its self test, how the signature is parsed, and where the fragment handling goes wrong.
\<close>

declare der_integers.simps [simp del]

subsection \<open>Receiving whole blocks\<close>

text \<open>Blocks received one after the other, each of which the port accepts.\<close>

fun receive_blocks :: "mallocs \<Rightarrow> flash_write \<Rightarrow> (nat \<times> byte list) list \<Rightarrow> ota_rx \<Rightarrow> ota_rx option" where
  "receive_blocks ok wrf [] s = Some s"
| "receive_blocks ok wrf ((ofs, d) # bs) s =
     do { (r, s') \<leftarrow> otaPal_WriteBlock ok wrf ofs d (length d) s;
          (if r = int (length d) then receive_blocks ok wrf bs s' else None) }"

fun disjoint_blocks :: "(nat \<times> byte list) list \<Rightarrow> bool" where
  "disjoint_blocks [] = True"
| "disjoint_blocks ((ofs, d) # bs) =
     (list_all (\<lambda>(o', d'). ofs + length d \<le> o' \<or> o' + length d' \<le> ofs) bs \<and> disjoint_blocks bs)"

definition full_block :: "nat \<times> byte list \<Rightarrow> bool" where
  "full_block b = (fst b mod FLASH_CF_MIN_PGM_SIZE = 0 \<and> length (snd b) mod FLASH_CF_MIN_PGM_SIZE = 0 \<and>
     length (snd b) \<le> otaconfigFILE_BLOCK_SIZE)"

definition overlay_all :: "(nat \<times> byte list) list \<Rightarrow> flash_mem \<Rightarrow> flash_mem" where
  "overlay_all bs fl = fold (\<lambda>(ofs, d) fl. overlay fl d (ofs + 0x200)) bs fl"

definition blocks_erased :: "flash_mem \<Rightarrow> (nat \<times> byte list) list \<Rightarrow> bool" where
  "blocks_erased fl bs = list_all (\<lambda>(ofs, d). erased fl (ofs + 0x200) (length d)) bs"

lemma blocks_erased_step:
  assumes "blocks_erased fl ((ofs, d) # bs)" "disjoint_blocks ((ofs, d) # bs)"
  shows "blocks_erased (overlay fl d (ofs + 0x200)) bs"
  using assms by (fastforce simp: blocks_erased_def list_all_iff intro: erased_overlay)

lemma receive_blocks_image:
  assumes "mallocs_ok ok" "flash_spec wrf" "queue_ok s" "list_all full_block bs" "disjoint_blocks bs"
    and "blocks_erased (flash_image wrf s) bs" "received s + sum_list (map (\<lambda>b. length (snd b)) bs) < 2 ^ 32"
    and "receive_blocks ok wrf bs s = Some s'"
  shows "queue_ok s' \<and> flash_image wrf s' = overlay_all bs (flash_image wrf s) \<and>
    received s' = received s + sum_list (map (\<lambda>b. length (snd b)) bs)"
  using assms(3-)
proof (induction bs arbitrary: s)
  case Nil
  then show ?case by (simp add: overlay_all_def)
next
  case (Cons b bs)
  obtain ofs d where b: "b = (ofs, d)" by (cases b)
  have fb: "ofs mod 128 = 0" "length d mod 128 = 0" "length d \<le> otaconfigFILE_BLOCK_SIZE"
    using Cons.prems(2) by (simp_all add: b full_block_def)
  have "received s + length d < 2 ^ 32" using Cons.prems(5) by (simp add: b)
  from write_block_full [OF assms(1) Cons.prems(1) fb this, of wrf] obtain sent s1 where
    w: "otaPal_WriteBlock ok wrf ofs d (length d) s =
        Some (if sent then int (length d) else R_OTA_ERR_QUEUE_SEND_FAIL, s1)" "queue_ok s1"
      "flash_image wrf s1 = (if sent then wrf (flash_image wrf s) d (ofs + BOOT_LOADER_USER_FIRMWARE_HEADER_LENGTH)
                             else flash_image wrf s)"
      "received s1 = received s + (if sent then length d else 0)" by blast
  have sent: "sent" and rest: "receive_blocks ok wrf bs s1 = Some s'"
    using Cons.prems(6) w(1) by (auto simp: b R_OTA_ERR_QUEUE_SEND_FAIL_def split: if_splits)
  have er: "erased (flash_image wrf s) (ofs + 0x200) (length d)"
    using Cons.prems(4) by (simp add: b blocks_erased_def)
  have im: "flash_image wrf s1 = overlay (flash_image wrf s) d (ofs + 0x200)"
    using w(3) sent er assms(2) by (simp add: flash_spec_def BOOT_LOADER_USER_FIRMWARE_HEADER_LENGTH_def)
  have "queue_ok s' \<and> flash_image wrf s' = overlay_all bs (flash_image wrf s1) \<and>
      received s' = received s1 + sum_list (map (\<lambda>b. length (snd b)) bs)"
  proof (rule Cons.IH [OF w(2) _ _ _ _ rest])
    show "blocks_erased (flash_image wrf s1) bs"
      unfolding im by (rule blocks_erased_step) (use Cons.prems(3,4) b in simp_all)
  qed (use Cons.prems b w(4) sent in simp_all)
  then show ?case using im w(4) sent by (simp add: overlay_all_def b)
qed

text \<open>What disjoint blocks leave in the memory does not depend on their order.\<close>

lemma overlay_all_outside:
  "list_all (\<lambda>(ofs, d). \<not> (ofs + 0x200 \<le> x \<and> x < ofs + 0x200 + length d)) bs \<Longrightarrow> overlay_all bs fl x = fl x"
proof (induction bs arbitrary: fl)
  case (Cons b bs)
  then show ?case by (cases b) (auto simp: overlay_all_def overlay_def)
qed (simp add: overlay_all_def)

lemma overlay_all_inside:
  assumes "disjoint_blocks bs" "(ofs, d) \<in> set bs" "i < length d"
  shows "overlay_all bs fl (ofs + 0x200 + i) = d ! i"
  using assms(1,2)
proof (induction bs arbitrary: fl)
  case (Cons b bs)
  obtain o' d' where b: "b = (o', d')" by (cases b)
  show ?case
  proof (cases "(ofs, d) \<in> set bs")
    case True
    then show ?thesis using Cons by (simp add: overlay_all_def b)
  next
    case False
    then have eq: "o' = ofs" "d' = d" using Cons.prems(2) b by simp_all
    have "list_all (\<lambda>(o2, d2). \<not> (o2 + 0x200 \<le> ofs + 0x200 + i \<and> ofs + 0x200 + i < o2 + 0x200 + length d2)) bs"
      using Cons.prems(1) assms(3) by (fastforce simp: b eq list_all_iff)
    from overlay_all_outside [OF this, of "overlay fl d (ofs + 0x200)"]
    show ?thesis using assms(3) by (simp add: overlay_all_def b eq overlay_def)
  qed
qed simp

lemma drain_queue:
  assumes "queue_ok s" "received s < 2 ^ 32"
  shows "\<exists>s'. flash_rounds wrf 2 s = Some s' \<and> xQueue s' = [] \<and> flash s' = flash_image wrf s \<and>
    total_image_length s' = received s"
proof -
  from flash_rounds_ok [OF assms, of wrf 2] obtain s' where
    "flash_rounds wrf 2 s = Some s'" "xQueue s' = drop 2 (xQueue s)" "flash_image wrf s' = flash_image wrf s"
    "received s' = received s" by blast
  moreover have "drop 2 (xQueue s) = []"
    using assms(1) by (simp add: queue_ok_def otaconfigMAX_NUM_BLOCKS_REQUEST_def)
  ultimately show ?thesis by (auto simp: flash_image_def received_def)
qed



definition rx0 :: ota_rx where
  "rx0 = \<lparr>frags = [], page_buf = replicate 128 0, xQueue = [], flash = (\<lambda>x. 0xFF), total_image_length = 0,
          malloc_count = 0, sched = [0, 1, 1, 1]\<rparr>"

lemma mallocs_ok_True: "mallocs_ok (\<lambda>n k. True)"
  by (simp add: mallocs_ok_def)

lemma overlay_spec: "flash_spec overlay"
  by (auto simp: flash_spec_def overlay_def)

lemma rx0_ok: "queue_ok rx0" "received rx0 = 0" "flash_image wrf rx0 = (\<lambda>x. 0xFF)"
  by (simp_all add: queue_ok_def rx0_def received_def flash_image_def)

lemmas rx_eval = otaPal_WriteBlock_def make_packet_def queue_send_def ota_flashing_task_def int16_of_def
  otaconfigMAX_NUM_BLOCKS_REQUEST_def otaconfigFILE_BLOCK_SIZE_def R_OTA_ERR_QUEUE_SEND_FAIL_def


subsection \<open>Receiving the last block\<close>

text \<open>
  A block that starts a page but does not fill its last one is written page by page and in order,
  if the flashing task keeps up with the queue; the rest, shorter than a page, stays in the fragment
  list. The loop over the pages ends, and the number of bytes is returned.
\<close>

lemma ota_partial_block:
  assumes "mallocs_ok ok" "flash_spec wrf" "queue_ok s" "keeps_up (length d div 128) s" "length (page_buf s) = 128"
    and "frags s = []" "ofs mod 128 = 0" "length d mod 128 \<noteq> 0" "ofs + length d + 128 < 2 ^ 32"
    and "received s + length d < 2 ^ 32" "erased (flash_image wrf s) (ofs + 0x200) (length d)"
  shows "\<exists>s'. otaPal_WriteBlock ok wrf ofs d (length d) s = Some (int16_of (length d), s') \<and> queue_ok s' \<and>
    flash_image wrf s' = overlay (flash_image wrf s) (take (128 * (length d div 128)) d) (ofs + 0x200) \<and>
    frags s' = [\<lparr>fb_offset = ofs + 128 * (length d div 128), fb_binary = drop (128 * (length d div 128)) d,
                 fb_length = length d mod 128\<rparr>]"
proof -
  have "erased (flash_image wrf s) (ofs + 0x200) (128 * (length d div 128))"
    by (rule erased_mono [OF assms(11)]) simp_all
  then have "write_image wrf (length d div 128) ofs d (flash_image wrf s) =
      overlay (flash_image wrf s) (take (128 * (length d div 128)) d) (ofs + 0x200)"
    by (rule write_image_overlay [OF assms(2)]) simp
  with write_block_partial [OF assms(1,3-10), of wrf] show ?thesis by auto
qed


subsection \<open>Assembling fragments\<close>

text \<open>
  Two adjacent fragments of which the first starts a page and which together fill it are assembled
  into that page; what is left of the second goes back to the front of the list and the other
  fragments stay.
\<close>

lemma ota_assemble_two:
  assumes "mallocs_ok ok" "ofs mod 128 = 0" "0 < length d" "length d < 128" "128 \<le> length d + length e"
    and "ofs + length d + length e < 2 ^ 32" "length buf = 128"
    and "\<forall>z \<in> set zs. ofs + length d + length e \<le> fb_offset z"
  shows "\<exists>n'. fragmented_flash_block_list_assemble ok n (frag ofs d # frag (ofs + length d) e # zs) buf =
    Some ((if length d + length e = 128 then zs else frag (ofs + 128) (drop (128 - length d) e) # zs),
          Some (frag ofs (take 128 (d @ e))), take 128 (d @ e), n')"
proof (cases "length d + length e = 128")
  case True
  have "0 < length e" "ofs + 128 < 2 ^ 32" using True assms(4,6) by linarith+
  with assemble_two_exact [OF assms(2,3) _ True _ assms(7), of ok n zs] True show ?thesis by auto
next
  case False
  then have "128 < length d + length e" using assms(5) by simp
  with assemble_two_split [OF assms(1-4) _ assms(6-8), of n] False show ?thesis by auto
qed


text \<open>
  Three fragments that fill a page are not assembled into it: the third is copied to the place given
  by the length of the second one alone, over bytes already there, and the end of the page keeps what
  the buffer held before.
\<close>

lemma ota_assemble_three_garbled:
  assumes "ofs mod 128 = 0" "0 < length a" "0 < length b" "0 < length c" "length a + length b + length c = 128"
    and "ofs + 128 < 2 ^ 32" "length buf = 128"
  shows "\<exists>page. fragmented_flash_block_list_assemble ok n
      (frag ofs a # frag (ofs + length a) b # frag (ofs + length a + length b) c # zs) buf =
      Some (zs, Some (frag ofs page), page, n) \<and>
    take (length c) (drop (length b) page) = c \<and>
    (\<forall>i. length b + length c \<le> i \<and> length a + length b \<le> i \<and> i < 128 \<longrightarrow> page ! i = buf ! i)"
proof -
  let ?p = "overwrite (length b) c (overwrite (length a) b (overwrite 0 a buf))"
  have "take (length c) (drop (length b) ?p) = c"
    using assms(5,7) by (simp add: overwrite_def)
  moreover have "?p ! i = buf ! i" if "length b + length c \<le> i" "length a + length b \<le> i" "i < 128" for i
    using that assms(5,7) by (simp add: nth_overwrite)
  ultimately show ?thesis using assemble_three [OF assms, of ok n zs] by blast
qed


subsection \<open>The firmware header\<close>

lemma der_inv:
  assumes "der_integers data n src dst block = Some (r, block')"
  shows "block' = block \<or> (\<exists>d. length d = 32 \<and> dst + 32 \<le> length block \<and> block' = overwrite dst d block) \<or>
    (\<exists>d src'. length d = 32 \<and> dst + 32 \<le> length block \<and> src < src' \<and> src' \<le> length data \<and>
       der_integers data n src' (dst + 32) (overwrite dst d block) = Some (r, block'))"
proof -
  have "block' = block \<or> (\<exists>d k b1. mem_read (src + 1 + k) 32 data = Some d \<and> mem_write dst d block = Some b1 \<and>
      (block' = b1 \<or> der_integers data n (src + 1 + k + 32) (dst + 32) b1 = Some (r, block')))"
    using assms by (subst (asm) der_integers.simps) (auto simp only: Let_def split: option.splits if_splits)
  then show ?thesis
  proof (elim disjE exE conjE)
    fix d k b1
    assume rd: "mem_read (src + 1 + k) 32 data = Some d" and wr: "mem_write dst d block = Some b1"
      and rec: "der_integers data n (src + 1 + k + 32) (dst + 32) b1 = Some (r, block')"
    from rd have "length d = 32" "src < src + 1 + k + 32" "src + 1 + k + 32 \<le> length data"
      by (auto simp: mem_read_def split: if_splits)
    moreover from wr have "b1 = overwrite dst d block" "dst + length d \<le> length block"
      by (auto simp: mem_write_def split: if_splits)
    ultimately show ?thesis using rec by metis
  next
    fix d k b1
    assume "mem_read (src + 1 + k) 32 data = Some d" "mem_write dst d block = Some b1" "block' = b1"
    then have "length d = 32 \<and> dst + 32 \<le> length block \<and> block' = overwrite dst d block"
      by (auto simp: mem_read_def mem_write_def split: if_splits)
    then show ?thesis by blast
  qed simp
qed

lemma der_frame:
  assumes "der_integers data n src dst block = Some (r, block')"
  shows "length block' = length block \<and> (\<forall>k < dst. k < length block \<longrightarrow> block' ! k = block ! k)"
  using assms
proof (induction "length data - src" arbitrary: src dst block rule: less_induct)
  case less
  from der_inv [OF less.prems] show ?case
  proof (elim disjE exE conjE)
    fix d src'
    assume d: "length d = 32" "dst + 32 \<le> length block" "src < src'" "src' \<le> length data"
      and rec: "der_integers data n src' (dst + 32) (overwrite dst d block) = Some (r, block')"
    have "length data - src' < length data - src" using d(3,4) by linarith
    from less.hyps [OF this rec] d(1,2) show ?thesis by (simp add: nth_overwrite)
  qed (simp_all add: nth_overwrite)
qed

lemma length_sigtype [simp]: "length sigtype = 32"
  by (simp add: sigtype_def)

text \<open>The block before the signature is copied into it.\<close>

definition header_base :: "byte list \<Rightarrow> byte list" where
  "header_base bank0 = overwrite 44 (replicate 4 0)
     (overwrite 8 sigtype (overwrite 7 [LIFECYCLE_STATE_TESTING] (take 512 bank0)))"

lemma header_base:
  assumes "512 \<le> length bank0"
  shows "length (header_base bank0) = 512" "header_base bank0 ! 7 = LIFECYCLE_STATE_TESTING"
  using assms by (simp_all add: header_base_def nth_overwrite)

lemma build_header_eq:
  assumes "512 \<le> length bank0" "2 \<le> length data"
  shows "build_header bank0 data =
    (if data ! 0 = 0x30 then der_integers data (unat (data ! 1 + 2)) 2 44 (header_base bank0)
     else Some (R_OTA_ERR_INVALID_CONTEXT, header_base bank0))"
proof -
  from assms(2) obtain a b ds where "data = a # b # ds" by (cases data; cases "tl data") auto
  with assms(1) show ?thesis
    by (simp add: build_header_def header_base_def BOOT_LOADER_USER_FIRMWARE_HEADER_LENGTH_def arr_get_def)
qed

lemma build_header_flag:
  assumes "build_header bank0 data = Some (r, block)"
  shows "length block = 512 \<and> block ! 7 = LIFECYCLE_STATE_TESTING"
proof -
  have ln: "512 \<le> length bank0" "2 \<le> length data"
    using assms by (auto simp: build_header_def bind_eq_Some_conv mem_read_def arr_get_def
        BOOT_LOADER_USER_FIRMWARE_HEADER_LENGTH_def split: if_splits)
  note hb = header_base [OF ln(1)]
  from assms build_header_eq [OF ln] consider "block = header_base bank0"
    | n where "der_integers data n 2 44 (header_base bank0) = Some (r, block)"
    by (auto split: if_splits)
  then show ?thesis
  proof cases
    case 2
    from der_frame [OF this] hb show ?thesis by simp
  qed (use hb in simp)
qed

text \<open>An integer of 32 bytes in DER: with a leading zero when its top bit is set.\<close>

definition der_int :: "bool \<Rightarrow> byte list \<Rightarrow> byte list" where
  "der_int pad x = (if pad then [0x02, 0x21, 0] else [0x02, 0x20]) @ x"

lemma length_der_int: "length x = 32 \<Longrightarrow> length (der_int pad x) = (if pad then 35 else 34)"
  by (simp add: der_int_def)

lemma der_step:
  assumes "length x = 32" "dst + 32 \<le> length block"
  shows "der_integers (pre @ der_int pad x @ post) n (length pre) dst block =
    (let e = length pre + length (der_int pad x) in
     if e = n then Some (R_OTA_ERR_NONE, overwrite dst x block)
     else der_integers (pre @ der_int pad x @ post) n e (dst + 32) (overwrite dst x block))"
  using assms
  by (subst der_integers.simps) (auto simp: der_int_def arr_get_def nth_append mem_read_def Let_def add.commute)

text \<open>
  C19. The signature of a well-formed DER sequence of two 256 bit integers, with or without their
  leading zeros, is parsed: the update of the header reports no error, the signature field holds the
  two integers one after the other and the image flag says testing.
\<close>

theorem ota_header_signature:
  assumes "length r = 32" "length q = 32" "512 \<le> length bank0"
  shows "\<exists>block. build_header bank0
      ([0x30, of_nat (length (der_int p1 r) + length (der_int p2 q))] @ der_int p1 r @ der_int p2 q @ tail) =
      Some (R_OTA_ERR_NONE, block) \<and>
    length block = 512 \<and> block ! 7 = LIFECYCLE_STATE_TESTING \<and> take 64 (drop 44 block) = r @ q"
proof -
  let ?a = "der_int p1 r" and ?b = "der_int p2 q" and ?H = "header_base bank0"
  let ?hd = "[0x30, of_nat (length ?a + length ?b)] :: byte list"
  define data where "data = ?hd @ ?a @ ?b @ tail"
  define N where "N = 2 + length ?a + length ?b"
  note hb = header_base [OF assms(3)] and la = length_der_int [OF assms(1), of p1] and lb = length_der_int [OF assms(2), of p2]
  have n: "unat (data ! 1 + 2) = N" "data ! 0 = 0x30" "2 \<le> length data"
    using la lb by (cases p1; cases p2; simp add: data_def N_def)+
  have "der_integers data N (length ?hd) 44 ?H =
      (let e = length ?hd + length ?a in
       if e = N then Some (R_OTA_ERR_NONE, overwrite 44 r ?H) else der_integers data N e (44 + 32) (overwrite 44 r ?H))"
    unfolding data_def by (rule der_step) (use assms(1) hb in simp_all)
  then have s1: "der_integers data N 2 44 ?H = der_integers data N (2 + length ?a) 76 (overwrite 44 r ?H)"
    using lb by (auto simp: Let_def N_def numeral_2_eq_2 split: if_splits)
  have "data = (?hd @ ?a) @ ?b @ tail" by (simp add: data_def)
  then have "der_integers data N (length (?hd @ ?a)) 76 (overwrite 44 r ?H) =
      (let e = length (?hd @ ?a) + length ?b in
       if e = N then Some (R_OTA_ERR_NONE, overwrite 76 q (overwrite 44 r ?H))
       else der_integers data N e (76 + 32) (overwrite 76 q (overwrite 44 r ?H)))"
    by (elim ssubst, intro der_step) (use assms(1,2) hb in simp_all)
  then have s2: "der_integers data N (2 + length ?a) 76 (overwrite 44 r ?H) =
      Some (R_OTA_ERR_NONE, overwrite 76 q (overwrite 44 r ?H))"
    by (simp add: Let_def N_def)
  have eq: "build_header bank0 data = Some (R_OTA_ERR_NONE, overwrite 76 q (overwrite 44 r ?H))"
    using build_header_eq [OF assms(3) n(3)] n s1 s2 by simp
  have "take 64 (drop 44 (overwrite 76 q (overwrite 44 r (header_base bank0)))) = r @ q"
    using assms(1,2) hb(1) by (simp add: overwrite_def)
  with eq build_header_flag [OF eq] show ?thesis unfolding data_def by blast
qed

theorem ota_header_signature_witness:
  "\<exists>block. build_header (replicate 512 0)
      ([0x30, 0x45] @ ([0x02, 0x21, 0] @ replicate 32 0x81) @ ([0x02, 0x20] @ replicate 32 0x11) @ replicate 100 0) =
      Some (0, block) \<and> take 64 (drop 44 block) = replicate 32 0x81 @ replicate 32 0x11"
  using ota_header_signature [of "replicate 32 0x81" "replicate 32 0x11" "replicate 512 0" True False "replicate 100 0"]
  by (auto simp: der_int_def R_OTA_ERR_NONE_def)

text \<open>
  A valid signature whose first integer is one byte shorter, as DER encodes an integer below
  \<open>2 ^ 247\<close>, is refused: the parser takes 32 bytes whatever the length says and then finds no tag.
\<close>

lemma ota_header_short_integer_refused:
  assumes "length r = 31" "length q = 32" "512 \<le> length bank0"
  shows "\<exists>block. build_header bank0 ([0x30, 0x43] @ ([0x02, 0x1f] @ r) @ ([0x02, 0x20] @ q) @ tail) =
    Some (R_OTA_ERR_INVALID_CONTEXT, block)"
proof -
  let ?data = "[0x30, 0x43] @ ([0x02, 0x1f] @ r) @ ([0x02, 0x20] @ q) @ tail"
  note hb = header_base [OF assms(3)]
  have d: "?data ! 2 = 0x02" "?data ! 3 = 0x1f" "?data ! 36 = 0x20"
    using assms(1,2) by (simp_all add: nth_append)
  have "unat ((0x43 :: byte) + 2) = 69" by simp
  then have "build_header bank0 ?data = der_integers ?data 69 2 44 (header_base bank0)"
    using build_header_eq [OF assms(3), of ?data] by simp
  also have "\<dots> = der_integers ?data 69 36 76 (overwrite 44 (take 32 (drop 4 ?data)) (header_base bank0))"
    using assms(1,2) hb(1)
    by (subst der_integers.simps) (simp add: arr_get_def mem_read_def Let_def)
  also have "\<dots> = Some (R_OTA_ERR_INVALID_CONTEXT, overwrite 44 (take 32 (drop 4 ?data)) (header_base bank0))"
    using assms(1,2) d(3) by (subst der_integers.simps) (simp add: arr_get_def)
  finally show ?thesis by blast
qed


subsection \<open>Closing the file\<close>

lemma flush_header:
  assumes "flash_spec (env_wrf env)" "flush_fragments env ts s = Some s'" "x < 0x200"
  shows "flash s' x = flash s x"
  using assms(2)
proof (induction ts arbitrary: s)
  case (Cons t ts)
  then obtain s1 where one: "flush_one env t s = Some s1" and rest: "flush_fragments env ts s1 = Some s'"
    by (auto simp: bind_eq_Some_conv)
  from one obtain buf where "flash s1 = env_wrf env (flash s) buf (page_of (fb_offset t) + 0x200)"
    by (auto simp: flush_one_def Let_def bind_eq_Some_conv BOOT_LOADER_USER_FIRMWARE_HEADER_LENGTH_def split: if_splits)
  then have "flash s1 x = flash s x" using assms(1,3) by (auto simp: flash_spec_def)
  with Cons.IH [OF rest] show ?case by simp
qed simp

lemma check_success:
  assumes "otaPal_CheckFileSignature env readcert c sig s = Some (OtaPalSuccess, s')"
  shows "\<exists>cert rx'. readcert (pCertFilepath c) = Some cert \<and> flush_fragments env (frags (rx s)) (rx s) = Some rx' \<and>
    env_verify env (firmware_bytes rx') cert (take (snd sig) (fst sig)) \<and> s' = s\<lparr>rx := rx'\<rparr>"
  using assms by (auto simp: otaPal_CheckFileSignature_def Let_def bind_eq_Some_conv split: if_splits option.splits)

text \<open>
  C2. An image is accepted for its self test only if its signature was verified: when closing the file
  succeeds, the signature verifies over the flashed image with the signer's certificate, and the header
  written to the flash is the one with the testing flag and the parsed signature.
\<close>

theorem ota_close_needs_signature:
  assumes "otaPal_CloseFile env readcert (Some c) s = Some (OtaPalSuccess, ctx', s')"
  shows "\<exists>data n cert rx' block. pSignature c = Some (data, n) \<and> readcert (pCertFilepath c) = Some cert \<and>
    flush_fragments env (frags (rx s)) (rx s) = Some rx' \<and> env_verify env (firmware_bytes rx') cert (take n data) \<and>
    build_header (env_bank0 env) data = Some (R_OTA_ERR_NONE, block) \<and> block ! 7 = LIFECYCLE_STATE_TESTING \<and>
    flash (rx s') = env_wrf env (flash rx') block 0"
proof -
  from assms obtain data n s1 ret s2 where sig: "pSignature c = Some (data, n)"
    and chk: "otaPal_CheckFileSignature env readcert c (data, n) s = Some (OtaPalSuccess, s1)"
    and hd: "ota_context_update_user_firmware_header env data s1 = Some (ret, s2)"
    and ret: "ret = R_OTA_ERR_NONE" and s': "s' = release s2"
    by (auto simp: otaPal_CloseFile_def bind_eq_Some_conv split: option.splits if_splits)
  from check_success [OF chk] obtain cert rx' where
    c: "readcert (pCertFilepath c) = Some cert" "flush_fragments env (frags (rx s)) (rx s) = Some rx'"
      "env_verify env (firmware_bytes rx') cert (take n data)" "s1 = s\<lparr>rx := rx'\<rparr>" by auto
  from hd ret c(4) obtain block where b: "build_header (env_bank0 env) data = Some (R_OTA_ERR_NONE, block)"
    "s2 = s1\<lparr>rx := (rx s1)\<lparr>flash := env_wrf env (flash rx') block 0\<rparr>\<rparr>"
    by (auto simp: ota_context_update_user_firmware_header_def bind_eq_Some_conv split: if_splits)
  have "flash (rx s') = env_wrf env (flash rx') block 0" by (simp add: s' release_def b(2))
  with sig c b(1) build_header_flag [OF b(1)] show ?thesis by blast
qed

definition env0 :: ota_env where
  "env0 = \<lparr>env_wrf = overlay, env_write_ok = (\<lambda>fl d a. True), env_erase = (\<lambda>fl. (True, \<lambda>x. 0xFF)),
           env_open_ok = True, env_verify_start = True, env_verify = (\<lambda>img cert sig. img = [7]),
           env_bank0 = replicate 512 0\<rparr>"

definition sig0 :: "byte list" where
  "sig0 = [0x30, 0x44] @ ([0x02, 0x20] @ replicate 32 0x22) @ ([0x02, 0x20] @ replicate 32 0x11) @ replicate 186 0"

definition ctx0 :: OtaFileContext_t where
  "ctx0 = \<lparr>pFilePath = Some ''firmware'', pFile = True, pSignature = Some (sig0, 70), pCertFilepath = ''signer''\<rparr>"

definition pal0 :: ota_pal where
  "pal0 = \<lparr>rx = rx0\<lparr>frags := [frag 0 [7]]\<rparr>, xTask = True, queue_exists = True, sem_flashing = True, sem_write = True,
           eSavedAgentState = OtaImageStateUnknown\<rparr>"

lemma header0: "\<exists>block. build_header (replicate 512 0) sig0 = Some (R_OTA_ERR_NONE, block)"
proof -
  have "der_integers sig0 70 2 44 (header_base (replicate 512 0)) =
      der_integers sig0 70 36 76 (overwrite 44 (replicate 32 0x22) (header_base (replicate 512 0)))"
    by (subst der_integers.simps) (simp add: sig0_def header_base arr_get_def mem_read_def nth_append)
  moreover have "\<exists>b. der_integers sig0 70 36 76 (overwrite 44 (replicate 32 0x22) (header_base (replicate 512 0))) =
      Some (R_OTA_ERR_NONE, b)"
    by (subst der_integers.simps) (simp add: sig0_def header_base arr_get_def mem_read_def nth_append)
  moreover have "unat (sig0 ! 1 + 2) = 70" "sig0 ! 0 = 0x30" "2 \<le> length sig0" by (simp_all add: sig0_def)
  ultimately show ?thesis using build_header_eq [of "replicate 512 0" sig0] by simp
qed

theorem ota_close_needs_signature_witness:
  "\<exists>ctx' s'. otaPal_CloseFile env0 (\<lambda>l. Some [1]) (Some ctx0) pal0 = Some (OtaPalSuccess, ctx', s') \<and>
     (\<exists>rx'. flush_fragments env0 [frag 0 [7]] (rx pal0) = Some rx' \<and> firmware_bytes rx' = [7])"
proof -
  from header0 obtain block where b: "build_header (replicate 512 0) sig0 = Some (R_OTA_ERR_NONE, block)" ..
  have page: "page_of 0 = 0" by simp
  have "\<exists>ctx' s'. otaPal_CloseFile env0 (\<lambda>l. Some [1]) (Some ctx0) pal0 = Some (OtaPalSuccess, ctx', s')"
    using b page
    by (simp add: otaPal_CloseFile_def otaPal_CheckFileSignature_def ota_context_update_user_firmware_header_def
        flush_one_def env0_def ctx0_def pal0_def rx0_def firmware_bytes_def overlay_def overwrite_def
        BOOT_LOADER_USER_FIRMWARE_HEADER_LENGTH_def)
  then obtain ctx' s' where w: "otaPal_CloseFile env0 (\<lambda>l. Some [1]) (Some ctx0) pal0 = Some (OtaPalSuccess, ctx', s')"
    by blast
  from ota_close_needs_signature [OF w] w show ?thesis
    by (auto simp: env0_def pal0_def)
qed


text \<open>
  A file whose closing does not succeed leaves the header area of the flash untouched, and the
  image is recorded as rejected unless only the header update failed.
\<close>

lemma ota_close_failure_keeps_header:
  assumes "flash_spec (env_wrf env)" "otaPal_CloseFile env readcert (Some c) s = Some (r, ctx', s')" "r \<noteq> OtaPalSuccess"
  shows "(\<forall>x < 0x200. flash (rx s') x = flash (rx s) x) \<and>
    (r = OtaPalFileClose \<or> eSavedAgentState s' = OtaImageStateRejected)"
proof -
  have chk: "\<forall>x < 0x200. flash (rx s1) x = flash (rx s) x"
    if "otaPal_CheckFileSignature env readcert c sig s = Some (e, s1)" for sig e s1
    using that flush_header [OF assms(1)]
    by (auto simp: otaPal_CheckFileSignature_def Let_def bind_eq_Some_conv split: if_splits option.splits)
  show ?thesis
  proof (cases "pSignature c")
    case None
    with assms(2) show ?thesis by (auto simp: otaPal_CloseFile_def)
  next
    case (Some sig)
    with assms(2) obtain e s1 where e: "otaPal_CheckFileSignature env readcert c sig s = Some (e, s1)"
      by (auto simp: otaPal_CloseFile_def bind_eq_Some_conv)
    show ?thesis
    proof (cases "e = OtaPalSuccess")
      case False
      with assms(2) Some e have "r = e" "s' = s1\<lparr>eSavedAgentState := OtaImageStateRejected\<rparr>"
        by (auto simp: otaPal_CloseFile_def)
      with chk [OF e] show ?thesis by simp
    next
      case True
      with assms(2,3) Some e obtain ret s2 where "ota_context_update_user_firmware_header env (fst sig) s1 = Some (ret, s2)"
        "ret \<noteq> R_OTA_ERR_NONE" "r = OtaPalFileClose" "s' = release s2"
        by (auto simp: otaPal_CloseFile_def bind_eq_Some_conv split: if_splits)
      then have "s2 = s1" "s' = release s2" "r = OtaPalFileClose"
        by (auto simp: ota_context_update_user_firmware_header_def bind_eq_Some_conv split: if_splits)
      with chk [OF e] show ?thesis by (simp add: release_def)
    qed
  qed
qed


text \<open>
  An image whose last fragment is not in the first page of the file can never be closed: the page
  buffer is indexed with the fragment's offset in the file, so that the copy leaves the buffer.
\<close>

lemma ota_close_overruns_page:
  assumes "pSignature c = Some sig" "frags (rx s) = t # ts" "FLASH_CF_MIN_PGM_SIZE < fb_offset t + fb_length t"
    and "fb_length t \<le> length (fb_binary t)"
  shows "otaPal_CloseFile env readcert (Some c) s = None"
proof -
  have "flush_one env t (rx s) = None"
    using assms(3,4) by (simp add: flush_one_def mem_write_def)
  then have "otaPal_CheckFileSignature env readcert c sig s = None"
    by (simp add: otaPal_CheckFileSignature_def assms(2))
  then show ?thesis by (simp add: otaPal_CloseFile_def assms(1))
qed


subsection \<open>The image state\<close>

text \<open>
  Accepting an image succeeds exactly when its self test was running and the erasure of the other
  bank worked; whether or not it did, the image is reported as valid afterwards.
\<close>

lemma ota_accept_image:
  "(fst (otaPal_SetPlatformImageState env OtaImageStateAccepted s) = OtaPalSuccess \<longleftrightarrow>
      eSavedAgentState s = OtaImageStateTesting \<and> fst (env_erase env (flash (rx s)))) \<and>
   otaPal_GetPlatformImageState (snd (otaPal_SetPlatformImageState env OtaImageStateAccepted s)) = OtaPalImageStateValid"
  by (auto simp: otaPal_SetPlatformImageState_def otaPal_GetPlatformImageState_def split: prod.splits)

text \<open>
  A new file starts from an erased receive area: no fragments, an empty queue, no bytes counted and
  the image state unknown; with no file path or no flash it is refused.
\<close>

lemma ota_create_starts_clean:
  assumes "otaPal_CreateFileForRx env ctx s = Some (r, ctx', s')"
  shows "(r = OtaPalSuccess \<longrightarrow>
      (\<exists>c. ctx = Some c \<and> pFilePath c \<noteq> None \<and> ctx' = Some (c\<lparr>pFile := True\<rparr>)) \<and> env_open_ok env \<and>
      queue_ok (rx s') \<and> frags (rx s') = [] \<and> received (rx s') = 0 \<and>
      env_erase env (flash (rx s)) = (True, flash (rx s')) \<and> eSavedAgentState s' = OtaImageStateUnknown) \<and>
    (r \<noteq> OtaPalSuccess \<longrightarrow> r = OtaPalRxFileCreateFailed \<and> ctx' = ctx)"
  using assms
  by (auto simp: otaPal_CreateFileForRx_def Let_def queue_ok_def received_def split: option.splits if_splits prod.splits)


end
