(* ===== verification/Slots.thy ===== *)
theory Slots
  imports Prelude
begin

text \<open>
  Compaction of a table of slots in place, the loop that \<open>prvCompressSubscriptionList\<close> and
  \<open>prvCompressCallbackList\<close> (\<open>src/source/mqtt_agent/mqtt_agent_task.c\<close>) share: each empty slot is
  filled with the next occupied slot behind it. The loop is stated once, with the tests for an empty
  and an occupied slot and the cleared slot as arguments; the locale \<open>slot_table\<close> says what the
  tests have to satisfy and proves that the occupied slots come out first and in order.
\<close>

subsection \<open>The loop\<close>

text \<open>The first occupied slot from \<open>i\<close> on, the size of the table when there is none.\<close>

function next_occupied :: "('a \<Rightarrow> bool) \<Rightarrow> 'a list \<Rightarrow> nat \<Rightarrow> nat" where
  "next_occupied occ xs i =
     (if i < length xs then if occ (xs ! i) then i else next_occupied occ xs (i + 1) else length xs)"
  by pat_completeness auto
termination by (relation "measure (\<lambda>(occ, xs, i). length xs - i)") auto

declare next_occupied.simps [simp del]

text \<open>
  One round for slot \<open>idx\<close>. The state is the table, \<open>uxLastOccupiedIndex\<close>, the count, and the moves
  made, as pairs of old and new index.
\<close>

type_synonym 'a compress_state = "'a list \<times> nat \<times> nat \<times> (nat \<times> nat) list"

definition compress_round ::
  "('a \<Rightarrow> bool) \<Rightarrow> ('a \<Rightarrow> bool) \<Rightarrow> ('a \<Rightarrow> bool) \<Rightarrow> 'a \<Rightarrow> nat \<Rightarrow> 'a compress_state \<Rightarrow> 'a compress_state" where
  "compress_round vacant occ full cleared idx s =
     (case s of (xs, lo, cnt, mv) \<Rightarrow>
        if vacant (xs ! idx) \<and> lo < length xs
        then let lo' = (if lo \<le> idx then idx + 1 else lo);
                 j = next_occupied occ xs lo' in
             if j < length xs then (xs[idx := xs ! j, j := cleared], j + 1, cnt + 1, mv @ [(j, idx)])
             else (xs, j, cnt, mv)
        else if full (xs ! idx) then (xs, lo, cnt + 1, mv) else (xs, lo, cnt, mv))"

definition compress_table ::
  "('a \<Rightarrow> bool) \<Rightarrow> ('a \<Rightarrow> bool) \<Rightarrow> ('a \<Rightarrow> bool) \<Rightarrow> 'a \<Rightarrow> 'a list \<Rightarrow> 'a compress_state" where
  "compress_table vacant occ full cleared xs =
     fold (compress_round vacant occ full cleared) [0..<length xs] (xs, 0, 0, [])"

text \<open>Where a reference to slot \<open>i\<close> points after the moves.\<close>

definition follow :: "(nat \<times> nat) list \<Rightarrow> nat \<Rightarrow> nat" where
  "follow mv i = fold (\<lambda>(old, new) r. if r = old then new else r) mv i"

lemma follow_simps [simp]:
  "follow [] i = i" "follow (mv @ [(old, new)]) i = (if follow mv i = old then new else follow mv i)"
  by (simp_all add: follow_def)

subsection \<open>Correctness\<close>

lemma next_occupied_spec:
  assumes "i \<le> length xs"
  shows "i \<le> next_occupied occ xs i \<and> next_occupied occ xs i \<le> length xs \<and>
    (\<forall>k. i \<le> k \<and> k < next_occupied occ xs i \<longrightarrow> \<not> occ (xs ! k)) \<and>
    (next_occupied occ xs i < length xs \<longrightarrow> occ (xs ! next_occupied occ xs i))"
  using assms
proof (induction occ xs i rule: next_occupied.induct)
  case (1 occ xs i)
  show ?case
  proof (cases "i < length xs \<and> \<not> occ (xs ! i)")
    case True
    then have eq: "next_occupied occ xs i = next_occupied occ xs (i + 1)"
      by (subst next_occupied.simps) simp
    have "\<not> occ (xs ! k)" if "i \<le> k" "k < next_occupied occ xs (i + 1)" for k
      using 1 True that by (cases "k = i") auto
    with 1 True show ?thesis unfolding eq by auto
  next
    case False
    then show ?thesis using "1.prems" by (subst (1 2 3 4 5) next_occupied.simps) auto
  qed
qed

text \<open>A slot is empty or full; the search looks for full ones; the cleared slot is empty.\<close>

locale slot_table =
  fixes vacant occ full :: "'a \<Rightarrow> bool" and cleared :: 'a and ok :: "'a \<Rightarrow> bool"
  assumes full_iff: "ok x \<Longrightarrow> full x \<longleftrightarrow> \<not> vacant x"
    and occ_iff: "ok x \<Longrightarrow> occ x \<longleftrightarrow> \<not> vacant x"
    and cleared: "vacant cleared" "ok cleared"
begin

text \<open>
  After the first \<open>k\<close> rounds: the first \<open>k\<close> slots hold the first \<open>k\<close> occupied entries, then
  empty ones; the other occupied entries are behind, in order; between \<open>k\<close> and the last index
  visited there are only empty slots.
\<close>

definition compress_inv :: "'a list \<Rightarrow> nat \<Rightarrow> 'a compress_state \<Rightarrow> bool" where
  "compress_inv xs0 k s = (case s of (xs, lo, cnt, mv) \<Rightarrow>
     length xs = length xs0 \<and> (\<forall>x \<in> set xs. ok x) \<and> lo \<le> length xs \<and>
     (\<exists>zs. take k xs = take k (filter full xs0) @ zs \<and> (\<forall>z \<in> set zs. vacant z)) \<and>
     filter full (drop k xs) = drop k (filter full xs0) \<and>
     (\<forall>i. k \<le> i \<and> i < lo \<longrightarrow> vacant (xs ! i)) \<and> cnt = min k (length (filter full xs0)))"

lemma filter_skip:
  assumes "\<forall>x \<in> set xs. ok x" "k \<le> j" "j \<le> length xs" "\<forall>i. k \<le> i \<and> i < j \<longrightarrow> vacant (xs ! i)"
  shows "filter full (drop k xs) = filter full (drop j xs)"
proof -
  have "drop k xs = take (j - k) (drop k xs) @ drop j xs"
    using assms(2) by (metis append_take_drop_id drop_drop le_add_diff_inverse2)
  moreover have "filter full (take (j - k) (drop k xs)) = []"
  proof -
    have "\<not> full x" if "x \<in> set (take (j - k) (drop k xs))" for x
    proof -
      from that obtain i where "i < length (take (j - k) (drop k xs))" "x = take (j - k) (drop k xs) ! i"
        by (metis in_set_conv_nth)
      then have "x = xs ! (k + i)" "k + i < j" "k + i < length xs" using assms(3) by auto
      then show ?thesis using assms(1,4) full_iff [of x] by simp
    qed
    then show ?thesis by (simp add: filter_empty_conv)
  qed
  ultimately show ?thesis by (metis append_Nil filter_append)
qed

text \<open>The first occupied entry behind \<open>k\<close> is the next one of the result.\<close>

lemma filter_full_Cons:
  assumes "\<forall>x \<in> set xs. ok x" "k \<le> j" "j < length xs" "\<not> vacant (xs ! j)"
    and "\<forall>i. k \<le> i \<and> i < j \<longrightarrow> vacant (xs ! i)"
  shows "filter full (drop k xs) = xs ! j # filter full (drop (Suc j) xs)"
proof -
  have "filter full (drop k xs) = filter full (drop j xs)" using filter_skip [OF assms(1,2) _ assms(5)] assms(3) by simp
  also have "drop j xs = xs ! j # drop (Suc j) xs" using assms(3) by (rule Cons_nth_drop_Suc [symmetric])
  finally show ?thesis using assms(1,3,4) full_iff by simp
qed

lemma filter_done:
  assumes "\<forall>x \<in> set xs. ok x" "k \<le> length xs" "\<forall>i. k \<le> i \<and> i < length xs \<longrightarrow> vacant (xs ! i)"
    and "filter full (drop k xs) = drop k F"
  shows "length F \<le> k"
  using filter_skip [OF assms(1,2) _ assms(3)] assms(4) by simp

text \<open>The two ways a round leaves the table alone, and the one in which it moves an entry.\<close>

lemma inv_vacant:
  assumes "compress_inv xs0 k (xs, lo, cnt, mv)" "k < length xs0" "vacant (xs ! k)" "length (filter full xs0) \<le> k"
    and "lo' \<le> length xs" "\<forall>i. Suc k \<le> i \<and> i < lo' \<longrightarrow> vacant (xs ! i)"
  shows "compress_inv xs0 (Suc k) (xs, lo', cnt, mv')"
proof -
  from assms(1) obtain zs where len: "length xs = length xs0" and zs: "take k xs = take k (filter full xs0) @ zs"
    "\<forall>z \<in> set zs. vacant z" and okx: "\<forall>x \<in> set xs. ok x" and f: "filter full (drop k xs) = drop k (filter full xs0)"
    and c: "cnt = min k (length (filter full xs0))"
    by (auto simp: compress_inv_def)
  have "take (Suc k) xs = take (Suc k) (filter full xs0) @ (zs @ [xs ! k])"
    using zs(1) assms(2,4) len by (simp add: take_Suc_conv_app_nth)
  moreover have "filter full (drop (Suc k) xs) = drop (Suc k) (filter full xs0)"
  proof -
    have "drop k xs = xs ! k # drop (Suc k) xs" using assms(2) len by (simp add: Cons_nth_drop_Suc)
    then show ?thesis using f assms(4) by (auto split: if_splits)
  qed
  moreover have "\<forall>z \<in> set (zs @ [xs ! k]). vacant z" using zs(2) assms(3) by simp
  moreover have "cnt = min (Suc k) (length (filter full xs0))" using c assms(4) by simp
  ultimately show ?thesis using len okx assms(5,6) unfolding compress_inv_def prod.case by blast
qed

lemma inv_full:
  assumes "compress_inv xs0 k (xs, lo, cnt, mv)" "k < length xs0" "\<not> vacant (xs ! k)"
  shows "compress_inv xs0 (Suc k) (xs, lo, cnt + 1, mv)"
proof -
  let ?F = "filter full xs0"
  from assms(1) obtain zs where len: "length xs = length xs0" and zs: "take k xs = take k ?F @ zs"
    and okx: "\<forall>x \<in> set xs. ok x" and f: "filter full (drop k xs) = drop k ?F" and lo: "lo \<le> length xs"
    and v: "\<forall>i. k \<le> i \<and> i < lo \<longrightarrow> vacant (xs ! i)" and c: "cnt = min k (length ?F)"
    by (auto simp: compress_inv_def)
  have none: "\<forall>i. k \<le> i \<and> i < k \<longrightarrow> vacant (xs ! i)" by auto
  have fc: "drop k ?F = xs ! k # filter full (drop (Suc k) xs)"
    using filter_full_Cons [OF okx _ _ _ none] f assms(2,3) len by simp
  then have kF: "k < length ?F" by (metis drop_eq_Nil list.simps(3) not_less)
  then have "?F ! k = xs ! k" "drop (Suc k) ?F = filter full (drop (Suc k) xs)"
    using fc by (simp_all add: Cons_nth_drop_Suc [symmetric])
  moreover have "zs = []" using arg_cong [OF zs, of length] kF assms(2) len by simp
  ultimately have "take (Suc k) xs = take (Suc k) ?F @ []" "filter full (drop (Suc k) xs) = drop (Suc k) ?F"
    using zs assms(2) len kF by (simp_all add: take_Suc_conv_app_nth)
  with len okx lo v c kF show ?thesis unfolding compress_inv_def by auto
qed

lemma inv_move:
  assumes "compress_inv xs0 k (xs, lo, cnt, mv)" "k < length xs0" "k < j" "j < length xs" "\<not> vacant (xs ! j)"
    and "\<forall>i. k \<le> i \<and> i < j \<longrightarrow> vacant (xs ! i)"
  shows "compress_inv xs0 (Suc k) (xs[k := xs ! j, j := cleared], j + 1, cnt + 1, mv')"
proof -
  let ?F = "filter full xs0" and ?ys = "xs[k := xs ! j, j := cleared]"
  from assms(1) obtain zs where len: "length xs = length xs0" and zs: "take k xs = take k ?F @ zs"
    and okx: "\<forall>x \<in> set xs. ok x" and f: "filter full (drop k xs) = drop k ?F" and c: "cnt = min k (length ?F)"
    by (auto simp: compress_inv_def)
  have fc: "drop k ?F = xs ! j # filter full (drop (Suc j) xs)"
    using filter_full_Cons [OF okx _ assms(4-6)] f assms(3) by simp
  then have kF: "k < length ?F" by (metis drop_eq_Nil list.simps(3) not_less)
  then have F: "?F ! k = xs ! j" "drop (Suc k) ?F = filter full (drop (Suc j) xs)"
    using fc by (simp_all add: Cons_nth_drop_Suc [symmetric])
  have "zs = []" using arg_cong [OF zs, of length] kF assms(2) len by simp
  then have tk: "take (Suc k) ?ys = take (Suc k) ?F @ []"
    using zs assms(2,3) len kF F(1) by (simp add: take_Suc_conv_app_nth)
  have oky: "\<forall>x \<in> set ?ys. ok x"
    using okx assms(4) cleared(2) by (auto dest!: subsetD [OF set_update_subset_insert])
  have vac: "\<forall>i. Suc k \<le> i \<and> i < Suc j \<longrightarrow> vacant (?ys ! i)"
    using assms(3,4,6) cleared(1) len by (auto simp: nth_list_update less_Suc_eq)
  have "filter full (drop (Suc k) ?ys) = filter full (drop (Suc j) ?ys)"
    by (rule filter_skip [OF oky _ _ vac]) (use assms(3,4) in simp_all)
  also have "drop (Suc j) ?ys = drop (Suc j) xs" using assms(3) by simp
  finally have "filter full (drop (Suc k) ?ys) = drop (Suc k) ?F" using F(2) by simp
  with tk oky vac len c kF assms(4) show ?thesis unfolding compress_inv_def by auto
qed

lemma round_inv:
  assumes "compress_inv xs0 k s" "k < length xs0"
  shows "compress_inv xs0 (Suc k) (compress_round vacant occ full cleared k s)"
proof -
  obtain xs lo cnt mv where s: "s = (xs, lo, cnt, mv)" by (cases s) auto
  from assms(1) have len: "length xs = length xs0" and okx: "\<forall>x \<in> set xs. ok x" and lo: "lo \<le> length xs"
    and f: "filter full (drop k xs) = drop k (filter full xs0)" and v: "\<forall>i. k \<le> i \<and> i < lo \<longrightarrow> vacant (xs ! i)"
    by (auto simp: compress_inv_def s)
  show ?thesis
  proof (cases "vacant (xs ! k)")
    case False
    then have "full (xs ! k)" using okx assms(2) len full_iff by simp
    with False inv_full [OF assms(1) [unfolded s] assms(2) False] show ?thesis
      by (simp add: compress_round_def s)
  next
    case vk: True
    show ?thesis
    proof (cases "lo < length xs")
      case True
      let ?lo = "if lo \<le> k then k + 1 else lo" and ?j = "next_occupied occ xs (if lo \<le> k then k + 1 else lo)"
      have "?lo \<le> length xs" using True assms(2) len by simp
      note j = next_occupied_spec [OF this, of occ]
      have vj: "vacant (xs ! i)" if "k \<le> i" "i < ?j" for i
      proof (cases "i < ?lo")
        case True
        then show ?thesis using v vk that(1) by (cases "i = k") (auto split: if_splits)
      next
        case False
        then have "\<not> occ (xs ! i)" "i < length xs" using j that by auto
        then show ?thesis using okx occ_iff by auto
      qed
      have kj: "k < ?j" using j by (auto split: if_splits)
      show ?thesis
      proof (cases "?j < length xs")
        case True
        then have "\<not> vacant (xs ! ?j)" using j okx occ_iff by auto
        from inv_move [OF assms(1) [unfolded s] assms(2) kj True this] vj vk \<open>lo < length xs\<close> True show ?thesis
          by (simp add: compress_round_def s Let_def)
      next
        case False
        then have "?j = length xs" using j by simp
        then have "\<forall>i. k \<le> i \<and> i < length xs \<longrightarrow> vacant (xs ! i)" using vj by simp
        with filter_done [OF okx _ this f] inv_vacant [OF assms(1) [unfolded s] assms(2) vk] False \<open>?j = length xs\<close>
          vk \<open>lo < length xs\<close> assms(2) len show ?thesis
          by (simp add: compress_round_def s Let_def)
      qed
    next
      case False
      then have "lo = length xs" using lo by simp
      then have all: "\<forall>i. k \<le> i \<and> i < length xs \<longrightarrow> vacant (xs ! i)" using v by simp
      have "\<not> full (xs ! k)" using vk okx assms(2) len full_iff by simp
      with filter_done [OF okx _ all f] inv_vacant [OF assms(1) [unfolded s] assms(2) vk, of lo] all False vk
        assms(2) len lo show ?thesis
        by (simp add: compress_round_def s)
    qed
  qed
qed

text \<open>The result: the occupied entries in their order, then empty slots; the count is theirs.\<close>

lemma compress_correct:
  assumes "\<forall>x \<in> set xs. ok x" "compress_table vacant occ full cleared xs = (ys, lo, cnt, mv)"
  shows "length ys = length xs" "(\<forall>y \<in> set ys. ok y)" "cnt = length (filter full xs)"
    "\<exists>zs. ys = filter full xs @ zs \<and> (\<forall>z \<in> set zs. vacant z)"
proof -
  have "k \<le> length xs \<Longrightarrow> compress_inv xs k (fold (compress_round vacant occ full cleared) [0..<k] (xs, 0, 0, []))" for k
  proof (induction k)
    case 0
    show ?case using assms(1) by (simp add: compress_inv_def)
  next
    case (Suc k)
    then show ?case using round_inv by simp
  qed
  from this [of "length xs"] assms(2) have inv: "compress_inv xs (length xs) (ys, lo, cnt, mv)"
    by (simp add: compress_table_def)
  have le: "length (filter full xs) \<le> length xs" by simp
  from inv le show "length ys = length xs" "(\<forall>y \<in> set ys. ok y)" "cnt = length (filter full xs)"
    by (auto simp: compress_inv_def)
  from inv obtain zs where "take (length xs) ys = take (length xs) (filter full xs) @ zs" "\<forall>z \<in> set zs. vacant z"
    "length ys = length xs" by (auto simp: compress_inv_def)
  then show "\<exists>zs. ys = filter full xs @ zs \<and> (\<forall>z \<in> set zs. vacant z)" using le by auto
qed

text \<open>A reference to an occupied slot that follows the moves still refers to the same entry.\<close>

lemma round_follow:
  assumes "compress_inv xs0 k (xs, lo, cnt, mv)" "k < length xs0" "\<not> vacant x"
    and "follow mv i < length xs" "xs ! follow mv i = x"
    and "compress_round vacant occ full cleared k (xs, lo, cnt, mv) = (ys, lo', cnt', mv')"
  shows "follow mv' i < length ys \<and> ys ! follow mv' i = x"
proof -
  from assms(1) have len: "length xs = length xs0" by (simp add: compress_inv_def)
  show ?thesis
  proof (cases "vacant (xs ! k) \<and> lo < length xs \<and> next_occupied occ xs (if lo \<le> k then k + 1 else lo) < length xs")
    case True
    let ?j = "next_occupied occ xs (if lo \<le> k then k + 1 else lo)"
    have "?j \<noteq> k" using next_occupied_spec [of "if lo \<le> k then k + 1 else lo" xs occ] True assms(2) len
      by (auto split: if_splits)
    moreover have "follow mv i \<noteq> k" using True assms(3,5) by auto
    moreover have "ys = xs[k := xs ! ?j, ?j := cleared]" "mv' = mv @ [(?j, k)]"
      using assms(6) True by (auto simp: compress_round_def Let_def)
    ultimately show ?thesis using assms(2,4,5) len by auto
  next
    case False
    then have "ys = xs" "mv' = mv"
      using assms(6) by (auto simp: compress_round_def Let_def split: if_splits)
    with assms(4,5) show ?thesis by simp
  qed
qed

lemma compress_follow:
  assumes "\<forall>x \<in> set xs. ok x" "compress_table vacant occ full cleared xs = (ys, lo, cnt, mv)"
    and "i < length xs" "\<not> vacant (xs ! i)"
  shows "follow mv i < length ys" "ys ! follow mv i = xs ! i"
proof -
  let ?st = "\<lambda>k. fold (compress_round vacant occ full cleared) [0..<k] (xs, 0, 0, [])"
  have "k \<le> length xs \<Longrightarrow> compress_inv xs k (?st k) \<and>
      (case ?st k of (zs, l, c, m) \<Rightarrow> follow m i < length zs \<and> zs ! follow m i = xs ! i)" for k
  proof (induction k)
    case 0
    show ?case using assms(1,3) by (simp add: compress_inv_def)
  next
    case (Suc k)
    obtain zs l c m where st: "?st k = (zs, l, c, m)" by (cases "?st k") auto
    obtain zs' l' c' m' where st': "compress_round vacant occ full cleared k (zs, l, c, m) = (zs', l', c', m')"
      by (cases "compress_round vacant occ full cleared k (zs, l, c, m)") auto
    from Suc st have I: "compress_inv xs k (zs, l, c, m)" "follow m i < length zs" "zs ! follow m i = xs ! i" "k < length xs"
      by auto
    from round_follow [OF I(1,4) assms(4) I(2,3) st'] round_inv [OF I(1,4)] st st' show ?case by simp
  qed
  from this [of "length xs"] assms(2) show "follow mv i < length ys" "ys ! follow mv i = xs ! i"
    by (auto simp: compress_table_def)
qed

end

end
