(* ===== verification/SubMgr.thy ===== *)
theory SubMgr
  imports Slots
begin

text \<open>
  The subscription manager of the MQTT agent (\<open>src/source/mqtt_agent/mqtt_agent_task.c\<close>,
  \<open>subscription_manager.h\<close>): the tables of subscriptions and callbacks, subscribing and
  unsubscribing, the delivery of an incoming publish, and the renewal of the subscriptions.

  A pointer into the table of subscriptions is its index. A callback function, its context and a task
  are numbers. The MQTT library is not under \<open>src/\<close>: \<open>MQTTAgent_Subscribe\<close>,
  \<open>MQTTAgent_Unsubscribe\<close> and the answer they lead to are the arguments \<open>req\<close>, and
  \<open>MQTT_MatchTopic\<close> is the argument \<open>mt\<close>. The mutex is the field \<open>owner\<close>; a task that would
  wait for it gets no result. Giving a mutex that nobody holds fails and changes nothing; giving one
  that another task holds stops in an assertion of the kernel.
\<close>

subsection \<open>Data\<close>

abbreviation (input) MQTT_AGENT_MAX_SUBSCRIPTIONS :: nat where "MQTT_AGENT_MAX_SUBSCRIPTIONS \<equiv> 10"
abbreviation (input) MQTT_AGENT_MAX_CALLBACKS :: nat where "MQTT_AGENT_MAX_CALLBACKS \<equiv> 10"
abbreviation (input) UINT16_MAX :: nat where "UINT16_MAX \<equiv> 65535"

type_synonym MQTTStatus_t = nat

abbreviation (input) MQTTSuccess :: MQTTStatus_t where "MQTTSuccess \<equiv> 0"
abbreviation (input) MQTTBadParameter :: MQTTStatus_t where "MQTTBadParameter \<equiv> 1"
abbreviation (input) MQTTNoMemory :: MQTTStatus_t where "MQTTNoMemory \<equiv> 2"
abbreviation (input) MQTTNoDataAvailable :: MQTTStatus_t where "MQTTNoDataAvailable \<equiv> 7"
abbreviation (input) MQTTIllegalState :: MQTTStatus_t where "MQTTIllegalState \<equiv> 8"
abbreviation (input) MQTTKeepAliveTimeout :: MQTTStatus_t where "MQTTKeepAliveTimeout \<equiv> 10"

type_synonym MQTTQoS_t = nat
type_synonym MQTTSubAckStatus_t = nat

abbreviation (input) MQTTSubAckFailure :: MQTTSubAckStatus_t where "MQTTSubAckFailure \<equiv> 0x80"

type_synonym task = nat

record MQTTSubscribeInfo_t =
  qos :: MQTTQoS_t
  pTopicFilter :: "string option"
  topicFilterLength :: nat

record SubCallbackElement_t =
  pxIncomingPublishCallback :: "nat option"
  pvIncomingPublishCallbackContext :: nat
  xTaskHandle :: "task option"
  pxSubInfo :: "nat option"

record SubMgrCtx_t =
  pxSubscriptions :: "MQTTSubscribeInfo_t list"
  pxSubAckStatus :: "MQTTSubAckStatus_t list"
  pulSubCbCount :: "nat list"
  pxCallbacks :: "SubCallbackElement_t list"
  uxSubscriptionCount :: nat
  uxCallbackCount :: nat
  owner :: "task option"

definition no_sub :: MQTTSubscribeInfo_t where
  "no_sub = \<lparr>qos = 0, pTopicFilter = None, topicFilterLength = 0\<rparr>"

definition no_cb :: SubCallbackElement_t where
  "no_cb = \<lparr>pxIncomingPublishCallback = None, pvIncomingPublishCallbackContext = 0, xTaskHandle = None, pxSubInfo = None\<rparr>"

subsection \<open>The mutex\<close>

definition xLockSubCtx :: "task \<Rightarrow> SubMgrCtx_t \<Rightarrow> SubMgrCtx_t option" where
  "xLockSubCtx me s = (if owner s = None then Some (s\<lparr>owner := Some me\<rparr>) else None)"

definition xUnlockSubCtx :: "task \<Rightarrow> SubMgrCtx_t \<Rightarrow> SubMgrCtx_t option" where
  "xUnlockSubCtx me s =
     (if owner s = Some me then Some (s\<lparr>owner := None\<rparr>) else if owner s = None then Some s else None)"

subsection \<open>Compaction of the tables\<close>

definition prvUpdateCallbackRefs :: "SubCallbackElement_t list \<Rightarrow> nat \<Rightarrow> nat \<Rightarrow> SubCallbackElement_t list" where
  "prvUpdateCallbackRefs cbs uxOldIdx uxNewIdx =
     map (\<lambda>c. if pxSubInfo c = Some uxOldIdx then c\<lparr>pxSubInfo := Some uxNewIdx\<rparr> else c) cbs"

definition prvCompressSubscriptionList ::
  "MQTTSubscribeInfo_t list \<Rightarrow> SubCallbackElement_t list \<Rightarrow> MQTTSubscribeInfo_t list \<times> SubCallbackElement_t list \<times> nat" where
  "prvCompressSubscriptionList subs cbs =
     (case compress_table (\<lambda>i. pTopicFilter i = None \<and> topicFilterLength i = 0) (\<lambda>i. topicFilterLength i \<noteq> 0)
             (\<lambda>i. pTopicFilter i \<noteq> None \<and> topicFilterLength i \<noteq> 0) no_sub subs of
        (subs', lo, cnt, mv) \<Rightarrow>
          (subs', fold (\<lambda>(old, new) c. prvUpdateCallbackRefs c old new) mv cbs, cnt))"

definition prvCompressCallbackList :: "SubCallbackElement_t list \<Rightarrow> SubCallbackElement_t list \<times> nat" where
  "prvCompressCallbackList cbs =
     (case compress_table (\<lambda>c. pxSubInfo c = None) (\<lambda>c. pxSubInfo c \<noteq> None) (\<lambda>c. pxSubInfo c \<noteq> None) no_cb cbs of
        (cbs', lo, cnt, mv) \<Rightarrow> (cbs', cnt))"

subsection \<open>Reset and renewal\<close>

definition prvSubscriptionManagerCtxReset :: "SubMgrCtx_t \<Rightarrow> SubMgrCtx_t" where
  "prvSubscriptionManagerCtxReset s =
     s\<lparr>uxSubscriptionCount := 0, uxCallbackCount := 0,
       pxSubAckStatus := replicate MQTT_AGENT_MAX_SUBSCRIPTIONS MQTTSubAckFailure,
       pulSubCbCount := replicate MQTT_AGENT_MAX_SUBSCRIPTIONS 0,
       pxSubscriptions := replicate MQTT_AGENT_MAX_SUBSCRIPTIONS no_sub,
       pxCallbacks := replicate MQTT_AGENT_MAX_CALLBACKS no_cb\<rparr>"

text \<open>
  \<open>mutex_ok\<close>: whether \<open>xSemaphoreCreateMutex\<close> succeeds. The new mutex is taken at once, so that
  nobody can subscribe before the first connection.
\<close>

definition prvSubscriptionManagerCtxInit :: "bool \<Rightarrow> task \<Rightarrow> SubMgrCtx_t \<Rightarrow> (MQTTStatus_t \<times> SubMgrCtx_t) option" where
  "prvSubscriptionManagerCtxInit mutex_ok me s =
     (if mutex_ok
      then do { s1 \<leftarrow> xLockSubCtx me (s\<lparr>owner := None\<rparr>);
                Some (MQTTSuccess, prvSubscriptionManagerCtxReset s1) }
      else Some (MQTTNoMemory, s))"

text \<open>
  The renewal of the subscriptions after a reconnection. \<open>xStatus\<close> starts as \<open>MQTTBadParameter\<close>
  and nothing sets it before the test. The second component says whether \<open>MQTTAgent_Subscribe\<close> was
  called, and with how many subscriptions.
\<close>

definition prvHandleResubscribe ::
  "MQTTStatus_t \<Rightarrow> task \<Rightarrow> SubMgrCtx_t \<Rightarrow> (MQTTStatus_t \<times> nat option \<times> SubMgrCtx_t) option" where
  "prvHandleResubscribe enqueue me s =
     do { configASSERT (owner s = Some me);
          let (subs, cbs, cnt) = prvCompressSubscriptionList (pxSubscriptions s) (pxCallbacks s);
          let s1 = s\<lparr>pxSubscriptions := subs, pxCallbacks := cbs, uxSubscriptionCount := cnt\<rparr>;
          let xStatus = MQTTBadParameter;
          (if xStatus = MQTTSuccess \<and> 0 < uxSubscriptionCount s1
           then Some (enqueue, Some (uxSubscriptionCount s1), s1)
           else do { s2 \<leftarrow> xUnlockSubCtx me s1; Some (MQTTSuccess, None, s2) }) }"

text \<open>The completion of the renewal: the answers are recorded and the mutex is given back.\<close>

definition prvResubscribeCommandCallback :: "MQTTSubAckStatus_t list \<Rightarrow> task \<Rightarrow> SubMgrCtx_t \<Rightarrow> SubMgrCtx_t option" where
  "prvResubscribeCommandCallback pSubackCodes me s =
     do { configASSERT (owner s = Some me);
          codes \<leftarrow> mem_read 0 (uxSubscriptionCount s) pSubackCodes;
          acks \<leftarrow> mem_write 0 codes (pxSubAckStatus s);
          xUnlockSubCtx me (s\<lparr>pxSubAckStatus := acks\<rparr>) }"

subsection \<open>Delivery\<close>

text \<open>\<open>mt name filter\<close>: whether \<open>MQTT_MatchTopic\<close> succeeds and finds a match.\<close>

type_synonym match_topic = "string \<Rightarrow> string \<Rightarrow> bool"

definition prvMatchTopic :: "match_topic \<Rightarrow> MQTTSubscribeInfo_t \<Rightarrow> string \<Rightarrow> bool" where
  "prvMatchTopic mt i pcTopicName =
     (case pTopicFilter i of None \<Rightarrow> False | Some f \<Rightarrow> mt pcTopicName (take (topicFilterLength i) f))"

text \<open>The callbacks that are called, in order, as pairs of function and context.\<close>

definition prvIncomingPublishCallback ::
  "match_topic \<Rightarrow> task \<Rightarrow> string \<Rightarrow> SubMgrCtx_t \<Rightarrow> ((nat option \<times> nat) list \<times> SubMgrCtx_t) option" where
  "prvIncomingPublishCallback mt me topic s =
     do { s1 \<leftarrow> xLockSubCtx me s;
          let called = map (\<lambda>c. (pxIncomingPublishCallback c, pvIncomingPublishCallbackContext c))
                (filter (\<lambda>c. case pxSubInfo c of None \<Rightarrow> False
                             | Some i \<Rightarrow> prvMatchTopic mt (pxSubscriptions s1 ! i) topic) (pxCallbacks s1));
          s2 \<leftarrow> xUnlockSubCtx me s1;
          Some (called, s2) }"


subsection \<open>Requests to the agent\<close>

definition prvGetNewQoS :: "MQTTQoS_t \<Rightarrow> MQTTQoS_t \<Rightarrow> MQTTQoS_t" where
  "prvGetNewQoS xCurrentQoS xRequestedQoS = (if xCurrentQoS = xRequestedQoS then xCurrentQoS else 1)"

definition prvValidateQoS :: "MQTTQoS_t \<Rightarrow> bool" where
  "prvValidateQoS q = (q = 0 \<or> q = 1 \<or> q = 2)"

text \<open>The notification value: the return code in the low 24 bits, the first answer above them.\<close>

definition prvSubscribeRqCallback :: "u32 \<Rightarrow> u32 list option \<Rightarrow> u32" where
  "prvSubscribeRqCallback returnCode pSubackCodes =
     (returnCode AND 0xFFFFFF) + (case pSubackCodes of None \<Rightarrow> 0 | Some cs \<Rightarrow> push_bit 24 (cs ! 0))"

text \<open>
  What the agent does with a request: the result of putting the command on its queue and, when that
  succeeded, the notification value it sends, if it sends one.
\<close>

type_synonym 'a agent_request = "'a \<Rightarrow> MQTTStatus_t \<times> u32 option"

definition prvSendSubRequest ::
  "MQTTSubscribeInfo_t agent_request \<Rightarrow> MQTTSubscribeInfo_t \<Rightarrow> MQTTSubAckStatus_t \<Rightarrow> MQTTStatus_t \<times> MQTTSubAckStatus_t" where
  "prvSendSubRequest req i ack =
     (case req i of (xStatus, notified) \<Rightarrow>
        if xStatus = MQTTSuccess
        then (case notified of
                Some v \<Rightarrow> (unat (v AND 0xFFFFFF), unat (drop_bit 24 v))
              | None \<Rightarrow> (MQTTKeepAliveTimeout, ack))
        else (xStatus, ack))"

definition prvAgentRequestCallback :: "u32 \<Rightarrow> u32" where
  "prvAgentRequestCallback returnCode = returnCode"

definition prvSendUnsubRequest :: "string agent_request \<Rightarrow> string \<Rightarrow> MQTTStatus_t" where
  "prvSendUnsubRequest req pcTopicFilter =
     (case req pcTopicFilter of (xStatus, notified) \<Rightarrow>
        if xStatus = MQTTSuccess
        then (case notified of Some v \<Rightarrow> unat v | None \<Rightarrow> MQTTKeepAliveTimeout)
        else xStatus)"

subsection \<open>Subscribing\<close>

text \<open>
  \<open>strncmp( pxSubInfo->pTopicFilter, pcTopicFilter, pxSubInfo->topicFilterLength ) == 0\<close>: a comparison
  of no characters for an entry without a filter.
\<close>

definition filter_matches :: "MQTTSubscribeInfo_t \<Rightarrow> string \<Rightarrow> bool" where
  "filter_matches i pcTopicFilter =
     strncmp_eq (case pTopicFilter i of Some f \<Rightarrow> f | None \<Rightarrow> []) pcTopicFilter (topicFilterLength i)"

text \<open>The search for a subscription: target index, status, QoS and the table of answers.\<close>

type_synonym sub_search = "nat \<times> MQTTStatus_t \<times> MQTTQoS_t \<times> MQTTSubAckStatus_t list"

fun find_subscription :: "string \<Rightarrow> MQTTSubscribeInfo_t list \<Rightarrow> nat \<Rightarrow> sub_search \<Rightarrow> sub_search option" where
  "find_subscription pc [] uxSubIdx st = Some st"
| "find_subscription pc (i # is) uxSubIdx (target, xStatus, q, acks) =
     (if pTopicFilter i = None \<and> target = MQTT_AGENT_MAX_SUBSCRIPTIONS
      then do { configASSERT (topicFilterLength i = 0);
                find_subscription pc is (uxSubIdx + 1) (uxSubIdx, MQTTSuccess, q, acks[uxSubIdx := MQTTSubAckFailure]) }
      else if filter_matches i pc
      then let q' = prvGetNewQoS (qos i) q in
           Some (uxSubIdx, MQTTSuccess, q', if qos i \<noteq> q' then acks[uxSubIdx := MQTTSubAckFailure] else acks)
      else find_subscription pc is (uxSubIdx + 1) (target, xStatus, q, acks))"

definition prvMatchCbCtx :: "task \<Rightarrow> SubCallbackElement_t \<Rightarrow> nat option \<Rightarrow> nat option \<Rightarrow> nat \<Rightarrow> bool" where
  "prvMatchCbCtx me c sub cb ctx =
     (pxSubInfo c = sub \<and> pvIncomingPublishCallbackContext c = ctx \<and> pxIncomingPublishCallback c = cb \<and>
      xTaskHandle c = Some me)"

fun find_callback :: "(SubCallbackElement_t \<Rightarrow> bool) \<Rightarrow> SubCallbackElement_t list \<Rightarrow> nat \<Rightarrow> nat \<times> MQTTStatus_t \<Rightarrow> nat \<times> MQTTStatus_t" where
  "find_callback match [] uxCbIdx st = st"
| "find_callback match (c # cs) uxCbIdx (target, xStatus) =
     (if target = MQTT_AGENT_MAX_CALLBACKS \<and> pxSubInfo c = None
      then find_callback match cs (uxCbIdx + 1) (uxCbIdx, MQTTSuccess)
      else if match c then (uxCbIdx, MQTTSuccess)
      else find_callback match cs (uxCbIdx + 1) (target, xStatus))"

text \<open>The subscription entry is filled when a subscribe operation is due; \<open>mem\<close> is the allocation.\<close>

definition populate_subscription ::
  "bool \<Rightarrow> string \<Rightarrow> nat \<Rightarrow> nat \<Rightarrow> MQTTQoS_t \<Rightarrow> SubMgrCtx_t \<Rightarrow> MQTTStatus_t \<times> SubMgrCtx_t" where
  "populate_subscription mem pc len t q s =
     (if pxSubAckStatus s ! t = MQTTSubAckFailure
      then if pTopicFilter (pxSubscriptions s ! t) = None
           then if mem
                then (MQTTSuccess,
                      s\<lparr>pxSubscriptions := (pxSubscriptions s)[t := \<lparr>qos = q, pTopicFilter = Some (take len pc), topicFilterLength = len\<rparr>],
                        uxSubscriptionCount := uxSubscriptionCount s + 1\<rparr>)
                else (MQTTNoMemory, s\<lparr>pxSubscriptions := (pxSubscriptions s)[t := (pxSubscriptions s ! t)\<lparr>qos := q\<rparr>]\<rparr>)
           else (MQTTSuccess, s\<lparr>pxSubscriptions := (pxSubscriptions s)[t := (pxSubscriptions s ! t)\<lparr>qos := q\<rparr>]\<rparr>)
      else (MQTTSuccess, s))"

definition populate_callback :: "task \<Rightarrow> nat option \<Rightarrow> nat \<Rightarrow> nat \<Rightarrow> nat \<Rightarrow> SubMgrCtx_t \<Rightarrow> SubMgrCtx_t" where
  "populate_callback me cb ctx t c s =
     (if pxSubInfo (pxCallbacks s ! c) = None
      then s\<lparr>pxCallbacks := (pxCallbacks s)[c := \<lparr>pxIncomingPublishCallback = cb, pvIncomingPublishCallbackContext = ctx,
                                              xTaskHandle = Some me, pxSubInfo = Some t\<rparr>],
             pulSubCbCount := (pulSubCbCount s)[t := pulSubCbCount s ! t + 1],
             uxCallbackCount := uxCallbackCount s + 1\<rparr>
      else s)"

text \<open>The critical section: the status, the target subscription and the new tables.\<close>

definition subscribe_section ::
  "bool \<Rightarrow> task \<Rightarrow> string \<Rightarrow> nat \<Rightarrow> MQTTQoS_t \<Rightarrow> nat option \<Rightarrow> nat \<Rightarrow> SubMgrCtx_t \<Rightarrow> (MQTTStatus_t \<times> nat \<times> SubMgrCtx_t) option" where
  "subscribe_section mem me pc len q cb ctx s =
     do { (t, st1, q', acks) \<leftarrow> find_subscription pc (pxSubscriptions s) 0
            (MQTT_AGENT_MAX_SUBSCRIPTIONS, MQTTNoMemory, q, pxSubAckStatus s);
          let s1 = s\<lparr>pxSubAckStatus := acks\<rparr>;
          (if st1 = MQTTSuccess
           then let (c, st2) = find_callback (\<lambda>c. prvMatchCbCtx me c (Some t) cb ctx) (pxCallbacks s1) 0
                      (MQTT_AGENT_MAX_CALLBACKS, MQTTNoMemory) in
                if st2 = MQTTSuccess
                then let (st3, s2) = populate_subscription mem pc len t q' s1 in
                     Some (st3, t, if st3 = MQTTSuccess then populate_callback me cb ctx t c s2 else s2)
                else Some (st2, t, s1)
           else Some (st1, t, s1)) }"

definition MqttAgent_SubscribeSync ::
  "bool \<Rightarrow> MQTTSubscribeInfo_t agent_request \<Rightarrow> task \<Rightarrow> bool \<Rightarrow> string option \<Rightarrow> MQTTQoS_t \<Rightarrow> nat option \<Rightarrow> nat \<Rightarrow>
   SubMgrCtx_t \<Rightarrow> (MQTTStatus_t \<times> SubMgrCtx_t) option" where
  "MqttAgent_SubscribeSync mem req me xHandle pcTopicFilter xRequestedQoS pxCallback pvCallbackCtx s =
     (let bad = (\<not> xHandle \<or> pcTopicFilter = None \<or> pxCallback = None \<or> \<not> prvValidateQoS xRequestedQoS);
          len = (if bad then 0 else strnlen (the pcTopicFilter) UINT16_MAX) in
      if bad \<or> len = 0 \<or> UINT16_MAX \<le> len
      then Some (MQTTIllegalState, s)
      else do { s0 \<leftarrow> xLockSubCtx me s;
                (xStatus, t, s1) \<leftarrow> subscribe_section mem me (the pcTopicFilter) len xRequestedQoS pxCallback pvCallbackCtx s0;
                s2 \<leftarrow> xUnlockSubCtx me s1;
                Some (if xStatus = MQTTSuccess \<and> pxSubAckStatus s2 ! t = MQTTSubAckFailure
                      then (case prvSendSubRequest req (pxSubscriptions s2 ! t) (pxSubAckStatus s2 ! t) of (r, ack) \<Rightarrow>
                              (r, s2\<lparr>pxSubAckStatus := (pxSubAckStatus s2)[t := ack]\<rparr>))
                      else (xStatus, s2)) })"

subsection \<open>Unsubscribing\<close>

text \<open>The first subscription from \<open>idx\<close> on for which the test holds.\<close>

fun find_index :: "(nat \<Rightarrow> MQTTSubscribeInfo_t \<Rightarrow> bool) \<Rightarrow> MQTTSubscribeInfo_t list \<Rightarrow> nat \<Rightarrow> nat option" where
  "find_index P [] idx = None"
| "find_index P (i # is) idx = (if P idx i then Some idx else find_index P is (idx + 1))"

definition same_filter :: "string \<Rightarrow> nat \<Rightarrow> MQTTSubscribeInfo_t \<Rightarrow> bool" where
  "same_filter pc len i = (len = topicFilterLength i \<and> filter_matches i pc)"

text \<open>The first critical section: the reference count of the subscription is taken and lowered.\<close>

definition unsubscribe_count :: "string \<Rightarrow> nat \<Rightarrow> SubMgrCtx_t \<Rightarrow> MQTTStatus_t \<times> nat \<times> SubMgrCtx_t" where
  "unsubscribe_count pc len s =
     (case find_index (\<lambda>k i. same_filter pc len i) (pxSubscriptions s) 0 of
        None \<Rightarrow> (MQTTNoDataAvailable, 0, s)
      | Some k \<Rightarrow> (MQTTSuccess, pulSubCbCount s ! k,
                    if 0 < pulSubCbCount s ! k
                    then s\<lparr>pulSubCbCount := (pulSubCbCount s)[k := pulSubCbCount s ! k - 1]\<rparr> else s))"

text \<open>The removal of the callback: the first entry that matches, then the compaction.\<close>

fun remove_callback :: "(SubCallbackElement_t \<Rightarrow> bool) \<Rightarrow> SubCallbackElement_t list \<Rightarrow> SubCallbackElement_t list option" where
  "remove_callback match [] = None"
| "remove_callback match (c # cs) =
     (if match c then Some (no_cb # cs) else map_option (\<lambda>r. c # r) (remove_callback match cs))"

text \<open>The second critical section.\<close>

definition unsubscribe_remove ::
  "task \<Rightarrow> string \<Rightarrow> nat \<Rightarrow> nat option \<Rightarrow> nat \<Rightarrow> nat \<Rightarrow> MQTTStatus_t \<Rightarrow> SubMgrCtx_t \<Rightarrow> (MQTTStatus_t \<times> SubMgrCtx_t) option" where
  "unsubscribe_remove me pc len cb ctx count xStatus s =
     (let sub = find_index (\<lambda>k i. pulSubCbCount s ! k = 0 \<and> same_filter pc len i) (pxSubscriptions s) 0;
          st = (if sub \<noteq> None then MQTTSuccess else xStatus) in
      if st = MQTTSuccess
      then (case remove_callback (\<lambda>c. prvMatchCbCtx me c sub cb ctx) (pxCallbacks s) of
              None \<Rightarrow> Some (MQTTNoDataAvailable, s)
            | Some cbs \<Rightarrow>
                do { configASSERT (0 < uxCallbackCount s);
                     let (cbs', n) = prvCompressCallbackList cbs;
                     let s1 = s\<lparr>pxCallbacks := cbs', uxCallbackCount := n\<rparr>;
                     (case sub of
                        None \<Rightarrow> if count = 1 then None else Some (MQTTSuccess, s1)
                      | Some k \<Rightarrow>
                          if count = 1 \<and> pulSubCbCount s1 ! k = 0
                          then do { configASSERT (0 < uxSubscriptionCount s1);
                                    Some (MQTTSuccess,
                                      s1\<lparr>pxSubscriptions := (pxSubscriptions s1)[k := no_sub],
                                         pxSubAckStatus := (pxSubAckStatus s1)[k := MQTTSubAckFailure],
                                         uxSubscriptionCount := uxSubscriptionCount s1 - 1\<rparr>) }
                          else Some (MQTTSuccess, s1)) })
      else Some (st, s))"

definition MqttAgent_UnSubscribeSync ::
  "string agent_request \<Rightarrow> task \<Rightarrow> bool \<Rightarrow> string option \<Rightarrow> nat option \<Rightarrow> nat \<Rightarrow> SubMgrCtx_t \<Rightarrow> (MQTTStatus_t \<times> SubMgrCtx_t) option" where
  "MqttAgent_UnSubscribeSync req me xHandle pcTopicFilter pxCallback pvCallbackCtx s =
     (let bad = (\<not> xHandle \<or> pcTopicFilter = None \<or> pxCallback = None);
          len = (if bad then 0 else strnlen (the pcTopicFilter) UINT16_MAX) in
      if bad \<or> len = 0 \<or> UINT16_MAX \<le> len
      then Some (MQTTBadParameter, s)
      else do { s0 \<leftarrow> xLockSubCtx me s;
                let (st1, count, s1) = unsubscribe_count (the pcTopicFilter) len s0;
                s2 \<leftarrow> xUnlockSubCtx me s1;
                let st2 = (if st1 = MQTTSuccess \<and> count = 1 then prvSendUnsubRequest req (the pcTopicFilter) else st1);
                s3 \<leftarrow> xLockSubCtx me s2;
                (st3, s4) \<leftarrow> unsubscribe_remove me (the pcTopicFilter) len pxCallback pvCallbackCtx count st2 s3;
                s5 \<leftarrow> xUnlockSubCtx me s4;
                Some (st3, s5) })"

end
