(* ===== verification/SubSpec.thy ===== *)
theory SubSpec
  imports SubMgr
begin

text \<open>
  The properties of the subscription manager: the invariant of its tables, delivery to the callbacks
  that were subscribed, the compaction of the two tables, and where its searches go wrong.
\<close>

subsection \<open>The tables are well-formed\<close>

definition wf_sub :: "MQTTSubscribeInfo_t \<Rightarrow> bool" where
  "wf_sub i = (case pTopicFilter i of
      None \<Rightarrow> topicFilterLength i = 0
    | Some f \<Rightarrow> c_string f \<and> f \<noteq> [] \<and> topicFilterLength i = length f)"

definition wf_cb :: "MQTTSubscribeInfo_t list \<Rightarrow> SubCallbackElement_t \<Rightarrow> bool" where
  "wf_cb subs c = (case pxSubInfo c of
      None \<Rightarrow> pxIncomingPublishCallback c = None
    | Some i \<Rightarrow> i < length subs \<and> pTopicFilter (subs ! i) \<noteq> None \<and> pxIncomingPublishCallback c \<noteq> None)"

definition refs :: "SubCallbackElement_t list \<Rightarrow> nat \<Rightarrow> nat" where
  "refs cbs i = length (filter (\<lambda>c. pxSubInfo c = Some i) cbs)"

definition sub_wf :: "SubMgrCtx_t \<Rightarrow> bool" where
  "sub_wf s =
     (length (pxSubscriptions s) = 10 \<and> length (pxSubAckStatus s) = 10 \<and> length (pulSubCbCount s) = 10 \<and>
      length (pxCallbacks s) = 10 \<and> list_all wf_sub (pxSubscriptions s) \<and>
      list_all (wf_cb (pxSubscriptions s)) (pxCallbacks s) \<and>
      (\<forall>i < 10. pulSubCbCount s ! i = refs (pxCallbacks s) i) \<and>
      (\<forall>i < 10. pTopicFilter (pxSubscriptions s ! i) = None \<longrightarrow> pxSubAckStatus s ! i = MQTTSubAckFailure) \<and>
      uxCallbackCount s = length (filter (\<lambda>c. pxSubInfo c \<noteq> None) (pxCallbacks s)) \<and>
      uxSubscriptionCount s = length (filter (\<lambda>i. pTopicFilter i \<noteq> None) (pxSubscriptions s)))"

lemma sub_wfD:
  assumes "sub_wf s"
  shows "length (pxSubscriptions s) = 10" "length (pxSubAckStatus s) = 10" "length (pulSubCbCount s) = 10"
    "length (pxCallbacks s) = 10" "i < 10 \<Longrightarrow> wf_sub (pxSubscriptions s ! i)"
    "c \<in> set (pxCallbacks s) \<Longrightarrow> wf_cb (pxSubscriptions s) c"
    "i < 10 \<Longrightarrow> pulSubCbCount s ! i = refs (pxCallbacks s) i"
    "i < 10 \<Longrightarrow> pTopicFilter (pxSubscriptions s ! i) = None \<Longrightarrow> pxSubAckStatus s ! i = MQTTSubAckFailure"
  using assms by (auto simp: sub_wf_def list_all_iff)

lemma no_sub_simps [simp]:
  "pTopicFilter no_sub = None" "topicFilterLength no_sub = 0" "qos no_sub = 0" "wf_sub no_sub"
  by (simp_all add: no_sub_def wf_sub_def)

lemma no_cb_simps [simp]: "pxSubInfo no_cb = None" "pxIncomingPublishCallback no_cb = None" "wf_cb subs no_cb"
  by (simp_all add: no_cb_def wf_cb_def)

lemma sub_wf_reset: "sub_wf (prvSubscriptionManagerCtxReset s)"
  by (simp add: sub_wf_def prvSubscriptionManagerCtxReset_def refs_def list_all_iff)

lemma owner_wf [simp]: "sub_wf (s\<lparr>owner := w\<rparr>) = sub_wf s"
  by (simp add: sub_wf_def)

subsection \<open>The searches\<close>

lemma find_subscription_result:
  assumes "find_subscription pc is idx (target, st, q, acks) = Some (t, st', q', acks')"
  shows "length acks' = length acks \<and> (\<forall>j. acks' ! j = acks ! j \<or> j < length acks \<and> acks' ! j = MQTTSubAckFailure) \<and>
    (t = target \<and> st' = st \<or>
     (\<exists>k < length is. t = idx + k \<and> st' = MQTTSuccess \<and> (pTopicFilter (is ! k) = None \<or> filter_matches (is ! k) pc)))"
  using assms
proof (induction "is" arbitrary: idx target st q acks)
  case (Cons i "is")
  show ?case
  proof (cases "pTopicFilter i = None \<and> target = 10")
    case True
    with Cons.prems have "find_subscription pc is (idx + 1) (idx, MQTTSuccess, q, acks[idx := MQTTSubAckFailure]) =
        Some (t, st', q', acks')"
      by (auto simp: configASSERT_def split: if_splits)
    note IH = Cons.IH [OF this]
    from IH have a: "length acks' = length acks"
      "\<forall>j. acks' ! j = acks ! j \<or> j < length acks \<and> acks' ! j = MQTTSubAckFailure"
      by (auto simp: nth_list_update split: if_splits) (metis list_update_beyond not_le nth_list_update_eq nth_list_update_neq)+
    from IH have "t = idx \<and> st' = MQTTSuccess \<or> (\<exists>k < length is. t = idx + 1 + k \<and> st' = MQTTSuccess \<and>
        (pTopicFilter (is ! k) = None \<or> filter_matches (is ! k) pc))"
      by blast
    then show ?thesis
    proof
      assume "t = idx \<and> st' = MQTTSuccess"
      with a True show ?thesis by (auto intro!: exI [of _ 0])
    next
      assume "\<exists>k < length is. t = idx + 1 + k \<and> st' = MQTTSuccess \<and> (pTopicFilter (is ! k) = None \<or> filter_matches (is ! k) pc)"
      then obtain k where "k < length is" "t = idx + 1 + k" "st' = MQTTSuccess"
        "pTopicFilter (is ! k) = None \<or> filter_matches (is ! k) pc" by blast
      with a show ?thesis by (auto intro!: exI [of _ "Suc k"])
    qed
  next
    case False
    show ?thesis
    proof (cases "filter_matches i pc")
      case True
      with False Cons.prems show ?thesis
        by (auto simp: Let_def nth_list_update split: if_splits intro!: exI [of _ 0])
           (metis list_update_beyond not_le nth_list_update_eq nth_list_update_neq)+
    next
      case nm: False
      with False Cons.prems have "find_subscription pc is (idx + 1) (target, st, q, acks) = Some (t, st', q', acks')"
        by (auto split: if_splits)
      from Cons.IH [OF this] show ?thesis
      proof (elim conjE disjE exE)
        fix k assume "k < length is" "t = idx + 1 + k" "st' = MQTTSuccess" "pTopicFilter (is ! k) = None"
          "length acks' = length acks" "\<forall>j. acks' ! j = acks ! j \<or> j < length acks \<and> acks' ! j = MQTTSubAckFailure"
        then show ?thesis by (auto intro!: exI [of _ "Suc k"])
      next
        fix k assume "k < length is" "t = idx + 1 + k" "st' = MQTTSuccess" "filter_matches (is ! k) pc"
          "length acks' = length acks" "\<forall>j. acks' ! j = acks ! j \<or> j < length acks \<and> acks' ! j = MQTTSubAckFailure"
        then show ?thesis by (auto intro!: exI [of _ "Suc k"])
      qed auto
    qed
  qed
qed simp

lemma find_callback_result:
  assumes "find_callback match cs idx (target, st) = (c, MQTTSuccess)" "st \<noteq> MQTTSuccess \<or> target < idx \<and> P target"
    and "\<And>k. k < length cs \<Longrightarrow> pxSubInfo (cs ! k) = None \<or> match (cs ! k) \<Longrightarrow> P (idx + k)"
  shows "P c"
  using assms
proof (induction cs arbitrary: idx target st)
  case (Cons x cs)
  have hd: "pxSubInfo x = None \<or> match x \<Longrightarrow> P idx" using Cons.prems(3) [of 0] by simp
  have tl: "\<And>k. k < length cs \<Longrightarrow> pxSubInfo (cs ! k) = None \<or> match (cs ! k) \<Longrightarrow> P (idx + 1 + k)"
    using Cons.prems(3) [of "Suc _"] by auto
  show ?case
  proof (cases "target = 10 \<and> pxSubInfo x = None")
    case True
    with Cons.prems(1) have "find_callback match cs (idx + 1) (idx, MQTTSuccess) = (c, MQTTSuccess)" by simp
    from Cons.IH [OF this _ tl] True hd show ?thesis by simp
  next
    case False
    show ?thesis
    proof (cases "match x")
      case True
      with False Cons.prems(1) hd show ?thesis by auto
    next
      case nm: False
      with False Cons.prems(1) have "find_callback match cs (idx + 1) (target, st) = (c, MQTTSuccess)"
        by (auto split: if_splits)
      from Cons.IH [OF this _ tl] Cons.prems(2) show ?thesis by auto
    qed
  qed
qed auto


subsection \<open>Subscribing keeps the tables well-formed\<close>

lemma length_filter_update:
  "c < length xs \<Longrightarrow> length (filter P (xs[c := x])) + (if P (xs ! c) then 1 else 0) =
     length (filter P xs) + (if P x then 1 else 0)"
proof (induction xs arbitrary: c)
  case (Cons y ys)
  then show ?case by (cases c) auto
qed simp

lemma list_all_update: "list_all P xs \<Longrightarrow> P x \<Longrightarrow> list_all P (xs[c := x])"
  by (auto simp: list_all_iff dest!: subsetD [OF set_update_subset_insert])

lemma filter_matches_prefix:
  assumes "wf_sub i" "pTopicFilter i = Some g" "c_string pc"
  shows "filter_matches i pc \<longleftrightarrow> (\<exists>r. pc = g @ r)"
proof -
  have g: "c_string g" "topicFilterLength i = length g" using assms by (simp_all add: wf_sub_def)
  have "filter_matches i pc \<longleftrightarrow> strncmp_eq pc g (length g)"
    using assms(2) g(2) by (auto simp: filter_matches_def strncmp_eq_def)
  with strncmp_eq_prefix [OF assms(3) g(1)] show ?thesis by simp
qed

lemma wf_cb_update:
  assumes "wf_cb subs c" "pTopicFilter x = None \<Longrightarrow> t < length subs \<Longrightarrow> pTopicFilter (subs ! t) = None"
  shows "wf_cb (subs[t := x]) c"
proof (cases "pxSubInfo c")
  case (Some a)
  with assms show ?thesis by (cases "a = t"; cases "pTopicFilter x") (auto simp: wf_cb_def)
qed (use assms(1) in \<open>simp add: wf_cb_def\<close>)

text \<open>Changing one entry of the subscription table, with a filter that was there or is new.\<close>

lemma wf_update_sub:
  assumes "sub_wf s" "t < 10" "wf_sub x" "pTopicFilter x \<noteq> None"
    and "n = uxSubscriptionCount s + (if pTopicFilter (pxSubscriptions s ! t) = None then 1 else 0)"
  shows "sub_wf (s\<lparr>pxSubscriptions := (pxSubscriptions s)[t := x], uxSubscriptionCount := n\<rparr>)"
proof -
  note W = sub_wfD [OF assms(1)]
  let ?subs = "(pxSubscriptions s)[t := x]"
  have cb: "list_all (wf_cb ?subs) (pxCallbacks s)"
    using W(6) assms(4) by (auto simp: list_all_iff intro: wf_cb_update)
  have "list_all wf_sub ?subs" using assms(1,3) by (auto simp: sub_wf_def intro: list_all_update)
  moreover have "n = length (filter (\<lambda>i. pTopicFilter i \<noteq> None) ?subs)"
    using length_filter_update [of t "pxSubscriptions s" "\<lambda>i. pTopicFilter i \<noteq> None" x] assms W(1)
    by (auto simp: sub_wf_def split: if_splits)
  ultimately show ?thesis
    using assms(1,2,4) cb W(1) by (auto simp: sub_wf_def nth_list_update)
qed

lemma wf_update_ack:
  assumes "sub_wf s" "length acks = 10"
    and "\<forall>j. acks ! j = pxSubAckStatus s ! j \<or> acks ! j = MQTTSubAckFailure"
  shows "sub_wf (s\<lparr>pxSubAckStatus := acks\<rparr>)"
proof -
  have "acks ! i = MQTTSubAckFailure" if "i < 10" "pTopicFilter (pxSubscriptions s ! i) = None" for i
    using assms(3) sub_wfD(8) [OF assms(1) that] by metis
  with assms(1,2) show ?thesis by (simp add: sub_wf_def)
qed

lemma populate_subscription_wf:
  assumes "sub_wf s" "t < 10" "c_string pc" "pc \<noteq> []" "populate_subscription mem pc (length pc) t q s = (st, s')"
  shows "sub_wf s' \<and> owner s' = owner s \<and> pxCallbacks s' = pxCallbacks s \<and>
    (st = MQTTSuccess \<longrightarrow> pTopicFilter (pxSubscriptions s' ! t) =
       (case pTopicFilter (pxSubscriptions s ! t) of None \<Rightarrow> Some pc | Some f \<Rightarrow> Some f))"
proof -
  note W = sub_wfD [OF assms(1)]
  let ?i = "pxSubscriptions s ! t"
  have upd: "s\<lparr>pxSubscriptions := (pxSubscriptions s)[t := x], uxSubscriptionCount := uxSubscriptionCount s\<rparr> =
      s\<lparr>pxSubscriptions := (pxSubscriptions s)[t := x]\<rparr>" for x by (cases s) simp
  have q: "wf_sub (?i\<lparr>qos := q\<rparr>)" using W(5) [OF assms(2)] by (simp add: wf_sub_def split: option.splits)
  show ?thesis
  proof (cases "pTopicFilter ?i")
    case (Some f)
    have "sub_wf (s\<lparr>pxSubscriptions := (pxSubscriptions s)[t := ?i\<lparr>qos := q\<rparr>]\<rparr>)"
      using wf_update_sub [OF assms(1,2) q] Some upd by simp
    with assms(1,2,5) Some W(1) show ?thesis
      by (auto simp: populate_subscription_def split: if_splits)
  next
    case None
    have ack: "pxSubAckStatus s ! t = MQTTSubAckFailure" using W(8) [OF assms(2) None] .
    show ?thesis
    proof (cases mem)
      case True
      let ?x = "\<lparr>qos = q, pTopicFilter = Some pc, topicFilterLength = length pc\<rparr>"
      have "wf_sub ?x" using assms(3,4) by (simp add: wf_sub_def)
      from wf_update_sub [OF assms(1,2) this] None
      have "sub_wf (s\<lparr>pxSubscriptions := (pxSubscriptions s)[t := ?x], uxSubscriptionCount := uxSubscriptionCount s + 1\<rparr>)"
        by simp
      with assms(2,5) None True ack W(1) show ?thesis by (auto simp: populate_subscription_def)
    next
      case False
      have "length (filter (\<lambda>i. pTopicFilter i \<noteq> None) ((pxSubscriptions s)[t := ?i\<lparr>qos := q\<rparr>])) =
          length (filter (\<lambda>i. pTopicFilter i \<noteq> None) (pxSubscriptions s))"
        using length_filter_update [of t "pxSubscriptions s" "\<lambda>i. pTopicFilter i \<noteq> None" "?i\<lparr>qos := q\<rparr>"] None assms(2) W(1)
        by simp
      moreover have "list_all (wf_cb ((pxSubscriptions s)[t := ?i\<lparr>qos := q\<rparr>])) (pxCallbacks s)"
        using W(6) None by (auto simp: list_all_iff intro: wf_cb_update)
      moreover have "list_all wf_sub ((pxSubscriptions s)[t := ?i\<lparr>qos := q\<rparr>])"
        using assms(1) q by (auto simp: sub_wf_def intro: list_all_update)
      ultimately have "sub_wf (s\<lparr>pxSubscriptions := (pxSubscriptions s)[t := ?i\<lparr>qos := q\<rparr>]\<rparr>)"
        using assms(1,2) None W(1,8) by (auto simp: sub_wf_def nth_list_update split: if_splits)
      with assms(5) None False ack show ?thesis by (auto simp: populate_subscription_def)
    qed
  qed
qed

lemma populate_callback_wf:
  assumes "sub_wf s" "t < 10" "c < 10" "cb \<noteq> None" "pTopicFilter (pxSubscriptions s ! t) \<noteq> None"
  shows "sub_wf (populate_callback me cb ctx t c s)"
proof (cases "pxSubInfo (pxCallbacks s ! c) = None")
  case True
  note W = sub_wfD [OF assms(1)]
  let ?x = "\<lparr>pxIncomingPublishCallback = cb, pvIncomingPublishCallbackContext = ctx, xTaskHandle = Some me, pxSubInfo = Some t\<rparr>"
  have r: "refs ((pxCallbacks s)[c := ?x]) i = refs (pxCallbacks s) i + (if i = t then 1 else 0)" for i
    using length_filter_update [of c "pxCallbacks s" "\<lambda>c. pxSubInfo c = Some i" ?x] True assms(3) W(4)
    by (auto simp: refs_def split: if_splits)
  have "list_all (wf_cb (pxSubscriptions s)) ((pxCallbacks s)[c := ?x])"
    using assms W(1) by (auto simp: sub_wf_def wf_cb_def intro!: list_all_update)
  moreover have "length (filter (\<lambda>c. pxSubInfo c \<noteq> None) ((pxCallbacks s)[c := ?x])) = uxCallbackCount s + 1"
    using length_filter_update [of c "pxCallbacks s" "\<lambda>c. pxSubInfo c \<noteq> None" ?x] True assms(1,3) W(4)
    by (auto simp: sub_wf_def)
  ultimately show ?thesis
    using assms(1,2) True r W(3,7) by (auto simp: sub_wf_def populate_callback_def nth_list_update)
qed (use assms(1) in \<open>auto simp: populate_callback_def\<close>)


lemma find_subscription_returns:
  assumes "list_all wf_sub is"
  shows "\<exists>t st' q' acks'. find_subscription pc is idx (target, st, q, acks) = Some (t, st', q', acks')"
  using assms
proof (induction "is" arbitrary: idx target st q acks)
  case (Cons i "is")
  from Cons.prems have "pTopicFilter i = None \<longrightarrow> topicFilterLength i = 0" "list_all wf_sub is"
    by (auto simp: wf_sub_def [of i])
  with Cons.IH show ?case by (auto simp: Let_def)
qed simp

text \<open>No stored filter is a proper prefix of the given one.\<close>

definition no_prefix :: "string \<Rightarrow> SubMgrCtx_t \<Rightarrow> bool" where
  "no_prefix f s = list_all (\<lambda>i. case pTopicFilter i of None \<Rightarrow> True | Some g \<Rightarrow> take (length g) f = g \<longrightarrow> g = f) (pxSubscriptions s)"

definition registered :: "string \<Rightarrow> nat option \<Rightarrow> nat \<Rightarrow> SubMgrCtx_t \<Rightarrow> bool" where
  "registered f cb ctx s = list_ex (\<lambda>c. pxIncomingPublishCallback c = cb \<and> pvIncomingPublishCallbackContext c = ctx \<and>
     (case pxSubInfo c of None \<Rightarrow> False | Some t \<Rightarrow> pTopicFilter (pxSubscriptions s ! t) = Some f)) (pxCallbacks s)"

lemma registered_cong:
  "pxCallbacks s' = pxCallbacks s \<Longrightarrow> pxSubscriptions s' = pxSubscriptions s \<Longrightarrow> registered f cb ctx s' = registered f cb ctx s"
  unfolding registered_def by (simp only:)

lemma populate_callback_registers:
  assumes "c < length (pxCallbacks s)" "pTopicFilter (pxSubscriptions s ! t) = Some f"
    and "pxSubInfo (pxCallbacks s ! c) = None \<or> prvMatchCbCtx me (pxCallbacks s ! c) (Some t) cb ctx"
  shows "registered f cb ctx (populate_callback me cb ctx t c s)"
proof -
  let ?s = "populate_callback me cb ctx t c s"
  have "pxCallbacks ?s ! c \<in> set (pxCallbacks ?s)" using assms(1) by (simp add: populate_callback_def)
  then show ?thesis
    using assms by (auto simp: registered_def list_ex_iff populate_callback_def prvMatchCbCtx_def set_update_memI intro!: bexI [of _ "pxCallbacks ?s ! c"])
qed

lemma subscribe_section_ok:
  assumes "sub_wf s" "c_string f" "f \<noteq> []" "cb \<noteq> None"
  obtains st t s' where "subscribe_section mem me f (length f) q cb ctx s = Some (st, t, s')" "sub_wf s'" "owner s' = owner s"
    "st = MQTTSuccess \<Longrightarrow> t < 10 \<and> pTopicFilter (pxSubscriptions s' ! t) \<noteq> None \<and>
       (no_prefix f s \<longrightarrow> registered f cb ctx s')"
proof -
  note W = sub_wfD [OF assms(1)]
  obtain t st1 q' acks where F: "find_subscription f (pxSubscriptions s) 0 (10, MQTTNoMemory, q, pxSubAckStatus s) =
      Some (t, st1, q', acks)"
    using find_subscription_returns [of "pxSubscriptions s"] assms(1) unfolding sub_wf_def by blast
  note R = find_subscription_result [OF F]
  let ?s1 = "s\<lparr>pxSubAckStatus := acks\<rparr>"
  have w1: "sub_wf ?s1" using R W(2) by (intro wf_update_ack [OF assms(1)]) auto
  obtain c st2 where C: "find_callback (\<lambda>c. prvMatchCbCtx me c (Some t) cb ctx) (pxCallbacks s) 0 (10, MQTTNoMemory) = (c, st2)"
    by fastforce
  obtain st3 s2 where P: "populate_subscription mem f (length f) t q' ?s1 = (st3, s2)" by fastforce
  show ?thesis
  proof (cases "st1 = MQTTSuccess \<and> st2 = MQTTSuccess")
    case False
    have "subscribe_section mem me f (length f) q cb ctx s = Some (if st1 = MQTTSuccess then st2 else st1, t, ?s1)"
      using F C False by (auto simp: subscribe_section_def)
    with w1 that False show ?thesis by (auto split: if_splits)
  next
    case True
    with R W(1) have t: "t < 10" "pTopicFilter (pxSubscriptions s ! t) = None \<or> filter_matches (pxSubscriptions s ! t) f"
      by auto
    note Q = populate_subscription_wf [OF w1 t(1) assms(2,3) P]
    have c: "c < 10 \<and> (pxSubInfo (pxCallbacks s ! c) = None \<or> prvMatchCbCtx me (pxCallbacks s ! c) (Some t) cb ctx)"
      using find_callback_result [of "\<lambda>c. prvMatchCbCtx me c (Some t) cb ctx" "pxCallbacks s" 0 10 MQTTNoMemory c
          "\<lambda>c. c < 10 \<and> (pxSubInfo (pxCallbacks s ! c) = None \<or> prvMatchCbCtx me (pxCallbacks s ! c) (Some t) cb ctx)"]
        C True W(4) by simp
    have eq: "subscribe_section mem me f (length f) q cb ctx s =
        Some (st3, t, if st3 = MQTTSuccess then populate_callback me cb ctx t c s2 else s2)"
      using F C P True by (simp add: subscribe_section_def Let_def)
    show ?thesis
    proof (cases "st3 = MQTTSuccess")
      case False
      with eq Q that show ?thesis by auto
    next
      case ok: True
      with Q have f: "pTopicFilter (pxSubscriptions s2 ! t) \<noteq> None" by (auto split: option.splits)
      have "registered f cb ctx (populate_callback me cb ctx t c s2)" if n: "no_prefix f s"
      proof (rule populate_callback_registers)
        show "pTopicFilter (pxSubscriptions s2 ! t) = Some f"
        proof (cases "pTopicFilter (pxSubscriptions s ! t)")
          case (Some g)
          with t filter_matches_prefix [OF W(5) [OF t(1)] Some assms(2)] have "take (length g) f = g" by auto
          with n Some t(1) W(1) have "g = f" by (auto simp: no_prefix_def list_all_length)
          with Q ok Some show ?thesis by simp
        qed (use Q ok in simp)
      qed (use c Q W(4) in auto)
      moreover have "sub_wf (populate_callback me cb ctx t c s2)" using populate_callback_wf Q t(1) c assms(4) f by blast
      moreover have "owner (populate_callback me cb ctx t c s2) = owner s" using Q by (simp add: populate_callback_def)
      moreover have "pxSubscriptions (populate_callback me cb ctx t c s2) = pxSubscriptions s2" by (simp add: populate_callback_def)
      ultimately show ?thesis using that [OF eq] f t(1) ok by simp
    qed
  qed
qed

lemma registered_called:
  assumes "registered f cb ctx s" "sub_wf s" "owner s = None" "mt topic f"
  shows "\<exists>calls. prvIncomingPublishCallback mt me topic s = Some (calls, s) \<and> (cb, ctx) \<in> set calls"
proof -
  from assms(1) obtain c t where c: "c \<in> set (pxCallbacks s)" "pxIncomingPublishCallback c = cb"
    "pvIncomingPublishCallbackContext c = ctx" "pxSubInfo c = Some t" "pTopicFilter (pxSubscriptions s ! t) = Some f"
    by (auto simp: registered_def list_ex_iff split: option.splits)
  then have "t < 10" using sub_wfD(1) [OF assms(2)] sub_wfD(6) [OF assms(2) c(1)] by (simp add: wf_cb_def)
  from sub_wfD(5) [OF assms(2) this] c(5) have "topicFilterLength (pxSubscriptions s ! t) = length f" by (simp add: wf_sub_def)
  with c assms(4) have "(case pxSubInfo c of None \<Rightarrow> False | Some i \<Rightarrow> prvMatchTopic mt (pxSubscriptions s ! i) topic)"
    by (simp add: prvMatchTopic_def)
  moreover have "s\<lparr>owner := None\<rparr> = s" using assms(3) by (cases s) simp
  ultimately show ?thesis
    using c assms(3) by (auto simp: prvIncomingPublishCallback_def xLockSubCtx_def xUnlockSubCtx_def Let_def image_iff intro!: bexI [of _ c])
qed

text \<open>The whole call of \<open>MqttAgent_SubscribeSync\<close> on well-formed tables.\<close>

lemma subscribe_sync_ok:
  assumes "sub_wf s" "owner s = None" "c_string f" "f \<noteq> []" "length f < UINT16_MAX" "prvValidateQoS q"
  obtains st s' where "MqttAgent_SubscribeSync mem req me True (Some f) q (Some cb) ctx s = Some (st, s')"
    "sub_wf s'" "owner s' = None" "st = MQTTSuccess \<Longrightarrow> no_prefix f s \<Longrightarrow> registered f (Some cb) ctx s'"
proof -
  let ?s0 = "s\<lparr>owner := Some me\<rparr>"
  have n: "no_prefix f ?s0 \<longleftrightarrow> no_prefix f s" by (simp add: no_prefix_def)
  obtain st t s1 where S: "subscribe_section mem me f (length f) q (Some cb) ctx ?s0 = Some (st, t, s1)" "sub_wf s1" "owner s1 = Some me"
    "st = MQTTSuccess \<Longrightarrow> t < 10 \<and> pTopicFilter (pxSubscriptions s1 ! t) \<noteq> None \<and> (no_prefix f s \<longrightarrow> registered f (Some cb) ctx s1)"
    using subscribe_section_ok [of ?s0 f "Some cb" mem me q ctx] assms n by auto
  let ?s2 = "s1\<lparr>owner := None\<rparr>"
  obtain r ack where req: "prvSendSubRequest req (pxSubscriptions s1 ! t) (pxSubAckStatus s1 ! t) = (r, ack)" by fastforce
  let ?s3 = "if st = MQTTSuccess \<and> pxSubAckStatus s1 ! t = MQTTSubAckFailure
             then ?s2\<lparr>pxSubAckStatus := (pxSubAckStatus s1)[t := ack]\<rparr> else ?s2"
  have len: "strnlen f UINT16_MAX = length f" using assms(3,5) by (simp add: strnlen_def strlen_def)
  have "\<exists>r'. MqttAgent_SubscribeSync mem req me True (Some f) q (Some cb) ctx s = Some (r', ?s3) \<and> (r' = MQTTSuccess \<longrightarrow> st = MQTTSuccess)"
    using S assms len req by (auto simp: MqttAgent_SubscribeSync_def Let_def xLockSubCtx_def xUnlockSubCtx_def)
  then obtain r' where eq: "MqttAgent_SubscribeSync mem req me True (Some f) q (Some cb) ctx s = Some (r', ?s3)" "r' = MQTTSuccess \<longrightarrow> st = MQTTSuccess"
    by blast
  have "sub_wf ?s3" "owner ?s3 = None" using S(2,4) by (auto simp: sub_wf_def nth_list_update)
  moreover have "registered f (Some cb) ctx ?s3 = registered f (Some cb) ctx s1" by (rule registered_cong) simp_all
  ultimately show ?thesis using that [OF eq(1)] eq(2) S(4) by blast
qed



subsection \<open>Compaction\<close>

interpretation st: slot_table "\<lambda>i. pTopicFilter i = None \<and> topicFilterLength i = 0" "\<lambda>i. topicFilterLength i \<noteq> 0"
  "\<lambda>i. pTopicFilter i \<noteq> None \<and> topicFilterLength i \<noteq> 0" no_sub wf_sub
  by unfold_locales (auto simp: wf_sub_def split: option.splits)

interpretation ct: slot_table "\<lambda>c. pxSubInfo c = None" "\<lambda>c. pxSubInfo c \<noteq> None" "\<lambda>c. pxSubInfo c \<noteq> None" no_cb
  "\<lambda>c. pxSubInfo c = None \<longrightarrow> pxIncomingPublishCallback c = None"
  by unfold_locales auto

lemma update_refs_follow:
  "fold (\<lambda>(old, new) c. prvUpdateCallbackRefs c old new) mv cbs =
     map (\<lambda>c. c\<lparr>pxSubInfo := map_option (follow mv) (pxSubInfo c)\<rparr>) cbs"
proof (induction mv rule: rev_induct)
  case Nil
  show ?case by (simp add: option.map_ident)
next
  case (snoc m mv)
  obtain old new where m: "m = (old, new)" by fastforce
  have "fold (\<lambda>(old, new) c. prvUpdateCallbackRefs c old new) (mv @ [m]) cbs =
      prvUpdateCallbackRefs (map (\<lambda>c. c\<lparr>pxSubInfo := map_option (follow mv) (pxSubInfo c)\<rparr>) cbs) old new"
    by (simp add: m snoc.IH)
  also have "\<dots> = map (\<lambda>c. c\<lparr>pxSubInfo := map_option (follow (mv @ [m])) (pxSubInfo c)\<rparr>) cbs"
  proof -
    have "c\<lparr>pxSubInfo := map_option (follow (mv @ [m])) (pxSubInfo c)\<rparr> =
        (let c' = c\<lparr>pxSubInfo := map_option (follow mv) (pxSubInfo c)\<rparr> in
         if pxSubInfo c' = Some old then c'\<lparr>pxSubInfo := Some new\<rparr> else c')" for c
      by (cases "pxSubInfo c") (simp_all add: m)
    from this [symmetric, unfolded Let_def] show ?thesis
      unfolding prvUpdateCallbackRefs_def map_map o_def by (intro map_cong refl)
  qed
  finally show ?case .
qed

lemma wf_sub_full:
  "list_all wf_sub subs \<Longrightarrow> filter (\<lambda>i. pTopicFilter i \<noteq> None \<and> topicFilterLength i \<noteq> 0) subs = filter (\<lambda>i. pTopicFilter i \<noteq> None) subs"
  by (rule filter_cong) (auto simp: list_all_iff wf_sub_def split: option.splits)

lemma wf_sub_vacant: "wf_sub i \<Longrightarrow> pTopicFilter i = None \<and> topicFilterLength i = 0 \<longleftrightarrow> pTopicFilter i = None"
  by (auto simp: wf_sub_def split: option.splits)

definition calls_of :: "match_topic \<Rightarrow> string \<Rightarrow> MQTTSubscribeInfo_t list \<Rightarrow> SubCallbackElement_t list \<Rightarrow> (nat option \<times> nat) list" where
  "calls_of mt topic subs cbs = map (\<lambda>c. (pxIncomingPublishCallback c, pvIncomingPublishCallbackContext c))
     (filter (\<lambda>c. case pxSubInfo c of None \<Rightarrow> False | Some i \<Rightarrow> prvMatchTopic mt (subs ! i) topic) cbs)"

lemma publish_calls:
  "owner s = None \<Longrightarrow> prvIncomingPublishCallback mt me topic s = Some (calls_of mt topic (pxSubscriptions s) (pxCallbacks s), s)"
  by (cases s) (simp add: prvIncomingPublishCallback_def xLockSubCtx_def xUnlockSubCtx_def calls_of_def cong: option.case_cong)

lemma calls_of_map:
  assumes "\<forall>c \<in> set cbs. \<forall>i. pxSubInfo c = Some i \<longrightarrow> subs' ! g i = subs ! i"
  shows "calls_of mt topic subs' (map (\<lambda>c. c\<lparr>pxSubInfo := map_option g (pxSubInfo c)\<rparr>) cbs) = calls_of mt topic subs cbs"
  using assms by (induction cbs) (auto simp: calls_of_def split: option.splits)


text \<open>The callback table after an entry was cleared.\<close>

lemma compress_callbacks:
  assumes "\<forall>c \<in> set cbs. pxSubInfo c = None \<longrightarrow> pxIncomingPublishCallback c = None" "prvCompressCallbackList cbs = (cbs', n)"
  shows "\<forall>c \<in> set cbs'. pxSubInfo c = None \<longrightarrow> pxIncomingPublishCallback c = None"
    and "length cbs' = length cbs" "n = length (filter (\<lambda>c. pxSubInfo c \<noteq> None) cbs)"
    "\<exists>zs. cbs' = filter (\<lambda>c. pxSubInfo c \<noteq> None) cbs @ zs \<and> (\<forall>z \<in> set zs. pxSubInfo z = None)"
proof -
  obtain lo mv where C: "compress_table (\<lambda>c. pxSubInfo c = None) (\<lambda>c. pxSubInfo c \<noteq> None) (\<lambda>c. pxSubInfo c \<noteq> None) no_cb cbs = (cbs', lo, n, mv)"
    using assms(2) by (auto simp: prvCompressCallbackList_def split: prod.splits)
  note R = ct.compress_correct [OF assms(1) C]
  show "\<forall>c \<in> set cbs'. pxSubInfo c = None \<longrightarrow> pxIncomingPublishCallback c = None" "length cbs' = length cbs" "n = length (filter (\<lambda>c. pxSubInfo c \<noteq> None) cbs)"
    "\<exists>zs. cbs' = filter (\<lambda>c. pxSubInfo c \<noteq> None) cbs @ zs \<and> (\<forall>z \<in> set zs. pxSubInfo z = None)"
    using R by auto
qed


subsection \<open>Unsubscribing\<close>

definition only_sub :: "string \<Rightarrow> nat \<Rightarrow> SubMgrCtx_t \<Rightarrow> bool" where
  "only_sub f k s = (k < 10 \<and> list_all (\<lambda>j. (pTopicFilter (pxSubscriptions s ! j) = Some f) = (j = k)) [0..<10])"

lemma same_filter_wf:
  assumes "wf_sub i" "c_string f" "f \<noteq> []"
  shows "same_filter f (length f) i \<longleftrightarrow> pTopicFilter i = Some f"
proof (cases "pTopicFilter i")
  case None
  with assms show ?thesis by (simp add: same_filter_def wf_sub_def)
next
  case (Some g)
  with assms filter_matches_prefix [OF assms(1) Some assms(2)] show ?thesis
    by (auto simp: same_filter_def wf_sub_def)
qed

lemma find_index_none:
  "(\<And>j. j < length xs \<Longrightarrow> \<not> P (idx + j) (xs ! j)) \<Longrightarrow> find_index P xs idx = None"
proof (induction xs arbitrary: idx)
  case (Cons x xs)
  have "\<not> P idx x" using Cons.prems [of 0] by simp
  moreover have "find_index P xs (Suc idx) = None"
  proof (rule Cons.IH)
    show "\<not> P (Suc idx + j) (xs ! j)" if "j < length xs" for j using Cons.prems [of "Suc j"] that by simp
  qed
  ultimately show ?case by simp
qed simp

lemma find_index_first:
  assumes "k < length xs" "\<And>j. j < k \<Longrightarrow> \<not> P (idx + j) (xs ! j)" "P (idx + k) (xs ! k)"
  shows "find_index P xs idx = Some (idx + k)"
  using assms
proof (induction xs arbitrary: idx k)
  case (Cons x xs)
  show ?case
  proof (cases k)
    case 0
    with Cons.prems(3) show ?thesis by simp
  next
    case (Suc n)
    have "find_index P xs (Suc idx) = Some (Suc idx + n)"
    proof (rule Cons.IH)
      show "\<not> P (Suc idx + j) (xs ! j)" if "j < n" for j using Cons.prems(2) [of "Suc j"] that Suc by simp
    qed (use Cons.prems Suc in simp_all)
    with Cons.prems(2) [of 0] Suc show ?thesis by simp
  qed
qed simp

lemma find_only:
  assumes "sub_wf s" "only_sub f k s" "c_string f" "f \<noteq> []"
  shows "find_index (\<lambda>j i. Q j \<and> same_filter f (length f) i) (pxSubscriptions s) 0 = (if Q k then Some k else None)"
proof -
  note W = sub_wfD [OF assms(1)]
  have u: "same_filter f (length f) (pxSubscriptions s ! j) \<longleftrightarrow> j = k" if "j < 10" for j
    using same_filter_wf [OF W(5) [OF that] assms(3,4)] assms(2) that by (simp add: only_sub_def list_all_iff)
  have k: "k < 10" using assms(2) by (simp add: only_sub_def)
  show ?thesis
  proof (cases "Q k")
    case True
    then show ?thesis using find_index_first [of k "pxSubscriptions s" "\<lambda>j i. Q j \<and> same_filter f (length f) i" 0] u k W(1) by simp
  next
    case False
    then show ?thesis using find_index_none [of "pxSubscriptions s" "\<lambda>j i. Q j \<and> same_filter f (length f) i" 0] u W(1) by auto
  qed
qed

lemma remove_callback_split:
  "\<exists>c \<in> set cbs. match c \<Longrightarrow> \<exists>as c bs. cbs = as @ c # bs \<and> match c \<and> remove_callback match cbs = Some (as @ no_cb # bs)"
proof (induction cbs)
  case (Cons x xs)
  show ?case
  proof (cases "match x")
    case True
    then show ?thesis by (intro exI [of _ "[]"]) auto
  next
    case False
    with Cons obtain as c bs where "xs = as @ c # bs" "match c" "remove_callback match xs = Some (as @ no_cb # bs)" by auto
    with False show ?thesis by (intro exI [of _ "x # as"]) auto
  qed
qed simp

lemma remove_callback_none: "remove_callback match cbs = None \<longleftrightarrow> (\<forall>c \<in> set cbs. \<not> match c)"
  by (induction cbs) auto

lemma unsubscribe_count_only:
  assumes "sub_wf s" "only_sub f k s" "c_string f" "f \<noteq> []"
  shows "unsubscribe_count f (length f) s = (MQTTSuccess, refs (pxCallbacks s) k,
     s\<lparr>pulSubCbCount := (pulSubCbCount s)[k := refs (pxCallbacks s) k - 1]\<rparr>)"
proof -
  have k: "k < 10" using assms(2) by (simp add: only_sub_def)
  note n = sub_wfD(7) [OF assms(1) k]
  have "(pulSubCbCount s)[k := 0] = pulSubCbCount s" if "pulSubCbCount s ! k = 0" by (metis list_update_id that)
  then show ?thesis using find_only [OF assms, of "\<lambda>_. True"] n by (auto simp: unsubscribe_count_def)
qed

text \<open>The call, with its first critical section done.\<close>

lemma unsubscribe_sync_only:
  assumes "sub_wf s" "owner s = None" "c_string f" "f \<noteq> []" "length f < UINT16_MAX" "only_sub f k s"
    and "r = refs (pxCallbacks s) k"
  shows "MqttAgent_UnSubscribeSync req me True (Some f) (Some cb) ctx s =
     do { (st, s') \<leftarrow> unsubscribe_remove me f (length f) (Some cb) ctx r (if r = 1 then prvSendUnsubRequest req f else MQTTSuccess)
            (s\<lparr>pulSubCbCount := (pulSubCbCount s)[k := r - 1], owner := Some me\<rparr>);
          s'' \<leftarrow> xUnlockSubCtx me s';
          Some (st, s'') }"
proof -
  have len: "strnlen f UINT16_MAX = length f" using assms(3,5) by (simp add: strnlen_def strlen_def)
  have o1: "only_sub f k (s\<lparr>owner := Some me\<rparr>)" using assms(6) by (simp add: only_sub_def)
  have cnt: "unsubscribe_count f (length f) (s\<lparr>owner := Some me\<rparr>) =
      (MQTTSuccess, r, s\<lparr>owner := Some me, pulSubCbCount := (pulSubCbCount s)[k := r - 1]\<rparr>)"
    using unsubscribe_count_only [OF _ o1 assms(3,4)] assms(1,7) by simp
  show ?thesis using assms(2,4,5) cnt len by (simp add: MqttAgent_UnSubscribeSync_def Let_def xLockSubCtx_def xUnlockSubCtx_def)
qed

text \<open>
  Unsubscribing one of several callbacks of a filter removes nothing: the callback stays
  registered and is still called, the caller gets no-data-available, and the reference count of the
  subscription is lowered, so that it no longer is the number of registered callbacks.
\<close>

lemma mqtt_unsubscribe_shared_filter:
  assumes "sub_wf s" "owner s = None" "c_string f" "f \<noteq> []" "length f < UINT16_MAX" "only_sub f k s"
    and "2 \<le> refs (pxCallbacks s) k"
  shows "\<exists>s'. MqttAgent_UnSubscribeSync req me True (Some f) (Some cb) ctx s = Some (MQTTNoDataAvailable, s') \<and>
     s' = s\<lparr>pulSubCbCount := (pulSubCbCount s)[k := refs (pxCallbacks s) k - 1]\<rparr> \<and> \<not> sub_wf s'"
proof -
  let ?r = "refs (pxCallbacks s) k"
  let ?s' = "s\<lparr>pulSubCbCount := (pulSubCbCount s)[k := ?r - 1]\<rparr>"
  note W = sub_wfD [OF assms(1)]
  have k: "k < 10" using assms(6) by (simp add: only_sub_def)
  have f2: "find_index (\<lambda>j i. (pulSubCbCount s)[k := ?r - 1] ! j = 0 \<and> same_filter f (length f) i) (pxSubscriptions s) 0 = None"
    using find_only [OF assms(1,6,3,4)] assms(7) k W(3) by simp
  have "\<not> prvMatchCbCtx me c None (Some cb) ctx" if "c \<in> set (pxCallbacks s)" for c
    using W(6) [OF that] by (auto simp: prvMatchCbCtx_def wf_cb_def)
  then have "remove_callback (\<lambda>c. prvMatchCbCtx me c None (Some cb) ctx) (pxCallbacks s) = None"
    by (simp add: remove_callback_none)
  with f2 have "unsubscribe_remove me f (length f) (Some cb) ctx ?r MQTTSuccess (?s'\<lparr>owner := Some me\<rparr>) =
      Some (MQTTNoDataAvailable, ?s'\<lparr>owner := Some me\<rparr>)"
    by (simp add: unsubscribe_remove_def)
  moreover have "?s'\<lparr>owner := None\<rparr> = ?s'" using assms(2) by (cases s) simp
  ultimately have "MqttAgent_UnSubscribeSync req me True (Some f) (Some cb) ctx s = Some (MQTTNoDataAvailable, ?s')"
    using unsubscribe_sync_only [OF assms(1-6) refl] assms(7) by (simp add: xUnlockSubCtx_def)
  moreover have "\<not> sub_wf ?s'" using sub_wfD(7) [of ?s' k] k W(3) assms(7) by auto
  ultimately show ?thesis by blast
qed

text \<open>The table of callbacks once the only callback of a subscription was removed.\<close>

lemma wf_cb_idle: "wf_cb subs c \<Longrightarrow> pxSubInfo c = None \<Longrightarrow> pxIncomingPublishCallback c = None"
  by (simp add: wf_cb_def)

lemma removed_callbacks:
  assumes "sub_wf s" "refs (pxCallbacks s) k = 1" "c \<in> set (pxCallbacks s)" "match c" "\<And>x. match x \<Longrightarrow> pxSubInfo x = Some k"
  obtains cbs n cbs' where "\<forall>c \<in> set cbs'. pxSubInfo c = None \<longrightarrow> pxIncomingPublishCallback c = None"
    "remove_callback match (pxCallbacks s) = Some cbs" "prvCompressCallbackList cbs = (cbs', n)"
    "length cbs' = 10" "n = length (filter (\<lambda>c. pxSubInfo c \<noteq> None) cbs')" "n + 1 = uxCallbackCount s"
    "filter (\<lambda>c. pxSubInfo c \<noteq> None) cbs' = filter (\<lambda>c. pxSubInfo c \<noteq> None \<and> pxSubInfo c \<noteq> Some k) (pxCallbacks s)"
proof -
  obtain as d bs where S: "pxCallbacks s = as @ d # bs" "match d" "remove_callback match (pxCallbacks s) = Some (as @ no_cb # bs)"
    using remove_callback_split [of "pxCallbacks s" match] assms(3,4) by blast
  obtain cbs' n where C: "prvCompressCallbackList (as @ no_cb # bs) = (cbs', n)" by fastforce
  have "\<forall>c \<in> set (pxCallbacks s). pxSubInfo c = None \<longrightarrow> pxIncomingPublishCallback c = None"
    using sub_wfD(6) [OF assms(1)] wf_cb_idle by blast
  then have idle: "\<forall>c \<in> set (as @ no_cb # bs). pxSubInfo c = None \<longrightarrow> pxIncomingPublishCallback c = None"
    using S(1) by auto
  note R = compress_callbacks(2-4) [OF idle C]
  have d: "pxSubInfo d = Some k" using assms(5) S(2) by blast
  have "filter (\<lambda>c. pxSubInfo c = Some k) as = []" "filter (\<lambda>c. pxSubInfo c = Some k) bs = []"
    using assms(2) S(1) d by (auto simp: refs_def)
  then have k: "filter (\<lambda>c. pxSubInfo c \<noteq> None) as = filter (\<lambda>c. pxSubInfo c \<noteq> None \<and> pxSubInfo c \<noteq> Some k) as"
    "filter (\<lambda>c. pxSubInfo c \<noteq> None) bs = filter (\<lambda>c. pxSubInfo c \<noteq> None \<and> pxSubInfo c \<noteq> Some k) bs"
    by (auto simp: filter_empty_conv intro!: filter_cong)
  have "filter (\<lambda>c. pxSubInfo c \<noteq> None) cbs' = filter (\<lambda>c. pxSubInfo c \<noteq> None) as @ filter (\<lambda>c. pxSubInfo c \<noteq> None) bs"
    using R(3) by auto
  also have "\<dots> = filter (\<lambda>c. pxSubInfo c \<noteq> None \<and> pxSubInfo c \<noteq> Some k) (pxCallbacks s)"
    unfolding k S(1) using d by simp
  finally have f: "filter (\<lambda>c. pxSubInfo c \<noteq> None) cbs' =
      filter (\<lambda>c. pxSubInfo c \<noteq> None \<and> pxSubInfo c \<noteq> Some k) (pxCallbacks s)" .
  have u: "uxCallbackCount s = length (filter (\<lambda>c. pxSubInfo c \<noteq> None) (pxCallbacks s))" using assms(1) by (simp add: sub_wf_def)
  have "n = length (filter (\<lambda>c. pxSubInfo c \<noteq> None) cbs')" "n + 1 = uxCallbackCount s"
    unfolding u using R(2,3) S(1) d by auto
  moreover have "length cbs' = 10" using R(1) S(1) sub_wfD(4) [OF assms(1)] by simp
  ultimately show ?thesis using that [OF compress_callbacks(1) [OF idle C]] S(3) C f by blast
qed

lemma refs_filter: "refs cbs i = refs (filter (\<lambda>c. pxSubInfo c \<noteq> None) cbs) i"
  unfolding refs_def filter_filter by (rule arg_cong [where f = length], rule filter_cong) auto


lemma unsubscribe_sync_removes:
  assumes "sub_wf s" "owner s = None" "c_string f" "f \<noteq> []" "length f < UINT16_MAX" "only_sub f k s"
    and "refs (pxCallbacks s) k = 1" "list_ex (\<lambda>c. prvMatchCbCtx me c (Some k) (Some cb) ctx) (pxCallbacks s)"
  shows "\<exists>s'. MqttAgent_UnSubscribeSync req me True (Some f) (Some cb) ctx s = Some (MQTTSuccess, s') \<and>
     sub_wf s' \<and> owner s' = None \<and> pxSubscriptions s' = (pxSubscriptions s)[k := no_sub] \<and>
     filter (\<lambda>c. pxSubInfo c \<noteq> None) (pxCallbacks s') =
       filter (\<lambda>c. pxSubInfo c \<noteq> None \<and> pxSubInfo c \<noteq> Some k) (pxCallbacks s)"
proof -
  note W = sub_wfD [OF assms(1)]
  let ?m = "\<lambda>c. prvMatchCbCtx me c (Some k) (Some cb) ctx"
  have k: "k < 10" "pTopicFilter (pxSubscriptions s ! k) = Some f" using assms(6) by (auto simp: only_sub_def list_all_iff)
  obtain cbs n cbs' where idle: "\<forall>c \<in> set cbs'. pxSubInfo c = None \<longrightarrow> pxIncomingPublishCallback c = None"
    and C: "remove_callback ?m (pxCallbacks s) = Some cbs" "prvCompressCallbackList cbs = (cbs', n)"
    "length cbs' = 10" "n = length (filter (\<lambda>c. pxSubInfo c \<noteq> None) cbs')" "n + 1 = uxCallbackCount s"
    "filter (\<lambda>c. pxSubInfo c \<noteq> None) cbs' = filter (\<lambda>c. pxSubInfo c \<noteq> None \<and> pxSubInfo c \<noteq> Some k) (pxCallbacks s)"
  proof -
    from assms(8) obtain c where c: "c \<in> set (pxCallbacks s)" "?m c" by (auto simp: list_ex_iff)
    show ?thesis by (rule removed_callbacks [where match = ?m, OF assms(1,7) c]) (simp add: prvMatchCbCtx_def, rule that)
  qed
  have f2: "find_index (\<lambda>j i. (pulSubCbCount s)[k := 0] ! j = 0 \<and> same_filter f (length f) i) (pxSubscriptions s) 0 = Some k"
    using find_only [OF assms(1,6,3,4)] k W(3) by simp
  let ?s' = "s\<lparr>pulSubCbCount := (pulSubCbCount s)[k := 0], owner := None, pxCallbacks := cbs', uxCallbackCount := n,
      pxSubscriptions := (pxSubscriptions s)[k := no_sub], pxSubAckStatus := (pxSubAckStatus s)[k := MQTTSubAckFailure],
      uxSubscriptionCount := uxSubscriptionCount s - 1\<rparr>"
  have len: "length (filter (\<lambda>i. pTopicFilter i \<noteq> None) ((pxSubscriptions s)[k := no_sub])) + 1 = uxSubscriptionCount s"
    using length_filter_update [of k "pxSubscriptions s" "\<lambda>i. pTopicFilter i \<noteq> None" no_sub] k W(1) assms(1)
    by (auto simp: sub_wf_def)
  have "unsubscribe_remove me f (length f) (Some cb) ctx 1 (prvSendUnsubRequest req f)
      (s\<lparr>pulSubCbCount := (pulSubCbCount s)[k := 0], owner := Some me\<rparr>) = Some (MQTTSuccess, ?s'\<lparr>owner := Some me\<rparr>)"
    using f2 C len k W(3) by (auto simp: unsubscribe_remove_def Let_def)
  then have R: "MqttAgent_UnSubscribeSync req me True (Some f) (Some cb) ctx s = Some (MQTTSuccess, ?s')"
    using unsubscribe_sync_only [OF assms(1-6) assms(7) [symmetric]] by (simp add: xUnlockSubCtx_def)
  have r: "refs cbs' i = (if i = k then 0 else refs (pxCallbacks s) i)" for i
    unfolding refs_filter [of cbs'] C(6) by (auto simp: refs_def intro!: arg_cong [where f = length] filter_cong)
  have cb: "wf_cb ((pxSubscriptions s)[k := no_sub]) c" if c: "c \<in> set cbs'" for c
  proof (cases "pxSubInfo c")
    case (Some i)
    then have "c \<in> set (filter (\<lambda>c. pxSubInfo c \<noteq> None) cbs')" using c by simp
    then have "c \<in> set (pxCallbacks s)" "i \<noteq> k" unfolding C(6) using Some by auto
    with W(6) [of c] Some show ?thesis by (simp add: wf_cb_def)
  qed (use idle c in \<open>simp add: wf_cb_def\<close>)
  have "list_all wf_sub ((pxSubscriptions s)[k := no_sub])" using assms(1) by (simp add: sub_wf_def list_all_update)
  then have "sub_wf ?s'"
    using C(3,4) r cb len assms(1) k(1) W(3) by (auto simp: sub_wf_def nth_list_update list_all_iff)
  with R C(6) show ?thesis by auto
qed



subsection \<open>What the calls leave alone\<close>

text \<open>Subscribing changes the filter of no stored subscription.\<close>

lemma subscribe_sync_filters:
  assumes "MqttAgent_SubscribeSync mem req me True (Some f) q (Some cb) ctx s = Some (st, s')" "c_string f" "length f < UINT16_MAX"
  shows "length (pxSubscriptions s') = length (pxSubscriptions s)"
    and "i < length (pxSubscriptions s) \<Longrightarrow>
      pTopicFilter (pxSubscriptions s' ! i) = pTopicFilter (pxSubscriptions s ! i) \<or> pTopicFilter (pxSubscriptions s' ! i) = Some f"
proof -
  have len: "strnlen f UINT16_MAX = length f" using assms(2,3) by (simp add: strnlen_def strlen_def)
  have pop: "length (pxSubscriptions x') = length (pxSubscriptions x) \<and> (\<forall>i < length (pxSubscriptions x).
      pTopicFilter (pxSubscriptions x' ! i) = pTopicFilter (pxSubscriptions x ! i) \<or> pTopicFilter (pxSubscriptions x' ! i) = Some f)"
    if "populate_subscription mem f (length f) t r x = (st2, x')" for t r x st2 x'
    using that by (auto simp: populate_subscription_def split: if_splits) (metis nth_list_update_eq nth_list_update_neq MQTTSubscribeInfo_t.select_convs(2) MQTTSubscribeInfo_t.surjective MQTTSubscribeInfo_t.update_convs(1))+
  have sec: "length (pxSubscriptions x') = length (pxSubscriptions x) \<and> (\<forall>i < length (pxSubscriptions x).
      pTopicFilter (pxSubscriptions x' ! i) = pTopicFilter (pxSubscriptions x ! i) \<or> pTopicFilter (pxSubscriptions x' ! i) = Some f)"
    if "subscribe_section mem me f (length f) q (Some cb) ctx x = Some (st2, t, x')" for x st2 t x'
  proof -
    have pc: "pxSubscriptions (populate_callback me (Some cb) ctx t c y) = pxSubscriptions y" for c y t
      by (simp add: populate_callback_def)
    have "\<exists>t' st1 q' acks. find_subscription f (pxSubscriptions x) 0 (10, MQTTNoMemory, q, pxSubAckStatus x) = Some (t', st1, q', acks)"
    proof (cases "find_subscription f (pxSubscriptions x) 0 (10, MQTTNoMemory, q, pxSubAckStatus x)")
      case (Some r)
      show ?thesis by (cases r) (simp add: Some)
    qed (use that in \<open>simp add: subscribe_section_def\<close>)
    then obtain t' st1 q' acks where F: "find_subscription f (pxSubscriptions x) 0 (10, MQTTNoMemory, q, pxSubAckStatus x) = Some (t', st1, q', acks)"
      by blast
    obtain c st2' where C: "find_callback (\<lambda>c. prvMatchCbCtx me c (Some t') (Some cb) ctx) (pxCallbacks x) 0 (10, MQTTNoMemory) = (c, st2')"
      by fastforce
    obtain st3 y where P: "populate_subscription mem f (length f) t' q' (x\<lparr>pxSubAckStatus := acks\<rparr>) = (st3, y)" by fastforce
    show ?thesis using that F C P pop [OF P] pc by (auto simp: subscribe_section_def Let_def split: if_splits)
  qed
  have "s' = s \<or> (\<exists>st2 t s1. subscribe_section mem me f (length f) q (Some cb) ctx (s\<lparr>owner := Some me\<rparr>) = Some (st2, t, s1) \<and>
      pxSubscriptions s' = pxSubscriptions s1)"
  proof (cases "subscribe_section mem me f (length f) q (Some cb) ctx (s\<lparr>owner := Some me\<rparr>)")
    case None
    with assms(1) len show ?thesis
      by (auto simp: MqttAgent_SubscribeSync_def Let_def xLockSubCtx_def split: if_splits)
  next
    case (Some r)
    obtain st2 t s1 where r: "r = (st2, t, s1)" by (cases r)
    obtain x ack where "prvSendSubRequest req (pxSubscriptions s1 ! t) (pxSubAckStatus s1 ! t) = (x, ack)" by fastforce
    with assms(1) len Some r show ?thesis
      by (auto simp: MqttAgent_SubscribeSync_def Let_def xLockSubCtx_def xUnlockSubCtx_def split: if_splits)
  qed
  with sec [of "s\<lparr>owner := Some me\<rparr>"]
  have "length (pxSubscriptions s') = length (pxSubscriptions s) \<and> (\<forall>i < length (pxSubscriptions s).
      pTopicFilter (pxSubscriptions s' ! i) = pTopicFilter (pxSubscriptions s ! i) \<or> pTopicFilter (pxSubscriptions s' ! i) = Some f)"
    by auto
  then show "length (pxSubscriptions s') = length (pxSubscriptions s)"
    and "i < length (pxSubscriptions s) \<Longrightarrow>
      pTopicFilter (pxSubscriptions s' ! i) = pTopicFilter (pxSubscriptions s ! i) \<or> pTopicFilter (pxSubscriptions s' ! i) = Some f"
    by auto
qed

lemma subscribe_sync_no_prefix:
  assumes "MqttAgent_SubscribeSync mem req me True (Some f) q (Some cb) ctx s = Some (st, s')" "c_string f" "length f < UINT16_MAX"
    and "no_prefix g s" "take (length f) g \<noteq> f"
  shows "no_prefix g s'"
  unfolding no_prefix_def list_all_length
proof (intro allI impI)
  fix i assume "i < length (pxSubscriptions s')"
  with subscribe_sync_filters [OF assms(1-3)] assms(4,5)
  show "case pTopicFilter (pxSubscriptions s' ! i) of None \<Rightarrow> True | Some h \<Rightarrow> take (length h) g = h \<longrightarrow> h = g"
    unfolding no_prefix_def list_all_length by fastforce
qed

text \<open>A callback of another filter is delivered to after unsubscribing as before.\<close>

lemma remove_callback_keeps:
  "remove_callback match cbs = Some cbs' \<Longrightarrow> c \<in> set cbs \<Longrightarrow> \<not> match c \<Longrightarrow> c \<in> set cbs'"
  by (induction cbs arbitrary: cbs') (auto split: if_splits)

lemma remove_callback_set: "remove_callback match cbs = Some cbs' \<Longrightarrow> set cbs' \<subseteq> insert no_cb (set cbs)"
  by (induction cbs arbitrary: cbs') (fastforce split: if_splits)+

lemma remove_callback_idle:
  "remove_callback match cbs = Some cbs' \<Longrightarrow> \<forall>c \<in> set cbs. pxSubInfo c = None \<longrightarrow> pxIncomingPublishCallback c = None \<Longrightarrow>
   \<forall>c \<in> set cbs'. pxSubInfo c = None \<longrightarrow> pxIncomingPublishCallback c = None"
  by (induction cbs arbitrary: cbs') (auto split: if_splits)

lemma find_index_Some: "find_index P xs idx = Some k \<Longrightarrow> idx \<le> k \<and> k < idx + length xs \<and> P k (xs ! (k - idx))"
  by (induction xs arbitrary: idx) (fastforce split: if_splits simp: nth_Cons')+

text \<open>The part of the invariant that delivery needs.\<close>

definition routable :: "SubMgrCtx_t \<Rightarrow> bool" where
  "routable s = (list_all wf_sub (pxSubscriptions s) \<and>
     list_all (\<lambda>c. case pxSubInfo c of None \<Rightarrow> pxIncomingPublishCallback c = None | Some i \<Rightarrow> i < length (pxSubscriptions s)) (pxCallbacks s))"

lemma sub_wf_routable: "sub_wf s \<Longrightarrow> routable s"
  by (auto simp: sub_wf_def routable_def list_all_iff wf_cb_def split: option.splits)

lemma routable_cong:
  "pxCallbacks s' = pxCallbacks s \<Longrightarrow> pxSubscriptions s' = pxSubscriptions s \<Longrightarrow> routable s' = routable s"
  unfolding routable_def by (simp only:)

lemma routable_called:
  assumes "registered f cb ctx s" "routable s" "owner s = None" "mt topic f"
  shows "\<exists>calls. prvIncomingPublishCallback mt me topic s = Some (calls, s) \<and> (cb, ctx) \<in> set calls"
proof -
  from assms(1) obtain c t where c: "c \<in> set (pxCallbacks s)" "pxIncomingPublishCallback c = cb"
    "pvIncomingPublishCallbackContext c = ctx" "pxSubInfo c = Some t" "pTopicFilter (pxSubscriptions s ! t) = Some f"
    by (auto simp: registered_def list_ex_iff split: option.splits)
  with assms(2) have "t < length (pxSubscriptions s)" by (auto simp: routable_def list_all_iff split: option.splits)
  with assms(2) c(5) have "topicFilterLength (pxSubscriptions s ! t) = length f"
    by (auto simp: routable_def list_all_length wf_sub_def split: option.splits)
  with c assms(4) have "(case pxSubInfo c of None \<Rightarrow> False | Some i \<Rightarrow> prvMatchTopic mt (pxSubscriptions s ! i) topic)"
    by (simp add: prvMatchTopic_def)
  with c(1-3) show ?thesis by (auto simp: publish_calls [OF assms(3)] calls_of_def image_iff intro!: bexI [of _ c])
qed

lemma unsubscribe_remove_keeps:
  assumes "unsubscribe_remove me f (length f) (Some cb') ctx' count st s = Some (st', s')" "routable s" "c_string f" "f \<noteq> []"
    and "registered g cb ctx s" "g \<noteq> f"
  shows "routable s'" "registered g cb ctx s'" "owner s' = owner s"
proof -
  let ?sub = "find_index (\<lambda>k i. pulSubCbCount s ! k = 0 \<and> same_filter f (length f) i) (pxSubscriptions s) 0"
  let ?m = "\<lambda>c. prvMatchCbCtx me c ?sub (Some cb') ctx'"
  have idle: "\<forall>c \<in> set (pxCallbacks s). pxSubInfo c = None \<longrightarrow> pxIncomingPublishCallback c = None"
    using assms(2) by (auto simp: routable_def list_all_iff)
  have "routable s' \<and> registered g cb ctx s' \<and> owner s' = owner s"
  proof (cases "s' = s")
    case False
    with assms(1) obtain cbs where R: "remove_callback ?m (pxCallbacks s) = Some cbs"
      by (cases "remove_callback ?m (pxCallbacks s)") (auto simp: unsubscribe_remove_def Let_def split: if_splits)
    obtain cbs' n where C: "prvCompressCallbackList cbs = (cbs', n)" by fastforce
    have "\<exists>c \<in> set (pxCallbacks s). ?m c" using R remove_callback_none [of ?m "pxCallbacks s"] by auto
    with idle obtain k where k: "?sub = Some k" by (cases ?sub) (auto simp: prvMatchCbCtx_def)
    with find_index_Some [OF k] assms(2) same_filter_wf [OF _ assms(3,4)]
    have kf: "k < length (pxSubscriptions s)" "pTopicFilter (pxSubscriptions s ! k) = Some f"
      by (auto simp: routable_def list_all_length)
    have S: "pxCallbacks s' = cbs'" "pxSubscriptions s' \<in> {pxSubscriptions s, (pxSubscriptions s)[k := no_sub]}" "owner s' = owner s"
      using assms(1) False k R C
      by (auto simp: unsubscribe_remove_def Let_def configASSERT_def bind_eq_Some_conv split: if_splits)
    note I = remove_callback_idle [OF R idle]
    obtain zs where Z: "cbs' = filter (\<lambda>c. pxSubInfo c \<noteq> None) cbs @ zs" "\<forall>z \<in> set zs. pxSubInfo z = None"
      using compress_callbacks(4) [OF I C] by blast
    have old: "c \<in> set (pxCallbacks s)" if "c \<in> set cbs'" "pxSubInfo c \<noteq> None" for c
    proof -
      have "c \<in> set cbs" using that Z by auto
      moreover have "set cbs \<subseteq> insert no_cb (set (pxCallbacks s))"
        by (rule remove_callback_set [OF R])
      ultimately show ?thesis using that(2) by auto
    qed
    have "routable s'"
      unfolding routable_def list_all_iff
    proof (intro conjI ballI)
      show "wf_sub i" if "i \<in> set (pxSubscriptions s')" for i
        using that S(2) assms(2) set_update_subset_insert [of "pxSubscriptions s" k no_sub]
        by (auto simp: routable_def list_all_iff)
      show "case pxSubInfo c of None \<Rightarrow> pxIncomingPublishCallback c = None | Some i \<Rightarrow> i < length (pxSubscriptions s')"
        if "c \<in> set (pxCallbacks s')" for c
      proof (cases "pxSubInfo c")
        case (Some i)
        with that S(1) old have "c \<in> set (pxCallbacks s)" by simp
        with Some assms(2) S(2) show ?thesis by (auto simp: routable_def list_all_iff)
      qed (use that S(1) compress_callbacks(1) [OF I C] in simp)
    qed
    moreover have "registered g cb ctx s'"
    proof -
      from assms(5) obtain c t where c: "c \<in> set (pxCallbacks s)" "pxIncomingPublishCallback c = cb"
        "pvIncomingPublishCallbackContext c = ctx" "pxSubInfo c = Some t" "pTopicFilter (pxSubscriptions s ! t) = Some g"
        by (auto simp: registered_def list_ex_iff split: option.splits)
      have t: "t \<noteq> k" using kf(2) c(5) assms(6) by auto
      then have "c \<in> set cbs" using remove_callback_keeps [OF R c(1)] k c(4) by (auto simp: prvMatchCbCtx_def)
      then have "c \<in> set (pxCallbacks s')" using S(1) Z(1) c(4) by simp
      moreover have "pTopicFilter (pxSubscriptions s' ! t) = Some g" using S(2) t c(5) by auto
      ultimately show ?thesis using c(2-4) by (auto simp: registered_def list_ex_iff intro!: bexI [of _ c])
    qed
    ultimately show ?thesis using S(3) by blast
  qed (use assms(2,5) in simp)
  then show "routable s'" "registered g cb ctx s'" "owner s' = owner s" by blast+
qed

lemma unsubscribe_sync_keeps:
  assumes "MqttAgent_UnSubscribeSync req me h (Some f) (Some cb') ctx' s = Some (st, s')" "routable s" "owner s = None"
    and "c_string f" "f \<noteq> []" "length f < UINT16_MAX" "registered g cb ctx s" "g \<noteq> f"
  shows "routable s' \<and> registered g cb ctx s' \<and> owner s' = None"
proof (cases h)
  case False
  with assms(1-3,7) show ?thesis by (simp add: MqttAgent_UnSubscribeSync_def)
next
  case True
  have len: "strnlen f UINT16_MAX = length f" using assms(4,6) by (simp add: strnlen_def strlen_def)
  obtain st1 count s1 where U: "unsubscribe_count f (length f) (s\<lparr>owner := Some me\<rparr>) = (st1, count, s1)"
    by (cases "unsubscribe_count f (length f) (s\<lparr>owner := Some me\<rparr>)")
  then have s1: "pxSubscriptions s1 = pxSubscriptions s" "pxCallbacks s1 = pxCallbacks s" "owner s1 = Some me"
    by (auto simp: unsubscribe_count_def split: option.splits if_splits)
  let ?s3 = "s1\<lparr>owner := Some me\<rparr>"
  let ?st = "if st1 = MQTTSuccess \<and> count = 1 then prvSendUnsubRequest req f else st1"
  obtain s4 where R: "unsubscribe_remove me f (length f) (Some cb') ctx' count ?st ?s3 = Some (st, s4)" "xUnlockSubCtx me s4 = Some s'"
    using assms(1,3,5,6) True len U s1(3)
    by (auto simp: MqttAgent_UnSubscribeSync_def Let_def xLockSubCtx_def xUnlockSubCtx_def [of me s1] bind_eq_Some_conv split: if_splits)
  have "routable ?s3" using assms(2) routable_cong [of ?s3 s] s1 by simp
  moreover have "registered g cb ctx ?s3" using assms(7) registered_cong [of ?s3 s] s1 by simp
  ultimately have K: "routable s4" "registered g cb ctx s4" "owner s4 = Some me"
    using unsubscribe_remove_keeps [OF R(1) _ assms(4,5) _ assms(8)] by simp_all
  then have "s' = s4\<lparr>owner := None\<rparr>" using R(2) by (simp add: xUnlockSubCtx_def)
  with K registered_cong [of s' s4] routable_cong [of s' s4] show ?thesis by simp
qed

subsection \<open>Where the searches go wrong\<close>

lemma find_callback_free:
  assumes "\<exists>c \<in> set cs. pxSubInfo c = None" "idx + length cs \<le> 10"
  shows "snd (find_callback match cs idx (10, MQTTNoMemory)) = MQTTSuccess"
proof -
  have set: "snd (find_callback match cs idx (t, MQTTSuccess)) = MQTTSuccess" if "t < 10" "t < idx" for cs idx t
    using that by (induction cs arbitrary: idx t) auto
  show ?thesis using assms
  proof (induction cs arbitrary: idx)
    case (Cons x xs)
    then show ?case using set [of idx "Suc idx" xs] by (cases "pxSubInfo x = None") auto
  qed simp
qed

lemma free_callback_slot:
  assumes "sub_wf s" "uxCallbackCount s < 10"
  shows "\<exists>c \<in> set (pxCallbacks s). pxSubInfo c = None"
proof (rule ccontr)
  assume "\<not> ?thesis"
  then have "filter (\<lambda>c. pxSubInfo c \<noteq> None) (pxCallbacks s) = pxCallbacks s" by (simp add: filter_id_conv)
  with assms show False by (simp add: sub_wf_def)
qed

text \<open>
  A stored filter in the first slot that is a prefix of the requested one, with the same QoS and an
  answer that is no failure, is taken as it is.
\<close>

lemma subscribe_known:
  assumes "pxSubscriptions s \<noteq> []" "wf_sub (hd (pxSubscriptions s))" "length (pxCallbacks s) = 10" "\<exists>c \<in> set (pxCallbacks s). pxSubInfo c = None"
    and "owner s = None" "c_string (g @ h)" "length (g @ h) < UINT16_MAX" "prvValidateQoS q"
    and "pTopicFilter (hd (pxSubscriptions s)) = Some g" "qos (hd (pxSubscriptions s)) = q" "pxSubAckStatus s ! 0 \<noteq> MQTTSubAckFailure"
  shows "\<exists>s'. MqttAgent_SubscribeSync mem req me True (Some (g @ h)) q (Some cb) ctx s = Some (MQTTSuccess, s') \<and>
     pxSubscriptions s' = pxSubscriptions s \<and> pxSubAckStatus s' = pxSubAckStatus s"
proof -
  let ?s0 = "s\<lparr>owner := Some me\<rparr>"
  obtain i "is" where subs: "pxSubscriptions s = i # is" using assms(1) by (cases "pxSubscriptions s") auto
  have g: "g \<noteq> []" using assms(2,9) by (simp add: wf_sub_def)
  have "filter_matches i (g @ h)" using filter_matches_prefix [OF assms(2,9,6)] subs by simp
  with subs assms(9,10) have F: "find_subscription (g @ h) (pxSubscriptions s) 0 (10, MQTTNoMemory, q, pxSubAckStatus s) =
      Some (0, MQTTSuccess, q, pxSubAckStatus s)" by (simp add: prvGetNewQoS_def)
  obtain c where C: "find_callback (\<lambda>c. prvMatchCbCtx me c (Some 0) (Some cb) ctx) (pxCallbacks s) 0 (10, MQTTNoMemory) = (c, MQTTSuccess)"
    using find_callback_free [OF assms(4), of 0] assms(3) by (metis add_0 order_refl prod.collapse)
  have "subscribe_section mem me (g @ h) (length (g @ h)) q (Some cb) ctx ?s0 =
      Some (MQTTSuccess, 0, populate_callback me (Some cb) ctx 0 c ?s0)"
    using F C assms(11) by (simp add: subscribe_section_def populate_subscription_def)
  moreover have "strnlen (g @ h) UINT16_MAX = length (g @ h)" using assms(6,7) by (simp add: strnlen_def strlen_def)
  ultimately show ?thesis
    using assms g by (simp add: MqttAgent_SubscribeSync_def Let_def xLockSubCtx_def xUnlockSubCtx_def populate_callback_def)
qed

text \<open>
  The search for an existing subscription compares only as many characters as the stored
  filter has. When a stored filter in front of all others is a proper prefix of the requested one
  and was granted with the same QoS, subscribing reports success but neither stores the requested
  filter nor sends a request, whatever the broker would answer.
\<close>

lemma mqtt_subscribe_prefix_ignored:
  assumes "sub_wf s" "owner s = None" "c_string (g @ h)" "length (g @ h) < UINT16_MAX" "prvValidateQoS q"
    and "pTopicFilter (pxSubscriptions s ! 0) = Some g" "qos (pxSubscriptions s ! 0) = q"
    and "pxSubAckStatus s ! 0 \<noteq> MQTTSubAckFailure" "uxCallbackCount s < 10"
  shows "\<exists>s'. MqttAgent_SubscribeSync mem req me True (Some (g @ h)) q (Some cb) ctx s = Some (MQTTSuccess, s') \<and>
     pxSubscriptions s' = pxSubscriptions s \<and> pxSubAckStatus s' = pxSubAckStatus s"
proof -
  note W = sub_wfD [OF assms(1)]
  have "pxSubscriptions s \<noteq> []" using W(1) by auto
  moreover from this have "hd (pxSubscriptions s) = pxSubscriptions s ! 0" by (rule hd_conv_nth)
  ultimately show ?thesis
    using assms W(4) W(5) [of 0] free_callback_slot [OF assms(1,9)] by (intro subscribe_known) simp_all
qed

text \<open>
  On a fresh context the first subscription lands in the second slot, because a comparison of
  no characters makes the second empty slot count as a match, and a request for QoS 2 is stored
  and sent as QoS 1.
\<close>

lemma mqtt_first_subscription_qos:
  assumes "c_string f" "f \<noteq> []" "length f < UINT16_MAX" "prvValidateQoS q"
  shows "map_option (\<lambda>(st, s'). pxSubscriptions s')
     (MqttAgent_SubscribeSync True req me True (Some f) q (Some cb) ctx ((prvSubscriptionManagerCtxReset s)\<lparr>owner := None\<rparr>)) =
     Some ((replicate 10 no_sub)[1 := \<lparr>qos = (if q = 0 then 0 else 1), pTopicFilter = Some f, topicFilterLength = length f\<rparr>])"
proof -
  let ?r = "prvSubscriptionManagerCtxReset s"
  let ?s = "?r\<lparr>owner := Some me\<rparr>"
  have len: "strnlen f UINT16_MAX = length f" using assms(1,3) by (simp add: strnlen_def strlen_def)
  have r: "pxSubscriptions ?r = replicate 10 no_sub" "pxCallbacks ?r = replicate 10 no_cb"
    "pxSubAckStatus ?r = replicate 10 MQTTSubAckFailure"
    by (simp_all add: prvSubscriptionManagerCtxReset_def)
  have e: "filter_matches no_sub f" by (simp add: filter_matches_def strncmp_eq_def)
  have F: "find_subscription f (replicate 10 no_sub) 0 (10, MQTTNoMemory, q, replicate 10 MQTTSubAckFailure) =
      Some (1, MQTTSuccess, if q = 0 then 0 else 1, replicate 10 MQTTSubAckFailure)"
    using e assms(4) by (auto simp: numeral_eq_Suc prvGetNewQoS_def prvValidateQoS_def)
  obtain c where C: "find_callback (\<lambda>c. prvMatchCbCtx me c (Some 1) (Some cb) ctx) (replicate 10 no_cb) 0 (10, MQTTNoMemory) = (c, MQTTSuccess)"
    using find_callback_free [of "replicate 10 no_cb" 0] by (metis add_0 in_set_replicate length_replicate no_cb_simps(1) order_refl prod.collapse zero_neq_numeral)
  have S: "\<exists>t s'. subscribe_section True me f (length f) q (Some cb) ctx ?s = Some (MQTTSuccess, t, s') \<and> owner s' = Some me \<and> pxSubscriptions s' =
      (replicate 10 no_sub)[1 := \<lparr>qos = (if q = 0 then 0 else 1), pTopicFilter = Some f, topicFilterLength = length f\<rparr>]"
    using F C by (simp add: subscribe_section_def r populate_subscription_def populate_callback_def Let_def)
  then show ?thesis
    using assms len by (auto simp: MqttAgent_SubscribeSync_def Let_def xLockSubCtx_def xUnlockSubCtx_def split: prod.splits)
qed

lemma notification_bits:
  fixes rc code :: u32
  assumes "rc < 2 ^ 24" "code < 2 ^ 8"
  shows "((rc AND 0xFFFFFF) + push_bit 24 code) AND 0xFFFFFF = rc" "drop_bit 24 ((rc AND 0xFFFFFF) + push_bit 24 code) = code"
proof -
  have m: "w AND 0xFFFFFF = take_bit 24 w" for w :: u32 by (simp add: take_bit_eq_mask mask_eq_exp_minus_1)
  have b: "unat rc < 2 ^ 24" "unat code < 2 ^ 8" using assms by (simp_all add: word_less_nat_alt)
  have "unat (take_bit 24 rc) = unat rc" using b(1) by (simp add: unsigned_take_bit_eq take_bit_nat_eq_self)
  then have rc: "take_bit 24 rc = rc" by (simp only: word_unat_eq_iff)
  have p: "unat (push_bit 24 code) = 2 ^ 24 * unat code"
    using b(2) by (simp add: push_bit_eq_mult unat_mult_lem [THEN iffD1] mult.commute)
  have v: "unat (rc + push_bit 24 code) = unat rc + 2 ^ 24 * unat code"
    using b p by (subst unat_add_lem [THEN iffD1]) simp_all
  have "unat (take_bit 24 (rc + push_bit 24 code)) = unat rc" "unat (drop_bit 24 (rc + push_bit 24 code)) = unat code"
    unfolding unsigned_take_bit_eq unsigned_drop_bit_eq v unfolding take_bit_eq_mod drop_bit_eq_div using b by simp_all
  then show "((rc AND 0xFFFFFF) + push_bit 24 code) AND 0xFFFFFF = rc" "drop_bit 24 ((rc AND 0xFFFFFF) + push_bit 24 code) = code"
    by (simp_all only: m rc word_unat_eq_iff)
qed

text \<open>
  The notification value carries the return code and the first answer of the broker: when the
  return code fits in 24 bits and the answer in 8, the waiting task reads both back.
\<close>

lemma mqtt_notification_roundtrip:
  fixes rc code :: u32
  assumes "rc < 2 ^ 24" "code < 2 ^ 8"
  shows "prvSendSubRequest (\<lambda>_. (MQTTSuccess, Some (prvSubscribeRqCallback rc (Some (code # codes))))) i ack = (unat rc, unat code)"
  using notification_bits [OF assms] by (simp add: prvSendSubRequest_def prvSubscribeRqCallback_def)


subsection \<open>Concrete runs\<close>

text \<open>
  A table with one granted subscription \<open>a\<close> and two callbacks for it, a broker that grants what it
  is asked for, and topic matching by equality.
\<close>

definition ex_sub :: "string \<Rightarrow> nat \<Rightarrow> SubMgrCtx_t" where
  "ex_sub f n = \<lparr>pxSubscriptions = \<lparr>qos = 1, pTopicFilter = Some f, topicFilterLength = length f\<rparr> # replicate 9 no_sub,
     pxSubAckStatus = 1 # replicate 9 MQTTSubAckFailure, pulSubCbCount = n # replicate 9 0,
     pxCallbacks = map (\<lambda>c. \<lparr>pxIncomingPublishCallback = Some c, pvIncomingPublishCallbackContext = 7,
       xTaskHandle = Some 1, pxSubInfo = Some 0\<rparr>) [0..<n] @ replicate (10 - n) no_cb,
     uxSubscriptionCount = 1, uxCallbackCount = n, owner = None\<rparr>"

definition ex_broker :: "'a \<Rightarrow> MQTTStatus_t \<times> u32 option" where
  "ex_broker i = (MQTTSuccess, Some (prvSubscribeRqCallback 0 (Some [1])))"

lemma ex_sub_facts:
  "sub_wf (ex_sub ''a'' 1)" "sub_wf (ex_sub ''a'' 2)" "only_sub ''a'' 0 (ex_sub ''a'' 1)" "only_sub ''a'' 0 (ex_sub ''a'' 2)"
  "no_prefix ''b'' (ex_sub ''a'' 1)" "refs (pxCallbacks (ex_sub ''a'' 1)) 0 = 1" "refs (pxCallbacks (ex_sub ''a'' 2)) 0 = 2"
  "list_ex (\<lambda>c. prvMatchCbCtx 1 c (Some 0) (Some 0) 7) (pxCallbacks (ex_sub ''a'' 1))"
  by code_simp+

lemma ex_sub_owner: "owner (ex_sub f n) = None"
  by (simp add: ex_sub_def)

lemma ex_send: "prvSendSubRequest ex_broker i ack = (MQTTSuccess, 1)"
  using notification_bits [of 0 1] by (simp add: prvSendSubRequest_def ex_broker_def prvSubscribeRqCallback_def)

lemma ex_section:
  "map_option fst (subscribe_section True 1 ''b'' 1 1 (Some 3) 9 ((ex_sub ''a'' 1)\<lparr>owner := Some 1\<rparr>)) = Some MQTTSuccess"
  by code_simp

lemma ex_subscribe:
  "map_option fst (MqttAgent_SubscribeSync True ex_broker 1 True (Some ''b'') 1 (Some 3) 9 (ex_sub ''a'' 1)) = Some MQTTSuccess"
proof -
  let ?s = "(ex_sub ''a'' 1)\<lparr>owner := Some 1\<rparr>"
  have w: "sub_wf ?s" using ex_sub_facts(1) by simp
  obtain st t s' where S: "subscribe_section True 1 ''b'' (length ''b'') 1 (Some 3) 9 ?s = Some (st, t, s')" "owner s' = owner ?s"
    by (rule subscribe_section_ok [OF w, of "''b''" "Some 3" True 1 1 9]) simp_all
  with ex_section have "st = MQTTSuccess" by simp
  with S show ?thesis
    by (simp add: MqttAgent_SubscribeSync_def Let_def xLockSubCtx_def xUnlockSubCtx_def ex_send ex_sub_owner prvValidateQoS_def
        strnlen_def strlen_def c_str_def)
qed






end
