(* ===== verification/AgentQueue.thy ===== *)
theory AgentQueue
  imports Prelude "HOL-Library.Multiset"
begin

text \<open>
  The pool of command structures (\<open>src/source/mqtt_agent/freertos_command_pool.c\<close>) and the message
  interface of the agent (\<open>prvAgentMessageSend\<close>, \<open>prvAgentMessageReceive\<close> and
  \<open>prvSocketRecvReadyCallback\<close> of \<open>mqtt_agent_task.c\<close>).

  The kernel is not under \<open>src/\<close>: its queues and task notifications are the record \<open>rtos_ops\<close>, and
  \<open>rtos_spec\<close> states what its documentation promises. A pointer is a byte address; the pool is an
  array of \<open>MQTT_COMMAND_CONTEXTS_POOL_SIZE\<close> structures of \<open>sz\<close> bytes at the address \<open>base\<close>.
\<close>

subsection \<open>The kernel\<close>

text \<open>\<open>'q\<close> is a queue of pointers, \<open>'n\<close> the notification state of a task.\<close>

record ('q, 'n) rtos_ops =
  xQueueCreate :: "nat \<Rightarrow> 'q option"
  xQueueSend :: "'q \<Rightarrow> nat \<Rightarrow> 'q option"
  xQueueReceive :: "'q \<Rightarrow> (nat \<times> 'q) option"
  xTaskNotify_eSetBits :: "'n \<Rightarrow> u32 \<Rightarrow> 'n"
  xTaskNotifyWait :: "'n \<Rightarrow> (u32 \<times> 'n) option"

text \<open>
  What the documentation promises: a queue is a FIFO of bounded length, a send to a full queue and a
  receive from an empty one fail; setting bits makes a notification pending and keeps the bits that
  were set; waiting takes the pending value and clears it, and fails when nothing is pending.
\<close>

definition rtos_spec :: "('q, 'n) rtos_ops \<Rightarrow> ('q \<Rightarrow> nat list) \<Rightarrow> ('q \<Rightarrow> nat) \<Rightarrow> ('n \<Rightarrow> u32 option) \<Rightarrow> bool" where
  "rtos_spec ops items cap pending =
     ((\<forall>n q. xQueueCreate ops n = Some q \<longrightarrow> items q = [] \<and> cap q = n) \<and>
      (\<forall>q x. case xQueueSend ops q x of
         Some q' \<Rightarrow> length (items q) < cap q \<and> items q' = items q @ [x] \<and> cap q' = cap q
       | None \<Rightarrow> cap q \<le> length (items q)) \<and>
      (\<forall>q. case xQueueReceive ops q of
         Some (x, q') \<Rightarrow> items q = x # items q' \<and> cap q' = cap q
       | None \<Rightarrow> items q = []) \<and>
      (\<forall>n b. pending (xTaskNotify_eSetBits ops n b) = Some ((case pending n of Some v \<Rightarrow> v | None \<Rightarrow> 0) OR b)) \<and>
      (\<forall>n. case xTaskNotifyWait ops n of
         Some (v, n') \<Rightarrow> pending n = Some v \<and> pending n' = None
       | None \<Rightarrow> pending n = None))"

lemma rtos_create: "rtos_spec ops items cap pending \<Longrightarrow> xQueueCreate ops n = Some q \<Longrightarrow> items q = [] \<and> cap q = n"
  by (simp add: rtos_spec_def)

lemma rtos_send:
  assumes "rtos_spec ops items cap pending" "length (items q) < cap q"
  obtains q' where "xQueueSend ops q x = Some q'" "items q' = items q @ [x]" "cap q' = cap q"
proof -
  have "case xQueueSend ops q x of Some q' \<Rightarrow> length (items q) < cap q \<and> items q' = items q @ [x] \<and> cap q' = cap q
       | None \<Rightarrow> cap q \<le> length (items q)" using assms(1) unfolding rtos_spec_def by blast
  with assms(2) that show ?thesis by (cases "xQueueSend ops q x") auto
qed

lemma rtos_receive:
  assumes "rtos_spec ops items cap pending"
  shows "case xQueueReceive ops q of Some (x, q') \<Rightarrow> items q = x # items q' \<and> cap q' = cap q | None \<Rightarrow> items q = []"
  using assms unfolding rtos_spec_def by blast

lemma rtos_notify:
  assumes "rtos_spec ops items cap pending"
  shows "pending (xTaskNotify_eSetBits ops n b) = Some ((case pending n of Some v \<Rightarrow> v | None \<Rightarrow> 0) OR b)"
  using assms unfolding rtos_spec_def by blast

lemma rtos_wait:
  assumes "rtos_spec ops items cap pending"
  shows "case xTaskNotifyWait ops n of Some (v, n') \<Rightarrow> pending n = Some v \<and> pending n' = None | None \<Rightarrow> pending n = None"
  using assms unfolding rtos_spec_def by blast

subsection \<open>The command pool\<close>

abbreviation (input) MQTT_COMMAND_CONTEXTS_POOL_SIZE :: nat where "MQTT_COMMAND_CONTEXTS_POOL_SIZE \<equiv> 32"

definition commandStructurePool :: "nat \<Rightarrow> nat \<Rightarrow> nat \<Rightarrow> nat" where
  "commandStructurePool base sz ulIdx = base + ulIdx * sz"

text \<open>The results of the sends are ignored; a queue that could not be created stops in an assertion.\<close>

definition Agent_InitializePool :: "('q, 'n) rtos_ops \<Rightarrow> nat \<Rightarrow> nat \<Rightarrow> 'q option \<Rightarrow> 'q option option" where
  "Agent_InitializePool ops base sz xCommandPoolQueue =
     (case xCommandPoolQueue of
        Some q \<Rightarrow> Some (Some q)
      | None \<Rightarrow>
          do { q \<leftarrow> xQueueCreate ops MQTT_COMMAND_CONTEXTS_POOL_SIZE;
               Some (Some (fold (\<lambda>ulIdx q. case xQueueSend ops q (commandStructurePool base sz ulIdx) of Some q' \<Rightarrow> q' | None \<Rightarrow> q)
                 [0..<MQTT_COMMAND_CONTEXTS_POOL_SIZE] q)) })"

definition Agent_GetCommand :: "('q, 'n) rtos_ops \<Rightarrow> 'q option \<Rightarrow> nat option \<times> 'q option" where
  "Agent_GetCommand ops xCommandPoolQueue =
     (case xCommandPoolQueue of
        None \<Rightarrow> (None, None)
      | Some q \<Rightarrow> (case xQueueReceive ops q of None \<Rightarrow> (None, Some q) | Some (p, q') \<Rightarrow> (Some p, Some q')))"

definition Agent_ReleaseCommand :: "('q, 'n) rtos_ops \<Rightarrow> nat \<Rightarrow> nat \<Rightarrow> nat \<Rightarrow> 'q option \<Rightarrow> bool \<times> 'q option" where
  "Agent_ReleaseCommand ops base sz pCommandToRelease xCommandPoolQueue =
     (case xCommandPoolQueue of
        None \<Rightarrow> (False, None)
      | Some q \<Rightarrow>
          if pCommandToRelease < base \<or> base + MQTT_COMMAND_CONTEXTS_POOL_SIZE * sz < pCommandToRelease
          then (False, Some q)
          else (case xQueueSend ops q pCommandToRelease of Some q' \<Rightarrow> (True, Some q') | None \<Rightarrow> (False, Some q)))"

subsection \<open>The pool hands out every structure once\<close>

definition pool_cmds :: "nat \<Rightarrow> nat \<Rightarrow> nat list" where
  "pool_cmds base sz = map (commandStructurePool base sz) [0..<32]"

lemma pool_cmds_simps [simp]: "length (pool_cmds base sz) = 32"
  by (simp add: pool_cmds_def)

lemma distinct_pool_cmds: "0 < sz \<Longrightarrow> distinct (pool_cmds base sz)"
  by (simp add: pool_cmds_def distinct_map commandStructurePool_def inj_on_def)

lemma pool_cmds_range: "p \<in> set (pool_cmds base sz) \<Longrightarrow> base \<le> p \<and> p \<le> base + 32 * sz"
  by (auto simp: pool_cmds_def commandStructurePool_def)

lemma fill_pool:
  assumes "rtos_spec ops items cap pending" "cap q = 32" "length (items q) + length xs \<le> 32"
  shows "items (fold (\<lambda>x q. case xQueueSend ops q (f x) of Some q' \<Rightarrow> q' | None \<Rightarrow> q) xs q) = items q @ map f xs \<and>
     cap (fold (\<lambda>x q. case xQueueSend ops q (f x) of Some q' \<Rightarrow> q' | None \<Rightarrow> q) xs q) = 32"
  using assms(2,3)
proof (induction xs arbitrary: q)
  case (Cons x xs)
  obtain q' where "xQueueSend ops q (f x) = Some q'" "items q' = items q @ [f x]" "cap q' = cap q"
    using rtos_send [OF assms(1), of q] Cons.prems by auto
  with Cons show ?case by simp
qed simp

text \<open>A run of the pool: the queue, and the commands that are out, as the clients take and return them.\<close>

inductive pool_run :: "('q, 'n) rtos_ops \<Rightarrow> nat \<Rightarrow> nat \<Rightarrow> 'q option \<Rightarrow> nat list \<Rightarrow> bool" for ops base sz where
  init: "Agent_InitializePool ops base sz None = Some q \<Longrightarrow> pool_run ops base sz q []"
| again: "pool_run ops base sz q out \<Longrightarrow> Agent_InitializePool ops base sz q = Some q' \<Longrightarrow> pool_run ops base sz q' out"
| get: "pool_run ops base sz q out \<Longrightarrow> Agent_GetCommand ops q = (Some p, q') \<Longrightarrow> pool_run ops base sz q' (p # out)"
| get_none: "pool_run ops base sz q out \<Longrightarrow> Agent_GetCommand ops q = (None, q') \<Longrightarrow> pool_run ops base sz q' out"
| release: "pool_run ops base sz q out \<Longrightarrow> p \<in> set out \<Longrightarrow> Agent_ReleaseCommand ops base sz p q = (r, q') \<Longrightarrow>
    pool_run ops base sz q' (remove1 p out)"

text \<open>Every structure is either in the queue or out, and the release of one that is out succeeds.\<close>

lemma release_out:
  assumes "rtos_spec ops items cap pending" "cap q = 32" "mset (items q) + mset out = mset (pool_cmds base sz)" "p \<in> set out"
  obtains q' where "Agent_ReleaseCommand ops base sz p (Some q) = (True, Some q')" "items q' = items q @ [p]" "cap q' = 32"
proof -
  have "mset (items q @ out) = mset (pool_cmds base sz)" using assms(3) by simp
  from mset_eq_setD [OF this] assms(4) have "p \<in> set (pool_cmds base sz)" by auto
  then have r: "base \<le> p" "p \<le> base + 32 * sz" using pool_cmds_range by auto
  have "length (items q) + length out = 32" using arg_cong [OF assms(3), of size] by simp
  with assms(4) have "length (items q) < cap q" using assms(2) by (cases out) auto
  then obtain q' where "xQueueSend ops q p = Some q'" "items q' = items q @ [p]" "cap q' = cap q"
    by (rule rtos_send [OF assms(1)])
  with r assms(2) show ?thesis by (intro that [of q']) (simp_all add: Agent_ReleaseCommand_def)
qed

lemma pool_inv:
  assumes "rtos_spec ops items cap pending" "pool_run ops base sz qo out"
  shows "\<exists>q. qo = Some q \<and> cap q = 32 \<and> mset (items q) + mset out = mset (pool_cmds base sz)"
  using assms(2)
proof (induction rule: pool_run.induct)
  case (init q)
  then obtain q0 where q0: "xQueueCreate ops 32 = Some q0"
    "q = Some (fold (\<lambda>ulIdx q. case xQueueSend ops q (commandStructurePool base sz ulIdx) of Some q' \<Rightarrow> q' | None \<Rightarrow> q) [0..<32] q0)"
    by (auto simp: Agent_InitializePool_def bind_eq_Some_conv simp del: upt_rec_numeral)
  from rtos_create [OF assms(1) q0(1)] have "items q0 = []" "cap q0 = 32" by auto
  with fill_pool [OF assms(1), of q0 "[0..<32]" "commandStructurePool base sz"] q0(2) show ?case
    by (simp add: pool_cmds_def del: upt_rec_numeral)
next
  case (get q out p q')
  then obtain q0 where "q = Some q0" "cap q0 = 32" "mset (items q0) + mset out = mset (pool_cmds base sz)" by blast
  with get rtos_receive [OF assms(1), of q0] show ?case
    by (auto simp: Agent_GetCommand_def split: option.splits prod.splits)
next
  case (release q out p r q')
  then obtain q0 where q0: "q = Some q0" "cap q0 = 32" "mset (items q0) + mset out = mset (pool_cmds base sz)" by blast
  obtain q1 where "Agent_ReleaseCommand ops base sz p (Some q0) = (True, Some q1)" "items q1 = items q0 @ [p]" "cap q1 = 32"
    using release_out [OF assms(1) q0(2,3) release(2)] by blast
  with release q0 show ?case by (auto simp: add.commute)
next
  case (again q out q')
  then show ?case by (auto simp: Agent_InitializePool_def)
next
  case (get_none q out q')
  then show ?case by (auto simp: Agent_GetCommand_def split: option.splits prod.splits)
qed

text \<open>
  C16. However the clients take and return commands, the pool never hands out a structure that is
  still in use, always has one while fewer than 32 are out, and always takes back one that is out.
\<close>

theorem command_pool_conserves:
  assumes "rtos_spec ops items cap pending" "0 < sz" "pool_run ops base sz q out"
  shows "distinct out \<and> set out \<subseteq> set (pool_cmds base sz) \<and>
     (length out < 32 \<longrightarrow> (\<exists>p q'. Agent_GetCommand ops q = (Some p, q') \<and> p \<in> set (pool_cmds base sz) \<and> p \<notin> set out)) \<and>
     (\<forall>p \<in> set out. fst (Agent_ReleaseCommand ops base sz p q))"
proof -
  obtain q0 where q0: "q = Some q0" "cap q0 = 32" "mset (items q0) + mset out = mset (pool_cmds base sz)"
    using pool_inv [OF assms(1,3)] by blast
  have m: "mset (items q0 @ out) = mset (pool_cmds base sz)" using q0(3) by simp
  have d: "distinct (items q0 @ out)" "set (items q0 @ out) = set (pool_cmds base sz)"
    using mset_eq_imp_distinct_iff [OF m] mset_eq_setD [OF m] distinct_pool_cmds [OF assms(2)] by auto
  have "\<exists>p q'. Agent_GetCommand ops q = (Some p, q') \<and> p \<in> set (pool_cmds base sz) \<and> p \<notin> set out" if "length out < 32"
  proof -
    have "length (items q0) + length out = 32" using arg_cong [OF q0(3), of size] by simp
    with that have "items q0 \<noteq> []" by auto
    with rtos_receive [OF assms(1), of q0] obtain p q1 where "xQueueReceive ops q0 = Some (p, q1)" "items q0 = p # items q1"
      by (auto split: option.splits)
    with d q0(1) show ?thesis by (auto simp: Agent_GetCommand_def)
  qed
  moreover have "fst (Agent_ReleaseCommand ops base sz p q)" if "p \<in> set out" for p
    using release_out [OF assms(1) q0(2,3) that] q0(1) by (metis fst_conv)
  ultimately show ?thesis using d by auto
qed

text \<open>
  The test for a foreign pointer lets the address just behind the array pass: once a command is
  out, that address is accepted, and it comes back from the pool as a command.
\<close>

lemma command_pool_accepts_end:
  assumes "rtos_spec ops items cap pending" "items q = []" "0 < cap q"
  shows "\<exists>q'. Agent_ReleaseCommand ops base sz (base + 32 * sz) (Some q) = (True, Some q') \<and>
     fst (Agent_GetCommand ops (Some q')) = Some (commandStructurePool base sz 32)"
proof -
  obtain q' where q': "xQueueSend ops q (base + 32 * sz) = Some q'" "items q' = [base + 32 * sz]"
    using rtos_send [OF assms(1), of q] assms(2,3) by auto
  from rtos_receive [OF assms(1), of q'] q'(2) obtain q'' where "xQueueReceive ops q' = Some (base + 32 * sz, q'')"
    by (cases "xQueueReceive ops q'") auto
  with q' show ?thesis by (auto simp: Agent_ReleaseCommand_def Agent_GetCommand_def commandStructurePool_def)
qed


subsection \<open>The message interface\<close>

abbreviation (input) MQTT_AGENT_NOTIFY_FLAG_SOCKET_RECV :: u32 where "MQTT_AGENT_NOTIFY_FLAG_SOCKET_RECV \<equiv> 0x80000000"
abbreviation (input) MQTT_AGENT_NOTIFY_FLAG_M_QUEUE :: u32 where "MQTT_AGENT_NOTIFY_FLAG_M_QUEUE \<equiv> 0x40000000"

text \<open>The message context: the queue, and the notification state of the agent's task, if it is known.\<close>

record ('q, 'n) MQTTAgentMessageContext =
  xQueue :: 'q
  xAgentTaskHandle :: "'n option"

definition prvSocketRecvReadyCallback :: "('q, 'n) rtos_ops \<Rightarrow> ('q, 'n) MQTTAgentMessageContext \<Rightarrow> ('q, 'n) MQTTAgentMessageContext" where
  "prvSocketRecvReadyCallback ops c =
     c\<lparr>xAgentTaskHandle := map_option (\<lambda>n. xTaskNotify_eSetBits ops n MQTT_AGENT_NOTIFY_FLAG_SOCKET_RECV) (xAgentTaskHandle c)\<rparr>"

text \<open>The agent is notified whether or not the queue took the command.\<close>

definition prvAgentMessageSend ::
  "('q, 'n) rtos_ops \<Rightarrow> ('q, 'n) MQTTAgentMessageContext option \<Rightarrow> nat option \<Rightarrow> bool \<times> ('q, 'n) MQTTAgentMessageContext option" where
  "prvAgentMessageSend ops pxMsgCtx pxCommandToSend =
     (case (pxMsgCtx, pxCommandToSend) of
        (Some c, Some p) \<Rightarrow>
          let (st, q) = (case xQueueSend ops (xQueue c) p of Some q \<Rightarrow> (True, q) | None \<Rightarrow> (False, xQueue c)) in
          (st, Some (c\<lparr>xQueue := q,
             xAgentTaskHandle := map_option (\<lambda>n. xTaskNotify_eSetBits ops n MQTT_AGENT_NOTIFY_FLAG_M_QUEUE) (xAgentTaskHandle c)\<rparr>))
      | _ \<Rightarrow> (False, pxMsgCtx))"

text \<open>
  The agent's own task receives. \<open>ppxReceivedCommand\<close> is what its variable holds before, \<open>None\<close> for
  the null pointer.
\<close>

definition prvAgentMessageReceive ::
  "('q, 'n) rtos_ops \<Rightarrow> ('q, 'n) MQTTAgentMessageContext \<Rightarrow> nat option \<Rightarrow> bool \<times> nat option \<times> ('q, 'n) MQTTAgentMessageContext" where
  "prvAgentMessageReceive ops c ppxReceivedCommand =
     (case xAgentTaskHandle c of
        None \<Rightarrow> (False, ppxReceivedCommand, c)
      | Some n \<Rightarrow>
          (case xTaskNotifyWait ops n of
             None \<Rightarrow> (False, ppxReceivedCommand, c)
           | Some (ulNotifyValue, n') \<Rightarrow>
               let c' = c\<lparr>xAgentTaskHandle := Some n'\<rparr> in
               if ulNotifyValue AND MQTT_AGENT_NOTIFY_FLAG_SOCKET_RECV \<noteq> 0
               then (False, None, c')
               else (case xQueueReceive ops (xQueue c') of
                       Some (p, q) \<Rightarrow> (True, Some p, c'\<lparr>xQueue := q\<rparr>)
                     | None \<Rightarrow> (False, ppxReceivedCommand, c'))))"

text \<open>What a send and a receive do to the queued commands and the pending notification.\<close>

lemma message_send:
  assumes "rtos_spec ops items cap pending" "length (items (xQueue c)) < cap (xQueue c)" "xAgentTaskHandle c = Some n"
  obtains c' n' where "prvAgentMessageSend ops (Some c) (Some p) = (True, Some c')" "items (xQueue c') = items (xQueue c) @ [p]"
    "cap (xQueue c') = cap (xQueue c)" "xAgentTaskHandle c' = Some n'"
    "pending n' = Some ((case pending n of Some v \<Rightarrow> v | None \<Rightarrow> 0) OR MQTT_AGENT_NOTIFY_FLAG_M_QUEUE)"
proof -
  obtain q' where "xQueueSend ops (xQueue c) p = Some q'" "items q' = items (xQueue c) @ [p]" "cap q' = cap (xQueue c)"
    using rtos_send [OF assms(1,2)] .
  with assms(3) that [of "c\<lparr>xQueue := q', xAgentTaskHandle := Some (xTaskNotify_eSetBits ops n MQTT_AGENT_NOTIFY_FLAG_M_QUEUE)\<rparr>"]
    rtos_notify [OF assms(1)] show ?thesis by (simp add: prvAgentMessageSend_def)
qed

lemma message_receive:
  assumes "rtos_spec ops items cap pending" "xAgentTaskHandle c = Some n" "pending n = Some v"
    and "v AND MQTT_AGENT_NOTIFY_FLAG_SOCKET_RECV = 0" "items (xQueue c) = p # ps"
  obtains c' n' where "prvAgentMessageReceive ops c pp = (True, Some p, c')" "items (xQueue c') = ps" "xAgentTaskHandle c' = Some n'"
    "pending n' = None"
proof -
  from rtos_wait [OF assms(1), of n] assms(3) obtain n' where n': "xTaskNotifyWait ops n = Some (v, n')" "pending n' = None"
    by (cases "xTaskNotifyWait ops n") auto
  from rtos_receive [OF assms(1), of "xQueue c"] assms(5) obtain q where "xQueueReceive ops (xQueue c) = Some (p, q)" "items q = ps"
    by (cases "xQueueReceive ops (xQueue c)") auto
  with n' assms show ?thesis
    by (intro that [of "c\<lparr>xAgentTaskHandle := Some n', xQueue := q\<rparr>" n']) (simp_all add: prvAgentMessageReceive_def)
qed

lemma message_receive_idle:
  assumes "rtos_spec ops items cap pending" "xAgentTaskHandle c = Some n" "pending n = None"
  shows "prvAgentMessageReceive ops c pp = (False, pp, c)"
  using rtos_wait [OF assms(1), of n] assms by (cases "xTaskNotifyWait ops n") (auto simp: prvAgentMessageReceive_def)

text \<open>
  Commands sent to the agent are received in order, but one notification stands for any number
  of them: of two commands sent before the agent waits, the first is received, and then a wait
  finds no notification and fails although the second command is still in the queue.
\<close>

lemma agent_command_left_behind:
  assumes "rtos_spec ops items cap pending" "items (xQueue c) = []" "2 \<le> cap (xQueue c)"
    and "xAgentTaskHandle c = Some n" "pending n = None"
  shows "\<exists>c1 c2 c3. prvAgentMessageSend ops (Some c) (Some a) = (True, Some c1) \<and>
     prvAgentMessageSend ops (Some c1) (Some b) = (True, Some c2) \<and>
     prvAgentMessageReceive ops c2 pp = (True, Some a, c3) \<and>
     prvAgentMessageReceive ops c3 pp = (False, pp, c3) \<and> items (xQueue c3) = [b]"
proof -
  obtain c1 n1 where 1: "prvAgentMessageSend ops (Some c) (Some a) = (True, Some c1)" "items (xQueue c1) = [a]"
    "cap (xQueue c1) = cap (xQueue c)" "xAgentTaskHandle c1 = Some n1" "pending n1 = Some MQTT_AGENT_NOTIFY_FLAG_M_QUEUE"
    using message_send [OF assms(1) _ assms(4), of a] assms(2,3,5) by auto
  obtain c2 n2 where 2: "prvAgentMessageSend ops (Some c1) (Some b) = (True, Some c2)" "items (xQueue c2) = [a, b]"
    "xAgentTaskHandle c2 = Some n2" "pending n2 = Some MQTT_AGENT_NOTIFY_FLAG_M_QUEUE"
  proof -
    have "length (items (xQueue c1)) < cap (xQueue c1)" using 1(2,3) assms(3) by simp
    from message_send [OF assms(1) this 1(4), of b] 1(2,5) that show ?thesis by (metis append_Cons append_Nil option.case(2) or.idem)
  qed
  obtain c3 n3 where 3: "prvAgentMessageReceive ops c2 pp = (True, Some a, c3)" "items (xQueue c3) = [b]" "xAgentTaskHandle c3 = Some n3"
    "pending n3 = None"
    using message_receive [OF assms(1) 2(3,4) _ 2(2), of pp] by auto
  with 1 2 message_receive_idle [OF assms(1) 3(3,4)] show ?thesis by blast
qed

subsection \<open>Concrete runs\<close>

text \<open>A queue as a list with its capacity and a notification value, as the documentation describes them.\<close>

definition ex_rtos :: "(nat list \<times> nat, u32 option) rtos_ops" where
  "ex_rtos = \<lparr>xQueueCreate = (\<lambda>n. Some ([], n)),
     xQueueSend = (\<lambda>(xs, c) x. if length xs < c then Some (xs @ [x], c) else None),
     xQueueReceive = (\<lambda>(xs, c). case xs of [] \<Rightarrow> None | x # ys \<Rightarrow> Some (x, (ys, c))),
     xTaskNotify_eSetBits = (\<lambda>n b. Some ((case n of Some v \<Rightarrow> v | None \<Rightarrow> 0) OR b)),
     xTaskNotifyWait = (\<lambda>n. map_option (\<lambda>v. (v, None)) n)\<rparr>"

lemma ex_rtos_spec: "rtos_spec ex_rtos fst snd (\<lambda>n. n)"
  by (auto simp: rtos_spec_def ex_rtos_def split: list.splits option.splits)

lemma ex_pool_run: "pool_run ex_rtos 4096 40 (Some (tl (pool_cmds 4096 40), 32)) [4096]"
proof -
  have "xQueueCreate ex_rtos 32 = Some ([], 32)" by (simp add: ex_rtos_def)
  then have "pool_run ex_rtos 4096 40 (Some (pool_cmds 4096 40, 32)) []"
    using fill_pool [OF ex_rtos_spec, of "([], 32)" "[0..<32]" "commandStructurePool 4096 40"]
    by (intro pool_run.init) (simp add: Agent_InitializePool_def pool_cmds_def prod_eq_iff del: upt_rec_numeral)
  moreover obtain ps where "pool_cmds 4096 40 = 4096 # ps"
    by (simp add: pool_cmds_def upt_conv_Cons commandStructurePool_def del: upt_rec_numeral)
  then have "Agent_GetCommand ex_rtos (Some (pool_cmds 4096 40, 32)) = (Some 4096, Some (tl (pool_cmds 4096 40), 32))"
    by (simp add: Agent_GetCommand_def ex_rtos_def)
  ultimately show ?thesis by (rule pool_run.get)
qed

theorem command_pool_conserves_witness:
  "(\<exists>p q'. Agent_GetCommand ex_rtos (Some (tl (pool_cmds 4096 40), 32)) = (Some p, q') \<and>
      p \<in> set (pool_cmds 4096 40) \<and> p \<notin> set [4096]) \<and>
   fst (Agent_ReleaseCommand ex_rtos 4096 40 4096 (Some (tl (pool_cmds 4096 40), 32)))"
  using command_pool_conserves [OF ex_rtos_spec _ ex_pool_run] by simp


end
