(* ===== verification/AgentTask.thy ===== *)
theory AgentTask
  imports SubSpec
begin

text \<open>
  The reconnect loop of the MQTT agent's task (\<open>vMQTTAgentTask\<close> of
  \<open>src/source/mqtt_agent/mqtt_agent_task.c\<close>): who holds the mutex of the subscription manager, which
  system events are set, and what becomes of the subscriptions from one connection to the next.

  The MQTT library, the TLS transport and the back-off library are not part of the model: what they
  answer in one round of the loop is the record \<open>agent_env\<close>.
\<close>

subsection \<open>One round\<close>

record agent_state =
  xSubMgrCtx :: SubMgrCtx_t
  cleanSession :: bool
  evt_mqtt_init :: bool
  evt_mqtt_connected :: bool
  xExitFlag :: bool

text \<open>
  The answers of one round: for each attempt to connect whether it succeeded and whether the back-off
  allows another; the results of \<open>MQTT_Connect\<close>, \<open>MQTTAgent_ResumeSession\<close> and
  \<open>MQTTAgent_Subscribe\<close>; what the command loop returns and what the tables are then, after the other
  tasks used them; and whether the back-off allows another round.
\<close>

record agent_env =
  attempts :: "(bool \<times> bool) list"
  connect_status :: MQTTStatus_t
  xSessionPresent :: bool
  resume_status :: MQTTStatus_t
  subscribe_status :: MQTTStatus_t
  command_loop :: "SubMgrCtx_t \<Rightarrow> MQTTStatus_t \<times> SubMgrCtx_t"
  retry_allowed :: bool

text \<open>The inner loop: whether the broker was reached, and the new exit flag.\<close>

fun connect_broker :: "(bool \<times> bool) list \<Rightarrow> (bool \<times> bool) option" where
  "connect_broker [] = None"
| "connect_broker ((tls_ok, backoff_ok) # as) =
     (if tls_ok then Some (True, False) else if backoff_ok then connect_broker as else Some (False, True))"

text \<open>After the connection: a persistent session is resumed, a clean one starts with empty tables.\<close>

definition start_session :: "agent_env \<Rightarrow> task \<Rightarrow> agent_state \<Rightarrow> (MQTTStatus_t \<times> agent_state) option" where
  "start_session e me st =
     do { (xMQTTStatus, st1) \<leftarrow>
            (if connect_status e = MQTTSuccess \<and> \<not> cleanSession st
             then if resume_status e = MQTTSuccess \<and> \<not> xSessionPresent e
                  then do { (r, sent, s) \<leftarrow> prvHandleResubscribe (subscribe_status e) me (xSubMgrCtx st);
                            Some (r, st\<lparr>xSubMgrCtx := s\<rparr>) }
                  else Some (resume_status e, st)
             else if connect_status e = MQTTSuccess
             then do { s \<leftarrow> xUnlockSubCtx me (prvSubscriptionManagerCtxReset (xSubMgrCtx st));
                       Some (MQTTSuccess, st\<lparr>xSubMgrCtx := s\<rparr>) }
             else Some (connect_status e, st));
          Some (xMQTTStatus, if xMQTTStatus = MQTTSuccess then st1\<lparr>cleanSession := False\<rparr> else st1) }"

text \<open>
  What \<open>memset\<close> leaves in every element of \<open>pxSubAckStatus\<close>: the byte \<open>0x80\<close> in each of the \<open>esz\<close>
  bytes the compiler gives the enumeration.
\<close>

definition ack_fill :: "nat \<Rightarrow> MQTTSubAckStatus_t" where
  "ack_fill esz = (\<Sum>i \<leftarrow> [0..<esz]. 0x80 * 256 ^ i)"

text \<open>The end of a round: the events are cleared, the mutex is taken unless the task holds it.\<close>

definition end_session :: "nat \<Rightarrow> bool \<Rightarrow> task \<Rightarrow> agent_state \<Rightarrow> agent_state option" where
  "end_session esz retry me st =
     do { s \<leftarrow> (if owner (xSubMgrCtx st) = Some me then Some (xSubMgrCtx st) else xLockSubCtx me (xSubMgrCtx st));
          Some (st\<lparr>evt_mqtt_connected := False,
                   xSubMgrCtx := s\<lparr>pxSubAckStatus := replicate (length (pxSubAckStatus s)) (ack_fill esz)\<rparr>,
                   xExitFlag := xExitFlag st \<or> \<not> retry\<rparr>) }"

definition agent_round :: "nat \<Rightarrow> agent_env \<Rightarrow> task \<Rightarrow> agent_state \<Rightarrow> agent_state option" where
  "agent_round esz e me st =
     do { (reached, quit) \<leftarrow> connect_broker (attempts e);
          let st0 = st\<lparr>xExitFlag := quit\<rparr>;
          (xMQTTStatus, st1) \<leftarrow> (if reached then start_session e me st0 else Some (MQTTKeepAliveTimeout, st0));
          let st2 = (if xMQTTStatus = MQTTSuccess
                     then st1\<lparr>evt_mqtt_connected := True, xSubMgrCtx := snd (command_loop e (xSubMgrCtx st1))\<rparr>
                     else st1);
          end_session esz (retry_allowed e) me st2 }"

text \<open>The states at the head of the loop.\<close>

inductive agent_reach :: "nat \<Rightarrow> task \<Rightarrow> agent_state \<Rightarrow> bool" for esz me where
  start: "prvSubscriptionManagerCtxInit True me s0 = Some (MQTTSuccess, s) \<Longrightarrow>
    agent_reach esz me \<lparr>xSubMgrCtx = s, cleanSession = True, evt_mqtt_init = True, evt_mqtt_connected = False, xExitFlag = False\<rparr>"
| round: "agent_reach esz me st \<Longrightarrow> \<not> xExitFlag st \<Longrightarrow> agent_round esz e me st = Some st' \<Longrightarrow> agent_reach esz me st'"

subsection \<open>Lemmas\<close>

lemma owner_reset [simp]: "owner (prvSubscriptionManagerCtxReset s) = owner s"
  by (simp add: prvSubscriptionManagerCtxReset_def)

lemma handle_resubscribe_owner:
  "owner s = Some me \<Longrightarrow> prvHandleResubscribe e me s = Some (r, sent, s') \<Longrightarrow> r = MQTTSuccess \<and> owner s' = None"
  by (auto simp: prvHandleResubscribe_def xUnlockSubCtx_def Let_def split: prod.splits)

lemma handle_resubscribe_returns:
  "owner s = Some me \<Longrightarrow> \<exists>s'. prvHandleResubscribe e me s = Some (MQTTSuccess, None, s') \<and> owner s' = None"
  by (auto simp: prvHandleResubscribe_def xUnlockSubCtx_def Let_def split: prod.splits)

lemma agent_head:
  assumes "agent_reach esz me st"
  shows "owner (xSubMgrCtx st) = Some me \<and> \<not> evt_mqtt_connected st \<and> evt_mqtt_init st"
  using assms
proof (induction rule: agent_reach.induct)
  case (start s0 s)
  then show ?case by (auto simp: prvSubscriptionManagerCtxInit_def xLockSubCtx_def bind_eq_Some_conv)
next
  case (round st e st')
  from round.hyps(3) obtain reached quit status st1 where
    1: "(if reached then start_session e me (st\<lparr>xExitFlag := quit\<rparr>) else Some (MQTTKeepAliveTimeout, st\<lparr>xExitFlag := quit\<rparr>)) = Some (status, st1)"
    and 2: "end_session esz (retry_allowed e) me (if status = MQTTSuccess
        then st1\<lparr>evt_mqtt_connected := True, xSubMgrCtx := snd (command_loop e (xSubMgrCtx st1))\<rparr> else st1) = Some st'"
    by (auto simp: agent_round_def bind_eq_Some_conv Let_def)
  from 1 round.IH have "evt_mqtt_init st1"
    by (auto simp: start_session_def bind_eq_Some_conv split: if_splits)
  with 2 show ?case by (auto simp: end_session_def bind_eq_Some_conv xLockSubCtx_def split: if_splits)
qed

lemma start_session_cases:
  assumes "owner (xSubMgrCtx st) = Some me" "start_session e me st = Some (MQTTSuccess, st1)"
  shows "owner (xSubMgrCtx st1) = (if \<not> cleanSession st \<and> xSessionPresent e then Some me else None)" "\<not> cleanSession st1"
  using assms handle_resubscribe_owner [OF assms(1)]
  by (auto simp: start_session_def bind_eq_Some_conv xUnlockSubCtx_def split: if_splits)


subsection \<open>The mutex and the events\<close>

text \<open>
  C5. At the head of the reconnect loop the agent's task holds the mutex and the connected event is
  clear, so that nobody subscribes without a connection; starting a session always returns, and
  when it succeeds the mutex is free exactly when the session is clean or the broker had none.
\<close>

theorem agent_mutex_discipline:
  assumes "agent_reach esz me st"
  shows "owner (xSubMgrCtx st) = Some me \<and> \<not> evt_mqtt_connected st \<and>
     (\<exists>status st1. start_session e me st = Some (status, st1) \<and>
       (status = MQTTSuccess \<longrightarrow> (owner (xSubMgrCtx st1) = None \<longleftrightarrow> cleanSession st \<or> \<not> xSessionPresent e)))"
proof -
  have o: "owner (xSubMgrCtx st) = Some me" "\<not> evt_mqtt_connected st" using agent_head [OF assms] by auto
  obtain s' where "prvHandleResubscribe (subscribe_status e) me (xSubMgrCtx st) = Some (MQTTSuccess, None, s')"
    using handle_resubscribe_returns [OF o(1)] by blast
  then have "start_session e me st \<noteq> None" using o(1) by (simp add: start_session_def xUnlockSubCtx_def)
  then obtain status st1 where s: "start_session e me st = Some (status, st1)" by auto
  have "owner (xSubMgrCtx st1) = None \<longleftrightarrow> cleanSession st \<or> \<not> xSessionPresent e" if "status = MQTTSuccess"
    unfolding start_session_cases(1) [OF o(1) s [unfolded that]] by simp
  with o s show ?thesis by (intro conjI exI [of _ status] exI [of _ st1] impI) simp_all
qed

text \<open>
  C32. When the broker still has the session, the agent resumes it without giving the mutex back:
  the connection is up, but the first incoming publish makes the agent's task wait for the mutex it
  holds itself, and every task that subscribes waits for ever.
\<close>

theorem agent_persistent_session_blocks:
  assumes "agent_reach esz me st" "\<not> cleanSession st"
    and "connect_status e = MQTTSuccess" "resume_status e = MQTTSuccess" "xSessionPresent e"
    and "c_string f" "f \<noteq> []" "length f < UINT16_MAX" "prvValidateQoS q"
  shows "\<exists>st1. start_session e me st = Some (MQTTSuccess, st1) \<and>
     prvIncomingPublishCallback mt me topic (xSubMgrCtx st1) = None \<and>
     MqttAgent_SubscribeSync mem req other True (Some f) q (Some cb) ctx (xSubMgrCtx st1) = None"
proof -
  have "owner (xSubMgrCtx st) = Some me" using agent_head [OF assms(1)] by simp
  moreover have "strnlen f UINT16_MAX = length f" using assms(6,8) by (simp add: strnlen_def strlen_def)
  ultimately show ?thesis
    using assms by (simp add: start_session_def prvIncomingPublishCallback_def MqttAgent_SubscribeSync_def Let_def xLockSubCtx_def)
qed

text \<open>The compaction leaves a first slot in use where it is.\<close>

lemma resubscribe_first:
  assumes "list_all wf_sub (pxSubscriptions s)" "pTopicFilter (hd (pxSubscriptions s)) = Some f" "pxSubscriptions s \<noteq> []"
    and "owner s = Some me"
  obtains s' g where "prvHandleResubscribe enqueue me s = Some (MQTTSuccess, None, s')" "owner s' = None"
    "pxSubscriptions s' \<noteq> []" "hd (pxSubscriptions s') = hd (pxSubscriptions s)" "pxSubAckStatus s' = pxSubAckStatus s"
    "map pxSubInfo (pxCallbacks s') = map (map_option g) (map pxSubInfo (pxCallbacks s))"
proof -
  let ?c = "compress_table (\<lambda>i. pTopicFilter i = None \<and> topicFilterLength i = 0) (\<lambda>i. topicFilterLength i \<noteq> 0)
      (\<lambda>i. pTopicFilter i \<noteq> None \<and> topicFilterLength i \<noteq> 0) no_sub (pxSubscriptions s)"
  obtain subs lo cnt mv where C: "?c = (subs, lo, cnt, mv)" by (rule prod_cases4)
  have ok: "\<forall>i \<in> set (pxSubscriptions s). wf_sub i" using assms(1) by (simp add: list_all_iff)
  obtain i "is" where i: "pxSubscriptions s = i # is" using assms(3) by (cases "pxSubscriptions s") auto
  note R = st.compress_correct(4) [OF ok C, unfolded wf_sub_full [OF assms(1)]]
  have "subs \<noteq> [] \<and> hd subs = i" using R i assms(2) by auto
  with C assms(4) i show ?thesis
    by (intro that [of "s\<lparr>pxSubscriptions := subs, pxCallbacks := map (\<lambda>c. c\<lparr>pxSubInfo := map_option (follow mv) (pxSubInfo c)\<rparr>) (pxCallbacks s),
          uxSubscriptionCount := cnt, owner := None\<rparr>" "follow mv"])
      (simp_all add: prvHandleResubscribe_def prvCompressSubscriptionList_def update_refs_follow xUnlockSubCtx_def)
qed

lemma ack_fill_sizes: "ack_fill 1 = MQTTSubAckFailure" "ack_fill 4 = 0x80808080"
proof -
  have "[0..<4] = [0, 1, 2, 3 :: nat]" by (simp add: upt_rec)
  then show "ack_fill 1 = MQTTSubAckFailure" "ack_fill 4 = 0x80808080" by (simp_all add: ack_fill_def)
qed

text \<open>
  Where the enumeration of answers takes four bytes, a subscription is lost over a reconnection
  to a broker without the session: after the disconnection its answer no longer reads as a failure,
  the renewal sends nothing, and subscribing to the same filter again reports success without a
  request, whatever the broker would answer.
\<close>

lemma agent_subscription_lost:
  assumes "sub_wf (xSubMgrCtx st)" "owner (xSubMgrCtx st) = None" "uxCallbackCount (xSubMgrCtx st) < 10"
    and "pTopicFilter (hd (pxSubscriptions (xSubMgrCtx st))) = Some f" "qos (hd (pxSubscriptions (xSubMgrCtx st))) = q"
    and "prvValidateQoS q" "length f < UINT16_MAX" "\<not> cleanSession st"
    and "connect_status e = MQTTSuccess" "resume_status e = MQTTSuccess" "\<not> xSessionPresent e"
  shows "\<exists>st1 st2 s'. end_session 4 retry me st = Some st1 \<and> start_session e me st1 = Some (MQTTSuccess, st2) \<and>
     MqttAgent_SubscribeSync mem req other True (Some f) q (Some cb) ctx (xSubMgrCtx st2) = Some (MQTTSuccess, s') \<and>
     pxSubAckStatus s' = pxSubAckStatus (xSubMgrCtx st2)"
proof -
  let ?s = "xSubMgrCtx st"
  let ?s1 = "?s\<lparr>owner := Some me, pxSubAckStatus := replicate 10 (ack_fill 4)\<rparr>"
  let ?st1 = "st\<lparr>evt_mqtt_connected := False, xSubMgrCtx := ?s1, xExitFlag := xExitFlag st \<or> \<not> retry\<rparr>"
  note W = sub_wfD [OF assms(1)]
  have 1: "end_session 4 retry me st = Some ?st1" using assms(2) W(2) by (simp add: end_session_def xLockSubCtx_def)
  have ne: "pxSubscriptions ?s \<noteq> []" using W(1) by auto
  have wf: "list_all wf_sub (pxSubscriptions ?s)" using assms(1) by (simp add: sub_wf_def)
  obtain s2 g where 2: "prvHandleResubscribe (subscribe_status e) me ?s1 = Some (MQTTSuccess, None, s2)" "owner s2 = None"
    "pxSubscriptions s2 \<noteq> []" "hd (pxSubscriptions s2) = hd (pxSubscriptions ?s)" "pxSubAckStatus s2 = replicate 10 (ack_fill 4)"
    "map pxSubInfo (pxCallbacks s2) = map (map_option g) (map pxSubInfo (pxCallbacks ?s))"
    using resubscribe_first [of ?s1 f me] wf ne assms(4) by auto
  have st2: "start_session e me ?st1 = Some (MQTTSuccess, ?st1\<lparr>xSubMgrCtx := s2, cleanSession := False\<rparr>)"
    using 2(1) assms(8-11) by (simp add: start_session_def)
  have hd: "wf_sub (hd (pxSubscriptions ?s))" using wf ne by (cases "pxSubscriptions ?s") auto
  have "c_string f" using hd assms(4) by (simp add: wf_sub_def)
  moreover have "\<exists>c \<in> set (pxCallbacks s2). pxSubInfo c = None"
  proof -
    obtain c where "c \<in> set (pxCallbacks ?s)" "pxSubInfo c = None" using free_callback_slot [OF assms(1,3)] by blast
    then have "None \<in> set (map pxSubInfo (pxCallbacks s2))" unfolding 2(6) by force
    then show ?thesis by force
  qed
  moreover have "length (pxCallbacks s2) = 10" using arg_cong [OF 2(6), of length] W(4) by simp
  ultimately have "\<exists>s'. MqttAgent_SubscribeSync mem req other True (Some (f @ [])) q (Some cb) ctx s2 = Some (MQTTSuccess, s') \<and>
      pxSubscriptions s' = pxSubscriptions s2 \<and> pxSubAckStatus s' = pxSubAckStatus s2"
    using 2(2-5) hd assms(4-7) by (intro subscribe_known) (auto simp: ack_fill_sizes)
  with 1 st2 show ?thesis by auto
qed

subsection \<open>Concrete runs\<close>

definition ex_head :: "SubMgrCtx_t \<Rightarrow> bool \<Rightarrow> agent_state" where
  "ex_head s clean = \<lparr>xSubMgrCtx = s, cleanSession = clean, evt_mqtt_init = True, evt_mqtt_connected = False, xExitFlag = False\<rparr>"

text \<open>A round in which the broker is reached at the second attempt and nobody subscribes.\<close>

definition ex_env :: "bool \<Rightarrow> agent_env" where
  "ex_env present = \<lparr>attempts = [(False, True), (True, True)], connect_status = MQTTSuccess, xSessionPresent = present,
     resume_status = MQTTSuccess, subscribe_status = MQTTSuccess, command_loop = (\<lambda>s. (MQTTKeepAliveTimeout, s)), retry_allowed = True\<rparr>"

lemma ex_agent_start: "agent_reach 4 1 (ex_head ((prvSubscriptionManagerCtxReset (ex_sub ''a'' 1))\<lparr>owner := Some 1\<rparr>) True)"
  unfolding ex_head_def
  by (rule agent_reach.start [of _ "ex_sub ''a'' 1"])
    (simp add: prvSubscriptionManagerCtxInit_def xLockSubCtx_def prvSubscriptionManagerCtxReset_def)

definition ex_second :: agent_state where
  "ex_second = the (agent_round 4 (ex_env False) 1 (ex_head ((prvSubscriptionManagerCtxReset (ex_sub ''a'' 1))\<lparr>owner := Some 1\<rparr>) True))"

lemma ex_agent_second: "agent_reach 4 1 ex_second" "\<not> cleanSession ex_second"
proof -
  let ?st = "ex_head ((prvSubscriptionManagerCtxReset (ex_sub ''a'' 1))\<lparr>owner := Some 1\<rparr>) True"
  have "\<exists>st'. agent_round 4 (ex_env False) 1 ?st = Some st' \<and> \<not> cleanSession st'"
    by (simp add: agent_round_def ex_env_def ex_head_def start_session_def end_session_def xUnlockSubCtx_def xLockSubCtx_def)
  then obtain st' where "agent_round 4 (ex_env False) 1 ?st = Some st'" "\<not> cleanSession st'" by blast
  moreover from agent_reach.round [OF ex_agent_start _ this(1)] have "agent_reach 4 1 st'" by (simp add: ex_head_def)
  ultimately show "agent_reach 4 1 ex_second" "\<not> cleanSession ex_second" by (simp_all add: ex_second_def)
qed

theorem agent_mutex_discipline_witness:
  "owner (xSubMgrCtx ex_second) = Some 1 \<and> \<not> evt_mqtt_connected ex_second \<and>
     (\<exists>status st1. start_session (ex_env False) 1 ex_second = Some (status, st1))"
  using agent_mutex_discipline [OF ex_agent_second(1), of "ex_env False"] by blast

theorem agent_persistent_session_blocks_witness:
  "\<exists>st1. start_session (ex_env True) 1 ex_second = Some (MQTTSuccess, st1) \<and>
     prvIncomingPublishCallback (=) 1 ''a'' (xSubMgrCtx st1) = None \<and>
     MqttAgent_SubscribeSync True ex_broker 2 True (Some ''a'') 1 (Some 3) 9 (xSubMgrCtx st1) = None"
  by (rule agent_persistent_session_blocks [OF ex_agent_second]) (simp_all add: ex_env_def prvValidateQoS_def)


end
