(* ===== verification/AgentConfig.thy ===== *)
theory AgentConfig
  imports KvSpec SubMgr
begin

text \<open>
  The configuration of the MQTT agent from the key/value store (\<open>prvConfigureAgentTaskCtx\<close> and
  \<open>prvFreeAgentTaskCtx\<close> of \<open>src/source/mqtt_agent/mqtt_agent_task.c\<close>): the thing name becomes the
  client identifier, the endpoint and the port say where to connect. The getters are those of
  \<open>KvStore\<close>, run on the cache of \<open>KvCache\<close>.
\<close>

abbreviation (input) CS_CORE_THING_NAME :: KVStoreKey_t where "CS_CORE_THING_NAME \<equiv> 0"
abbreviation (input) CS_CORE_MQTT_ENDPOINT :: KVStoreKey_t where "CS_CORE_MQTT_ENDPOINT \<equiv> 1"
abbreviation (input) CS_CORE_MQTT_PORT :: KVStoreKey_t where "CS_CORE_MQTT_PORT \<equiv> 2"

text \<open>
  The fields the configuration sets: a connection flag, the strings of the heap, the lengths, the
  port, whether the message queue exists, and the subscription manager. Constants that are stored
  for the MQTT library (the user name, the transport functions, the message interface) are left out.
\<close>

record MQTTAgentTaskCtx_t =
  cfg_cleanSession :: bool
  pClientIdentifier :: "byte list option"
  clientIdentifierLength :: nat
  cfg_xQueue :: bool
  pcMqttEndpoint :: "byte list option"
  uxMqttEndpointLen :: nat
  ulMqttPort :: u32
  cfg_subMgr :: SubMgrCtx_t

definition zero_ctx :: "SubMgrCtx_t \<Rightarrow> MQTTAgentTaskCtx_t" where
  "zero_ctx s = \<lparr>cfg_cleanSession = False, pClientIdentifier = None, clientIdentifierLength = 0, cfg_xQueue = False,
     pcMqttEndpoint = None, uxMqttEndpointLen = 0, ulMqttPort = 0, cfg_subMgr = s\<rparr>"

text \<open>
  The steps, each skipped after a failure. \<open>gs\<close> and \<open>gu\<close> are the two getters, \<open>queue_ok\<close> and
  \<open>mutex_ok\<close> whether the kernel can create the queue and the mutex, \<open>s0\<close> the zeroed tables. The
  pointers handed in are not null.
\<close>

definition prvConfigureAgentTaskCtx ::
  "(KVStoreKey_t \<Rightarrow> (byte list option \<times> nat) option) \<Rightarrow> (KVStoreKey_t \<Rightarrow> (u32 \<times> bool) option) \<Rightarrow> bool \<Rightarrow> bool \<Rightarrow> task \<Rightarrow>
   SubMgrCtx_t \<Rightarrow> (MQTTStatus_t \<times> MQTTAgentTaskCtx_t) option" where
  "prvConfigureAgentTaskCtx gs gu queue_ok mutex_ok me s0 =
     do { let c0 = (zero_ctx s0)\<lparr>cfg_cleanSession := True\<rparr>;
          (ident, n) \<leftarrow> gs CS_CORE_THING_NAME;
          let c1 = c0\<lparr>pClientIdentifier := ident\<rparr>;
          (if ident = None \<or> n = 0 \<or> UINT16_MAX < n then Some (MQTTNoMemory, c1)
           else if \<not> queue_ok then Some (MQTTNoMemory, c1\<lparr>clientIdentifierLength := n\<rparr>)
           else do {
             (ep, m) \<leftarrow> gs CS_CORE_MQTT_ENDPOINT;
             let c2 = c1\<lparr>clientIdentifierLength := n, cfg_xQueue := True, pcMqttEndpoint := ep, uxMqttEndpointLen := m\<rparr>;
             (if m = 0 \<or> ep = None then Some (MQTTNoMemory, c2)
              else do {
                (port, ok) \<leftarrow> gu CS_CORE_MQTT_PORT;
                let c3 = c2\<lparr>ulMqttPort := port\<rparr>;
                (if port = 0 \<or> \<not> ok then Some (MQTTNoMemory, c3)
                 else do { (st, s) \<leftarrow> prvSubscriptionManagerCtxInit mutex_ok me s0;
                           Some (st, c3\<lparr>cfg_subMgr := s\<rparr>) }) }) }) }"

text \<open>What is released again: the queue, the two strings, and the mutex when there is one.\<close>

datatype freed = FreeQueue | FreeIdentifier | FreeEndpoint | FreeMutex | FreeCtx

definition prvFreeAgentTaskCtx :: "bool \<Rightarrow> MQTTAgentTaskCtx_t \<Rightarrow> freed list" where
  "prvFreeAgentTaskCtx has_mutex c =
     (if cfg_xQueue c then [FreeQueue] else []) @ (if pClientIdentifier c \<noteq> None then [FreeIdentifier] else []) @
     (if pcMqttEndpoint c \<noteq> None then [FreeEndpoint] else []) @ (if has_mutex then [FreeMutex] else []) @ [FreeCtx]"

text \<open>The getters as the build has them: over the cache, with the heap's buffers.\<close>

definition agent_get_string :: "(nat \<Rightarrow> byte list option) \<Rightarrow> defaults \<Rightarrow> kv_state \<Rightarrow> KVStoreKey_t \<Rightarrow> (byte list option \<times> nat) option" where
  "agent_get_string buf dfl s k = KVStore_getStringHeap prvGetCacheEntryLength xprvCopyValueFromCache buf dfl s k"

definition agent_get_uint32 :: "defaults \<Rightarrow> kv_state \<Rightarrow> KVStoreKey_t \<Rightarrow> (u32 \<times> bool) option" where
  "agent_get_uint32 dfl s k = KVStore_getUInt32 xprvCopyValueFromCache dfl s k"

text \<open>
  C18. When the store holds a thing name of at most 65535 characters, an endpoint and a port other
  than 0, the agent is configured with exactly these: the strings with their terminators, their
  lengths without them, and the port; the first session is clean, the subscription tables are
  empty and the agent's task holds their mutex.
\<close>

theorem agent_configured_from_store:
  assumes "malloc_spec mal" "cache_inv s"
    and "kv_view s 0 = Some (KV_TYPE_STRING, thing @ [0])" "thing \<noteq> []" "length thing \<le> UINT16_MAX"
    and "kv_view s 1 = Some (KV_TYPE_STRING, ep @ [0])" "ep \<noteq> []" "length ep < 2 ^ 31"
    and "kv_view s 2 = Some (KV_TYPE_UINT32, le_bytes port)" "port \<noteq> 0"
    and "buf (length thing + 1) = Some b0" "length b0 = length thing + 1" "buf (length ep + 1) = Some b1" "length b1 = length ep + 1"
  shows "prvConfigureAgentTaskCtx (agent_get_string buf (kvStoreDefaults lit) s) (agent_get_uint32 (kvStoreDefaults lit) s) True True me s0 =
     Some (MQTTSuccess, \<lparr>cfg_cleanSession = True, pClientIdentifier = Some (thing @ [0]), clientIdentifierLength = length thing,
       cfg_xQueue = True, pcMqttEndpoint = Some (ep @ [0]), uxMqttEndpointLen = length ep, ulMqttPort = port,
       cfg_subMgr = prvSubscriptionManagerCtxReset (s0\<lparr>owner := Some me\<rparr>)\<rparr>)"
proof -
  have c: "malloc_spec mal \<and> cache_inv s" using assms(1,2) by simp
  have k: "dfl_type (kvStoreDefaults lit) 0 = KV_TYPE_STRING" "dfl_type (kvStoreDefaults lit) 1 = KV_TYPE_STRING"
    "dfl_type (kvStoreDefaults lit) 2 = KV_TYPE_UINT32"
    by (simp_all add: kvStoreDefaults_def KV_DFLT_STRING_def KV_DFLT_UINT32_def)
  have 0: "agent_get_string buf (kvStoreDefaults lit) s 0 = Some (Some (thing @ [0]), length thing)"
    unfolding agent_get_string_def using kvc.getStringHeap_value [where mal = buf, OF c _ k(1) assms(3,4,11,12)] assms(5) by simp
  have 1: "agent_get_string buf (kvStoreDefaults lit) s 1 = Some (Some (ep @ [0]), length ep)"
    unfolding agent_get_string_def using kvc.getStringHeap_value [where mal = buf, OF c _ k(2) assms(6,7,13,14)] assms(8) by simp
  have 2: "agent_get_uint32 (kvStoreDefaults lit) s 2 = Some (port, True)"
    unfolding agent_get_uint32_def KVStore_getUInt32_def using kvc.getScalar_value [OF c _ k(3) assms(9)] by simp
  show ?thesis using 0 1 2 assms(4,5,7,10)
    by (simp add: prvConfigureAgentTaskCtx_def zero_ctx_def prvSubscriptionManagerCtxInit_def xLockSubCtx_def Let_def)
qed


definition ex_cfg :: kv_state where
  "ex_cfg = \<lparr>kvStoreCache =
     [\<lparr>ce_type = KV_TYPE_STRING, ce_length = 2, ce_union = 0x74, ce_pending = True\<rparr>,
      \<lparr>ce_type = KV_TYPE_STRING, ce_length = 3, ce_union = 0x7065, ce_pending = True\<rparr>,
      \<lparr>ce_type = KV_TYPE_UINT32, ce_length = 4, ce_union = 8883, ce_pending = True\<rparr>] @ replicate 3 empty_entry, heap = Map.empty\<rparr>"

lemma ex_cfg_inv: "cache_inv ex_cfg"
proof -
  have "ce_length (entry ex_cfg k) \<le> 4" if "k < 6" for k
  proof -
    have "k \<in> {0, 1, 2, 3, 4, 5}" using that by auto
    then show ?thesis by (auto simp: ex_cfg_def empty_entry_def)
  qed
  moreover have "ce_pending (entry ex_cfg k) \<Longrightarrow> ce_type (entry ex_cfg k) \<noteq> KV_TYPE_NONE" if "k < 6" for k
  proof -
    have "k \<in> {0, 1, 2, 3, 4, 5}" using that by auto
    then show "ce_pending (entry ex_cfg k) \<Longrightarrow> ?thesis" by (auto simp: ex_cfg_def empty_entry_def)
  qed
  ultimately show ?thesis by (fastforce simp: cache_inv_def on_heap_def ex_cfg_def)
qed

lemma ex_cfg_view:
  "kv_view ex_cfg 0 = Some (KV_TYPE_STRING, [0x74] @ [0])"
  "kv_view ex_cfg 1 = Some (KV_TYPE_STRING, [0x65, 0x70] @ [0])" "kv_view ex_cfg 2 = Some (KV_TYPE_UINT32, le_bytes 8883)"
  by (simp_all add: ex_cfg_def kv_view_def entry_data_def le_bytes_def)

theorem agent_configured_from_store_witness:
  "prvConfigureAgentTaskCtx (agent_get_string (\<lambda>n. Some (replicate n 0)) (kvStoreDefaults (\<lambda>k. 0)) ex_cfg)
       (agent_get_uint32 (kvStoreDefaults (\<lambda>k. 0)) ex_cfg) True True 1 \<lparr>pxSubscriptions = [], pxSubAckStatus = [], pulSubCbCount = [],
         pxCallbacks = [], uxSubscriptionCount = 0, uxCallbackCount = 0, owner = None\<rparr> =
     Some (MQTTSuccess, \<lparr>cfg_cleanSession = True, pClientIdentifier = Some ([0x74] @ [0]), clientIdentifierLength = length [0x74 :: byte],
       cfg_xQueue = True, pcMqttEndpoint = Some ([0x65, 0x70] @ [0]), uxMqttEndpointLen = length [0x65, 0x70 :: byte], ulMqttPort = 8883,
       cfg_subMgr = prvSubscriptionManagerCtxReset (\<lparr>pxSubscriptions = [], pxSubAckStatus = [], pulSubCbCount = [],
         pxCallbacks = [], uxSubscriptionCount = 0, uxCallbackCount = 0, owner = None\<rparr>\<lparr>owner := Some 1\<rparr>)\<rparr>)"
  by (rule agent_configured_from_store [OF first_fit_spec ex_cfg_inv ex_cfg_view(1) _ _ ex_cfg_view(2) _ _ ex_cfg_view(3) _ refl _ refl]) simp_all

end
