(* ===== verification/Cli.thy ===== *)
theory Cli
  imports Prelude
begin

text \<open>
  The command line dispatcher (\<open>src/source/cli/cli_main.c\<close>): the list of registered commands, the
  search for the command of an input line, its split into words, \<open>FreeRTOS_CLIGetParameter\<close> and the
  \<open>help\<close> command. An input line is a C string, given without its terminator; a pointer into it is
  the rest of the line from there.
\<close>

subsection \<open>Commands\<close>

record CLI_Command_Definition_t =
  pcCommand :: string
  pcHelpString :: string

type_synonym commands = "CLI_Command_Definition_t list"

abbreviation crlf :: string where
  "crlf \<equiv> [CHR 0x0D, CHR 0x0A]"

text \<open>\<open>help\<close> is always in front of the list.\<close>

definition xHelpCommand :: CLI_Command_Definition_t where
  "xHelpCommand = \<lparr>pcCommand = ''help'', pcHelpString =
     ''help:'' @ crlf @ ''    List available commands and their arguments.'' @ crlf @ ''    Usage:'' @ crlf @ [CHR 0x0A] @
     ''    help'' @ crlf @ ''        Print help for all recognized commands'' @ crlf @ [CHR 0x0A] @
     ''    help <command>'' @ crlf @ ''        Print help test for a specific command'' @ crlf @ [CHR 0x0A]\<rparr>"

text \<open>\<open>mem\<close>: whether the list item can be allocated; without it the assertion stops.\<close>

definition FreeRTOS_CLIRegisterCommand :: "bool \<Rightarrow> CLI_Command_Definition_t \<Rightarrow> commands \<Rightarrow> (bool \<times> commands) option" where
  "FreeRTOS_CLIRegisterCommand mem pxCommandToRegister xRegisteredCommands =
     do { configASSERT mem; Some (True, xRegisteredCommands @ [pxCommandToRegister]) }"

definition command_matches :: "string \<Rightarrow> string \<Rightarrow> bool" where
  "command_matches pcCommandInput pcRegisteredCommandString =
     (let n = strlen pcRegisteredCommandString in
      strncmp_eq pcCommandInput pcRegisteredCommandString n \<and>
      (char_at pcCommandInput n = CHR '' '' \<or> char_at pcCommandInput n = NUL))"

fun prvFindMatchingCommand :: "commands \<Rightarrow> string \<Rightarrow> CLI_Command_Definition_t option" where
  "prvFindMatchingCommand [] pcCommandInput = None"
| "prvFindMatchingCommand (c # cs) pcCommandInput =
     (if command_matches pcCommandInput (pcCommand c) then Some c else prvFindMatchingCommand cs pcCommandInput)"

subsection \<open>Words\<close>

text \<open>A word ends where a character that is no space is followed by a space or the end.\<close>

fun prvGetNumberOfArgs :: "string \<Rightarrow> nat" where
  "prvGetNumberOfArgs [] = 0"
| "prvGetNumberOfArgs (c # cs) =
     (if c \<noteq> CHR '' '' \<and> (cs = [] \<or> hd cs = CHR '' '') then 1 else 0) + prvGetNumberOfArgs cs"

abbreviation is_space :: "char \<Rightarrow> bool" where
  "is_space c \<equiv> c = CHR '' ''"

text \<open>\<open>strtok_r\<close> with the delimiter space: the token, if there is one, and the rest behind its delimiter.\<close>

definition strtok_r :: "string \<Rightarrow> string option \<times> string" where
  "strtok_r s =
     (let t = dropWhile is_space s in
      if t = [] then (None, []) else (Some (takeWhile (\<lambda>c. \<not> is_space c) t), tl (dropWhile (\<lambda>c. \<not> is_space c) t)))"

text \<open>The loop that fills \<open>pcArgv\<close>; every token it asks for has to be there.\<close>

fun read_tokens :: "nat \<Rightarrow> string \<Rightarrow> (string list \<times> string) option" where
  "read_tokens 0 ctx = Some ([], ctx)"
| "read_tokens (Suc n) ctx =
     (case strtok_r ctx of
        (None, ctx') \<Rightarrow> None
      | (Some t, ctx') \<Rightarrow> do { (ts, rest) \<leftarrow> read_tokens n ctx'; Some (t # ts, rest) })"

datatype cli_action = Run CLI_Command_Definition_t nat "string list" | NotRecognized

definition FreeRTOS_CLIProcessCommand :: "commands \<Rightarrow> string \<Rightarrow> cli_action option" where
  "FreeRTOS_CLIProcessCommand xRegisteredCommands pcCommandInput =
     (case prvFindMatchingCommand xRegisteredCommands pcCommandInput of
        Some c \<Rightarrow>
          let ulArgC = prvGetNumberOfArgs pcCommandInput in
          do { (pcArgv, ctx) \<leftarrow> read_tokens ulArgC pcCommandInput;
               configASSERT (fst (strtok_r ctx) = None);
               Some (Run c ulArgC pcArgv) }
      | None \<Rightarrow> Some NotRecognized)"

text \<open>
  The parameter's text and length. The inner loops skip a word and the spaces behind it, then
  measure the wanted word.
\<close>

function GetParameter_loop :: "string \<Rightarrow> nat \<Rightarrow> nat \<Rightarrow> (string \<times> nat) option" where
  "GetParameter_loop s found uxWantedParameter =
     (if found < uxWantedParameter
      then let t = dropWhile is_space (dropWhile (\<lambda>c. \<not> is_space c) s) in
           if t \<noteq> []
           then if found + 1 = uxWantedParameter
                then Some (t, length (takeWhile (\<lambda>c. \<not> is_space c) t))
                else GetParameter_loop t (found + 1) uxWantedParameter
           else None
      else None)"
  by pat_completeness auto
termination by (relation "measure (\<lambda>(s, f, w). w - f)") auto

declare GetParameter_loop.simps [simp del]

definition FreeRTOS_CLIGetParameter :: "string \<Rightarrow> nat \<Rightarrow> (string \<times> nat) option" where
  "FreeRTOS_CLIGetParameter pcCommandString uxWantedParameter = GetParameter_loop pcCommandString 0 uxWantedParameter"

subsection \<open>Help\<close>

text \<open>
  \<open>pxCommand\<close> is a static variable: the rest of the command list it points at, empty for NULL. The
  result is what is printed and its new value.
\<close>

fun help_search :: "commands \<Rightarrow> string \<Rightarrow> commands" where
  "help_search [] w = []"
| "help_search (c # cs) w = (if strncmp_eq (pcCommand c) w (strlen (pcCommand c)) then c # cs else help_search cs w)"

definition prvHelpCommand :: "commands \<Rightarrow> string list \<Rightarrow> commands \<Rightarrow> string list \<times> commands" where
  "prvHelpCommand xRegisteredCommands ppcArgv pxCommand =
     (let p = (if 1 < length ppcArgv then help_search xRegisteredCommands (ppcArgv ! 1) else pxCommand) in
      case p of
        c # cs \<Rightarrow> ([pcHelpString c], p)
      | [] \<Rightarrow> (map pcHelpString xRegisteredCommands, []))"

subsection \<open>The words of a line\<close>

text \<open>The specification: the maximal runs of characters other than space.\<close>

function cli_words :: "string \<Rightarrow> string list" where
  "cli_words s =
     (let t = dropWhile is_space s in
      if t = [] then [] else takeWhile (\<lambda>c. \<not> is_space c) t # cli_words (dropWhile (\<lambda>c. \<not> is_space c) t))"
  by pat_completeness auto
termination
proof (relation "measure length")
  fix s t :: string
  assume t: "t = dropWhile is_space s" "t \<noteq> []"
  have "length (dropWhile (\<lambda>c. \<not> is_space c) t) < length t"
  proof -
    obtain c r where c: "t = c # r" using t(2) by (cases t) auto
    have "dropWhile is_space s \<noteq> []" using t by simp
    from hd_dropWhile [OF this] have "\<not> is_space c" using t(1) c by (metis list.sel(1))
    with c show ?thesis by (simp add: le_imp_less_Suc length_dropWhile_le)
  qed
  also have "\<dots> \<le> length s" using t length_dropWhile_le by blast
  finally show "(dropWhile (\<lambda>c. \<not> is_space c) t, s) \<in> measure length" by simp
qed simp

declare cli_words.simps [simp del]

lemma cli_words_space [simp]: "cli_words (CHR '' '' # s) = cli_words s"
  by (subst (1 2) cli_words.simps) simp

lemma cli_words_Nil [simp]: "cli_words [] = []"
  by (simp add: cli_words.simps)

lemma cli_words_word:
  assumes "w \<noteq> []" "\<forall>c \<in> set w. \<not> is_space c" "s = [] \<or> is_space (hd s)"
  shows "cli_words (w @ s) = w # cli_words s"
proof -
  have "dropWhile is_space (w @ s) = w @ s" using assms(1,2) by (cases w) auto
  moreover have "takeWhile (\<lambda>c. \<not> is_space c) (w @ s) = w" "dropWhile (\<lambda>c. \<not> is_space c) (w @ s) = s"
    using assms(2,3) by (cases s; simp add: takeWhile_append dropWhile_append)+
  ultimately show ?thesis using assms(1) by (subst cli_words.simps) (simp add: Let_def)
qed

text \<open>Induction along the words: an empty rest, a space, or a whole word in front.\<close>

lemma line_induct [case_names Nil space word]:
  assumes "P []" "\<And>s. P s \<Longrightarrow> P (CHR '' '' # s)"
    and "\<And>w s. w \<noteq> [] \<Longrightarrow> \<forall>c \<in> set w. \<not> is_space c \<Longrightarrow> s = [] \<or> is_space (hd s) \<Longrightarrow> P s \<Longrightarrow> P (w @ s)"
  shows "P s"
proof (induction s rule: length_induct)
  case (1 s)
  show ?case
  proof (cases s)
    case (Cons c cs)
    show ?thesis
    proof (cases "is_space c")
      case True
      with 1 Cons assms(2) [of cs] show ?thesis by simp
    next
      case False
      let ?w = "takeWhile (\<lambda>c. \<not> is_space c) s"
      let ?r = "dropWhile (\<lambda>c. \<not> is_space c) s"
      have r: "?r = [] \<or> is_space (hd ?r)" using hd_dropWhile [of "\<lambda>c. \<not> is_space c" s] by blast
      have l: "length ?r < length s" using Cons False by (simp add: le_imp_less_Suc length_dropWhile_le)
      have w: "?w \<noteq> []" "\<forall>c \<in> set ?w. \<not> is_space c" using Cons False by (auto dest: set_takeWhileD)
      have "P ?r" using 1 l by blast
      from assms(3) [OF w r this] show ?thesis by simp
    qed
  qed (use assms(1) in simp)
qed

lemma args_word:
  assumes "w \<noteq> []" "\<forall>c \<in> set w. \<not> is_space c" "s = [] \<or> is_space (hd s)"
  shows "prvGetNumberOfArgs (w @ s) = Suc (prvGetNumberOfArgs s)"
  using assms
proof (induction w)
  case (Cons c w)
  show ?case
  proof (cases w)
    case Nil
    with Cons show ?thesis by simp
  next
    case (Cons d w')
    with Cons.IH Cons.prems show ?thesis by simp
  qed
qed simp

lemma args_words: "prvGetNumberOfArgs s = length (cli_words s)"
  by (induction s rule: line_induct) (simp_all add: args_word cli_words_word)

lemma strtok_word:
  assumes "w \<noteq> []" "\<forall>c \<in> set w. \<not> is_space c" "s = [] \<or> is_space (hd s)"
  shows "strtok_r (w @ s) = (Some w, tl s)"
proof -
  have "dropWhile is_space (w @ s) = w @ s" using assms(1,2) by (cases w) auto
  moreover have "takeWhile (\<lambda>c. \<not> is_space c) (w @ s) = w" "dropWhile (\<lambda>c. \<not> is_space c) (w @ s) = s"
    using assms(2,3) by (cases s; simp add: takeWhile_append dropWhile_append)+
  ultimately show ?thesis using assms(1) by (simp add: strtok_r_def)
qed

lemma strtok_space [simp]: "strtok_r (CHR '' '' # s) = strtok_r s"
  by (simp add: strtok_r_def)

lemma cli_words_tl: "s = [] \<or> is_space (hd s) \<Longrightarrow> cli_words (tl s) = cli_words s"
  by (cases s) auto

text \<open>Reading as many tokens as there are words gives the words and leaves none.\<close>

lemma strtok_none: "cli_words s = [] \<Longrightarrow> fst (strtok_r s) = None"
  by (induction s rule: line_induct) (simp_all add: strtok_r_def cli_words_word)

lemma read_tokens_words:
  "\<exists>rest. read_tokens (length (cli_words s)) s = Some (cli_words s, rest) \<and> fst (strtok_r rest) = None"
proof (induction "length (cli_words s)" arbitrary: s)
  case 0
  then show ?case using strtok_none by simp
next
  case (Suc n)
  have "\<exists>w r. strtok_r s = (Some w, r) \<and> cli_words s = w # cli_words r" if "cli_words s \<noteq> []"
    using that
  proof (induction s rule: line_induct)
    case (word w s)
    then show ?case using strtok_word cli_words_word cli_words_tl by metis
  qed simp_all
  with Suc.hyps(2) obtain w r where w: "strtok_r s = (Some w, r)" "cli_words s = w # cli_words r" by fastforce
  with Suc.hyps(1) [of r] Suc.hyps(2) show ?case by auto
qed

text \<open>The search finds the command that is the first word.\<close>

lemma command_matches_word:
  assumes "c_string s" "c_string n" "n \<noteq> []" "\<forall>c \<in> set n. \<not> is_space c"
  shows "command_matches s n \<longleftrightarrow> \<not> is_space (hd s) \<and> cli_words s \<noteq> [] \<and> hd (cli_words s) = n"
proof
  assume "command_matches s n"
  then have "strncmp_eq s n (length n)" and e: "char_at s (length n) = CHR '' '' \<or> char_at s (length n) = NUL"
    using assms(2) by (simp_all add: command_matches_def strlen_def Let_def)
  then obtain r where r: "s = n @ r" using strncmp_eq_prefix [OF assms(1,2)] by blast
  have "r = [] \<or> is_space (hd r)"
    using e assms(1) r by (cases r) (auto simp: char_at_def nth_append)
  with assms(3,4) r show "\<not> is_space (hd s) \<and> cli_words s \<noteq> [] \<and> hd (cli_words s) = n"
    using cli_words_word [OF assms(3,4)] by (cases n) auto
next
  assume a: "\<not> is_space (hd s) \<and> cli_words s \<noteq> [] \<and> hd (cli_words s) = n"
  have "\<exists>r. s = n @ r \<and> (r = [] \<or> is_space (hd r))"
    using a
  proof (induction s rule: line_induct)
    case (word w s)
    then show ?case using cli_words_word [OF word(1-3)] by auto
  qed simp_all
  then obtain r where r: "s = n @ r" "r = [] \<or> is_space (hd r)" by blast
  have "strncmp_eq s n (length n)" using strncmp_eq_prefix [OF assms(1,2)] r(1) by blast
  moreover have "char_at s (length n) = CHR '' '' \<or> char_at s (length n) = NUL"
    using r assms(1) by (cases r) (auto simp: char_at_def nth_append)
  ultimately show "command_matches s n" using assms(2) by (simp add: command_matches_def strlen_def Let_def)
qed

definition cmds_ok :: "commands \<Rightarrow> bool" where
  "cmds_ok cmds = list_all (\<lambda>c. c_string (pcCommand c) \<and> pcCommand c \<noteq> [] \<and> list_all (\<lambda>x. \<not> is_space x) (pcCommand c)) cmds"

text \<open>
  C17. Every input line is processed without a failed assertion: the first registered command whose
  name is the line's first word, when the line starts with it, is run with exactly the words of the
  line as its arguments; otherwise the line is reported as not recognized.
\<close>

theorem cli_process_words:
  assumes "cmds_ok cmds" "c_string s"
  shows "FreeRTOS_CLIProcessCommand cmds s =
     Some (case find (\<lambda>c. \<not> is_space (hd s) \<and> cli_words s \<noteq> [] \<and> hd (cli_words s) = pcCommand c) cmds of
             Some c \<Rightarrow> Run c (length (cli_words s)) (cli_words s)
           | None \<Rightarrow> NotRecognized)"
proof -
  have "prvFindMatchingCommand cmds s = find (\<lambda>c. \<not> is_space (hd s) \<and> cli_words s \<noteq> [] \<and> hd (cli_words s) = pcCommand c) cmds"
    using assms(1)
  proof (induction cmds)
    case (Cons c cs)
    then have "command_matches s (pcCommand c) \<longleftrightarrow> \<not> is_space (hd s) \<and> cli_words s \<noteq> [] \<and> hd (cli_words s) = pcCommand c"
      by (intro command_matches_word) (auto simp: cmds_ok_def list_all_iff assms(2))
    with Cons show ?case by (simp add: cmds_ok_def)
  qed simp
  moreover obtain rest where "read_tokens (length (cli_words s)) s = Some (cli_words s, rest)" "fst (strtok_r rest) = None"
    using read_tokens_words by blast
  ultimately show ?thesis by (auto simp: FreeRTOS_CLIProcessCommand_def args_words split: option.splits)
qed


subsection \<open>Parameters by number\<close>

lemma words_next:
  assumes "s = [] \<or> \<not> is_space (hd s)" "t = dropWhile is_space (dropWhile (\<lambda>c. \<not> is_space c) s)"
  shows "cli_words t = tl (cli_words s)" "t = [] \<or> \<not> is_space (hd t)" "t = [] \<longleftrightarrow> length (cli_words s) \<le> 1"
proof -
  have h: "t = [] \<or> \<not> is_space (hd t)" using hd_dropWhile [of is_space "dropWhile (\<lambda>c. \<not> is_space c) s"] assms(2) by blast
  have e: "cli_words (dropWhile is_space r) = cli_words r" for r by (induction r) auto
  have "cli_words (dropWhile (\<lambda>c. \<not> is_space c) s) = tl (cli_words s)"
    using assms(1) by (subst (2) cli_words.simps) (cases s; simp)
  then show w: "cli_words t = tl (cli_words s)" using assms(2) e by simp
  show "t = [] \<or> \<not> is_space (hd t)" by (rule h)
  have "t \<noteq> [] \<Longrightarrow> cli_words t \<noteq> []" using h by (cases t) (simp_all add: cli_words.simps)
  moreover have "cli_words s = [] \<Longrightarrow> tl (cli_words s) = []" by simp
  ultimately show "t = [] \<longleftrightarrow> length (cli_words s) \<le> 1" using w by (cases "cli_words s") auto
qed

lemma first_word: "t \<noteq> [] \<Longrightarrow> \<not> is_space (hd t) \<Longrightarrow> takeWhile (\<lambda>c. \<not> is_space c) t = hd (cli_words t)"
  by (cases t) (simp_all add: cli_words.simps)

lemma GetParameter_loop_words:
  assumes "s = [] \<or> \<not> is_space (hd s)" "k = w - f" "f < w"
  shows "map_option (\<lambda>(t, n). take n t) (GetParameter_loop s f w) =
     (if k < length (cli_words s) then Some (cli_words s ! k) else None)"
  using assms
proof (induction k arbitrary: s f)
  case (Suc k)
  define t where "t = dropWhile is_space (dropWhile (\<lambda>c. \<not> is_space c) s)"
  note N = words_next [OF Suc.prems(1) t_def]
  have eq: "GetParameter_loop s f w = (if t \<noteq> [] then if f + 1 = w then Some (t, length (takeWhile (\<lambda>c. \<not> is_space c) t))
      else GetParameter_loop t (f + 1) w else None)"
    unfolding GetParameter_loop.simps [of s f w] t_def [symmetric] Let_def using Suc.prems(3) by simp
  show ?case
  proof (cases "t = []")
    case True
    with eq N(3) show ?thesis by simp
  next
    case False
    then have ws: "\<exists>x y ys. cli_words s = x # y # ys" using N(3) by (cases "cli_words s"; cases "tl (cli_words s)") auto
    show ?thesis
    proof (cases "f + 1 = w")
      case True
      moreover have "take (length (takeWhile (\<lambda>c. \<not> is_space c) t)) t = hd (cli_words t)"
        unfolding takeWhile_eq_take [symmetric] using first_word [OF False] N(2) False by blast
      ultimately show ?thesis using eq False N(1) ws Suc.prems(2) by auto
    next
      case nw: False
      then have "k = w - (f + 1)" "f + 1 < w" using Suc.prems(2,3) by simp_all
      from Suc.IH [OF N(2) this] eq False nw N(1) ws show ?thesis by auto
    qed
  qed
qed simp

text \<open>
  On a line that does not start with a space, the parameter with number \<open>k\<close>, counted from 1, is
  the word with index \<open>k\<close>, and there is none when the line has no more than \<open>k\<close> words.
\<close>

lemma cli_get_parameter:
  assumes "s = [] \<or> \<not> is_space (hd s)" "0 < k"
  shows "map_option (\<lambda>(t, n). take n t) (FreeRTOS_CLIGetParameter s k) =
     (if k < length (cli_words s) then Some (cli_words s ! k) else None)"
  unfolding FreeRTOS_CLIGetParameter_def by (rule GetParameter_loop_words) (use assms in simp_all)

text \<open>
  The help command remembers what it showed last in a static variable: after help for one
  command, help without an argument shows that command again and never the whole list.
\<close>

lemma cli_help_sticks:
  assumes "help_search cmds w = c # cs"
  shows "prvHelpCommand cmds [h] (snd (prvHelpCommand cmds [h, w] p)) = ([pcHelpString c], c # cs)"
  using assms by (simp add: prvHelpCommand_def)

subsection \<open>Concrete runs\<close>

definition ex_cmds :: commands where
  "ex_cmds = [xHelpCommand, \<lparr>pcCommand = ''conf'', pcHelpString = ''conf:''\<rparr>]"

theorem cli_process_words_witness:
  "FreeRTOS_CLIProcessCommand ex_cmds ''conf  get key'' =
     Some (case find (\<lambda>c. \<not> is_space (hd ''conf  get key'') \<and> cli_words ''conf  get key'' \<noteq> [] \<and>
                 hd (cli_words ''conf  get key'') = pcCommand c) ex_cmds of
             Some c \<Rightarrow> Run c (length (cli_words ''conf  get key'')) (cli_words ''conf  get key'')
           | None \<Rightarrow> NotRecognized)"
  by (rule cli_process_words) (simp_all add: cmds_ok_def ex_cmds_def xHelpCommand_def)


end
