(* ===== verification/CLib.thy ===== *)
theory CLib
  imports Prelude
begin

text \<open>
  Functions of the C library on numbers as text: \<open>strtoul\<close>, \<open>strtol\<close>, and the padding of \<open>snprintf\<close>.
\<close>

text \<open>
  \<open>strtoul\<close> and \<open>strtol\<close> in base 10 with a \<open>long\<close> of 32 bits: the value, saturated, and whether any
  character was used (\<open>pcEndPtr != pcValue\<close>).
\<close>

definition isspace :: "char \<Rightarrow> bool" where
  "isspace c = (c = CHR '' '' \<or> 9 \<le> (of_char c :: nat) \<and> (of_char c :: nat) \<le> 13)"

definition isdigit :: "char \<Rightarrow> bool" where
  "isdigit c = (48 \<le> (of_char c :: nat) \<and> (of_char c :: nat) \<le> 57)"

definition digits_value :: "string \<Rightarrow> nat" where
  "digits_value ds = foldl (\<lambda>v c. 10 * v + (of_char c - 48)) 0 ds"

definition number_parts :: "string \<Rightarrow> bool \<times> string" where
  "number_parts s =
     (let t = dropWhile isspace s in
      case t of
        c # cs \<Rightarrow> if c = CHR ''-'' then (True, takeWhile isdigit cs) else if c = CHR ''+'' then (False, takeWhile isdigit cs)
                  else (False, takeWhile isdigit t)
      | [] \<Rightarrow> (False, []))"

definition strtoul :: "string \<Rightarrow> u32 \<times> bool" where
  "strtoul s =
     (case number_parts s of (neg, ds) \<Rightarrow>
        if ds = [] then (0, False)
        else if 2 ^ 32 \<le> digits_value ds then (- 1, True)
        else (if neg then - word_of_nat (digits_value ds) else word_of_nat (digits_value ds), True))"

definition strtol :: "string \<Rightarrow> u32 \<times> bool" where
  "strtol s =
     (case number_parts s of (neg, ds) \<Rightarrow>
        if ds = [] then (0, False)
        else if neg then (if 2 ^ 31 \<le> digits_value ds then 0x80000000 else - word_of_nat (digits_value ds), True)
        else (if 2 ^ 31 \<le> digits_value ds then 0x7FFFFFFF else word_of_nat (digits_value ds), True))"

text \<open>A conversion with a width and leading zeros, and one that fills up with spaces on the left or on the right.\<close>

definition zero_pad :: "nat \<Rightarrow> string \<Rightarrow> string" where
  "zero_pad k s = replicate (k - length s) (CHR ''0'') @ s"

definition left_pad :: "nat \<Rightarrow> string \<Rightarrow> string" where
  "left_pad k s = replicate (k - length s) (CHR '' '') @ s"

definition right_pad :: "nat \<Rightarrow> string \<Rightarrow> string" where
  "right_pad k s = s @ replicate (k - length s) (CHR '' '')"

text \<open>\<open>snprintf\<close>: the buffer holds what fits, with a terminator.\<close>

definition snprintf :: "nat \<Rightarrow> string \<Rightarrow> string" where
  "snprintf n s = take (n - 1) s"

text \<open>A signed number, and a quotation mark.\<close>

definition dec_int :: "u32 \<Rightarrow> string" where
  "dec_int x = (if sint x < 0 then CHR ''-'' # dec (nat (- sint x)) else dec (nat (sint x)))"

definition quote :: string where "quote = [CHR 34]"

lemma of_char_digit [simp]: "d < 10 \<Longrightarrow> (of_char (digit d) :: nat) = 48 + d"
  by (simp add: digit_def of_char_of)

lemma isdigit_digit [simp]: "d < 10 \<Longrightarrow> isdigit (digit d)"
  by (simp add: isdigit_def)

lemma dec_digits: "list_all isdigit (dec n) \<and> dec n \<noteq> []"
proof (induction n rule: dec.induct)
  case (1 n)
  show ?case
  proof (cases "n < 10")
    case False
    with 1 show ?thesis by (subst (1 2) dec.simps) simp
  qed (simp add: dec.simps)
qed

lemma digits_value_snoc: "digits_value (ds @ [c]) = 10 * digits_value ds + (of_char c - 48)"
  by (simp add: digits_value_def)

lemma digits_value_dec: "digits_value (dec n) = n"
proof (induction n rule: dec.induct)
  case (1 n)
  show ?case
  proof (cases "n < 10")
    case True
    then show ?thesis by (subst dec.simps) (simp add: digits_value_def)
  next
    case False
    with 1 have "digits_value (dec n) = 10 * (n div 10) + n mod 10" by (subst dec.simps) (simp add: digits_value_snoc)
    then show ?thesis by simp
  qed
qed

lemma length_dec_u32: "length (dec (unat (w :: u32))) \<le> 10"
proof (rule dec_length)
  have "unat w < 4294967296" by (rule unat_u32_less)
  then show "unat w < 10 ^ 10" by (rule less_trans) simp
qed simp

lemma digit_not_special: "isdigit c \<Longrightarrow> \<not> isspace c \<and> c \<noteq> CHR ''-'' \<and> c \<noteq> CHR ''+'' \<and> c \<noteq> NUL"
  by (auto simp: isdigit_def isspace_def)

lemma number_parts_dec: "number_parts (dec n) = (False, dec n)"
proof -
  obtain c cs where d: "dec n = c # cs" using dec_digits [of n] by (cases "dec n") auto
  have "list_all isdigit (c # cs)" using dec_digits [of n] d by simp
  then have "takeWhile isdigit (c # cs) = c # cs" "isdigit c" by (simp_all add: takeWhile_eq_all_conv list_all_iff)
  with d digit_not_special [of c] show ?thesis by (simp add: number_parts_def)
qed

lemma strtoul_dec: "n < 2 ^ 32 \<Longrightarrow> strtoul (dec n) = (word_of_nat n, True)"
  using dec_digits [of n] by (simp add: strtoul_def number_parts_dec digits_value_dec)

lemma strtoul_taken: "snd (strtoul v) \<or> fst (strtoul v) = 0"
  by (auto simp: strtoul_def split: prod.splits)

lemma isdigit_zero [simp]: "isdigit (CHR ''0'')"
  by (simp add: isdigit_def)

lemma digits_value_zeros: "digits_value (replicate k (CHR ''0'') @ ds) = digits_value ds"
  by (induction k) (simp_all add: digits_value_def)

lemma number_parts_digits:
  assumes "list_all isdigit ds" "ds \<noteq> []" "t = [] \<or> \<not> isdigit (hd t)"
  shows "number_parts (ds @ t) = (False, ds)"
proof -
  obtain c cs where d: "ds = c # cs" using assms(2) by (cases ds) auto
  have "takeWhile isdigit (ds @ t) = ds" using assms(1,3) by (cases t) (simp_all add: list_all_iff takeWhile_append)
  with d assms(1) digit_not_special [of c] show ?thesis by (simp add: number_parts_def)
qed

text \<open>A padded number is read back, whatever follows it.\<close>

lemma strtoul_zero_pad:
  assumes "n < 2 ^ 32" "t = [] \<or> \<not> isdigit (hd t)"
  shows "strtoul (zero_pad k (dec n) @ t) = (word_of_nat n, True)"
proof -
  have "list_all isdigit (zero_pad k (dec n))" "zero_pad k (dec n) \<noteq> []"
    using dec_digits [of n] by (auto simp: zero_pad_def list_all_iff)
  from number_parts_digits [OF this assms(2)] show ?thesis
    using assms(1) by (simp add: strtoul_def zero_pad_def digits_value_zeros digits_value_dec)
qed

lemma length_zero_pad: "length s \<le> k \<Longrightarrow> length (zero_pad k s) = k"
  by (simp add: zero_pad_def)

end
