(* ===== verification/CliConf.thy ===== *)
theory CliConf
  imports Cli KvSpec CLib
begin

text \<open>
  The \<open>conf\<close> command (\<open>src/source/cli/cli_conf.c\<close>), which reads, changes and commits the key/value
  store from the console. The definitions take the store's read and write functions as \<open>KvStore\<close>
  does; the properties are about the cache of \<open>KvCache\<close>. What a command prints is a list of strings.
  The scratch buffer of the command line has \<open>CLI_OUTPUT_SCRATCH_BUF_LEN\<close> bytes.
\<close>

abbreviation (input) CLI_OUTPUT_SCRATCH_BUF_LEN :: nat where "CLI_OUTPUT_SCRATCH_BUF_LEN \<equiv> 512"

subsection \<open>Characters and numbers\<close>

definition dec_signed :: "u32 \<Rightarrow> string" where
  "dec_signed w = (if sint w < 0 then CHR ''-'' # dec (nat (- sint w)) else dec (nat (sint w)))"

subsection \<open>The command\<close>

text \<open>
  \<open>snprintf\<close> into the scratch buffer followed by a print, which stops at the terminator, or by a write
  of as many bytes as \<open>snprintf\<close> returned, at most the whole buffer.
\<close>

definition printed :: "string \<Rightarrow> string" where
  "printed s = take (CLI_OUTPUT_SCRATCH_BUF_LEN - 1) s"

definition written :: "string \<Rightarrow> string" where
  "written s = (if length s < CLI_OUTPUT_SCRATCH_BUF_LEN then s else take (CLI_OUTPUT_SCRATCH_BUF_LEN - 1) s @ [NUL])"

text \<open>
  The line for a string: key, \<open>=\<close>, quote, value, quote and line end are put into the scratch buffer one
  after the other; a value that is too long is cut so that the end of the line still fits.
\<close>

definition string_line :: "'s read_entry \<Rightarrow> defaults \<Rightarrow> 's \<Rightarrow> KVStoreKey_t \<Rightarrow> string \<Rightarrow> string option" where
  "string_line rd dfl s xKey pcKey =
     do { let l0 = min (length pcKey) CLI_OUTPUT_SCRATCH_BUF_LEN;
          let b0 = take CLI_OUTPUT_SCRATCH_BUF_LEN (map byte_of pcKey @ replicate CLI_OUTPUT_SCRATCH_BUF_LEN 0);
          (l1, b1) \<leftarrow> (if l0 < CLI_OUTPUT_SCRATCH_BUF_LEN
                       then do { b \<leftarrow> mem_write l0 [byte_of (CHR ''=''), byte_of (CHR 0x22)] b0; Some (l0 + 2, b) }
                       else Some (l0, b0));
          (l2, b2) \<leftarrow> (if l1 < CLI_OUTPUT_SCRATCH_BUF_LEN
                       then do { (n, v) \<leftarrow> KVStore_getString rd dfl s xKey (Some (drop l1 b1)) (CLI_OUTPUT_SCRATCH_BUF_LEN - l1);
                                 Some (l1 + n, take l1 b1 @ the v) }
                       else Some (l1, b1));
          let l3 = (if CLI_OUTPUT_SCRATCH_BUF_LEN < l2 + 3 then CLI_OUTPUT_SCRATCH_BUF_LEN - 3 else l2);
          b3 \<leftarrow> mem_write l3 [byte_of (CHR 0x22), 0x0D, 0x0A] b2;
          b4 \<leftarrow> arr_set (if l3 + 3 < CLI_OUTPUT_SCRATCH_BUF_LEN then l3 + 3 else CLI_OUTPUT_SCRATCH_BUF_LEN - 1) 0 b3;
          Some (c_str (map char_of_byte b4)) }"

definition vSubCommand_GetConfig :: "'s read_entry \<Rightarrow> defaults \<Rightarrow> 's \<Rightarrow> string \<Rightarrow> string list option" where
  "vSubCommand_GetConfig rd dfl s pcKey =
     (let xKey = kvStringToKey pcKey; xKvType = KVStore_getType dfl xKey in
      case xKvType of
        KV_TYPE_BASE_T \<Rightarrow> do { (v, ok) \<leftarrow> KVStore_getBase rd dfl s xKey; Some [printed (pcKey @ ''='' @ dec_signed v @ crlf)] }
      | KV_TYPE_UBASE_T \<Rightarrow> do { (v, ok) \<leftarrow> KVStore_getUBase rd dfl s xKey; Some [printed (pcKey @ ''='' @ dec (unat v) @ crlf)] }
      | KV_TYPE_INT32 \<Rightarrow> do { (v, ok) \<leftarrow> KVStore_getInt32 rd dfl s xKey; Some [printed (pcKey @ ''='' @ dec_signed v @ crlf)] }
      | KV_TYPE_UINT32 \<Rightarrow> do { (v, ok) \<leftarrow> KVStore_getUInt32 rd dfl s xKey; Some [printed (pcKey @ ''='' @ dec (unat v) @ crlf)] }
      | KV_TYPE_STRING \<Rightarrow> map_option (\<lambda>l. [l]) (string_line rd dfl s xKey pcKey)
      | KV_TYPE_BLOB \<Rightarrow> map_option (\<lambda>l. [l]) (string_line rd dfl s xKey pcKey)
      | _ \<Rightarrow> Some [printed (if xKey = CS_NUM_KEYS \<or> xKvType = KV_TYPE_NONE
                            then ''Error: key: '' @ pcKey @ '' was not recognized.'' @ crlf
                            else ''Error: An unknown error occurred.'' @ crlf)])"

fun get_config_keys :: "'s read_entry \<Rightarrow> defaults \<Rightarrow> 's \<Rightarrow> string list \<Rightarrow> string list option" where
  "get_config_keys rd dfl s [] = Some []"
| "get_config_keys rd dfl s (k # ks) =
     do { l \<leftarrow> vSubCommand_GetConfig rd dfl s k; ls \<leftarrow> get_config_keys rd dfl s ks; Some (l @ ls) }"

definition vSubCommand_GetConfigAll :: "'s read_entry \<Rightarrow> defaults \<Rightarrow> 's \<Rightarrow> string list option" where
  "vSubCommand_GetConfigAll rd dfl s = get_config_keys rd dfl s kvStoreKeyMap"

text \<open>
  A number is taken when some character was used or the value is 0. The result of a numeric setter
  is ignored. \<open>ppcArgv[2]\<close> is behind the array when the command has no key.
\<close>

definition set_number ::
  "('s \<Rightarrow> KVStoreKey_t \<Rightarrow> u32 \<Rightarrow> (bool \<times> 's) option) \<Rightarrow> (string \<Rightarrow> u32 \<times> bool) \<Rightarrow> (u32 \<Rightarrow> string) \<Rightarrow> 's \<Rightarrow> KVStoreKey_t \<Rightarrow>
   string \<Rightarrow> string \<Rightarrow> (bool \<times> string \<times> 's) option" where
  "set_number setter parse out s xKey pcKey pcValue =
     (case parse pcValue of (v, moved) \<Rightarrow>
        if moved \<or> v = 0
        then do { (r, s') \<leftarrow> setter s xKey v; Some (True, pcKey @ ''='' @ out v @ crlf, s') }
        else Some (False, [], s))"

definition vSubCommand_SetConfig :: "'s write_entry \<Rightarrow> defaults \<Rightarrow> 's \<Rightarrow> string list \<Rightarrow> (string list \<times> 's) option" where
  "vSubCommand_SetConfig wr dfl s ppcArgv =
     do { pcKey \<leftarrow> arr_get 2 ppcArgv;
          let pcValue = (if 3 < length ppcArgv then ppcArgv ! 3 else []);
          let xKey = kvStringToKey pcKey;
          (xParseResult, text, s') \<leftarrow>
            (case KVStore_getType dfl xKey of
               KV_TYPE_BASE_T \<Rightarrow> set_number (KVStore_setBase wr dfl) strtol dec_signed s xKey pcKey pcValue
             | KV_TYPE_INT32 \<Rightarrow> set_number (KVStore_setInt32 wr dfl) strtol dec_signed s xKey pcKey pcValue
             | KV_TYPE_UBASE_T \<Rightarrow> set_number (KVStore_setUBase wr dfl) strtoul (\<lambda>w. dec (unat w)) s xKey pcKey pcValue
             | KV_TYPE_UINT32 \<Rightarrow> set_number (KVStore_setUInt32 wr dfl) strtoul (\<lambda>w. dec (unat w)) s xKey pcKey pcValue
             | KV_TYPE_STRING \<Rightarrow>
                 do { (r, s') \<leftarrow> KVStore_setString wr dfl s xKey (Some (map byte_of pcValue));
                      Some (r, pcKey @ ''='' @ [CHR 0x22] @ pcValue @ [CHR 0x22] @ crlf, s') }
             | KV_TYPE_BLOB \<Rightarrow>
                 do { (r, s') \<leftarrow> KVStore_setBlob wr dfl s xKey (length pcValue) (Some (map byte_of pcValue @ [0]));
                      Some (r, pcKey @ ''='' @ [CHR 0x22] @ pcValue @ [CHR 0x22] @ crlf, s') }
             | _ \<Rightarrow> Some (False, [], s));
          Some ([written (if xParseResult then text
                          else if xKey = CS_NUM_KEYS then ''Error: key: '' @ pcKey @ '' was not recognized.'' @ crlf
                          else ''Error: value: '' @ pcValue @ '' is not valid for key: '' @ pcKey @ crlf)], s') }"

definition vSubCommand_CommitConfig :: "('s \<Rightarrow> 'f \<Rightarrow> (bool \<times> 'f) option) \<Rightarrow> 's \<Rightarrow> 'f \<Rightarrow> (string list \<times> 'f) option" where
  "vSubCommand_CommitConfig commit s fs =
     do { (xResult, fs') \<leftarrow> commit s fs;
          Some ([(if xResult then ''Configuration saved to NVM.'' else ''Error: Could not save configuration to NVM.'') @ crlf], fs') }"

definition vCommand_Configure ::
  "'s read_entry \<Rightarrow> 's write_entry \<Rightarrow> ('s \<Rightarrow> 'f \<Rightarrow> (bool \<times> 'f) option) \<Rightarrow> string \<Rightarrow> defaults \<Rightarrow> string list \<Rightarrow> 's \<times> 'f \<Rightarrow>
   (string list \<times> 's \<times> 'f) option" where
  "vCommand_Configure rd wr commit help dfl ppcArgv st =
     (case st of (s, fs) \<Rightarrow>
        if 1 < length ppcArgv \<and> strcmp_eq ''get'' (ppcArgv ! 1)
        then do { out \<leftarrow> (if 2 < length ppcArgv then vSubCommand_GetConfig rd dfl s (ppcArgv ! 2) else vSubCommand_GetConfigAll rd dfl s);
                  Some (out, s, fs) }
        else if 1 < length ppcArgv \<and> strcmp_eq ''set'' (ppcArgv ! 1)
        then do { (out, s') \<leftarrow> vSubCommand_SetConfig wr dfl s ppcArgv; Some (out, s', fs) }
        else if 1 < length ppcArgv \<and> strcmp_eq ''commit'' (ppcArgv ! 1)
        then do { (out, fs') \<leftarrow> vSubCommand_CommitConfig commit s fs; Some (out, s, fs') }
        else Some ([help], s, fs))"


subsection \<open>Setting and reading a number\<close>

lemma key_port [simp]: "kvStringToKey ''mqtt_port'' = 2"
  by (simp add: kvStringToKey_def kvStoreKeyMap_def strcmp_eq_def c_str_def)

lemma type_port [simp]: "KVStore_getType (kvStoreDefaults lit) 2 = KV_TYPE_UINT32"
  by (simp add: KVStore_getType_def kvStoreDefaults_def KV_DFLT_UINT32_def)

lemma set_port:
  assumes "malloc_spec mal" "cache_inv s"
  shows "\<exists>s'. vSubCommand_SetConfig (xprvWriteCacheEntry mal) (kvStoreDefaults lit) s [c, m, ''mqtt_port'', v] =
      Some ([''mqtt_port='' @ dec (unat (fst (strtoul v))) @ crlf], s') \<and> cache_inv s' \<and>
      kv_view s' = (kv_view s)(2 \<mapsto> (KV_TYPE_UINT32, le_bytes (fst (strtoul v))))"
proof -
  let ?w = "fst (strtoul v)"
  obtain b where p: "strtoul v = (?w, b)" by (metis prod.collapse)
  have t: "b \<or> ?w = 0" using strtoul_taken [of v] p by (metis snd_conv)
  have d: "dfl_type (kvStoreDefaults lit) 2 = KV_TYPE_UINT32" by (simp add: kvStoreDefaults_def KV_DFLT_UINT32_def)
  have "\<exists>s'. xprvWriteCacheEntry mal s 2 KV_TYPE_UINT32 4 (le_bytes ?w) = Some (True, s')"
    by (rule write_returns) (use assms in simp_all)
  then obtain s' where w: "xprvWriteCacheEntry mal s 2 KV_TYPE_UINT32 4 (le_bytes ?w) = Some (True, s')" by blast
  have c: "malloc_spec mal \<and> cache_inv s" using assms by simp
  have v: "cache_inv s' \<and> kv_view s' = (kv_view s)(2 \<mapsto> (KV_TYPE_UINT32, le_bytes ?w))"
    using kvc.setScalar_view [OF c _ _ w] by simp
  have "set_number (KVStore_setUInt32 (xprvWriteCacheEntry mal) (kvStoreDefaults lit)) strtoul (\<lambda>w. dec (unat w)) s 2 ''mqtt_port'' v =
      Some (True, ''mqtt_port='' @ dec (unat ?w) @ crlf, s')"
    using t w d by (subst set_number_def, subst p) (auto simp: KVStore_setUInt32_def)
  then have "vSubCommand_SetConfig (xprvWriteCacheEntry mal) (kvStoreDefaults lit) s [c, m, ''mqtt_port'', v] =
      Some ([written (''mqtt_port='' @ dec (unat ?w) @ crlf)], s')"
    by (simp add: vSubCommand_SetConfig_def)
  with v length_dec_u32 [of ?w] show ?thesis by (auto simp: written_def)
qed

text \<open>
  A port set from the console is the port read back: for every number of 32 bits the command
  \<open>conf set\<close> answers with the number, and \<open>conf get\<close> then prints the same line.
\<close>

lemma cli_conf_port_roundtrip:
  assumes "malloc_spec mal" "cache_inv s" "n < 2 ^ 32"
  shows "\<exists>s'. vCommand_Configure xprvCopyValueFromCache (xprvWriteCacheEntry mal) commit help (kvStoreDefaults lit)
        [''conf'', ''set'', ''mqtt_port'', dec n] (s, fs) = Some ([''mqtt_port='' @ dec n @ crlf], s', fs) \<and>
      vCommand_Configure xprvCopyValueFromCache (xprvWriteCacheEntry mal) commit help (kvStoreDefaults lit)
        [''conf'', ''get'', ''mqtt_port''] (s', fs) = Some ([''mqtt_port='' @ dec n @ crlf], s', fs)"
proof -
  have st: "strtoul (dec n) = (word_of_nat n, True)" using strtoul_dec assms(3) by simp
  have u: "unat (word_of_nat n :: u32) = n" using assms(3) by (simp add: unat_of_nat)
  obtain s' where S: "vSubCommand_SetConfig (xprvWriteCacheEntry mal) (kvStoreDefaults lit) s [''conf'', ''set'', ''mqtt_port'', dec n] =
      Some ([''mqtt_port='' @ dec n @ crlf], s')" "cache_inv s'"
      "kv_view s' = (kv_view s)(2 \<mapsto> (KV_TYPE_UINT32, le_bytes (word_of_nat n)))"
    using set_port [OF assms(1,2), of lit "''conf''" "''set''" "dec n"] st u by auto
  have c: "malloc_spec mal \<and> cache_inv s'" using assms(1) S(2) by simp
  have "KVStore_getUInt32 xprvCopyValueFromCache (kvStoreDefaults lit) s' 2 = Some (word_of_nat n, True)"
    unfolding KVStore_getUInt32_def
    by (rule kvc.getScalar_value [OF c]) (simp_all add: S(3) kvStoreDefaults_def KV_DFLT_UINT32_def)
  moreover have "length (dec n) \<le> 10" using length_dec_u32 [of "word_of_nat n"] u by simp
  ultimately have "vSubCommand_GetConfig xprvCopyValueFromCache (kvStoreDefaults lit) s' ''mqtt_port'' = Some [''mqtt_port='' @ dec n @ crlf]"
    using u by (simp add: vSubCommand_GetConfig_def printed_def)
  with S(1) show ?thesis by (simp add: vCommand_Configure_def strcmp_eq_def c_str_def)
qed

text \<open>
  No text is refused as a number: a value without a digit, such as a word, is stored as port 0 and
  answered as if it had been accepted; the error message for an invalid value is never printed.
\<close>

lemma cli_conf_port_takes_any_text:
  assumes "malloc_spec mal" "cache_inv s" "snd (number_parts v) = []"
  shows "\<exists>s'. vCommand_Configure xprvCopyValueFromCache (xprvWriteCacheEntry mal) commit help (kvStoreDefaults lit)
        [''conf'', ''set'', ''mqtt_port'', v] (s, fs) = Some ([''mqtt_port=0'' @ crlf], s', fs) \<and>
      kv_view s' 2 = Some (KV_TYPE_UINT32, [0, 0, 0, 0])"
proof -
  have z: "fst (strtoul v) = 0" using assms(3) by (auto simp: strtoul_def split: prod.splits)
  have "char_of (of_char (CHR ''0'') :: nat) = CHR ''0''" by (rule char_of_char)
  then have "dec (unat (0 :: u32)) = ''0''" by (simp add: dec.simps digit_def)
  with set_port [OF assms(1,2), of lit "''conf''" "''set''" v] z obtain s'
    where "vSubCommand_SetConfig (xprvWriteCacheEntry mal) (kvStoreDefaults lit) s [''conf'', ''set'', ''mqtt_port'', v] =
      Some ([''mqtt_port=0'' @ crlf], s')" "kv_view s' 2 = Some (KV_TYPE_UINT32, le_bytes 0)"
    by auto
  then show ?thesis by (simp add: vCommand_Configure_def strcmp_eq_def c_str_def le_bytes_def)
qed


subsection \<open>Setting and reading a string\<close>

lemma overwrite_behind: "overwrite (length p) xs (p @ replicate n z) = p @ xs @ replicate (n - length xs) z"
  by (simp add: overwrite_def)

lemma replicate_update: "(replicate n z)[i := z] = replicate n z"
  by (cases "i < n") (simp_all add: list_update_same_conv list_update_beyond)

lemma map_char_of [simp]: "map char_of_byte (map byte_of s) = s"
  by (simp add: o_def)

lemma char_of_zero [simp]: "char_of_byte 0 = NUL"
  using char_byte [of NUL] by simp

lemma char_of_crlf: "char_of_byte 0x0D = CHR 0x0D" "char_of_byte 0x0A = CHR 0x0A"
  using char_byte [of "CHR 0x0D"] char_byte [of "CHR 0x0A"] by (simp_all add: byte_of_def)

lemma string_line_value:
  assumes "malloc_spec mal" "cache_inv s" "k < CS_NUM_KEYS" "dfl_type dfl k = KV_TYPE_STRING"
    and "kv_view s k = Some (t, map byte_of v @ [0])" "c_string key" "c_string v" "length key + length v + 5 < 512"
  shows "string_line xprvCopyValueFromCache dfl s k key = Some (key @ ''='' @ [CHR 0x22] @ v @ [CHR 0x22] @ crlf)"
proof -
  let ?K = "map byte_of key" and ?V = "map byte_of v"
  let ?p = "?K @ [byte_of (CHR ''=''), byte_of (CHR 0x22)]"
  define m where "m = 510 - length key"
  have m: "length v + 3 < m" "length key < 510" "length key + m = 510" using assms(8) by (simp_all add: m_def)
  have b0: "take 512 (?K @ replicate 512 0) = ?K @ replicate (m + 2) 0"
  proof -
    have "512 - length key = m + 2" using m by simp
    then show ?thesis using m by (simp add: take_replicate)
  qed
  have b1: "mem_write (length key) [byte_of (CHR ''=''), byte_of (CHR 0x22)] (?K @ replicate (m + 2) 0) = Some (?p @ replicate m 0)"
    using overwrite_behind [of ?K "[byte_of (CHR ''=''), byte_of (CHR 0x22)]" "m + 2" 0] by simp
  have c: "malloc_spec mal \<and> cache_inv s" using assms(1,2) by simp
  have "(overwrite 0 (?V @ [0]) (replicate m 0))[m - 1 := 0] = ?V @ replicate (m - length v) 0"
  proof -
    have "overwrite 0 (?V @ [0]) (replicate m 0) = ?V @ replicate (m - length v) (0 :: byte)"
      using overwrite_behind [of "[]" "?V @ [0]" m 0] m(1) by (simp add: Suc_diff_Suc flip: replicate_Suc)
    moreover have "\<not> m - 1 < length v" using m(1) by simp
    ultimately show ?thesis by (simp add: list_update_append replicate_update)
  qed
  then have g: "KVStore_getString xprvCopyValueFromCache dfl s k (Some (replicate m 0)) m = Some (length v, Some (?V @ replicate (m - length v) 0))"
    using kvc.getString_value [OF c assms(3,4,5), of m "replicate m 0"] m(1) by simp
  let ?q = "?p @ ?V"
  let ?e = "[byte_of (CHR 0x22), 0x0D, 0x0A]"
  have b3: "mem_write (length key + 2 + length v) ?e (?q @ replicate (m - length v) 0) = Some (?q @ ?e @ replicate (m - length v - 3) 0)"
    using overwrite_behind [of ?q ?e "m - length v" 0] m by (simp add: add.commute add.left_commute)
  have b4: "arr_set (length key + 2 + length v + 3) 0 (?q @ ?e @ replicate (m - length v - 3) 0) = Some (?q @ ?e @ replicate (m - length v - 3) (0 :: byte))"
    using m by (simp add: list_update_append replicate_update)
  have "c_str (map char_of_byte (?q @ ?e @ replicate (m - length v - 3) 0)) = key @ ''='' @ [CHR 0x22] @ v @ [CHR 0x22] @ crlf"
  proof -
    obtain r where r: "m - length v - 3 = Suc r" using m(1) by (cases "m - length v - 3") auto
    have "c_string (key @ ''='' @ [CHR 0x22] @ v @ [CHR 0x22] @ crlf)" using assms(6,7) by simp
    from c_str_NUL [OF this, of "replicate r NUL"] show ?thesis unfolding r by (simp add: char_of_crlf o_def)
  qed
  moreover have "510 - length key = m" by (simp add: m_def)
  ultimately show ?thesis
    using m g b0 b1 b3 b4 by (simp add: string_line_def Let_def)
qed


text \<open>
  C11. A string set from the console is the string read back: for every key of the string type and
  every value that fits on the line, when the heap has the memory, \<open>conf set\<close> answers with the line
  \<open>key="value"\<close> and \<open>conf get\<close> then prints the same line.
\<close>

theorem cli_conf_string_roundtrip:
  assumes "malloc_spec mal" "cache_inv s" "k < CS_NUM_KEYS" "kvStringToKey key = k" "dfl_type dfl k = KV_TYPE_STRING"
    and "c_string key" "c_string v" "length key + length v + 5 < 512"
    and "mal (heap s) (length v + 1) \<noteq> None" "mal (heap (vClearDataBuffer s k)) (length v + 1) \<noteq> None"
  shows "\<exists>s'. vCommand_Configure xprvCopyValueFromCache (xprvWriteCacheEntry mal) commit help dfl [''conf'', ''set'', key, v] (s, fs) =
        Some ([key @ ''='' @ [CHR 0x22] @ v @ [CHR 0x22] @ crlf], s', fs) \<and>
      vCommand_Configure xprvCopyValueFromCache (xprvWriteCacheEntry mal) commit help dfl [''conf'', ''get'', key] (s', fs) =
        Some ([key @ ''='' @ [CHR 0x22] @ v @ [CHR 0x22] @ crlf], s', fs)"
proof -
  let ?v = "map byte_of v"
  have c: "malloc_spec mal \<and> cache_inv s" using assms(1,2) by simp
  have "\<exists>s'. xprvWriteCacheEntry mal s k KV_TYPE_STRING (length ?v + 1) (?v @ [0]) = Some (True, s')"
    by (rule write_returns) (use assms in simp_all)
  then obtain s' where w: "KVStore_setString (xprvWriteCacheEntry mal) dfl s k (Some ?v) = Some (True, s')"
    using assms(3,5) by (auto simp: KVStore_setString_def)
  have t: "KVStore_getType dfl k = KV_TYPE_STRING" using assms(3,5) by (simp add: KVStore_getType_def)
  note sv = kvc.setString_view [OF c w]
  have "vSubCommand_SetConfig (xprvWriteCacheEntry mal) dfl s [''conf'', ''set'', key, v] =
      Some ([key @ ''='' @ [CHR 0x22] @ v @ [CHR 0x22] @ crlf], s')"
    using w t assms(4,8) by (simp add: vSubCommand_SetConfig_def written_def)
  moreover have "string_line xprvCopyValueFromCache dfl s' k key = Some (key @ ''='' @ [CHR 0x22] @ v @ [CHR 0x22] @ crlf)"
    using sv by (intro string_line_value [OF assms(1) _ assms(3,5) _ assms(6-8)]) auto
  ultimately show ?thesis
    using t assms(4) by (simp add: vCommand_Configure_def strcmp_eq_def c_str_def vSubCommand_GetConfig_def)
qed

subsection \<open>Concrete runs\<close>


theorem cli_conf_string_roundtrip_witness:
  "\<exists>s'. vCommand_Configure xprvCopyValueFromCache (xprvWriteCacheEntry first_fit) (\<lambda>s fs. Some (True, fs)) ''help'' (kvStoreDefaults (\<lambda>k. 0))
        [''conf'', ''set'', ''thing_name'', ''sensor''] (kv_boot, ()) =
        Some ([''thing_name'' @ ''='' @ [CHR 0x22] @ ''sensor'' @ [CHR 0x22] @ crlf], s', ()) \<and>
      vCommand_Configure xprvCopyValueFromCache (xprvWriteCacheEntry first_fit) (\<lambda>s fs. Some (True, fs)) ''help'' (kvStoreDefaults (\<lambda>k. 0))
        [''conf'', ''get'', ''thing_name''] (s', ()) =
        Some ([''thing_name'' @ ''='' @ [CHR 0x22] @ ''sensor'' @ [CHR 0x22] @ crlf], s', ())"
  by (rule cli_conf_string_roundtrip [OF first_fit_spec cache_inv_boot, of 0])
    (simp_all add: kvStringToKey_def kvStoreKeyMap_def strcmp_eq_def c_str_def kvStoreDefaults_def KV_DFLT_STRING_def
      first_fit_def kv_boot_def vClearDataBuffer_def empty_entry_def set_entry_def)

end
