(* ===== verification/Console.thy ===== *)
theory Console
  imports Cli
begin

text \<open>
  The console driver (\<open>source/logging/cli_uart_drv.c\<close>): the line editor \<open>uart_readline\<close>, the writing
  functions under it, the receive and transmit threads, and \<open>Task_CLI\<close> of \<open>cli_main.c\<close>, which runs the
  lines. The kernel's stream buffers are the record \<open>stream_ops\<close>; what \<open>FreeRTOS\<close> documents of a blocking
  send is \<open>stream_spec\<close>. The semaphore \<open>xUartTxSem\<close> is taken without a time limit and given back within the
  same step, so a step has the transmit stream to itself.
\<close>

abbreviation (input) CLI_INPUT_LINE_LEN_MAX :: nat where "CLI_INPUT_LINE_LEN_MAX \<equiv> 128"
abbreviation (input) CLI_PROMPT_STR :: string where "CLI_PROMPT_STR \<equiv> ''> ''"

text \<open>\<open>xStreamBufferSend\<close> without a time limit (\<open>send\<close>) and without waiting (\<open>send0\<close>): how many characters were
  taken; \<open>xStreamBufferReceive\<close>: at most so many characters.\<close>

record 't stream_ops =
  send :: "string \<Rightarrow> 't \<Rightarrow> nat \<times> 't"
  send0 :: "string \<Rightarrow> 't \<Rightarrow> nat \<times> 't"
  receive :: "nat \<Rightarrow> 't \<Rightarrow> string \<times> 't"

text \<open>A send without a time limit takes at least one character and appends what it took; one without
  waiting appends as much as fits into \<open>room\<close>.\<close>

definition stream_spec :: "'t stream_ops \<Rightarrow> ('t \<Rightarrow> string) \<Rightarrow> ('t \<Rightarrow> nat) \<Rightarrow> bool" where
  "stream_spec ops sent room \<longleftrightarrow>
     (\<forall>xs t n t'. send ops xs t = (n, t') \<longrightarrow> n \<le> length xs \<and> (xs \<noteq> [] \<longrightarrow> 0 < n) \<and> sent t' = sent t @ take n xs) \<and>
     (\<forall>xs t n t'. send0 ops xs t = (n, t') \<longrightarrow> n = min (length xs) (room t) \<and> sent t' = sent t @ take n xs \<and> room t' = room t - n)"

record 't console =
  pcInputBuffer :: string
  ulInBufferIdx :: nat
  xPartialCommand :: bool
  xUartTxStream :: 't

subsection \<open>Writing\<close>

partial_function (option) uart_write_loop :: "'t stream_ops \<Rightarrow> string \<Rightarrow> nat \<Rightarrow> 't \<Rightarrow> (nat \<times> 't) option" where
  "uart_write_loop ops pcBuffer xBytesSent t =
     (if xBytesSent < length pcBuffer
      then (case send ops (drop xBytesSent pcBuffer) t of
              (n, t') \<Rightarrow> uart_write_loop ops pcBuffer (xBytesSent + n) t')
      else Some (xBytesSent, t))"

definition uart_write :: "'t stream_ops \<Rightarrow> string \<Rightarrow> 't console \<Rightarrow> 't console option" where
  "uart_write ops pvOutputBuffer c = do {
     (xBytesSent, t) \<leftarrow> uart_write_loop ops pvOutputBuffer 0 (xUartTxStream c);
     configASSERT (xBytesSent = length pvOutputBuffer);
     Some (c\<lparr>xUartTxStream := t\<rparr>)
   }"

definition uart_print :: "'t stream_ops \<Rightarrow> string \<Rightarrow> 't console \<Rightarrow> 't console option" where
  "uart_print ops pcString c = uart_write ops (c_str pcString) c"

subsection \<open>The line editor\<close>

text \<open>One key: what the \<open>switch\<close> does with the character at \<open>pcInputBuffer[ ulInBufferIdx ]\<close>. The result has the
  length of the line when the key ended it.\<close>

definition readline_key :: "'t stream_ops \<Rightarrow> char \<Rightarrow> 't console \<Rightarrow> (nat option \<times> 't console) option" where
  "readline_key ops ch c =
     (let idx = ulInBufferIdx c in
      if ch = CHR 0x0A \<or> ch = CHR 0x0D \<or> ch = NUL
      then if idx > 0
        then do {
          buf \<leftarrow> arr_set idx NUL (pcInputBuffer c);
          c \<leftarrow> uart_write ops crlf (c\<lparr>pcInputBuffer := buf\<rparr>);
          Some (Some idx, c\<lparr>xPartialCommand := False\<rparr>)
        }
        else do {
          buf \<leftarrow> arr_set idx NUL (pcInputBuffer c);
          Some (None, c\<lparr>pcInputBuffer := buf, ulInBufferIdx := 0\<rparr>)
        }
      else if ch = CHR 0x08 \<or> ch = CHR 0x7F
      then if idx > 0
        then do {
          buf \<leftarrow> arr_set idx NUL (pcInputBuffer c);
          buf \<leftarrow> arr_set (idx - 1) NUL buf;
          c \<leftarrow> uart_print ops [CHR 0x08, CHR '' '', CHR 0x08] (c\<lparr>pcInputBuffer := buf, ulInBufferIdx := idx - 1\<rparr>);
          Some (None, c)
        }
        else Some (None, c)
      else if ch = CHR 0x03
      then do {
        c \<leftarrow> uart_write ops (crlf @ CLI_PROMPT_STR) (c\<lparr>ulInBufferIdx := 0\<rparr>);
        Some (None, c)
      }
      else do {
        x \<leftarrow> arr_get idx (pcInputBuffer c);
        c \<leftarrow> uart_write ops [x] c;
        Some (None, c\<lparr>ulInBufferIdx := idx + 1\<rparr>)
      })"

text \<open>The loop over the keys. A key is what one call of \<open>uart_read_timeout\<close> delivers: a character, or nothing.
  When there are no more keys the call does not return.\<close>

fun readline_loop :: "'t stream_ops \<Rightarrow> char option list \<Rightarrow> 't console \<Rightarrow> (nat \<times> 't console \<times> char option list) option" where
  "readline_loop ops [] c = (if ulInBufferIdx c < CLI_INPUT_LINE_LEN_MAX then None else Some (0, c, []))"
| "readline_loop ops (k # ks) c =
     (if ulInBufferIdx c < CLI_INPUT_LINE_LEN_MAX
      then (case k of
              None \<Rightarrow> readline_loop ops ks c
            | Some ch \<Rightarrow> do {
                buf \<leftarrow> arr_set (ulInBufferIdx c) ch (pcInputBuffer c);
                (ended, c) \<leftarrow> readline_key ops ch (c\<lparr>pcInputBuffer := buf\<rparr>);
                (case ended of
                   Some lBytesWritten \<Rightarrow> Some (lBytesWritten, c, ks)
                 | None \<Rightarrow> readline_loop ops ks c)
              })
      else Some (0, c, k # ks))"

definition uart_readline :: "'t stream_ops \<Rightarrow> char option list \<Rightarrow> 't console \<Rightarrow> (nat \<times> 't console \<times> char option list) option" where
  "uart_readline ops keys c = do {
     buf \<leftarrow> arr_set (CLI_INPUT_LINE_LEN_MAX - 1) NUL (pcInputBuffer c);
     c \<leftarrow> uart_write ops CLI_PROMPT_STR (c\<lparr>ulInBufferIdx := 0, pcInputBuffer := buf\<rparr>);
     readline_loop ops keys (c\<lparr>xPartialCommand := True\<rparr>)
   }"

subsection \<open>The threads of the driver\<close>

definition ERROR_FLAG :: u32 where "ERROR_FLAG = push_bit 31 1"
definition BUFFER_A_FLAG :: u32 where "BUFFER_A_FLAG = push_bit 30 1"
definition BUFFER_B_FLAG :: u32 where "BUFFER_B_FLAG = push_bit 29 1"
definition FLAGS_MASK :: u32 where "FLAGS_MASK = ERROR_FLAG OR BUFFER_A_FLAG OR BUFFER_B_FLAG"
definition READ_LEN_MASK :: u32 where "READ_LEN_MASK = NOT FLAGS_MASK"

datatype rx_buffer = puxRxBufferA | puxRxBufferB

text \<open>The receive interrupt with \<open>usBytesRead\<close> new characters: the notification value it sends, if it sends one,
  and the buffer for the next characters.\<close>

definition rxEventCallback :: "u16 \<Rightarrow> rx_buffer \<Rightarrow> u32 option \<times> rx_buffer" where
  "rxEventCallback usBytesRead pucNextBuffer =
     (if usBytesRead > 0
      then (case pucNextBuffer of
              puxRxBufferA \<Rightarrow> (Some (ucast usBytesRead OR BUFFER_A_FLAG), puxRxBufferB)
            | puxRxBufferB \<Rightarrow> (Some (ucast usBytesRead OR BUFFER_B_FLAG), puxRxBufferA))
      else (None, pucNextBuffer))"

definition rxErrorCallback :: u32 where
  "rxErrorCallback = ERROR_FLAG"

text \<open>One round of the receive thread: what a notification makes it push into the receive stream, and how
  many characters were announced.\<close>

definition vRxThread_round :: "u32 \<Rightarrow> string \<Rightarrow> string \<Rightarrow> string \<times> nat" where
  "vRxThread_round ulNotifyValue bufA bufB =
     (let xBytes = unat (ulNotifyValue AND READ_LEN_MASK) in
      if xBytes > 0 \<and> ulNotifyValue AND BUFFER_A_FLAG > 0 then (take xBytes bufA, xBytes)
      else if xBytes > 0 \<and> ulNotifyValue AND BUFFER_B_FLAG > 0 then (take xBytes bufB, xBytes)
      else ([], xBytes))"

text \<open>The part of the transmit thread that merges a log message into the output, when the stream was empty and
  the semaphore free.\<close>

definition tx_log :: "'t stream_ops \<Rightarrow> nat \<Rightarrow> string \<Rightarrow> 't console \<Rightarrow> 't console option" where
  "tx_log ops CLI_UART_TX_STREAM_LEN message c = do {
     configASSERT (length message + length crlf + CLI_INPUT_LINE_LEN_MAX \<le> CLI_UART_TX_STREAM_LEN);
     if length message > 0
     then do {
       let t = xUartTxStream c;
       let t = (if xPartialCommand c then snd (send0 ops [CHR 0x0D, CHR 0x1B, CHR ''['', CHR ''K''] t) else t);
       let t = snd (send0 ops message t);
       let t = snd (send0 ops crlf t);
       line \<leftarrow> mem_read 0 (ulInBufferIdx c) (pcInputBuffer c);
       let t = (if xPartialCommand c
                then (let t = snd (send0 ops CLI_PROMPT_STR t)
                      in if ulInBufferIdx c > 0 then snd (send0 ops line t) else t)
                else t);
       Some (c\<lparr>xUartTxStream := t\<rparr>)
     }
     else Some c
   }"

subsection \<open>The command task\<close>

definition xInitConsoleUart :: bool where
  "xInitConsoleUart = False"

text \<open>\<open>n\<close> rounds of the loop of \<open>Task_CLI\<close>: the lines that were given to \<open>FreeRTOS_CLIProcessCommand\<close>.\<close>

fun cli_rounds :: "nat \<Rightarrow> 't stream_ops \<Rightarrow> char option list \<Rightarrow> 't console \<Rightarrow> (string list \<times> char option list \<times> 't console) option" where
  "cli_rounds 0 ops keys c = Some ([], keys, c)"
| "cli_rounds (Suc n) ops keys c = do {
     (lLen, c, keys) \<leftarrow> uart_readline ops keys c;
     (cmds, keys, c') \<leftarrow> cli_rounds n ops keys c;
     Some ((if lLen > 0 then [c_str (pcInputBuffer c)] else []) @ cmds, keys, c')
   }"

text \<open>The task: it registers its commands (each needs memory) and then either runs the loop or deletes itself.\<close>

datatype cli_task = Running | Deleted

fun register_all :: "bool list \<Rightarrow> CLI_Command_Definition_t list \<Rightarrow> commands \<Rightarrow> commands option" where
  "register_all mem [] cmds = Some cmds"
| "register_all [] (d # ds) cmds = None"
| "register_all (m # mem) (d # ds) cmds = do {
     (ok, cmds) \<leftarrow> FreeRTOS_CLIRegisterCommand m d cmds;
     register_all mem ds cmds
   }"

definition Task_CLI :: "bool list \<Rightarrow> CLI_Command_Definition_t list \<Rightarrow> commands \<Rightarrow> (cli_task \<times> commands) option" where
  "Task_CLI mem defs cmds = do {
     cmds \<leftarrow> register_all mem defs cmds;
     Some (if xInitConsoleUart then Running else Deleted, cmds)
   }"

subsection \<open>Writing sends everything\<close>

lemma stream_send:
  assumes "stream_spec ops sent room" "send ops xs t = (n, t')"
  shows "n \<le> length xs" "xs \<noteq> [] \<Longrightarrow> 0 < n" "sent t' = sent t @ take n xs"
  using assms unfolding stream_spec_def by blast+

lemma stream_send0:
  assumes "stream_spec ops sent room" "length xs \<le> room t"
  shows "sent (snd (send0 ops xs t)) = sent t @ xs" "room (snd (send0 ops xs t)) = room t - length xs"
proof -
  obtain n t' where e: "send0 ops xs t = (n, t')" by (cases "send0 ops xs t")
  with assms(1) have "n = min (length xs) (room t) \<and> sent t' = sent t @ take n xs \<and> room t' = room t - n"
    unfolding stream_spec_def by blast
  with e assms(2) show "sent (snd (send0 ops xs t)) = sent t @ xs" "room (snd (send0 ops xs t)) = room t - length xs"
    by simp_all
qed

lemma uart_write_loop_all:
  assumes "stream_spec ops sent room" "k \<le> length xs"
  shows "\<exists>t'. uart_write_loop ops xs k t = Some (length xs, t') \<and> sent t' = sent t @ drop k xs"
  using assms(2)
proof (induction "length xs - k" arbitrary: k t rule: less_induct)
  case less
  show ?case
  proof (cases "k < length xs")
    case True
    obtain n t' where e: "send ops (drop k xs) t = (n, t')" by (cases "send ops (drop k xs) t")
    note n = stream_send [OF assms(1) e]
    have "k + n \<le> length xs" "0 < n" using n True by simp_all
    then have "length xs - (k + n) < length xs - k" using True by linarith
    then obtain t'' where "uart_write_loop ops xs (k + n) t' = Some (length xs, t'')" "sent t'' = sent t' @ drop (k + n) xs"
      using less.hyps [of "k + n" t'] \<open>k + n \<le> length xs\<close> by auto
    moreover have "take n (drop k xs) @ drop (k + n) xs = drop k xs"
      by (metis append_take_drop_id drop_drop add.commute)
    ultimately show ?thesis using True e n(3) by (subst uart_write_loop.simps) simp
  next
    case False
    then show ?thesis using less.prems by (subst uart_write_loop.simps) simp
  qed
qed

lemma uart_write_ok:
  assumes "stream_spec ops sent room"
  obtains t' where "uart_write ops xs c = Some (c\<lparr>xUartTxStream := t'\<rparr>)" "sent t' = sent (xUartTxStream c) @ xs"
  using uart_write_loop_all [OF assms, of 0 xs "xUartTxStream c"] by (auto simp: uart_write_def)

subsection \<open>The editor\<close>

text \<open>The editor as a function of the keys alone: the line so far and what a key does to it.\<close>

definition ends_line :: "char \<Rightarrow> bool" where
  "ends_line ch = (ch = CHR 0x0A \<or> ch = CHR 0x0D \<or> ch = NUL)"

definition erases :: "char \<Rightarrow> bool" where
  "erases ch = (ch = CHR 0x08 \<or> ch = CHR 0x7F)"

datatype edited = Waiting | Line string "char option list" | Dropped "char option list"

fun edit_line :: "string \<Rightarrow> char option list \<Rightarrow> edited" where
  "edit_line l [] = (if length l < 128 then Waiting else Dropped [])"
| "edit_line l (k # ks) =
     (if length l < 128
      then (case k of
              None \<Rightarrow> edit_line l ks
            | Some ch \<Rightarrow>
                if ends_line ch then (if l = [] then edit_line [] ks else Line l ks)
                else if erases ch then edit_line (butlast l) ks
                else if ch = CHR 0x03 then edit_line [] ks
                else edit_line (l @ [ch]) ks)
      else Dropped (k # ks))"

text \<open>The characters of the line are those in front of the index.\<close>

definition editing :: "string \<Rightarrow> 't console \<Rightarrow> bool" where
  "editing l c \<longleftrightarrow> length (pcInputBuffer c) = 128 \<and> ulInBufferIdx c = length l \<and>
     take (length l) (pcInputBuffer c) = l \<and> NUL \<notin> set l"

lemma c_str_terminated:
  assumes "take n buf = l" "n < length buf" "NUL \<notin> set l"
  shows "c_str (buf[n := NUL]) = l"
proof -
  have "buf[n := NUL] = l @ NUL # drop (Suc n) buf" using assms by (simp add: upd_conv_take_nth_drop)
  then show ?thesis using assms(3) by (auto simp: c_str_def takeWhile_append)
qed

lemma key_end:
  assumes spec: "stream_spec ops sent room" and ed: "editing l c" and len: "length l < 128" and l: "l \<noteq> []"
    and ch: "ends_line ch"
  shows "\<exists>c'. readline_key ops ch (c\<lparr>pcInputBuffer := (pcInputBuffer c)[ulInBufferIdx c := ch]\<rparr>) = Some (Some (length l), c') \<and>
    c_str (pcInputBuffer c') = l \<and> length (pcInputBuffer c') = 128 \<and> \<not> xPartialCommand c'"
proof -
  let ?c = "c\<lparr>pcInputBuffer := (pcInputBuffer c)[length l := NUL]\<rparr>"
  obtain t where w: "uart_write ops crlf ?c = Some (?c\<lparr>xUartTxStream := t\<rparr>)" using spec by (rule uart_write_ok)
  have "c_str ((pcInputBuffer c)[length l := NUL]) = l"
    using ed len by (intro c_str_terminated) (simp_all add: editing_def)
  with w show ?thesis using ed len l ch
    by (simp add: readline_key_def Let_def editing_def ends_line_def)
qed

lemma key_edit:
  assumes spec: "stream_spec ops sent room" and ed: "editing l c" and len: "length l < 128"
    and ch: "\<not> (ends_line ch \<and> l \<noteq> [])"
  shows "\<exists>c'. readline_key ops ch (c\<lparr>pcInputBuffer := (pcInputBuffer c)[ulInBufferIdx c := ch]\<rparr>) = Some (None, c') \<and>
    editing (if ends_line ch then [] else if erases ch then butlast l else if ch = CHR 0x03 then [] else l @ [ch]) c'"
proof -
  let ?b = "(pcInputBuffer c)[ulInBufferIdx c := ch]"
  have b: "length ?b = 128" "take (length l) ?b = l" "?b ! length l = ch" "ulInBufferIdx c = length l" "NUL \<notin> set l"
    using ed len by (simp_all add: editing_def)
  consider "ends_line ch" "l = []" | "\<not> ends_line ch" "erases ch" "l = []" | "\<not> ends_line ch" "erases ch" "l \<noteq> []"
    | "\<not> ends_line ch" "\<not> erases ch" "ch = CHR 0x03" | "\<not> ends_line ch" "\<not> erases ch" "ch \<noteq> CHR 0x03"
    using ch by blast
  then show ?thesis
  proof cases
    case 1
    then show ?thesis using b by (simp add: readline_key_def Let_def editing_def ends_line_def)
  next
    case 2
    then show ?thesis using b by (simp add: readline_key_def Let_def editing_def ends_line_def erases_def)
  next
    case 3
    let ?b' = "(pcInputBuffer c)[length l := NUL, length l - 1 := NUL]"
    let ?c = "c\<lparr>pcInputBuffer := ?b', ulInBufferIdx := length l - 1\<rparr>"
    obtain t where w: "uart_write ops [CHR 0x08, CHR '' '', CHR 0x08] ?c = Some (?c\<lparr>xUartTxStream := t\<rparr>)"
      using spec by (rule uart_write_ok)
    have "take (length l - 1) ?b' = butlast l"
    proof -
      have "take (length l - 1) ?b' = take (length l - 1) (take (length l) ?b)" using 3(3) b(4) by (simp add: min_def)
      then show ?thesis unfolding b(2) by (simp add: butlast_conv_take)
    qed
    moreover have "NUL \<notin> set (butlast l)" using b(5) by (meson in_set_butlastD)
    ultimately show ?thesis using 3 b len w
      by (simp add: readline_key_def Let_def editing_def ends_line_def erases_def uart_print_def c_str_def)
  next
    case 4
    let ?c = "c\<lparr>pcInputBuffer := ?b, ulInBufferIdx := 0\<rparr>"
    obtain t where w: "uart_write ops (crlf @ ''> '') ?c = Some (?c\<lparr>xUartTxStream := t\<rparr>)"
      using spec by (rule uart_write_ok)
    then show ?thesis using 4 b
      by (simp add: readline_key_def Let_def editing_def ends_line_def erases_def)
  next
    case 5
    let ?c = "c\<lparr>pcInputBuffer := ?b\<rparr>"
    obtain t where w: "uart_write ops [ch] ?c = Some (?c\<lparr>xUartTxStream := t\<rparr>)"
      using spec by (rule uart_write_ok)
    have "take (Suc (length l)) ?b = l @ [ch]" using b len by (simp add: take_Suc_conv_app_nth)
    then show ?thesis using 5 b len w
      by (auto simp: readline_key_def Let_def editing_def ends_line_def erases_def)
  qed
qed

text \<open>A result of \<open>readline_loop\<close> is as the editor says.\<close>

definition readline_as :: "edited \<Rightarrow> (nat \<times> 't console \<times> char option list) option \<Rightarrow> bool" where
  "readline_as e r =
     (case e of
        Waiting \<Rightarrow> r = None
      | Line line rest \<Rightarrow> \<exists>c'. r = Some (length line, c', rest) \<and> c_str (pcInputBuffer c') = line \<and>
          length (pcInputBuffer c') = 128 \<and> \<not> xPartialCommand c' \<and> line \<noteq> []
      | Dropped rest \<Rightarrow> \<exists>c'. r = Some (0, c', rest) \<and> length (pcInputBuffer c') = 128)"

lemma readline_loop_edits:
  assumes spec: "stream_spec ops sent room" and "editing l c" and "length l \<le> 128"
  shows "readline_as (edit_line l keys) (readline_loop ops keys c)"
  using assms(2,3)
proof (induction keys arbitrary: l c)
  case Nil
  then show ?case by (auto simp: editing_def readline_as_def)
next
  case (Cons k ks)
  have idx: "ulInBufferIdx c = length l" "length (pcInputBuffer c) = 128" using Cons.prems(1) by (simp_all add: editing_def)
  consider "length l = 128" | "length l < 128" "k = None"
    | ch where "length l < 128" "k = Some ch" "ends_line ch" "l \<noteq> []"
    | ch where "length l < 128" "k = Some ch" "\<not> (ends_line ch \<and> l \<noteq> [])"
    using Cons.prems(2) by (cases k) (auto simp: le_less)
  then show ?case
  proof cases
    case 1
    then show ?thesis using idx by (simp add: readline_as_def)
  next
    case 2
    then show ?thesis using Cons.IH [OF Cons.prems] idx by simp
  next
    case (3 ch)
    then show ?thesis using key_end [OF spec Cons.prems(1), of ch] idx by (auto simp: readline_as_def)
  next
    case (4 ch)
    let ?l = "if ends_line ch then [] else if erases ch then butlast l else if ch = CHR 0x03 then [] else l @ [ch]"
    obtain c' where k: "readline_key ops ch (c\<lparr>pcInputBuffer := (pcInputBuffer c)[ulInBufferIdx c := ch]\<rparr>) = Some (None, c')"
      "editing ?l c'"
      using key_edit [OF spec Cons.prems(1) 4(1,3)] by blast
    have "readline_loop ops (k # ks) c = readline_loop ops ks c'" using 4(1,2) idx k(1) by simp
    moreover have "edit_line l (k # ks) = edit_line ?l ks" using 4 by auto
    moreover have "length ?l \<le> 128" using 4(1) by auto
    ultimately show ?thesis using Cons.IH [OF k(2)] by (simp only:)
  qed
qed

lemma uart_readline_starts:
  assumes "stream_spec ops sent room" "length (pcInputBuffer c) = 128"
  obtains c' where "uart_readline ops keys c = readline_loop ops keys c'" "editing [] c'"
proof -
  let ?c = "c\<lparr>ulInBufferIdx := 0, pcInputBuffer := (pcInputBuffer c)[127 := NUL]\<rparr>"
  obtain t where "uart_write ops ''> '' ?c = Some (?c\<lparr>xUartTxStream := t\<rparr>)" using assms(1) by (rule uart_write_ok)
  then show ?thesis
    using that [of "?c\<lparr>xUartTxStream := t, xPartialCommand := True\<rparr>"] assms(2)
    by (simp add: uart_readline_def editing_def)
qed

lemma readline_edits:
  assumes "stream_spec ops sent room" "length (pcInputBuffer c) = 128"
  shows "readline_as (edit_line [] keys) (uart_readline ops keys c)"
proof -
  obtain c' where "uart_readline ops keys c = readline_loop ops keys c'" "editing [] c'"
    using assms by (rule uart_readline_starts)
  then show ?thesis using readline_loop_edits [OF assms(1), of "[]" c' keys] by simp
qed

text \<open>Characters that go into the line.\<close>

definition printable :: "char \<Rightarrow> bool" where
  "printable ch \<longleftrightarrow> \<not> ends_line ch \<and> \<not> erases ch \<and> ch \<noteq> CHR 0x03"

lemma edit_printable:
  assumes "list_all printable xs" "length l + length xs \<le> 128"
  shows "edit_line l (map Some xs @ ks) = edit_line (l @ xs) ks"
  using assms
proof (induction xs arbitrary: l)
  case (Cons x xs)
  then show ?case using Cons.IH [of "l @ [x]"] by (simp add: printable_def)
qed simp

lemma edit_full: "length l = 128 \<Longrightarrow> edit_line l ks = Dropped ks"
  by (cases ks) simp_all

lemma printable_line: "list_all printable l \<Longrightarrow> c_string l"
  by (induction l) (auto simp: printable_def ends_line_def)

subsection \<open>Properties\<close>

text \<open>
  C20. The line editor of the console does what an editor on plain strings does: whatever is typed,
  with backspaces, control-C and reads that deliver nothing, \<open>uart_readline\<close> waits exactly when no
  line is complete, and otherwise returns the edited line, terminated, and its length; every access
  to the input buffer is inside it. A line that reaches 128 characters is dropped.
\<close>

theorem console_readline_edits:
  assumes "stream_spec ops sent room" "length (pcInputBuffer c) = 128"
  shows "readline_as (edit_line [] keys) (uart_readline ops keys c)"
  using assms by (rule readline_edits)

text \<open>For the witnesses: a stream that takes one character of a blocking send at a time.\<close>

definition ex_stream :: "(string \<times> nat) stream_ops" where
  "ex_stream =
     \<lparr>send = \<lambda>xs (t, r). (min 1 (length xs), (t @ take 1 xs, r)),
      send0 = \<lambda>xs (t, r). (min (length xs) r, (t @ take (min (length xs) r) xs, r - min (length xs) r)),
      receive = \<lambda>n (t, r). (take n t, (drop n t, r))\<rparr>"

lemma ex_stream_spec: "stream_spec ex_stream fst snd"
proof -
  have "n \<le> length xs \<and> (xs \<noteq> [] \<longrightarrow> 0 < n) \<and> fst t' = fst t @ take n xs" if "send ex_stream xs t = (n, t')" for xs t n t'
  proof -
    have "n = min 1 (length xs)" "t' = (fst t @ take 1 xs, snd t)"
      using that by (simp_all add: ex_stream_def split_beta)
    then show ?thesis by (cases xs) simp_all
  qed
  moreover have "n = min (length xs) (snd t) \<and> fst t' = fst t @ take n xs \<and> snd t' = snd t - n"
    if "send0 ex_stream xs t = (n, t')" for xs t n t'
    using that by (auto simp: ex_stream_def split_beta)
  ultimately show ?thesis unfolding stream_spec_def by blast
qed

definition ex_console :: "(string \<times> nat) console" where
  "ex_console = \<lparr>pcInputBuffer = replicate 128 NUL, ulInBufferIdx = 0, xPartialCommand = False, xUartTxStream = ([], 2304)\<rparr>"

lemma ex_console_buffer: "length (pcInputBuffer ex_console) = 128"
  by (simp add: ex_console_def)

theorem console_readline_edits_witness:
  "\<exists>c'. uart_readline ex_stream (map Some [CHR ''p'', CHR ''x'', CHR 0x7F, CHR ''s'', CHR 0x0D]) ex_console = Some (2, c', []) \<and>
     c_str (pcInputBuffer c') = ''ps''"
proof -
  let ?keys = "map Some [CHR ''p'', CHR ''x'', CHR 0x7F, CHR ''s'', CHR 0x0D]"
  have "edit_line [] ?keys = Line ''ps'' []" by (simp add: ends_line_def erases_def)
  then show ?thesis using console_readline_edits [OF ex_stream_spec ex_console_buffer, of ?keys]
    by (auto simp: readline_as_def)
qed

text \<open>
  Lines typed at the console reach the command interpreter: when every line is non-empty, has
  fewer than 128 characters, no control characters and ends with the enter key, the loop of the
  command task processes exactly these lines, in this order, and waits for more.
\<close>

lemma console_session:
  assumes "stream_spec ops sent room" "length (pcInputBuffer c) = 128"
    and "list_all (\<lambda>l. l \<noteq> [] \<and> length l < 128 \<and> list_all printable l) ls"
  shows "\<exists>c'. cli_rounds (length ls) ops (concat (map (\<lambda>l. map Some l @ [Some (CHR 0x0D)]) ls)) c = Some (ls, [], c') \<and>
    uart_readline ops [] c' = None"
  using assms(2,3)
proof (induction ls arbitrary: c)
  case Nil
  then show ?case using readline_edits [OF assms(1), of c "[]"] by (simp add: readline_as_def)
next
  case (Cons l ls)
  let ?ks = "concat (map (\<lambda>l. map Some l @ [Some (CHR 0x0D)]) ls)"
  have l: "l \<noteq> []" "length l < 128" "list_all printable l" using Cons.prems(2) by simp_all
  have "edit_line [] (map Some l @ Some (CHR 0x0D) # ?ks) = Line l ?ks"
    using edit_printable [OF l(3), of "[]"] l(1,2) by (simp add: ends_line_def)
  then obtain c1 where r: "uart_readline ops (map Some l @ Some (CHR 0x0D) # ?ks) c = Some (length l, c1, ?ks)"
    "c_str (pcInputBuffer c1) = l" "length (pcInputBuffer c1) = 128"
    using readline_edits [OF assms(1) Cons.prems(1), of "map Some l @ Some (CHR 0x0D) # ?ks"]
    by (auto simp: readline_as_def)
  obtain c' where "cli_rounds (length ls) ops ?ks c1 = Some (ls, [], c')" "uart_readline ops [] c' = None"
    using Cons.IH [OF r(3)] Cons.prems(2) by auto
  then show ?case using r l(1) by simp
qed


text \<open>
  A line that is too long is not refused: its first 128 characters are dropped without a message,
  and what follows them is run as a command of its own.
\<close>

lemma console_long_line_tail_runs:
  assumes "stream_spec ops sent room" "length (pcInputBuffer c) = 128"
    and "list_all printable (xs @ tail)" "length xs = 128" "tail \<noteq> []" "length tail < 128"
  shows "\<exists>c'. cli_rounds 2 ops (map Some (xs @ tail) @ [Some (CHR 0x0D)]) c = Some ([tail], [], c')"
proof -
  have p: "list_all printable xs" "list_all printable tail" using assms(3) by simp_all
  let ?rest = "map Some tail @ [Some (CHR 0x0D)]"
  have "edit_line [] (map Some xs @ ?rest) = Dropped ?rest"
    using edit_printable [OF p(1), of "[]" ?rest] edit_full [of xs] assms(4) by simp
  then obtain c1 where r: "uart_readline ops (map Some xs @ ?rest) c = Some (0, c1, ?rest)" "length (pcInputBuffer c1) = 128"
    using readline_edits [OF assms(1,2), of "map Some xs @ ?rest"] by (auto simp: readline_as_def)
  have "edit_line [] ?rest = Line tail []"
    using edit_printable [OF p(2), of "[]" "[Some (CHR 0x0D)]"] assms(5,6) by (simp add: ends_line_def)
  then obtain c2 where "uart_readline ops ?rest c1 = Some (length tail, c2, [])" "c_str (pcInputBuffer c2) = tail"
    using readline_edits [OF assms(1) r(2), of ?rest] by (auto simp: readline_as_def)
  then show ?thesis using r(1) assms(5) by (simp add: numeral_2_eq_2)
qed


text \<open>
  A log message that arrives while a command is being typed does not disturb it: the transmit thread
  clears the line on the terminal, sends the message and a line end, and sends the prompt and the
  characters typed so far again.
\<close>

lemma console_log_restores_line:
  assumes "stream_spec ops sent room" "length (pcInputBuffer c) = 128" "ulInBufferIdx c \<le> 128"
    and "message \<noteq> []" "length message + 130 \<le> len" "length message + ulInBufferIdx c + 8 \<le> room (xUartTxStream c)"
  shows "\<exists>c'. tx_log ops len message c = Some c' \<and> pcInputBuffer c' = pcInputBuffer c \<and> ulInBufferIdx c' = ulInBufferIdx c \<and>
    sent (xUartTxStream c') = sent (xUartTxStream c) @
      (if xPartialCommand c then [CHR 0x0D, CHR 0x1B, CHR ''['', CHR ''K''] else []) @ message @ crlf @
      (if xPartialCommand c then ''> '' @ take (ulInBufferIdx c) (pcInputBuffer c) else [])"
  using assms by (simp add: tx_log_def Let_def stream_send0 [OF assms(1)])


text \<open>The length and the buffer of a notification are read back as they were sent.\<close>

lemmas rx_flag_defs = ERROR_FLAG_def BUFFER_A_FLAG_def BUFFER_B_FLAG_def FLAGS_MASK_def READ_LEN_MASK_def

lemma bit_rx_flags:
  "bit ERROR_FLAG i \<longleftrightarrow> i = 31" "bit BUFFER_A_FLAG i \<longleftrightarrow> i = 30" "bit BUFFER_B_FLAG i \<longleftrightarrow> i = 29"
  by (auto simp only: rx_flag_defs bit_push_bit_iff bit_1_iff) simp_all

lemma rx_flags:
  fixes n :: u16
  shows "(ucast n OR BUFFER_A_FLAG) AND READ_LEN_MASK = ucast n" "(ucast n OR BUFFER_B_FLAG) AND READ_LEN_MASK = ucast n"
    "(ucast n OR BUFFER_A_FLAG) AND BUFFER_A_FLAG = BUFFER_A_FLAG" "(ucast n OR BUFFER_B_FLAG) AND BUFFER_A_FLAG = 0"
    "(ucast n OR BUFFER_B_FLAG) AND BUFFER_B_FLAG = BUFFER_B_FLAG"
proof -
  have n: "\<not> bit n i" if "29 \<le> i" for i using that by (auto dest: bit_imp_le_length)
  show "(ucast n OR BUFFER_A_FLAG) AND READ_LEN_MASK = ucast n" "(ucast n OR BUFFER_B_FLAG) AND READ_LEN_MASK = ucast n"
    "(ucast n OR BUFFER_A_FLAG) AND BUFFER_A_FLAG = BUFFER_A_FLAG" "(ucast n OR BUFFER_B_FLAG) AND BUFFER_A_FLAG = 0"
    "(ucast n OR BUFFER_B_FLAG) AND BUFFER_B_FLAG = BUFFER_B_FLAG"
    by (rule bit_word_eqI, use n in \<open>auto simp: READ_LEN_MASK_def FLAGS_MASK_def bit_rx_flags bit_and_iff
      bit_or_iff bit_not_iff bit_ucast_iff\<close>)+
qed

lemma rx_notification_roundtrip:
  assumes "rxEventCallback n b = (Some v, b')"
  shows "vRxThread_round v bufA bufB = (take (unat n) (case b of puxRxBufferA \<Rightarrow> bufA | puxRxBufferB \<Rightarrow> bufB), unat n)" "b' \<noteq> b"
proof -
  have n: "0 < n" using assms by (auto simp: rxEventCallback_def split: if_splits)
  then have "unat n < 2 ^ 16" "0 < unat n" using unsigned_less [of n, where ?'a = nat] by (simp_all add: word_less_nat_alt)
  then have u: "unat (ucast n :: u32) = unat n" "0 < unat n" by (simp_all add: unsigned_ucast_eq take_bit_nat_eq_self)
  have f: "BUFFER_A_FLAG \<noteq> 0" "BUFFER_B_FLAG \<noteq> 0" by (simp_all add: rx_flag_defs)
  show "vRxThread_round v bufA bufB = (take (unat n) (case b of puxRxBufferA \<Rightarrow> bufA | puxRxBufferB \<Rightarrow> bufB), unat n)"
    using assms n u f by (cases b) (auto simp: rxEventCallback_def vRxThread_round_def Let_def rx_flags word_gt_0)
  show "b' \<noteq> b" using assms n by (cases b) (auto simp: rxEventCallback_def)
qed

text \<open>The console is never opened, so the task always ends itself.\<close>

lemma cli_task_ends: "Task_CLI mem defs cmds = Some (r, cmds') \<Longrightarrow> r = Deleted"
  by (auto simp: Task_CLI_def xInitConsoleUart_def split: bind_splits)

end
