(* ===== verification/Logging.thy ===== *)
theory Logging
  imports Prelude
begin

text \<open>
  Log lines: \<open>vLoggingPrintf\<close> of \<open>source/logging/logging.c\<close> and the platform functions it hands a line
  to (\<open>target/rx65n/platform_logging.c\<close>, which drop it in this port). A line is built in the static
  array \<open>pcPrintBuff\<close> while the scheduler is suspended: a header of fixed width, the message, and the
  place in the source. What \<open>vsnprintf\<close> makes of the format and its arguments is an argument of the
  model: the text, or \<open>None\<close> for an output error.
\<close>

abbreviation (input) dlMAX_PRINT_STRING_LENGTH :: nat where "dlMAX_PRINT_STRING_LENGTH \<equiv> 2046"
abbreviation (input) dlMAX_LOG_LINE_LENGTH :: nat where "dlMAX_LOG_LINE_LENGTH \<equiv> 2048"

datatype sched_state = taskSCHEDULER_NOT_STARTED | taskSCHEDULER_RUNNING | taskSCHEDULER_SUSPENDED

text \<open>The static buffer, the scheduler (started, and how often it is suspended), and the lines the platform
  was given before and after the scheduler started.\<close>

record log_state =
  pcPrintBuff :: string
  started :: bool
  suspended :: nat
  early_lines :: "string list"
  lines :: "string list"

definition xTaskGetSchedulerState :: "log_state \<Rightarrow> sched_state" where
  "xTaskGetSchedulerState s =
     (if \<not> started s then taskSCHEDULER_NOT_STARTED
      else if suspended s = 0 then taskSCHEDULER_RUNNING else taskSCHEDULER_SUSPENDED)"

text \<open>\<open>snprintf\<close> of the text \<open>t\<close> to \<open>&buf[i]\<close> with room for \<open>n\<close> characters.\<close>

definition snprintf_at :: "nat \<Rightarrow> nat \<Rightarrow> string \<Rightarrow> string \<Rightarrow> (nat \<times> string) option" where
  "snprintf_at i n t buf =
     (if n = 0 then Some (length t, buf)
      else Option.bind (mem_write i (take (n - 1) t @ [NUL]) buf) (\<lambda>buf'. Some (length t, buf')))"

text \<open>\<open>%-w.ws\<close> and \<open>%wlu\<close>.\<close>

definition fmt_left :: "nat \<Rightarrow> string \<Rightarrow> string" where
  "fmt_left w t = take w (c_str t) @ replicate (w - length (c_str t)) CHR '' ''"

definition fmt_right :: "nat \<Rightarrow> string \<Rightarrow> string" where
  "fmt_right w t = replicate (w - length t) CHR '' '' @ t"

definition log_header :: "string \<Rightarrow> u32 \<Rightarrow> string \<Rightarrow> string" where
  "log_header pcLogLevel ticks pcTaskName =
     ''<'' @ fmt_left 3 pcLogLevel @ ''> '' @ fmt_right 8 (dec (unat (ticks AND 0xFFFFFF))) @
     '' ['' @ fmt_left 10 pcTaskName @ ''] ''"

definition log_trailer :: "string \<Rightarrow> nat \<Rightarrow> string" where
  "log_trailer pcFileName ulLineNumber = '' ('' @ c_str pcFileName @ '':'' @ dec ulLineNumber @ '')''"

definition line_end :: "char \<Rightarrow> bool" where
  "line_end c = (c = CHR 0x0D \<or> c = CHR 0x0A \<or> c = NUL)"

text \<open>The loop that removes line ends from the end of the message.\<close>

fun trim_loop :: "nat \<Rightarrow> string \<Rightarrow> (nat \<times> string) option" where
  "trim_loop 0 buf = Some (0, buf)"
| "trim_loop (Suc n) buf = do {
     c \<leftarrow> arr_get n buf;
     if line_end c
     then do { buf \<leftarrow> arr_set n NUL buf; trim_loop n buf }
     else Some (Suc n, buf)
   }"

definition vPlatformLoggingWriteEarly :: "string \<Rightarrow> log_state \<Rightarrow> log_state option" where
  "vPlatformLoggingWriteEarly line s = do {
     configASSERT (xTaskGetSchedulerState s \<noteq> taskSCHEDULER_RUNNING);
     Some (s\<lparr>early_lines := early_lines s @ [line]\<rparr>)
   }"

definition vPlatformLoggingWrite :: "string \<Rightarrow> log_state \<Rightarrow> log_state option" where
  "vPlatformLoggingWrite line s = Some (s\<lparr>lines := lines s @ [line]\<rparr>)"

definition vSendLogMessage :: "nat \<Rightarrow> log_state \<Rightarrow> log_state option" where
  "vSendLogMessage count s = do {
     line \<leftarrow> mem_read 0 count (pcPrintBuff s);
     if xTaskGetSchedulerState s = taskSCHEDULER_NOT_STARTED
     then vPlatformLoggingWriteEarly line s else vPlatformLoggingWrite line s
   }"

text \<open>The parts of a line, in the order of the code: the header, the message, the trailer. Each returns
  the new \<open>ulLenTotal\<close> and the buffer.\<close>

definition put_header :: "string \<Rightarrow> u32 \<Rightarrow> string \<Rightarrow> string \<Rightarrow> (nat \<times> string) option" where
  "put_header pcLogLevel ticks pcTaskName buf = do {
     buf \<leftarrow> arr_set 0 NUL buf;
     (lLenPart, buf) \<leftarrow> snprintf_at 0 dlMAX_PRINT_STRING_LENGTH (log_header pcLogLevel ticks pcTaskName) buf;
     configASSERT (lLenPart > 0);
     Some (if lLenPart < dlMAX_PRINT_STRING_LENGTH then lLenPart else dlMAX_PRINT_STRING_LENGTH, buf)
   }"

definition put_message :: "string option \<Rightarrow> nat \<times> string \<Rightarrow> (nat \<times> string) option" where
  "put_message msg = (\<lambda>(ulLenTotal, buf).
     if ulLenTotal < dlMAX_PRINT_STRING_LENGTH
     then do {
       text \<leftarrow> msg;
       (lLenPart, buf) \<leftarrow> snprintf_at ulLenTotal (dlMAX_PRINT_STRING_LENGTH - ulLenTotal) text buf;
       configASSERT (lLenPart > 0);
       Some (if u32_of (lLenPart + ulLenTotal) < dlMAX_PRINT_STRING_LENGTH then ulLenTotal + lLenPart
             else dlMAX_PRINT_STRING_LENGTH, buf)
     }
     else Some (ulLenTotal, buf))"

definition put_trailer :: "string option \<Rightarrow> nat \<Rightarrow> nat \<times> string \<Rightarrow> (nat \<times> string) option" where
  "put_trailer pcFileName ulLineNumber = (\<lambda>(ulLenTotal, buf).
     case pcFileName of
       None \<Rightarrow> Some (ulLenTotal, buf)
     | Some f \<Rightarrow>
         if ulLineNumber > 0 \<and> ulLenTotal < dlMAX_LOG_LINE_LENGTH
         then do {
           (lLenPart, buf) \<leftarrow> snprintf_at ulLenTotal (dlMAX_LOG_LINE_LENGTH - ulLenTotal) (log_trailer f ulLineNumber) buf;
           configASSERT (lLenPart > 0);
           Some (if u32_of (lLenPart + ulLenTotal) < dlMAX_LOG_LINE_LENGTH then ulLenTotal + lLenPart
                 else dlMAX_LOG_LINE_LENGTH, buf)
         }
         else Some (ulLenTotal, buf))"

text \<open>\<open>ticks\<close> is \<open>xTaskGetTickCount() / portTICK_PERIOD_MS\<close>, with a period of one millisecond; \<open>task\<close> is the name
  \<open>pcTaskGetName\<close> returns.\<close>

definition vLoggingPrintf ::
  "string \<Rightarrow> string option \<Rightarrow> nat \<Rightarrow> u32 \<Rightarrow> string \<Rightarrow> string option \<Rightarrow> log_state \<Rightarrow> log_state option" where
  "vLoggingPrintf pcLogLevel pcFileName ulLineNumber ticks task msg s = do {
     let pcTaskName = (if xTaskGetSchedulerState s \<noteq> taskSCHEDULER_NOT_STARTED then task else ''None'');
     let xSchedulerWasSuspended = (xTaskGetSchedulerState s = taskSCHEDULER_RUNNING);
     let s = (if xSchedulerWasSuspended then s\<lparr>suspended := suspended s + 1\<rparr> else s);
     p \<leftarrow> put_header pcLogLevel ticks pcTaskName (pcPrintBuff s);
     p \<leftarrow> put_message msg p;
     p \<leftarrow> trim_loop (fst p) (snd p);
     (ulLenTotal, buf) \<leftarrow> put_trailer pcFileName ulLineNumber p;
     s \<leftarrow> vSendLogMessage ulLenTotal (s\<lparr>pcPrintBuff := buf\<rparr>);
     Some (if xSchedulerWasSuspended then s\<lparr>suspended := suspended s - 1\<rparr> else s)
   }"

subsection \<open>The line as it should be\<close>

definition rtrim :: "string \<Rightarrow> string" where
  "rtrim t = rev (dropWhile line_end (rev t))"

definition place :: "string option \<Rightarrow> nat \<Rightarrow> string" where
  "place file line = (case file of None \<Rightarrow> [] | Some f \<Rightarrow> if line > 0 then log_trailer f line else [])"

definition log_line :: "string \<Rightarrow> string option \<Rightarrow> nat \<Rightarrow> u32 \<Rightarrow> string \<Rightarrow> string \<Rightarrow> string" where
  "log_line level file line ticks task msg =
     (let full = rtrim (take 2045 (log_header level ticks task @ msg)) @ place file line
      in if length full < 2048 then full else take 2047 full @ [NUL])"

lemma rtrim_snoc: "rtrim (t @ [c]) = (if line_end c then rtrim t else t @ [c])"
  by (simp add: rtrim_def)

lemma length_rtrim: "length (rtrim t) \<le> length t"
  by (metis rtrim_def length_rev length_dropWhile_le)

lemma length_fmt_left [simp]: "length (fmt_left w t) = w"
  by (simp add: fmt_left_def)

lemma length_log_header [simp]: "length (log_header level ticks task) = 28"
proof -
  have m: "(0xFFFFFF :: u32) = mask 24" by (simp add: mask_eq_exp_minus_1)
  have "unat (ticks AND 0xFFFFFF) < 2 ^ 24"
    unfolding m take_bit_eq_mask [symmetric] unsigned_take_bit_eq by (rule take_bit_nat_less_exp)
  then have "length (dec (unat (ticks AND 0xFFFFFF))) \<le> 8" by (intro dec_length) simp_all
  then show ?thesis by (simp add: log_header_def fmt_right_def)
qed

subsection \<open>The parts\<close>

lemma snprintf_at_room:
  assumes "i + n \<le> length buf" "0 < n"
  obtains buf' where "snprintf_at i n t buf = Some (length t, buf')" "length buf' = length buf"
    "length t < n \<Longrightarrow> take (i + length t) buf' = take i buf @ t"
    "n \<le> length t \<Longrightarrow> take (i + n) buf' = take i buf @ take (n - 1) t @ [NUL]"
proof -
  let ?w = "take (n - 1) t @ [NUL]"
  have fit: "i + length ?w \<le> length buf" using assms by simp
  have "snprintf_at i n t buf = Some (length t, overwrite i ?w buf)"
    using assms fit by (simp add: snprintf_at_def)
  moreover have "take (i + length t) (overwrite i ?w buf) = take i buf @ t" if "length t < n"
    using assms that by (simp add: overwrite_def)
  moreover have "take (i + n) (overwrite i ?w buf) = take i buf @ ?w" if "n \<le> length t"
    using assms that by (cases n) (simp_all add: overwrite_def)
  ultimately show ?thesis using that fit by simp
qed

lemma put_header_ok:
  assumes "length buf = 2048"
  obtains buf' where "put_header level ticks task buf = Some (28, buf')" "length buf' = 2048"
    "take 28 buf' = log_header level ticks task"
proof -
  obtain buf' where "snprintf_at 0 2046 (log_header level ticks task) (buf[0 := NUL]) = Some (28, buf')"
    "length buf' = 2048" "take 28 buf' = log_header level ticks task"
    using assms by (rule_tac snprintf_at_room [of 0 2046 "buf[0 := NUL]" "log_header level ticks task"]) auto
  then show ?thesis using that assms by (simp add: put_header_def)
qed

lemma put_message_ok:
  assumes "length buf = 2048" "take 28 buf = h" "length h = 28" "msg \<noteq> []" "length msg < 2 ^ 31"
  obtains k buf' where "put_message (Some msg) (28, buf) = Some (k, buf')" "length buf' = 2048" "k \<le> 2046"
    "rtrim (take k buf') = rtrim (take 2045 (h @ msg))"
proof -
  obtain buf' where b: "snprintf_at 28 2018 msg buf = Some (length msg, buf')" "length buf' = 2048"
    "length msg < 2018 \<Longrightarrow> take (28 + length msg) buf' = h @ msg"
    "2018 \<le> length msg \<Longrightarrow> take 2046 buf' = h @ take 2017 msg @ [NUL]"
    using assms by (rule_tac snprintf_at_room [of 28 2018 buf msg]) auto
  let ?k = "if length msg + 28 < 2046 then 28 + length msg else 2046"
  have p: "put_message (Some msg) (28, buf) = Some (?k, buf')"
    using assms b(1) by (simp add: put_message_def)
  have "rtrim (take ?k buf') = rtrim (take 2045 (h @ msg))"
  proof (cases "length msg < 2018")
    case True
    then show ?thesis using b(3) assms(3) by simp
  next
    case False
    then have "take 2046 buf' = take 2045 (h @ msg) @ [NUL]" using b(4) assms(3) by simp
    then show ?thesis using False rtrim_snoc [of "take 2045 (h @ msg)" NUL] by (simp add: line_end_def)
  qed
  then show ?thesis using that [OF p b(2)] by simp
qed

lemma put_trailer_ok:
  assumes "length buf = 2048" "take k buf = body" "length body = k" "k \<le> 2045"
    "length (place file line) < 2 ^ 31"
  obtains k' buf' where "put_trailer file line (k, buf) = Some (k', buf')" "length buf' = 2048" "k' \<le> 2048"
    "take k' buf' = (if length (body @ place file line) < 2048 then body @ place file line
       else take 2047 (body @ place file line) @ [NUL])"
proof (cases "\<exists>f. file = Some f \<and> line > 0")
  case True
  then obtain f where f: "file = Some f" "line > 0" by blast
  let ?t = "log_trailer f line"
  have t: "place file line = ?t" "length ?t > 0" using f by (simp_all add: place_def log_trailer_def)
  obtain buf' where b: "snprintf_at k (2048 - k) ?t buf = Some (length ?t, buf')" "length buf' = 2048"
    "length ?t < 2048 - k \<Longrightarrow> take (k + length ?t) buf' = body @ ?t"
    "2048 - k \<le> length ?t \<Longrightarrow> take 2048 buf' = body @ take (2048 - k - 1) ?t @ [NUL]"
    using assms by (rule_tac snprintf_at_room [of k "2048 - k" buf ?t]) auto
  let ?k = "if length ?t + k < 2048 then k + length ?t else 2048"
  have p: "put_trailer file line (k, buf) = Some (?k, buf')"
    using assms(4,5) f t b(1) by (simp add: put_trailer_def)
  have "take ?k buf' = (if length (body @ ?t) < 2048 then body @ ?t else take 2047 (body @ ?t) @ [NUL])"
    using b(3,4) assms(3,4) by (cases "length ?t + k < 2048") auto
  then show ?thesis using that [OF p b(2)] by (simp add: t)
next
  case False
  then have "place file line = []" "put_trailer file line (k, buf) = Some (k, buf)"
    by (auto simp: place_def put_trailer_def split: option.splits)
  then show ?thesis using that [of k buf] assms by simp
qed

lemma trim_loop_rtrim:
  assumes "k \<le> length buf"
  shows "\<exists>buf'. trim_loop k buf = Some (length (rtrim (take k buf)), buf') \<and> length buf' = length buf \<and>
    take (length (rtrim (take k buf))) buf' = rtrim (take k buf)"
  using assms
proof (induction k arbitrary: buf)
  case (Suc k)
  have t: "take (Suc k) buf = take k buf @ [buf ! k]" using Suc.prems by (simp add: take_Suc_conv_app_nth)
  show ?case
  proof (cases "line_end (buf ! k)")
    case True
    then show ?thesis using Suc.IH [of "buf[k := NUL]"] Suc.prems t by (simp add: rtrim_snoc)
  next
    case False
    then show ?thesis using Suc.prems t by (simp add: rtrim_snoc)
  qed
qed (simp add: rtrim_def)

lemma vSendLogMessage_ok:
  assumes "count \<le> length (pcPrintBuff s)"
  shows "vSendLogMessage count s =
    Some (if started s then s\<lparr>lines := lines s @ [take count (pcPrintBuff s)]\<rparr>
          else s\<lparr>early_lines := early_lines s @ [take count (pcPrintBuff s)]\<rparr>)"
  using assms
  by (simp add: vSendLogMessage_def vPlatformLoggingWrite_def vPlatformLoggingWriteEarly_def
      xTaskGetSchedulerState_def)

lemma log_parts:
  assumes "length buf = 2048" "msg \<noteq> []" "length msg < 2 ^ 31" "length (place file line) < 2 ^ 31"
  obtains b1 p2 p3 k buf' where "put_header level ticks task buf = Some (28, b1)" "put_message (Some msg) (28, b1) = Some p2"
    "trim_loop (fst p2) (snd p2) = Some p3" "put_trailer file line p3 = Some (k, buf')"
    "length buf' = 2048" "k \<le> 2048" "take k buf' = log_line level file line ticks task msg"
proof -
  let ?h = "log_header level ticks task"
  obtain b1 where 1: "put_header level ticks task buf = Some (28, b1)" "length b1 = 2048" "take 28 b1 = ?h"
    using assms(1) by (rule put_header_ok)
  obtain k2 b2 where 2: "put_message (Some msg) (28, b1) = Some (k2, b2)" "length b2 = 2048" "k2 \<le> 2046"
    "rtrim (take k2 b2) = rtrim (take 2045 (?h @ msg))"
    using 1(2,3) length_log_header assms(2,3) by (rule put_message_ok)
  let ?body = "rtrim (take 2045 (?h @ msg))"
  have body: "length ?body \<le> 2045" using length_rtrim [of "take 2045 (?h @ msg)"] by simp
  obtain b3 where 3: "trim_loop k2 b2 = Some (length ?body, b3)" "length b3 = 2048" "take (length ?body) b3 = ?body"
    using trim_loop_rtrim [of k2 b2] 2 by auto
  obtain k4 b4 where 4: "put_trailer file line (length ?body, b3) = Some (k4, b4)" "length b4 = 2048" "k4 \<le> 2048"
    "take k4 b4 = (if length (?body @ place file line) < 2048 then ?body @ place file line
       else take 2047 (?body @ place file line) @ [NUL])"
    using 3(2,3) refl body assms(4) by (rule put_trailer_ok)
  show ?thesis
    using 1(1) 2(1) 3(1) 4 by (intro that [of b1 "(k2, b2)" "(length ?body, b3)" k4 b4]) (simp_all add: log_line_def)
qed

subsection \<open>Properties\<close>

text \<open>
  C30. Logging a message that is not empty always returns: the platform is handed exactly one line,
  the header of 28 characters, the message without its trailing line ends and the place in the
  source, cut to 2048 characters; nothing is written outside the line buffer and the scheduler is
  as often suspended as before.
\<close>

theorem log_line_written:
  assumes "length (pcPrintBuff s) = 2048" "msg \<noteq> []" "length msg < 2 ^ 31" "length (place file line) < 2 ^ 31"
  shows "\<exists>s'. vLoggingPrintf level file line ticks task (Some msg) s = Some s' \<and>
    length (pcPrintBuff s') = 2048 \<and> started s' = started s \<and> suspended s' = suspended s \<and>
    (if started s
     then lines s' = lines s @ [log_line level file line ticks task msg] \<and> early_lines s' = early_lines s
     else lines s' = lines s \<and> early_lines s' = early_lines s @ [log_line level file line ticks ''None'' msg]) \<and>
    length (log_line level file line ticks task msg) \<le> 2048"
proof -
  let ?task = "if started s then task else ''None''"
  obtain b1 p2 p3 k buf' where parts: "put_header level ticks ?task (pcPrintBuff s) = Some (28, b1)"
    "put_message (Some msg) (28, b1) = Some p2" "trim_loop (fst p2) (snd p2) = Some p3"
    "put_trailer file line p3 = Some (k, buf')"
    and buf: "length buf' = 2048" "k \<le> 2048" "take k buf' = log_line level file line ticks ?task msg"
    using assms by (rule log_parts)
  have len: "length (log_line level file line ticks task msg) \<le> 2048" by (auto simp: log_line_def Let_def min_def)
  show ?thesis
  proof (cases "started s")
    case True
    then show ?thesis
      using parts buf len
      by (simp add: vLoggingPrintf_def Let_def xTaskGetSchedulerState_def vSendLogMessage_ok)
  next
    case False
    then show ?thesis
      using parts buf len
      by (simp add: vLoggingPrintf_def Let_def xTaskGetSchedulerState_def vSendLogMessage_ok)
  qed
qed

theorem log_line_written_witness:
  "\<exists>s'. vLoggingPrintf ''INF'' (Some ''main.c'') 7 1234 ''CLI'' (Some ''ready'') 
       \<lparr>pcPrintBuff = replicate 2048 NUL, started = True, suspended = 0, early_lines = [], lines = []\<rparr> = Some s' \<and>
     suspended s' = 0 \<and> lines s' = [log_line ''INF'' (Some ''main.c'') 7 1234 ''CLI'' ''ready'']"
  using log_line_written [of "\<lparr>pcPrintBuff = replicate 2048 NUL, started = True, suspended = 0, early_lines = [], lines = []\<rparr>"
      "''ready''" "Some ''main.c''" 7 "''INF''" 1234 "''CLI''"]
  by (auto simp: place_def log_trailer_def dec.simps c_str_def)

text \<open>An empty message fails the assertion on its length, with the scheduler suspended.\<close>

lemma log_empty_message_hangs:
  assumes "length (pcPrintBuff s) = 2048"
  shows "vLoggingPrintf level file line ticks task (Some []) s = None"
proof -
  let ?task = "if started s then task else ''None''"
  obtain b1 where h: "put_header level ticks ?task (pcPrintBuff s) = Some (28, b1)" "length b1 = 2048"
    using assms by (rule put_header_ok)
  have "put_message (Some []) (28, b1) = None"
    using h(2) by (simp add: put_message_def snprintf_at_def)
  with h(1) show ?thesis by (cases "started s") (simp_all add: vLoggingPrintf_def Let_def xTaskGetSchedulerState_def)
qed

end
