(* ===== verification/LfsCrc.thy ===== *)
theory LfsCrc
  imports Prelude
begin

text \<open>
  The CRC-32 of the littlefs port, \<open>lfs_crc\<close> of \<open>source/fs/lfs_port_prv.c\<close>, which works on
  half bytes with a table of sixteen words, against the textbook definition of the checksum that
  shifts one bit at a time.
\<close>

definition rtable :: "u32 list" where
  "rtable =
    [0x00000000, 0x1db71064, 0x3b6e20c8, 0x26d930ac,
     0x76dc4190, 0x6b6b51f4, 0x4db26158, 0x5005713c,
     0xedb88320, 0xf00f9344, 0xd6d6a3e8, 0xcb61b38c,
     0x9b64c2b0, 0x86d3d2d4, 0xa00ae278, 0xbdbdf21c]"

text \<open>The two table lookups of one byte. The byte is promoted to \<open>int\<close>, so \<open>crc ^ data[i]\<close> is on
  32 bits.\<close>

definition lfs_crc_byte :: "u32 \<Rightarrow> byte \<Rightarrow> u32" where
  "lfs_crc_byte crc d =
     (let c1 = drop_bit 4 crc XOR rtable ! unat ((crc XOR ucast d) AND 0xf)
      in drop_bit 4 c1 XOR rtable ! unat ((c1 XOR ucast (drop_bit 4 d)) AND 0xf))"

fun lfs_crc :: "u32 \<Rightarrow> byte list \<Rightarrow> u32" where
  "lfs_crc crc [] = crc"
| "lfs_crc crc (d # ds) = lfs_crc (lfs_crc_byte crc d) ds"

subsection \<open>The reference: division by the polynomial one bit at a time\<close>

text \<open>The reflected CRC-32 with polynomial \<open>0x04c11db7\<close>; \<open>0xedb88320\<close> is that polynomial with its bits
  reversed.\<close>

definition crc_bit :: "u32 \<Rightarrow> u32" where
  "crc_bit c = drop_bit 1 c XOR (if bit c 0 then 0xedb88320 else 0)"

definition crc32_ref :: "u32 \<Rightarrow> byte list \<Rightarrow> u32" where
  "crc32_ref c ds = foldl (\<lambda>c d. (crc_bit ^^ 8) (c XOR ucast d)) c ds"

lemma crc_bit_xor: "crc_bit (a XOR b) = crc_bit a XOR crc_bit b"
  by (rule bit_word_eqI) (auto simp: crc_bit_def bit_xor_iff bit_drop_bit_eq)

lemma crc_bits_xor: "(crc_bit ^^ n) (a XOR b) = (crc_bit ^^ n) a XOR (crc_bit ^^ n) b"
  by (induction n) (simp_all add: crc_bit_xor)

text \<open>A word whose low bits are clear is only shifted.\<close>

lemma crc_bits_push:
  assumes "\<And>i. bit x i \<Longrightarrow> i + n < 32"
  shows "(crc_bit ^^ n) (push_bit n x) = x"
  using assms
proof (induction n)
  case (Suc n)
  have "crc_bit (push_bit (Suc n) x) = push_bit n x"
  proof (rule bit_word_eqI)
    fix i assume "i < LENGTH(32)"
    then show "bit (crc_bit (push_bit (Suc n) x)) i = bit (push_bit n x) i"
      using Suc.prems [of "i - n"]
      by (auto simp: crc_bit_def bit_xor_iff bit_drop_bit_eq bit_push_bit_iff simp del: push_bit_Suc)
  qed
  moreover have "(crc_bit ^^ n) (push_bit n x) = x"
    by (rule Suc.IH) (use Suc.prems in force)
  ultimately show ?case by (simp add: funpow_Suc_right del: funpow.simps push_bit_Suc)
qed simp

lemma low_high:
  fixes x :: u32
  shows "x = (x AND mask n) XOR push_bit n (drop_bit n x)"
  by (rule bit_word_eqI) (auto simp: bit_xor_iff bit_and_iff bit_mask_iff bit_push_bit_iff bit_drop_bit_eq)

lemma funpow_4: "(f ^^ 4) x = f (f (f (f x)))"
  by (simp add: numeral_eq_Suc)

lemma funpow_8: "(f ^^ 8) x = (f ^^ 4) ((f ^^ 4) x)"
  by (simp add: numeral_eq_Suc)

text \<open>The table holds the four bit steps of every half byte.\<close>

lemma rtable_nibble:
  assumes "n < 16"
  shows "rtable ! n = (crc_bit ^^ 4) (of_nat n)"
proof -
  have "n \<in> {0, 1, 2, 3, 4, 5, 6, 7} \<or> n \<in> {8, 9, 10, 11, 12, 13, 14, 15}"
    using assms by (cases "n < 8") auto
  then show ?thesis
    by (elim insertE disjE)
      (simp_all add: rtable_def crc_bit_def funpow_4)
qed

lemma nibble_step:
  "drop_bit 4 c XOR rtable ! unat ((c XOR d) AND 0xf) = (crc_bit ^^ 4) (c XOR (d AND 0xf))"
proof -
  have m: "(0xf :: u32) = mask 4" by (simp add: mask_eq_exp_minus_1)
  let ?n = "(c XOR d) AND 0xf"
  have "unat ?n < 16"
    unfolding m take_bit_eq_mask [symmetric]
    by (simp only: unsigned_take_bit_eq take_bit_nat_eq_self_iff take_bit_nat_less_exp
        flip: power_numeral) (simp add: take_bit_nat_def)
  then have t: "rtable ! unat ?n = (crc_bit ^^ 4) ?n"
    using rtable_nibble [of "unat ?n"] by simp
  have "(crc_bit ^^ 4) (push_bit 4 (drop_bit 4 c)) = drop_bit 4 c"
    by (rule crc_bits_push) (auto simp: bit_drop_bit_eq dest!: bit_imp_le_length)
  moreover have "c XOR (d AND 0xf) = ?n XOR push_bit 4 (drop_bit 4 c)"
    unfolding m by (rule bit_word_eqI)
      (auto simp: bit_xor_iff bit_and_iff bit_mask_iff bit_push_bit_iff bit_drop_bit_eq)
  ultimately show ?thesis
    using t by (simp add: crc_bits_xor xor.commute)
qed

lemma lfs_crc_byte_bits: "lfs_crc_byte c d = (crc_bit ^^ 8) (c XOR ucast d)"
proof -
  let ?lo = "ucast d AND 0xf :: u32" and ?hi = "ucast (drop_bit 4 d) :: u32"
  have m: "(0xf :: u32) = mask 4" by (simp add: mask_eq_exp_minus_1)
  have hi: "?hi AND 0xf = ?hi"
    unfolding m by (rule bit_word_eqI)
      (auto simp: bit_and_iff bit_mask_iff bit_ucast_iff bit_drop_bit_eq dest: bit_imp_le_length)
  have "lfs_crc_byte c d = (crc_bit ^^ 4) ((crc_bit ^^ 4) (c XOR ?lo) XOR ?hi)"
    by (simp add: lfs_crc_byte_def Let_def nibble_step hi)
  also have "?hi = (crc_bit ^^ 4) (push_bit 4 ?hi)"
    by (rule crc_bits_push [symmetric])
      (auto simp: bit_ucast_iff bit_drop_bit_eq dest!: bit_imp_le_length)
  also have "(crc_bit ^^ 4) (c XOR ?lo) XOR (crc_bit ^^ 4) (push_bit 4 ?hi) =
      (crc_bit ^^ 4) ((c XOR ?lo) XOR push_bit 4 ?hi)"
    by (simp add: crc_bits_xor)
  also have "(c XOR ?lo) XOR push_bit 4 ?hi = c XOR ucast d"
    unfolding m by (rule bit_word_eqI)
      (auto simp: bit_xor_iff bit_and_iff bit_mask_iff bit_push_bit_iff bit_ucast_iff bit_drop_bit_eq)
  finally show ?thesis by (simp add: funpow_8)
qed

lemma lfs_crc_append: "lfs_crc c (xs @ ys) = lfs_crc (lfs_crc c xs) ys"
  by (induction xs arbitrary: c) simp_all

subsection \<open>What the checksum detects\<close>

lemma xor_left_cancel [simp]: "c XOR a = c XOR b \<longleftrightarrow> a = (b :: u32)"
  by (auto simp: bit_eq_iff bit_xor_iff)

lemma xor_right_cancel [simp]: "a XOR c = b XOR c \<longleftrightarrow> a = (b :: u32)"
  by (auto simp: bit_eq_iff bit_xor_iff)

lemma xor_zero: "a XOR b = 0 \<longleftrightarrow> a = (b :: u32)"
  by (auto simp: bit_eq_iff bit_xor_iff)

lemma crc_bit_zero: "crc_bit x = 0 \<Longrightarrow> x = 0"
proof -
  assume z: "crc_bit x = 0"
  then have "\<not> bit (crc_bit x) 31" by simp
  then have b0: "\<not> bit x 0"
    by (auto simp: crc_bit_def bit_xor_iff bit_drop_bit_eq dest: bit_imp_le_length split: if_splits)
  with z have d: "drop_bit 1 x = 0" by (simp add: crc_bit_def)
  show "x = 0"
  proof (rule bit_word_eqI)
    fix i
    show "bit x i = bit 0 i"
      using b0 arg_cong [OF d, of "\<lambda>w. bit w (i - 1)"] by (cases i) (simp_all add: bit_drop_bit_eq)
  qed
qed

lemma crc_bits_inj: "(crc_bit ^^ n) a = (crc_bit ^^ n) b \<longleftrightarrow> a = b"
proof -
  have zero: "(crc_bit ^^ n) x = 0 \<Longrightarrow> x = 0" for x
    by (induction n) (auto dest: crc_bit_zero)
  have "a = b" if "(crc_bit ^^ n) a = (crc_bit ^^ n) b"
  proof -
    from that have "(crc_bit ^^ n) (a XOR b) = 0" by (simp add: crc_bits_xor)
    then have "a XOR b = 0" by (rule zero)
    then show ?thesis by (simp add: xor_zero)
  qed
  then show ?thesis by auto
qed

lemma lfs_crc_inj: "lfs_crc a ds = lfs_crc b ds \<longleftrightarrow> a = b"
  by (induction ds arbitrary: a b) (simp_all add: lfs_crc_byte_bits crc_bits_inj)

lemma le_word_bound: "bit (le_word bs) i \<Longrightarrow> i < 8 * length bs"
proof (induction bs arbitrary: i)
  case (Cons b bs)
  then show ?case
    by (auto simp: bit_or_iff bit_push_bit_iff bit_ucast_iff dest: bit_imp_le_length
        Cons.IH [of "i - 8"])
qed simp

text \<open>Up to four bytes enter the register together, as one little endian word.\<close>

lemma lfs_crc_window:
  assumes "length ds \<le> 4"
  shows "lfs_crc c ds = (crc_bit ^^ (8 * length ds)) (c XOR le_word ds)"
  using assms
proof (induction ds arbitrary: c)
  case (Cons d ds)
  let ?w = "le_word ds"
  have "(crc_bit ^^ 8) (push_bit 8 ?w) = ?w"
    by (rule crc_bits_push) (use Cons.prems in \<open>auto dest: le_word_bound\<close>)
  then have "(crc_bit ^^ 8) (c XOR ucast d) XOR ?w = (crc_bit ^^ 8) (c XOR ucast d XOR push_bit 8 ?w)"
    by (simp add: crc_bits_xor xor.assoc)
  also have "ucast d XOR push_bit 8 ?w = le_word (d # ds)"
    by (rule bit_word_eqI)
      (auto simp: bit_xor_iff bit_or_iff bit_push_bit_iff bit_ucast_iff dest: bit_imp_le_length)
  finally have "lfs_crc c (d # ds) = (crc_bit ^^ (8 * length ds)) ((crc_bit ^^ 8) (c XOR le_word (d # ds)))"
    using Cons by (simp add: lfs_crc_byte_bits)
  also have "\<dots> = (crc_bit ^^ (8 * length ds + 8)) (c XOR le_word (d # ds))"
    by (simp only: funpow_add comp_apply)
  finally show ?case by (simp add: add.commute)
qed simp

lemma le_word_zeros [simp]: "le_word (replicate k 0) = 0"
  by (induction k) simp_all

lemma le_word_pad [simp]: "le_word (bs @ replicate k 0) = le_word bs"
  by (induction bs) simp_all

lemma le_word_inj:
  assumes "length as = length bs" "length bs \<le> 4" "le_word as = le_word bs"
  shows "as = bs"
proof -
  let ?p = "replicate (4 - length bs) (0 :: byte)"
  have "le_bytes (le_word (as @ ?p)) = le_bytes (le_word (bs @ ?p))" using assms(3) by simp
  then have "as @ ?p = bs @ ?p" using assms by (subst (asm) (1 2) le_bytes_le_word) simp_all
  then show ?thesis by simp
qed

subsection \<open>Properties\<close>

text \<open>
  C22. The table driven checksum of the littlefs port is CRC-32: on every buffer and every start value,
  \<open>lfs_crc\<close> returns what dividing by the polynomial bit after bit returns.
\<close>

theorem lfs_crc_table_correct: "lfs_crc c ds = crc32_ref c ds"
  by (induction ds arbitrary: c) (simp_all add: crc32_ref_def lfs_crc_byte_bits)

text \<open>
  The checksum detects every error that is confined to four adjacent bytes: two buffers that
  differ only in a window of at most four bytes have the same checksum only when they are equal.
\<close>

lemma lfs_crc_detects_burst:
  assumes "length old = length new" "length new \<le> 4"
  shows "lfs_crc c (xs @ old @ ys) = lfs_crc c (xs @ new @ ys) \<longleftrightarrow> old = new"
proof -
  let ?c = "lfs_crc c xs"
  have "lfs_crc ?c old = lfs_crc ?c new \<longleftrightarrow> ?c XOR le_word old = ?c XOR le_word new"
    using assms by (simp add: lfs_crc_window crc_bits_inj)
  also have "\<dots> \<longleftrightarrow> le_word old = le_word new" by simp
  also have "\<dots> \<longleftrightarrow> old = new" using assms le_word_inj by auto
  finally show ?thesis by (simp add: lfs_crc_append lfs_crc_inj)
qed


end
