(* ===== verification/LfsUtil.thy ===== *)
theory LfsUtil
  imports Prelude
begin

text \<open>
  The inline helpers of \<open>source/fs/lfs_config.h\<close> that littlefs calls: minimum and maximum, alignment,
  the binary logarithm, trailing zeros, the number of set bits, sequence comparison and byte order.
  The branches modelled are the portable ones, which a compiler without the GNU builtins
  (CC-RX among them) takes.
\<close>

definition lfs_max :: "u32 \<Rightarrow> u32 \<Rightarrow> u32" where
  "lfs_max a b = (if a > b then a else b)"

definition lfs_min :: "u32 \<Rightarrow> u32 \<Rightarrow> u32" where
  "lfs_min a b = (if a < b then a else b)"

text \<open>The remainder by zero has no value.\<close>

definition lfs_aligndown :: "u32 \<Rightarrow> u32 \<Rightarrow> u32 option" where
  "lfs_aligndown a alignment = (if alignment = 0 then None else Some (a - a mod alignment))"

definition lfs_alignup :: "u32 \<Rightarrow> u32 \<Rightarrow> u32 option" where
  "lfs_alignup a alignment = lfs_aligndown (a + alignment - 1) alignment"

text \<open>\<open>s = ( a > limit ) << k; a >>= s; r |= s;\<close>\<close>

definition npw2_stage :: "u32 \<Rightarrow> nat \<Rightarrow> u32 \<times> u32 \<Rightarrow> u32 \<times> u32" where
  "npw2_stage limit k = (\<lambda>(a, r).
     let s = push_bit k (if a > limit then 1 else 0 :: u32)
     in (drop_bit (unat s) a, r OR s))"

definition lfs_npw2 :: "u32 \<Rightarrow> u32" where
  "lfs_npw2 a =
     (let (a, r) = npw2_stage 0x3 1 (npw2_stage 0xf 2 (npw2_stage 0xff 3 (npw2_stage 0xffff 4 (a - 1, 0))))
      in (r OR drop_bit 1 a) + 1)"

definition lfs_ctz :: "u32 \<Rightarrow> u32" where
  "lfs_ctz a = lfs_npw2 ((a AND - a) + 1) - 1"

definition lfs_popc :: "u32 \<Rightarrow> u32" where
  "lfs_popc a =
     (let a = a - (drop_bit 1 a AND 0x55555555);
          a = (a AND 0x33333333) + (drop_bit 2 a AND 0x33333333)
      in drop_bit 24 (((a + drop_bit 4 a) AND 0xf0f0f0f) * 0x1010101))"

definition lfs_scmp :: "u32 \<Rightarrow> u32 \<Rightarrow> int" where
  "lfs_scmp a b = sint (a - b)"

text \<open>The bytes of the object in memory are \<open>le_bytes a\<close>.\<close>

definition lfs_fromle32 :: "u32 \<Rightarrow> u32" where
  "lfs_fromle32 a =
     (let b = le_bytes a
      in ucast (b ! 0) OR push_bit 8 (ucast (b ! 1)) OR push_bit 16 (ucast (b ! 2)) OR push_bit 24 (ucast (b ! 3)))"

definition lfs_tole32 :: "u32 \<Rightarrow> u32" where
  "lfs_tole32 a = lfs_fromle32 a"

definition lfs_frombe32 :: "u32 \<Rightarrow> u32" where
  "lfs_frombe32 a =
     (let b = le_bytes a
      in push_bit 24 (ucast (b ! 0)) OR push_bit 16 (ucast (b ! 1)) OR push_bit 8 (ucast (b ! 2)) OR ucast (b ! 3))"

definition lfs_tobe32 :: "u32 \<Rightarrow> u32" where
  "lfs_tobe32 a = lfs_frombe32 a"

subsection \<open>Byte order\<close>

lemma lfs_fromle32_id [simp]: "lfs_fromle32 a = a"
proof -
  have "lfs_fromle32 a = le_word (le_bytes a)"
    by (rule bit_word_eqI) (auto simp: lfs_fromle32_def le_bytes_def Let_def bit_or_iff bit_push_bit_iff)
  then show ?thesis by simp
qed

lemma lfs_frombe32_bytes: "le_bytes (lfs_frombe32 a) = rev (le_bytes a)"
proof -
  have "lfs_frombe32 a = le_word (rev (le_bytes a))"
    by (rule bit_word_eqI)
      (auto simp: lfs_frombe32_def le_bytes_def Let_def bit_or_iff bit_push_bit_iff)
  then show ?thesis by simp
qed

lemma lfs_be32_roundtrip: "lfs_frombe32 (lfs_tobe32 a) = a"
proof -
  have "le_bytes (lfs_frombe32 (lfs_tobe32 a)) = le_bytes a"
    by (simp add: lfs_tobe32_def lfs_frombe32_bytes)
  then show ?thesis by (metis le_word_le_bytes)
qed

subsection \<open>Alignment and sequence numbers\<close>

lemma lfs_aligndown_value:
  assumes "lfs_aligndown a n = Some r"
  shows "unat r = unat a - unat a mod unat n"
  using assms
  by (auto simp: lfs_aligndown_def unat_sub word_le_nat_alt unat_mod split: if_splits)

lemma lfs_alignup_least:
  assumes "n \<noteq> 0" "unat a + unat n \<le> 2 ^ 32"
  obtains r where "lfs_alignup a n = Some r" "unat n dvd unat r" "unat a \<le> unat r"
    "unat r < unat a + unat n"
proof -
  have n: "0 < unat n" using assms(1) by (simp add: unat_gt_0)
  let ?s = "unat a + unat n - 1"
  have s: "unat (a + n - 1) = ?s"
  proof -
    have "a + n - 1 = of_nat ?s" using n by (simp add: of_nat_diff)
    moreover have "?s < 2 ^ 32" using assms(2) n by simp
    ultimately show ?thesis by (simp add: unat_of_nat)
  qed
  define r where "r = (a + n - 1) - (a + n - 1) mod n"
  have r: "lfs_alignup a n = Some r"
    using assms(1) by (simp add: lfs_alignup_def lfs_aligndown_def r_def)
  have v: "unat r = ?s - ?s mod unat n"
    using lfs_aligndown_value [of "a + n - 1" n r] r by (simp add: lfs_alignup_def s)
  have "?s mod unat n < unat n" using n by simp
  then have "unat a \<le> unat r" "unat r < unat a + unat n" using v n by linarith+
  moreover have "unat n dvd unat r" unfolding v by (rule dvd_minus_mod)
  ultimately show ?thesis using r that by blast
qed

lemma lfs_scmp_distance:
  assumes "- (2 ^ 31) \<le> d" "d < 2 ^ 31"
  shows "lfs_scmp (b + of_int d) b = d"
  using assms by (simp add: lfs_scmp_def sint_sbintrunc' signed_take_bit_int_eq_self)


subsection \<open>The binary logarithm\<close>

text \<open>The argument \<open>x\<close> has been shifted right by \<open>r\<close>, a multiple of \<open>2^k\<close>; what is left fits in \<open>2^k\<close> bits,
  and is not zero once something was shifted out.\<close>

definition npw2_inv :: "nat \<Rightarrow> nat \<Rightarrow> u32 \<times> u32 \<Rightarrow> bool" where
  "npw2_inv x k = (\<lambda>(a, r). unat a = x div 2 ^ unat r \<and> unat a < 2 ^ (2 ^ k) \<and> 2 ^ k dvd unat r \<and>
     unat r + 2 ^ k \<le> 32 \<and> (unat r = 0 \<or> 0 < unat a))"

lemma unat_exp: "k < 32 \<Longrightarrow> unat (2 ^ k :: u32) = 2 ^ k"
proof -
  assume "k < 32"
  then have "(2 :: nat) ^ k < 2 ^ 32" by (intro power_strict_increasing) simp_all
  then have "unat (of_nat (2 ^ k) :: u32) = 2 ^ k" by (simp only: unat_of_nat) simp
  then show ?thesis by simp
qed

lemma or_disjoint_add:
  fixes r :: u32
  assumes "2 ^ Suc k dvd unat r" "unat r + 2 ^ k < 2 ^ 32" "k < 32"
  shows "unat (r OR 2 ^ k) = unat r + 2 ^ k"
proof -
  obtain q where q: "unat r = 2 ^ Suc k * q" using assms(1) by (rule dvdE)
  have "\<not> bit (unat r) k" unfolding q by (simp add: bit_iff_odd)
  then have "\<not> bit r k" by (simp add: bit_unsigned_iff)
  then have "r OR 2 ^ k = r + 2 ^ k"
    by (subst disjunctive_add) (auto simp: bit_exp_iff)
  then show ?thesis using assms by (simp add: unat_word_ariths unat_exp)
qed

lemma unat_drop_bit: "unat (drop_bit n (w :: u32)) = unat w div 2 ^ n"
  by (subst unsigned_drop_bit_eq) (simp add: drop_bit_eq_div take_bit_nat_eq_self)

lemma npw2_stage_inv:
  assumes inv: "npw2_inv x j p" and j: "j = Suc k" and k: "k < 5" and limit: "unat limit = 2 ^ (2 ^ k) - 1"
  shows "npw2_inv x k (npw2_stage limit k p)"
proof -
  obtain a r where p: "p = (a, r)" by (cases p)
  have a: "unat a = x div 2 ^ unat r" "unat a < 2 ^ (2 ^ Suc k)" "2 ^ Suc k dvd unat r"
    "unat r + 2 ^ Suc k \<le> 32" "unat r = 0 \<or> 0 < unat a"
    using inv by (auto simp: p npw2_inv_def j)
  have dvd: "2 ^ k dvd unat r" using a(3) by (rule dvd_trans [rotated]) simp
  have gt: "a > limit \<longleftrightarrow> 2 ^ (2 ^ k) \<le> unat a"
    using limit by (simp add: word_less_nat_alt Suc_le_eq [symmetric])
  show ?thesis
  proof (cases "2 ^ (2 ^ k) \<le> unat a")
    case True
    have st: "npw2_stage limit k p = (drop_bit (2 ^ k) a, r OR 2 ^ k)"
      using True gt k by (simp add: npw2_stage_def p push_bit_eq_mult unat_exp)
    have r': "unat (r OR 2 ^ k) = unat r + 2 ^ k"
      using a(3,4) k by (intro or_disjoint_add) simp_all
    have a': "unat (drop_bit (2 ^ k) a) = unat a div 2 ^ (2 ^ k)"
      by (simp only: unat_drop_bit)
    have "unat a div 2 ^ (2 ^ k) < 2 ^ (2 ^ k)"
      using a(2) by (simp add: less_mult_imp_div_less mult_2 power_add)
    moreover have "0 < unat a div 2 ^ (2 ^ k)" using True by (simp add: div_greater_zero_iff)
    ultimately show ?thesis
      using a(1,4) dvd by (simp add: npw2_inv_def st r' a' div_mult2_eq power_add)
  next
    case False
    then have "npw2_stage limit k p = (a, r)"
      using gt by (simp add: npw2_stage_def p)
    then show ?thesis using False a dvd by (simp add: npw2_inv_def)
  qed
qed

lemma npw2_stages:
  obtains a r where "npw2_stage 0x3 1 (npw2_stage 0xf 2 (npw2_stage 0xff 3 (npw2_stage 0xffff 4 (w, 0)))) = (a, r)"
    "npw2_inv (unat w) 1 (a, r)"
proof -
  have "npw2_inv (unat w) 5 (w, 0)" by (simp add: npw2_inv_def)
  then have "npw2_inv (unat w) 4 (npw2_stage 0xffff 4 (w, 0))" by (rule npw2_stage_inv) simp_all
  then have "npw2_inv (unat w) 3 (npw2_stage 0xff 3 (npw2_stage 0xffff 4 (w, 0)))"
    by (rule npw2_stage_inv) simp_all
  then have "npw2_inv (unat w) 2 (npw2_stage 0xf 2 (npw2_stage 0xff 3 (npw2_stage 0xffff 4 (w, 0))))"
    by (rule npw2_stage_inv) simp_all
  then have "npw2_inv (unat w) 1 (npw2_stage 0x3 1 (npw2_stage 0xf 2 (npw2_stage 0xff 3 (npw2_stage 0xffff 4 (w, 0)))))"
    by (rule npw2_stage_inv) simp_all
  then show ?thesis using that by (metis surj_pair)
qed

lemma div_eq_bounds:
  fixes x d :: nat
  assumes "x div d = q" "0 < d"
  shows "d * q \<le> x" "x < d * Suc q"
  using assms by (auto simp: dividend_less_times_div)

lemma lfs_npw2_log:
  assumes "w \<noteq> 1"
  shows "2 ^ (unat (lfs_npw2 w) - 1) \<le> unat (w - 1) \<and> unat (w - 1) < 2 ^ unat (lfs_npw2 w) \<and>
    1 \<le> unat (lfs_npw2 w) \<and> unat (lfs_npw2 w) \<le> 32"
proof -
  let ?x = "unat (w - 1)"
  obtain a r where st: "npw2_stage 0x3 1 (npw2_stage 0xf 2 (npw2_stage 0xff 3 (npw2_stage 0xffff 4 (w - 1, 0)))) = (a, r)"
    and inv: "npw2_inv ?x 1 (a, r)" by (rule npw2_stages)
  have i: "unat a = ?x div 2 ^ unat r" "unat a < 4" "2 dvd unat r" "unat r + 2 \<le> 32" "unat r = 0 \<or> 0 < unat a"
    using inv by (auto simp: npw2_inv_def)
  have "w - 1 \<noteq> 0" using assms by simp
  then have "0 < ?x" by (simp add: unat_gt_0)
  then have pos: "0 < unat a" using i(1,5) by auto
  have h: "unat (drop_bit 1 a) = unat a div 2" by (simp add: unat_drop_bit)
  consider "unat a = 1" "drop_bit 1 a = 0" | "unat a = 2 \<or> unat a = 3" "drop_bit 1 a = 1"
  proof -
    have "unat a = 1 \<or> unat a = 2 \<or> unat a = 3" using i(2) pos by arith
    moreover have "drop_bit 1 a = of_nat (unat a div 2)" unfolding h [symmetric] by simp
    ultimately show thesis using that by auto
  qed
  then show ?thesis
  proof cases
    case 1
    have n: "unat (lfs_npw2 w) = unat r + 1"
      using 1 i(4) by (simp add: lfs_npw2_def st unat_word_ariths del: One_nat_def)
    show ?thesis
      using div_eq_bounds [OF i(1) [symmetric]] 1(1) i(4) by (simp add: n)
  next
    case 2
    have "unat (r OR 2 ^ 0) = unat r + 2 ^ 0"
      using i by (intro or_disjoint_add) simp_all
    then have n: "unat (lfs_npw2 w) = unat r + 2"
      using 2 i(4) by (simp add: lfs_npw2_def st unat_word_ariths del: One_nat_def)
    show ?thesis
      using div_eq_bounds [OF i(1) [symmetric]] 2(1) i(4) by (auto simp: n)
  qed
qed

subsection \<open>Trailing zeros\<close>

lemma lowest_bit:
  fixes a :: u32
  assumes "bit a k" "\<And>i. i < k \<Longrightarrow> \<not> bit a i"
  shows "a AND - a = 2 ^ k"
proof -
  have k: "k < 32" using bit_imp_le_length [OF assms(1)] by simp
  define b where "b = drop_bit (Suc k) a"
  have a: "a = push_bit (Suc k) b OR 2 ^ k"
  proof (rule bit_word_eqI)
    fix n assume "n < LENGTH(32)"
    then show "bit a n = bit (push_bit (Suc k) b OR 2 ^ k) n"
      using assms k by (cases n k rule: linorder_cases)
        (auto simp: b_def bit_or_iff bit_push_bit_iff bit_drop_bit_eq bit_exp_iff simp del: push_bit_Suc)
  qed
  also have "\<dots> = push_bit (Suc k) b + 2 ^ k"
    by (rule disjunctive_add [symmetric]) (auto simp: bit_push_bit_iff bit_exp_iff simp del: push_bit_Suc)
  finally have "a - 1 = push_bit (Suc k) b + mask k" by (simp add: mask_eq_exp_minus_1)
  also have "\<dots> = push_bit (Suc k) b OR mask k"
    by (rule disjunctive_add) (auto simp: bit_push_bit_iff bit_mask_iff simp del: push_bit_Suc)
  finally have m: "a - 1 = push_bit (Suc k) b OR mask k" .
  show ?thesis
  proof (rule bit_word_eqI)
    fix n assume n: "n < LENGTH(32)"
    have "bit (a - 1) n \<longleftrightarrow> n < k \<or> (k < n \<and> bit a n)"
      unfolding m using n
      by (auto simp: b_def bit_or_iff bit_mask_iff bit_push_bit_iff bit_drop_bit_eq simp del: push_bit_Suc)
    then show "bit (a AND - a) n = bit (2 ^ k :: u32) n"
      using assms n by (auto simp: bit_and_iff bit_minus_iff bit_exp_iff not_less intro: le_neq_implies_less)
  qed
qed

lemma lfs_ctz_lowest:
  assumes "bit a k" "\<And>i. i < k \<Longrightarrow> \<not> bit a i"
  shows "unat (lfs_ctz a) = k"
proof -
  have k: "k < 32" using bit_imp_le_length [OF assms(1)] by simp
  define w where "w = (2 :: u32) ^ k + 1"
  have x: "unat (w - 1) = 2 ^ k" using k by (simp add: w_def unat_exp)
  then have "w \<noteq> 1" by (metis diff_self unat_0 power_not_zero zero_neq_numeral)
  then have n: "2 ^ (unat (lfs_npw2 w) - 1) \<le> (2 :: nat) ^ k" "(2 :: nat) ^ k < 2 ^ unat (lfs_npw2 w)"
    "1 \<le> unat (lfs_npw2 w)" "unat (lfs_npw2 w) \<le> 32"
    using lfs_npw2_log [of w] unfolding x by auto
  then have "unat (lfs_npw2 w) - 1 \<le> k" "k < unat (lfs_npw2 w)" by simp_all
  then have "unat (lfs_npw2 w) = k + 1" by arith
  moreover have "lfs_ctz a = lfs_npw2 w - 1" by (simp add: lfs_ctz_def lowest_bit [OF assms] w_def)
  ultimately show ?thesis by (simp add: unat_sub word_le_nat_alt)
qed

subsection \<open>The number of set bits\<close>

text \<open>The same three steps on one byte.\<close>

definition pairs8 :: "byte \<Rightarrow> byte" where
  "pairs8 b = b - (drop_bit 1 b AND 0x55)"

definition quads8 :: "byte \<Rightarrow> byte" where
  "quads8 b = (b AND 0x33) + (drop_bit 2 b AND 0x33)"

definition popc8 :: "byte \<Rightarrow> nat" where
  "popc8 b = length (filter (bit b) [0..<8])"

lemma byte_cases:
  fixes b :: byte
  obtains b0 b1 b2 b3 b4 b5 b6 b7 where "b = horner_sum of_bool 2 [b0, b1, b2, b3, b4, b5, b6, b7]"
proof -
  have "b = horner_sum of_bool 2 (map (bit b) [0..<8])"
    by (rule bit_word_eqI) (simp add: bit_horner_sum_bit_word_iff)
  moreover have "[0..<8] = [0, 1, 2, 3, 4, 5, 6, 7]" by (simp add: upt_rec)
  ultimately have "b = horner_sum of_bool 2
      [bit b 0, bit b 1, bit b 2, bit b 3, bit b 4, bit b 5, bit b 6, bit b 7]" by (simp only: list.map)
  then show ?thesis by (rule that)
qed

lemma popc8_steps:
  "drop_bit 1 b AND 0x55 \<le> b \<and>
   unat (pairs8 b AND 0x33) + unat (drop_bit 2 (pairs8 b) AND 0x33) < 256 \<and>
   (let q = quads8 (pairs8 b)
    in unat q \<le> 68 \<and> unat (drop_bit 4 q) \<le> 4 \<and> unat (push_bit 4 q) \<le> 64 \<and>
       unat ((q + drop_bit 4 q) AND 0xf) = popc8 b) \<and>
   popc8 b \<le> 8"
proof -
  obtain b0 b1 b2 b3 b4 b5 b6 b7 where b: "b = horner_sum of_bool 2 [b0, b1, b2, b3, b4, b5, b6, b7]"
    by (rule byte_cases)
  show ?thesis
    unfolding b
    by (cases b0; cases b1; cases b2; cases b3; cases b4; cases b5; cases b6; cases b7)
      (simp_all add: pairs8_def quads8_def popc8_def upt_rec)
qed

lemma bit_le_word:
  "bit (le_word bs) i \<longleftrightarrow> i < 32 \<and> i < 8 * length bs \<and> bit (bs ! (i div 8)) (i mod 8)"
proof (induction bs arbitrary: i)
  case (Cons b bs)
  show ?case
  proof (cases "i < 8")
    case True
    then show ?thesis by (simp add: bit_or_iff bit_push_bit_iff bit_ucast_iff)
  next
    case False
    then obtain j where "i = 8 + j" by (metis le_add_diff_inverse not_less)
    moreover have "\<not> bit b (8 + j)" by (auto dest: bit_imp_le_length)
    moreover have "(8 + j) div 8 = Suc (j div 8)" by simp
    ultimately show ?thesis by (auto simp: bit_or_iff bit_push_bit_iff bit_ucast_iff Cons)
  qed
qed simp

lemma le_word_Cons: "le_word (b # bs) = ucast b + 256 * le_word bs"
proof -
  have "ucast b OR push_bit 8 (le_word bs) = ucast b + push_bit 8 (le_word bs)"
    by (rule disjunctive_add [symmetric])
      (auto simp: bit_push_bit_iff bit_ucast_iff dest: bit_imp_le_length)
  then show ?thesis by (simp add: push_bit_eq_mult mult.commute)
qed

lemma le_word_masked:
  assumes "length bs = n" "\<And>i. bit m i \<Longrightarrow> i + k < 8"
  shows "drop_bit k (le_word bs) AND le_word (replicate n m) = le_word (map (\<lambda>b. drop_bit k b AND m) bs)"
proof (rule bit_word_eqI)
  fix i assume i: "i < LENGTH(32)"
  have d: "(k + i) div 8 = i div 8 \<and> (k + i) mod 8 = k + i mod 8" if "bit m (i mod 8)"
  proof -
    define q r where "q = i div 8" and "r = i mod 8"
    have "r + k < 8" using assms(2) [OF that] by (simp add: r_def)
    moreover have "k + i = (k + r) + 8 * q" by (simp add: q_def r_def)
    moreover have "(k + r + 8 * q) div 8 = q" "(k + r + 8 * q) mod 8 = k + r"
      using \<open>r + k < 8\<close> by simp_all
    ultimately show ?thesis by (simp only: q_def r_def)
  qed
  have lt: "x < 8 * l \<longleftrightarrow> x div 8 < l" for x l :: nat by (simp add: div_less_iff_less_mult mult.commute)
  have k: "k + i < 32" "k + i < 8 * n \<longleftrightarrow> i < 8 * n" if "bit m (i mod 8)"
    using d [OF that] lt [of "k + i" 4] lt [of i 4] lt [of "k + i" n] lt [of i n] i by simp_all
  show "bit (drop_bit k (le_word bs) AND le_word (replicate n m)) i =
      bit (le_word (map (\<lambda>b. drop_bit k b AND m) bs)) i"
    using i assms(1) d k
    by (cases "bit m (i mod 8)") (auto simp: bit_and_iff bit_drop_bit_eq bit_le_word)
qed

lemma unat_ucast_byte: "unat (ucast (b :: byte) :: u32) = unat b"
proof -
  have "unat b < 2 ^ 8" using unsigned_less [of b, where ?'a = nat] by simp
  then show ?thesis by (simp add: unsigned_ucast_eq take_bit_nat_eq_self)
qed

lemma le_word_and:
  assumes "length bs = n"
  shows "le_word bs AND le_word (replicate n m) = le_word (map (\<lambda>b. b AND m) bs)"
proof -
  have "drop_bit 0 (le_word bs) AND le_word (replicate n m) = le_word (map (\<lambda>b. drop_bit 0 b AND m) bs)"
    using assms by (rule le_word_masked) (auto dest: bit_imp_le_length)
  then show ?thesis by (simp only: drop_bit_0 id_apply)
qed

lemma le_word_sub:
  assumes "length xs = length ys" "\<And>i. i < length xs \<Longrightarrow> ys ! i \<le> xs ! i"
  shows "le_word xs - le_word ys = le_word (map2 (-) xs ys)"
  using assms
proof (induction xs ys rule: list_induct2)
  case (Cons x xs y ys)
  have "y \<le> x" using Cons.prems [of 0] by simp
  then have e: "ucast (x - y) = (ucast x - ucast y :: u32)"
    by (intro word_unat_eq_iff [THEN iffD2]) (simp add: unat_sub word_le_nat_alt unat_ucast_byte)
  have f: "le_word (map2 (-) xs ys) = le_word xs - le_word ys"
    by (rule Cons.IH [symmetric]) (use Cons.prems [of "Suc i" for i] in simp)
  show ?case
    by (simp only: zip_Cons_Cons list.map prod.case le_word_Cons e f) (simp add: algebra_simps)
qed simp

lemma le_word_add:
  assumes "length xs = length ys" "\<And>i. i < length xs \<Longrightarrow> unat (xs ! i) + unat (ys ! i) < 256"
  shows "le_word xs + le_word ys = le_word (map2 (+) xs ys)"
  using assms
proof (induction xs ys rule: list_induct2)
  case (Cons x xs y ys)
  have "unat x + unat y < 256" using Cons.prems [of 0] by simp
  then have e: "ucast (x + y) = (ucast x + ucast y :: u32)"
    by (intro word_unat_eq_iff [THEN iffD2]) (simp add: unat_word_ariths unat_ucast_byte)
  have f: "le_word (map2 (+) xs ys) = le_word xs + le_word ys"
    by (rule Cons.IH [symmetric]) (use Cons.prems [of "Suc i" for i] in simp)
  show ?case
    by (simp only: zip_Cons_Cons list.map prod.case le_word_Cons e f) (simp add: algebra_simps)
qed simp

lemma le_word_nibble_shift:
  "drop_bit 4 (le_word [b0, b1, b2, b3]) =
     le_word [drop_bit 4 b0 OR push_bit 4 b1, drop_bit 4 b1 OR push_bit 4 b2,
       drop_bit 4 b2 OR push_bit 4 b3, drop_bit 4 b3]"
proof (rule bit_word_eqI)
  fix i assume "i < LENGTH(32)"
  then have "i < 4 \<or> (4 \<le> i \<and> i < 8) \<or> (8 \<le> i \<and> i < 12) \<or> (12 \<le> i \<and> i < 16) \<or> (16 \<le> i \<and> i < 20) \<or>
      (20 \<le> i \<and> i < 24) \<or> (24 \<le> i \<and> i < 28) \<or> (28 \<le> i \<and> i < 32)" by simp arith
  then show "bit (drop_bit 4 (le_word [b0, b1, b2, b3])) i =
      bit (le_word [drop_bit 4 b0 OR push_bit 4 b1, drop_bit 4 b1 OR push_bit 4 b2,
       drop_bit 4 b2 OR push_bit 4 b3, drop_bit 4 b3]) i"
    by (elim disjE conjE)
      (auto simp: bit_or_iff bit_push_bit_iff bit_drop_bit_eq bit_ucast_iff dest: bit_imp_le_length)
qed

lemma unat_low_nibble: "unat (take_bit 4 (w :: byte)) = unat w mod 16"
  by (subst unsigned_take_bit_eq) (simp add: take_bit_eq_mod)

lemma low_nibble_sum:
  fixes b c :: byte
  shows "(b + (drop_bit 4 b OR push_bit 4 c)) AND 0xf = (b + drop_bit 4 b) AND 0xf"
proof -
  have m: "(0xf :: byte) = mask 4" by (simp add: mask_eq_exp_minus_1)
  have cong: "take_bit 4 (b + x) = take_bit 4 (b + y)" if "take_bit 4 x = take_bit 4 y" for x y
  proof -
    have e: "unat x mod 16 = unat y mod 16" using that by (simp flip: unat_low_nibble)
    have "unat (b + z) mod 16 = (unat b + unat z mod 16) mod 16" for z
      by (simp add: unat_word_ariths mod_mod_cancel mod_add_right_eq)
    then have "unat (b + x) mod 16 = unat (b + y) mod 16" by (simp only: e)
    then show ?thesis by (simp only: word_unat_eq_iff unat_low_nibble)
  qed
  show ?thesis unfolding m take_bit_eq_mask [symmetric]
    by (rule cong, rule bit_word_eqI) (auto simp: bit_take_bit_iff bit_or_iff bit_push_bit_iff)
qed

lemma gather_bytes:
  assumes "p0 \<le> 8" "p1 \<le> 8" "p2 \<le> 8" "p3 \<le> (8 :: nat)"
  shows "((p0 + 256 * (p1 + 256 * (p2 + 256 * p3))) * 0x1010101) mod 2 ^ 32 div 2 ^ 24 = p0 + p1 + p2 + p3"
proof -
  let ?low = "p0 + 256 * (p0 + p1) + 65536 * (p0 + p1 + p2)"
  let ?mid = "?low + 2 ^ 24 * (p0 + p1 + p2 + p3)"
  have "(p0 + 256 * (p1 + 256 * (p2 + 256 * p3))) * 0x1010101 =
      ?mid + 2 ^ 32 * ((p1 + p2 + p3) + 256 * (p2 + p3) + 65536 * p3)"
    by (simp add: algebra_simps)
  moreover have "?mid < 2 ^ 32" using assms by simp
  ultimately have "((p0 + 256 * (p1 + 256 * (p2 + 256 * p3))) * 0x1010101) mod 2 ^ 32 = ?mid"
    by (simp only: mod_mult_self2 mod_less)
  moreover have "?mid div 2 ^ 24 = p0 + p1 + p2 + p3"
    using assms by (intro div_nat_eqI) simp_all
  ultimately show ?thesis by (simp only:)
qed

lemma popc8_le_word:
  "length (filter (bit (le_word [b0, b1, b2, b3])) [0..<32]) = popc8 b0 + popc8 b1 + popc8 b2 + popc8 b3"
proof -
  let ?w = "le_word [b0, b1, b2, b3]"
  have part: "length (filter (bit ?w) [8 * k..<8 * k + 8]) = popc8 ([b0, b1, b2, b3] ! k)" if "k < 4" for k
  proof -
    have "[8 * k..<8 * k + 8] = map (\<lambda>i. i + 8 * k) [0..<8]" by (simp add: map_add_upt add.commute)
    then have "length (filter (bit ?w) [8 * k..<8 * k + 8]) = length (filter (bit ?w \<circ> (\<lambda>i. i + 8 * k)) [0..<8])"
      by (simp add: filter_map)
    also have "filter (bit ?w \<circ> (\<lambda>i. i + 8 * k)) [0..<8] = filter (bit ([b0, b1, b2, b3] ! k)) [0..<8]"
      using that by (intro filter_cong) (auto simp: bit_le_word simp del: le_word.simps)
    finally show ?thesis by (simp add: popc8_def)
  qed
  have u: "[0..<32] = [8 * 0..<8 * 0 + 8] @ [8 * 1..<8 * 1 + 8] @ [8 * 2..<8 * 2 + 8] @ [8 * 3..<8 * 3 + (8 :: nat)]"
    by (simp add: upt_rec)
  have k: "(0 :: nat) < 4" "(1 :: nat) < 4" "(2 :: nat) < 4" "(3 :: nat) < 4" by simp_all
  show ?thesis unfolding u filter_append length_append k [THEN part] by simp
qed

lemma replicate_4: "replicate 4 x = [x, x, x, x]"
  by (simp add: numeral_eq_Suc)

lemma popc_masks:
  "(0x55555555 :: u32) = le_word (replicate 4 0x55)"
  "(0x33333333 :: u32) = le_word (replicate 4 0x33)"
  "(0xf0f0f0f :: u32) = le_word (replicate 4 0xf)"
  by (simp_all add: replicate_4)

lemma mask_bits:
  "bit (0x55 :: byte) i \<Longrightarrow> i + 1 < 8" "bit (0x33 :: byte) i \<Longrightarrow> i + 2 < 8"
proof -
  have lt: "bit (m :: byte) i \<Longrightarrow> i < 8" for m by (drule bit_imp_le_length) simp
  show "i + 1 < 8" if b: "bit (0x55 :: byte) i"
  proof -
    have "i \<noteq> 7" using b by (intro notI) simp
    with lt [OF b] show ?thesis by simp
  qed
  show "i + 2 < 8" if b: "bit (0x33 :: byte) i"
  proof -
    have "i \<noteq> 7" "i \<noteq> 6" using b by (intro notI, simp)+
    with lt [OF b] show ?thesis by simp
  qed
qed

lemma lfs_popc_pairs:
  assumes "length bs = 4"
  shows "le_word bs - (drop_bit 1 (le_word bs) AND 0x55555555) = le_word (map pairs8 bs)"
proof -
  have "drop_bit 1 (le_word bs) AND 0x55555555 = le_word (map (\<lambda>b. drop_bit 1 b AND 0x55) bs)"
    unfolding popc_masks using assms by (rule le_word_masked) (rule mask_bits)
  moreover have "le_word bs - le_word (map (\<lambda>b. drop_bit 1 b AND 0x55) bs) =
      le_word (map2 (-) bs (map (\<lambda>b. drop_bit 1 b AND 0x55) bs))"
    using popc8_steps by (intro le_word_sub) simp_all
  moreover have "map2 (-) bs (map (\<lambda>b. drop_bit 1 b AND 0x55) bs) = map pairs8 bs"
    by (intro nth_equalityI) (simp_all add: pairs8_def)
  ultimately show ?thesis by (simp only:)
qed

lemma lfs_popc_quads:
  fixes bs defines "cs \<equiv> map pairs8 bs"
  assumes "length bs = 4"
  shows "(le_word cs AND 0x33333333) + (drop_bit 2 (le_word cs) AND 0x33333333) = le_word (map quads8 cs)"
proof -
  have l: "length cs = 4" using assms(2) by (simp add: cs_def)
  have "le_word cs AND 0x33333333 = le_word (map (\<lambda>b. b AND 0x33) cs)"
    unfolding popc_masks using l by (rule le_word_and)
  moreover have "drop_bit 2 (le_word cs) AND 0x33333333 = le_word (map (\<lambda>b. drop_bit 2 b AND 0x33) cs)"
    unfolding popc_masks using l by (rule le_word_masked) (rule mask_bits)
  moreover have "le_word (map (\<lambda>b. b AND 0x33) cs) + le_word (map (\<lambda>b. drop_bit 2 b AND 0x33) cs) =
      le_word (map2 (+) (map (\<lambda>b. b AND 0x33) cs) (map (\<lambda>b. drop_bit 2 b AND 0x33) cs))"
    using popc8_steps by (intro le_word_add) (simp_all add: cs_def)
  moreover have "map2 (+) (map (\<lambda>b. b AND 0x33) cs) (map (\<lambda>b. drop_bit 2 b AND 0x33) cs) = map quads8 cs"
    by (intro nth_equalityI) (simp_all add: quads8_def)
  ultimately show ?thesis by (simp only:)
qed

lemma lfs_popc_sums:
  fixes b0 b1 b2 b3 :: byte
  defines "q \<equiv> \<lambda>b. quads8 (pairs8 b)"
  shows "(le_word [q b0, q b1, q b2, q b3] + drop_bit 4 (le_word [q b0, q b1, q b2, q b3])) AND 0xf0f0f0f =
    le_word (map (\<lambda>b. (q b + drop_bit 4 (q b)) AND 0xf) [b0, b1, b2, b3])"
proof -
  have q: "unat (q b) \<le> 68" "unat (drop_bit 4 (q b)) \<le> 4" "unat (push_bit 4 (q b)) \<le> 64" for b
    using popc8_steps [of b] by (simp_all add: q_def Let_def)
  have or: "unat (q b) + unat (drop_bit 4 (q b) OR push_bit 4 (q c)) < 256" for b c
  proof -
    have "drop_bit 4 (q b) OR push_bit 4 (q c) = drop_bit 4 (q b) + push_bit 4 (q c)"
      by (rule disjunctive_add [symmetric])
        (auto simp: bit_drop_bit_eq bit_push_bit_iff dest: bit_imp_le_length)
    then have "unat (drop_bit 4 (q b) OR push_bit 4 (q c)) \<le> unat (drop_bit 4 (q b)) + unat (push_bit 4 (q c))"
      by (simp only: unat_word_ariths mod_less_eq_dividend)
    with q(1) [of b] q(2) [of b] q(3) [of c] show ?thesis by linarith
  qed
  let ?xs = "[q b0, q b1, q b2, q b3]"
  let ?ys = "[drop_bit 4 (q b0) OR push_bit 4 (q b1), drop_bit 4 (q b1) OR push_bit 4 (q b2),
    drop_bit 4 (q b2) OR push_bit 4 (q b3), drop_bit 4 (q b3)]"
  have "le_word ?xs + le_word ?ys = le_word (map2 (+) ?xs ?ys)"
  proof (rule le_word_add)
    fix i assume "i < length ?xs"
    then have "i = 0 \<or> i = 1 \<or> i = 2 \<or> i = 3" by auto
    moreover have "unat (q b3) + unat (drop_bit 4 (q b3)) < 256" using q [of b3] by linarith
    ultimately show "unat (?xs ! i) + unat (?ys ! i) < 256" using or by auto
  qed simp
  moreover have "le_word (map2 (+) ?xs ?ys) AND 0xf0f0f0f = le_word (map (\<lambda>b. b AND 0xf) (map2 (+) ?xs ?ys))"
    unfolding popc_masks by (rule le_word_and) simp
  moreover have "map (\<lambda>b. b AND 0xf) (map2 (+) ?xs ?ys) = map (\<lambda>b. (q b + drop_bit 4 (q b)) AND 0xf) [b0, b1, b2, b3]"
    by (simp add: low_nibble_sum)
  ultimately show ?thesis unfolding le_word_nibble_shift by (simp only:)
qed

lemma unat_le_word:
  assumes "unat b0 \<le> 8" "unat b1 \<le> 8" "unat b2 \<le> 8" "unat b3 \<le> 8"
  shows "unat (le_word [b0, b1, b2, b3]) = unat b0 + 256 * (unat b1 + 256 * (unat b2 + 256 * unat b3))"
  using assms by (simp add: le_word_Cons unat_word_ariths unat_ucast_byte del: le_word.simps(2))

lemma lfs_popc_bits: "unat (lfs_popc a) = length (filter (bit a) [0..<32])"
proof -
  obtain b0 b1 b2 b3 where a: "a = le_word [b0, b1, b2, b3]"
    by (metis le_word_le_bytes le_bytes_def)
  let ?bs = "[b0, b1, b2, b3]"
  let ?p = "\<lambda>b. (quads8 (pairs8 b) + drop_bit 4 (quads8 (pairs8 b))) AND 0xf"
  have p: "unat (?p b) = popc8 b" "popc8 b \<le> 8" for b using popc8_steps [of b] by (simp_all add: Let_def)
  have "lfs_popc a = drop_bit 24 (le_word (map ?p ?bs) * 0x1010101)"
    unfolding a lfs_popc_def Let_def
    using lfs_popc_pairs [of ?bs] lfs_popc_quads [of ?bs] lfs_popc_sums [of b0 b1 b2 b3]
    by (simp del: le_word.simps)
  moreover have "unat (le_word (map ?p ?bs)) =
      popc8 b0 + 256 * (popc8 b1 + 256 * (popc8 b2 + 256 * popc8 b3))"
    unfolding list.map by (subst unat_le_word) (simp_all only: p)
  ultimately have "unat (lfs_popc a) = popc8 b0 + popc8 b1 + popc8 b2 + popc8 b3"
    using gather_bytes [OF p(2) p(2) p(2) p(2), of b0 b1 b2 b3]
    by (simp add: unat_drop_bit unat_word_ariths del: le_word.simps)
  then show ?thesis by (simp add: a popc8_le_word del: le_word.simps)
qed

subsection \<open>Properties\<close>

text \<open>
  Counting set bits with masks and one multiplication is counting them one after the other:
  \<open>lfs_popc\<close> returns the number of positions below 32 at which the word has a one.
\<close>

lemma lfs_popc_counts: "unat (lfs_popc a) = length (filter (bit a) [0..<32])"
  by (rule lfs_popc_bits)

text \<open>
  For every argument of at least two, \<open>lfs_npw2\<close> returns the least exponent whose power of two
  reaches the argument, and \<open>lfs_ctz\<close> of a word with a set bit returns the position of its lowest set bit.
\<close>

lemma lfs_npw2_least:
  assumes "2 \<le> a"
  shows "unat a \<le> 2 ^ unat (lfs_npw2 a) \<and> (\<forall>m. unat a \<le> 2 ^ m \<longrightarrow> unat (lfs_npw2 a) \<le> m) \<and>
    bit a (unat (lfs_ctz a)) \<and> (\<forall>i. i < unat (lfs_ctz a) \<longrightarrow> \<not> bit a i)"
proof -
  let ?n = "unat (lfs_npw2 a)"
  have a: "unat (a - 1) = unat a - 1" "2 \<le> unat a"
    using assms by (auto simp: unat_sub word_le_nat_alt)
  have "a \<noteq> 1" using a(2) by auto
  from lfs_npw2_log [OF this] have l: "2 ^ (?n - 1) < unat a" "unat a \<le> 2 ^ ?n" "1 \<le> ?n"
    using a by auto
  have "?n \<le> m" if "unat a \<le> 2 ^ m" for m
  proof -
    have "(2 :: nat) ^ (?n - 1) < 2 ^ m" using l(1) that by linarith
    then show ?thesis by simp
  qed
  moreover have "a \<noteq> 0" using a(2) by auto
  then have "\<exists>k. bit a k" unfolding bit_eq_iff by auto
  then obtain k where k: "bit a k" "\<And>i. i < k \<Longrightarrow> \<not> bit a i" by (meson LeastI not_less_Least)
  moreover have "unat (lfs_ctz a) = k" using k by (rule lfs_ctz_lowest)
  ultimately show ?thesis using l(2) by simp
qed


text \<open>One is the exception: its logarithm is rounded up to one.\<close>

lemma lfs_npw2_one: "lfs_npw2 1 = 1"
  by (simp add: lfs_npw2_def npw2_stage_def)

end
