(* ===== verification/LfsPort.thy ===== *)
theory LfsPort
  imports Prelude
begin

text \<open>
  The littlefs block device over the external NOR flash, \<open>source/fs/lfs_port_ospi.c\<close>, and the lock of
  \<open>source/fs/lfs_port_prv.c\<close>. The flash driver and the constants of its header are not part of the
  repository: they are the records \<open>ospi_ops\<close> and \<open>nor_geometry\<close>, and \<open>nor_flash\<close> states how NOR flash
  behaves: programming only clears bits, erasing sets the bits of a sector.
\<close>

record nor_geometry =
  OPI_START_ADDRESS :: u32
  MX25LM_SECTOR_SZ :: u32
  MX25LM_MEM_SZ_USABLE :: u32
  MX25LM_PROGRAM_FIFO_LEN :: u32

text \<open>The driver: reading gives the bytes or fails, writing and erasing say whether they succeeded.\<close>

record 'd ospi_ops =
  ospi_ReadAddr :: "u32 \<Rightarrow> nat \<Rightarrow> 'd \<Rightarrow> byte list option \<times> 'd"
  ospi_WriteAddr :: "u32 \<Rightarrow> byte list \<Rightarrow> 'd \<Rightarrow> bool \<times> 'd"
  ospi_EraseSector :: "u32 \<Rightarrow> 'd \<Rightarrow> bool \<times> 'd"

record lfs_config =
  read_size :: u32
  prog_size :: u32
  block_size :: u32
  block_count :: u32
  block_cycles :: nat
  cache_size :: u32
  lookahead_size :: u32
  name_max :: u32
  file_max :: u32
  attr_max :: u32
  metadata_max :: u32

definition vPopulateConfig :: "nor_geometry \<Rightarrow> lfs_config" where
  "vPopulateConfig g =
     \<lparr>read_size = 1, prog_size = 256, block_size = MX25LM_SECTOR_SZ g,
      block_count = MX25LM_MEM_SZ_USABLE g div MX25LM_SECTOR_SZ g,
      block_cycles = 500, cache_size = 4096, lookahead_size = 256,
      name_max = 0, file_max = 0, attr_max = 0, metadata_max = 0\<rparr>"

text \<open>The port context: its mutex (free or taken) and the time to wait for it.\<close>

record LfsPortCtx =
  xMutex_free :: bool
  xBlockTime :: nat

text \<open>The heap may have no room for the two structures or the mutex, and the driver may not start; each of
  them is asserted.\<close>

definition pxInitializeOSPIFlashFs ::
  "nor_geometry \<Rightarrow> bool \<Rightarrow> bool \<Rightarrow> bool \<Rightarrow> bool \<Rightarrow> nat \<Rightarrow> (lfs_config \<times> LfsPortCtx) option" where
  "pxInitializeOSPIFlashFs g cfg_mem ctx_mem mutex_mem init_ok block_time = do {
     configASSERT cfg_mem;
     configASSERT ctx_mem;
     configASSERT mutex_mem;
     let cfg = vPopulateConfig g;
     configASSERT init_ok;
     Some (cfg, \<lparr>xMutex_free = True, xBlockTime = block_time\<rparr>)
   }"

text \<open>Taking the mutex succeeds when it is free, or when its holder gives it back (\<open>given\<close> ticks from
  now) before the block time is over.\<close>

definition lfs_port_lock :: "nat option \<Rightarrow> LfsPortCtx \<Rightarrow> int \<times> LfsPortCtx" where
  "lfs_port_lock given ctx =
     (if xMutex_free ctx \<or> (case given of None \<Rightarrow> False | Some t \<Rightarrow> t \<le> xBlockTime ctx)
      then (0, ctx\<lparr>xMutex_free := False\<rparr>) else (-1, ctx))"

definition lfs_port_unlock :: "LfsPortCtx \<Rightarrow> int \<times> LfsPortCtx" where
  "lfs_port_unlock ctx =
     (if xMutex_free ctx then (-1, ctx) else (0, ctx\<lparr>xMutex_free := True\<rparr>))"

definition block_addr :: "nor_geometry \<Rightarrow> lfs_config \<Rightarrow> u32 \<Rightarrow> u32 \<Rightarrow> u32" where
  "block_addr g cfg block off = OPI_START_ADDRESS g + block * block_size cfg + off"

definition lfs_port_read ::
  "nor_geometry \<Rightarrow> 'd ospi_ops \<Rightarrow> lfs_config \<Rightarrow> u32 \<Rightarrow> u32 \<Rightarrow> u32 \<Rightarrow> 'd \<Rightarrow> (int \<times> byte list option \<times> 'd) option" where
  "lfs_port_read g ops cfg block off sz d = do {
     configASSERT (block < block_count cfg);
     configASSERT (sz > 0);
     (case ospi_ReadAddr ops (block_addr g cfg block off) (unat sz) d of
        (None, d') \<Rightarrow> Some (-1, None, d')
      | (Some bs, d') \<Rightarrow> Some (0, Some bs, d'))
   }"

text \<open>The loop over the pages of one program operation. The address is an unsigned 32 bit counter, so a
  last page at the very end of the address space would never be passed.\<close>

partial_function (option) prog_loop ::
  "nat \<Rightarrow> 'd ospi_ops \<Rightarrow> u32 \<Rightarrow> u32 \<Rightarrow> byte list \<Rightarrow> u32 \<Rightarrow> 'd \<Rightarrow> (int \<times> 'd) option" where
  "prog_loop fifo ops start last_addr buf addr d =
     (if addr \<le> last_addr
      then Option.bind (mem_read (unat (addr - start)) fifo buf) (\<lambda>page.
        (case ospi_WriteAddr ops addr page d of
           (ok, d') \<Rightarrow>
             if ok then prog_loop fifo ops start last_addr buf (addr + of_nat fifo) d'
             else Some (-1, d')))
      else Some (0, d))"

definition lfs_port_prog ::
  "nor_geometry \<Rightarrow> 'd ospi_ops \<Rightarrow> lfs_config \<Rightarrow> u32 \<Rightarrow> u32 \<Rightarrow> byte list \<Rightarrow> u32 \<Rightarrow> 'd \<Rightarrow> (int \<times> 'd) option" where
  "lfs_port_prog g ops cfg block off buf sz d = do {
     configASSERT (block < block_count cfg);
     configASSERT (sz > 0);
     configASSERT (sz mod MX25LM_PROGRAM_FIFO_LEN g = 0);
     let ulStartAddr = block_addr g cfg block off;
     let ulLastAddr = ulStartAddr + sz - MX25LM_PROGRAM_FIFO_LEN g;
     prog_loop (unat (MX25LM_PROGRAM_FIFO_LEN g)) ops ulStartAddr ulLastAddr buf ulStartAddr d
   }"

definition lfs_port_erase ::
  "nor_geometry \<Rightarrow> 'd ospi_ops \<Rightarrow> lfs_config \<Rightarrow> u32 \<Rightarrow> 'd \<Rightarrow> (int \<times> 'd) option" where
  "lfs_port_erase g ops cfg block d = do {
     configASSERT (block < block_count cfg);
     (case ospi_EraseSector ops (block_addr g cfg block 0) d of
        (ok, d') \<Rightarrow> Some (if ok then 0 else -1, d'))
   }"

definition lfs_port_sync :: int where
  "lfs_port_sync = 0"

subsection \<open>NOR flash\<close>

text \<open>What the driver of a NOR flash promises, in terms of the contents \<open>cells d a\<close> of address \<open>a\<close>: reading
  returns the contents; programming a page clears bits of that page only; erasing a sector sets all
  its bits and leaves the rest. A failed operation promises nothing.\<close>

definition nor_flash :: "nat \<Rightarrow> nat \<Rightarrow> 'd ospi_ops \<Rightarrow> ('d \<Rightarrow> nat \<Rightarrow> byte) \<Rightarrow> bool" where
  "nor_flash fifo sector ops cells \<longleftrightarrow>
     (\<forall>a n d bs d'. unat a + n \<le> 2 ^ 32 \<longrightarrow> ospi_ReadAddr ops a n d = (Some bs, d') \<longrightarrow>
        bs = map (cells d) [unat a..<unat a + n] \<and> cells d' = cells d) \<and>
     (\<forall>a bs d d'. unat a + fifo \<le> 2 ^ 32 \<longrightarrow> length bs = fifo \<longrightarrow> ospi_WriteAddr ops a bs d = (True, d') \<longrightarrow>
        (\<forall>i. cells d' i = (if unat a \<le> i \<and> i < unat a + fifo then cells d i AND bs ! (i - unat a) else cells d i))) \<and>
     (\<forall>a d d'. unat a + sector \<le> 2 ^ 32 \<longrightarrow> ospi_EraseSector ops a d = (True, d') \<longrightarrow>
        (\<forall>i. cells d' i = (if unat a \<le> i \<and> i < unat a + sector then 0xff else cells d i)))"

lemma nor_read:
  assumes "nor_flash fifo sector ops cells" "unat a + n \<le> 2 ^ 32" "ospi_ReadAddr ops a n d = (Some bs, d')"
  shows "bs = map (cells d) [unat a..<unat a + n]"
  using assms unfolding nor_flash_def by blast

lemma nor_write:
  assumes "nor_flash fifo sector ops cells" "unat a + fifo \<le> 2 ^ 32" "length bs = fifo"
    "ospi_WriteAddr ops a bs d = (True, d')"
  shows "cells d' i = (if unat a \<le> i \<and> i < unat a + fifo then cells d i AND bs ! (i - unat a) else cells d i)"
  using assms unfolding nor_flash_def by blast

lemma nor_erase:
  assumes "nor_flash fifo sector ops cells" "unat a + sector \<le> 2 ^ 32" "ospi_EraseSector ops a d = (True, d')"
  shows "cells d' i = (if unat a \<le> i \<and> i < unat a + sector then 0xff else cells d i)"
  using assms unfolding nor_flash_def by blast

lemma u32_offset:
  assumes "unat (start :: u32) + n < 2 ^ 32"
  shows "unat (start + of_nat n) = unat start + n"
  using assms by (simp add: unat_word_ariths unat_of_nat)

lemma nor_write_page:
  assumes "nor_flash fifo sector ops cells" "unat a = s + k * fifo" "s + Suc k * fifo \<le> 2 ^ 32"
    "Suc k * fifo \<le> length buf" "ospi_WriteAddr ops a (take fifo (drop (k * fifo) buf)) d = (True, d')"
  shows "cells d' i = (if s + k * fifo \<le> i \<and> i < s + Suc k * fifo then cells d i AND buf ! (i - s) else cells d i)"
proof -
  have "cells d' i = (if unat a \<le> i \<and> i < unat a + fifo
      then cells d i AND take fifo (drop (k * fifo) buf) ! (i - unat a) else cells d i)"
    using assms by (intro nor_write) auto
  then show ?thesis using assms(2,4) by (auto simp: add.commute add.assoc)
qed

text \<open>A loop over \<open>n\<close> pages that ends below the top of the address space writes the pages it has not
  written yet.\<close>

lemma prog_loop_pages:
  fixes start :: u32 and fifo n :: nat
  defines "page \<equiv> \<lambda>j. start + of_nat (j * fifo)"
  assumes nor: "nor_flash fifo sector ops cells" and fifo: "0 < fifo" and n: "0 < n"
    and room: "unat start + n * fifo < 2 ^ 32" and buf: "n * fifo \<le> length buf" and j: "j \<le> n"
  shows "\<exists>r d'. prog_loop fifo ops start (page (n - 1)) buf (page j) d = Some (r, d') \<and>
    (r = 0 \<longrightarrow> (\<forall>i. cells d' i =
       (if unat start + j * fifo \<le> i \<and> i < unat start + n * fifo then cells d i AND buf ! (i - unat start)
        else cells d i)))"
proof -
  have page: "unat (page k) = unat start + k * fifo" if "k \<le> n" for k
  proof -
    have "k * fifo \<le> n * fifo" using that by simp
    then show ?thesis using room unfolding page_def by (intro u32_offset) linarith
  qed
  have order: "page k \<le> page (n - 1) \<longleftrightarrow> k < n" if "k \<le> n" for k
    using that n fifo by (auto simp: word_le_nat_alt page)
  show ?thesis using j
  proof (induction arbitrary: d rule: inc_induct)
    case base
    show ?case using order [of n] by (subst prog_loop.simps) auto
  next
    case (step k)
    let ?bs = "take fifo (drop (k * fifo) buf)"
    have le: "Suc k * fifo \<le> n * fifo" using step.hyps by (intro mult_le_mono1) simp
    have read: "mem_read (unat (page k - start)) fifo buf = Some ?bs"
    proof -
      have "unat (page k - start) = k * fifo"
        using page [of k] step.hyps by (simp add: unat_sub word_le_nat_alt)
      then show ?thesis using le buf by simp
    qed
    obtain ok d1 where w: "ospi_WriteAddr ops (page k) ?bs d = (ok, d1)" by (cases "ospi_WriteAddr ops (page k) ?bs d")
    have nxt: "page k + of_nat fifo = page (Suc k)" by (simp add: page_def algebra_simps)
    show ?case
    proof (cases ok)
      case False
      then show ?thesis
        using order [of k] step.hyps read w by (subst prog_loop.simps) simp
    next
      case True
      have c: "cells d1 i = (if unat start + k * fifo \<le> i \<and> i < unat start + Suc k * fifo
          then cells d i AND buf ! (i - unat start) else cells d i)" for i
        using nor_write_page [OF nor page [of k]] w True le room buf step.hyps by auto
      obtain r d' where run: "prog_loop fifo ops start (page (n - 1)) buf (page (Suc k)) d1 = Some (r, d')"
        and cells: "r = 0 \<longrightarrow> (\<forall>i. cells d' i =
          (if unat start + Suc k * fifo \<le> i \<and> i < unat start + n * fifo then cells d1 i AND buf ! (i - unat start)
           else cells d1 i))"
        using step.IH [of d1] by blast
      have "prog_loop fifo ops start (page (n - 1)) buf (page k) d = Some (r, d')"
        using order [of k] step.hyps read w True run nxt by (subst prog_loop.simps) simp
      moreover have "r = 0 \<longrightarrow> (\<forall>i. cells d' i =
          (if unat start + k * fifo \<le> i \<and> i < unat start + n * fifo then cells d i AND buf ! (i - unat start)
           else cells d i))"
        using cells c le by auto
      ultimately show ?thesis by blast
    qed
  qed
qed

subsection \<open>The block device\<close>

text \<open>The whole flash lies below the top of the address space.\<close>

definition geometry_ok :: "nor_geometry \<Rightarrow> bool" where
  "geometry_ok g \<longleftrightarrow> MX25LM_PROGRAM_FIFO_LEN g \<noteq> 0 \<and> MX25LM_SECTOR_SZ g \<noteq> 0 \<and>
     unat (OPI_START_ADDRESS g) + unat (MX25LM_MEM_SZ_USABLE g) < 2 ^ 32"

definition block_base :: "nor_geometry \<Rightarrow> u32 \<Rightarrow> nat" where
  "block_base g block = unat (OPI_START_ADDRESS g) + unat block * unat (MX25LM_SECTOR_SZ g)"

lemma block_addr_unat:
  assumes "geometry_ok g" "block < block_count (vPopulateConfig g)" "unat off \<le> unat (MX25LM_SECTOR_SZ g)"
  shows "unat (block_addr g (vPopulateConfig g) block off) = block_base g block + unat off"
    "block_base g block + unat (MX25LM_SECTOR_SZ g) < 2 ^ 32"
proof -
  let ?S = "unat (MX25LM_SECTOR_SZ g)" and ?M = "unat (MX25LM_MEM_SZ_USABLE g)"
  have "unat block < ?M div ?S"
    using assms(2) by (simp add: vPopulateConfig_def word_less_nat_alt unat_div)
  then have "Suc (unat block) * ?S \<le> ?M div ?S * ?S" by (intro mult_le_mono1) simp
  also have "\<dots> \<le> ?M" by simp
  finally have "Suc (unat block) * ?S \<le> ?M" .
  then show room: "block_base g block + ?S < 2 ^ 32"
    using assms(1) by (simp add: block_base_def geometry_ok_def)
  have "block_addr g (vPopulateConfig g) block off =
      OPI_START_ADDRESS g + of_nat (unat block * ?S + unat off)"
    by (simp add: block_addr_def vPopulateConfig_def)
  then show "unat (block_addr g (vPopulateConfig g) block off) = block_base g block + unat off"
    using u32_offset [of "OPI_START_ADDRESS g" "unat block * ?S + unat off"] room assms(3)
    by (simp add: block_base_def)
qed

lemma lfs_port_prog_pages:
  assumes g: "geometry_ok g" and nor: "nor_flash (unat (MX25LM_PROGRAM_FIFO_LEN g)) sector ops cells"
    and block: "block < block_count (vPopulateConfig g)"
    and sz: "0 < sz" "sz mod MX25LM_PROGRAM_FIFO_LEN g = 0" "unat off + unat sz \<le> unat (MX25LM_SECTOR_SZ g)"
    and buf: "unat sz \<le> length buf"
  shows "\<exists>r d'. lfs_port_prog g ops (vPopulateConfig g) block off buf sz d = Some (r, d') \<and>
    (r = 0 \<longrightarrow> (\<forall>i. cells d' i = (if block_base g block + unat off \<le> i \<and> i < block_base g block + unat off + unat sz
       then cells d i AND buf ! (i - (block_base g block + unat off)) else cells d i)))"
proof -
  let ?F = "unat (MX25LM_PROGRAM_FIFO_LEN g)" and ?start = "block_addr g (vPopulateConfig g) block off"
  define n where "n = unat sz div ?F"
  have F: "0 < ?F" using g by (simp add: geometry_ok_def unat_gt_0)
  have "unat sz mod ?F = 0" using sz(2) by (metis unat_0 unat_mod)
  then have szn: "unat sz = n * ?F" by (simp add: n_def dvd_imp_mod_0 mod_eq_0_iff_dvd)
  have n: "0 < n" using sz(1) szn by (cases n) (auto simp: word_less_nat_alt)
  have start: "unat ?start = block_base g block + unat off"
    and room: "block_base g block + unat (MX25LM_SECTOR_SZ g) < 2 ^ 32"
    using block_addr_unat [OF g block, of off] sz(3) by simp_all
  have "of_nat ((n - 1) * ?F) = (sz - MX25LM_PROGRAM_FIFO_LEN g)"
  proof -
    have "(n - 1) * ?F = unat sz - ?F" using n szn by (simp add: diff_mult_distrib)
    moreover have "?F \<le> unat sz" using n szn by simp
    ultimately show ?thesis by (simp add: of_nat_diff)
  qed
  then have last: "?start + of_nat ((n - 1) * ?F) = ?start + sz - MX25LM_PROGRAM_FIFO_LEN g" by simp
  have "lfs_port_prog g ops (vPopulateConfig g) block off buf sz d =
      prog_loop ?F ops ?start (?start + of_nat ((n - 1) * ?F)) buf (?start + of_nat (0 * ?F)) d"
    unfolding last using block sz(1,2) by (simp add: lfs_port_prog_def Let_def)
  then show ?thesis
    using prog_loop_pages [OF nor F n _ _ le0, of ?start buf d] start room sz(3) buf szn by auto
qed

lemma and_ff: "0xff AND b = (b :: byte)"
proof -
  have "(0xff :: byte) = - 1" by simp
  then show ?thesis by (simp only: and.left_neutral)
qed


text \<open>A flash that never fails, for the witnesses.\<close>

definition ex_nor :: "(nat \<Rightarrow> byte) ospi_ops" where
  "ex_nor =
     \<lparr>ospi_ReadAddr = \<lambda>a n d. (Some (map d [unat a..<unat a + n]), d),
      ospi_WriteAddr = \<lambda>a bs d. (True, \<lambda>i. if unat a \<le> i \<and> i < unat a + length bs then d i AND bs ! (i - unat a) else d i),
      ospi_EraseSector = \<lambda>a d. (True, \<lambda>i. if unat a \<le> i \<and> i < unat a + 4096 then 0xff else d i)\<rparr>"

definition ex_geometry :: nor_geometry where
  "ex_geometry = \<lparr>OPI_START_ADDRESS = 0, MX25LM_SECTOR_SZ = 4096, MX25LM_MEM_SZ_USABLE = 67108864,
     MX25LM_PROGRAM_FIFO_LEN = 256\<rparr>"

lemma ex_nor_flash: "nor_flash 256 4096 ex_nor (\<lambda>d. d)"
  by (auto simp: nor_flash_def ex_nor_def)

lemma ex_geometry_ok: "geometry_ok ex_geometry"
  by (simp add: geometry_ok_def ex_geometry_def)


end
