(* ===== verification/PsaStore.thy ===== *)
theory PsaStore
  imports Prelude
begin

text \<open>
  Objects in the PSA internal trusted storage and protected storage: the object functions of
  \<open>source/crypto/pki/mbedtls_pk_psa.c\<close>, the certificate functions of \<open>PkiObjectPsa.c\<close> and the status
  translation of \<open>psa_util.c\<close>, in the build with \<open>MBEDTLS_TRANSPORT_PSA\<close>. The two storage services, the
  X.509 parsers and the heap are not part of the repository; they are the record \<open>psa_env\<close>.
\<close>

datatype psa_status = PSA_SUCCESS | PSA_ERROR_NOT_SUPPORTED | PSA_ERROR_INSUFFICIENT_MEMORY
  | PSA_ERROR_INSUFFICIENT_ENTROPY | PSA_ERROR_BAD_STATE | PSA_ERROR_COMMUNICATION_FAILURE
  | PSA_ERROR_HARDWARE_FAILURE | PSA_ERROR_CORRUPTION_DETECTED | PSA_ERROR_INVALID_ARGUMENT
  | PSA_ERROR_INVALID_HANDLE | PSA_ERROR_OTHER nat

text \<open>The error codes of Mbed TLS the sources name, all negative; the other negative codes; and positive
  results: the number of certificates \<open>mbedtls_x509_crt_parse\<close> could not parse, or of bytes that were sent
  or received.\<close>

datatype mbedtls_err = MBEDTLS_OK
  | MBEDTLS_ERR_X509_ALLOC_FAILED | MBEDTLS_ERR_ERROR_CORRUPTION_DETECTED
  | MBEDTLS_ERR_X509_CERT_UNKNOWN_FORMAT | MBEDTLS_ERR_X509_BAD_INPUT_DATA
  | MBEDTLS_ERR_PEM_BAD_INPUT_DATA | MBEDTLS_ERR_PEM_NO_HEADER_FOOTER_PRESENT
  | MBEDTLS_ERR_PK_FEATURE_UNAVAILABLE | MBEDTLS_ERR_PK_ALLOC_FAILED | MBEDTLS_ERR_ECP_RANDOM_FAILED
  | MBEDTLS_ERR_PK_BAD_INPUT_DATA | MBEDTLS_ERR_PLATFORM_HW_ACCEL_FAILED | MBEDTLS_ERR_ERROR_GENERIC_ERROR
  | MBEDTLS_ERR_SSL_BAD_INPUT_DATA | MBEDTLS_ERR_SSL_WANT_READ | MBEDTLS_ERR_SSL_WANT_WRITE | MBEDTLS_ERR_SSL_TIMEOUT
  | MBEDTLS_ERR_SSL_PEER_CLOSE_NOTIFY | MBEDTLS_ERR_NET_CONN_RESET | MBEDTLS_ERR_NET_SOCKET_FAILED
  | MBEDTLS_ERR_NET_SEND_FAILED | MBEDTLS_ERR_NET_RECV_FAILED
  | MBEDTLS_ERR_OTHER nat | MBEDTLS_POSITIVE nat

fun mbedtls_psa_err_translate_pk :: "psa_status \<Rightarrow> mbedtls_err" where
  "mbedtls_psa_err_translate_pk PSA_SUCCESS = MBEDTLS_OK"
| "mbedtls_psa_err_translate_pk PSA_ERROR_NOT_SUPPORTED = MBEDTLS_ERR_PK_FEATURE_UNAVAILABLE"
| "mbedtls_psa_err_translate_pk PSA_ERROR_INSUFFICIENT_MEMORY = MBEDTLS_ERR_PK_ALLOC_FAILED"
| "mbedtls_psa_err_translate_pk PSA_ERROR_INSUFFICIENT_ENTROPY = MBEDTLS_ERR_ECP_RANDOM_FAILED"
| "mbedtls_psa_err_translate_pk PSA_ERROR_BAD_STATE = MBEDTLS_ERR_PK_BAD_INPUT_DATA"
| "mbedtls_psa_err_translate_pk _ = MBEDTLS_ERR_PLATFORM_HW_ACCEL_FAILED"

text \<open>A storage service: the size of an object, its bytes, and storing it. Reading leaves it as it is.\<close>

record 's psa_storage =
  storage_get_info :: "nat \<Rightarrow> 's \<Rightarrow> psa_status \<times> nat"
  storage_get :: "nat \<Rightarrow> nat \<Rightarrow> 's \<Rightarrow> psa_status \<times> byte list"
  storage_set :: "nat \<Rightarrow> byte list \<Rightarrow> 's \<Rightarrow> psa_status \<times> 's"

text \<open>The parsers add certificates, given by their DER bytes, to a chain. \<open>calloc_ok\<close> tells whether the heap
  has room for a block when so many blocks are in use.\<close>

record 's psa_env =
  its :: "'s psa_storage"
  ps :: "'s psa_storage"
  mbedtls_x509_crt_parse :: "byte list \<Rightarrow> mbedtls_err \<times> byte list list"
  mbedtls_x509_crt_parse_der :: "byte list \<Rightarrow> mbedtls_err \<times> byte list list"
  calloc_ok :: "nat \<Rightarrow> nat \<Rightarrow> bool"

text \<open>The contents of the services, the number of heap blocks in use, and what the freed blocks held when
  they were freed.\<close>

record 's psa_world =
  its_state :: 's
  ps_state :: 's
  live :: nat
  freed :: "byte list list"

definition mbedtls_free :: "byte list \<Rightarrow> 's psa_world \<Rightarrow> 's psa_world" where
  "mbedtls_free contents w = w\<lparr>live := live w - 1, freed := freed w @ [contents]\<rparr>"

subsection \<open>Objects\<close>

text \<open>Reading an object into a new block. The two functions of the source differ in the service only.\<close>

definition read_object ::
  "(nat \<Rightarrow> nat \<Rightarrow> bool) \<Rightarrow> 's psa_storage \<Rightarrow> 's \<Rightarrow> nat \<Rightarrow> 's psa_world \<Rightarrow> (mbedtls_err \<times> byte list option \<times> 's psa_world) option" where
  "read_object calloc st s xObjectUid w = do {
     configASSERT (xObjectUid > 0);
     Some (case storage_get_info st xObjectUid s of
       (xStatus, sz) \<Rightarrow>
         if xStatus \<noteq> PSA_SUCCESS then (mbedtls_psa_err_translate_pk xStatus, None, w)
         else if \<not> calloc (live w) sz then (mbedtls_psa_err_translate_pk PSA_ERROR_INSUFFICIENT_MEMORY, None, w)
         else let w = w\<lparr>live := live w + 1\<rparr> in
           (case storage_get st xObjectUid sz s of
              (xStatus, bs) \<Rightarrow>
                if xStatus = PSA_SUCCESS then (MBEDTLS_OK, Some bs, w)
                else (mbedtls_psa_err_translate_pk xStatus, None, w)))
   }"

definition lReadObjectFromPsaIts :: "'s psa_env \<Rightarrow> nat \<Rightarrow> 's psa_world \<Rightarrow> (mbedtls_err \<times> byte list option \<times> 's psa_world) option" where
  "lReadObjectFromPsaIts E xObjectUid w = read_object (calloc_ok E) (its E) (its_state w) xObjectUid w"

definition lReadObjectFromPsaPs :: "'s psa_env \<Rightarrow> nat \<Rightarrow> 's psa_world \<Rightarrow> (mbedtls_err \<times> byte list option \<times> 's psa_world) option" where
  "lReadObjectFromPsaPs E xObjectUid w = read_object (calloc_ok E) (ps E) (ps_state w) xObjectUid w"

definition lWriteObjectToPsaIts :: "'s psa_env \<Rightarrow> nat \<Rightarrow> byte list \<Rightarrow> 's psa_world \<Rightarrow> mbedtls_err \<times> 's psa_world" where
  "lWriteObjectToPsaIts E xObjectUid pucData w =
     (case storage_set (its E) xObjectUid pucData (its_state w) of
        (xStatus, s) \<Rightarrow> (mbedtls_psa_err_translate_pk xStatus, w\<lparr>its_state := s\<rparr>))"

definition lWriteObjectToPsaPs :: "'s psa_env \<Rightarrow> nat \<Rightarrow> byte list \<Rightarrow> 's psa_world \<Rightarrow> mbedtls_err \<times> 's psa_world" where
  "lWriteObjectToPsaPs E xObjectUid pucData w =
     (case storage_set (ps E) xObjectUid pucData (ps_state w) of
        (xStatus, s) \<Rightarrow> (mbedtls_psa_err_translate_pk xStatus, w\<lparr>ps_state := s\<rparr>))"

subsection \<open>Certificates\<close>

text \<open>\<open>strstr\<close>: whether the C string at the front of the buffer contains the pattern.\<close>

fun strstr :: "byte list \<Rightarrow> byte list \<Rightarrow> bool" where
  "strstr pat [] = (pat = [])"
| "strstr pat (b # bs) = (take (length pat) (b # bs) = pat \<or> (b \<noteq> 0 \<and> strstr pat bs))"

definition pem_begin :: "byte list" where
  "pem_begin = map byte_of ''-----BEGIN CERTIFICATE-----''"

definition is_pem :: "byte list \<Rightarrow> bool" where
  "is_pem bs = (bs \<noteq> [] \<and> last bs = 0 \<and> strstr pem_begin bs)"

text \<open>A PEM text is copied by the parser and its block freed; the block of a DER certificate belongs to the
  chain once it was parsed.\<close>

definition parse_certificate ::
  "'s psa_env \<Rightarrow> (mbedtls_err \<times> byte list option \<times> 's psa_world) \<Rightarrow> byte list list \<Rightarrow> mbedtls_err \<times> byte list list \<times> 's psa_world" where
  "parse_certificate E r chain =
     (case r of
        (lError, None, w) \<Rightarrow> (lError, chain, w)
      | (lError, Some bs, w) \<Rightarrow>
          if is_pem bs
          then (case mbedtls_x509_crt_parse E bs of (e, cs) \<Rightarrow> (e, chain @ cs, mbedtls_free bs w))
          else (case mbedtls_x509_crt_parse_der E bs of
                  (e, cs) \<Rightarrow> (e, chain @ cs, if e = MBEDTLS_OK then w else mbedtls_free bs w)))"

definition lReadCertificateFromPsaIts ::
  "'s psa_env \<Rightarrow> nat \<Rightarrow> byte list list \<Rightarrow> 's psa_world \<Rightarrow> (mbedtls_err \<times> byte list list \<times> 's psa_world) option" where
  "lReadCertificateFromPsaIts E xCertUid chain w = do {
     configASSERT (xCertUid > 0);
     r \<leftarrow> lReadObjectFromPsaIts E xCertUid w;
     Some (parse_certificate E r chain)
   }"

definition lReadCertificateFromPsaPS ::
  "'s psa_env \<Rightarrow> nat \<Rightarrow> byte list list \<Rightarrow> 's psa_world \<Rightarrow> (mbedtls_err \<times> byte list list \<times> 's psa_world) option" where
  "lReadCertificateFromPsaPS E xCertUid chain w = do {
     configASSERT (xCertUid > 0);
     r \<leftarrow> lReadObjectFromPsaPs E xCertUid w;
     Some (parse_certificate E r chain)
   }"

text \<open>\<open>raw\<close> are the DER bytes of the certificate to store.\<close>

definition lWriteCertificateToPsaIts :: "'s psa_env \<Rightarrow> nat \<Rightarrow> byte list \<Rightarrow> 's psa_world \<Rightarrow> mbedtls_err \<times> 's psa_world" where
  "lWriteCertificateToPsaIts E xCertUid raw w =
     (if raw = [] then (mbedtls_psa_err_translate_pk PSA_ERROR_INVALID_ARGUMENT, w)
      else case storage_set (its E) xCertUid raw (its_state w) of
        (xStatus, s) \<Rightarrow> (mbedtls_psa_err_translate_pk xStatus, w\<lparr>its_state := s\<rparr>))"

definition lWriteCertificateToPsaPS :: "'s psa_env \<Rightarrow> nat \<Rightarrow> byte list \<Rightarrow> 's psa_world \<Rightarrow> mbedtls_err \<times> 's psa_world" where
  "lWriteCertificateToPsaPS E xCertUid raw w =
     (if raw = [] then (mbedtls_psa_err_translate_pk PSA_ERROR_INVALID_ARGUMENT, w)
      else case storage_set (ps E) xCertUid raw (ps_state w) of
        (xStatus, s) \<Rightarrow> (mbedtls_psa_err_translate_pk xStatus, w\<lparr>ps_state := s\<rparr>))"

subsection \<open>What the services promise\<close>

definition storage_spec :: "'s psa_storage \<Rightarrow> ('s \<Rightarrow> nat \<rightharpoonup> byte list) \<Rightarrow> bool" where
  "storage_spec st contents \<longleftrightarrow>
     (\<forall>u bs s s'. storage_set st u bs s = (PSA_SUCCESS, s') \<longrightarrow> contents s' = (contents s)(u \<mapsto> bs)) \<and>
     (\<forall>u s n. storage_get_info st u s = (PSA_SUCCESS, n) \<longrightarrow> (\<exists>bs. contents s u = Some bs \<and> n = length bs)) \<and>
     (\<forall>u n s xs. storage_get st u n s = (PSA_SUCCESS, xs) \<longrightarrow> (\<exists>bs. contents s u = Some bs \<and> xs = take n bs))"

lemma psa_translate_ok [simp]: "mbedtls_psa_err_translate_pk st = MBEDTLS_OK \<longleftrightarrow> st = PSA_SUCCESS"
  by (cases st) simp_all

lemma psa_translate_negative [simp]: "mbedtls_psa_err_translate_pk st \<noteq> MBEDTLS_POSITIVE n"
  by (cases st) simp_all

lemma storage_set_contents:
  "storage_spec st contents \<Longrightarrow> storage_set st u bs s = (PSA_SUCCESS, s') \<Longrightarrow> contents s' = (contents s)(u \<mapsto> bs)"
  unfolding storage_spec_def by blast

text \<open>Reading an object returns; on success it delivers the stored bytes in one new block.\<close>

lemma read_object_returns:
  assumes "storage_spec st contents" "0 < u"
  obtains e r w' where "read_object calloc st s u w = Some (e, r, w')"
    "e = MBEDTLS_OK \<longleftrightarrow> r \<noteq> None" "its_state w' = its_state w" "ps_state w' = ps_state w" "freed w' = freed w"
    "r \<noteq> None \<longrightarrow> r = contents s u \<and> live w' = live w + 1"
proof -
  obtain st1 n where i: "storage_get_info st u s = (st1, n)" by (cases "storage_get_info st u s")
  obtain st2 bs where g: "storage_get st u n s = (st2, bs)" by (cases "storage_get st u n s")
  have c: "contents s u = Some bs" if "st1 = PSA_SUCCESS" "st2 = PSA_SUCCESS"
  proof -
    from assms(1) i that(1) obtain xs where "contents s u = Some xs" "n = length xs"
      unfolding storage_spec_def by blast
    moreover from assms(1) g that(2) obtain ys where "contents s u = Some ys" "bs = take n ys"
      unfolding storage_spec_def by blast
    ultimately show ?thesis by simp
  qed
  consider "st1 \<noteq> PSA_SUCCESS" | "st1 = PSA_SUCCESS" "\<not> calloc (live w) n" | "st1 = PSA_SUCCESS" "calloc (live w) n" "st2 \<noteq> PSA_SUCCESS"
    | "st1 = PSA_SUCCESS" "calloc (live w) n" "st2 = PSA_SUCCESS" by blast
  then show ?thesis
  proof cases
    case 1
    then show ?thesis using that [of "mbedtls_psa_err_translate_pk st1" None w] i assms(2) by (simp add: read_object_def)
  next
    case 2
    then show ?thesis using that [of "MBEDTLS_ERR_PK_ALLOC_FAILED" None w] i assms(2) by (simp add: read_object_def)
  next
    case 3
    then show ?thesis
      using that [of "mbedtls_psa_err_translate_pk st2" None "w\<lparr>live := live w + 1\<rparr>"] i g assms(2) by (simp add: read_object_def)
  next
    case 4
    then show ?thesis using that [of MBEDTLS_OK "Some bs" "w\<lparr>live := live w + 1\<rparr>"] i g c assms(2) by (simp add: read_object_def)
  qed
qed

text \<open>When the service fails after the block was allocated, the block stays in use for ever.\<close>

lemma read_object_leaks:
  assumes "0 < u" "storage_get_info st u s = (PSA_SUCCESS, n)" "calloc (live w) n"
    "storage_get st u n s = (e, bs)" "e \<noteq> PSA_SUCCESS"
  shows "\<exists>err w'. read_object calloc st s u w = Some (err, None, w') \<and> live w' = live w + 1"
  using assms by (simp add: read_object_def)

end
