(* ===== verification/SigDer.thy ===== *)
theory SigDer
  imports Prelude
begin

text \<open>
  The signature transcoding of \<open>source/crypto/pki/psa_util.c\<close>: \<open>pk_ecdsa_sig_asn1_from_psa\<close> turns the raw
  signature of the PSA service, the two numbers \<open>r\<close> and \<open>s\<close> one after the other, into the ASN.1 structure
  TLS wants, inside the same buffer. The buffer is a list of bytes and a pointer into it a position.

  Of Mbed TLS it calls \<open>mbedtls_asn1_write_len\<close> and \<open>mbedtls_asn1_write_tag\<close>, which put bytes in front of the
  position when there is room above \<open>start\<close>: a tag is one byte, and \<open>asn1_len n\<close> stands for the bytes of
  the length \<open>n\<close>.
\<close>

datatype der_err = MBEDTLS_ERR_ASN1_BUF_TOO_SMALL | MBEDTLS_ERR_PLATFORM_HW_ACCEL_FAILED

text \<open>The two writers: the number of bytes, the new position and the buffer.\<close>

definition asn1_put :: "byte list \<Rightarrow> nat \<Rightarrow> nat \<Rightarrow> byte list \<Rightarrow> der_err + (nat \<times> nat \<times> byte list)" where
  "asn1_put xs p start buf =
     (if p - start < length xs then Inl MBEDTLS_ERR_ASN1_BUF_TOO_SMALL
      else Inr (length xs, p - length xs, overwrite (p - length xs) xs buf))"

abbreviation "MBEDTLS_ASN1_INTEGER \<equiv> (0x02 :: byte)"
abbreviation "ASN1_SEQUENCE_TAG \<equiv> (0x30 :: byte)"

text \<open>\<open>while( len > 0 && **p == 0x00 ) { ++( *p ); --len; }\<close>\<close>

fun skip_zeros :: "nat \<Rightarrow> nat \<Rightarrow> byte list \<Rightarrow> nat \<times> nat" where
  "skip_zeros p 0 buf = (p, 0)"
| "skip_zeros p (Suc len) buf = (if buf ! p = 0 then skip_zeros (Suc p) len buf else (p, Suc len))"

text \<open>One number. The result has the length written, the position and the buffer. Every access is between
  \<open>start\<close> and the first position, so inside the buffer.\<close>

definition asn1_write_mpibuf ::
  "(nat \<Rightarrow> byte list) \<Rightarrow> nat \<Rightarrow> nat \<Rightarrow> nat \<Rightarrow> byte list \<Rightarrow> der_err + (nat \<times> nat \<times> byte list)" where
  "asn1_write_mpibuf asn1_len p start n_len buf =
     (if p - start < n_len then Inl MBEDTLS_ERR_ASN1_BUF_TOO_SMALL
      else
        let p = p - n_len;
            buf = overwrite p (take n_len (drop start buf)) buf;
            (p, len) = skip_zeros p n_len buf
        in if len = 0 then Inl MBEDTLS_ERR_PLATFORM_HW_ACCEL_FAILED
           else if bit (buf ! p) 7 \<and> p - start < 1 then Inl MBEDTLS_ERR_ASN1_BUF_TOO_SMALL
           else
             let (p, len, buf) = (if bit (buf ! p) 7 then (p - 1, len + 1, buf[p - 1 := 0]) else (p, len, buf))
             in case asn1_put (asn1_len len) p start buf of
                  Inl e \<Rightarrow> Inl e
                | Inr (k, p, buf) \<Rightarrow>
                    (case asn1_put [MBEDTLS_ASN1_INTEGER] p start buf of
                       Inl e \<Rightarrow> Inl e
                     | Inr (k', p, buf) \<Rightarrow> Inr (len + k + k', p, buf)))"

text \<open>The buffer has \<open>buf_len\<close> bytes; the raw signature is its first \<open>sig_len\<close>. The result is the new length and the
  buffer.\<close>

definition pk_ecdsa_sig_asn1_from_psa :: "(nat \<Rightarrow> byte list) \<Rightarrow> nat \<Rightarrow> byte list \<Rightarrow> der_err + (nat \<times> byte list)" where
  "pk_ecdsa_sig_asn1_from_psa asn1_len sig_len sig =
     (let rs_len = sig_len div 2; p = length sig in
      case asn1_write_mpibuf asn1_len p rs_len rs_len sig of
        Inl e \<Rightarrow> Inl e
      | Inr (l1, p, sig) \<Rightarrow>
          (case asn1_write_mpibuf asn1_len p 0 rs_len sig of
             Inl e \<Rightarrow> Inl e
           | Inr (l2, p, sig) \<Rightarrow>
               (case asn1_put (asn1_len (l1 + l2)) p 0 sig of
                  Inl e \<Rightarrow> Inl e
                | Inr (l3, p, sig) \<Rightarrow>
                    (case asn1_put [ASN1_SEQUENCE_TAG] p 0 sig of
                       Inl e \<Rightarrow> Inl e
                     | Inr (l4, p, sig) \<Rightarrow>
                         let len = l1 + l2 + l3 + l4
                         in Inr (len, overwrite 0 (take len (drop p sig)) sig)))))"

subsection \<open>The encoding\<close>

text \<open>DER: a number without leading zeros, with a zero in front when its first bit is set.\<close>

definition der_body :: "byte list \<Rightarrow> byte list" where
  "der_body xs = (let t = dropWhile (\<lambda>b. b = 0) xs in if bit (hd t) 7 then 0 # t else t)"

definition der_int :: "(nat \<Rightarrow> byte list) \<Rightarrow> byte list \<Rightarrow> byte list" where
  "der_int asn1_len xs = MBEDTLS_ASN1_INTEGER # asn1_len (length (der_body xs)) @ der_body xs"

definition der_sig :: "(nat \<Rightarrow> byte list) \<Rightarrow> byte list \<Rightarrow> byte list \<Rightarrow> byte list" where
  "der_sig asn1_len r s =
     (let body = der_int asn1_len r @ der_int asn1_len s in ASN1_SEQUENCE_TAG # asn1_len (length body) @ body)"

lemma asn1_put_ok:
  assumes "start + length xs \<le> p" "p \<le> length buf"
  obtains buf' where "asn1_put xs p start buf = Inr (length xs, p - length xs, buf')" "length buf' = length buf"
    "drop (p - length xs) buf' = xs @ drop p buf" "take start buf' = take start buf"
proof -
  let ?b = "overwrite (p - length xs) xs buf"
  have "asn1_put xs p start buf = Inr (length xs, p - length xs, ?b)" using assms by (simp add: asn1_put_def)
  moreover have "drop (p - length xs) ?b = xs @ drop p buf" "take start ?b = take start buf"
    using assms by (simp_all add: overwrite_def)
  ultimately show ?thesis using that assms by simp
qed

lemma skip_zeros_dropWhile:
  assumes "p + len \<le> length buf"
  shows "\<exists>p'. skip_zeros p len buf = (p', length (dropWhile (\<lambda>b. b = 0) (take len (drop p buf)))) \<and>
    p' + length (dropWhile (\<lambda>b. b = 0) (take len (drop p buf))) = p + len \<and>
    drop p' buf = dropWhile (\<lambda>b. b = 0) (take len (drop p buf)) @ drop (p + len) buf"
  using assms
proof (induction len arbitrary: p)
  case (Suc len)
  have d: "drop p buf = buf ! p # drop (Suc p) buf" using Suc.prems by (simp add: Cons_nth_drop_Suc)
  show ?case
  proof (cases "buf ! p = 0")
    case True
    then show ?thesis using Suc.IH [of "Suc p"] Suc.prems d by simp
  next
    case False
    have "drop p buf = take (Suc len) (drop p buf) @ drop (Suc len + p) buf" by (metis append_take_drop_id drop_drop)
    then show ?thesis using False Suc.prems d by (simp add: add.commute)
  qed
qed simp

lemma mpibuf_move:
  assumes "start + n \<le> p" "p \<le> length buf" "xs = take n (drop start buf)"
  shows "drop (p - n) (overwrite (p - n) xs buf) = xs @ drop p buf"
    "take start (overwrite (p - n) xs buf) = take start buf"
    "length (overwrite (p - n) xs buf) = length buf" "length xs = n"
proof -
  show len: "length xs = n" using assms by simp
  show "drop (p - n) (overwrite (p - n) xs buf) = xs @ drop p buf"
    "take start (overwrite (p - n) xs buf) = take start buf" "length (overwrite (p - n) xs buf) = length buf"
    using assms(1,2) len by (simp_all add: overwrite_def)
qed

text \<open>A tag and a length in front of what is there.\<close>

lemma put_header:
  assumes "start + 1 + length L \<le> p" "p \<le> length buf"
  obtains b1 b2 where "asn1_put L p start buf = Inr (length L, p - length L, b1)"
    "asn1_put [tag] (p - length L) start b1 = Inr (1, p - (1 + length L), b2)" "length b2 = length buf"
    "drop (p - (1 + length L)) b2 = tag # L @ drop p buf" "take start b2 = take start buf"
proof -
  obtain b1 where b1: "asn1_put L p start buf = Inr (length L, p - length L, b1)" "length b1 = length buf"
    "drop (p - length L) b1 = L @ drop p buf" "take start b1 = take start buf"
    using assms by (rule_tac asn1_put_ok [of start L p buf]) auto
  obtain b2 where "asn1_put [tag] (p - length L) start b1 = Inr (1, p - length L - 1, b2)" "length b2 = length b1"
    "drop (p - length L - 1) b2 = [tag] @ drop (p - length L) b1" "take start b2 = take start b1"
    using assms b1(2) by (rule_tac asn1_put_ok [of start "[tag]" "p - length L" b1]) auto
  then show ?thesis using that b1 by (simp add: diff_diff_eq add.commute)
qed

text \<open>The digits of the number, with the sign byte, end where the number was moved to.\<close>

lemma mpibuf_body:
  assumes xs: "xs = take n (drop start buf)" "dropWhile (\<lambda>b. b = 0) xs \<noteq> []"
    and room: "start + n \<le> p" "p \<le> length buf" "start + length (der_body xs) \<le> p"
  obtains q b1 b2 where "b1 = overwrite (p - n) xs buf"
    "skip_zeros (p - n) n b1 = (q, length (dropWhile (\<lambda>b. b = 0) xs))" "b1 ! q = hd (dropWhile (\<lambda>b. b = 0) xs)"
    "b2 = (if bit (b1 ! q) 7 then b1[q - 1 := 0] else b1)" "bit (b1 ! q) 7 \<longrightarrow> start < q"
    "q - (if bit (b1 ! q) 7 then 1 else 0) = p - length (der_body xs)"
    "length b2 = length buf" "take start b2 = take start buf" "drop (p - length (der_body xs)) b2 = der_body xs @ drop p buf"
proof -
  let ?t = "dropWhile (\<lambda>b. b = 0) xs"
  let ?b1 = "overwrite (p - n) xs buf"
  note b1 = mpibuf_move [OF room(1,2) xs(1)]
  have "take n (drop (p - n) ?b1) = xs" unfolding b1(1) using b1(4) by simp
  moreover have "drop (p - n + n) ?b1 = drop n (drop (p - n) ?b1)" by (simp add: add.commute)
  then have "drop (p - n + n) ?b1 = drop p buf" unfolding b1(1) using b1(4) by simp
  ultimately obtain q where q: "skip_zeros (p - n) n ?b1 = (q, length ?t)" "q + length ?t = p" "drop q ?b1 = ?t @ drop p buf"
    using skip_zeros_dropWhile [of "p - n" n ?b1] room b1(3) by auto
  have "q < length ?b1" using q(2) xs(2) room(2) b1(3) by (cases ?t) auto
  then have hd: "?b1 ! q = hd ?t" using q(3) xs(2) by (metis hd_append2 hd_drop_conv_nth)
  have body: "length (der_body xs) = length ?t + (if bit (hd ?t) 7 then 1 else 0)"
    "der_body xs = (if bit (hd ?t) 7 then [0] else []) @ ?t" by (simp_all add: der_body_def Let_def)
  have pos: "q - (if bit (hd ?t) 7 then 1 else 0) = p - length (der_body xs)" "bit (hd ?t) 7 \<longrightarrow> start < q"
    using q(2) room(3) body(1) by auto
  let ?b2 = "if bit (hd ?t) 7 then ?b1[q - 1 := 0] else ?b1"
  have "take start ?b2 = take start buf" using b1(2) pos(2) by auto
  moreover have "drop (p - length (der_body xs)) ?b2 = der_body xs @ drop p buf"
  proof (cases "bit (hd ?t) 7")
    case True
    then have "Suc (q - 1) = q" using pos(2) by simp
    then have "drop (q - 1) (?b1[q - 1 := 0]) = 0 # drop q ?b1"
      using \<open>q < length ?b1\<close> by (metis Cons_nth_drop_Suc drop_update_cancel length_list_update less_imp_diff_less lessI nth_list_update_eq)
    then show ?thesis using True pos(1) q(3) body(2) by simp
  next
    case False
    then show ?thesis using pos(1) q(3) body(2) by simp
  qed
  ultimately show ?thesis using q(1) hd pos b1(3) by (intro that [of ?b1 q ?b2]) simp_all
qed

lemma length_der_number:
  "length (der_int asn1_len xs) = length (der_body xs) + (1 + length (asn1_len (length (der_body xs))))"
  by (simp add: der_int_def)

lemma asn1_write_mpibuf_ok:
  assumes xs: "xs = take n (drop start buf)" "dropWhile (\<lambda>b. b = 0) xs \<noteq> []"
    and D: "D = length (der_int asn1_len xs)"
    and room: "start + n \<le> p" "p \<le> length buf" "start + D \<le> p"
  obtains buf' where "asn1_write_mpibuf asn1_len p start n buf = Inr (D, p - D, buf')" "length buf' = length buf"
    "drop (p - D) buf' = der_int asn1_len xs @ drop p buf" "take start buf' = take start buf"
proof -
  let ?k = "length (der_body xs)" and ?L = "asn1_len (length (der_body xs))"
  have D': "D = ?k + (1 + length ?L)" using D by (simp add: length_der_number)
  obtain q b1 b2 where b: "b1 = overwrite (p - n) xs buf"
    "skip_zeros (p - n) n b1 = (q, length (dropWhile (\<lambda>b. b = 0) xs))" "b1 ! q = hd (dropWhile (\<lambda>b. b = 0) xs)"
    "b2 = (if bit (b1 ! q) 7 then b1[q - 1 := 0] else b1)" "bit (b1 ! q) 7 \<longrightarrow> start < q"
    "q - (if bit (b1 ! q) 7 then 1 else 0) = p - ?k"
    "length b2 = length buf" "take start b2 = take start buf" "drop (p - ?k) b2 = der_body xs @ drop p buf"
    using xs room(1,2) by (rule mpibuf_body) (use room(3) D' in simp)
  obtain b3 b4 where h: "asn1_put ?L (p - ?k) start b2 = Inr (length ?L, p - ?k - length ?L, b3)"
    "asn1_put [MBEDTLS_ASN1_INTEGER] (p - ?k - length ?L) start b3 = Inr (1, p - ?k - (1 + length ?L), b4)"
    "length b4 = length b2" "drop (p - ?k - (1 + length ?L)) b4 = MBEDTLS_ASN1_INTEGER # ?L @ drop (p - ?k) b2"
    "take start b4 = take start b2"
    using room D' b(7) by (rule_tac put_header [of start ?L "p - ?k" b2 MBEDTLS_ASN1_INTEGER]) auto
  have k: "?k = length (dropWhile (\<lambda>b. b = 0) xs) + (if bit (b1 ! q) 7 then 1 else 0)"
    by (simp add: b(3) der_body_def Let_def)
  have "asn1_write_mpibuf asn1_len p start n buf = Inr (D, p - D, b4)"
  proof -
    have pos: "length (dropWhile (\<lambda>b. b = 0) xs) > 0" using xs(2) by simp
    have w: "overwrite (p - n) (take n (drop start buf)) buf = b1" using b(1) xs(1) by simp
    show ?thesis
    proof (cases "bit (b1 ! q) 7")
      case True
      then have b2: "b2 = b1[q - 1 := 0]" "start < q" "q - 1 = p - ?k" "?k = length (dropWhile (\<lambda>b. b = 0) xs) + 1" using b(4-6) k by simp_all
      then have "\<not> q - start < 1" "p - D = q - 1 - (1 + length ?L)" "\<not> p - start < n" using room(1) D' by simp_all
      then show ?thesis using pos True h(1,2)[folded b2(3), unfolded b2(1,4)]
        by (simp add: asn1_write_mpibuf_def w b(2) D'[unfolded b2(4)] b2(4))
    next
      case False
      then have b2: "b2 = b1" "q = p - ?k" "?k = length (dropWhile (\<lambda>b. b = 0) xs)" using b(4,6) k by simp_all
      then have "p - D = q - (1 + length ?L)" "\<not> p - start < n" using room(1) D' by simp_all
      then show ?thesis using pos False h(1,2)[folded b2(2), unfolded b2(1,3)]
        by (simp add: asn1_write_mpibuf_def w b(2) D'[unfolded b2(3)] b2(3))
    qed
  qed
  moreover have "drop (p - D) b4 = der_int asn1_len xs @ drop p buf"
    using h(4) b(9) by (simp add: D' der_int_def diff_diff_eq)
  ultimately show ?thesis using that h(3,5) b(7,8) by simp
qed

text \<open>A number that is zero is refused.\<close>

lemma asn1_write_mpibuf_zero:
  assumes "xs = take n (drop start buf)" "dropWhile (\<lambda>b. b = 0) xs = []" "start + n \<le> p" "p \<le> length buf"
  shows "asn1_write_mpibuf asn1_len p start n buf = Inl MBEDTLS_ERR_PLATFORM_HW_ACCEL_FAILED"
proof -
  let ?b1 = "overwrite (p - n) xs buf"
  note b1 = mpibuf_move [OF assms(3,4,1)]
  have "take n (drop (p - n) ?b1) = xs" unfolding b1(1) using b1(4) by simp
  then obtain q where "skip_zeros (p - n) n ?b1 = (q, 0)"
    using skip_zeros_dropWhile [of "p - n" n ?b1] assms b1(3) by auto
  then show ?thesis using assms(1,3) by (simp add: asn1_write_mpibuf_def Let_def)
qed

subsection \<open>Properties\<close>

text \<open>
  Transcoding a signature in place gives its DER encoding: when the buffer is large enough for the
  result, and for the first number next to the second one encoded, and neither number is zero, the buffer
  starts with the ASN.1 sequence of the two integers in shortest form, although the pieces are moved
  over each other inside the one buffer. A zero number is reported as a hardware failure.
\<close>

lemma sig_der_in_place:
  assumes "sig = r @ s @ rest" "length r = n" "length s = n"
    and room: "n + length (der_int asn1_len s) \<le> length sig" "length (der_sig asn1_len r s) \<le> length sig"
  shows "case pk_ecdsa_sig_asn1_from_psa asn1_len (2 * n) sig of
      Inr (len, sig') \<Rightarrow> take len sig' = der_sig asn1_len r s \<and> length sig' = length sig \<and>
        dropWhile (\<lambda>b. b = 0) r \<noteq> [] \<and> dropWhile (\<lambda>b. b = 0) s \<noteq> []
    | Inl e \<Rightarrow> e = MBEDTLS_ERR_PLATFORM_HW_ACCEL_FAILED \<and>
        (dropWhile (\<lambda>b. b = 0) r = [] \<or> dropWhile (\<lambda>b. b = 0) s = [])"
proof -
  let ?b = "length sig" and ?Dr = "length (der_int asn1_len r)" and ?Ds = "length (der_int asn1_len s)"
  let ?L = "asn1_len (?Dr + ?Ds)"
  have s: "s = take n (drop n sig)" and n2: "n + n \<le> ?b" using assms(1-3) by simp_all
  have total: "length (der_sig asn1_len r s) = (?Dr + ?Ds) + (1 + length ?L)" by (simp add: der_sig_def Let_def)
  show ?thesis
  proof (cases "dropWhile (\<lambda>b. b = 0) s = []")
    case True
    then show ?thesis using asn1_write_mpibuf_zero [OF s True n2 order_refl, of asn1_len]
      by (simp add: pk_ecdsa_sig_asn1_from_psa_def Let_def)
  next
    case s0: False
    obtain b1 where b1: "asn1_write_mpibuf asn1_len ?b n n sig = Inr (?Ds, ?b - ?Ds, b1)" "length b1 = ?b"
      "drop (?b - ?Ds) b1 = der_int asn1_len s @ drop ?b sig" "take n b1 = take n sig"
      using s s0 refl n2 order_refl room(1) by (rule asn1_write_mpibuf_ok)
    have r: "r = take n (drop 0 b1)" using b1(4) assms(1,2) by simp
    show ?thesis
    proof (cases "dropWhile (\<lambda>b. b = 0) r = []")
      case True
      then show ?thesis
        using asn1_write_mpibuf_zero [OF r True, of "?b - ?Ds" asn1_len] room(1) b1 by (simp add: pk_ecdsa_sig_asn1_from_psa_def Let_def)
    next
      case r0: False
      obtain b2 where b2: "asn1_write_mpibuf asn1_len (?b - ?Ds) 0 n b1 = Inr (?Dr, ?b - ?Ds - ?Dr, b2)" "length b2 = ?b"
        "drop (?b - ?Ds - ?Dr) b2 = der_int asn1_len r @ drop (?b - ?Ds) b1"
        using r r0 refl by (rule asn1_write_mpibuf_ok [of r n 0 b1 ?Dr asn1_len "?b - ?Ds"]) (use room b1(2) total in auto)
      let ?p = "?b - ?Ds - ?Dr"
      obtain b3 b4 where h: "asn1_put ?L ?p 0 b2 = Inr (length ?L, ?p - length ?L, b3)"
        "asn1_put [ASN1_SEQUENCE_TAG] (?p - length ?L) 0 b3 = Inr (1, ?p - (1 + length ?L), b4)" "length b4 = length b2"
        "drop (?p - (1 + length ?L)) b4 = ASN1_SEQUENCE_TAG # ?L @ drop ?p b2"
        using room(2) total b2(2) by (rule_tac put_header [of 0 ?L ?p b2 ASN1_SEQUENCE_TAG]) auto
      have "drop (?p - (1 + length ?L)) b4 = der_sig asn1_len r s"
        using h(4) b2(3) b1(3) by (simp add: der_sig_def Let_def)
      moreover have "pk_ecdsa_sig_asn1_from_psa asn1_len (2 * n) sig =
          Inr (?Ds + ?Dr + length ?L + 1, overwrite 0 (take (?Ds + ?Dr + length ?L + 1) (drop (?p - (1 + length ?L)) b4)) b4)"
        using b1(1) b2(1) h(1,2) by (simp add: pk_ecdsa_sig_asn1_from_psa_def Let_def add.commute)
      ultimately show ?thesis using room(2) total b2(2) h(3) r0 s0 by (simp add: add.commute add.left_commute)
    qed
  qed
qed

end
