(* ===== verification/PsaKeys.thy ===== *)
theory PsaKeys
  imports PsaStore SigDer
begin

text \<open>
  Keys in the slots of the PSA crypto service: the key functions of \<open>source/crypto/pki/PkiObjectPsa.c\<close> and
  \<open>mbedtls_pk_psa.c\<close>, and the tables of \<open>psa_util.c\<close>. The service keeps its keys in the internal trusted storage, so its
  functions act on the state of that storage; they and the parsers of Mbed TLS are records. The numbers of the errors are those
  of Mbed TLS 3.2.1.
\<close>

subsection \<open>Errors\<close>

abbreviation (input) PSA_ERROR_GENERIC_ERROR :: psa_status where "PSA_ERROR_GENERIC_ERROR \<equiv> PSA_ERROR_OTHER 132"
abbreviation (input) PSA_ERROR_NOT_PERMITTED :: psa_status where "PSA_ERROR_NOT_PERMITTED \<equiv> PSA_ERROR_OTHER 133"
abbreviation (input) PSA_ERROR_BUFFER_TOO_SMALL :: psa_status where "PSA_ERROR_BUFFER_TOO_SMALL \<equiv> PSA_ERROR_OTHER 138"
abbreviation (input) PSA_ERROR_STORAGE_FAILURE :: psa_status where "PSA_ERROR_STORAGE_FAILURE \<equiv> PSA_ERROR_OTHER 146"
abbreviation (input) PSA_ERROR_INVALID_SIGNATURE :: psa_status where "PSA_ERROR_INVALID_SIGNATURE \<equiv> PSA_ERROR_OTHER 149"
abbreviation (input) PSA_ERROR_INVALID_PADDING :: psa_status where "PSA_ERROR_INVALID_PADDING \<equiv> PSA_ERROR_OTHER 150"

text \<open>The cases of the \<open>switch\<close>, by groups as in the source.\<close>

definition psa_error_table :: "(int \<times> psa_status) list" where
  "psa_error_table =
     [(0, PSA_SUCCESS),
      (-0x20, PSA_ERROR_NOT_SUPPORTED), (-0x22, PSA_ERROR_NOT_SUPPORTED),
      (-0x60, PSA_ERROR_INVALID_ARGUMENT), (-0x62, PSA_ERROR_INVALID_ARGUMENT), (-0x64, PSA_ERROR_INVALID_ARGUMENT),
      (-0x66, PSA_ERROR_INVALID_ARGUMENT), (-0x68, PSA_ERROR_INVALID_ARGUMENT), (-0x6A, PSA_ERROR_INSUFFICIENT_MEMORY),
      (-0x6C, PSA_ERROR_BUFFER_TOO_SMALL),
      (-0x6080, PSA_ERROR_NOT_SUPPORTED), (-0x6100, PSA_ERROR_INVALID_ARGUMENT), (-0x6180, PSA_ERROR_INSUFFICIENT_MEMORY),
      (-0x6200, PSA_ERROR_INVALID_PADDING), (-0x6280, PSA_ERROR_INVALID_ARGUMENT), (-0x6300, PSA_ERROR_INVALID_SIGNATURE),
      (-0x6380, PSA_ERROR_CORRUPTION_DETECTED),
      (-0x34, PSA_ERROR_INSUFFICIENT_ENTROPY), (-0x36, PSA_ERROR_NOT_SUPPORTED), (-0x38, PSA_ERROR_NOT_SUPPORTED),
      (-0x3A, PSA_ERROR_INSUFFICIENT_ENTROPY),
      (-0x40, PSA_ERROR_INSUFFICIENT_ENTROPY), (-0x3D, PSA_ERROR_INSUFFICIENT_ENTROPY), (-0x3C, PSA_ERROR_INSUFFICIENT_ENTROPY),
      (-0x5080, PSA_ERROR_NOT_SUPPORTED), (-0x5100, PSA_ERROR_INVALID_ARGUMENT), (-0x5180, PSA_ERROR_INSUFFICIENT_MEMORY),
      (-0x5200, PSA_ERROR_STORAGE_FAILURE),
      (-0x02, PSA_ERROR_STORAGE_FAILURE), (-0x04, PSA_ERROR_INVALID_ARGUMENT), (-0x06, PSA_ERROR_INVALID_ARGUMENT),
      (-0x08, PSA_ERROR_BUFFER_TOO_SMALL), (-0x0A, PSA_ERROR_INVALID_ARGUMENT), (-0x0C, PSA_ERROR_INVALID_ARGUMENT),
      (-0x0E, PSA_ERROR_INVALID_ARGUMENT), (-0x10, PSA_ERROR_INSUFFICIENT_MEMORY),
      (-0x3F80, PSA_ERROR_INSUFFICIENT_MEMORY), (-0x3F00, PSA_ERROR_INVALID_ARGUMENT), (-0x3E80, PSA_ERROR_INVALID_ARGUMENT),
      (-0x3E00, PSA_ERROR_STORAGE_FAILURE), (-0x3D80, PSA_ERROR_INVALID_ARGUMENT), (-0x3D00, PSA_ERROR_INVALID_ARGUMENT),
      (-0x3C80, PSA_ERROR_NOT_SUPPORTED), (-0x3C00, PSA_ERROR_NOT_PERMITTED), (-0x3B80, PSA_ERROR_NOT_PERMITTED),
      (-0x3B00, PSA_ERROR_INVALID_ARGUMENT), (-0x3A80, PSA_ERROR_NOT_SUPPORTED), (-0x3A00, PSA_ERROR_NOT_SUPPORTED),
      (-0x3980, PSA_ERROR_NOT_SUPPORTED), (-0x3900, PSA_ERROR_INVALID_SIGNATURE), (-0x3880, PSA_ERROR_BUFFER_TOO_SMALL),
      (-0x70, PSA_ERROR_HARDWARE_FAILURE), (-0x72, PSA_ERROR_NOT_SUPPORTED),
      (-0x4080, PSA_ERROR_INVALID_ARGUMENT), (-0x4100, PSA_ERROR_INVALID_PADDING), (-0x4180, PSA_ERROR_HARDWARE_FAILURE),
      (-0x4200, PSA_ERROR_INVALID_ARGUMENT), (-0x4280, PSA_ERROR_CORRUPTION_DETECTED), (-0x4300, PSA_ERROR_CORRUPTION_DETECTED),
      (-0x4380, PSA_ERROR_INVALID_SIGNATURE), (-0x4400, PSA_ERROR_BUFFER_TOO_SMALL), (-0x4480, PSA_ERROR_INSUFFICIENT_ENTROPY),
      (-0x4F80, PSA_ERROR_INVALID_ARGUMENT), (-0x4C80, PSA_ERROR_INVALID_ARGUMENT), (-0x4F00, PSA_ERROR_BUFFER_TOO_SMALL),
      (-0x4E80, PSA_ERROR_NOT_SUPPORTED), (-0x4C00, PSA_ERROR_INVALID_SIGNATURE), (-0x4E00, PSA_ERROR_INVALID_SIGNATURE),
      (-0x4D80, PSA_ERROR_INSUFFICIENT_MEMORY), (-0x4D00, PSA_ERROR_INSUFFICIENT_ENTROPY), (-0x6E, PSA_ERROR_CORRUPTION_DETECTED)]"

text \<open>The low seven bits of \<open>-ret\<close> are the low-level error, also when \<open>ret\<close> is positive.\<close>

definition mbedtls_to_psa_error :: "int \<Rightarrow> psa_status" where
  "mbedtls_to_psa_error ret =
     (let low_level_ret = - ((- ret) mod 128) in
      case map_of psa_error_table (if low_level_ret \<noteq> 0 then low_level_ret else ret) of
        Some st \<Rightarrow> st
      | None \<Rightarrow> if ret < 0 then PSA_ERROR_GENERIC_ERROR else PSA_SUCCESS)"

subsection \<open>Curves and algorithms\<close>

datatype psa_ecc_family = PSA_ECC_FAMILY_SECP_R1 | PSA_ECC_FAMILY_SECP_K1 | PSA_ECC_FAMILY_BRAINPOOL_P_R1
  | PSA_ECC_FAMILY_MONTGOMERY | PSA_ECC_FAMILY_OTHER nat

datatype mbedtls_ecp_group_id = MBEDTLS_ECP_DP_NONE | MBEDTLS_ECP_DP_SECP192R1 | MBEDTLS_ECP_DP_SECP224R1
  | MBEDTLS_ECP_DP_SECP256R1 | MBEDTLS_ECP_DP_SECP384R1 | MBEDTLS_ECP_DP_SECP521R1 | MBEDTLS_ECP_DP_BP256R1
  | MBEDTLS_ECP_DP_BP384R1 | MBEDTLS_ECP_DP_BP512R1 | MBEDTLS_ECP_DP_CURVE25519 | MBEDTLS_ECP_DP_CURVE448
  | MBEDTLS_ECP_DP_SECP192K1 | MBEDTLS_ECP_DP_SECP224K1 | MBEDTLS_ECP_DP_SECP256K1

text \<open>The object identifiers of the curves this build has: the three of the NIST.\<close>

definition mbedtls_psa_get_ecc_oid_from_id :: "psa_ecc_family \<Rightarrow> nat \<Rightarrow> byte list option" where
  "mbedtls_psa_get_ecc_oid_from_id curve bits =
     (if curve = PSA_ECC_FAMILY_SECP_R1
      then (if bits = 256 then Some [0x2A, 0x86, 0x48, 0xCE, 0x3D, 0x03, 0x01, 0x07]
            else if bits = 384 then Some [0x2B, 0x81, 0x04, 0x00, 0x22]
            else if bits = 521 then Some [0x2B, 0x81, 0x04, 0x00, 0x23] else None)
      else None)"

definition xMbedtlsEccGroupIdFromPsaFamily :: "psa_ecc_family \<Rightarrow> nat \<Rightarrow> mbedtls_ecp_group_id" where
  "xMbedtlsEccGroupIdFromPsaFamily curve bits =
     (case curve of
        PSA_ECC_FAMILY_SECP_R1 \<Rightarrow>
          if bits = 192 then MBEDTLS_ECP_DP_SECP192R1 else if bits = 224 then MBEDTLS_ECP_DP_SECP224R1
          else if bits = 256 then MBEDTLS_ECP_DP_SECP256R1 else if bits = 384 then MBEDTLS_ECP_DP_SECP384R1
          else if bits = 521 \<or> bits = 528 then MBEDTLS_ECP_DP_SECP521R1 else MBEDTLS_ECP_DP_NONE
      | PSA_ECC_FAMILY_BRAINPOOL_P_R1 \<Rightarrow>
          if bits = 256 then MBEDTLS_ECP_DP_BP256R1 else if bits = 384 then MBEDTLS_ECP_DP_BP384R1
          else if bits = 512 then MBEDTLS_ECP_DP_BP512R1 else MBEDTLS_ECP_DP_NONE
      | PSA_ECC_FAMILY_MONTGOMERY \<Rightarrow>
          if bits = 255 \<or> bits = 256 then MBEDTLS_ECP_DP_CURVE25519 else if bits = 448 then MBEDTLS_ECP_DP_CURVE448
          else MBEDTLS_ECP_DP_NONE
      | PSA_ECC_FAMILY_SECP_K1 \<Rightarrow>
          if bits = 192 then MBEDTLS_ECP_DP_SECP192K1 else if bits = 224 then MBEDTLS_ECP_DP_SECP224K1
          else if bits = 256 then MBEDTLS_ECP_DP_SECP256K1 else MBEDTLS_ECP_DP_NONE
      | PSA_ECC_FAMILY_OTHER n \<Rightarrow> MBEDTLS_ECP_DP_NONE)"

definition xPsaFamilyFromMbedtlsEccGroupId :: "mbedtls_ecp_group_id \<Rightarrow> psa_ecc_family" where
  "xPsaFamilyFromMbedtlsEccGroupId xGroupId =
     (if xGroupId \<in> {MBEDTLS_ECP_DP_SECP192R1, MBEDTLS_ECP_DP_SECP224R1, MBEDTLS_ECP_DP_SECP256R1, MBEDTLS_ECP_DP_SECP384R1,
          MBEDTLS_ECP_DP_SECP521R1} then PSA_ECC_FAMILY_SECP_R1
      else if xGroupId \<in> {MBEDTLS_ECP_DP_BP256R1, MBEDTLS_ECP_DP_BP384R1, MBEDTLS_ECP_DP_BP512R1} then PSA_ECC_FAMILY_BRAINPOOL_P_R1
      else if xGroupId \<in> {MBEDTLS_ECP_DP_CURVE25519, MBEDTLS_ECP_DP_CURVE448} then PSA_ECC_FAMILY_MONTGOMERY
      else if xGroupId \<in> {MBEDTLS_ECP_DP_SECP192K1, MBEDTLS_ECP_DP_SECP224K1, MBEDTLS_ECP_DP_SECP256K1} then PSA_ECC_FAMILY_SECP_K1
      else PSA_ECC_FAMILY_OTHER 0)"

subsection \<open>The service\<close>

datatype psa_key_type = KEY_PAIR_ECC psa_ecc_family | PUBLIC_KEY_ECC psa_ecc_family | KEY_PAIR_RSA | PUBLIC_KEY_RSA
  | RAW_DATA | UNSTRUCTURED_KEY nat | OTHER_KEY nat

fun PSA_KEY_TYPE_IS_ECC :: "psa_key_type \<Rightarrow> bool" where
  "PSA_KEY_TYPE_IS_ECC (KEY_PAIR_ECC f) = True" | "PSA_KEY_TYPE_IS_ECC (PUBLIC_KEY_ECC f) = True" | "PSA_KEY_TYPE_IS_ECC _ = False"
fun PSA_KEY_TYPE_IS_RSA :: "psa_key_type \<Rightarrow> bool" where
  "PSA_KEY_TYPE_IS_RSA KEY_PAIR_RSA = True" | "PSA_KEY_TYPE_IS_RSA PUBLIC_KEY_RSA = True" | "PSA_KEY_TYPE_IS_RSA _ = False"
fun PSA_KEY_TYPE_IS_PUBLIC_KEY :: "psa_key_type \<Rightarrow> bool" where
  "PSA_KEY_TYPE_IS_PUBLIC_KEY (PUBLIC_KEY_ECC f) = True" | "PSA_KEY_TYPE_IS_PUBLIC_KEY PUBLIC_KEY_RSA = True"
| "PSA_KEY_TYPE_IS_PUBLIC_KEY _ = False"
fun PSA_KEY_TYPE_IS_KEY_PAIR :: "psa_key_type \<Rightarrow> bool" where
  "PSA_KEY_TYPE_IS_KEY_PAIR (KEY_PAIR_ECC f) = True" | "PSA_KEY_TYPE_IS_KEY_PAIR KEY_PAIR_RSA = True"
| "PSA_KEY_TYPE_IS_KEY_PAIR _ = False"
fun PSA_KEY_TYPE_IS_UNSTRUCTURED :: "psa_key_type \<Rightarrow> bool" where
  "PSA_KEY_TYPE_IS_UNSTRUCTURED RAW_DATA = True" | "PSA_KEY_TYPE_IS_UNSTRUCTURED (UNSTRUCTURED_KEY n) = True"
| "PSA_KEY_TYPE_IS_UNSTRUCTURED _ = False"
fun PSA_KEY_TYPE_ECC_GET_FAMILY :: "psa_key_type \<Rightarrow> psa_ecc_family" where
  "PSA_KEY_TYPE_ECC_GET_FAMILY (KEY_PAIR_ECC f) = f" | "PSA_KEY_TYPE_ECC_GET_FAMILY (PUBLIC_KEY_ECC f) = f"
| "PSA_KEY_TYPE_ECC_GET_FAMILY _ = PSA_ECC_FAMILY_OTHER 0"

datatype psa_usage = USAGE_EXPORT | USAGE_COPY | USAGE_SIGN_HASH | USAGE_VERIFY_HASH | USAGE_SIGN_MESSAGE | USAGE_VERIFY_MESSAGE
  | USAGE_DERIVE | USAGE_VERIFY_DERIVATION | USAGE_ENCRYPT | USAGE_DECRYPT

datatype mbedtls_md_type = MD_NONE | MD_MD5 | MD_SHA1 | MD_SHA224 | MD_SHA256 | MD_SHA384 | MD_SHA512 | MD_RIPEMD160
datatype psa_hash = NO_HASH | ALG_MD5 | ALG_SHA_1 | ALG_SHA_224 | ALG_SHA_256 | ALG_SHA_384 | ALG_SHA_512 | ALG_RIPEMD160 | ANY_HASH
datatype psa_algorithm = NO_ALG | PSA_ALG_ECDSA psa_hash

text \<open>The attributes of a key; all keys here are persistent and in the local storage.\<close>

record psa_key_attributes =
  attr_id :: nat
  attr_type :: psa_key_type
  attr_bits :: nat
  attr_usage :: "psa_usage set"
  attr_alg :: psa_algorithm

text \<open>The writers of Mbed TLS put bytes in front of a position of a buffer, which are the state here, and return their number or an
  error. \<open>asn1_length\<close> gives the bytes of a length.\<close>

type_synonym der_state = "nat \<times> byte list"

record 's psa_keys =
  psa_get_key_attributes :: "nat \<Rightarrow> 's \<Rightarrow> psa_status \<times> psa_key_attributes"
  psa_export_key :: "nat \<Rightarrow> nat \<Rightarrow> 's \<Rightarrow> psa_status \<times> byte list"
  psa_export_public_key :: "nat \<Rightarrow> nat \<Rightarrow> 's \<Rightarrow> psa_status \<times> byte list"
  psa_import_key :: "psa_key_attributes \<Rightarrow> byte list \<Rightarrow> 's \<Rightarrow> psa_status \<times> 's"
  psa_generate_key :: "psa_key_attributes \<Rightarrow> 's \<Rightarrow> psa_status \<times> 's"
  psa_destroy_key :: "nat \<Rightarrow> 's \<Rightarrow> psa_status \<times> 's"
  psa_sign_hash :: "nat \<Rightarrow> psa_algorithm \<Rightarrow> byte list \<Rightarrow> nat \<Rightarrow> 's \<Rightarrow> psa_status \<times> byte list"
  PSA_EXPORT_KEY_OUTPUT_SIZE :: "psa_key_type \<Rightarrow> nat \<Rightarrow> nat"
  PSA_EXPORT_PUBLIC_KEY_OUTPUT_SIZE :: "psa_key_type \<Rightarrow> nat \<Rightarrow> nat"
  PSA_SIGNATURE_MAX_SIZE :: nat
  MBEDTLS_ECP_MAX_BYTES :: nat
  MBEDTLS_MPI_MAX_SIZE :: nat
  oid_ec_key :: "byte list option"
  oid_rsa :: "byte list option"
  asn1_length :: "nat \<Rightarrow> byte list"
  mbedtls_asn1_write_oid :: "byte list \<Rightarrow> der_state \<Rightarrow> int + (nat \<times> der_state)"
  mbedtls_asn1_write_algorithm_identifier :: "byte list \<Rightarrow> nat \<Rightarrow> der_state \<Rightarrow> int + (nat \<times> der_state)"

text \<open>The digests this build has.\<close>

definition mbedtls_psa_translate_md :: "mbedtls_md_type \<Rightarrow> psa_hash" where
  "mbedtls_psa_translate_md md_alg =
     (case md_alg of MD_MD5 \<Rightarrow> ALG_MD5 | MD_SHA1 \<Rightarrow> ALG_SHA_1 | MD_SHA224 \<Rightarrow> ALG_SHA_224 | MD_SHA256 \<Rightarrow> ALG_SHA_256
      | MD_SHA384 \<Rightarrow> ALG_SHA_384 | MD_SHA512 \<Rightarrow> ALG_SHA_512 | MD_RIPEMD160 \<Rightarrow> ALG_RIPEMD160 | MD_NONE \<Rightarrow> NO_HASH)"

subsection \<open>The public key in DER\<close>

text \<open>Bytes, such as those of a length or a tag, are put in front of the position.\<close>

definition der_put :: "byte list \<Rightarrow> der_state \<Rightarrow> int + (nat \<times> der_state)" where
  "der_put xs st = (case st of (p, buf) \<Rightarrow> case asn1_put xs p 0 buf of Inl e \<Rightarrow> Inl (-0x6C) | Inr (n, p, buf) \<Rightarrow> Inr (n, p, buf))"

fun der_puts :: "byte list list \<Rightarrow> der_state \<Rightarrow> int + (nat \<times> der_state)" where
  "der_puts [] st = Inr (0, st)"
| "der_puts (xs # xss) st =
     (case der_put xs st of Inl e \<Rightarrow> Inl e
      | Inr (n, st) \<Rightarrow> (case der_puts xss st of Inl e \<Rightarrow> Inl e | Inr (m, st) \<Rightarrow> Inr (n + m, st)))"

text \<open>The result of a writer as the number it returns, and the state behind it.\<close>

definition returned :: "int + (nat \<times> der_state) \<Rightarrow> int" where
  "returned r = (case r of Inl e \<Rightarrow> e | Inr (n, _) \<Rightarrow> int n)"

text \<open>Exporting the key to the end of the block. The byte in front of it is set to 0 also when the export has failed and the
  position is still the beginning of the block.\<close>

definition export_to_end :: "'s psa_keys \<Rightarrow> psa_key_type \<Rightarrow> nat \<Rightarrow> nat \<Rightarrow> 's \<Rightarrow> (psa_status \<times> nat \<times> der_state) option" where
  "export_to_end K ty xKeyId blk s =
     (let (xStatus, pt) =
        (if PSA_KEY_TYPE_IS_PUBLIC_KEY ty then psa_export_key K xKeyId blk s
         else if PSA_KEY_TYPE_IS_KEY_PAIR ty then psa_export_public_key K xKeyId blk s
         else (PSA_ERROR_INVALID_HANDLE, []));
        p = (if xStatus = PSA_SUCCESS then blk - length pt else 0)
      in do {
        configASSERT (p > 0);
        Some (xStatus, length pt + 1, p - 1, overwrite (p - 1) (0 # pt) (replicate blk 0))
      })"

text \<open>The identifier of the curve; the number of its bytes is translated like an error.\<close>

definition write_curve :: "'s psa_keys \<Rightarrow> psa_key_attributes \<Rightarrow> der_state \<Rightarrow> psa_status \<times> nat \<times> der_state" where
  "write_curve K at st =
     (let r = (if PSA_KEY_TYPE_IS_ECC (attr_type at)
               then (case mbedtls_psa_get_ecc_oid_from_id (PSA_KEY_TYPE_ECC_GET_FAMILY (attr_type at)) (attr_bits at) of
                       None \<Rightarrow> Inl (-0x3980)
                     | Some oid \<Rightarrow> mbedtls_asn1_write_oid K oid st)
               else if PSA_KEY_TYPE_IS_RSA (attr_type at) then Inr (0, st) else Inl (-0x3980))
      in case r of Inl e \<Rightarrow> (mbedtls_to_psa_error e, 0, st) | Inr (n, st) \<Rightarrow> (mbedtls_to_psa_error (int n), n, st))"

text \<open>The steps after the export: the bit string, the algorithm and the sequence around them. The result is the
  status and the number of bytes at the end of the buffer.\<close>

definition write_spki :: "'s psa_keys \<Rightarrow> psa_key_attributes \<Rightarrow> nat \<Rightarrow> der_state \<Rightarrow> psa_status \<times> nat \<times> byte list" where
  "write_spki K at uxObjLen st =
     (case der_puts [asn1_length K uxObjLen, [0x03]] st of
        Inl e \<Rightarrow> (mbedtls_to_psa_error e, 0, snd st)
      | Inr (n1, st) \<Rightarrow>
          (case write_curve K at st of (xStatus, n2, st) \<Rightarrow>
             if xStatus \<noteq> PSA_SUCCESS then (xStatus, 0, snd st)
             else
               let r = (case (if PSA_KEY_TYPE_IS_ECC (attr_type at) then oid_ec_key K else oid_rsa K) of
                          None \<Rightarrow> Inl (-0x3980)
                        | Some oid \<Rightarrow> mbedtls_asn1_write_algorithm_identifier K oid n2 st);
                   xStatus = mbedtls_to_psa_error (returned r)
               in case r of
                    Inl e \<Rightarrow> (xStatus, 0, snd st)
                  | Inr (n3, st) \<Rightarrow>
                      if xStatus \<noteq> PSA_SUCCESS then (xStatus, 0, snd st)
                      else let uxBytesWritten = uxObjLen + n1 + n3 in
                        (case der_put (asn1_length K uxBytesWritten) st of
                           Inl e \<Rightarrow> (mbedtls_to_psa_error e, 0, snd st)
                         | Inr (n4, st) \<Rightarrow>
                             (case der_put [0x30] st of
                                Inl e \<Rightarrow> (mbedtls_to_psa_error e, 0, snd st)
                              | Inr (n5, st) \<Rightarrow> (mbedtls_to_psa_error (int n5), uxBytesWritten + n4 + n5, snd st)))))"

definition xReadPublicKeyFromPSACrypto ::
  "'s psa_env \<Rightarrow> 's psa_keys \<Rightarrow> nat \<Rightarrow> 's psa_world \<Rightarrow> (psa_status \<times> byte list option \<times> 's psa_world) option" where
  "xReadPublicKeyFromPSACrypto E K xKeyId w =
     (case psa_get_key_attributes K xKeyId (its_state w) of
        (xStatus, at) \<Rightarrow>
          if xStatus \<noteq> PSA_SUCCESS then Some (xStatus, None, w)
          else
            let ty = attr_type at;
                blk = (if PSA_KEY_TYPE_IS_ECC ty then 30 + 2 * MBEDTLS_ECP_MAX_BYTES K
                        else if PSA_KEY_TYPE_IS_RSA ty then 38 + 2 * MBEDTLS_MPI_MAX_SIZE K else 0)
            in if blk = 0 \<or> \<not> calloc_ok E (live w) blk then Some (PSA_ERROR_INSUFFICIENT_MEMORY, None, w)
               else
                 let w = w\<lparr>live := live w + 1\<rparr>
                 in if blk < PSA_EXPORT_PUBLIC_KEY_OUTPUT_SIZE K ty (attr_bits at) + 1
                    then Some (PSA_ERROR_BUFFER_TOO_SMALL, None, mbedtls_free (replicate blk 0) w)
                    else do {
                      (xStatus, uxObjLen, p, buf) \<leftarrow> export_to_end K ty xKeyId blk (its_state w);
                      let (xStatus, n, buf) = (if xStatus = PSA_SUCCESS then write_spki K at uxObjLen (p, buf) else (xStatus, 0, buf));
                      Some (if xStatus = PSA_SUCCESS then (PSA_SUCCESS, Some (take n (drop (blk - n) buf)), w)
                            else (xStatus, None, mbedtls_free buf w))
                    })"

subsection \<open>Objects and certificates in key slots\<close>

definition slot_range :: "nat \<Rightarrow> bool" where
  "slot_range i \<longleftrightarrow> 1 \<le> i \<and> i \<le> 0x7FFFFFFF"

definition xReadObjectFromPSACrypto ::
  "'s psa_env \<Rightarrow> 's psa_keys \<Rightarrow> nat \<Rightarrow> 's psa_world \<Rightarrow> (psa_status \<times> byte list option \<times> 's psa_world) option" where
  "xReadObjectFromPSACrypto E K xObjectId w = do {
     configASSERT (slot_range xObjectId);
     (case psa_get_key_attributes K xObjectId (its_state w) of
        (xStatus, at) \<Rightarrow>
          let xStatus = (if xStatus = PSA_SUCCESS \<and> \<not> PSA_KEY_TYPE_IS_UNSTRUCTURED (attr_type at) then PSA_ERROR_INVALID_HANDLE else xStatus);
              uxBufferLen = PSA_EXPORT_KEY_OUTPUT_SIZE K (attr_type at) (attr_bits at)
          in if xStatus \<noteq> PSA_SUCCESS then Some (xStatus, None, w)
             else if \<not> calloc_ok E (live w) uxBufferLen then Some (PSA_ERROR_INSUFFICIENT_MEMORY, None, w)
             else
               let w = w\<lparr>live := live w + 1\<rparr> in
               (case psa_export_key K xObjectId uxBufferLen (its_state w) of
                  (xStatus, bs) \<Rightarrow>
                    if xStatus = PSA_SUCCESS then do { configASSERT (bs \<noteq> []); Some (PSA_SUCCESS, Some bs, w) }
                    else Some (xStatus, None, mbedtls_free (replicate uxBufferLen 0) w)))
   }"

text \<open>The certificate is stored as raw data.\<close>

definition lWriteCertificateToPSACrypto :: "'s psa_keys \<Rightarrow> nat \<Rightarrow> byte list \<Rightarrow> 's psa_world \<Rightarrow> (mbedtls_err \<times> 's psa_world) option" where
  "lWriteCertificateToPSACrypto K xCertId raw w = do {
     configASSERT (slot_range xCertId);
     let at = \<lparr>attr_id = xCertId, attr_type = RAW_DATA, attr_bits = 8 * length raw, attr_usage = {USAGE_EXPORT, USAGE_COPY}, attr_alg = NO_ALG\<rparr>;
     let (xStatus, s) = psa_import_key K at raw (its_state w);
     Some (mbedtls_psa_err_translate_pk xStatus, w\<lparr>its_state := s\<rparr>)
   }"

text \<open>The error of the parser is translated as if it was one of the service, all of whose numbers it is none of.\<close>

definition lReadCertificateFromPSACrypto ::
  "'s psa_env \<Rightarrow> 's psa_keys \<Rightarrow> nat \<Rightarrow> byte list list \<Rightarrow> 's psa_world \<Rightarrow> (mbedtls_err \<times> byte list list \<times> 's psa_world) option" where
  "lReadCertificateFromPSACrypto E K xCertId chain w = do {
     configASSERT (slot_range xCertId);
     (xStatus, r, w) \<leftarrow> xReadObjectFromPSACrypto E K xCertId w;
     Some (case r of
       None \<Rightarrow> (mbedtls_psa_err_translate_pk xStatus, chain, w)
     | Some bs \<Rightarrow>
         (case mbedtls_x509_crt_parse_der E bs of
            (e, cs) \<Rightarrow> (if e = MBEDTLS_OK then (MBEDTLS_OK, chain @ cs, w)
                       else (mbedtls_psa_err_translate_pk (PSA_ERROR_OTHER 0), chain @ cs, mbedtls_free bs w))))
   }"

subsection \<open>Making and storing keys\<close>

text \<open>A public key: its group, the number of its bits, and its point in binary. The block for the point is never freed.\<close>

record ecp_key =
  ecp_grp :: mbedtls_ecp_group_id
  ecp_bits :: nat
  ecp_point :: "byte list"

definition lWritePublicKeyToPSACrypto ::
  "'s psa_env \<Rightarrow> 's psa_keys \<Rightarrow> nat \<Rightarrow> ecp_key option \<Rightarrow> 's psa_world \<Rightarrow> (mbedtls_err \<times> 's psa_world) option" where
  "lWritePublicKeyToPSACrypto E K xPubKeyId key w = do {
     configASSERT (xPubKeyId \<noteq> 0);
     Some (case key of
       None \<Rightarrow> (mbedtls_psa_err_translate_pk PSA_ERROR_NOT_SUPPORTED, w)
     | Some k \<Rightarrow>
         let at = \<lparr>attr_id = xPubKeyId, attr_type = PUBLIC_KEY_ECC (xPsaFamilyFromMbedtlsEccGroupId (ecp_grp k)), attr_bits = ecp_bits k,
                   attr_usage = {USAGE_VERIFY_MESSAGE, USAGE_VERIFY_HASH, USAGE_EXPORT}, attr_alg = PSA_ALG_ECDSA ANY_HASH\<rparr>;
             uxPubKeyBufferLen = 2 * ((ecp_bits k + 7) div 8) + 1
         in if \<not> calloc_ok E (live w) uxPubKeyBufferLen then (mbedtls_psa_err_translate_pk PSA_ERROR_INSUFFICIENT_MEMORY, w)
            else
              let w = w\<lparr>live := live w + 1\<rparr>
              in if uxPubKeyBufferLen < length (ecp_point k) then (mbedtls_psa_err_translate_pk PSA_ERROR_GENERIC_ERROR, w)
                 else (case psa_import_key K at (ecp_point k) (its_state w) of
                         (xStatus, s) \<Rightarrow> (mbedtls_psa_err_translate_pk xStatus, w\<lparr>its_state := s\<rparr>)))
   }"

text \<open>Both slots are cleared, an empty one being no error. A pair is made in the first one, and the last bytes of its public
  key in DER are imported into the second one.\<close>

definition destroy_slot :: "'s psa_keys \<Rightarrow> nat \<Rightarrow> 's \<Rightarrow> psa_status \<times> 's" where
  "destroy_slot K i s = (case psa_destroy_key K i s of (xStatus, s) \<Rightarrow> (if xStatus = PSA_ERROR_INVALID_HANDLE then PSA_SUCCESS else xStatus, s))"

definition lGenerateKeyPairECPsaCrypto ::
  "'s psa_env \<Rightarrow> 's psa_keys \<Rightarrow> nat \<Rightarrow> nat \<Rightarrow> 's psa_world \<Rightarrow> (mbedtls_err \<times> byte list option \<times> 's psa_world) option" where
  "lGenerateKeyPairECPsaCrypto E K xPrvKeyId xPubKeyId w =
     (if xPrvKeyId = 0 \<or> xPubKeyId = 0 then Some (mbedtls_psa_err_translate_pk PSA_ERROR_INVALID_HANDLE, None, w)
      else
        let (xStatus, s) = destroy_slot K xPrvKeyId (its_state w);
            (xStatus, s) = (if xStatus = PSA_SUCCESS then destroy_slot K xPubKeyId s else (xStatus, s));
            at = \<lparr>attr_id = xPrvKeyId, attr_type = KEY_PAIR_ECC PSA_ECC_FAMILY_SECP_R1, attr_bits = 256,
                  attr_usage = {USAGE_SIGN_HASH, USAGE_VERIFY_HASH, USAGE_SIGN_MESSAGE, USAGE_VERIFY_MESSAGE, USAGE_DERIVE,
                                USAGE_VERIFY_DERIVATION, USAGE_ENCRYPT, USAGE_DECRYPT}, attr_alg = PSA_ALG_ECDSA ALG_SHA_256\<rparr>;
            (xStatus, s) = (if xStatus = PSA_SUCCESS then psa_generate_key K at s else (xStatus, s));
            w = w\<lparr>its_state := s\<rparr>
        in do {
          (xStatus, der, w) \<leftarrow> (if xStatus = PSA_SUCCESS then xReadPublicKeyFromPSACrypto E K xPrvKeyId w else Some (xStatus, None, w));
          (case der of
             None \<Rightarrow> Some (mbedtls_psa_err_translate_pk xStatus, None, w)
           | Some der \<Rightarrow>
               let uxPubKeyLen = PSA_EXPORT_PUBLIC_KEY_OUTPUT_SIZE K (attr_type at) (attr_bits at) in
               do {
                 configASSERT (uxPubKeyLen \<le> length der);
                 let pucPubKey = drop (length der - uxPubKeyLen) der;
                 let at = at\<lparr>attr_type := PUBLIC_KEY_ECC PSA_ECC_FAMILY_SECP_R1, attr_id := xPubKeyId, attr_usage := {USAGE_EXPORT}\<rparr>;
                 let (xStatus, s) = psa_import_key K at pucPubKey (its_state w);
                 let w = w\<lparr>its_state := s\<rparr>;
                 Some (if xStatus = PSA_SUCCESS then (MBEDTLS_OK, Some der, w)
                       else (mbedtls_psa_err_translate_pk xStatus, None, mbedtls_free der w))
               })
        })"

end
