(* ===== verification/PkiObject.thy ===== *)
theory PkiObject
  imports PsaStore
begin

text \<open>
  Certificates and keys by label (\<open>source/crypto/pki/PkiObject.c\<close>), in the build with
  \<open>MBEDTLS_TRANSPORT_PSA\<close> and without the test automation certificates. The labels and the numbers of the
  objects come from configuration headers outside the repository and are the record \<open>pki_config\<close>. The
  operations on PSA key slots, which may fail an assertion, are the record \<open>pki_crypto\<close>, and so is the key parser of Mbed TLS.
\<close>

datatype PkiStatus_t = PKI_SUCCESS | PKI_ERR | PKI_ERR_ARG_INVALID | PKI_ERR_NOMEM | PKI_ERR_INTERNAL
  | PKI_ERR_NOT_IMPLEMENTED | PKI_ERR_OBJ | PKI_ERR_OBJ_NOT_FOUND | PKI_ERR_OBJ_PARSING_FAILED

text \<open>The form of an object with the member of the union that belongs to it: a buffer (possibly NULL) and its
  length, or the number of an object.\<close>

datatype PkiObject_t = OBJ_FORM_NONE | OBJ_FORM_PEM "byte list option" nat | OBJ_FORM_DER "byte list option" nat
  | OBJ_FORM_PSA_CRYPTO nat | OBJ_FORM_PSA_ITS nat | OBJ_FORM_PSA_PS nat

record pki_config =
  TLS_KEY_PRV_LABEL :: string
  TLS_KEY_PUB_LABEL :: string
  TLS_CERT_LABEL :: string
  TLS_ROOT_CA_CERT_LABEL :: string
  OTA_SIGNING_KEY_LABEL :: string
  PSA_TLS_PRV_KEY_ID :: nat
  PSA_TLS_PUB_KEY_ID :: nat
  PSA_TLS_CERT_ID :: nat
  PSA_TLS_ROOT_CA_CERT_ID :: nat
  OTA_SIGNING_KEY_ID :: nat

text \<open>Key slots: a certificate or a public key of a slot, and writing them; \<open>'k\<close> are parsed keys. A public key
  that is read comes in a new block of the heap.\<close>

record ('s, 'k) pki_crypto =
  crypto_read_certificate :: "nat \<Rightarrow> byte list list \<Rightarrow> 's psa_world \<Rightarrow> (mbedtls_err \<times> byte list list \<times> 's psa_world) option"
  crypto_write_certificate :: "nat \<Rightarrow> byte list \<Rightarrow> 's psa_world \<Rightarrow> (mbedtls_err \<times> 's psa_world) option"
  crypto_write_public_key :: "nat \<Rightarrow> 'k \<Rightarrow> 's psa_world \<Rightarrow> (mbedtls_err \<times> 's psa_world) option"
  crypto_read_public_key :: "nat \<Rightarrow> 's psa_world \<Rightarrow> (mbedtls_err \<times> byte list option \<times> 's psa_world) option"
  crypto_init_key :: "nat \<Rightarrow> 's psa_world \<Rightarrow> (mbedtls_err \<times> 'k option \<times> 's psa_world) option"
  crypto_generate :: "nat \<Rightarrow> nat \<Rightarrow> 's psa_world \<Rightarrow> (mbedtls_err \<times> byte list option \<times> 's psa_world) option"
  mbedtls_pk_parse_key :: "byte list \<Rightarrow> mbedtls_err \<times> 'k option"
  mbedtls_pk_parse_public_key :: "byte list \<Rightarrow> mbedtls_err \<times> 'k option"
  mbedtls_pk_parse_subpubkey :: "byte list \<Rightarrow> mbedtls_err \<times> 'k option"

fun xPrvMbedtlsErrToPkiStatus :: "mbedtls_err \<Rightarrow> PkiStatus_t" where
  "xPrvMbedtlsErrToPkiStatus MBEDTLS_OK = PKI_SUCCESS"
| "xPrvMbedtlsErrToPkiStatus MBEDTLS_ERR_X509_ALLOC_FAILED = PKI_ERR_NOMEM"
| "xPrvMbedtlsErrToPkiStatus MBEDTLS_ERR_ERROR_CORRUPTION_DETECTED = PKI_ERR_INTERNAL"
| "xPrvMbedtlsErrToPkiStatus MBEDTLS_ERR_X509_CERT_UNKNOWN_FORMAT = PKI_ERR_OBJ_PARSING_FAILED"
| "xPrvMbedtlsErrToPkiStatus MBEDTLS_ERR_X509_BAD_INPUT_DATA = PKI_ERR_OBJ_PARSING_FAILED"
| "xPrvMbedtlsErrToPkiStatus MBEDTLS_ERR_PEM_BAD_INPUT_DATA = PKI_ERR_OBJ_PARSING_FAILED"
| "xPrvMbedtlsErrToPkiStatus MBEDTLS_ERR_PEM_NO_HEADER_FOOTER_PRESENT = PKI_ERR_OBJ_PARSING_FAILED"
| "xPrvMbedtlsErrToPkiStatus (MBEDTLS_POSITIVE n) = PKI_SUCCESS"
| "xPrvMbedtlsErrToPkiStatus _ = PKI_ERR"

definition xPkiObjectFromLabel :: "pki_config \<Rightarrow> string option \<Rightarrow> PkiObject_t" where
  "xPkiObjectFromLabel cfg label =
     (case label of
        None \<Rightarrow> OBJ_FORM_NONE
      | Some pcLabel \<Rightarrow>
          if strcmp_eq (TLS_KEY_PRV_LABEL cfg) pcLabel then OBJ_FORM_PSA_CRYPTO (PSA_TLS_PRV_KEY_ID cfg)
          else if strcmp_eq (TLS_KEY_PUB_LABEL cfg) pcLabel then OBJ_FORM_PSA_CRYPTO (PSA_TLS_PUB_KEY_ID cfg)
          else if strcmp_eq (TLS_CERT_LABEL cfg) pcLabel then OBJ_FORM_PSA_PS (PSA_TLS_CERT_ID cfg)
          else if strcmp_eq (TLS_ROOT_CA_CERT_LABEL cfg) pcLabel then OBJ_FORM_PSA_PS (PSA_TLS_ROOT_CA_CERT_ID cfg)
          else if strcmp_eq (OTA_SIGNING_KEY_LABEL cfg) pcLabel then OBJ_FORM_PSA_CRYPTO (OTA_SIGNING_KEY_ID cfg)
          else OBJ_FORM_NONE)"

definition bytes_of :: "byte list option \<Rightarrow> nat \<Rightarrow> byte list" where
  "bytes_of buf n = (case buf of None \<Rightarrow> [] | Some bs \<Rightarrow> take n bs)"

subsection \<open>Certificates\<close>

definition xPkiReadCertificate ::
  "'s psa_env \<Rightarrow> ('s, 'k) pki_crypto \<Rightarrow> PkiObject_t \<Rightarrow> byte list list \<Rightarrow> 's psa_world \<Rightarrow> (PkiStatus_t \<times> byte list list \<times> 's psa_world) option" where
  "xPkiReadCertificate E C pxCertificate chain w =
     (case pxCertificate of
        OBJ_FORM_PEM buf n \<Rightarrow>
          (case mbedtls_x509_crt_parse E (bytes_of buf n) of (e, cs) \<Rightarrow> Some (xPrvMbedtlsErrToPkiStatus e, chain @ cs, w))
      | OBJ_FORM_DER buf n \<Rightarrow>
          (case mbedtls_x509_crt_parse_der E (bytes_of buf n) of (e, cs) \<Rightarrow> Some (xPrvMbedtlsErrToPkiStatus e, chain @ cs, w))
      | OBJ_FORM_PSA_CRYPTO i \<Rightarrow>
          do { (e, chain, w) \<leftarrow> crypto_read_certificate C i chain w; Some (xPrvMbedtlsErrToPkiStatus e, chain, w) }
      | OBJ_FORM_PSA_ITS u \<Rightarrow>
          do { (e, chain, w) \<leftarrow> lReadCertificateFromPsaIts E u chain w; Some (xPrvMbedtlsErrToPkiStatus e, chain, w) }
      | OBJ_FORM_PSA_PS u \<Rightarrow>
          do { (e, chain, w) \<leftarrow> lReadCertificateFromPsaPS E u chain w; Some (xPrvMbedtlsErrToPkiStatus e, chain, w) }
      | OBJ_FORM_NONE \<Rightarrow> Some (PKI_ERR_ARG_INVALID, chain, w))"

definition xPkiWriteCertificate ::
  "pki_config \<Rightarrow> 's psa_env \<Rightarrow> ('s, 'k) pki_crypto \<Rightarrow> string option \<Rightarrow> byte list \<Rightarrow> 's psa_world \<Rightarrow> (PkiStatus_t \<times> 's psa_world) option" where
  "xPkiWriteCertificate cfg E C pcCertLabel raw w = do {
     configASSERT (pcCertLabel \<noteq> None);
     (case xPkiObjectFromLabel cfg pcCertLabel of
        OBJ_FORM_PSA_CRYPTO i \<Rightarrow> do { (e, w) \<leftarrow> crypto_write_certificate C i raw w; Some (xPrvMbedtlsErrToPkiStatus e, w) }
      | OBJ_FORM_PSA_ITS u \<Rightarrow> (case lWriteCertificateToPsaIts E u raw w of (e, w) \<Rightarrow> Some (xPrvMbedtlsErrToPkiStatus e, w))
      | OBJ_FORM_PSA_PS u \<Rightarrow> (case lWriteCertificateToPsaPS E u raw w of (e, w) \<Rightarrow> Some (xPrvMbedtlsErrToPkiStatus e, w))
      | _ \<Rightarrow> Some (PKI_ERR_ARG_INVALID, w))
   }"

subsection \<open>Public keys\<close>

definition xPkiWritePubKey ::
  "pki_config \<Rightarrow> 's psa_env \<Rightarrow> ('s, 'k) pki_crypto \<Rightarrow> string option \<Rightarrow> byte list \<Rightarrow> 'k \<Rightarrow> 's psa_world \<Rightarrow> (PkiStatus_t \<times> 's psa_world) option" where
  "xPkiWritePubKey cfg E C pcPubKeyLabel der key w = do {
     configASSERT (pcPubKeyLabel \<noteq> None);
     (case xPkiObjectFromLabel cfg pcPubKeyLabel of
        OBJ_FORM_PSA_CRYPTO i \<Rightarrow> do { (e, w) \<leftarrow> crypto_write_public_key C i key w; Some (xPrvMbedtlsErrToPkiStatus e, w) }
      | OBJ_FORM_PSA_ITS u \<Rightarrow> (case lWriteObjectToPsaIts E u der w of (e, w) \<Rightarrow> Some (xPrvMbedtlsErrToPkiStatus e, w))
      | OBJ_FORM_PSA_PS u \<Rightarrow> (case lWriteObjectToPsaPs E u der w of (e, w) \<Rightarrow> Some (xPrvMbedtlsErrToPkiStatus e, w))
      | _ \<Rightarrow> Some (PKI_ERR_ARG_INVALID, w))
   }"

text \<open>The copy of a buffer is made without looking at what \<open>pvPortMalloc\<close> returned: a full heap makes the copy
  write through NULL. Objects of the protected storage are looked up in the internal trusted storage.\<close>

definition xPkiReadPublicKeyDer ::
  "'s psa_env \<Rightarrow> ('s, 'k) pki_crypto \<Rightarrow> PkiObject_t \<Rightarrow> 's psa_world \<Rightarrow> (PkiStatus_t \<times> byte list option \<times> 's psa_world) option" where
  "xPkiReadPublicKeyDer E C pxPublicKey w =
     (let copy = (\<lambda>buf n.
        (case buf of
           None \<Rightarrow> Some (PKI_ERR_ARG_INVALID, None, w)
         | Some bs \<Rightarrow>
             if n = 0 then Some (PKI_ERR_ARG_INVALID, None, w)
             else if calloc_ok E (live w) n \<and> n \<le> length bs
             then Some (PKI_SUCCESS, Some (take n bs), w\<lparr>live := live w + 1\<rparr>) else None)) in
      case pxPublicKey of
        OBJ_FORM_PEM buf n \<Rightarrow> copy buf n
      | OBJ_FORM_DER buf n \<Rightarrow> copy buf n
      | OBJ_FORM_PSA_CRYPTO i \<Rightarrow>
          do { (e, r, w) \<leftarrow> crypto_read_public_key C i w; Some (xPrvMbedtlsErrToPkiStatus e, r, w) }
      | OBJ_FORM_PSA_ITS u \<Rightarrow>
          do { (e, r, w) \<leftarrow> lReadObjectFromPsaIts E u w; Some (xPrvMbedtlsErrToPkiStatus e, r, w) }
      | OBJ_FORM_PSA_PS u \<Rightarrow>
          do { (e, r, w) \<leftarrow> lReadObjectFromPsaIts E u w; Some (xPrvMbedtlsErrToPkiStatus e, r, w) }
      | OBJ_FORM_NONE \<Rightarrow> Some (PKI_ERR_ARG_INVALID, None, w))"

text \<open>Wiping a block with \<open>mbedtls_platform_zeroize\<close> and freeing it.\<close>

definition wipe_and_free :: "byte list option \<Rightarrow> 's psa_world \<Rightarrow> 's psa_world option" where
  "wipe_and_free block w =
     (case block of
        None \<Rightarrow> Some w
      | Some bs \<Rightarrow> do { configASSERT (length bs > 0); Some (mbedtls_free (replicate (length bs) 0) w) })"

definition xPkiReadPublicKey ::
  "'s psa_env \<Rightarrow> ('s, 'k) pki_crypto \<Rightarrow> PkiObject_t \<Rightarrow> 's psa_world \<Rightarrow> (PkiStatus_t \<times> 'k option \<times> 's psa_world) option" where
  "xPkiReadPublicKey E C pxPublicKey w = do {
     (xStatus, r, w) \<leftarrow> xPkiReadPublicKeyDer E C pxPublicKey w;
     let (xStatus, key) =
       (if xStatus = PKI_SUCCESS
        then let bs = (case r of None \<Rightarrow> [] | Some bs \<Rightarrow> bs);
                 (e, key) = (case pxPublicKey of OBJ_FORM_PEM buf n \<Rightarrow> mbedtls_pk_parse_public_key C bs
                             | _ \<Rightarrow> mbedtls_pk_parse_subpubkey C bs)
             in (xPrvMbedtlsErrToPkiStatus e, key)
        else (xStatus, None));
     w \<leftarrow> wipe_and_free r w;
     Some (xStatus, key, w)
   }"

subsection \<open>Private keys\<close>

text \<open>The key of a storage object: the object is read into a block, parsed, and the block wiped and freed.\<close>

definition read_stored_key ::
  "('s, 'k) pki_crypto \<Rightarrow> (mbedtls_err \<times> byte list option \<times> 's psa_world) \<Rightarrow> (mbedtls_err \<times> 'k option \<times> 's psa_world) option" where
  "read_stored_key C res =
     (case res of (lError, r, w) \<Rightarrow> do {
        let (lError, key) =
          (if lError = MBEDTLS_OK then mbedtls_pk_parse_key C (case r of None \<Rightarrow> [] | Some bs \<Rightarrow> bs) else (lError, None));
        w \<leftarrow> wipe_and_free r w;
        Some (lError, key, w)
      })"

text \<open>The case of the protected storage has no \<open>break\<close>: it runs on into the default case.\<close>

definition xPkiReadPrivateKey ::
  "'s psa_env \<Rightarrow> ('s, 'k) pki_crypto \<Rightarrow> PkiObject_t \<Rightarrow> 's psa_world \<Rightarrow> (PkiStatus_t \<times> 'k option \<times> 's psa_world) option" where
  "xPkiReadPrivateKey E C pxPrivateKey w =
     (let parse = (\<lambda>buf n.
        (case buf of
           None \<Rightarrow> Some (PKI_ERR_ARG_INVALID, None, w)
         | Some bs \<Rightarrow>
             if n = 0 then Some (PKI_ERR_ARG_INVALID, None, w)
             else (case mbedtls_pk_parse_key C (take n bs) of (e, key) \<Rightarrow> Some (xPrvMbedtlsErrToPkiStatus e, key, w)))) in
      case pxPrivateKey of
        OBJ_FORM_PEM buf n \<Rightarrow> parse buf n
      | OBJ_FORM_DER buf n \<Rightarrow> parse buf n
      | OBJ_FORM_PSA_CRYPTO i \<Rightarrow>
          do { (e, key, w) \<leftarrow> crypto_init_key C i w; Some (xPrvMbedtlsErrToPkiStatus e, key, w) }
      | OBJ_FORM_PSA_ITS u \<Rightarrow> do {
          res \<leftarrow> lReadObjectFromPsaIts E u w;
          (e, key, w) \<leftarrow> read_stored_key C res;
          Some (xPrvMbedtlsErrToPkiStatus e, key, w)
        }
      | OBJ_FORM_PSA_PS u \<Rightarrow> do {
          res \<leftarrow> lReadObjectFromPsaPs E u w;
          (e, key, w) \<leftarrow> read_stored_key C res;
          Some (PKI_ERR_ARG_INVALID, key, w)
        }
      | OBJ_FORM_NONE \<Rightarrow> Some (PKI_ERR_ARG_INVALID, None, w))"

text \<open>Only the form of the public key is looked at; the key number of the private key is taken from
  the union of its object, whatever its form.\<close>

definition xPkiGenerateECKeypair ::
  "pki_config \<Rightarrow> ('s, 'k) pki_crypto \<Rightarrow> string option \<Rightarrow> string option \<Rightarrow> 's psa_world \<Rightarrow> (PkiStatus_t \<times> byte list option \<times> 's psa_world) option" where
  "xPkiGenerateECKeypair cfg C pcPrvKeyLabel pcPubKeyLabel w =
     (if pcPrvKeyLabel = None \<or> pcPubKeyLabel = None then Some (PKI_ERR_ARG_INVALID, None, w)
      else case xPkiObjectFromLabel cfg pcPubKeyLabel of
        OBJ_FORM_PSA_CRYPTO pub \<Rightarrow>
          let prv = (case xPkiObjectFromLabel cfg pcPrvKeyLabel of
                       OBJ_FORM_PSA_CRYPTO i \<Rightarrow> i | OBJ_FORM_PSA_PS u \<Rightarrow> u mod 2 ^ 32 | _ \<Rightarrow> 0)
          in do { (e, r, w) \<leftarrow> crypto_generate C prv pub w; Some (xPrvMbedtlsErrToPkiStatus e, r, w) }
      | _ \<Rightarrow> Some (PKI_ERR_ARG_INVALID, None, w))"

subsection \<open>Properties\<close>

text \<open>The objects the certificate labels stand for.\<close>

lemma certificate_object:
  assumes "\<not> strcmp_eq (TLS_KEY_PRV_LABEL cfg) l" "\<not> strcmp_eq (TLS_KEY_PUB_LABEL cfg) l"
    and "strcmp_eq (TLS_CERT_LABEL cfg) l \<or> strcmp_eq (TLS_ROOT_CA_CERT_LABEL cfg) l"
  obtains u where "xPkiObjectFromLabel cfg (Some l) = OBJ_FORM_PSA_PS u" "u \<in> {PSA_TLS_CERT_ID cfg, PSA_TLS_ROOT_CA_CERT_ID cfg}"
proof (rule that)
  show "xPkiObjectFromLabel cfg (Some l) =
      OBJ_FORM_PSA_PS (if strcmp_eq (TLS_CERT_LABEL cfg) l then PSA_TLS_CERT_ID cfg else PSA_TLS_ROOT_CA_CERT_ID cfg)"
    using assms by (auto simp: xPkiObjectFromLabel_def)
qed auto

lemma status_success [simp]: "xPrvMbedtlsErrToPkiStatus e = PKI_SUCCESS \<longleftrightarrow> e = MBEDTLS_OK \<or> (\<exists>n. e = MBEDTLS_POSITIVE n)"
  by (cases e) simp_all

lemma write_ps_success:
  assumes "storage_spec (ps E) contents" "lWriteCertificateToPsaPS E u raw w = (e, w')" "xPrvMbedtlsErrToPkiStatus e = PKI_SUCCESS"
  shows "contents (ps_state w') u = Some raw" "raw \<noteq> []" "live w' = live w" "freed w' = freed w" "its_state w' = its_state w"
proof -
  obtain st s where set: "storage_set (ps E) u raw (ps_state w) = (st, s)" by (cases "storage_set (ps E) u raw (ps_state w)")
  have raw: "raw \<noteq> []" using assms(2,3) by (auto simp: lWriteCertificateToPsaPS_def)
  have w: "w' = w\<lparr>ps_state := s\<rparr>" "e = mbedtls_psa_err_translate_pk st" using assms(2) raw set by (auto simp: lWriteCertificateToPsaPS_def)
  have "st = PSA_SUCCESS" using assms(3) w(2) by (cases st) auto
  then have "contents s = (contents (ps_state w))(u \<mapsto> raw)"
    using storage_set_contents [OF assms(1)] set by blast
  then show "contents (ps_state w') u = Some raw" "raw \<noteq> []" "live w' = live w" "freed w' = freed w" "its_state w' = its_state w"
    using raw w by simp_all
qed

text \<open>
  C24. A certificate that was stored under one of the two certificate labels is read back unchanged: when
  writing reported success, reading the object of that label returns, and if it reports success the
  chain has been extended by exactly the stored certificate; if it does not, the chain is as it was.
\<close>

theorem pki_certificate_roundtrip:
  assumes spec: "storage_spec (ps E) contents"
    and l: "\<not> strcmp_eq (TLS_KEY_PRV_LABEL cfg) l" "\<not> strcmp_eq (TLS_KEY_PUB_LABEL cfg) l"
      "strcmp_eq (TLS_CERT_LABEL cfg) l \<or> strcmp_eq (TLS_ROOT_CA_CERT_LABEL cfg) l"
    and ids: "0 < PSA_TLS_CERT_ID cfg" "0 < PSA_TLS_ROOT_CA_CERT_ID cfg"
    and der: "mbedtls_x509_crt_parse_der E raw = (MBEDTLS_OK, [raw])" "\<not> is_pem raw"
    and wr: "xPkiWriteCertificate cfg E C (Some l) raw w = Some (PKI_SUCCESS, w1)"
  shows "\<exists>st chain' w2. xPkiReadCertificate E C (xPkiObjectFromLabel cfg (Some l)) chain w1 = Some (st, chain', w2) \<and>
    (st = PKI_SUCCESS \<longrightarrow> chain' = chain @ [raw]) \<and> (st \<noteq> PKI_SUCCESS \<longrightarrow> chain' = chain)"
proof -
  obtain u where u: "xPkiObjectFromLabel cfg (Some l) = OBJ_FORM_PSA_PS u" "0 < u"
    using certificate_object [OF l] ids by auto
  obtain e w' where "lWriteCertificateToPsaPS E u raw w = (e, w')" by (cases "lWriteCertificateToPsaPS E u raw w")
  then have stored: "contents (ps_state w1) u = Some raw"
    using wr u(1) write_ps_success(1) [OF spec] by (auto simp: xPkiWriteCertificate_def)
  obtain e2 r w2 where rd: "read_object (calloc_ok E) (ps E) (ps_state w1) u w1 = Some (e2, r, w2)"
    "e2 = MBEDTLS_OK \<longleftrightarrow> r \<noteq> None" "its_state w2 = its_state w1" "ps_state w2 = ps_state w1" "freed w2 = freed w1"
    "r \<noteq> None \<longrightarrow> r = contents (ps_state w1) u \<and> live w2 = live w1 + 1"
    using spec u(2) by (rule read_object_returns [of "ps E" contents u "calloc_ok E" "ps_state w1" w1])
  have pos: "e2 \<noteq> MBEDTLS_POSITIVE n" for n
    using rd(1) by (auto simp: read_object_def Let_def split: prod.splits if_splits bind_splits)
  show ?thesis
  proof (cases r)
    case None
    then show ?thesis using rd pos u
      by (auto simp: xPkiReadCertificate_def lReadCertificateFromPsaPS_def lReadObjectFromPsaPs_def parse_certificate_def)
  next
    case (Some bs)
    then show ?thesis using rd stored u der
      by (auto simp: xPkiReadCertificate_def lReadCertificateFromPsaPS_def lReadObjectFromPsaPs_def parse_certificate_def)
  qed
qed

text \<open>For the witnesses: storage services that keep a map and never fail, parsers that accept everything.\<close>

definition ex_storage :: "(nat \<rightharpoonup> byte list) psa_storage" where
  "ex_storage =
     \<lparr>storage_get_info = \<lambda>u m. (case m u of None \<Rightarrow> (PSA_ERROR_INVALID_HANDLE, 0) | Some bs \<Rightarrow> (PSA_SUCCESS, length bs)),
      storage_get = \<lambda>u n m. (case m u of None \<Rightarrow> (PSA_ERROR_INVALID_HANDLE, []) | Some bs \<Rightarrow> (PSA_SUCCESS, take n bs)),
      storage_set = \<lambda>u bs m. (PSA_SUCCESS, m(u \<mapsto> bs))\<rparr>"

definition ex_env :: "(nat \<rightharpoonup> byte list) psa_env" where
  "ex_env = \<lparr>its = ex_storage, ps = ex_storage, mbedtls_x509_crt_parse = \<lambda>bs. (MBEDTLS_OK, [bs]),
     mbedtls_x509_crt_parse_der = \<lambda>bs. (MBEDTLS_OK, [bs]), calloc_ok = \<lambda>n sz. n < 100\<rparr>"

definition ex_crypto :: "(nat \<rightharpoonup> byte list, byte list) pki_crypto" where
  "ex_crypto =
     \<lparr>crypto_read_certificate = \<lambda>i cs w. Some (MBEDTLS_ERR_OTHER 1, cs, w), crypto_write_certificate = \<lambda>i bs w. Some (MBEDTLS_ERR_OTHER 1, w),
      crypto_write_public_key = \<lambda>i k w. Some (MBEDTLS_ERR_OTHER 1, w), crypto_read_public_key = \<lambda>i w. Some (MBEDTLS_ERR_OTHER 1, None, w),
      crypto_init_key = \<lambda>i w. Some (MBEDTLS_ERR_OTHER 1, None, w), crypto_generate = \<lambda>i j w. Some (MBEDTLS_ERR_OTHER 1, None, w),
      mbedtls_pk_parse_key = \<lambda>bs. (MBEDTLS_OK, Some bs), mbedtls_pk_parse_public_key = \<lambda>bs. (MBEDTLS_OK, Some bs),
      mbedtls_pk_parse_subpubkey = \<lambda>bs. (MBEDTLS_OK, Some bs)\<rparr>"

definition ex_pki :: pki_config where
  "ex_pki = \<lparr>TLS_KEY_PRV_LABEL = ''prv'', TLS_KEY_PUB_LABEL = ''pub'', TLS_CERT_LABEL = ''cert'', TLS_ROOT_CA_CERT_LABEL = ''ca'',
     OTA_SIGNING_KEY_LABEL = ''ota'', PSA_TLS_PRV_KEY_ID = 1, PSA_TLS_PUB_KEY_ID = 2, PSA_TLS_CERT_ID = 3,
     PSA_TLS_ROOT_CA_CERT_ID = 4, OTA_SIGNING_KEY_ID = 5\<rparr>"

definition ex_world :: "(nat \<rightharpoonup> byte list) psa_world" where
  "ex_world = \<lparr>its_state = Map.empty(7 \<mapsto> [1, 2, 3]), ps_state = Map.empty(7 \<mapsto> [1, 2, 3]), live = 0, freed = []\<rparr>"

lemma ex_storage_spec: "storage_spec ex_storage (\<lambda>m. m)"
  by (auto simp: storage_spec_def ex_storage_def split: option.splits)

theorem pki_certificate_roundtrip_witness:
  "\<exists>w1 st chain' w2. xPkiWriteCertificate ex_pki ex_env ex_crypto (Some ''ca'') [48, 3] ex_world = Some (PKI_SUCCESS, w1) \<and>
    xPkiReadCertificate ex_env ex_crypto (xPkiObjectFromLabel ex_pki (Some ''ca'')) [] w1 = Some (st, chain', w2) \<and>
    st = PKI_SUCCESS \<and> chain' = [[48, 3]]"
proof -
  have spec: "storage_spec (ps ex_env) (\<lambda>m. m)" by (simp add: ex_env_def ex_storage_spec)
  have obj: "xPkiObjectFromLabel ex_pki (Some ''ca'') = OBJ_FORM_PSA_PS 4"
    by (simp add: xPkiObjectFromLabel_def ex_pki_def strcmp_eq_def c_str_def)
  define w1 where "w1 = ex_world\<lparr>ps_state := (ps_state ex_world)(4 \<mapsto> [48, 3])\<rparr>"
  have wr: "xPkiWriteCertificate ex_pki ex_env ex_crypto (Some ''ca'') [48, 3] ex_world = Some (PKI_SUCCESS, w1)"
    by (simp add: xPkiWriteCertificate_def obj lWriteCertificateToPsaPS_def ex_env_def ex_storage_def w1_def)
  have "\<exists>st chain' w2. xPkiReadCertificate ex_env ex_crypto (xPkiObjectFromLabel ex_pki (Some ''ca'')) [] w1 = Some (st, chain', w2) \<and>
    (st = PKI_SUCCESS \<longrightarrow> chain' = [] @ [[48, 3]]) \<and> (st \<noteq> PKI_SUCCESS \<longrightarrow> chain' = [])"
    using spec _ _ _ _ _ _ _ wr
    by (rule pki_certificate_roundtrip)
      (simp_all add: ex_pki_def strcmp_eq_def c_str_def ex_env_def is_pem_def)
  moreover have "\<exists>chain' w2. xPkiReadCertificate ex_env ex_crypto (xPkiObjectFromLabel ex_pki (Some ''ca'')) [] w1 = Some (PKI_SUCCESS, chain', w2)"
    unfolding obj by (simp add: xPkiReadCertificate_def lReadCertificateFromPsaPS_def lReadObjectFromPsaPs_def read_object_def
        parse_certificate_def ex_env_def ex_storage_def w1_def ex_world_def is_pem_def)
  ultimately show ?thesis using wr by auto
qed

text \<open>
  C25. No private key stays behind in the heap: when the object of a private key in the internal trusted
  storage could be read, the block that held its bytes is overwritten with zeros and freed before
  \<open>xPkiReadPrivateKey\<close> returns, whether or not the key could be parsed.
\<close>

theorem pki_private_key_wiped:
  assumes "lReadObjectFromPsaIts E u w = Some (MBEDTLS_OK, Some bs, w1)" "bs \<noteq> []"
  shows "\<exists>st key w2. xPkiReadPrivateKey E C (OBJ_FORM_PSA_ITS u) w = Some (st, key, w2) \<and>
    live w2 = live w \<and> freed w2 = freed w @ [replicate (length bs) 0]"
proof -
  have w1: "live w1 = live w + 1" "freed w1 = freed w"
    using assms(1) by (auto simp: lReadObjectFromPsaIts_def read_object_def Let_def split: prod.splits if_splits bind_splits)
  obtain e key where "mbedtls_pk_parse_key C bs = (e, key)" by (cases "mbedtls_pk_parse_key C bs")
  then show ?thesis
    using assms w1 by (simp add: xPkiReadPrivateKey_def read_stored_key_def wipe_and_free_def mbedtls_free_def)
qed

theorem pki_private_key_wiped_witness:
  "\<exists>st key w2. xPkiReadPrivateKey ex_env ex_crypto (OBJ_FORM_PSA_ITS 7) ex_world = Some (st, key, w2) \<and>
    live w2 = 0 \<and> freed w2 = [[0, 0, 0]]"
proof -
  have "lReadObjectFromPsaIts ex_env 7 ex_world = Some (MBEDTLS_OK, Some [1, 2, 3], ex_world\<lparr>live := 1\<rparr>)"
    by (simp add: lReadObjectFromPsaIts_def read_object_def ex_env_def ex_storage_def ex_world_def)
  from pki_private_key_wiped [OF this, of ex_crypto] show ?thesis by (simp add: ex_world_def numeral_3_eq_3)
qed

text \<open>A private key in the protected storage can never be used: \<open>xPkiReadPrivateKey\<close> reports an invalid
  argument, even after it has loaded the key.\<close>

lemma pki_ps_private_key_refused:
  assumes "xPkiReadPrivateKey E C (OBJ_FORM_PSA_PS u) w = Some (st, key, w')"
  shows "st = PKI_ERR_ARG_INVALID"
  using assms by (auto simp: xPkiReadPrivateKey_def split: bind_splits)

text \<open>A public key of the protected storage is read from the other service.\<close>

lemma pki_ps_public_key_from_its:
  "xPkiReadPublicKeyDer E C (OBJ_FORM_PSA_PS u) w = xPkiReadPublicKeyDer E C (OBJ_FORM_PSA_ITS u) w"
  by (simp add: xPkiReadPublicKeyDer_def)

text \<open>A chain of which only some certificates could be parsed counts as read.\<close>

lemma pki_partial_chain_accepted:
  assumes "mbedtls_x509_crt_parse E (bytes_of buf n) = (MBEDTLS_POSITIVE k, cs)"
  shows "xPkiReadCertificate E C (OBJ_FORM_PEM buf n) chain w = Some (PKI_SUCCESS, chain @ cs, w)"
  using assms by (simp add: xPkiReadCertificate_def)

end
