(* ===== verification/PsaPk.thy ===== *)
theory PsaPk
  imports PsaKeys PkiObject
begin

text \<open>
  Opaque keys for Mbed TLS (\<open>source/crypto/pki/mbedtls_pk_psa.c\<close>): a context whose private key stays in a slot of the PSA
  service and whose public key is a copy. The parser of Mbed TLS, the size of a context and the verification of
  signatures are the record \<open>psa_pk_ops\<close>. The last definition gives the key functions the objects of \<open>PkiObject\<close> use.
\<close>

text \<open>The curve and the point of the public key, and the slot of the private one.\<close>

record psa_pk_ctx =
  ctx_grp :: mbedtls_ecp_group_id
  ctx_Q :: "int \<times> int \<times> int"
  ctx_key_id :: nat

text \<open>What \<open>pk_ctx\<close> points to. A freed block must not be freed again.\<close>

datatype pk_ref = PkNull | PkBlock psa_pk_ctx | PkFreed

text \<open>\<open>pk_is_psa\<close> tells that \<open>pk_info\<close> has been set to the functions of this file.\<close>

record mbedtls_pk_context =
  pk_ctx :: pk_ref
  pk_is_psa :: bool

text \<open>A parsed public key: the curve and the point, and whether its type is \<open>MBEDTLS_PK_ECKEY\<close>.\<close>

record psa_pk_ops =
  parse_public_key :: "byte list \<Rightarrow> mbedtls_err \<times> bool \<times> mbedtls_ecp_group_id \<times> (int \<times> int \<times> int)"
  sizeof_psa_pk_ctx :: nat
  read_signature :: "mbedtls_ecp_group_id \<times> (int \<times> int \<times> int) \<Rightarrow> byte list \<Rightarrow> byte list \<Rightarrow> mbedtls_err"
  ECDSA_MAX_SIG_LEN_256 :: nat

subsection \<open>Contexts\<close>

definition psa_pk_ctx_alloc :: "'s psa_env \<Rightarrow> psa_pk_ops \<Rightarrow> 's psa_world \<Rightarrow> pk_ref \<times> 's psa_world" where
  "psa_pk_ctx_alloc E P w =
     (if calloc_ok E (live w) (sizeof_psa_pk_ctx P)
      then (PkBlock \<lparr>ctx_grp = MBEDTLS_ECP_DP_NONE, ctx_Q = (0, 0, 0), ctx_key_id = 0\<rparr>, w\<lparr>live := live w + 1\<rparr>)
      else (PkNull, w))"

text \<open>The bytes of the context are of no interest.\<close>

definition psa_pk_ctx_free :: "pk_ref \<Rightarrow> 's psa_world \<Rightarrow> (pk_ref \<times> 's psa_world) option" where
  "psa_pk_ctx_free r w =
     (case r of PkNull \<Rightarrow> Some (PkNull, w) | PkBlock c \<Rightarrow> Some (PkFreed, mbedtls_free [] w) | PkFreed \<Rightarrow> None)"

text \<open>The public key of the slot is read, parsed and copied into the context.\<close>

definition load_public_key ::
  "'s psa_env \<Rightarrow> 's psa_keys \<Rightarrow> psa_pk_ops \<Rightarrow> psa_pk_ctx \<Rightarrow> 's psa_world \<Rightarrow> (mbedtls_err \<times> psa_pk_ctx \<times> 's psa_world) option" where
  "load_public_key E K P c w = do {
     (xPsaStatus, der, w) \<leftarrow> xReadPublicKeyFromPSACrypto E K (ctx_key_id c) w;
     (lError, c) \<leftarrow>
       (if xPsaStatus \<noteq> PSA_SUCCESS then Some (mbedtls_psa_err_translate_pk xPsaStatus, c)
        else (case parse_public_key P (case der of None \<Rightarrow> [] | Some bs \<Rightarrow> bs) of
                (lError, eckey, grp, Q) \<Rightarrow>
                  if lError \<noteq> MBEDTLS_OK then Some (lError, c)
                  else do { configASSERT eckey; Some (MBEDTLS_OK, c\<lparr>ctx_grp := grp, ctx_Q := Q\<rparr>) }));
     Some (lError, c, case der of None \<Rightarrow> w | Some bs \<Rightarrow> mbedtls_free bs w)
   }"

text \<open>The argument is a reference to a context, or NULL, which the branch for errors follows. What \<open>pk_ctx\<close> pointed to
  before is freed when the number of the slot is 0, and otherwise overwritten.\<close>

definition lPsa_initMbedtlsPkContext ::
  "'s psa_env \<Rightarrow> 's psa_keys \<Rightarrow> psa_pk_ops \<Rightarrow> mbedtls_pk_context option \<Rightarrow> nat \<Rightarrow> 's psa_world \<Rightarrow>
    (mbedtls_err \<times> mbedtls_pk_context \<times> 's psa_world) option" where
  "lPsa_initMbedtlsPkContext E K P pxMbedtlsPkCtx xKeyId w =
     (case pxMbedtlsPkCtx of
        None \<Rightarrow> None
      | Some ctx \<Rightarrow>
          (if xKeyId = 0 then do { (r, w) \<leftarrow> psa_pk_ctx_free (pk_ctx ctx) w; Some (MBEDTLS_ERR_OTHER 1, ctx\<lparr>pk_ctx := r\<rparr>, w) }
           else
             (case psa_pk_ctx_alloc E P w of
                (PkBlock c, w) \<Rightarrow> do {
                  (lError, c, w) \<leftarrow> load_public_key E K P (c\<lparr>ctx_key_id := xKeyId\<rparr>) w;
                  if lError = MBEDTLS_OK then Some (MBEDTLS_OK, ctx\<lparr>pk_ctx := PkBlock c, pk_is_psa := True\<rparr>, w)
                  else do { (r, w) \<leftarrow> psa_pk_ctx_free (PkBlock c) w; Some (lError, ctx\<lparr>pk_ctx := r\<rparr>, w) }
                }
              | (r, w) \<Rightarrow> Some (MBEDTLS_ERR_OTHER 1, ctx\<lparr>pk_ctx := r\<rparr>, w))))"

subsection \<open>The functions of a context\<close>

definition der_err_code :: "der_err \<Rightarrow> mbedtls_err" where
  "der_err_code e = (case e of MBEDTLS_ERR_ASN1_BUF_TOO_SMALL \<Rightarrow> MBEDTLS_ERR_OTHER 0x6C
     | der_err.MBEDTLS_ERR_PLATFORM_HW_ACCEL_FAILED \<Rightarrow> mbedtls_err.MBEDTLS_ERR_PLATFORM_HW_ACCEL_FAILED)"

text \<open>The raw signature is made at the beginning of the buffer and transcoded in place. The result has the length and the
  buffer.\<close>

definition psa_ecdsa_sign ::
  "'s psa_keys \<Rightarrow> psa_pk_ctx \<Rightarrow> mbedtls_md_type \<Rightarrow> byte list \<Rightarrow> byte list \<Rightarrow> 's \<Rightarrow> mbedtls_err + (nat \<times> byte list)" where
  "psa_ecdsa_sign K c xMdAlg pucHash pucSig s =
     (let alg = PSA_ALG_ECDSA (mbedtls_psa_translate_md xMdAlg);
          room = (if length pucSig \<ge> PSA_SIGNATURE_MAX_SIZE K then PSA_SIGNATURE_MAX_SIZE K else length pucSig)
      in case psa_sign_hash K (ctx_key_id c) alg pucHash room s of
           (status, raw) \<Rightarrow>
             if status \<noteq> PSA_SUCCESS then Inl (mbedtls_psa_err_translate_pk status)
             else (case pk_ecdsa_sig_asn1_from_psa (asn1_length K) (length raw) (overwrite 0 raw pucSig) of
                     Inl e \<Rightarrow> Inl (der_err_code e)
                   | Inr (n, sig) \<Rightarrow> Inr (n, sig)))"

definition psa_ecdsa_get_bitlen :: "'s psa_keys \<Rightarrow> psa_pk_ctx option \<Rightarrow> 's \<Rightarrow> nat option" where
  "psa_ecdsa_get_bitlen K pvCtx s =
     (case pvCtx of
        None \<Rightarrow> None
      | Some c \<Rightarrow> (case psa_get_key_attributes K (ctx_key_id c) s of (xStatus, at) \<Rightarrow> Some (if xStatus = PSA_SUCCESS then attr_bits at else 0)))"

datatype mbedtls_pk_type = MBEDTLS_PK_NONE | MBEDTLS_PK_RSA | MBEDTLS_PK_ECKEY | MBEDTLS_PK_ECKEY_DH | MBEDTLS_PK_ECDSA
  | MBEDTLS_PK_RSA_ALT | MBEDTLS_PK_RSASSA_PSS | MBEDTLS_PK_OPAQUE

definition psa_ecdsa_can_do :: "mbedtls_pk_type \<Rightarrow> bool" where
  "psa_ecdsa_can_do xType \<longleftrightarrow> xType = MBEDTLS_PK_ECDSA"

definition test_hash :: "byte list" where
  "test_hash = [0x01, 0x02, 0x03, 0x04, 0x05, 0x06, 0x07, 0x08, 0x11, 0x12, 0x13, 0x14, 0x15, 0x16, 0x17, 0x18,
     0x21, 0x22, 0x23, 0x24, 0x25, 0x26, 0x27, 0x28, 0x31, 0x32, 0x33, 0x34, 0x35, 0x36, 0x37, 0x38]"

text \<open>\<open>mbedtls_mpi_cmp_mpi\<close>: which of two numbers is larger.\<close>

definition mpi_cmp :: "int \<Rightarrow> int \<Rightarrow> int" where
  "mpi_cmp x y = (if x < y then -1 else if x > y then 1 else 0)"

text \<open>The curves and the points are compared, and a signature of a fixed hash made and verified. A comparison
  returns 1 or -1 when it fails.\<close>

definition psa_ecdsa_check_pair ::
  "'s psa_keys \<Rightarrow> psa_pk_ops \<Rightarrow> (mbedtls_ecp_group_id \<times> (int \<times> int \<times> int)) option \<Rightarrow> psa_pk_ctx option \<Rightarrow> 's \<Rightarrow> mbedtls_err" where
  "psa_ecdsa_check_pair K P pvPub pvPrv s =
     (case (pvPub, pvPrv) of
        (Some (grp, X, Y, Z), Some c) \<Rightarrow>
          (case ctx_Q c of (X', Y', Z') \<Rightarrow>
             let cmp = (if mpi_cmp X X' \<noteq> 0 then mpi_cmp X X' else if mpi_cmp Y Y' \<noteq> 0 then mpi_cmp Y Y' else mpi_cmp Z Z')
             in if grp = MBEDTLS_ECP_DP_NONE \<or> grp \<noteq> ctx_grp c then MBEDTLS_ERR_OTHER 0x4F80
                else if cmp < 0 then MBEDTLS_ERR_OTHER 1
                else if cmp > 0 then MBEDTLS_POSITIVE 1
                else (case psa_ecdsa_sign K c MD_SHA256 test_hash (replicate (ECDSA_MAX_SIG_LEN_256 P) 0) s of
                        Inl e \<Rightarrow> e
                      | Inr (n, sig) \<Rightarrow> read_signature P (grp, X, Y, Z) test_hash (take n sig)))
      | _ \<Rightarrow> MBEDTLS_ERR_OTHER 1)"

subsection \<open>The keys of \<open>PkiObject\<close>\<close>

text \<open>A parsed key is one in memory, with its public key if it is on a curve, or a context of this file.\<close>

datatype 'k pki_key = MemKey 'k "ecp_key option" | SlotKey psa_pk_ctx

definition slot_key :: "mbedtls_err \<Rightarrow> mbedtls_pk_context \<Rightarrow> 'k pki_key option" where
  "slot_key e ctx = (case pk_ctx ctx of PkBlock c \<Rightarrow> if e = MBEDTLS_OK then Some (SlotKey c) else None | _ \<Rightarrow> None)"

text \<open>The calls of \<open>PkiObject.c\<close>, with a context that has just been initialised. The status of reading a public key is taken for an
  error of Mbed TLS as it is; none of the numbers of the service is one that \<open>PkiObject.c\<close> names.\<close>

definition psa_pki_crypto ::
  "'s psa_env \<Rightarrow> 's psa_keys \<Rightarrow> psa_pk_ops \<Rightarrow> (byte list \<Rightarrow> mbedtls_err \<times> 'k pki_key option) \<Rightarrow>
    (byte list \<Rightarrow> mbedtls_err \<times> 'k pki_key option) \<Rightarrow> (byte list \<Rightarrow> mbedtls_err \<times> 'k pki_key option) \<Rightarrow> ('s, 'k pki_key) pki_crypto" where
  "psa_pki_crypto E K P parse_key parse_public parse_subpubkey =
     \<lparr>crypto_read_certificate = lReadCertificateFromPSACrypto E K,
      crypto_write_certificate = lWriteCertificateToPSACrypto K,
      crypto_write_public_key = (\<lambda>i key. lWritePublicKeyToPSACrypto E K i (case key of MemKey k ec \<Rightarrow> ec | SlotKey c \<Rightarrow> None)),
      crypto_read_public_key = (\<lambda>i w. do {
         (xStatus, r, w) \<leftarrow> xReadPublicKeyFromPSACrypto E K i w;
         Some (if xStatus = PSA_SUCCESS then MBEDTLS_OK else MBEDTLS_ERR_OTHER 0, r, w)
       }),
      crypto_init_key = (\<lambda>i w. do {
         (e, ctx, w) \<leftarrow> lPsa_initMbedtlsPkContext E K P (Some \<lparr>pk_ctx = PkNull, pk_is_psa = False\<rparr>) i w;
         Some (e, slot_key e ctx, w)
       }),
      crypto_generate = lGenerateKeyPairECPsaCrypto E K,
      mbedtls_pk_parse_key = parse_key, mbedtls_pk_parse_public_key = parse_public, mbedtls_pk_parse_subpubkey = parse_subpubkey\<rparr>"

end
