(* ===== verification/PsaKeysSpec.thy ===== *)
theory PsaKeysSpec
  imports PsaKeys
begin

text \<open>The public key of a slot as a DER document: for which curves it is made, and that a new pair has one key in both slots.\<close>

subsection \<open>Writing from the end of a buffer\<close>

text \<open>The buffer of \<open>n\<close> bytes ends with \<open>t\<close>, which begins at the position.\<close>

definition holds :: "nat \<Rightarrow> byte list \<Rightarrow> der_state \<Rightarrow> bool" where
  "holds n t st \<longleftrightarrow> length (snd st) = n \<and> fst st + length t = n \<and> drop (fst st) (snd st) = t"

lemma der_put_holds:
  assumes "holds n t st" "length xs + length t \<le> n"
  obtains st' where "der_put xs st = Inr (length xs, st')" "holds n (xs @ t) st'"
proof -
  obtain p buf where st: "st = (p, buf)" by (cases st)
  have h: "length buf = n" "p + length t = n" "drop p buf = t" using assms(1) st by (simp_all add: holds_def)
  have "0 + length xs \<le> p" "p \<le> length buf" using h assms(2) by simp_all
  then obtain buf' where "asn1_put xs p 0 buf = Inr (length xs, p - length xs, buf')" "length buf' = length buf"
    "drop (p - length xs) buf' = xs @ drop p buf" by (rule asn1_put_ok)
  then show ?thesis using that [of "(p - length xs, buf')"] st h assms(2) by (simp add: der_put_def holds_def)
qed

lemma der_puts_holds:
  assumes "holds n t st" "length (concat (rev xss)) + length t \<le> n"
  obtains st' where "der_puts xss st = Inr (length (concat (rev xss)), st')" "holds n (concat (rev xss) @ t) st'"
proof -
  have "\<exists>st'. der_puts xss st = Inr (length (concat (rev xss)), st') \<and> holds n (concat (rev xss) @ t) st'"
    using assms
  proof (induction xss arbitrary: t st)
    case (Cons xs xss)
    have "length xs + length t \<le> n" using Cons.prems(2) by simp
    with Cons.prems(1) obtain st1 where st1: "der_put xs st = Inr (length xs, st1)" "holds n (xs @ t) st1" by (rule der_put_holds)
    have "length (concat (rev xss)) + length (xs @ t) \<le> n" using Cons.prems(2) by simp
    from Cons.IH [OF st1(2) this] st1(1) show ?case by auto
  qed simp
  with that show ?thesis by blast
qed

text \<open>A tag, a length and a body.\<close>

definition tlv :: "(nat \<Rightarrow> byte list) \<Rightarrow> byte \<Rightarrow> byte list \<Rightarrow> byte list" where
  "tlv asn1_len tag body = tag # asn1_len (length body) @ body"

lemma length_tlv: "length (tlv L tag body) = length body + (1 + length (L (length body)))" by (simp add: tlv_def)

lemma tlv_around:
  assumes "holds n (body @ t) st" "length (tlv L tag body) + length t \<le> n" "k = length body"
  obtains st' where "der_puts [L k, [tag]] st = Inr (1 + length (L k), st')" "holds n (tlv L tag body @ t) st'"
proof -
  have "length (concat (rev [L k, [tag]])) + length (body @ t) \<le> n" using assms(2,3) by (simp add: tlv_def)
  with assms(1) obtain st' where "der_puts [L k, [tag]] st = Inr (length (concat (rev [L k, [tag]])), st')"
    "holds n (concat (rev [L k, [tag]]) @ body @ t) st'" by (rule der_puts_holds)
  with that assms(3) show ?thesis by (simp add: tlv_def)
qed

definition algorithm :: "(nat \<Rightarrow> byte list) \<Rightarrow> byte list \<Rightarrow> byte list \<Rightarrow> byte list" where
  "algorithm L oid par = tlv L 0x30 (tlv L 6 oid @ par)"

text \<open>What the two writers of Mbed TLS promise when there is room.\<close>

definition writes :: "(der_state \<Rightarrow> int + (nat \<times> der_state)) \<Rightarrow> byte list \<Rightarrow> byte list \<Rightarrow> bool" where
  "writes f new old \<longleftrightarrow> (\<forall>n t st. holds n (old @ t) st \<longrightarrow> length (new @ t) \<le> n \<longrightarrow>
     (\<exists>st'. f st = Inr (length new, st') \<and> holds n (new @ t) st'))"

definition der_writers :: "'s psa_keys \<Rightarrow> bool" where
  "der_writers K \<longleftrightarrow>
     (\<forall>oid. writes (mbedtls_asn1_write_oid K oid) (tlv (asn1_length K) 6 oid) []) \<and>
     (\<forall>oid par. par \<noteq> [] \<longrightarrow>
        writes (mbedtls_asn1_write_algorithm_identifier K oid (length par)) (algorithm (asn1_length K) oid par) par)"

lemma oid_holds:
  assumes "der_writers K" "holds n t st" "length (tlv (asn1_length K) 6 oid) + length t \<le> n"
  obtains st' where "mbedtls_asn1_write_oid K oid st = Inr (length (tlv (asn1_length K) 6 oid), st')" "holds n (tlv (asn1_length K) 6 oid @ t) st'"
  using assms unfolding der_writers_def writes_def by (metis append_Nil length_append)

lemma algorithm_holds:
  assumes "der_writers K" "holds n (par @ t) st" "length (algorithm (asn1_length K) oid par) + length t \<le> n" "par \<noteq> []"
  obtains st' where "mbedtls_asn1_write_algorithm_identifier K oid (length par) st = Inr (length (algorithm (asn1_length K) oid par), st')"
    "holds n (algorithm (asn1_length K) oid par @ t) st'"
  using assms unfolding der_writers_def writes_def by (metis length_append)

text \<open>The document: the algorithm with its curve, and the point behind a zero as a bit string.\<close>

definition spki :: "(nat \<Rightarrow> byte list) \<Rightarrow> byte list \<Rightarrow> byte list \<Rightarrow> byte list \<Rightarrow> byte list" where
  "spki L oid curve pt = tlv L 0x30 (algorithm L oid (tlv L 6 curve) @ tlv L 3 (0 # pt))"

lemma write_curve_holds:
  assumes wr: "der_writers K" and "holds n t st" "length (tlv (asn1_length K) 6 c) + length t \<le> n" "PSA_KEY_TYPE_IS_ECC (attr_type at)"
    and "mbedtls_psa_get_ecc_oid_from_id (PSA_KEY_TYPE_ECC_GET_FAMILY (attr_type at)) (attr_bits at) = Some c"
  obtains st' where "write_curve K at st =
      (mbedtls_to_psa_error (int (length (tlv (asn1_length K) 6 c))), length (tlv (asn1_length K) 6 c), st')"
    "holds n (tlv (asn1_length K) 6 c @ t) st'"
proof -
  from assms(1-3) obtain st' where "mbedtls_asn1_write_oid K c st = Inr (length (tlv (asn1_length K) 6 c), st')"
    "holds n (tlv (asn1_length K) 6 c @ t) st'" by (rule oid_holds)
  with that assms(4,5) show ?thesis by (simp add: write_curve_def)
qed

text \<open>The steps up to the algorithm; what its length means as an error decides how they go on.\<close>

lemma write_spki_steps:
  assumes "holds n (0 # pt) st" "PSA_KEY_TYPE_IS_ECC (attr_type at)"
    and "mbedtls_psa_get_ecc_oid_from_id (PSA_KEY_TYPE_ECC_GET_FAMILY (attr_type at)) (attr_bits at) = Some c" "oid_ec_key K = Some a"
    and fit: "length (algorithm (asn1_length K) a (tlv (asn1_length K) 6 c) @ tlv (asn1_length K) 3 (0 # pt)) \<le> n"
    and curve: "mbedtls_to_psa_error (int (length (tlv (asn1_length K) 6 c))) = PSA_SUCCESS" and wr: "der_writers K"
  obtains st3 where
    "holds n (algorithm (asn1_length K) a (tlv (asn1_length K) 6 c) @ tlv (asn1_length K) 3 (0 # pt)) st3"
    "write_spki K at (length pt + 1) st =
      (let alg = algorithm (asn1_length K) a (tlv (asn1_length K) 6 c); xStatus = mbedtls_to_psa_error (int (length alg));
           k = length (alg @ tlv (asn1_length K) 3 (0 # pt))
       in if xStatus \<noteq> PSA_SUCCESS then (xStatus, 0, snd st3)
          else (case der_put (asn1_length K k) st3 of
                  Inl e \<Rightarrow> (mbedtls_to_psa_error e, 0, snd st3)
                | Inr (n4, st) \<Rightarrow>
                    (case der_put [0x30] st of
                       Inl e \<Rightarrow> (mbedtls_to_psa_error e, 0, snd st)
                     | Inr (n5, st) \<Rightarrow> (mbedtls_to_psa_error (int n5), k + n4 + n5, snd st))))"
proof -
  let ?L = "asn1_length K" and ?cur = "tlv (asn1_length K) 6 c"
  have "holds n ((0 # pt) @ []) st" "length (tlv ?L 3 (0 # pt)) + length [] \<le> n" "length pt + 1 = length (0 # pt)"
    using assms(1) fit by simp_all
  then obtain st1 where st1: "der_puts [?L (length pt + 1), [3]] st = Inr (1 + length (?L (length pt + 1)), st1)" "holds n (tlv ?L 3 (0 # pt) @ []) st1"
    by (rule tlv_around)
  have "length ?cur + length (tlv ?L 3 (0 # pt)) \<le> n" using fit by (simp add: algorithm_def tlv_def)
  with st1(2) obtain st2 where st2: "write_curve K at st1 = (mbedtls_to_psa_error (int (length ?cur)), length ?cur, st2)"
    "holds n (?cur @ tlv ?L 3 (0 # pt)) st2" using write_curve_holds [OF wr, of n _ st1 c at] assms(2,3) by (metis append_Nil2)
  have "length (algorithm ?L a ?cur) + length (tlv ?L 3 (0 # pt)) \<le> n" "?cur \<noteq> []" using fit by (simp_all add: tlv_def)
  with wr st2(2) obtain st3 where st3: "mbedtls_asn1_write_algorithm_identifier K a (length ?cur) st2 = Inr (length (algorithm ?L a ?cur), st3)"
    "holds n (algorithm ?L a ?cur @ tlv ?L 3 (0 # pt)) st3" by (rule algorithm_holds)
  have k: "length (algorithm ?L a ?cur @ tlv ?L 3 (0 # pt)) = length pt + 1 + (1 + length (?L (length pt + 1))) + length (algorithm ?L a ?cur)"
    by (simp add: length_tlv)
  show ?thesis
    by (rule that [OF st3(2)]) (simp only: write_spki_def returned_def Let_def k st1(1) st2(1) st3(1) assms(2,4) curve sum.case option.case prod.case if_True simp_thms if_False)
qed

subsection \<open>Reading a public key\<close>

text \<open>What is relied on: DER lengths below 128 have one byte and those below 256 at most two, the identifier of the algorithm
  has seven bytes, the largest curve 66 bytes, and the writers do what they promise.\<close>

definition der_parameters :: "'s psa_keys \<Rightarrow> byte list \<Rightarrow> bool" where
  "der_parameters K a \<longleftrightarrow> oid_ec_key K = Some a \<and> length a = 7 \<and> MBEDTLS_ECP_MAX_BYTES K = 66 \<and>
     (\<forall>n<128. length (asn1_length K n) = 1) \<and> (\<forall>n<256. length (asn1_length K n) \<le> 2) \<and> der_writers K"

lemma der_parameters_writers: "der_parameters K a \<Longrightarrow> der_writers K" by (simp add: der_parameters_def)

text \<open>The slot holds a key of a curve of the NIST with the point \<open>pt\<close>.\<close>

definition nist_point_length :: "nat \<Rightarrow> nat" where
  "nist_point_length bits = 2 * ((bits + 7) div 8) + 1"

definition nist_key :: "'s psa_keys \<Rightarrow> nat \<Rightarrow> 's \<Rightarrow> psa_key_attributes \<Rightarrow> byte list \<Rightarrow> bool" where
  "nist_key K i s at pt \<longleftrightarrow> psa_get_key_attributes K i s = (PSA_SUCCESS, at) \<and> attr_bits at \<in> {256, 384, 521} \<and>
     length pt = nist_point_length (attr_bits at) \<and>
     PSA_EXPORT_PUBLIC_KEY_OUTPUT_SIZE K (attr_type at) (attr_bits at) = nist_point_length (attr_bits at) \<and>
     (attr_type at = PUBLIC_KEY_ECC PSA_ECC_FAMILY_SECP_R1 \<and> psa_export_key K i 162 s = (PSA_SUCCESS, pt) \<or>
      attr_type at = KEY_PAIR_ECC PSA_ECC_FAMILY_SECP_R1 \<and> psa_export_public_key K i 162 s = (PSA_SUCCESS, pt))"

lemma nist_keyD:
  assumes "nist_key K i s at pt"
  shows "PSA_KEY_TYPE_IS_ECC (attr_type at)" "PSA_KEY_TYPE_ECC_GET_FAMILY (attr_type at) = PSA_ECC_FAMILY_SECP_R1"
    "length pt < 162" "psa_get_key_attributes K i s = (PSA_SUCCESS, at)"
    "PSA_EXPORT_PUBLIC_KEY_OUTPUT_SIZE K (attr_type at) (attr_bits at) + 1 \<le> 162"
  using assms by (auto simp: nist_key_def nist_point_length_def)

lemma export_nist_key:
  assumes "nist_key K i s at pt"
  obtains st where "export_to_end K (attr_type at) i 162 s = Some (PSA_SUCCESS, length pt + 1, st)" "holds 162 (0 # pt) st"
proof -
  let ?p = "162 - length pt - 1"
  have "export_to_end K (attr_type at) i 162 s = Some (PSA_SUCCESS, length pt + 1, ?p, overwrite ?p (0 # pt) (replicate 162 0))"
    using assms nist_keyD(3) [OF assms] by (auto simp: nist_key_def export_to_end_def)
  moreover have "holds 162 (0 # pt) (?p, overwrite ?p (0 # pt) (replicate 162 0))"
    using nist_keyD(3) [OF assms] by (simp add: holds_def overwrite_def)
  ultimately show ?thesis by (rule that)
qed

lemma read_nist_key:
  assumes "nist_key K i (its_state w) at pt" "MBEDTLS_ECP_MAX_BYTES K = 66" "calloc_ok E (live w) 162"
    and "export_to_end K (attr_type at) i 162 (its_state w) = Some (PSA_SUCCESS, length pt + 1, st)"
    and "write_spki K at (length pt + 1) st = (e, n, buf)"
  shows "xReadPublicKeyFromPSACrypto E K i w =
    Some (if e = PSA_SUCCESS then (PSA_SUCCESS, Some (take n (drop (162 - n) buf)), w\<lparr>live := live w + 1\<rparr>)
          else (e, None, mbedtls_free buf (w\<lparr>live := live w + 1\<rparr>)))"
  using assms nist_keyD [OF assms(1)] by (simp add: xReadPublicKeyFromPSACrypto_def)

lemma psa_error_of_length:
  "mbedtls_to_psa_error 1 = PSA_SUCCESS" "mbedtls_to_psa_error 7 = PSA_SUCCESS" "mbedtls_to_psa_error 10 = PSA_SUCCESS"
  "mbedtls_to_psa_error 21 = PSA_SUCCESS" "mbedtls_to_psa_error 18 = PSA_ERROR_CORRUPTION_DETECTED"
  by (simp_all add: mbedtls_to_psa_error_def psa_error_table_def)

definition p256_oid :: "byte list" where
  "p256_oid = [0x2A, 0x86, 0x48, 0xCE, 0x3D, 0x03, 0x01, 0x07]"

lemma nist_curve:
  assumes "bits \<in> {256, 384, 521}"
  obtains c where "mbedtls_psa_get_ecc_oid_from_id PSA_ECC_FAMILY_SECP_R1 bits = Some c"
    "length c = (if bits = 256 then 8 else 5)" "bits = 256 \<Longrightarrow> c = p256_oid"
  using assms by (auto simp: mbedtls_psa_get_ecc_oid_from_id_def p256_oid_def)

text \<open>The lengths of the parts.\<close>

lemma der_lengths:
  assumes "der_parameters K a" "length c \<in> {5, 8}"
  shows "length (tlv (asn1_length K) 6 c) = length c + 2"
    "length (algorithm (asn1_length K) a (tlv (asn1_length K) 6 c)) = length c + 13"
    "length (0 # pt) < 128 \<Longrightarrow> length (tlv (asn1_length K) 3 (0 # pt)) = length pt + 3"
    "length (0 # pt) < 256 \<Longrightarrow> length (tlv (asn1_length K) 3 (0 # pt)) \<le> length pt + 4"
  using assms by (auto simp: der_parameters_def algorithm_def length_tlv)

lemma write_spki_nist:
  assumes "holds 162 (0 # pt) st" "PSA_KEY_TYPE_IS_ECC (attr_type at)" "PSA_KEY_TYPE_ECC_GET_FAMILY (attr_type at) = PSA_ECC_FAMILY_SECP_R1"
    and "attr_bits at \<in> {256, 384, 521}" "length pt = nist_point_length (attr_bits at)" "der_parameters K a"
  obtains st3 where "if attr_bits at = 256 then holds 162 (spki (asn1_length K) a p256_oid pt) st3 \<and>
        write_spki K at (length pt + 1) st = (PSA_SUCCESS, 91, snd st3)
      else write_spki K at (length pt + 1) st = (PSA_ERROR_CORRUPTION_DETECTED, 0, snd st3)"
proof -
  from assms(4) obtain c where c: "mbedtls_psa_get_ecc_oid_from_id PSA_ECC_FAMILY_SECP_R1 (attr_bits at) = Some c"
    "length c = (if attr_bits at = 256 then 8 else 5)" "attr_bits at = 256 \<Longrightarrow> c = p256_oid" by (rule nist_curve) blast
  let ?L = "asn1_length K"
  let ?alg = "algorithm ?L a (tlv ?L 6 c)" and ?bits = "tlv ?L 3 (0 # pt)"
  have pt: "length (0 # pt) < 256" "length ?bits \<le> length pt + 4" "length pt \<le> 133"
    "attr_bits at = 256 \<Longrightarrow> length ?bits = 68 \<and> length pt = 65"
    using assms(4,5) der_lengths(3,4) [OF assms(6), of c pt] c(2) by (auto simp: nist_point_length_def split: if_splits)
  have len: "length (tlv ?L 6 c) = length c + 2" "length ?alg = length c + 13" using der_lengths(1,2) [OF assms(6)] c(2) by simp_all
  have fit: "length (?alg @ ?bits) \<le> 162" using len pt c(2) by (simp split: if_splits)
  have cur: "mbedtls_to_psa_error (int (length (tlv ?L 6 c))) = PSA_SUCCESS" using len(1) c(2) by (simp add: psa_error_of_length)
  have "mbedtls_psa_get_ecc_oid_from_id (PSA_KEY_TYPE_ECC_GET_FAMILY (attr_type at)) (attr_bits at) = Some c" "oid_ec_key K = Some a"
    using c(1) assms(3,6) by (simp_all add: der_parameters_def)
  then obtain st3 where st3: "holds 162 (?alg @ ?bits) st3"
    "write_spki K at (length pt + 1) st =
      (let alg = ?alg; xStatus = mbedtls_to_psa_error (int (length alg)); k = length (alg @ ?bits)
       in if xStatus \<noteq> PSA_SUCCESS then (xStatus, 0, snd st3)
          else (case der_put (?L k) st3 of
                  Inl e \<Rightarrow> (mbedtls_to_psa_error e, 0, snd st3)
                | Inr (n4, st) \<Rightarrow>
                    (case der_put [0x30] st of
                       Inl e \<Rightarrow> (mbedtls_to_psa_error e, 0, snd st)
                     | Inr (n5, st) \<Rightarrow> (mbedtls_to_psa_error (int n5), k + n4 + n5, snd st))))"
    using cur der_parameters_writers [OF assms(6)] by (rule write_spki_steps [OF assms(1,2) _ _ fit])
  show ?thesis
  proof (cases "attr_bits at = 256")
    case False
    then show ?thesis using that [of st3] st3(2) len(2) c(2) by (simp add: psa_error_of_length Let_def)
  next
    case True
    have k: "length (?alg @ ?bits) = 89" using len(2) c(2) pt(4) True by simp
    have L: "length (?L 89) = 1" using assms(6) by (simp add: der_parameters_def)
    obtain st4 where st4: "der_put (?L 89) st3 = Inr (length (?L 89), st4)" "holds 162 (?L 89 @ ?alg @ ?bits) st4"
      using der_put_holds [OF st3(1), of "?L 89"] k L by auto
    obtain st5 where st5: "der_put [0x30] st4 = Inr (length [0x30 :: byte], st5)" "holds 162 ([0x30] @ ?L 89 @ ?alg @ ?bits) st5"
      using der_put_holds [OF st4(2), of "[0x30]"] k L by auto
    have "write_spki K at (length pt + 1) st = (PSA_SUCCESS, 91, snd st5)"
      using st3(2) k st4(1) st5(1) len(2) c(2) L True by (simp add: psa_error_of_length)
    moreover have "[0x30] @ ?L 89 @ ?alg @ ?bits = spki ?L a p256_oid pt"
      unfolding spki_def c(3) [OF True, symmetric] using k by (simp add: tlv_def [of ?L 48])
    ultimately show ?thesis using that [of st5] st5(2) True by simp
  qed
qed

lemma read_of_nist_key:
  assumes "nist_key K i (its_state w) at pt" "der_parameters K a" "calloc_ok E (live w) 162"
  obtains buf where "xReadPublicKeyFromPSACrypto E K i w =
    Some (if attr_bits at = 256 then (PSA_SUCCESS, Some (spki (asn1_length K) a p256_oid pt), w\<lparr>live := live w + 1\<rparr>)
          else (PSA_ERROR_CORRUPTION_DETECTED, None, mbedtls_free buf (w\<lparr>live := live w + 1\<rparr>)))"
proof -
  from assms(1) obtain st where st: "export_to_end K (attr_type at) i 162 (its_state w) = Some (PSA_SUCCESS, length pt + 1, st)" "holds 162 (0 # pt) st"
    by (rule export_nist_key)
  have "attr_bits at \<in> {256, 384, 521}" "length pt = nist_point_length (attr_bits at)" using assms(1) by (simp_all add: nist_key_def)
  from st(2) nist_keyD(1,2) [OF assms(1)] this assms(2) obtain st3 where st3:
    "if attr_bits at = 256 then holds 162 (spki (asn1_length K) a p256_oid pt) st3 \<and>
        write_spki K at (length pt + 1) st = (PSA_SUCCESS, 91, snd st3)
      else write_spki K at (length pt + 1) st = (PSA_ERROR_CORRUPTION_DETECTED, 0, snd st3)" by (rule write_spki_nist)
  have read: "write_spki K at (length pt + 1) st = (e, n, buf) \<Longrightarrow> xReadPublicKeyFromPSACrypto E K i w =
      Some (if e = PSA_SUCCESS then (PSA_SUCCESS, Some (take n (drop (162 - n) buf)), w\<lparr>live := live w + 1\<rparr>)
            else (e, None, mbedtls_free buf (w\<lparr>live := live w + 1\<rparr>)))" for e n buf
    using assms(1) _ assms(3) st(1) by (rule read_nist_key) (use assms(2) in \<open>simp_all add: der_parameters_def\<close>)
  show ?thesis
  proof (cases "attr_bits at = 256")
    case True
    have "length (spki (asn1_length K) a p256_oid pt) = 91"
      using assms(2) \<open>length pt = _\<close> True
      by (auto simp: spki_def length_tlv algorithm_def der_parameters_def nist_point_length_def p256_oid_def)
    then have "take 91 (drop (162 - 91) (snd st3)) = spki (asn1_length K) a p256_oid pt" using st3 True by (auto simp: holds_def)
    then show ?thesis using that [of "[]"] read [of PSA_SUCCESS 91 "snd st3"] st3 True by simp
  next
    case False
    then show ?thesis using that [of "snd st3"] read [of PSA_ERROR_CORRUPTION_DETECTED 0 "snd st3"] st3 by simp
  qed
qed

subsection \<open>Making a pair\<close>

text \<open>A service that works, as a map from the identifiers of the slots to attributes and points: an empty slot can be filled,
  and the public part of a key can be exported where its policy allows it.\<close>

type_synonym key_slots = "nat \<Rightarrow> (psa_key_attributes \<times> byte list) option"

definition lookups_work :: "'s psa_keys \<Rightarrow> ('s \<Rightarrow> key_slots) \<Rightarrow> bool" where
  "lookups_work K slots \<longleftrightarrow> (\<forall>i s at pt. slots s i = Some (at, pt) \<longrightarrow> length pt \<le> 162 \<longrightarrow>
     psa_get_key_attributes K i s = (PSA_SUCCESS, at) \<and>
     PSA_EXPORT_PUBLIC_KEY_OUTPUT_SIZE K (attr_type at) (attr_bits at) = nist_point_length (attr_bits at) \<and>
     (PSA_KEY_TYPE_IS_KEY_PAIR (attr_type at) \<longrightarrow> psa_export_public_key K i 162 s = (PSA_SUCCESS, pt)) \<and>
     (PSA_KEY_TYPE_IS_PUBLIC_KEY (attr_type at) \<and> USAGE_EXPORT \<in> attr_usage at \<longrightarrow> psa_export_key K i 162 s = (PSA_SUCCESS, pt)))"

definition slots_work :: "'s psa_keys \<Rightarrow> ('s \<Rightarrow> key_slots) \<Rightarrow> bool" where
  "slots_work K slots \<longleftrightarrow>
     (\<forall>i s. fst (psa_destroy_key K i s) \<in> {PSA_SUCCESS, PSA_ERROR_INVALID_HANDLE} \<and>
            slots (snd (psa_destroy_key K i s)) = (slots s)(i := None)) \<and>
     (\<forall>at s. slots s (attr_id at) = None \<longrightarrow> attr_type at = KEY_PAIR_ECC PSA_ECC_FAMILY_SECP_R1 \<longrightarrow>
        (\<exists>pt s'. psa_generate_key K at s = (PSA_SUCCESS, s') \<and> length pt = nist_point_length (attr_bits at) \<and>
           slots s' = (slots s)(attr_id at \<mapsto> (at, pt)))) \<and>
     (\<forall>at pt s. slots s (attr_id at) = None \<longrightarrow> attr_type at = PUBLIC_KEY_ECC PSA_ECC_FAMILY_SECP_R1 \<longrightarrow>
        (\<exists>s'. psa_import_key K at pt s = (PSA_SUCCESS, s') \<and> slots s' = (slots s)(attr_id at \<mapsto> (at, pt))))"

lemma destroy_slot_works:
  assumes "slots_work K slots"
  obtains s' where "destroy_slot K i s = (PSA_SUCCESS, s')" "slots s' = (slots s)(i := None)"
proof -
  obtain st s' where d: "psa_destroy_key K i s = (st, s')" by (cases "psa_destroy_key K i s")
  from assms have "fst (psa_destroy_key K i s) \<in> {PSA_SUCCESS, PSA_ERROR_INVALID_HANDLE}"
    "slots (snd (psa_destroy_key K i s)) = (slots s)(i := None)" unfolding slots_work_def by blast+
  with that [of s'] d show ?thesis by (auto simp: destroy_slot_def)
qed

lemma generate_works:
  assumes "slots_work K slots" "slots s (attr_id at) = None" "attr_type at = KEY_PAIR_ECC PSA_ECC_FAMILY_SECP_R1"
  obtains pt s' where "psa_generate_key K at s = (PSA_SUCCESS, s')" "length pt = nist_point_length (attr_bits at)"
    "slots s' = (slots s)(attr_id at \<mapsto> (at, pt))"
  using assms unfolding slots_work_def by blast

lemma import_works:
  assumes "slots_work K slots" "slots s (attr_id at) = None" "attr_type at = PUBLIC_KEY_ECC PSA_ECC_FAMILY_SECP_R1"
  obtains s' where "psa_import_key K at pt s = (PSA_SUCCESS, s')" "slots s' = (slots s)(attr_id at \<mapsto> (at, pt))"
  using assms unfolding slots_work_def by blast

lemma slot_nist_key:
  assumes "lookups_work K slots" "slots s i = Some (at, pt)" "attr_bits at \<in> {256, 384, 521}" "length pt = nist_point_length (attr_bits at)"
    and "attr_type at = KEY_PAIR_ECC PSA_ECC_FAMILY_SECP_R1 \<or>
      attr_type at = PUBLIC_KEY_ECC PSA_ECC_FAMILY_SECP_R1 \<and> USAGE_EXPORT \<in> attr_usage at"
  shows "nist_key K i s at pt"
proof -
  have "length pt \<le> 162" using assms(3,4) by (auto simp: nist_point_length_def)
  then show ?thesis using assms(3-5) assms(1)[unfolded lookups_work_def, rule_format, OF assms(2)] by (auto simp: nist_key_def)
qed

definition pair_attributes :: "nat \<Rightarrow> psa_key_attributes" where
  "pair_attributes i = \<lparr>attr_id = i, attr_type = KEY_PAIR_ECC PSA_ECC_FAMILY_SECP_R1, attr_bits = 256,
     attr_usage = {USAGE_SIGN_HASH, USAGE_VERIFY_HASH, USAGE_SIGN_MESSAGE, USAGE_VERIFY_MESSAGE, USAGE_DERIVE,
       USAGE_VERIFY_DERIVATION, USAGE_ENCRYPT, USAGE_DECRYPT}, attr_alg = PSA_ALG_ECDSA ALG_SHA_256\<rparr>"

definition public_attributes :: "nat \<Rightarrow> psa_key_attributes" where
  "public_attributes i = \<lparr>attr_id = i, attr_type = PUBLIC_KEY_ECC PSA_ECC_FAMILY_SECP_R1, attr_bits = 256,
     attr_usage = {USAGE_EXPORT}, attr_alg = PSA_ALG_ECDSA ALG_SHA_256\<rparr>"

lemma spki_ends: obtains pre where "spki L a c pt = pre @ pt"
  unfolding spki_def tlv_def [of L 48] tlv_def [of L 3] by (metis append_assoc append_Cons append_Nil)

lemma spki_point: "drop (length (spki L a c pt) - length pt) (spki L a c pt) = pt"
  by (rule spki_ends [of L a c pt]) simp

lemma generated_pair_works:
  assumes "slots_work K slots" "lookups_work K slots" "der_parameters K a" "\<forall>n. calloc_ok E n 162"
    and "prv \<noteq> 0" "pub \<noteq> 0" "prv \<noteq> pub" "PSA_EXPORT_PUBLIC_KEY_OUTPUT_SIZE K (KEY_PAIR_ECC PSA_ECC_FAMILY_SECP_R1) 256 = 65"
  obtains pt w' where "lGenerateKeyPairECPsaCrypto E K prv pub w = Some (MBEDTLS_OK, Some (spki (asn1_length K) a p256_oid pt), w')"
    "slots (its_state w') = (slots (its_state w))(prv \<mapsto> (pair_attributes prv, pt), pub \<mapsto> (public_attributes pub, pt))"
    "length pt = 65" "live w' = live w + 1"
proof -
  obtain s1 where s1: "destroy_slot K prv (its_state w) = (PSA_SUCCESS, s1)" "slots s1 = (slots (its_state w))(prv := None)"
    using assms(1) by (rule destroy_slot_works)
  obtain s2 where s2: "destroy_slot K pub s1 = (PSA_SUCCESS, s2)" "slots s2 = (slots s1)(pub := None)"
    using assms(1) by (rule destroy_slot_works)
  have "slots s2 (attr_id (pair_attributes prv)) = None" "attr_type (pair_attributes prv) = KEY_PAIR_ECC PSA_ECC_FAMILY_SECP_R1"
    using s1(2) s2(2) by (simp_all add: pair_attributes_def)
  with assms(1) obtain pt s3 where s3: "psa_generate_key K (pair_attributes prv) s2 = (PSA_SUCCESS, s3)"
    "length pt = nist_point_length (attr_bits (pair_attributes prv))" "slots s3 = (slots s2)(attr_id (pair_attributes prv) \<mapsto> (pair_attributes prv, pt))"
    by (rule generate_works)
  have pt: "length pt = 65" using s3(2) by (simp add: pair_attributes_def nist_point_length_def)
  let ?w = "w\<lparr>its_state := s3\<rparr>" and ?der = "spki (asn1_length K) a p256_oid pt"
  have "nist_key K prv (its_state ?w) (pair_attributes prv) pt"
    using assms(2) by (rule slot_nist_key) (use s3 in \<open>simp_all add: pair_attributes_def\<close>)
  then obtain buf where "xReadPublicKeyFromPSACrypto E K prv ?w =
    Some (if attr_bits (pair_attributes prv) = 256 then (PSA_SUCCESS, Some ?der, ?w\<lparr>live := live ?w + 1\<rparr>)
          else (PSA_ERROR_CORRUPTION_DETECTED, None, mbedtls_free buf (?w\<lparr>live := live ?w + 1\<rparr>)))"
    using assms(3) assms(4)[rule_format] by (rule read_of_nist_key)
  then have read: "xReadPublicKeyFromPSACrypto E K prv ?w = Some (PSA_SUCCESS, Some ?der, ?w\<lparr>live := live w + 1\<rparr>)"
    by (simp add: pair_attributes_def)
  have "slots s3 (attr_id (public_attributes pub)) = None" "attr_type (public_attributes pub) = PUBLIC_KEY_ECC PSA_ECC_FAMILY_SECP_R1"
    using s1(2) s2(2) s3(3) assms(7) by (simp_all add: pair_attributes_def public_attributes_def)
  with assms(1) obtain s4 where s4: "psa_import_key K (public_attributes pub) pt s3 = (PSA_SUCCESS, s4)"
    "slots s4 = (slots s3)(attr_id (public_attributes pub) \<mapsto> (public_attributes pub, pt))" by (rule import_works)
  have fit: "65 \<le> length ?der" "drop (length ?der - 65) ?der = pt"
    using pt spki_point [of "asn1_length K" a p256_oid pt] by (simp_all add: spki_def tlv_def)
  have "lGenerateKeyPairECPsaCrypto E K prv pub w = Some (MBEDTLS_OK, Some ?der, w\<lparr>its_state := s4, live := live w + 1\<rparr>)"
    using s1(1) s2(1) s3(1) read s4(1) fit assms(5,6,8)
    by (simp add: lGenerateKeyPairECPsaCrypto_def pair_attributes_def public_attributes_def)
  moreover have "slots s4 = (slots (its_state w))(prv \<mapsto> (pair_attributes prv, pt), pub \<mapsto> (public_attributes pub, pt))"
    using s1(2) s2(2) s3(3) s4(2) assms(7) by (auto simp: fun_eq_iff pair_attributes_def public_attributes_def)
  ultimately show ?thesis using that pt by simp
qed

subsection \<open>Properties\<close>

text \<open>Writers that keep the promise.\<close>

definition oid_writer :: "(nat \<Rightarrow> byte list) \<Rightarrow> byte list \<Rightarrow> der_state \<Rightarrow> int + (nat \<times> der_state)" where
  "oid_writer asn1_len oid st = der_puts [oid, asn1_len (length oid), [0x06]] st"

text \<open>Without parameters a NULL is written in their place.\<close>

definition algorithm_writer ::
  "(nat \<Rightarrow> byte list) \<Rightarrow> byte list \<Rightarrow> nat \<Rightarrow> der_state \<Rightarrow> int + (nat \<times> der_state)" where
  "algorithm_writer asn1_len oid par_len st =
     (case (if par_len = 0 then der_puts [asn1_len 0, [0x05]] st else Inr (par_len, st)) of
        Inl e \<Rightarrow> Inl e
      | Inr (n, st) \<Rightarrow>
          (case oid_writer asn1_len oid st of
             Inl e \<Rightarrow> Inl e
           | Inr (m, st) \<Rightarrow>
               (case der_puts [asn1_len (n + m), [0x30]] st of Inl e \<Rightarrow> Inl e | Inr (k, st) \<Rightarrow> Inr (n + m + k, st))))"

lemma oid_writer_holds:
  assumes "holds n t st" "length (tlv L 6 oid) + length t \<le> n"
  obtains st' where "oid_writer L oid st = Inr (length (tlv L 6 oid), st')" "holds n (tlv L 6 oid @ t) st'"
proof -
  have "length (concat (rev [oid, L (length oid), [6]])) + length t \<le> n" using assms(2) by (simp add: tlv_def)
  with assms(1) obtain st' where "der_puts [oid, L (length oid), [6]] st = Inr (length (concat (rev [oid, L (length oid), [6]])), st')"
    "holds n (concat (rev [oid, L (length oid), [6]]) @ t) st'" by (rule der_puts_holds)
  with that show ?thesis by (simp add: tlv_def oid_writer_def)
qed

lemma algorithm_writer_holds:
  assumes "holds n (par @ t) st" "length (algorithm L oid par) + length t \<le> n" "par \<noteq> []"
  obtains st' where "algorithm_writer L oid (length par) st = Inr (length (algorithm L oid par), st')"
    "holds n (algorithm L oid par @ t) st'"
proof -
  have "length (tlv L 6 oid) + length (par @ t) \<le> n" using assms(2) by (simp add: algorithm_def tlv_def)
  with assms(1) obtain st1 where st1: "oid_writer L oid st = Inr (length (tlv L 6 oid), st1)" "holds n (tlv L 6 oid @ par @ t) st1"
    by (rule oid_writer_holds)
  have "holds n ((tlv L 6 oid @ par) @ t) st1" using st1(2) by simp
  moreover have "length (tlv L 0x30 (tlv L 6 oid @ par)) + length t \<le> n" using assms(2) by (simp add: algorithm_def)
  moreover have "length par + length (tlv L 6 oid) = length (tlv L 6 oid @ par)" by simp
  ultimately obtain st2 where st2: "der_puts [L (length par + length (tlv L 6 oid)), [0x30]] st1 = Inr (1 + length (L (length par + length (tlv L 6 oid))), st2)"
    "holds n (tlv L 0x30 (tlv L 6 oid @ par) @ t) st2" by (rule tlv_around)
  have "length (algorithm L oid par) = length par + length (tlv L 6 oid) + (1 + length (L (length par + length (tlv L 6 oid))))"
    by (simp add: algorithm_def length_tlv add.commute)
  moreover have "holds n (algorithm L oid par @ t) st2" using st2(2) by (simp add: algorithm_def)
  ultimately show ?thesis
    using that [of st2] st1(1) st2(1) assms(3) by (simp add: algorithm_writer_def del: der_puts.simps)
qed

text \<open>A service in memory, for concrete cases.\<close>

definition slot_attributes :: "nat \<Rightarrow> key_slots \<Rightarrow> psa_status \<times> psa_key_attributes" where
  "slot_attributes i s = (case s i of Some (at, pt) \<Rightarrow> (PSA_SUCCESS, at) | None \<Rightarrow> (PSA_ERROR_INVALID_HANDLE, pair_attributes 0))"

definition slot_export :: "(psa_key_attributes \<Rightarrow> bool) \<Rightarrow> nat \<Rightarrow> nat \<Rightarrow> key_slots \<Rightarrow> psa_status \<times> byte list" where
  "slot_export allowed i blk s =
     (case s i of None \<Rightarrow> (PSA_ERROR_INVALID_HANDLE, [])
      | Some (at, pt) \<Rightarrow> if \<not> allowed at then (PSA_ERROR_NOT_PERMITTED, [])
          else if blk < length pt then (PSA_ERROR_BUFFER_TOO_SMALL, []) else (PSA_SUCCESS, pt))"

definition slot_put :: "psa_key_attributes \<Rightarrow> byte list \<Rightarrow> key_slots \<Rightarrow> psa_status \<times> key_slots" where
  "slot_put at pt s = (if s (attr_id at) = None then (PSA_SUCCESS, s(attr_id at \<mapsto> (at, pt))) else (PSA_ERROR_OTHER 139, s))"

definition slot_service :: "key_slots psa_keys" where
  "slot_service = \<lparr>psa_get_key_attributes = slot_attributes,
     psa_export_key = slot_export (\<lambda>at. USAGE_EXPORT \<in> attr_usage at), psa_export_public_key = slot_export (\<lambda>at. True),
     psa_import_key = slot_put, psa_generate_key = (\<lambda>at. slot_put at (replicate (nist_point_length (attr_bits at)) 4)),
     psa_destroy_key = (\<lambda>i s. (if s i = None then PSA_ERROR_INVALID_HANDLE else PSA_SUCCESS, s(i := None))),
     psa_sign_hash = (\<lambda>i alg h n s. (PSA_ERROR_NOT_SUPPORTED, [])),
     PSA_EXPORT_KEY_OUTPUT_SIZE = (\<lambda>ty bits. nist_point_length bits), PSA_EXPORT_PUBLIC_KEY_OUTPUT_SIZE = (\<lambda>ty bits. nist_point_length bits),
     PSA_SIGNATURE_MAX_SIZE = 132, MBEDTLS_ECP_MAX_BYTES = 66, MBEDTLS_MPI_MAX_SIZE = 1024,
     oid_ec_key = Some [0x2A, 0x86, 0x48, 0xCE, 0x3D, 0x02, 0x01], oid_rsa = None,
     asn1_length = (\<lambda>n. if n < 128 then [of_nat n] else if n < 256 then [0x81, of_nat n] else [0x82, of_nat (n div 256), of_nat n]),
     mbedtls_asn1_write_oid = oid_writer (\<lambda>n. if n < 128 then [of_nat n] else if n < 256 then [0x81, of_nat n] else [0x82, of_nat (n div 256), of_nat n]),
     mbedtls_asn1_write_algorithm_identifier =
       algorithm_writer (\<lambda>n. if n < 128 then [of_nat n] else if n < 256 then [0x81, of_nat n] else [0x82, of_nat (n div 256), of_nat n])\<rparr>"

lemma slot_service_writers: "der_writers slot_service"
proof -
  have o: "mbedtls_asn1_write_oid slot_service = oid_writer (asn1_length slot_service)"
    and a: "mbedtls_asn1_write_algorithm_identifier slot_service = algorithm_writer (asn1_length slot_service)"
    by (simp_all add: slot_service_def)
  show ?thesis unfolding der_writers_def writes_def o a
    by (metis oid_writer_holds algorithm_writer_holds append_Nil length_append)
qed

lemma slot_service_works:
  "slots_work slot_service (\<lambda>s. s)" "lookups_work slot_service (\<lambda>s. s)"
  "der_parameters slot_service [0x2A, 0x86, 0x48, 0xCE, 0x3D, 0x02, 0x01]"
proof -
  show "slots_work slot_service (\<lambda>s. s)" unfolding slots_work_def
  proof (intro conjI allI impI)
    fix at :: psa_key_attributes and s :: key_slots assume "s (attr_id at) = None"
    then show "\<exists>pt s'. psa_generate_key slot_service at s = (PSA_SUCCESS, s') \<and> length pt = nist_point_length (attr_bits at) \<and>
        s' = s(attr_id at \<mapsto> (at, pt))"
      by (intro exI [of _ "replicate (nist_point_length (attr_bits at)) 4"]) (simp add: slot_service_def slot_put_def)
  qed (simp_all add: slot_service_def slot_put_def)
  show "der_parameters slot_service [0x2A, 0x86, 0x48, 0xCE, 0x3D, 0x02, 0x01]"
    unfolding der_parameters_def using slot_service_writers by (simp add: slot_service_def)
qed (auto simp: lookups_work_def slot_service_def slot_attributes_def slot_export_def)

text \<open>The old keys are gone before the new ones are made.\<close>

lemma generate_failure_loses_keys:
  assumes "slots_work K slots" "prv \<noteq> 0" "pub \<noteq> 0"
    and "\<And>at s. \<exists>e. psa_generate_key K at s = (e, s) \<and> e \<noteq> PSA_SUCCESS"
  shows "\<exists>e w'. lGenerateKeyPairECPsaCrypto E K prv pub w = Some (e, None, w') \<and>
    slots (its_state w') = (slots (its_state w))(prv := None, pub := None)"
proof -
  obtain s1 where s1: "destroy_slot K prv (its_state w) = (PSA_SUCCESS, s1)" "slots s1 = (slots (its_state w))(prv := None)"
    using assms(1) by (rule destroy_slot_works)
  obtain s2 where s2: "destroy_slot K pub s1 = (PSA_SUCCESS, s2)" "slots s2 = (slots s1)(pub := None)"
    using assms(1) by (rule destroy_slot_works)
  obtain e where "psa_generate_key K (pair_attributes prv) s2 = (e, s2)" "e \<noteq> PSA_SUCCESS" using assms(4) by blast
  then show ?thesis using s1 s2 assms(2,3) by (simp add: lGenerateKeyPairECPsaCrypto_def pair_attributes_def)
qed

text \<open>A public key that is stored in an empty slot is read back with its point; the block for the point is never freed.\<close>

lemma written_public_key_reads_back:
  assumes "slots_work K slots" "lookups_work K slots" "der_parameters K a" "\<forall>n sz. calloc_ok E n sz" "i \<noteq> 0"
    and "slots (its_state w) i = None" "ecp_grp k = MBEDTLS_ECP_DP_SECP256R1" "ecp_bits k = 256" "length (ecp_point k) = 65"
  obtains w' where "lWritePublicKeyToPSACrypto E K i (Some k) w = Some (MBEDTLS_OK, w')" "live w' = live w + 1" "freed w' = freed w"
    "xReadPublicKeyFromPSACrypto E K i w' = Some (PSA_SUCCESS, Some (spki (asn1_length K) a p256_oid (ecp_point k)), w'\<lparr>live := live w' + 1\<rparr>)"
proof -
  let ?at = "\<lparr>attr_id = i, attr_type = PUBLIC_KEY_ECC PSA_ECC_FAMILY_SECP_R1, attr_bits = 256,
    attr_usage = {USAGE_VERIFY_MESSAGE, USAGE_VERIFY_HASH, USAGE_EXPORT}, attr_alg = PSA_ALG_ECDSA ANY_HASH\<rparr>"
  have "slots (its_state w) (attr_id ?at) = None" "attr_type ?at = PUBLIC_KEY_ECC PSA_ECC_FAMILY_SECP_R1" using assms(6) by simp_all
  with assms(1) obtain s' where s': "psa_import_key K ?at (ecp_point k) (its_state w) = (PSA_SUCCESS, s')"
    "slots s' = (slots (its_state w))(attr_id ?at \<mapsto> (?at, ecp_point k))" by (rule import_works)
  let ?w = "w\<lparr>live := live w + 1, its_state := s'\<rparr>"
  have "nist_key K i (its_state ?w) ?at (ecp_point k)"
    using assms(2) by (rule slot_nist_key) (use s'(2) assms(9) in \<open>simp_all add: nist_point_length_def\<close>)
  then obtain buf where "xReadPublicKeyFromPSACrypto E K i ?w =
    Some (if attr_bits ?at = 256 then (PSA_SUCCESS, Some (spki (asn1_length K) a p256_oid (ecp_point k)), ?w\<lparr>live := live ?w + 1\<rparr>)
          else (PSA_ERROR_CORRUPTION_DETECTED, None, mbedtls_free buf (?w\<lparr>live := live ?w + 1\<rparr>)))"
    using assms(3) assms(4)[rule_format] by (rule read_of_nist_key)
  then show ?thesis
    by (rule_tac that [of ?w])
      (use s'(1) assms(4,5,7-9) in \<open>simp_all add: lWritePublicKeyToPSACrypto_def xPsaFamilyFromMbedtlsEccGroupId_def\<close>)
qed

end
