(* ===== verification/PsaPkSpec.thy ===== *)
theory PsaPkSpec
  imports PsaPk PsaKeysSpec
begin

text \<open>What the contexts of opaque keys promise: signatures in DER, public keys of P-256 only, and that a pair made with the
  functions of \<open>PkiObject\<close> can be read back and used.\<close>

subsection \<open>Signatures\<close>

text \<open>
  C28. Signing with an opaque key gives the DER encoding of the signature the key service made of the numbers
  \<open>r\<close> and \<open>s\<close>, in the caller's buffer, when it is large enough for the result and for the first number next to the second one
  encoded; a number that is zero is reported as a hardware failure, and nothing else can go wrong.
\<close>

theorem psa_ecdsa_sign_der:
  assumes "psa_sign_hash K (ctx_key_id c) (PSA_ALG_ECDSA (mbedtls_psa_translate_md md)) hash (min (PSA_SIGNATURE_MAX_SIZE K) (length buf)) st =
      (PSA_SUCCESS, r @ s)"
    and "length r = length s" "length r + length s \<le> length buf"
    and "length r + length (der_int (asn1_length K) s) \<le> length buf" "length (der_sig (asn1_length K) r s) \<le> length buf"
  shows "case psa_ecdsa_sign K c md hash buf st of
      Inr (len, sig) \<Rightarrow> take len sig = der_sig (asn1_length K) r s \<and> length sig = length buf \<and>
        dropWhile (\<lambda>b. b = 0) r \<noteq> [] \<and> dropWhile (\<lambda>b. b = 0) s \<noteq> []
    | Inl e \<Rightarrow> e = mbedtls_err.MBEDTLS_ERR_PLATFORM_HW_ACCEL_FAILED \<and> (dropWhile (\<lambda>b. b = 0) r = [] \<or> dropWhile (\<lambda>b. b = 0) s = [])"
proof -
  let ?n = "length r" and ?sig = "overwrite 0 (r @ s) buf"
  have sig: "?sig = r @ s @ drop (2 * ?n) buf" "length ?sig = length buf" using assms(2,3) by (simp_all add: overwrite_def mult_2)
  have "?n + length (der_int (asn1_length K) s) \<le> length ?sig" "length (der_sig (asn1_length K) r s) \<le> length ?sig"
    using assms(4,5) sig(2) by simp_all
  from sig_der_in_place [OF sig(1) refl assms(2)[symmetric] this, unfolded sig(2)]
  have t: "case pk_ecdsa_sig_asn1_from_psa (asn1_length K) (2 * ?n) ?sig of
      Inr (len, sig) \<Rightarrow> take len sig = der_sig (asn1_length K) r s \<and> length sig = length buf \<and>
        dropWhile (\<lambda>b. b = 0) r \<noteq> [] \<and> dropWhile (\<lambda>b. b = 0) s \<noteq> []
    | Inl e \<Rightarrow> e = der_err.MBEDTLS_ERR_PLATFORM_HW_ACCEL_FAILED \<and> (dropWhile (\<lambda>b. b = 0) r = [] \<or> dropWhile (\<lambda>b. b = 0) s = [])" .
  have "psa_ecdsa_sign K c md hash buf st = (case pk_ecdsa_sig_asn1_from_psa (asn1_length K) (2 * ?n) ?sig of
      Inl e \<Rightarrow> Inl (der_err_code e) | Inr (n, sig) \<Rightarrow> Inr (n, sig))"
    using assms(1,2) by (simp add: psa_ecdsa_sign_def Let_def min_def mult_2)
  with t show ?thesis
    by (cases "pk_ecdsa_sig_asn1_from_psa (asn1_length K) (2 * ?n) ?sig") (auto simp: der_err_code_def split: prod.splits)
qed

theorem psa_ecdsa_sign_der_witness:
  "\<exists>len sig. psa_ecdsa_sign (slot_service\<lparr>psa_sign_hash := \<lambda>i alg h n s. (PSA_SUCCESS, [0, 5, 0x90, 1])\<rparr>)
       \<lparr>ctx_grp = MBEDTLS_ECP_DP_SECP256R1, ctx_Q = (1, 2, 1), ctx_key_id = 7\<rparr> MD_SHA256 [1, 2, 3] (replicate 12 0) Map.empty = Inr (len, sig) \<and>
     take len sig = [0x30, 8, 2, 1, 5, 2, 3, 0, 0x90, 1]"
proof -
  let ?K = "slot_service\<lparr>psa_sign_hash := \<lambda>i alg h n s. (PSA_SUCCESS, [0, 5, 0x90, 1])\<rparr>"
  let ?c = "\<lparr>ctx_grp = MBEDTLS_ECP_DP_SECP256R1, ctx_Q = (1, 2, 1), ctx_key_id = 7\<rparr>" and ?buf = "replicate 12 0 :: byte list"
  have der: "der_sig (asn1_length ?K) [0, 5] [0x90, 1] = [0x30, 8, 2, 1, 5, 2, 3, 0, 0x90, 1]"
    by (simp add: der_sig_def der_int_def der_body_def slot_service_def)
  have "psa_sign_hash ?K (ctx_key_id ?c) (PSA_ALG_ECDSA (mbedtls_psa_translate_md MD_SHA256)) [1, 2, 3]
      (min (PSA_SIGNATURE_MAX_SIZE ?K) (length ?buf)) Map.empty = (PSA_SUCCESS, [0, 5] @ [0x90, 1])" by simp
  moreover have "length [0, 5 :: byte] = length [0x90, 1 :: byte]" "length [0, 5 :: byte] + length [0x90, 1 :: byte] \<le> length ?buf"
    "length [0, 5 :: byte] + length (der_int (asn1_length ?K) [0x90, 1]) \<le> length ?buf"
    "length (der_sig (asn1_length ?K) [0, 5] [0x90, 1]) \<le> length ?buf"
    by (simp_all only: der) (simp_all add: der_int_def der_body_def slot_service_def)
  ultimately have "case psa_ecdsa_sign ?K ?c MD_SHA256 [1, 2, 3] ?buf Map.empty of
      Inr (len, sig) \<Rightarrow> take len sig = der_sig (asn1_length ?K) [0, 5] [0x90, 1] \<and> length sig = length ?buf \<and>
        dropWhile (\<lambda>b. b = 0) [0, 5 :: byte] \<noteq> [] \<and> dropWhile (\<lambda>b. b = 0) [0x90, 1 :: byte] \<noteq> []
    | Inl e \<Rightarrow> e = mbedtls_err.MBEDTLS_ERR_PLATFORM_HW_ACCEL_FAILED \<and>
        (dropWhile (\<lambda>b. b = 0) [0, 5 :: byte] = [] \<or> dropWhile (\<lambda>b. b = 0) [0x90, 1 :: byte] = [])"
    by (rule psa_ecdsa_sign_der)
  then show ?thesis unfolding der by (cases "psa_ecdsa_sign ?K ?c MD_SHA256 [1, 2, 3] ?buf Map.empty") auto
qed

subsection \<open>Public keys\<close>

text \<open>Loading the public key of a slot: what is freed on the way back.\<close>

lemma load_nist_key:
  assumes "nist_key K (ctx_key_id c) (its_state w) at pt" "der_parameters K a" "calloc_ok E (live w) 162"
    and "parse_public_key P (spki (asn1_length K) a p256_oid pt) = (MBEDTLS_OK, True, grp, Q)"
  obtains w' where "live w' = live w" "its_state w' = its_state w" "ps_state w' = ps_state w" "load_public_key E K P c w =
    Some (if attr_bits at = 256 then (MBEDTLS_OK, c\<lparr>ctx_grp := grp, ctx_Q := Q\<rparr>, w')
          else (mbedtls_err.MBEDTLS_ERR_PLATFORM_HW_ACCEL_FAILED, c, w'))"
proof -
  from assms(1-3) obtain buf where read: "xReadPublicKeyFromPSACrypto E K (ctx_key_id c) w =
    Some (if attr_bits at = 256 then (PSA_SUCCESS, Some (spki (asn1_length K) a p256_oid pt), w\<lparr>live := live w + 1\<rparr>)
          else (PSA_ERROR_CORRUPTION_DETECTED, None, mbedtls_free buf (w\<lparr>live := live w + 1\<rparr>)))" by (rule read_of_nist_key)
  let ?w = "mbedtls_free (if attr_bits at = 256 then spki (asn1_length K) a p256_oid pt else buf) (w\<lparr>live := live w + 1\<rparr>)"
  show ?thesis
    by (rule that [of ?w]) (simp_all add: load_public_key_def read assms(4) mbedtls_free_def)
qed

lemma psa_context_of_nist_key:
  assumes "nist_key K i (its_state w) at pt" "der_parameters K a" "\<forall>n sz. calloc_ok E n sz" "i \<noteq> 0"
    and "parse_public_key P (spki (asn1_length K) a p256_oid pt) = (MBEDTLS_OK, True, grp, Q)"
  shows "\<exists>w'. its_state w' = its_state w \<and> live w' = live w + (if attr_bits at = 256 then 1 else 0) \<and>
    lPsa_initMbedtlsPkContext E K P (Some ctx) i w =
      Some (if attr_bits at = 256
            then (MBEDTLS_OK, ctx\<lparr>pk_ctx := PkBlock \<lparr>ctx_grp = grp, ctx_Q = Q, ctx_key_id = i\<rparr>, pk_is_psa := True\<rparr>, w')
            else (mbedtls_err.MBEDTLS_ERR_PLATFORM_HW_ACCEL_FAILED, ctx\<lparr>pk_ctx := PkFreed\<rparr>, w'))"
proof -
  let ?c = "\<lparr>ctx_grp = MBEDTLS_ECP_DP_NONE, ctx_Q = (0, 0, 0), ctx_key_id = i\<rparr>" and ?w = "w\<lparr>live := live w + 1\<rparr>"
  have "nist_key K (ctx_key_id ?c) (its_state ?w) at pt" "calloc_ok E (live ?w) 162" using assms(1,3) by simp_all
  from this(1) assms(2) this(2) assms(5) obtain w' where w': "live w' = live ?w" "its_state w' = its_state ?w"
    "load_public_key E K P ?c ?w = Some (if attr_bits at = 256 then (MBEDTLS_OK, ?c\<lparr>ctx_grp := grp, ctx_Q := Q\<rparr>, w')
          else (mbedtls_err.MBEDTLS_ERR_PLATFORM_HW_ACCEL_FAILED, ?c, w'))" by (rule load_nist_key)
  have alloc: "psa_pk_ctx_alloc E P w = (PkBlock \<lparr>ctx_grp = MBEDTLS_ECP_DP_NONE, ctx_Q = (0, 0, 0), ctx_key_id = 0\<rparr>, ?w)"
    using assms(3) by (simp add: psa_pk_ctx_alloc_def)
  show ?thesis
  proof (cases "attr_bits at = 256")
    case True
    then show ?thesis using w' alloc assms(4) by (intro exI [of _ w']) (simp add: lPsa_initMbedtlsPkContext_def)
  next
    case False
    then show ?thesis using w' alloc assms(4)
      by (intro exI [of _ "mbedtls_free [] w'"]) (simp add: lPsa_initMbedtlsPkContext_def psa_pk_ctx_free_def mbedtls_free_def)
  qed
qed

text \<open>
  Initialising an opaque key: the context of a P-256 slot gets the number of the slot and the key parsed from its
  \<open>SubjectPublicKeyInfo\<close>, and is the only block that stays on the heap. A slot with a key of P-384 or P-521, whose point and
  document would fit as well, is always refused, because the 18 bytes of the algorithm identifier are taken for the number of an
  error; everything is freed then, but \<open>pk_ctx\<close> still points to the freed block.
\<close>

lemma psa_context_only_p256:
  assumes "nist_key K i (its_state w) at pt" "der_parameters K a" "\<forall>n sz. calloc_ok E n sz" "i \<noteq> 0"
    and "parse_public_key P (spki (asn1_length K) a p256_oid pt) = (MBEDTLS_OK, True, grp, Q)"
  shows "\<exists>w'. its_state w' = its_state w \<and> live w' = live w + (if attr_bits at = 256 then 1 else 0) \<and>
    lPsa_initMbedtlsPkContext E K P (Some ctx) i w =
      Some (if attr_bits at = 256
            then (MBEDTLS_OK, ctx\<lparr>pk_ctx := PkBlock \<lparr>ctx_grp = grp, ctx_Q = Q, ctx_key_id = i\<rparr>, pk_is_psa := True\<rparr>, w')
            else (mbedtls_err.MBEDTLS_ERR_PLATFORM_HW_ACCEL_FAILED, ctx\<lparr>pk_ctx := PkFreed\<rparr>, w'))"
  using assms by (rule psa_context_of_nist_key)

subsection \<open>A pair made for TLS\<close>

text \<open>The parser of Mbed TLS on documents of P-256: the point it finds.\<close>

definition parses_p256 :: "psa_pk_ops \<Rightarrow> (nat \<Rightarrow> byte list) \<Rightarrow> byte list \<Rightarrow> (byte list \<Rightarrow> int \<times> int \<times> int) \<Rightarrow> bool" where
  "parses_p256 P L a point \<longleftrightarrow>
     (\<forall>pt. length pt = 65 \<longrightarrow> parse_public_key P (spki L a p256_oid pt) = (MBEDTLS_OK, True, MBEDTLS_ECP_DP_SECP256R1, point pt))"

lemma tls_labels:
  assumes "\<not> strcmp_eq (TLS_KEY_PRV_LABEL cfg) (TLS_KEY_PUB_LABEL cfg)"
  shows "xPkiObjectFromLabel cfg (Some (TLS_KEY_PRV_LABEL cfg)) = OBJ_FORM_PSA_CRYPTO (PSA_TLS_PRV_KEY_ID cfg)"
    "xPkiObjectFromLabel cfg (Some (TLS_KEY_PUB_LABEL cfg)) = OBJ_FORM_PSA_CRYPTO (PSA_TLS_PUB_KEY_ID cfg)"
  using assms by (simp_all add: xPkiObjectFromLabel_def strcmp_eq_def)


subsection \<open>Concrete cases\<close>

text \<open>A heap without end, a slot with a key of some curve, and a parser that takes the last byte of a document for the point.\<close>

definition slot_env :: "key_slots psa_env" where
  "slot_env = \<lparr>its = \<lparr>storage_get_info = (\<lambda>i s. (PSA_ERROR_INVALID_HANDLE, 0)), storage_get = (\<lambda>i n s. (PSA_ERROR_INVALID_HANDLE, [])),
      storage_set = (\<lambda>i bs s. (PSA_ERROR_INVALID_HANDLE, s))\<rparr>,
     ps = \<lparr>storage_get_info = (\<lambda>i s. (PSA_ERROR_INVALID_HANDLE, 0)), storage_get = (\<lambda>i n s. (PSA_ERROR_INVALID_HANDLE, [])),
      storage_set = (\<lambda>i bs s. (PSA_ERROR_INVALID_HANDLE, s))\<rparr>,
     mbedtls_x509_crt_parse = \<lambda>bs. (MBEDTLS_OK, [bs]), mbedtls_x509_crt_parse_der = \<lambda>bs. (MBEDTLS_OK, [bs]), calloc_ok = \<lambda>n sz. True\<rparr>"

definition slot_world :: "nat \<Rightarrow> key_slots psa_world" where
  "slot_world bits = \<lparr>its_state = [7 \<mapsto> ((pair_attributes 7)\<lparr>attr_bits := bits\<rparr>, replicate (nist_point_length bits) 5)],
     ps_state = Map.empty, live = 0, freed = []\<rparr>"

definition slot_pk_ops :: psa_pk_ops where
  "slot_pk_ops = \<lparr>parse_public_key = \<lambda>der. (MBEDTLS_OK, True, MBEDTLS_ECP_DP_SECP256R1, (uint (last der), 0, 1)),
     sizeof_psa_pk_ctx = 64, read_signature = \<lambda>k h sig. MBEDTLS_OK, ECDSA_MAX_SIG_LEN_256 = 72\<rparr>"

lemma slot_world_key:
  "bits \<in> {256, 384, 521} \<Longrightarrow> nist_key slot_service 7 (its_state (slot_world bits)) ((pair_attributes 7)\<lparr>attr_bits := bits\<rparr>) (replicate (nist_point_length bits) 5)"
  by (rule slot_nist_key [OF slot_service_works(2)]) (simp_all add: slot_world_def pair_attributes_def)

lemma slot_env_heap: "\<forall>n sz. calloc_ok slot_env n sz" by (simp add: slot_env_def)

lemma slot_pk_parses: "parses_p256 slot_pk_ops L a (\<lambda>pt. (uint (last pt), 0, 1))"
  unfolding parses_p256_def
proof (intro allI impI)
  fix pt :: "byte list" assume "length pt = 65"
  then have "pt \<noteq> []" by auto
  then have "last (spki L a p256_oid pt) = last pt" by (rule_tac spki_ends [of L a p256_oid pt]) simp
  then show "parse_public_key slot_pk_ops (spki L a p256_oid pt) = (MBEDTLS_OK, True, MBEDTLS_ECP_DP_SECP256R1, (uint (last pt), 0, 1))"
    by (simp add: slot_pk_ops_def)
qed


definition slot_labels :: pki_config where
  "slot_labels = \<lparr>TLS_KEY_PRV_LABEL = ''prv'', TLS_KEY_PUB_LABEL = ''pub'', TLS_CERT_LABEL = ''cert'', TLS_ROOT_CA_CERT_LABEL = ''ca'',
     OTA_SIGNING_KEY_LABEL = ''ota'', PSA_TLS_PRV_KEY_ID = 7, PSA_TLS_PUB_KEY_ID = 8, PSA_TLS_CERT_ID = 9, PSA_TLS_ROOT_CA_CERT_ID = 10,
     OTA_SIGNING_KEY_ID = 11\<rparr>"

definition slot_crypto :: "(key_slots, byte list pki_key) pki_crypto" where
  "slot_crypto = psa_pki_crypto slot_env slot_service slot_pk_ops (\<lambda>bs. (MBEDTLS_OK, Some (MemKey bs None)))
     (\<lambda>bs. (MBEDTLS_OK, Some (MemKey bs None))) (\<lambda>bs. (MBEDTLS_OK, Some (MemKey bs None)))"


end
