(* ===== verification/NewlibHeap.thy ===== *)
theory NewlibHeap
  imports Prelude
begin

text \<open>
  The C library's allocator functions on the FreeRTOS heap (\<open>source/sys/newlibc_stubs.c\<close>). The kernel's
  \<open>pvPortMalloc\<close> is the argument \<open>alloc\<close>: the address and the contents of a new block, or nothing. A heap maps
  the addresses of the blocks in use to their bytes; the usable size of a block is what its header says.
\<close>

type_synonym heap = "nat \<rightharpoonup> byte list"

type_synonym allocator = "nat \<Rightarrow> heap \<Rightarrow> (nat \<times> byte list) option"

definition pvPortMalloc :: "allocator \<Rightarrow> nat \<Rightarrow> heap \<Rightarrow> nat option \<times> heap" where
  "pvPortMalloc alloc xLen h = (case alloc xLen h of None \<Rightarrow> (None, h) | Some (p, bs) \<Rightarrow> (Some p, h(p \<mapsto> bs)))"

text \<open>Freeing NULL does nothing; freeing what is not in use is an error.\<close>

definition vPortFree :: "nat option \<Rightarrow> heap \<Rightarrow> heap option" where
  "vPortFree ptr h =
     (case ptr of None \<Rightarrow> Some h | Some p \<Rightarrow> if p \<in> dom h then Some (h(p := None)) else None)"

text \<open>What \<open>heap_4.c\<close> and its callers rely on: a new block is not in use yet, lies behind its header, has room
  for what was asked, and its size leaves the top bit of the header free for the mark of a used block.\<close>

definition alloc_spec :: "nat \<Rightarrow> allocator \<Rightarrow> bool" where
  "alloc_spec hs alloc \<longleftrightarrow>
     (\<forall>n h p bs. alloc n h = Some (p, bs) \<longrightarrow> p \<notin> dom h \<and> hs < p \<and> n \<le> length bs \<and> length bs + hs < 2 ^ 31)"

definition heap_ok :: "nat \<Rightarrow> heap \<Rightarrow> bool" where
  "heap_ok hs h \<longleftrightarrow> (\<forall>p bs. h p = Some bs \<longrightarrow> hs < p \<and> length bs + hs < 2 ^ 31)"

text \<open>The header in front of a block in use.\<close>

definition block_header :: "nat \<Rightarrow> byte list \<Rightarrow> u32" where
  "block_header hs bs = of_nat (length bs + hs) OR push_bit 31 1"

definition SIZE_MASK :: u32 where
  "SIZE_MASK = NOT (push_bit 31 1)"

definition malloc_usable_size :: "nat \<Rightarrow> nat option \<Rightarrow> heap \<Rightarrow> u32 option" where
  "malloc_usable_size xHeapStructSize pvPtr h =
     (case pvPtr of
        None \<Rightarrow> Some 0
      | Some p \<Rightarrow> do {
          configASSERT (p > xHeapStructSize);
          bs \<leftarrow> h p;
          Some ((SIZE_MASK AND block_header xHeapStructSize bs) - of_nat xHeapStructSize)
        })"

definition malloc :: "allocator \<Rightarrow> nat \<Rightarrow> heap \<Rightarrow> nat option \<times> heap" where
  "malloc alloc xLen h = pvPortMalloc alloc xLen h"

text \<open>The product is taken modulo \<open>2^32\<close>.\<close>

definition calloc :: "allocator \<Rightarrow> nat \<Rightarrow> nat \<Rightarrow> heap \<Rightarrow> (nat option \<times> heap) option" where
  "calloc alloc xNum xLen h =
     (case pvPortMalloc alloc (u32_of (xNum * xLen)) h of
        (None, h) \<Rightarrow> Some (None, h)
      | (Some p, h) \<Rightarrow> do {
          bs \<leftarrow> h p;
          bs \<leftarrow> mem_write 0 (replicate (u32_of (xNum * xLen)) 0) bs;
          Some (Some p, h(p \<mapsto> bs))
        })"

definition realloc :: "nat \<Rightarrow> allocator \<Rightarrow> nat option \<Rightarrow> nat \<Rightarrow> heap \<Rightarrow> (nat option \<times> heap) option" where
  "realloc xHeapStructSize alloc pvPtr xNewLen h =
     (case pvPtr of
        None \<Rightarrow> Some (pvPortMalloc alloc xNewLen h)
      | Some p \<Rightarrow> do {
          xCurLen \<leftarrow> malloc_usable_size xHeapStructSize (Some p) h;
          if xNewLen = 0
          then do { h \<leftarrow> vPortFree (Some p) h; Some (None, h) }
          else (case pvPortMalloc alloc xNewLen h of
                  (None, h) \<Rightarrow> Some (None, h)
                | (Some q, h) \<Rightarrow> do {
                    old \<leftarrow> h p;
                    new \<leftarrow> h q;
                    xs \<leftarrow> mem_read 0 (if unat xCurLen \<ge> xNewLen then xNewLen else unat xCurLen) old;
                    new \<leftarrow> mem_write 0 xs new;
                    h \<leftarrow> vPortFree (Some p) (h(q \<mapsto> new));
                    Some (Some q, h)
                  })
        })"

definition reallocf :: "nat \<Rightarrow> allocator \<Rightarrow> nat option \<Rightarrow> nat \<Rightarrow> heap \<Rightarrow> (nat option \<times> heap) option" where
  "reallocf xHeapStructSize alloc pvPtr xNewLen h = do {
     (pvNewBuff, h) \<leftarrow> realloc xHeapStructSize alloc pvPtr xNewLen h;
     if pvPtr \<noteq> None \<and> xNewLen > 0 \<and> pvNewBuff = None
     then do { h \<leftarrow> vPortFree pvPtr h; Some (None, h) }
     else Some (pvNewBuff, h)
   }"

definition free :: "nat option \<Rightarrow> heap \<Rightarrow> heap option" where
  "free pvPtr h = vPortFree pvPtr h"

definition memalign :: "nat \<Rightarrow> nat \<Rightarrow> heap \<Rightarrow> nat option \<times> heap" where
  "memalign xAlignment xLen h = (None, h)"

subsection \<open>Sizes\<close>

lemma header_mask:
  assumes "n < 2 ^ 31"
  shows "SIZE_MASK AND (of_nat n OR push_bit 31 1) = (of_nat n :: u32)"
proof -
  have n: "\<not> bit n 31" using assms by (simp add: bit_iff_odd)
  have u: "unat (of_nat n :: u32) = n" using assms by (simp add: unat_of_nat)
  have hi: "\<not> bit (of_nat n :: u32) 31"
  proof
    assume "bit (of_nat n :: u32) 31"
    then have "bit (unat (of_nat n :: u32)) 31" by (simp only: bit_unsigned_iff) simp
    with n u show False by simp
  qed
  have one: "bit (push_bit 31 1 :: u32) i \<longleftrightarrow> i = 31" for i
    by (auto simp only: bit_push_bit_iff bit_1_iff) simp_all
  show ?thesis
  proof (rule bit_word_eqI)
    fix i assume "i < LENGTH(32)"
    then show "bit (SIZE_MASK AND (of_nat n OR push_bit 31 1)) i = bit (of_nat n :: u32) i"
      using hi by (cases "i = 31") (auto simp: SIZE_MASK_def bit_and_iff bit_or_iff bit_not_iff one
          simp del: push_bit_of_1)
  qed
qed

lemma usable_size:
  assumes "heap_ok hs h" "h p = Some bs"
  shows "malloc_usable_size hs (Some p) h = Some (of_nat (length bs))" "unat (of_nat (length bs) :: u32) = length bs"
proof -
  have l: "hs < p" "length bs + hs < 2 ^ 31" using assms by (auto simp: heap_ok_def)
  show "unat (of_nat (length bs) :: u32) = length bs" using l(2) by (simp add: unat_of_nat)
  show "malloc_usable_size hs (Some p) h = Some (of_nat (length bs))"
    using l(1) assms(2) header_mask [OF l(2)] by (simp add: malloc_usable_size_def block_header_def)
qed

lemma alloc_new:
  assumes "alloc_spec hs alloc" "alloc n h = Some (p, bs)"
  shows "p \<notin> dom h" "hs < p" "n \<le> length bs" "length bs + hs < 2 ^ 31"
  using assms unfolding alloc_spec_def by blast+

lemma heap_ok_update:
  "heap_ok hs h \<Longrightarrow> hs < p \<Longrightarrow> length bs + hs < 2 ^ 31 \<Longrightarrow> heap_ok hs (h(p \<mapsto> bs))"
  "heap_ok hs h \<Longrightarrow> heap_ok hs (h(p := None))"
  by (auto simp: heap_ok_def)

subsection \<open>Properties\<close>

text \<open>
  Resizing a block keeps its contents: for a block in use and a new size that is not zero,
  \<open>realloc\<close> returns; either the heap has no room and nothing has changed, or the old block is free, the
  new block has the size asked for and starts with the bytes of the old one, as many as fit, and every
  other block is untouched.
\<close>

lemma realloc_keeps_contents:
  assumes spec: "alloc_spec hs alloc" and ok: "heap_ok hs h" and p: "h p = Some old" and n: "0 < n"
  shows "\<exists>r h'. realloc hs alloc (Some p) n h = Some (r, h') \<and> heap_ok hs h' \<and>
    (case r of
       None \<Rightarrow> h' = h
     | Some q \<Rightarrow> q \<notin> dom h \<and> (\<exists>new. h' = (h(p := None))(q \<mapsto> new) \<and> n \<le> length new \<and>
         take (min n (length old)) new = take n old))"
proof (cases "alloc n h")
  case None
  then show ?thesis using usable_size [OF ok p] n ok by (simp add: realloc_def pvPortMalloc_def)
next
  case (Some a)
  obtain q bs where a: "alloc n h = Some (q, bs)" using Some by (cases a) simp
  note new = alloc_new [OF spec a]
  let ?k = "min n (length old)"
  let ?new = "overwrite 0 (take ?k old) bs"
  have q: "q \<noteq> p" using new(1) p by auto
  have len: "?k \<le> length bs" using new(3) by simp
  have k: "(if n \<le> length old then n else length old) = ?k" by simp
  have "realloc hs alloc (Some p) n h = Some (Some q, (h(p := None))(q \<mapsto> ?new))"
    using usable_size [OF ok p] n a p q len
    by (simp add: realloc_def pvPortMalloc_def vPortFree_def k fun_upd_twist [of q p] domIff cong: if_cong)
  moreover have "heap_ok hs ((h(p := None))(q \<mapsto> ?new))"
    using new len by (intro heap_ok_update ok) simp_all
  moreover have "n \<le> length ?new" "take ?k ?new = take n old"
    using new(3) len by (simp_all add: overwrite_def min_def)
  ultimately show ?thesis using new(1) by auto
qed

text \<open>For the witness: an allocator with one place for small blocks.\<close>

definition ex_alloc :: allocator where
  "ex_alloc n h = (if n < 100 \<and> h 200 = None then Some (200, replicate n 7) else None)"

lemma ex_alloc_spec: "alloc_spec 8 ex_alloc"
  by (auto simp: alloc_spec_def ex_alloc_def split: if_splits)


text \<open>Zero frees the block, and \<open>reallocf\<close> frees it when there is no room for the new one.\<close>

lemma realloc_zero_frees:
  assumes "heap_ok hs h" "h p = Some old"
  shows "realloc hs alloc (Some p) 0 h = Some (None, h(p := None))"
  using assms usable_size [OF assms] by (simp add: realloc_def vPortFree_def domIff)

lemma reallocf_frees:
  assumes "heap_ok hs h" "h p = Some old" "0 < n" "alloc n h = None"
  shows "reallocf hs alloc (Some p) n h = Some (None, h(p := None))"
  using assms usable_size [OF assms(1,2)] by (simp add: reallocf_def realloc_def pvPortMalloc_def vPortFree_def domIff)

text \<open>The block of \<open>calloc\<close> is zeroed when the product does not overflow; when it does, the block is smaller than
  the array it is meant for.\<close>

lemma calloc_zeroed:
  assumes "alloc_spec hs alloc" "m * n < 2 ^ 32" "alloc (m * n) h = Some (p, bs)"
  shows "\<exists>new. calloc alloc m n h = Some (Some p, h(p \<mapsto> new)) \<and> length new = length bs \<and> take (m * n) new = replicate (m * n) 0"
proof -
  have "m * n \<le> length bs" using alloc_new(3) [OF assms(1,3)] .
  then show ?thesis using assms(2,3)
    by (intro exI [of _ "overwrite 0 (replicate (m * n) 0) bs"]) (simp add: calloc_def pvPortMalloc_def)
qed

lemma calloc_overflow_short:
  assumes "alloc 0x10000 h = Some (p, bs)" "length bs = 0x10000"
  shows "\<exists>new. calloc alloc 0x10000 0x10001 h = Some (Some p, h(p \<mapsto> new)) \<and> length new = 0x10000"
proof -
  have "u32_of (0x10000 * 0x10001) = 0x10000" by (simp add: u32_of_def)
  then show ?thesis using assms
    by (intro exI [of _ "replicate 0x10000 0"]) (simp add: calloc_def pvPortMalloc_def)
qed

end
