(* ===== verification/TlsSocket.thy ===== *)
theory TlsSocket
  imports PsaStore
begin

text \<open>
  The two functions through which Mbed TLS uses the socket (\<open>mbedtls_ssl_send\<close> and \<open>mbedtls_ssl_recv\<close> of
  \<open>source/crypto/mbedtls_transport.c\<close>). What the socket answers is an argument: for each call its return
  value and \<open>errno\<close>. With newlib \<open>EAGAIN\<close> is \<open>EWOULDBLOCK\<close>.
\<close>

datatype errno_t = EWOULDBLOCK | EINTR | EPIPE | ECONNRESET | ERRNO_OTHER nat

text \<open>A number of bytes as a return value.\<close>

definition count_result :: "nat \<Rightarrow> mbedtls_err" where
  "count_result n = (if n = 0 then MBEDTLS_OK else MBEDTLS_POSITIVE n)"

text \<open>The loop of \<open>mbedtls_ssl_send\<close>. Every call hands over the buffer from its beginning. The result has the
  bytes the socket took, in order, and the delays; without a further answer the call does not return.\<close>

fun send_loop ::
  "byte list \<Rightarrow> nat \<Rightarrow> (int \<times> errno_t) list \<Rightarrow> nat \<Rightarrow> u32 \<Rightarrow> (mbedtls_err \<times> byte list \<times> u32 list) option" where
  "send_loop pcBuf uxLen [] uxBytesSent backoff =
     (if uxBytesSent < uxLen then None else Some (count_result uxBytesSent, [], []))"
| "send_loop pcBuf uxLen ((xRslt, errno) # answers) uxBytesSent backoff =
     (if uxBytesSent < uxLen
      then if xRslt > 0
        then do {
          (r, wire, delays) \<leftarrow> send_loop pcBuf uxLen answers (uxBytesSent + nat xRslt) backoff;
          Some (r, take (nat xRslt) pcBuf @ wire, delays)
        }
        else (case errno of
            EWOULDBLOCK \<Rightarrow> do {
              (r, wire, delays) \<leftarrow> send_loop pcBuf uxLen answers uxBytesSent (backoff * 2);
              Some (r, wire, backoff # delays)
            }
          | EINTR \<Rightarrow> Some (count_result uxBytesSent, [], [])
          | EPIPE \<Rightarrow> Some (MBEDTLS_ERR_NET_CONN_RESET, [], [])
          | ECONNRESET \<Rightarrow> Some (MBEDTLS_ERR_NET_CONN_RESET, [], [])
          | ERRNO_OTHER _ \<Rightarrow> Some (MBEDTLS_ERR_NET_SEND_FAILED, [], []))
      else Some (count_result uxBytesSent, [], []))"

text \<open>The socket handle is behind a pointer, which may be NULL.\<close>

definition mbedtls_ssl_send ::
  "int option \<Rightarrow> byte list \<Rightarrow> nat \<Rightarrow> (int \<times> errno_t) list \<Rightarrow> (mbedtls_err \<times> byte list \<times> u32 list) option" where
  "mbedtls_ssl_send pxSockHandle pcBuf uxLen answers =
     (case pxSockHandle of
        None \<Rightarrow> Some (MBEDTLS_ERR_NET_SOCKET_FAILED, [], [])
      | Some h \<Rightarrow> if h < 0 then Some (MBEDTLS_ERR_NET_SOCKET_FAILED, [], []) else send_loop pcBuf uxLen answers 0 1)"

text \<open>Receiving: the answer of \<open>sock_recv\<close>, its bytes, and \<open>errno\<close>. With an invalid handle \<open>errno\<close> is what an
  earlier call left there.\<close>

definition mbedtls_ssl_recv ::
  "int option \<Rightarrow> nat \<Rightarrow> int \<times> byte list \<Rightarrow> errno_t \<Rightarrow> mbedtls_err \<times> byte list" where
  "mbedtls_ssl_recv pxSockHandle xLen answer errno =
     (let (lError, bs) = (case pxSockHandle of None \<Rightarrow> (-1, []) | Some h \<Rightarrow> if h \<ge> 0 then answer else (-1, []))
      in if lError < 0
         then ((case errno of
             EINTR \<Rightarrow> MBEDTLS_ERR_SSL_WANT_READ
           | EWOULDBLOCK \<Rightarrow> MBEDTLS_ERR_SSL_WANT_READ
           | EPIPE \<Rightarrow> MBEDTLS_ERR_NET_CONN_RESET
           | ECONNRESET \<Rightarrow> MBEDTLS_ERR_NET_CONN_RESET
           | ERRNO_OTHER _ \<Rightarrow> MBEDTLS_ERR_NET_RECV_FAILED), [])
         else (count_result (nat lError), take xLen bs))"

subsection \<open>What reaches the wire\<close>

text \<open>While the socket is full the call sleeps, twice as long each time, and then goes on.\<close>

lemma send_loop_blocked:
  assumes "sent < len"
  shows "send_loop buf len (replicate k (-1, EWOULDBLOCK) @ answers) sent b =
    map_option (\<lambda>(r, wire, delays). (r, wire, map (\<lambda>i. b * 2 ^ i) [0..<k] @ delays)) (send_loop buf len answers sent (b * 2 ^ k))"
proof (induction k arbitrary: b)
  case 0
  then show ?case by (cases "send_loop buf len answers sent b") auto
next
  case (Suc k)
  have "map (\<lambda>i. b * 2 ^ i) [0..<Suc k] = b # map (\<lambda>i. b * 2 * 2 ^ i) [0..<k]"
    by (simp add: map_upt_Suc mult.assoc del: upt_Suc)
  then show ?case using assms Suc.IH [of "b * 2"]
    by (cases "send_loop buf len answers sent (b * 2 * 2 ^ k)") (auto simp: mult.assoc simp del: upt_Suc)
qed

lemma send_loop_whole:
  assumes "buf \<noteq> []"
  shows "send_loop buf (length buf) ((int (length buf), e) # answers) 0 b = Some (MBEDTLS_POSITIVE (length buf), buf, [])"
  using assms by (cases answers) (auto simp: count_result_def)

text \<open>A buffer the socket takes at once is sent as it is, however often the socket was full before.\<close>

lemma tls_send_whole:
  assumes "0 \<le> h" "buf \<noteq> []"
  shows "mbedtls_ssl_send (Some h) buf (length buf) (replicate k (-1, EWOULDBLOCK) @ [(int (length buf), e)]) =
    Some (MBEDTLS_POSITIVE (length buf), buf, map (\<lambda>i. 2 ^ i) [0..<k])"
  using assms send_loop_blocked [of 0 "length buf" buf k "[(int (length buf), e)]" 1] send_loop_whole [of buf e "[]"]
  by (simp add: mbedtls_ssl_send_def)

text \<open>
  When the socket takes a buffer in two parts, the second part starts with the beginning of the
  buffer again: \<open>mbedtls_ssl_send\<close> reports all bytes as sent, but what went out is the buffer only if
  its rest happens to equal its beginning. Every other TLS record is corrupted.
\<close>

lemma tls_partial_send_repeats:
  assumes "0 \<le> h" "0 < a" "a < length buf"
  shows "\<exists>wire. mbedtls_ssl_send (Some h) buf (length buf) [(int a, e), (int (length buf - a), e')] =
      Some (MBEDTLS_POSITIVE (length buf), wire, []) \<and>
    wire = take a buf @ take (length buf - a) buf \<and>
    (wire = buf \<longleftrightarrow> drop a buf = take (length buf - a) buf)"
proof -
  have "take a buf @ take (length buf - a) buf = buf \<longleftrightarrow> take a buf @ take (length buf - a) buf = take a buf @ drop a buf"
    by simp
  then have "take a buf @ take (length buf - a) buf = buf \<longleftrightarrow> drop a buf = take (length buf - a) buf"
    unfolding same_append_eq by (metis)
  then show ?thesis using assms by (auto simp: mbedtls_ssl_send_def count_result_def nat_diff_distrib)
qed


end
