(* ===== verification/TlsNotify.thy ===== *)
theory TlsNotify
  imports Prelude
begin

text \<open>
  The thread that tells the MQTT agent about received data (\<open>vSocketNotifyThread\<close> of
  \<open>source/crypto/mbedtls_transport.c\<close>), how it is started, and how it is stopped. The thread is a step
  function over the points where it blocks; what \<open>sock_select\<close> reports is an argument of the step.
\<close>

text \<open>Where the thread is: created and not yet run, inside \<open>sock_select\<close>, or inside \<open>xTaskNotifyWait\<close> with the
  exit flag it has by then.\<close>

datatype notify_pc = Starting | Selecting | Waiting bool

text \<open>\<open>xTaskHandle\<close> is NULL or the task; \<open>pending\<close> is the notification that was sent and not yet taken;
  \<open>callbacks\<close> records the calls of the callback with their context.\<close>

record NotifyThreadCtx_t =
  xTaskHandle :: "notify_pc option"
  pending :: "u32 option"
  pxRecvReadyCallback :: "nat option"
  pvRecvReadyCallbackCtx :: nat
  nt_xSockHandle :: int
  callbacks :: "(nat \<times> nat) list"

text \<open>A result of \<open>sock_select\<close>: its return value and whether the socket is in the read set and in the error set.\<close>

type_synonym select_result = "int \<times> bool \<times> bool"

subsection \<open>The thread\<close>

text \<open>The exit flag after \<open>sock_select\<close>, and the call of the callback.\<close>

definition after_select :: "select_result \<Rightarrow> NotifyThreadCtx_t \<Rightarrow> bool \<times> NotifyThreadCtx_t" where
  "after_select r n =
     (case r of (lRslt, in_read, in_error) \<Rightarrow>
        if lRslt = 0 \<or> in_error then (True, n)
        else (False,
          if in_read
          then (case pxRecvReadyCallback n of
                  None \<Rightarrow> n
                | Some f \<Rightarrow> n\<lparr>callbacks := callbacks n @ [(f, pvRecvReadyCallbackCtx n)]\<rparr>)
          else n))"

text \<open>One step of the thread: from one blocking call to the next. It stays where it is when there is nothing to
  continue with: no answer of \<open>sock_select\<close>, which has no time limit, or no notification.\<close>

definition notify_step :: "select_result option \<Rightarrow> NotifyThreadCtx_t \<Rightarrow> NotifyThreadCtx_t" where
  "notify_step answer n =
     (case xTaskHandle n of
        None \<Rightarrow> n
      | Some Starting \<Rightarrow>
          n\<lparr>pending := None, xTaskHandle := (if pxRecvReadyCallback n = None then None else Some Selecting)\<rparr>
      | Some Selecting \<Rightarrow>
          (case answer of
             None \<Rightarrow> n
           | Some r \<Rightarrow> (case after_select r n of (xExitFlag, n) \<Rightarrow> n\<lparr>xTaskHandle := Some (Waiting xExitFlag)\<rparr>))
      | Some (Waiting xExitFlag) \<Rightarrow>
          (case pending n of
             None \<Rightarrow> n
           | Some ulNotifyValue \<Rightarrow>
               n\<lparr>pending := None,
                 xTaskHandle := (if xExitFlag \<or> ulNotifyValue = 0xFFFFFFFF then None else Some Selecting)\<rparr>))"

subsection \<open>Starting and stopping it\<close>

text \<open>The loop of \<open>vStopSocketNotifyTask\<close> from tick \<open>k\<close> on; \<open>sched k\<close> are the steps the thread makes while the
  caller sleeps for that tick. The result has the tick at which the caller went on.\<close>

partial_function (option) vStopSocketNotifyTask ::
  "(nat \<Rightarrow> select_result option list) \<Rightarrow> nat \<Rightarrow> NotifyThreadCtx_t \<Rightarrow> (nat \<times> NotifyThreadCtx_t) option" where
  "vStopSocketNotifyTask sched k n =
     (if xTaskHandle n = None then Some (k, n)
      else vStopSocketNotifyTask sched (Suc k) (fold notify_step (sched k) (n\<lparr>pending := Some 0xFFFFFFFF\<rparr>)))"

definition vCreateSocketNotifyTask ::
  "(nat \<Rightarrow> select_result option list) \<Rightarrow> int \<Rightarrow> nat \<Rightarrow> NotifyThreadCtx_t \<Rightarrow> (nat \<times> NotifyThreadCtx_t) option" where
  "vCreateSocketNotifyTask sched xSockHandle k n = do {
     (k, n) \<leftarrow> vStopSocketNotifyTask sched k n;
     Some (k, if pxRecvReadyCallback n \<noteq> None
              then n\<lparr>nt_xSockHandle := xSockHandle, xTaskHandle := Some Starting, pending := None\<rparr> else n)
   }"

text \<open>The block of the context is freed once the thread has ended.\<close>

definition vFreeNotifyThreadCtx ::
  "(nat \<Rightarrow> select_result option list) \<Rightarrow> nat \<Rightarrow> NotifyThreadCtx_t option \<Rightarrow> nat option" where
  "vFreeNotifyThreadCtx sched k ctx =
     (case ctx of
        None \<Rightarrow> Some k
      | Some n \<Rightarrow> do { (k, n) \<leftarrow> vStopSocketNotifyTask sched k n; Some k })"

subsection \<open>When stopping ends\<close>

declare vStopSocketNotifyTask.simps [code]

lemma stop_gone [simp]: "xTaskHandle n = None \<Longrightarrow> vStopSocketNotifyTask sched k n = Some (k, n)"
  by (subst vStopSocketNotifyTask.simps) simp

lemma stop_tick:
  "xTaskHandle n \<noteq> None \<Longrightarrow>
   vStopSocketNotifyTask sched k n =
     vStopSocketNotifyTask sched (Suc k) (fold notify_step (sched k) (n\<lparr>pending := Some 0xFFFFFFFF\<rparr>))"
  by (subst vStopSocketNotifyTask.simps) (simp only: if_False)

lemma steps_gone [simp]: "xTaskHandle n = None \<Longrightarrow> fold notify_step as n = n"
  by (induction as) (simp_all add: notify_step_def)

lemma steps_idle:
  "xTaskHandle n = Some Selecting \<Longrightarrow> list_all (\<lambda>a. a = None) as \<Longrightarrow> fold notify_step as n = n"
  by (induction as) (simp_all add: notify_step_def)

lemma silent: "\<nexists>r. Some r \<in> set as \<Longrightarrow> list_all (\<lambda>a. a = None) as"
  unfolding list_all_iff by (metis not_None_eq)

lemma stop_ends:
  assumes "vStopSocketNotifyTask sched k n = Some (k', n')"
  shows "xTaskHandle n' = None"
proof -
  have "xTaskHandle (snd (k', n')) = None"
    by (rule vStopSocketNotifyTask.raw_induct [OF _ assms, of "\<lambda>sched k n y. xTaskHandle (snd y) = None"])
      (simp split: if_splits, fastforce)
  then show ?thesis by simp
qed

text \<open>While the socket is silent a thread inside \<open>sock_select\<close> stays there, whatever it is sent.\<close>

lemma stop_answered:
  assumes "vStopSocketNotifyTask sched k n = Some y" "xTaskHandle n = Some Selecting"
  shows "\<exists>j\<ge>k. \<exists>r. Some r \<in> set (sched j)"
proof -
  let ?P = "\<lambda>sched k n (y :: nat \<times> NotifyThreadCtx_t). xTaskHandle n = Some Selecting \<longrightarrow> (\<exists>j\<ge>k. \<exists>r. Some r \<in> set (sched j))"
  have "?P sched k n y"
  proof (rule vStopSocketNotifyTask.raw_induct [OF _ assms(1), of ?P])
    fix stop :: "(nat \<Rightarrow> select_result option list) \<Rightarrow> nat \<Rightarrow> NotifyThreadCtx_t \<Rightarrow> (nat \<times> NotifyThreadCtx_t) option"
      and sched k n y
    assume IH: "\<And>sched k n y. stop sched k n = Some y \<Longrightarrow> ?P sched k n y"
      and y: "(if xTaskHandle n = None then Some (k, n)
        else stop sched (Suc k) (fold notify_step (sched k) (n\<lparr>pending := Some 0xFFFFFFFF\<rparr>))) = Some y"
    show "?P sched k n y"
    proof (rule impI, cases "\<exists>r. Some r \<in> set (sched k)")
      assume sel: "xTaskHandle n = Some Selecting" and "\<nexists>r. Some r \<in> set (sched k)"
      then have idle: "fold notify_step (sched k) (n\<lparr>pending := Some 0xFFFFFFFF\<rparr>) = n\<lparr>pending := Some 0xFFFFFFFF\<rparr>"
        by (intro steps_idle silent) simp_all
      then have "\<exists>j\<ge>Suc k. \<exists>r. Some r \<in> set (sched j)"
        using IH [of sched "Suc k" "n\<lparr>pending := Some 0xFFFFFFFF\<rparr>" y] y sel by simp
      then show "\<exists>j\<ge>k. \<exists>r. Some r \<in> set (sched j)" by (meson Suc_leD)
    qed blast
  qed
  with assms(2) show ?thesis by blast
qed

text \<open>A thread that waits for a notification ends with its next step.\<close>

lemma steps_waiting:
  assumes "xTaskHandle n = Some (Waiting f)" "pending n = Some 0xFFFFFFFF" "as \<noteq> []"
  shows "xTaskHandle (fold notify_step as n) = None"
  using assms by (cases as) (simp_all add: notify_step_def)

text \<open>The callback stays registered and the pending request is only taken by the thread that obeys it.\<close>

lemma after_select_frame:
  "after_select r n = (f, n') \<Longrightarrow>
   xTaskHandle n' = xTaskHandle n \<and> pending n' = pending n \<and> pxRecvReadyCallback n' = pxRecvReadyCallback n \<and>
   nt_xSockHandle n' = nt_xSockHandle n"
  by (auto simp: after_select_def split: prod.splits if_splits option.splits)

text \<open>With an answer of \<open>sock_select\<close> the thread gets past it.\<close>

lemma steps_answered:
  assumes "xTaskHandle n = Some Selecting" "pending n = Some 0xFFFFFFFF" "Some r \<in> set as"
  shows "xTaskHandle (fold notify_step as n) \<in> {None, Some (Waiting True), Some (Waiting False)}"
  using assms
proof (induction as arbitrary: n)
  case (Cons a as)
  show ?case
  proof (cases a)
    case None
    then show ?thesis using Cons by (simp add: notify_step_def)
  next
    case (Some q)
    obtain f n1 where s: "after_select q n = (f, n1)" by (cases "after_select q n")
    let ?n = "n1\<lparr>xTaskHandle := Some (Waiting f)\<rparr>"
    have p: "pending ?n = Some 0xFFFFFFFF" using after_select_frame [OF s] Cons.prems by simp
    have "fold notify_step (a # as) n = fold notify_step as ?n" using Some s Cons.prems by (simp add: notify_step_def)
    then show ?thesis using steps_waiting [of ?n f as] p by (cases "as = []"; cases f) auto
  qed
qed simp

lemma next_ready:
  fixes k :: nat
  assumes "k \<le> j" "P j"
  obtains i where "k \<le> i" "P i" "\<And>l. k \<le> l \<Longrightarrow> l < i \<Longrightarrow> \<not> P l"
proof -
  let ?i = "LEAST i. k \<le> i \<and> P i"
  have "k \<le> ?i \<and> P ?i" using assms by (intro LeastI [of "\<lambda>i. k \<le> i \<and> P i" j]) simp
  moreover have "\<not> P l" if "k \<le> l" "l < ?i" for l using not_less_Least [OF that(2)] that(1) by simp
  ultimately show ?thesis using that by blast
qed

text \<open>Ticks in which the thread cannot move only pass the time.\<close>

lemma stop_skips:
  assumes "xTaskHandle n \<noteq> None" "pending n = Some 0xFFFFFFFF" "k \<le> i"
    and "\<And>l. k \<le> l \<Longrightarrow> l < i \<Longrightarrow> fold notify_step (sched l) n = n"
  shows "vStopSocketNotifyTask sched k n = vStopSocketNotifyTask sched i n"
  using assms(3,4)
proof (induction "i - k" arbitrary: k)
  case (Suc d)
  then have "k < i" by simp
  have "n\<lparr>pending := Some 0xFFFFFFFF\<rparr> = n" using assms(2) by simp
  then have "vStopSocketNotifyTask sched k n = vStopSocketNotifyTask sched (Suc k) n"
    using stop_tick [OF assms(1), of sched k] Suc.prems(2) [of k] \<open>k < i\<close> by simp
  then show ?case using Suc.hyps(1) [of "Suc k"] Suc.hyps(2) Suc.prems \<open>k < i\<close> by simp
qed simp

lemma stop_pending:
  "xTaskHandle n \<noteq> None \<Longrightarrow> vStopSocketNotifyTask sched k n = vStopSocketNotifyTask sched k (n\<lparr>pending := Some 0xFFFFFFFF\<rparr>)"
  by (simp add: stop_tick)

lemma stop_waiting:
  assumes "xTaskHandle n = Some (Waiting f)" and fair: "\<And>k. \<exists>j\<ge>k. sched j \<noteq> []"
  shows "\<exists>k' n'. vStopSocketNotifyTask sched k n = Some (k', n')"
proof -
  let ?n = "n\<lparr>pending := Some 0xFFFFFFFF\<rparr>"
  obtain j where "k \<le> j" "sched j \<noteq> []" using fair by blast
  then obtain i where i: "k \<le> i" "sched i \<noteq> []" "\<And>l. k \<le> l \<Longrightarrow> l < i \<Longrightarrow> \<not> sched l \<noteq> []"
    by (rule next_ready [of k j "\<lambda>i. sched i \<noteq> []"]) blast
  have "vStopSocketNotifyTask sched k ?n = vStopSocketNotifyTask sched i ?n"
    using i(3) assms(1) by (intro stop_skips) (simp_all add: i(1))
  also have "\<dots> = Some (Suc i, fold notify_step (sched i) ?n)"
    using steps_waiting [of ?n f "sched i"] i(2) assms(1) stop_tick [of ?n sched i] by simp
  finally show ?thesis using stop_pending [of n sched k] assms(1) by simp
qed

text \<open>
  Stopping the notify thread while it waits for data ends exactly when the socket becomes ready or
  fails. If the thread gets to run again and again, \<open>vStopSocketNotifyTask\<close> returns, with the thread
  gone, if and only if \<open>sock_select\<close> gives an answer at some later tick; the request to stop, which is
  repeated every tick, does not wake the thread up. On a connection on which nothing arrives the
  caller waits for ever.
\<close>

lemma notify_stop_needs_traffic:
  assumes sel: "xTaskHandle n = Some Selecting" and fair: "\<And>k. \<exists>j\<ge>k. sched j \<noteq> []"
  shows "(\<exists>k' n'. vStopSocketNotifyTask sched k n = Some (k', n') \<and> xTaskHandle n' = None) \<longleftrightarrow>
    (\<exists>j\<ge>k. \<exists>r. Some r \<in> set (sched j))"
proof
  assume "\<exists>k' n'. vStopSocketNotifyTask sched k n = Some (k', n') \<and> xTaskHandle n' = None"
  then obtain k' n' where "vStopSocketNotifyTask sched k n = Some (k', n')" by blast
  then show "\<exists>j\<ge>k. \<exists>r. Some r \<in> set (sched j)" using sel by (rule stop_answered)
next
  let ?n = "n\<lparr>pending := Some 0xFFFFFFFF\<rparr>"
  assume "\<exists>j\<ge>k. \<exists>r. Some r \<in> set (sched j)"
  then obtain j where "k \<le> j" "\<exists>r. Some r \<in> set (sched j)" by blast
  then obtain i where i: "k \<le> i" "\<exists>r. Some r \<in> set (sched i)" "\<And>l. k \<le> l \<Longrightarrow> l < i \<Longrightarrow> \<not> (\<exists>r. Some r \<in> set (sched l))"
    by (rule next_ready [of k j "\<lambda>i. \<exists>r. Some r \<in> set (sched i)"]) blast
  have "fold notify_step (sched l) ?n = ?n" if "k \<le> l" "l < i" for l
    using i(3) [OF that] sel by (intro steps_idle silent) simp_all
  then have "vStopSocketNotifyTask sched k ?n = vStopSocketNotifyTask sched i ?n"
    using sel by (intro stop_skips) (simp_all add: i(1))
  also have "\<dots> = vStopSocketNotifyTask sched (Suc i) (fold notify_step (sched i) ?n)" using stop_tick [of ?n sched i] sel by simp
  also have "\<exists>k' n'. \<dots> = Some (k', n')"
    using steps_answered [of ?n _ "sched i"] i(2) sel stop_waiting [OF _ fair] by fastforce
  finally show "\<exists>k' n'. vStopSocketNotifyTask sched k n = Some (k', n') \<and> xTaskHandle n' = None"
    using stop_pending [of n sched k] sel stop_ends by auto
qed

end
