(* ===== verification/TlsTransport.thy ===== *)
theory TlsTransport
  imports TlsSocket TlsNotify
begin

text \<open>
  A TLS connection (\<open>source/crypto/mbedtls_transport.c\<close>): the context, connecting, sending, receiving,
  disconnecting and freeing. The network stack and the TLS library are the record \<open>tls_env\<close>; \<open>'x\<close> is the
  state of the library's connection. The build has \<open>LWIP_IPV4\<close> only.
\<close>

datatype ConnectionState_t = STATE_UNKNOWN | STATE_ALLOCATED | STATE_CONFIGURED | STATE_CONNECTED

type_synonym TlsTransportStatus_t = int

abbreviation (input) TLS_TRANSPORT_SUCCESS :: int where "TLS_TRANSPORT_SUCCESS \<equiv> 0"
abbreviation (input) TLS_TRANSPORT_UNKNOWN_ERROR :: int where "TLS_TRANSPORT_UNKNOWN_ERROR \<equiv> -1"
abbreviation (input) TLS_TRANSPORT_INVALID_PARAMETER :: int where "TLS_TRANSPORT_INVALID_PARAMETER \<equiv> -2"
abbreviation (input) TLS_TRANSPORT_INSUFFICIENT_MEMORY :: int where "TLS_TRANSPORT_INSUFFICIENT_MEMORY \<equiv> -3"
abbreviation (input) TLS_TRANSPORT_INVALID_CREDENTIALS :: int where "TLS_TRANSPORT_INVALID_CREDENTIALS \<equiv> -4"
abbreviation (input) TLS_TRANSPORT_HANDSHAKE_FAILED :: int where "TLS_TRANSPORT_HANDSHAKE_FAILED \<equiv> -5"
abbreviation (input) TLS_TRANSPORT_INTERNAL_ERROR :: int where "TLS_TRANSPORT_INTERNAL_ERROR \<equiv> -6"
abbreviation (input) TLS_TRANSPORT_CONNECT_FAILURE :: int where "TLS_TRANSPORT_CONNECT_FAILURE \<equiv> -7"
abbreviation (input) TLS_TRANSPORT_PKI_OBJECT_NOT_FOUND :: int where "TLS_TRANSPORT_PKI_OBJECT_NOT_FOUND \<equiv> -0x8000011"
abbreviation (input) TLS_TRANSPORT_PKI_OBJECT_PARSE_FAIL :: int where "TLS_TRANSPORT_PKI_OBJECT_PARSE_FAIL \<equiv> -0x8000012"
abbreviation (input) TLS_TRANSPORT_DNS_FAILED :: int where "TLS_TRANSPORT_DNS_FAILED \<equiv> -10"
abbreviation (input) TLS_TRANSPORT_INSUFFICIENT_SOCKETS :: int where "TLS_TRANSPORT_INSUFFICIENT_SOCKETS \<equiv> -11"
abbreviation (input) TLS_TRANSPORT_INVALID_HOSTNAME :: int where "TLS_TRANSPORT_INVALID_HOSTNAME \<equiv> -12"
abbreviation (input) TLS_TRANSPORT_CLIENT_CERT_INVALID :: int where "TLS_TRANSPORT_CLIENT_CERT_INVALID \<equiv> -13"
abbreviation (input) TLS_TRANSPORT_NO_VALID_CA_CERT :: int where "TLS_TRANSPORT_NO_VALID_CA_CERT \<equiv> -14"
abbreviation (input) TLS_TRANSPORT_CLIENT_KEY_INVALID :: int where "TLS_TRANSPORT_CLIENT_KEY_INVALID \<equiv> -15"

text \<open>All enumerators of \<open>TlsTransportStatus_t\<close>.\<close>

definition TlsTransportStatus :: "int set" where
  "TlsTransportStatus =
     {TLS_TRANSPORT_SUCCESS, TLS_TRANSPORT_UNKNOWN_ERROR, TLS_TRANSPORT_INVALID_PARAMETER, TLS_TRANSPORT_INSUFFICIENT_MEMORY,
      TLS_TRANSPORT_INVALID_CREDENTIALS, TLS_TRANSPORT_HANDSHAKE_FAILED, TLS_TRANSPORT_INTERNAL_ERROR,
      TLS_TRANSPORT_CONNECT_FAILURE, TLS_TRANSPORT_PKI_OBJECT_NOT_FOUND, TLS_TRANSPORT_PKI_OBJECT_PARSE_FAIL,
      TLS_TRANSPORT_DNS_FAILED, TLS_TRANSPORT_INSUFFICIENT_SOCKETS, TLS_TRANSPORT_INVALID_HOSTNAME,
      TLS_TRANSPORT_CLIENT_CERT_INVALID, TLS_TRANSPORT_NO_VALID_CA_CERT, TLS_TRANSPORT_CLIENT_KEY_INVALID}"

fun lMbedtlsErrToTransportError :: "mbedtls_err \<Rightarrow> int" where
  "lMbedtlsErrToTransportError MBEDTLS_OK = TLS_TRANSPORT_SUCCESS"
| "lMbedtlsErrToTransportError MBEDTLS_ERR_X509_ALLOC_FAILED = TLS_TRANSPORT_INSUFFICIENT_MEMORY"
| "lMbedtlsErrToTransportError MBEDTLS_ERR_ERROR_CORRUPTION_DETECTED = TLS_TRANSPORT_INTERNAL_ERROR"
| "lMbedtlsErrToTransportError MBEDTLS_ERR_SSL_BAD_INPUT_DATA = TLS_TRANSPORT_INVALID_PARAMETER"
| "lMbedtlsErrToTransportError MBEDTLS_ERR_X509_CERT_UNKNOWN_FORMAT = TLS_TRANSPORT_PKI_OBJECT_PARSE_FAIL"
| "lMbedtlsErrToTransportError MBEDTLS_ERR_X509_BAD_INPUT_DATA = TLS_TRANSPORT_PKI_OBJECT_PARSE_FAIL"
| "lMbedtlsErrToTransportError MBEDTLS_ERR_PEM_BAD_INPUT_DATA = TLS_TRANSPORT_PKI_OBJECT_PARSE_FAIL"
| "lMbedtlsErrToTransportError MBEDTLS_ERR_PEM_NO_HEADER_FOOTER_PRESENT = TLS_TRANSPORT_PKI_OBJECT_PARSE_FAIL"
| "lMbedtlsErrToTransportError (MBEDTLS_POSITIVE n) = TLS_TRANSPORT_SUCCESS"
| "lMbedtlsErrToTransportError _ = TLS_TRANSPORT_UNKNOWN_ERROR"

subsection \<open>The context and its surroundings\<close>

datatype addr_family = AF_INET | AF_OTHER nat

record addrinfo =
  ai_family :: addr_family
  ai_addr :: u32

datatype sockopt = SO_RCVTIMEO | SO_SNDTIMEO | SO_OTHER int

text \<open>The context, with what belongs to its surroundings: the open sockets of the network stack (those this
  context opened), the address lists of \<open>dns_getaddrinfo\<close> that are not freed, and the tick count.\<close>

record 'x TLSContext_t =
  xConnectionState :: ConnectionState_t
  xSockHandle :: int
  pxNotifyThreadCtx :: "NotifyThreadCtx_t option"
  xSslCtx :: 'x
  open_sockets :: "int list"
  addr_lists :: nat
  now :: nat

text \<open>\<open>sock_socket\<close> is given the open sockets, \<open>sock_connect\<close> the address and the port. \<open>sock_set_nonblock\<close> sets the
  given flags with \<open>O_NONBLOCK\<close>. \<open>reset_null_returns\<close> tells whether \<open>mbedtls_ssl_session_reset\<close> returns when it is
  called with NULL.\<close>

record 'x tls_env =
  MBEDTLS_SSL_MAX_HOST_NAME_LEN :: nat
  dns_getaddrinfo :: "string \<Rightarrow> int \<times> addrinfo list option"
  sock_socket :: "int list \<Rightarrow> addrinfo \<Rightarrow> int"
  sock_connect :: "int \<Rightarrow> addrinfo \<Rightarrow> u16 \<Rightarrow> int"
  sock_setsockopt :: "int \<Rightarrow> sockopt \<Rightarrow> byte list \<Rightarrow> int"
  sock_getfl :: "int \<Rightarrow> int"
  sock_set_nonblock :: "int \<Rightarrow> int \<Rightarrow> int"
  ssl_hostname :: "'x \<Rightarrow> string option"
  mbedtls_ssl_set_hostname :: "string \<Rightarrow> 'x \<Rightarrow> mbedtls_err \<times> 'x"
  mbedtls_ssl_handshake :: "'x \<Rightarrow> mbedtls_err \<times> 'x"
  mbedtls_ssl_close_notify :: "'x \<Rightarrow> mbedtls_err \<times> 'x"
  mbedtls_ssl_session_reset :: "'x \<Rightarrow> 'x"
  reset_null_returns :: bool
  mbedtls_ssl_read :: "nat \<Rightarrow> 'x \<Rightarrow> mbedtls_err \<times> byte list \<times> 'x"
  mbedtls_ssl_write :: "byte list \<Rightarrow> 'x \<Rightarrow> mbedtls_err \<times> 'x"
  notify_sched :: "nat \<Rightarrow> select_result option list"

definition close_socket :: "('x, 'm) TLSContext_t_scheme \<Rightarrow> ('x, 'm) TLSContext_t_scheme" where
  "close_socket s = s\<lparr>open_sockets := remove1 (xSockHandle s) (open_sockets s), xSockHandle := -1\<rparr>"

text \<open>Stopping the notify thread of a context that has one.\<close>

definition stop_notify :: "'x tls_env \<Rightarrow> ('x, 'm) TLSContext_t_scheme \<Rightarrow> ('x, 'm) TLSContext_t_scheme option" where
  "stop_notify E s =
     (case pxNotifyThreadCtx s of
        None \<Rightarrow> Some s
      | Some n \<Rightarrow> do {
          (k, n) \<leftarrow> vStopSocketNotifyTask (notify_sched E) (now s) n;
          Some (s\<lparr>now := k, pxNotifyThreadCtx := Some n\<rparr>)
        })"

subsection \<open>Connecting\<close>

text \<open>The loop over the addresses of the host.\<close>

fun connect_loop ::
  "'x tls_env \<Rightarrow> u16 \<Rightarrow> addrinfo list \<Rightarrow> ('x, 'm) TLSContext_t_scheme \<Rightarrow> int \<times> ('x, 'm) TLSContext_t_scheme" where
  "connect_loop E usPort [] s = (TLS_TRANSPORT_SUCCESS, s)"
| "connect_loop E usPort (a # as) s =
     (if ai_family a \<noteq> AF_INET then connect_loop E usPort as s
      else
        let h = sock_socket E (open_sockets s) a in
        if h < 0 then (TLS_TRANSPORT_INSUFFICIENT_SOCKETS, s\<lparr>xSockHandle := h\<rparr>)
        else
          let s = s\<lparr>xSockHandle := h, open_sockets := h # open_sockets s\<rparr> in
          if sock_connect E h a usPort \<noteq> 0 then connect_loop E usPort as (close_socket s)
          else (TLS_TRANSPORT_SUCCESS, s))"

definition xConnectSocket ::
  "'x tls_env \<Rightarrow> string \<Rightarrow> u16 \<Rightarrow> ('x, 'm) TLSContext_t_scheme \<Rightarrow> (int \<times> ('x, 'm) TLSContext_t_scheme) option" where
  "xConnectSocket E pcHostName usPort s = do {
     configASSERT (usPort > 0);
     let s = (if xSockHandle s \<ge> 0 then close_socket s else s);
     let (lError, pxAddrInfo) = dns_getaddrinfo E pcHostName;
     let s = (if pxAddrInfo \<noteq> None then s\<lparr>addr_lists := addr_lists s + 1\<rparr> else s);
     Some (if lError \<noteq> 0 \<or> pxAddrInfo = None
           then (TLS_TRANSPORT_DNS_FAILED, if pxAddrInfo \<noteq> None then s\<lparr>addr_lists := addr_lists s - 1\<rparr> else s)
           else
             let (xStatus, s) = connect_loop E usPort (the pxAddrInfo) s;
                 s = s\<lparr>addr_lists := addr_lists s - 1\<rparr>
             in (if xStatus = TLS_TRANSPORT_SUCCESS \<and> xSockHandle s < 0 then TLS_TRANSPORT_CONNECT_FAILURE else xStatus, s))
   }"

text \<open>The time limits, and non-blocking mode when there is none for receiving.\<close>

definition connect_options :: "'x tls_env \<Rightarrow> int \<Rightarrow> u32 \<Rightarrow> u32 \<Rightarrow> int" where
  "connect_options E h ulRecvTimeoutMs ulSendTimeoutMs =
     (if sock_setsockopt E h SO_RCVTIMEO (le_bytes ulRecvTimeoutMs) \<noteq> 0 then TLS_TRANSPORT_INVALID_PARAMETER
      else if sock_setsockopt E h SO_SNDTIMEO (le_bytes ulSendTimeoutMs) \<noteq> 0 then TLS_TRANSPORT_INVALID_PARAMETER
      else if ulRecvTimeoutMs = 0
      then let flags = sock_getfl E h in
        if flags = -1 then TLS_TRANSPORT_INTERNAL_ERROR
        else if sock_set_nonblock E h flags \<noteq> 0 then TLS_TRANSPORT_INTERNAL_ERROR
        else TLS_TRANSPORT_SUCCESS
      else TLS_TRANSPORT_SUCCESS)"

text \<open>The handshake is repeated as long as the library wants to read or write.\<close>

partial_function (option) handshake :: "'x tls_env \<Rightarrow> 'x \<Rightarrow> (mbedtls_err \<times> 'x) option" where
  "handshake E x =
     (case mbedtls_ssl_handshake E x of (lError, x') \<Rightarrow>
        if lError = MBEDTLS_ERR_SSL_WANT_READ \<or> lError = MBEDTLS_ERR_SSL_WANT_WRITE then handshake E x'
        else Some (lError, x'))"

text \<open>The end of a failed attempt; the pointer to the library's context is NULL when the arguments were refused.\<close>

definition connect_failed ::
  "'x tls_env \<Rightarrow> bool \<Rightarrow> ('x, 'm) TLSContext_t_scheme \<Rightarrow> ('x, 'm) TLSContext_t_scheme option" where
  "connect_failed E ssl_null s =
     (let s = (if xSockHandle s \<ge> 0 then close_socket s else s) in
      if ssl_null then (if reset_null_returns E then Some s else None)
      else Some (s\<lparr>xSslCtx := mbedtls_ssl_session_reset E (xSslCtx s)\<rparr>))"

definition connect_arguments_ok :: "'x tls_env \<Rightarrow> string option \<Rightarrow> u16 \<Rightarrow> bool" where
  "connect_arguments_ok E pcHostName usPort =
     (case pcHostName of
        None \<Rightarrow> False
      | Some host \<Rightarrow>
          \<not> strnlen host (MBEDTLS_SSL_MAX_HOST_NAME_LEN E + 1) > MBEDTLS_SSL_MAX_HOST_NAME_LEN E \<and> usPort \<noteq> 0)"

text \<open>The attempt with valid arguments: host name, socket, options, handshake.\<close>

definition connect_hostname :: "'x tls_env \<Rightarrow> string \<Rightarrow> 'x \<Rightarrow> int \<times> 'x" where
  "connect_hostname E host x =
     (if (case ssl_hostname E x of None \<Rightarrow> True | Some h \<Rightarrow> \<not> strncmp_eq h host (MBEDTLS_SSL_MAX_HOST_NAME_LEN E))
      then (case mbedtls_ssl_set_hostname E host x of
              (lError, x) \<Rightarrow> (if lError \<noteq> MBEDTLS_OK then TLS_TRANSPORT_INVALID_HOSTNAME else TLS_TRANSPORT_SUCCESS, x))
      else (TLS_TRANSPORT_SUCCESS, x))"

definition connect_handshake ::
  "'x tls_env \<Rightarrow> ('x, 'm) TLSContext_t_scheme \<Rightarrow> (int \<times> ('x, 'm) TLSContext_t_scheme) option" where
  "connect_handshake E s = do {
     (lError, x) \<leftarrow> handshake E (xSslCtx s);
     Some (if lError \<noteq> MBEDTLS_OK then TLS_TRANSPORT_HANDSHAKE_FAILED else TLS_TRANSPORT_SUCCESS, s\<lparr>xSslCtx := x\<rparr>)
   }"

definition connect_attempt ::
  "'x tls_env \<Rightarrow> string \<Rightarrow> u16 \<Rightarrow> u32 \<Rightarrow> u32 \<Rightarrow> ('x, 'm) TLSContext_t_scheme \<Rightarrow> (int \<times> ('x, 'm) TLSContext_t_scheme) option" where
  "connect_attempt E host usPort ulRecvTimeoutMs ulSendTimeoutMs s = do {
     let (xStatus, x) = connect_hostname E host (xSslCtx s);
     let s = s\<lparr>xSslCtx := x\<rparr>;
     (xStatus, s) \<leftarrow> (if xStatus = TLS_TRANSPORT_SUCCESS then xConnectSocket E host usPort s else Some (xStatus, s));
     let xStatus = (if xStatus = TLS_TRANSPORT_SUCCESS
                    then connect_options E (xSockHandle s) ulRecvTimeoutMs ulSendTimeoutMs else xStatus);
     if xStatus = TLS_TRANSPORT_SUCCESS then connect_handshake E s else Some (xStatus, s)
   }"

definition start_notify :: "'x tls_env \<Rightarrow> ('x, 'm) TLSContext_t_scheme \<Rightarrow> ('x, 'm) TLSContext_t_scheme option" where
  "start_notify E s =
     (case pxNotifyThreadCtx s of
        None \<Rightarrow> Some s
      | Some n \<Rightarrow> do {
          (k, n) \<leftarrow> vCreateSocketNotifyTask (notify_sched E) (xSockHandle s) (now s) n;
          Some (s\<lparr>now := k, pxNotifyThreadCtx := Some n\<rparr>)
        })"

definition mbedtls_transport_connect ::
  "'x tls_env \<Rightarrow> string option \<Rightarrow> u16 \<Rightarrow> u32 \<Rightarrow> u32 \<Rightarrow> ('x, 'm) TLSContext_t_scheme \<Rightarrow> (int \<times> ('x, 'm) TLSContext_t_scheme) option" where
  "mbedtls_transport_connect E pcHostName usPort ulRecvTimeoutMs ulSendTimeoutMs s =
     (if \<not> connect_arguments_ok E pcHostName usPort
      then do { s \<leftarrow> connect_failed E True s; Some (TLS_TRANSPORT_INVALID_PARAMETER, s) }
      else do {
        (xStatus, s) \<leftarrow> connect_attempt E (the pcHostName) usPort ulRecvTimeoutMs ulSendTimeoutMs s;
        if xStatus = TLS_TRANSPORT_SUCCESS
        then do { s \<leftarrow> start_notify E s; Some (TLS_TRANSPORT_SUCCESS, s\<lparr>xConnectionState := STATE_CONNECTED\<rparr>) }
        else do { s \<leftarrow> connect_failed E False s; Some (xStatus, s) }
      })"

subsection \<open>Allocating, disconnecting, freeing\<close>

text \<open>\<open>pvPortMalloc\<close> does not clear the memory: \<open>junk\<close> is what the field \<open>pxNotifyThreadCtx\<close> holds, which no one
  initializes. \<open>m\<close> are the remaining fields of the context, after their own initialization.\<close>

definition mbedtls_transport_allocate ::
  "bool \<Rightarrow> NotifyThreadCtx_t option \<Rightarrow> 'x \<Rightarrow> nat \<Rightarrow> 'm \<Rightarrow> ('x, 'm) TLSContext_t_scheme option" where
  "mbedtls_transport_allocate memory junk x k m =
     (if \<not> memory then None
      else Some \<lparr>xConnectionState = STATE_ALLOCATED, xSockHandle = -1, pxNotifyThreadCtx = junk, xSslCtx = x,
                 open_sockets = [], addr_lists = 0, now = k, \<dots> = m\<rparr>)"

definition mbedtls_transport_disconnect ::
  "'x tls_env \<Rightarrow> ('x, 'm) TLSContext_t_scheme \<Rightarrow> ('x, 'm) TLSContext_t_scheme option" where
  "mbedtls_transport_disconnect E s = do {
     let s = (if xConnectionState s = STATE_CONNECTED
              then s\<lparr>xSslCtx := snd (mbedtls_ssl_close_notify E (xSslCtx s)), xConnectionState := STATE_CONFIGURED\<rparr>
              else s);
     s \<leftarrow> stop_notify E s;
     let s = (if xSockHandle s \<ge> 0 then close_socket s else s);
     Some (if xConnectionState s = STATE_CONFIGURED
           then s\<lparr>xSslCtx := mbedtls_ssl_session_reset E (xSslCtx s)\<rparr> else s)
   }"

text \<open>What is left when the context is gone: the sockets that are still open.\<close>

definition mbedtls_transport_free :: "'x tls_env \<Rightarrow> ('x, 'm) TLSContext_t_scheme option \<Rightarrow> int list option" where
  "mbedtls_transport_free E pxNetworkContext =
     (case pxNetworkContext of
        None \<Rightarrow> Some []
      | Some s \<Rightarrow> do {
          k \<leftarrow> vFreeNotifyThreadCtx (notify_sched E) (now s) (pxNotifyThreadCtx s);
          Some (if xSockHandle s \<ge> 0 then remove1 (xSockHandle s) (open_sockets s) else open_sockets s)
        })"

subsection \<open>Sending and receiving\<close>

text \<open>What the two functions return: a number of bytes, -1, or an error code of the library.\<close>

datatype transport_ret = RET_COUNT nat | RET_MINUS_1 | RET_ERR mbedtls_err

definition connection_lost ::
  "'x tls_env \<Rightarrow> ('x, 'm) TLSContext_t_scheme \<Rightarrow> ('x, 'm) TLSContext_t_scheme option" where
  "connection_lost E s =
     (let s = s\<lparr>xConnectionState := STATE_CONFIGURED\<rparr> in
      if xSockHandle s \<ge> 0 then do { s \<leftarrow> stop_notify E s; Some (close_socket s) } else Some s)"

text \<open>How a result is handled; \<open>received\<close> is what happens after data or nothing was transferred.\<close>

definition transport_result ::
  "'x tls_env \<Rightarrow> (('x, 'm) TLSContext_t_scheme \<Rightarrow> ('x, 'm) TLSContext_t_scheme) \<Rightarrow> mbedtls_err \<Rightarrow>
   ('x, 'm) TLSContext_t_scheme \<Rightarrow> (transport_ret \<times> ('x, 'm) TLSContext_t_scheme) option" where
  "transport_result E transferred tlsStatus s =
     (case tlsStatus of
        MBEDTLS_ERR_SSL_TIMEOUT \<Rightarrow> Some (RET_COUNT 0, s)
      | MBEDTLS_ERR_SSL_WANT_READ \<Rightarrow> Some (RET_COUNT 0, s)
      | MBEDTLS_ERR_SSL_WANT_WRITE \<Rightarrow> Some (RET_COUNT 0, s)
      | MBEDTLS_ERR_SSL_PEER_CLOSE_NOTIFY \<Rightarrow> do { s \<leftarrow> connection_lost E s; Some (RET_MINUS_1, s) }
      | MBEDTLS_ERR_NET_CONN_RESET \<Rightarrow> do { s \<leftarrow> connection_lost E s; Some (RET_MINUS_1, s) }
      | MBEDTLS_OK \<Rightarrow> Some (RET_COUNT 0, transferred s)
      | MBEDTLS_POSITIVE n \<Rightarrow> Some (RET_COUNT n, transferred s)
      | e \<Rightarrow> Some (RET_ERR e, s))"

text \<open>After receiving the notify thread is sent the value 0, which lets it go on.\<close>

definition notify_again :: "('x, 'm) TLSContext_t_scheme \<Rightarrow> ('x, 'm) TLSContext_t_scheme" where
  "notify_again s =
     (case pxNotifyThreadCtx s of
        None \<Rightarrow> s
      | Some n \<Rightarrow> if xTaskHandle n \<noteq> None then s\<lparr>pxNotifyThreadCtx := Some (n\<lparr>pending := Some 0\<rparr>)\<rparr> else s)"

definition mbedtls_transport_recv ::
  "'x tls_env \<Rightarrow> nat \<Rightarrow> ('x, 'm) TLSContext_t_scheme \<Rightarrow> (transport_ret \<times> byte list \<times> ('x, 'm) TLSContext_t_scheme) option" where
  "mbedtls_transport_recv E uxBytesToRecv s = do {
     configASSERT (uxBytesToRecv > 0);
     let (tlsStatus, bs, x) = (if xConnectionState s = STATE_CONNECTED then mbedtls_ssl_read E uxBytesToRecv (xSslCtx s)
                               else (MBEDTLS_OK, [], xSslCtx s));
     (r, s) \<leftarrow> transport_result E notify_again tlsStatus (s\<lparr>xSslCtx := x\<rparr>);
     Some (r, bs, s)
   }"

definition mbedtls_transport_send ::
  "'x tls_env \<Rightarrow> byte list \<Rightarrow> ('x, 'm) TLSContext_t_scheme \<Rightarrow> (transport_ret \<times> ('x, 'm) TLSContext_t_scheme) option" where
  "mbedtls_transport_send E pBuffer s = do {
     configASSERT (length pBuffer > 0);
     let (tlsStatus, x) = (if xConnectionState s = STATE_CONNECTED then mbedtls_ssl_write E pBuffer (xSslCtx s)
                           else (MBEDTLS_OK, xSslCtx s));
     transport_result E (\<lambda>s. s) tlsStatus (s\<lparr>xSslCtx := x\<rparr>)
   }"

subsection \<open>Callback and options\<close>

text \<open>\<open>block\<close> is the memory \<open>pvPortMalloc\<close> delivers for a new notify context, if any. Without a callback a new
  context replaces the one there may be.\<close>

definition mbedtls_transport_setrecvcallback ::
  "'x tls_env \<Rightarrow> NotifyThreadCtx_t option \<Rightarrow> nat option \<Rightarrow> nat \<Rightarrow> ('x, 'm) TLSContext_t_scheme option \<Rightarrow>
   (int \<times> ('x, 'm) TLSContext_t_scheme option) option" where
  "mbedtls_transport_setrecvcallback E block pxCallback pvCtx pxTLSCtx =
     (case pxTLSCtx of
        None \<Rightarrow> if block = None then Some (-1, None) else None
      | Some s \<Rightarrow> do {
          let refused = (pxCallback = None);
          (lError, s) \<leftarrow>
            (case if refused then None else pxNotifyThreadCtx s of
               None \<Rightarrow>
                 (case block of
                    None \<Rightarrow> Some (-1, s)
                  | Some n \<Rightarrow> Some (if refused then -1 else 0,
                                    s\<lparr>pxNotifyThreadCtx := Some (n\<lparr>nt_xSockHandle := -1, xTaskHandle := None\<rparr>)\<rparr>))
             | Some n \<Rightarrow>
                 if xConnectionState s = STATE_CONNECTED \<and> xTaskHandle n \<noteq> None
                 then do { s \<leftarrow> stop_notify E s; Some (0, s) } else Some (0, s));
          if lError = 0
          then (case pxNotifyThreadCtx s of
                  None \<Rightarrow> None
                | Some n \<Rightarrow>
                    let n = n\<lparr>pxRecvReadyCallback := pxCallback, pvRecvReadyCallbackCtx := pvCtx\<rparr> in
                    do {
                      s \<leftarrow> (if xConnectionState s = STATE_CONNECTED then start_notify E (s\<lparr>pxNotifyThreadCtx := Some n\<rparr>)
                            else Some (s\<lparr>pxNotifyThreadCtx := Some n\<rparr>));
                      Some (0, Some s)
                    })
          else Some (lError, Some s)
        })"

text \<open>\<open>EINVAL\<close> is the error number of the platform.\<close>

definition mbedtls_transport_setsockopt ::
  "'x tls_env \<Rightarrow> int \<Rightarrow> sockopt \<Rightarrow> byte list \<Rightarrow> ('x, 'm) TLSContext_t_scheme \<Rightarrow> int" where
  "mbedtls_transport_setsockopt E EINVAL lSockopt pvSockoptValue s =
     (if xSockHandle s \<ge> 0 then sock_setsockopt E (xSockHandle s) lSockopt pvSockoptValue else - EINVAL)"

subsection \<open>The invariant\<close>

text \<open>The context owns its socket: it is the only one that is open, and there is none unless the context is
  connected. No address list is left behind.\<close>

definition owned :: "int \<Rightarrow> int list" where
  "owned h = (if h \<ge> 0 then [h] else [])"

definition tls_inv :: "('x, 'm) TLSContext_t_scheme \<Rightarrow> bool" where
  "tls_inv s \<longleftrightarrow> open_sockets s = owned (xSockHandle s) \<and> addr_lists s = 0 \<and>
     (xConnectionState s \<noteq> STATE_CONNECTED \<longrightarrow> xSockHandle s < 0)"

lemma owned_simps [simp]: "h < 0 \<Longrightarrow> owned h = []" "0 \<le> h \<Longrightarrow> owned h = [h]" "remove1 h (owned h) = []"
  by (simp_all add: owned_def)

lemma close_socket_simps [simp]:
  "xSockHandle (close_socket s) = -1" "open_sockets (close_socket s) = remove1 (xSockHandle s) (open_sockets s)"
  "xConnectionState (close_socket s) = xConnectionState s" "addr_lists (close_socket s) = addr_lists s"
  "pxNotifyThreadCtx (close_socket s) = pxNotifyThreadCtx s" "xSslCtx (close_socket s) = xSslCtx s" "now (close_socket s) = now s"
  by (simp_all add: close_socket_def)

text \<open>Closing the socket if there is one.\<close>

lemma closed_if:
  assumes "open_sockets s = owned (xSockHandle s)"
  shows "open_sockets (if xSockHandle s \<ge> 0 then close_socket s else s) = []"
    "xSockHandle (if xSockHandle s \<ge> 0 then close_socket s else s) < 0"
  using assms by simp_all

lemma stop_notify_frame:
  "stop_notify E s = Some s' \<Longrightarrow>
   xConnectionState s' = xConnectionState s \<and> xSockHandle s' = xSockHandle s \<and> open_sockets s' = open_sockets s \<and>
   addr_lists s' = addr_lists s \<and> xSslCtx s' = xSslCtx s"
  by (auto simp: stop_notify_def split: option.splits bind_splits)

text \<open>The address the loop stays with: the first one of the right family that accepts the connection.\<close>

definition first_reachable :: "'x tls_env \<Rightarrow> u16 \<Rightarrow> addrinfo list \<Rightarrow> addrinfo option" where
  "first_reachable E usPort as = find (\<lambda>a. ai_family a = AF_INET \<and> sock_connect E (sock_socket E [] a) a usPort = 0) as"

lemma connect_loop_result:
  assumes "connect_loop E usPort as s = (st, s')" "open_sockets s = []" "xSockHandle s < 0"
  shows "open_sockets s' = owned (xSockHandle s') \<and> (st \<noteq> 0 \<longrightarrow> xSockHandle s' < 0) \<and>
    st \<in> {TLS_TRANSPORT_SUCCESS, TLS_TRANSPORT_INSUFFICIENT_SOCKETS} \<and>
    xConnectionState s' = xConnectionState s \<and> addr_lists s' = addr_lists s \<and> xSslCtx s' = xSslCtx s \<and>
    pxNotifyThreadCtx s' = pxNotifyThreadCtx s \<and> now s' = now s \<and>
    (0 \<le> xSockHandle s' \<longrightarrow> (\<exists>a. first_reachable E usPort as = Some a \<and> xSockHandle s' = sock_socket E [] a))"
  using assms
proof (induction as arbitrary: s)
  case (Cons a as)
  let ?h = "sock_socket E [] a"
  let ?s = "s\<lparr>xSockHandle := ?h, open_sockets := [?h]\<rparr>"
  consider "ai_family a \<noteq> AF_INET" | "ai_family a = AF_INET" "?h < 0"
    | "ai_family a = AF_INET" "0 \<le> ?h" "sock_connect E ?h a usPort \<noteq> 0"
    | "ai_family a = AF_INET" "0 \<le> ?h" "sock_connect E ?h a usPort = 0" by fastforce
  then show ?case
  proof cases
    case 1
    then show ?thesis using Cons.IH [of s] Cons.prems by (simp add: first_reachable_def)
  next
    case 2
    then show ?thesis using Cons.prems by auto
  next
    case 3
    then have "connect_loop E usPort as (close_socket ?s) = (st, s')" using Cons.prems by (simp add: Let_def)
    then show ?thesis using Cons.IH [of "close_socket ?s"] 3 by (simp add: first_reachable_def)
  next
    case 4
    then show ?thesis using Cons.prems by (auto simp: Let_def first_reachable_def)
  qed
qed auto

lemma xConnectSocket_result:
  assumes "open_sockets s = owned (xSockHandle s)" "addr_lists s = 0" "usPort > 0"
  obtains st s' where "xConnectSocket E host usPort s = Some (st, s')"
    "open_sockets s' = owned (xSockHandle s')" "addr_lists s' = 0" "st \<in> TlsTransportStatus"
    "xConnectionState s' = xConnectionState s" "xSslCtx s' = xSslCtx s" "pxNotifyThreadCtx s' = pxNotifyThreadCtx s" "now s' = now s"
    "st = 0 \<longrightarrow> 0 \<le> xSockHandle s' \<and> (\<exists>as a. dns_getaddrinfo E host = (0, Some as) \<and> first_reachable E usPort as = Some a \<and>
       xSockHandle s' = sock_socket E [] a)"
    "st \<noteq> 0 \<longrightarrow> xSockHandle s' < 0"
proof -
  let ?s = "if xSockHandle s \<ge> 0 then close_socket s else s"
  let ?t = "?s\<lparr>addr_lists := 1\<rparr>"
  obtain e r where d: "dns_getaddrinfo E host = (e, r)" by (cases "dns_getaddrinfo E host")
  have c: "open_sockets ?s = []" "xSockHandle ?s < 0" using closed_if [OF assms(1)] by simp_all
  have f: "xConnectionState ?s = xConnectionState s" "xSslCtx ?s = xSslCtx s" "pxNotifyThreadCtx ?s = pxNotifyThreadCtx s"
    "now ?s = now s" "addr_lists ?s = 0" using assms(2) by simp_all
  show ?thesis
  proof (cases "e = 0 \<and> r \<noteq> None")
    case False
    have eq: "xConnectSocket E host usPort s = Some (TLS_TRANSPORT_DNS_FAILED, if r \<noteq> None then ?t\<lparr>addr_lists := 0\<rparr> else ?s)"
      using False assms(3) d f(5) unfolding xConnectSocket_def Let_def by auto
    show ?thesis
      by (rule that [OF eq]) (use c f in \<open>auto simp: TlsTransportStatus_def\<close>)
  next
    case True
    then obtain as where as: "r = Some as" "e = 0" by auto
    obtain st s' where l: "connect_loop E usPort as ?t = (st, s')" by (cases "connect_loop E usPort as ?t")
    note R = connect_loop_result [OF l, simplified, OF c]
    have eq: "xConnectSocket E host usPort s =
        Some (if st = 0 \<and> xSockHandle s' < 0 then TLS_TRANSPORT_CONNECT_FAILURE else st, s'\<lparr>addr_lists := addr_lists s' - 1\<rparr>)"
      using as assms(3) d f(5) l unfolding xConnectSocket_def Let_def by (simp split: prod.splits)
    show ?thesis
      by (rule that [OF eq]) (use R f d as in \<open>auto simp: TlsTransportStatus_def\<close>)
  qed
qed

lemma connect_options_status: "connect_options E h r t \<in> TlsTransportStatus"
  by (simp add: connect_options_def TlsTransportStatus_def Let_def)

text \<open>An attempt keeps the ownership of the socket; when it succeeds the socket is connected to the first
  address that could be reached, and the handshake is complete.\<close>

lemma connect_attempt_result:
  assumes "connect_attempt E host usPort r t s = Some (st, s')" "open_sockets s = owned (xSockHandle s)" "addr_lists s = 0" "usPort > 0"
  shows "open_sockets s' = owned (xSockHandle s') \<and> addr_lists s' = 0 \<and> st \<in> TlsTransportStatus \<and>
    xConnectionState s' = xConnectionState s \<and> pxNotifyThreadCtx s' = pxNotifyThreadCtx s \<and>
    (st = 0 \<longrightarrow> 0 \<le> xSockHandle s' \<and> (\<exists>x. handshake E x = Some (MBEDTLS_OK, xSslCtx s')) \<and>
      (\<exists>as a. dns_getaddrinfo E host = (0, Some as) \<and> first_reachable E usPort as = Some a \<and> xSockHandle s' = sock_socket E [] a))"
proof -
  obtain st0 x where h: "connect_hostname E host (xSslCtx s) = (st0, x)" by (cases "connect_hostname E host (xSslCtx s)")
  have st0: "st0 \<in> TlsTransportStatus"
    using h by (auto simp: connect_hostname_def TlsTransportStatus_def split: if_splits option.splits prod.splits)
  have inv: "open_sockets (s\<lparr>xSslCtx := x\<rparr>) = owned (xSockHandle (s\<lparr>xSslCtx := x\<rparr>))" "addr_lists (s\<lparr>xSslCtx := x\<rparr>) = 0"
    using assms(2,3) by simp_all
  obtain st1 s1 where X: "xConnectSocket E host usPort (s\<lparr>xSslCtx := x\<rparr>) = Some (st1, s1)"
    "open_sockets s1 = owned (xSockHandle s1)" "addr_lists s1 = 0" "st1 \<in> TlsTransportStatus"
    "xConnectionState s1 = xConnectionState s" "xSslCtx s1 = x" "pxNotifyThreadCtx s1 = pxNotifyThreadCtx s" "now s1 = now s"
    "st1 = 0 \<longrightarrow> 0 \<le> xSockHandle s1 \<and> (\<exists>as a. dns_getaddrinfo E host = (0, Some as) \<and> first_reachable E usPort as = Some a \<and>
       xSockHandle s1 = sock_socket E [] a)"
    "st1 \<noteq> 0 \<longrightarrow> xSockHandle s1 < 0"
    by (rule xConnectSocket_result [OF inv assms(4), of E host]) simp
  show ?thesis
  proof (cases "st0 = 0 \<and> st1 = 0 \<and> connect_options E (xSockHandle s1) r t = 0")
    case True
    then have "connect_handshake E s1 = Some (st, s')" using assms(1) h X(1) by (simp add: connect_attempt_def)
    then obtain e y where y: "handshake E (xSslCtx s1) = Some (e, y)" "s' = s1\<lparr>xSslCtx := y\<rparr>" "st = (if e \<noteq> MBEDTLS_OK then -5 else 0)"
      by (auto simp: connect_handshake_def split: bind_splits)
    show ?thesis using y X True by (auto simp: TlsTransportStatus_def)
  next
    case False
    have "(st, s') = (if st0 \<noteq> 0 then (st0, s\<lparr>xSslCtx := x\<rparr>)
        else (if st1 = 0 then connect_options E (xSockHandle s1) r t else st1, s1)) \<and> st \<noteq> 0"
      using False assms(1) h X(1) by (auto simp: connect_attempt_def split: if_splits)
    then show ?thesis using X st0 assms connect_options_status [of E "xSockHandle s1" r t] by (auto split: if_splits)
  qed
qed

lemma connect_failed_inv:
  assumes "connect_failed E null s = Some s'" "open_sockets s = owned (xSockHandle s)" "addr_lists s = 0"
  shows "tls_inv s' \<and> open_sockets s' = [] \<and> xSockHandle s' < 0 \<and> xConnectionState s' = xConnectionState s"
  using assms closed_if [OF assms(2)] by (auto simp: connect_failed_def Let_def tls_inv_def split: if_splits)

lemma start_notify_frame:
  "start_notify E s = Some s' \<Longrightarrow>
   xConnectionState s' = xConnectionState s \<and> xSockHandle s' = xSockHandle s \<and> open_sockets s' = open_sockets s \<and>
   addr_lists s' = addr_lists s \<and> xSslCtx s' = xSslCtx s"
  by (auto simp: start_notify_def split: option.splits bind_splits)

text \<open>Every way out of \<open>mbedtls_transport_connect\<close>.\<close>

lemma connect_result:
  assumes "mbedtls_transport_connect E host usPort r t s = Some (st, s')" "tls_inv s"
  shows "tls_inv s' \<and> st \<in> TlsTransportStatus \<and>
    (st = 0 \<longrightarrow> xConnectionState s' = STATE_CONNECTED \<and> 0 \<le> xSockHandle s' \<and> (\<exists>x. handshake E x = Some (MBEDTLS_OK, xSslCtx s')) \<and>
      (\<exists>as a. dns_getaddrinfo E (the host) = (0, Some as) \<and> first_reachable E usPort as = Some a \<and> xSockHandle s' = sock_socket E [] a)) \<and>
    (st \<noteq> 0 \<longrightarrow> xConnectionState s' = xConnectionState s \<and> open_sockets s' = [] \<and> xSockHandle s' < 0)"
proof (cases "connect_arguments_ok E host usPort")
  case False
  then obtain "connect_failed E True s = Some s'" "st = -2"
    using assms(1) by (auto simp: mbedtls_transport_connect_def split: bind_splits)
  then show ?thesis using connect_failed_inv [of E True s s'] assms(2) by (simp add: tls_inv_def TlsTransportStatus_def)
next
  case True
  have inv: "open_sockets s = owned (xSockHandle s)" "addr_lists s = 0" using assms(2) by (simp_all add: tls_inv_def)
  have p: "usPort > 0" using True word_gt_0 by (auto simp: connect_arguments_ok_def split: option.splits)
  obtain st1 s1 where a: "connect_attempt E (the host) usPort r t s = Some (st1, s1)"
    using assms(1) True by (auto simp: mbedtls_transport_connect_def split: bind_splits)
  note R = connect_attempt_result [OF a inv p]
  show ?thesis
  proof (cases "st1 = 0")
    case True
    then obtain s2 where s2: "start_notify E s1 = Some s2" "s' = s2\<lparr>xConnectionState := STATE_CONNECTED\<rparr>" "st = 0"
      using assms(1) a \<open>connect_arguments_ok E host usPort\<close> by (auto simp: mbedtls_transport_connect_def split: bind_splits)
    show ?thesis using R True s2(2,3) start_notify_frame [OF s2(1)] by (auto simp: tls_inv_def)
  next
    case False
    then obtain s2 where "connect_failed E False s1 = Some s'" "st = st1"
      using assms(1) a \<open>connect_arguments_ok E host usPort\<close> by (auto simp: mbedtls_transport_connect_def split: bind_splits)
    then show ?thesis using connect_failed_inv [of E False s1 s'] R False by auto
  qed
qed

lemma connect_attempt_returns:
  assumes "\<And>x. handshake E x \<noteq> None" "open_sockets s = owned (xSockHandle s)" "addr_lists s = 0" "usPort > 0"
  shows "connect_attempt E host usPort r t s \<noteq> None"
proof -
  obtain st0 x where h: "connect_hostname E host (xSslCtx s) = (st0, x)" by (cases "connect_hostname E host (xSslCtx s)")
  have inv: "open_sockets (s\<lparr>xSslCtx := x\<rparr>) = owned (xSockHandle (s\<lparr>xSslCtx := x\<rparr>))" "addr_lists (s\<lparr>xSslCtx := x\<rparr>) = 0"
    using assms(2,3) by simp_all
  obtain st1 s1 where X: "xConnectSocket E host usPort (s\<lparr>xSslCtx := x\<rparr>) = Some (st1, s1)"
    by (rule xConnectSocket_result [OF inv assms(4), of E host]) blast
  obtain e y where "handshake E (xSslCtx s1) = Some (e, y)" using assms(1) [of "xSslCtx s1"] by auto
  then show ?thesis using h X by (simp add: connect_attempt_def connect_handshake_def Let_def)
qed

text \<open>
  C8. Connecting with valid arguments, when the notify thread is not running and the handshake comes to
  an end, returns. Success means that the context is connected over the first address of the host that
  accepted a connection, with a completed handshake. After every failure no socket is open, and the
  state is what it was before.
\<close>

theorem tls_connect_outcome:
  assumes "tls_inv s" "connect_arguments_ok E (Some host) usPort" "\<And>x. handshake E x \<noteq> None"
    and "\<And>n. pxNotifyThreadCtx s = Some n \<Longrightarrow> xTaskHandle n = None"
  shows "\<exists>st s'. mbedtls_transport_connect E (Some host) usPort r t s = Some (st, s') \<and> tls_inv s' \<and>
    (st = 0 \<longrightarrow> xConnectionState s' = STATE_CONNECTED \<and> (\<exists>x. handshake E x = Some (MBEDTLS_OK, xSslCtx s')) \<and>
      (\<exists>as a. dns_getaddrinfo E host = (0, Some as) \<and> first_reachable E usPort as = Some a \<and> xSockHandle s' = sock_socket E [] a)) \<and>
    (st \<noteq> 0 \<longrightarrow> xConnectionState s' = xConnectionState s \<and> open_sockets s' = [])"
proof -
  have inv: "open_sockets s = owned (xSockHandle s)" "addr_lists s = 0" using assms(1) by (simp_all add: tls_inv_def)
  have p: "usPort > 0" using assms(2) word_gt_0 by (auto simp: connect_arguments_ok_def)
  obtain st1 s1 where a: "connect_attempt E host usPort r t s = Some (st1, s1)"
    using connect_attempt_returns [OF assms(3) inv p, of host r t] by auto
  have n: "pxNotifyThreadCtx s1 = pxNotifyThreadCtx s" using connect_attempt_result [OF a inv p] by simp
  have "start_notify E s1 \<noteq> None"
    using assms(4) n by (auto simp: start_notify_def vCreateSocketNotifyTask_def split: option.splits)
  then obtain st s' where c: "mbedtls_transport_connect E (Some host) usPort r t s = Some (st, s')"
    using a assms(2) by (cases "st1 = 0") (auto simp: mbedtls_transport_connect_def connect_failed_def Let_def)
  then show ?thesis using connect_result [OF c assms(1)] by auto
qed

text \<open>For the witnesses: a host with three addresses of which the last one answers, and a library that accepts
  everything.\<close>

definition ex_tls_env :: "nat tls_env" where
  "ex_tls_env =
     \<lparr>MBEDTLS_SSL_MAX_HOST_NAME_LEN = 255,
      dns_getaddrinfo = \<lambda>h. (0, Some [\<lparr>ai_family = AF_OTHER 6, ai_addr = 1\<rparr>, \<lparr>ai_family = AF_INET, ai_addr = 2\<rparr>, \<lparr>ai_family = AF_INET, ai_addr = 3\<rparr>]),
      sock_socket = \<lambda>used a. int (length used), sock_connect = \<lambda>h a p. if ai_addr a = 3 then 0 else -1,
      sock_setsockopt = \<lambda>h opt v. 0, sock_getfl = \<lambda>h. 0, sock_set_nonblock = \<lambda>h f. 0,
      ssl_hostname = \<lambda>x. None, mbedtls_ssl_set_hostname = \<lambda>h x. (MBEDTLS_OK, x), mbedtls_ssl_handshake = \<lambda>x. (MBEDTLS_OK, x + 1),
      mbedtls_ssl_close_notify = \<lambda>x. (MBEDTLS_OK, x), mbedtls_ssl_session_reset = \<lambda>x. 0, reset_null_returns = False,
      mbedtls_ssl_read = \<lambda>n x. (MBEDTLS_ERR_NET_CONN_RESET, [], x), mbedtls_ssl_write = \<lambda>bs x. (MBEDTLS_POSITIVE (length bs), x),
      notify_sched = \<lambda>k. []\<rparr>"

definition ex_tls :: "nat TLSContext_t" where
  "ex_tls = \<lparr>xConnectionState = STATE_CONFIGURED, xSockHandle = -1, pxNotifyThreadCtx = None, xSslCtx = 0,
     open_sockets = [], addr_lists = 0, now = 0\<rparr>"

lemma ex_handshake: "handshake ex_tls_env x = Some (MBEDTLS_OK, x + 1)"
  by (subst handshake.simps) (simp add: ex_tls_env_def)

theorem tls_connect_outcome_witness:
  "\<exists>st s'. mbedtls_transport_connect ex_tls_env (Some ''host'') 8883 0 0 ex_tls = Some (st, s') \<and> tls_inv s'"
  using tls_connect_outcome [of ex_tls ex_tls_env "''host''" 8883 0 0]
  by (simp add: ex_handshake) (auto simp: tls_inv_def ex_tls_def connect_arguments_ok_def strnlen_def strlen_def c_str_def ex_tls_env_def)

subsection \<open>The other operations keep the invariant\<close>

lemma disconnect_result:
  assumes "mbedtls_transport_disconnect E s = Some s'" "open_sockets s = owned (xSockHandle s)" "addr_lists s = 0"
  shows "tls_inv s' \<and> open_sockets s' = [] \<and> xConnectionState s' \<noteq> STATE_CONNECTED \<and>
    (xConnectionState s \<noteq> STATE_CONNECTED \<longrightarrow> xConnectionState s' = xConnectionState s)"
  using assms
  by (auto simp: mbedtls_transport_disconnect_def tls_inv_def Let_def split: if_splits bind_splits dest!: stop_notify_frame)

lemma connection_lost_result:
  assumes "connection_lost E s = Some s'" "tls_inv s"
  shows "tls_inv s' \<and> open_sockets s' = [] \<and> xConnectionState s' = STATE_CONFIGURED"
  using assms by (auto simp: connection_lost_def tls_inv_def Let_def split: if_splits bind_splits dest!: stop_notify_frame)

lemma notify_again_inv [simp]: "tls_inv (notify_again s) = tls_inv s"
  by (auto simp: notify_again_def tls_inv_def split: option.splits)

lemma transport_result_inv:
  assumes "transport_result E f e s = Some (r, s')" "tls_inv s" "\<And>s. tls_inv (f s) = tls_inv s"
  shows "tls_inv s' \<and> (r = RET_MINUS_1 \<longrightarrow> open_sockets s' = [] \<and> xConnectionState s' = STATE_CONFIGURED)"
  using assms connection_lost_result [of E s]
  by (auto simp: transport_result_def split: mbedtls_err.splits bind_splits)

lemma tls_inv_ssl [simp]: "tls_inv (s\<lparr>xSslCtx := x\<rparr>) = tls_inv s"
  by (simp add: tls_inv_def)

lemma recv_inv:
  assumes "mbedtls_transport_recv E n s = Some (r, bs, s')" "tls_inv s"
  shows "tls_inv s' \<and> (r = RET_MINUS_1 \<longrightarrow> open_sockets s' = [] \<and> xConnectionState s' = STATE_CONFIGURED)"
proof -
  obtain e x where "transport_result E notify_again e (s\<lparr>xSslCtx := x\<rparr>) = Some (r, s')"
    using assms(1) by (auto simp: mbedtls_transport_recv_def split: bind_splits prod.splits)
  from transport_result_inv [OF this] assms(2) show ?thesis by simp
qed

lemma send_inv:
  assumes "mbedtls_transport_send E bs s = Some (r, s')" "tls_inv s"
  shows "tls_inv s' \<and> (r = RET_MINUS_1 \<longrightarrow> open_sockets s' = [] \<and> xConnectionState s' = STATE_CONFIGURED)"
proof -
  obtain e x where "transport_result E (\<lambda>s. s) e (s\<lparr>xSslCtx := x\<rparr>) = Some (r, s')"
    using assms(1) by (auto simp: mbedtls_transport_send_def split: bind_splits prod.splits)
  from transport_result_inv [OF this] assms(2) show ?thesis by simp
qed

lemma tls_inv_notify [simp]: "tls_inv (s\<lparr>pxNotifyThreadCtx := n\<rparr>) = tls_inv s"
  by (simp add: tls_inv_def)

lemma same_socket_inv:
  "xConnectionState s' = xConnectionState s \<and> xSockHandle s' = xSockHandle s \<and> open_sockets s' = open_sockets s \<and>
   addr_lists s' = addr_lists s \<and> xSslCtx s' = xSslCtx s \<Longrightarrow> tls_inv s' = tls_inv s"
  by (simp add: tls_inv_def)

lemma setrecvcallback_inv:
  assumes "mbedtls_transport_setrecvcallback E block cb ctx (Some s) = Some (e, Some s')" "tls_inv s"
  shows "tls_inv s'"
  using assms
  by (auto simp: mbedtls_transport_setrecvcallback_def Let_def split: option.splits if_splits bind_splits
      dest!: stop_notify_frame [THEN same_socket_inv] start_notify_frame [THEN same_socket_inv])

text \<open>A context that is freed leaves no socket behind.\<close>

lemma free_closes:
  assumes "tls_inv s" "mbedtls_transport_free E (Some s) = Some left"
  shows "left = []"
  using assms by (auto simp: mbedtls_transport_free_def tls_inv_def split: bind_splits if_splits)

text \<open>A failed attempt on a connected context leaves it marked as connected, without a socket.\<close>

lemma tls_failed_reconnect_stays_connected:
  assumes "mbedtls_transport_connect E host usPort r t s = Some (st, s')" "tls_inv s" "st \<noteq> 0" "xConnectionState s = STATE_CONNECTED"
  shows "xConnectionState s' = STATE_CONNECTED \<and> xSockHandle s' < 0"
  using connect_result [OF assms(1,2)] assms(3,4) by simp

text \<open>Setting no callback is refused, and replaces the notify context: a thread that was running is forgotten.\<close>

lemma tls_null_callback_forgets_thread:
  assumes "pxNotifyThreadCtx s = Some n" "xTaskHandle n = Some pc"
  shows "\<exists>s' n'. mbedtls_transport_setrecvcallback E (Some block) None ctx (Some s) = Some (-1, Some s') \<and>
    pxNotifyThreadCtx s' = Some n' \<and> xTaskHandle n' = None"
  using assms by (simp add: mbedtls_transport_setrecvcallback_def)

text \<open>Disconnecting an idle connection with a callback never returns.\<close>

lemma tls_disconnect_idle_hangs:
  assumes "pxNotifyThreadCtx s = Some n" "xTaskHandle n = Some Selecting" "\<And>k. list_all (\<lambda>a. a = None) (notify_sched E k)"
  shows "mbedtls_transport_disconnect E s = None"
proof -
  have "vStopSocketNotifyTask (notify_sched E) k n = None" for k
    using stop_answered [of "notify_sched E" k n] assms(2,3)
    by (cases "vStopSocketNotifyTask (notify_sched E) k n") (fastforce simp: list_all_iff)+
  then show ?thesis using assms(1) by (simp add: mbedtls_transport_disconnect_def stop_notify_def)
qed

end
