(* ===== verification/TlsConfig.thy ===== *)
theory TlsConfig
  imports TlsTransport PkiObject
begin

text \<open>
  Configuring a TLS connection (\<open>mbedtls_transport_configure\<close> and its helpers in
  \<open>source/crypto/mbedtls_transport.c\<close>), in the build with \<open>MBEDTLS_TRANSPORT_PSA\<close> and
  \<open>MBEDTLS_SSL_MAX_FRAGMENT_LENGTH\<close>, on top of the certificate and key functions of \<open>PkiObject\<close>. The TLS library is the
  record \<open>conf_env\<close>.
\<close>

text \<open>The values of \<open>PkiStatus_t\<close>, which the transport assigns to its own status.\<close>

fun pki_value :: "PkiStatus_t \<Rightarrow> int" where
  "pki_value PKI_SUCCESS = 0"
| "pki_value PKI_ERR = -1"
| "pki_value PKI_ERR_ARG_INVALID = -2"
| "pki_value PKI_ERR_NOMEM = -3"
| "pki_value PKI_ERR_INTERNAL = -6"
| "pki_value PKI_ERR_NOT_IMPLEMENTED = -7"
| "pki_value PKI_ERR_OBJ = -0x8000010"
| "pki_value PKI_ERR_OBJ_NOT_FOUND = -0x8000011"
| "pki_value PKI_ERR_OBJ_PARSING_FAILED = -0x8000012"

record crt_profile =
  allowed_mds :: u32
  allowed_pks :: u32
  allowed_curves :: u32
  rsa_min_bitlen :: nat

datatype pk_type = PK_NONE | PK_RSA | PK_RSASSA_PSS | PK_ECDSA | PK_ECKEY | PK_ECKEY_DH

text \<open>What the code looks at in the first certificate of a chain.\<close>

record crt_info =
  sig_md :: nat
  sig_pk :: nat
  pk_type_of :: pk_type
  pk_bitlen :: nat
  ec_group :: nat

text \<open>The settings of \<open>mbedtls_ssl_config\<close> the code makes. \<open>min_tls12\<close>: TLS 1.2 is the oldest version; \<open>own_cert\<close> and
  \<open>ca_chain\<close>: the context's own certificate with its key and the chain of root certificates are in use.\<close>

record ssl_config =
  f_rng :: bool
  min_tls12 :: bool
  cert_profile :: "crt_profile option"
  verify_required :: bool
  own_cert :: bool
  alpn_protocols :: "string list option"
  max_frag_4096 :: bool
  ca_chain :: bool

definition mbedtls_ssl_config_init :: ssl_config where
  "mbedtls_ssl_config_init = \<lparr>f_rng = False, min_tls12 = False, cert_profile = None, verify_required = False,
     own_cert = False, alpn_protocols = None, max_frag_4096 = False, ca_chain = False\<rparr>"

record ('x, 'k) tls_context = "'x TLSContext_t" +
  xSslConfig :: ssl_config
  xRootCaChain :: "byte list list"
  xClientCert :: "byte list list"
  xPkCtx :: "'k option"

text \<open>The library: the flags of the certificate check, the contents of certificates, key operations, and the
  results of the calls that can fail. \<open>crt_alloc i\<close> tells whether there is memory for the root certificate
  with index \<open>i\<close>. \<open>config_defaults\<close> fills in the settings of the preset.\<close>

record ('x, 'k) conf_env =
  MBEDTLS_X509_ID_FLAG :: "nat \<Rightarrow> u32"
  BADCERT_BAD_MD :: u32
  BADCERT_BAD_PK :: u32
  BADCERT_BAD_KEY :: u32
  profile_default :: crt_profile
  crt_of :: "byte list list \<Rightarrow> crt_info"
  crt_pk :: "byte list list \<Rightarrow> 'k option"
  pk_can_do :: "'k option \<Rightarrow> pk_type \<Rightarrow> bool"
  mbedtls_pk_check_pair :: "'k option \<Rightarrow> 'k option \<Rightarrow> mbedtls_err"
  conf_own_cert :: "byte list list \<Rightarrow> 'k option \<Rightarrow> mbedtls_err"
  psa_crypto_init :: psa_status
  config_defaults :: "ssl_config \<Rightarrow> mbedtls_err \<times> ssl_config"
  conf_alpn_protocols :: "string list \<Rightarrow> mbedtls_err"
  conf_max_frag_len :: mbedtls_err
  crt_alloc :: "nat \<Rightarrow> bool"
  mbedtls_ssl_init :: 'x
  mbedtls_ssl_setup :: "ssl_config \<Rightarrow> 'x \<Rightarrow> mbedtls_err \<times> 'x"

subsection \<open>Checking certificates\<close>

text \<open>\<open>None\<close> stands for a NULL argument; the profile itself may be NULL too.\<close>

definition lValidateCertByProfile :: "('x, 'k) conf_env \<Rightarrow> crt_profile option option \<Rightarrow> crt_info option \<Rightarrow> int" where
  "lValidateCertByProfile V ctx cert =
     (case (ctx, cert) of
        (Some (Some p), Some c) \<Rightarrow>
          let lFlags = (0 :: u32);
              lFlags = (if allowed_mds p AND MBEDTLS_X509_ID_FLAG V (sig_md c) = 0 then lFlags OR BADCERT_BAD_MD V else lFlags);
              lFlags = (if allowed_pks p AND MBEDTLS_X509_ID_FLAG V (sig_pk c) = 0 then lFlags OR BADCERT_BAD_PK V else lFlags);
              lFlags = (if pk_type_of c \<in> {PK_RSA, PK_RSASSA_PSS} \<and> pk_bitlen c < rsa_min_bitlen p
                        then lFlags OR BADCERT_BAD_KEY V else lFlags);
              lFlags = (if pk_type_of c \<in> {PK_ECDSA, PK_ECKEY, PK_ECKEY_DH} \<and>
                           allowed_curves p AND MBEDTLS_X509_ID_FLAG V (ec_group c) = 0
                        then lFlags OR BADCERT_BAD_KEY V else lFlags)
          in sint lFlags
      | (Some None, Some c) \<Rightarrow> 0
      | _ \<Rightarrow> -1)"

text \<open>The check of the first certificate of a chain with the profile of the context.\<close>

definition check_crt :: "('x, 'k) conf_env \<Rightarrow> ssl_config \<Rightarrow> byte list list \<Rightarrow> int" where
  "check_crt V cfg chain = lValidateCertByProfile V (Some (cert_profile cfg)) (Some (crt_of V chain))"

text \<open>A client certificate with its key. A certificate that is read is appended to the chain of the context.\<close>

definition check_key_pair :: "('x, 'k) conf_env \<Rightarrow> ssl_config \<Rightarrow> byte list list \<Rightarrow> 'k option \<Rightarrow> int" where
  "check_key_pair V cfg chain key =
     (if check_crt V cfg chain \<noteq> 0 then TLS_TRANSPORT_CLIENT_CERT_INVALID
      else if \<not> (pk_can_do V (crt_pk V chain) PK_ECDSA \<and> pk_can_do V key PK_ECDSA) \<and>
              \<not> (pk_can_do V (crt_pk V chain) PK_RSA \<and> pk_can_do V key PK_RSA)
      then TLS_TRANSPORT_INVALID_CREDENTIALS
      else if mbedtls_pk_check_pair V (crt_pk V chain) key \<noteq> MBEDTLS_OK then TLS_TRANSPORT_INVALID_CREDENTIALS
      else if conf_own_cert V chain key \<noteq> MBEDTLS_OK then TLS_TRANSPORT_INVALID_CREDENTIALS
      else TLS_TRANSPORT_SUCCESS)"

definition xConfigureCertificateAuth ::
  "'s psa_env \<Rightarrow> ('s, 'k) pki_crypto \<Rightarrow> ('x, 'k) conf_env \<Rightarrow> PkiObject_t \<Rightarrow> PkiObject_t \<Rightarrow>
   ('x, 'k) tls_context \<Rightarrow> 's psa_world \<Rightarrow> (int \<times> ('x, 'k) tls_context \<times> 's psa_world) option" where
  "xConfigureCertificateAuth P C V pxPrivateKey pxClientCert c w = do {
     let c = (if xConnectionState c = STATE_CONFIGURED then c\<lparr>xPkCtx := None, xClientCert := []\<rparr> else c);
     configASSERT (f_rng (xSslConfig c));
     (st, key, w) \<leftarrow> xPkiReadPrivateKey P C pxPrivateKey w;
     let c = c\<lparr>xPkCtx := key\<rparr>;
     if pki_value st \<noteq> TLS_TRANSPORT_SUCCESS then Some (pki_value st, c, w)
     else do {
       (st, chain, w) \<leftarrow> xPkiReadCertificate P C pxClientCert (xClientCert c) w;
       let c = c\<lparr>xClientCert := chain\<rparr>;
       if pki_value st \<noteq> TLS_TRANSPORT_SUCCESS then Some (pki_value st, c, w)
       else
         let xStatus = check_key_pair V (xSslConfig c) chain (xPkCtx c)
         in Some (xStatus, if xStatus = TLS_TRANSPORT_SUCCESS then c\<lparr>xSslConfig := (xSslConfig c)\<lparr>own_cert := True\<rparr>\<rparr> else c, w)
     }
   }"

subsection \<open>Root certificates\<close>

text \<open>
  The list built so far: the nodes before the last one that was added, and the last one with what its
  object brought along. Appending a node sets the \<open>next\<close> pointer of the last one, so that only its first
  certificate stays in the list.
\<close>

record ca_list =
  linked :: "byte list list"
  iterator :: "byte list list option"
  uxValidCertCount :: nat

definition ca_append :: "byte list list \<Rightarrow> ca_list \<Rightarrow> ca_list" where
  "ca_append node l =
     (case iterator l of
        None \<Rightarrow> l\<lparr>iterator := Some node, uxValidCertCount := uxValidCertCount l + 1\<rparr>
      | Some cur \<Rightarrow> l\<lparr>linked := linked l @ take 1 cur, iterator := Some node, uxValidCertCount := uxValidCertCount l + 1\<rparr>)"

definition ca_certs :: "ca_list \<Rightarrow> byte list list" where
  "ca_certs l = linked l @ (case iterator l of None \<Rightarrow> [] | Some cur \<Rightarrow> cur)"

text \<open>Codes of the two kinds of error as codes of the library: none of them is one the library uses.\<close>

definition pki_error :: "PkiStatus_t \<Rightarrow> mbedtls_err" where
  "pki_error st = (if pki_value st = 0 then MBEDTLS_OK else MBEDTLS_ERR_OTHER (nat (- pki_value st)))"

definition flag_error :: "int \<Rightarrow> mbedtls_err" where
  "flag_error f = (if f = 0 then MBEDTLS_OK else if f > 0 then MBEDTLS_POSITIVE (nat f) else MBEDTLS_ERR_OTHER (nat (- f)))"

text \<open>The loop over the objects; the result is the last error.\<close>

fun ca_loop ::
  "'s psa_env \<Rightarrow> ('s, 'k) pki_crypto \<Rightarrow> ('x, 'k) conf_env \<Rightarrow> ssl_config \<Rightarrow> nat \<Rightarrow> PkiObject_t list \<Rightarrow> mbedtls_err \<Rightarrow>
   ca_list \<Rightarrow> 's psa_world \<Rightarrow> (mbedtls_err \<times> ca_list \<times> 's psa_world) option" where
  "ca_loop P C V cfg uxIdx [] lError l w = Some (lError, l, w)"
| "ca_loop P C V cfg uxIdx (pxRootCert # objs) lError l w =
     (if iterator l \<noteq> None \<and> \<not> crt_alloc V uxIdx then Some (MBEDTLS_ERR_X509_ALLOC_FAILED, l, w)
      else do {
        (st, node, w) \<leftarrow> xPkiReadCertificate P C pxRootCert [] w;
        let lError = (if pki_error st = MBEDTLS_OK then flag_error (check_crt V cfg node) else pki_error st);
        ca_loop P C V cfg (uxIdx + 1) objs lError (if lError = MBEDTLS_OK then ca_append node l else l) w
      })"

definition xConfigureCAChain ::
  "'s psa_env \<Rightarrow> ('s, 'k) pki_crypto \<Rightarrow> ('x, 'k) conf_env \<Rightarrow> PkiObject_t list \<Rightarrow>
   ('x, 'k) tls_context \<Rightarrow> 's psa_world \<Rightarrow> (int \<times> ('x, 'k) tls_context \<times> 's psa_world) option" where
  "xConfigureCAChain P C V pxRootCaCerts c w = do {
     configASSERT (length pxRootCaCerts > 0);
     (lError, l, w) \<leftarrow> ca_loop P C V (xSslConfig c) 0 pxRootCaCerts MBEDTLS_OK
        \<lparr>linked = [], iterator = None, uxValidCertCount = 0\<rparr> w;
     Some (if uxValidCertCount l = 0 \<and> lError \<noteq> MBEDTLS_ERR_X509_ALLOC_FAILED then TLS_TRANSPORT_NO_VALID_CA_CERT
           else lMbedtlsErrToTransportError lError,
           c\<lparr>xRootCaChain := ca_certs l\<rparr>, w)
   }"

subsection \<open>The configuration\<close>

text \<open>The settings that need no credentials: the preset, the random numbers, the security level.\<close>

definition configure_base :: "('x, 'k) conf_env \<Rightarrow> ('x, 'k) tls_context \<Rightarrow> int \<times> ('x, 'k) tls_context" where
  "configure_base V c =
     (let cfg = (if xConnectionState c = STATE_CONFIGURED then mbedtls_ssl_config_init else xSslConfig c);
          (lError, cfg) = config_defaults V cfg;
          xStatus = lMbedtlsErrToTransportError lError;
          (xStatus, cfg) = (if xStatus = TLS_TRANSPORT_SUCCESS
                            then (if lError = MBEDTLS_OK then TLS_TRANSPORT_SUCCESS else TLS_TRANSPORT_INTERNAL_ERROR,
                                  cfg\<lparr>f_rng := True\<rparr>)
                            else (xStatus, cfg));
          cfg = (if xStatus = TLS_TRANSPORT_SUCCESS
                 then cfg\<lparr>min_tls12 := True, cert_profile := Some (profile_default V), verify_required := True\<rparr> else cfg)
      in (xStatus, c\<lparr>xSslConfig := cfg\<rparr>))"

text \<open>Protocols and fragment length.\<close>

definition configure_options :: "('x, 'k) conf_env \<Rightarrow> string list option \<Rightarrow> ('x, 'k) tls_context \<Rightarrow> int \<times> ('x, 'k) tls_context" where
  "configure_options V ppcAlpnProtos c =
     (let (xStatus, c) =
            (case ppcAlpnProtos of
               None \<Rightarrow> (TLS_TRANSPORT_SUCCESS, c)
             | Some names \<Rightarrow>
                 (lMbedtlsErrToTransportError (conf_alpn_protocols V names),
                  if conf_alpn_protocols V names = MBEDTLS_OK
                  then c\<lparr>xSslConfig := (xSslConfig c)\<lparr>alpn_protocols := Some names\<rparr>\<rparr> else c))
      in if xStatus = TLS_TRANSPORT_SUCCESS
         then (lMbedtlsErrToTransportError (conf_max_frag_len V),
               if conf_max_frag_len V = MBEDTLS_OK then c\<lparr>xSslConfig := (xSslConfig c)\<lparr>max_frag_4096 := True\<rparr>\<rparr> else c)
         else (xStatus, c))"

text \<open>The root certificates are put to use whether or not they could be loaded.\<close>

definition configure_roots ::
  "'s psa_env \<Rightarrow> ('s, 'k) pki_crypto \<Rightarrow> ('x, 'k) conf_env \<Rightarrow> PkiObject_t list \<Rightarrow>
   ('x, 'k) tls_context \<Rightarrow> 's psa_world \<Rightarrow> (int \<times> ('x, 'k) tls_context \<times> 's psa_world) option" where
  "configure_roots P C V pxRootCaCerts c w = do {
     let c = (if xConnectionState c = STATE_CONFIGURED then c\<lparr>xRootCaChain := []\<rparr> else c);
     (xStatus, c, w) \<leftarrow> xConfigureCAChain P C V pxRootCaCerts c w;
     Some (xStatus, c\<lparr>xSslConfig := (xSslConfig c)\<lparr>ca_chain := True\<rparr>\<rparr>, w)
   }"

definition configure_setup :: "('x, 'k) conf_env \<Rightarrow> ('x, 'k) tls_context \<Rightarrow> int \<times> ('x, 'k) tls_context" where
  "configure_setup V c =
     (let x = (if xConnectionState c = STATE_CONFIGURED then mbedtls_ssl_init V else xSslCtx c);
          (lError, x) = mbedtls_ssl_setup V (xSslConfig c) x
      in if lError \<noteq> MBEDTLS_OK then (TLS_TRANSPORT_INTERNAL_ERROR, c\<lparr>xSslCtx := x\<rparr>)
         else (TLS_TRANSPORT_SUCCESS, c\<lparr>xSslCtx := x, xConnectionState := STATE_CONFIGURED\<rparr>))"

text \<open>All the steps after the arguments have been accepted and the context is not connected.\<close>

definition configure_steps ::
  "'s psa_env \<Rightarrow> ('s, 'k) pki_crypto \<Rightarrow> ('x, 'k) conf_env \<Rightarrow> string list option \<Rightarrow> (PkiObject_t \<times> PkiObject_t) option \<Rightarrow>
   PkiObject_t list \<Rightarrow> ('x, 'k) tls_context \<Rightarrow> 's psa_world \<Rightarrow> (int \<times> ('x, 'k) tls_context \<times> 's psa_world) option" where
  "configure_steps P C V ppcAlpnProtos auth pxRootCaCerts c w = do {
     let (xStatus, c) = configure_base V c;
     if xStatus \<noteq> TLS_TRANSPORT_SUCCESS then Some (xStatus, c, w)
     else do {
       (xStatus, c, w) \<leftarrow> (case auth of
                              None \<Rightarrow> Some (TLS_TRANSPORT_SUCCESS, c, w)
                            | Some (prv, cert) \<Rightarrow> xConfigureCertificateAuth P C V prv cert c w);
       if xStatus \<noteq> TLS_TRANSPORT_SUCCESS then Some (xStatus, c, w)
       else do {
         let (xStatus, c) = configure_options V ppcAlpnProtos c;
         if xStatus \<noteq> TLS_TRANSPORT_SUCCESS then Some (xStatus, c, w)
         else do {
           (xStatus, c, w) \<leftarrow> configure_roots P C V pxRootCaCerts c w;
           if xStatus \<noteq> TLS_TRANSPORT_SUCCESS then Some (xStatus, c, w)
           else (let (xStatus, c) = configure_setup V c in Some (xStatus, c, w))
         }
       }
     }
   }"

text \<open>The whole function. A NULL context is reported and then used all the same.\<close>

definition mbedtls_transport_configure ::
  "'x tls_env \<Rightarrow> 's psa_env \<Rightarrow> ('s, 'k) pki_crypto \<Rightarrow> ('x, 'k) conf_env \<Rightarrow> string list option \<Rightarrow> PkiObject_t option \<Rightarrow>
   PkiObject_t option \<Rightarrow> PkiObject_t list option \<Rightarrow> ('x, 'k) tls_context option \<Rightarrow> 's psa_world \<Rightarrow>
   (int \<times> ('x, 'k) tls_context \<times> 's psa_world) option" where
  "mbedtls_transport_configure E P C V ppcAlpnProtos pxPrivateKey pxClientCert pxRootCaCerts pxNetworkContext w =
     (case pxNetworkContext of
        None \<Rightarrow> None
      | Some c \<Rightarrow> do {
          let arguments = \<not> ((pxPrivateKey \<noteq> None) \<noteq> (pxClientCert \<noteq> None)) \<and> pxRootCaCerts \<noteq> None \<and> pxRootCaCerts \<noteq> Some [];
          let xStatus = (if arguments then TLS_TRANSPORT_SUCCESS else TLS_TRANSPORT_INVALID_PARAMETER);
          c \<leftarrow> (if xConnectionState c = STATE_CONNECTED then mbedtls_transport_disconnect E c else Some c);
          let xStatus = (if xConnectionState c = STATE_ALLOCATED \<and> xStatus = TLS_TRANSPORT_SUCCESS \<and> psa_crypto_init V \<noteq> PSA_SUCCESS
                         then TLS_TRANSPORT_INTERNAL_ERROR else xStatus);
          configASSERT (xConnectionState c \<noteq> STATE_CONNECTED);
          if xStatus \<noteq> TLS_TRANSPORT_SUCCESS then Some (xStatus, c, w)
          else configure_steps P C V ppcAlpnProtos
                 (case (pxPrivateKey, pxClientCert) of (Some k, Some cert) \<Rightarrow> Some (k, cert) | _ \<Rightarrow> None)
                 (the pxRootCaCerts) c w
        })"

subsection \<open>The status is one of the enumeration\<close>

lemma status_members [simp]:
  "0 \<in> TlsTransportStatus" "-2 \<in> TlsTransportStatus" "-6 \<in> TlsTransportStatus" "-14 \<in> TlsTransportStatus"
  by (simp_all add: TlsTransportStatus_def)

lemma pki_status_values:
  "st \<notin> {PKI_ERR_OBJ, PKI_ERR_NOT_IMPLEMENTED} \<Longrightarrow> pki_value st \<in> TlsTransportStatus"
  by (cases st) (simp_all add: TlsTransportStatus_def)

lemma translated_status: "xPrvMbedtlsErrToPkiStatus e \<notin> {PKI_ERR_OBJ, PKI_ERR_NOT_IMPLEMENTED}"
  by (cases e) simp_all

lemma read_key_status:
  "xPkiReadPrivateKey P C obj w = Some (st, key, w') \<Longrightarrow> st \<notin> {PKI_ERR_OBJ, PKI_ERR_NOT_IMPLEMENTED}"
  using translated_status
  by (auto simp: xPkiReadPrivateKey_def Let_def split: PkiObject_t.splits option.splits if_splits prod.splits bind_splits)

lemma read_certificate_status:
  "xPkiReadCertificate P C obj chain w = Some (st, chain', w') \<Longrightarrow> st \<notin> {PKI_ERR_OBJ, PKI_ERR_NOT_IMPLEMENTED}"
  using translated_status
  by (auto simp: xPkiReadCertificate_def split: PkiObject_t.splits prod.splits bind_splits)

lemma transport_error_status: "lMbedtlsErrToTransportError e \<in> TlsTransportStatus"
  by (cases e) (simp_all add: TlsTransportStatus_def)

lemma check_key_pair_status: "check_key_pair V cfg chain key \<in> TlsTransportStatus"
  by (simp add: check_key_pair_def TlsTransportStatus_def)

lemma auth_status:
  assumes "xConfigureCertificateAuth P C V prv cert c w = Some (st, c', w')"
  shows "st \<in> TlsTransportStatus"
  using assms pki_status_values check_key_pair_status
  by (fastforce simp: xConfigureCertificateAuth_def Let_def split: bind_splits if_splits
      dest!: read_key_status read_certificate_status)

lemma configure_base_status: "configure_base V c = (st, c') \<Longrightarrow> st \<in> TlsTransportStatus"
  using transport_error_status by (auto simp: configure_base_def Let_def split: prod.splits if_splits)

lemma configure_options_status: "configure_options V protos c = (st, c') \<Longrightarrow> st \<in> TlsTransportStatus"
  using transport_error_status by (auto simp: configure_options_def Let_def split: option.splits if_splits)

lemma configure_roots_status:
  "configure_roots P C V roots c w = Some (st, c', w') \<Longrightarrow> st \<in> TlsTransportStatus"
  using transport_error_status
  by (auto simp: configure_roots_def xConfigureCAChain_def Let_def split: bind_splits if_splits)

lemma configure_setup_status: "configure_setup V c = (st, c') \<Longrightarrow> st \<in> TlsTransportStatus"
  by (auto simp: configure_setup_def Let_def split: prod.splits if_splits)

lemma configure_steps_cases:
  assumes "configure_steps P C V protos auth roots c w = Some (st, c', w')"
  obtains (step_base) "configure_base V c = (st, c')" "st \<noteq> 0"
  | (step_auth) c1 prv cert where "configure_base V c = (0, c1)" "auth = Some (prv, cert)"
      "xConfigureCertificateAuth P C V prv cert c1 w = Some (st, c', w')" "st \<noteq> 0"
  | (step_options) c1 c2 where "configure_base V c = (0, c1)"
      "(case auth of None \<Rightarrow> Some (0, c1, w) | Some (prv, cert) \<Rightarrow> xConfigureCertificateAuth P C V prv cert c1 w) = Some (0, c2, w')"
      "configure_options V protos c2 = (st, c')" "st \<noteq> 0"
  | (step_roots) c1 c2 w1 c3 where "configure_base V c = (0, c1)"
      "(case auth of None \<Rightarrow> Some (0, c1, w) | Some (prv, cert) \<Rightarrow> xConfigureCertificateAuth P C V prv cert c1 w) = Some (0, c2, w1)"
      "configure_options V protos c2 = (0, c3)" "configure_roots P C V roots c3 w1 = Some (st, c', w')" "st \<noteq> 0"
  | (step_setup) c1 c2 w1 c3 c4 where "configure_base V c = (0, c1)"
      "(case auth of None \<Rightarrow> Some (0, c1, w) | Some (prv, cert) \<Rightarrow> xConfigureCertificateAuth P C V prv cert c1 w) = Some (0, c2, w1)"
      "configure_options V protos c2 = (0, c3)" "configure_roots P C V roots c3 w1 = Some (0, c4, w')" "configure_setup V c4 = (st, c')"
proof -
  obtain st1 c1 where b: "configure_base V c = (st1, c1)" by (cases "configure_base V c")
  show thesis
  proof (cases "st1 = 0")
    case False
    then show thesis using assms b step_base by (simp add: configure_steps_def)
  next
    case True
    obtain st2 c2 w1 where a: "(case auth of None \<Rightarrow> Some (0, c1, w) | Some (prv, cert) \<Rightarrow> xConfigureCertificateAuth P C V prv cert c1 w) = Some (st2, c2, w1)"
      using assms b True by (auto simp: configure_steps_def split: bind_splits)
    obtain st3 c3 where o: "configure_options V protos c2 = (st3, c3)" by (cases "configure_options V protos c2")
    show thesis
    proof (cases "st2 = 0 \<and> st3 = 0")
      case False
      show thesis
      proof (cases "st2 = 0")
        case True
        then show thesis using False step_options [of c1 c2] assms a b o \<open>st1 = 0\<close> by (simp add: configure_steps_def)
      next
        case False
        then obtain prv cert where "auth = Some (prv, cert)" using a by (cases auth) auto
        then show thesis using step_auth [of c1 prv cert] False assms a b \<open>st1 = 0\<close> by (simp add: configure_steps_def)
      qed
    next
      case True
      obtain st4 c4 w2 where r: "configure_roots P C V roots c3 w1 = Some (st4, c4, w2)"
        using assms a b o True \<open>st1 = 0\<close> by (auto simp: configure_steps_def split: bind_splits)
      show thesis using step_roots [of c1 c2 w1 c3] step_setup [of c1 c2 w1 c3 c4] assms a b o r True \<open>st1 = 0\<close>
        by (cases "st4 = 0"; cases "configure_setup V c4") (auto simp: configure_steps_def)
    qed
  qed
qed

text \<open>The ways through \<open>mbedtls_transport_configure\<close>: refused, or all its steps.\<close>

lemma configure_cases:
  assumes "mbedtls_transport_configure E P C V protos prv cert roots (Some c) w = Some (st, c', w')"
  obtains c1 where "(if xConnectionState c = STATE_CONNECTED then mbedtls_transport_disconnect E c else Some c) = Some c1"
    "xConnectionState c1 \<noteq> STATE_CONNECTED"
    "st \<in> {-2, -6} \<and> c' = c1 \<or> (prv \<noteq> None) = (cert \<noteq> None) \<and>
     configure_steps P C V protos (case (prv, cert) of (Some k, Some ct) \<Rightarrow> Some (k, ct) | _ \<Rightarrow> None) (the roots) c1 w = Some (st, c', w')"
proof -
  let ?args = "\<not> ((prv \<noteq> None) \<noteq> (cert \<noteq> None)) \<and> roots \<noteq> None \<and> roots \<noteq> Some []"
  let ?steps = "configure_steps P C V protos (case (prv, cert) of (Some k, Some ct) \<Rightarrow> Some (k, ct) | _ \<Rightarrow> None) (the roots)"
  obtain c1 where c1: "(if xConnectionState c = STATE_CONNECTED then mbedtls_transport_disconnect E c else Some c) = Some c1"
    using assms by (cases "if xConnectionState c = STATE_CONNECTED then mbedtls_transport_disconnect E c else Some c")
      (simp_all add: mbedtls_transport_configure_def Let_def)
  note R = assms [unfolded mbedtls_transport_configure_def Let_def option.case c1 bind.bind_lunit configASSERT_def]
  have nc: "xConnectionState c1 \<noteq> STATE_CONNECTED" using R by (cases "xConnectionState c1 = STATE_CONNECTED") simp_all
  show thesis
  proof (cases "?args \<and> \<not> (xConnectionState c1 = STATE_ALLOCATED \<and> psa_crypto_init V \<noteq> PSA_SUCCESS)")
    case True
    then have "?steps c1 w = Some (st, c', w')" using R nc by (simp split: if_splits)
    then show thesis using that [OF c1 nc] True by blast
  next
    case False
    then have "st \<in> {-2, -6} \<and> c' = c1" using R nc by (cases cert) (simp split: if_splits)+
    then show thesis using that [OF c1 nc] by blast
  qed
qed

text \<open>
  C29. Whatever the TLS library and the key stores report, the value \<open>mbedtls_transport_configure\<close> returns
  is an enumerator of \<open>TlsTransportStatus_t\<close>, although statuses of a different enumeration and codes of
  the library are assigned to it on the way.
\<close>

theorem tls_status_enumerated:
  assumes "mbedtls_transport_configure E P C V protos prv cert roots ctx w = Some (st, c', w')"
  shows "st \<in> TlsTransportStatus"
proof -
  obtain c where c: "ctx = Some c" using assms by (cases ctx) (simp_all add: mbedtls_transport_configure_def)
  consider "st \<in> {-2, -6}" | c1 auth where "configure_steps P C V protos auth (the roots) c1 w = Some (st, c', w')"
    by (rule configure_cases [OF assms [unfolded c]]) blast
  then show ?thesis
  proof cases
    case 1
    then show ?thesis by auto
  next
    case 2
    then show ?thesis
      by (cases rule: configure_steps_cases)
        (blast intro: configure_base_status auth_status configure_options_status configure_roots_status configure_setup_status)+
  qed
qed

subsection \<open>What a configured context checks\<close>

lemma pki_error_ok [simp]: "pki_error st = MBEDTLS_OK \<longleftrightarrow> st = PKI_SUCCESS"
  by (cases st) (simp_all add: pki_error_def)

lemma flag_error_ok [simp]: "flag_error f = MBEDTLS_OK \<longleftrightarrow> f = 0"
  by (simp add: flag_error_def)

text \<open>The list built from the nodes \<open>ns\<close>: of all but the last one only the first certificate is linked.\<close>

definition ca_rep :: "byte list list list \<Rightarrow> ca_list \<Rightarrow> bool" where
  "ca_rep ns l \<longleftrightarrow> linked l = concat (map (take 1) (butlast ns)) \<and>
     iterator l = (if ns = [] then None else Some (last ns)) \<and> uxValidCertCount l = length ns"

lemma ca_append_rep:
  assumes "ca_rep ns l"
  shows "ca_rep (ns @ [n]) (ca_append n l)"
proof (cases "ns = []")
  case False
  then have "concat (map (take 1) ns) = concat (map (take 1) (butlast ns @ [last ns]))" by simp
  also have "\<dots> = concat (map (take 1) (butlast ns)) @ take 1 (last ns)" by (simp del: append_butlast_last_id)
  finally have "concat (map (take 1) ns) = concat (map (take 1) (butlast ns)) @ take 1 (last ns)" .
  then show ?thesis using assms False by (simp add: ca_rep_def ca_append_def)
qed (use assms in \<open>simp add: ca_rep_def ca_append_def\<close>)

text \<open>A node that was read from one of the objects and passed the check.\<close>

definition ca_node ::
  "'s psa_env \<Rightarrow> ('s, 'k) pki_crypto \<Rightarrow> ('x, 'k) conf_env \<Rightarrow> ssl_config \<Rightarrow> PkiObject_t list \<Rightarrow> byte list list \<Rightarrow> bool" where
  "ca_node P C V cfg objs n \<longleftrightarrow> check_crt V cfg n = 0 \<and>
     (\<exists>ob \<in> set objs. \<exists>w w'. xPkiReadCertificate P C ob [] w = Some (PKI_SUCCESS, n, w'))"

lemma ca_loop_nodes:
  assumes "ca_loop P C V cfg i objs e l w = Some (e', l', w')" "ca_rep ns l"
  shows "\<exists>ns'. ca_rep (ns @ ns') l' \<and> list_all (ca_node P C V cfg objs) ns'"
  using assms
proof (induction objs arbitrary: i e l w ns)
  case Nil
  then show ?case by (intro exI [of _ "[]"]) auto
next
  case (Cons ob objs)
  have mono: "ca_node P C V cfg (ob # objs) n" if "ca_node P C V cfg objs n" for n
    using that by (auto simp: ca_node_def)
  show ?case
  proof (cases "iterator l \<noteq> None \<and> \<not> crt_alloc V i")
    case True
    then show ?thesis using Cons.prems by (intro exI [of _ "[]"]) auto
  next
    case False
    then obtain st n w1 where r: "xPkiReadCertificate P C ob [] w = Some (st, n, w1)"
      using Cons.prems(1) by (auto split: bind_splits)
    let ?e = "if st = PKI_SUCCESS then flag_error (check_crt V cfg n) else pki_error st"
    have loop: "ca_loop P C V cfg (i + 1) objs ?e (if ?e = MBEDTLS_OK then ca_append n l else l) w1 = Some (e', l', w')"
      using Cons.prems(1) unfolding ca_loop.simps Let_def pki_error_ok if_not_P [OF False] r by simp
    show ?thesis
    proof (cases "?e = MBEDTLS_OK")
      case True
      then have node: "ca_node P C V cfg (ob # objs) n" using r by (auto simp: ca_node_def split: if_splits)
      obtain ns' where "ca_rep ((ns @ [n]) @ ns') l'" "list_all (ca_node P C V cfg objs) ns'"
        using Cons.IH [OF loop, of "ns @ [n]"] ca_append_rep [OF Cons.prems(2)] True by auto
      then show ?thesis using node mono by (intro exI [of _ "n # ns'"]) (auto simp: list_all_iff)
    next
      case False
      then show ?thesis using Cons.IH [OF loop, of ns] Cons.prems(2) mono by (fastforce simp: list_all_iff)
    qed
  qed
qed

lemma check_crt_profile: "cert_profile cfg = cert_profile cfg' \<Longrightarrow> check_crt V cfg n = check_crt V cfg' n"
  by (simp add: check_crt_def)

text \<open>The fields the socket belongs to stay as they are while the context is configured.\<close>

definition same_socket :: "('x, 'k) tls_context \<Rightarrow> ('x, 'k) tls_context \<Rightarrow> bool" where
  "same_socket c c' \<longleftrightarrow> xSockHandle c' = xSockHandle c \<and> open_sockets c' = open_sockets c \<and> addr_lists c' = addr_lists c \<and>
     xConnectionState c' \<in> {xConnectionState c, STATE_CONFIGURED}"

lemma configure_base_result:
  "configure_base V c = (st, c') \<Longrightarrow> same_socket c c' \<and>
   (st = 0 \<longrightarrow> verify_required (xSslConfig c') \<and> min_tls12 (xSslConfig c') \<and> cert_profile (xSslConfig c') = Some (profile_default V))"
  by (auto simp: configure_base_def same_socket_def Let_def split: prod.splits if_splits)

lemma auth_result:
  assumes "xConfigureCertificateAuth P C V prv cert c w = Some (st, c', w')"
  shows "same_socket c c' \<and>
    (st = 0 \<longrightarrow> xSslConfig c' = (xSslConfig c)\<lparr>own_cert := True\<rparr> \<and> check_key_pair V (xSslConfig c) (xClientCert c') (xPkCtx c') = 0)"
  using assms by (auto simp: xConfigureCertificateAuth_def same_socket_def Let_def split: bind_splits if_splits)

lemma configure_options_result:
  "configure_options V protos c = (st, c') \<Longrightarrow> same_socket c c' \<and> xClientCert c' = xClientCert c \<and> xPkCtx c' = xPkCtx c \<and>
   verify_required (xSslConfig c') = verify_required (xSslConfig c) \<and> min_tls12 (xSslConfig c') = min_tls12 (xSslConfig c) \<and>
   cert_profile (xSslConfig c') = cert_profile (xSslConfig c) \<and> own_cert (xSslConfig c') = own_cert (xSslConfig c)"
  by (auto simp: configure_options_def same_socket_def Let_def split: option.splits if_splits)

lemma configure_roots_result:
  assumes "configure_roots P C V roots c w = Some (st, c', w')"
  shows "same_socket c c' \<and> xClientCert c' = xClientCert c \<and> xPkCtx c' = xPkCtx c \<and>
    xSslConfig c' = (xSslConfig c)\<lparr>ca_chain := True\<rparr> \<and>
    (st = 0 \<longrightarrow> (\<exists>ns. ns \<noteq> [] \<and> list_all (ca_node P C V (xSslConfig c) roots) ns \<and>
       xRootCaChain c' = concat (map (take 1) (butlast ns)) @ last ns))"
proof -
  let ?l0 = "\<lparr>linked = [], iterator = None, uxValidCertCount = 0\<rparr>"
  obtain e l w1 where l: "ca_loop P C V (xSslConfig c) 0 roots MBEDTLS_OK ?l0 w = Some (e, l, w1)"
    and st: "st = (if uxValidCertCount l = 0 \<and> e \<noteq> MBEDTLS_ERR_X509_ALLOC_FAILED then -14 else lMbedtlsErrToTransportError e)"
    and c': "xRootCaChain c' = ca_certs l" "same_socket c c'" "xClientCert c' = xClientCert c" "xPkCtx c' = xPkCtx c"
      "xSslConfig c' = (xSslConfig c)\<lparr>ca_chain := True\<rparr>"
    using assms by (auto simp: configure_roots_def xConfigureCAChain_def same_socket_def Let_def split: bind_splits if_splits)
  have "ca_rep [] ?l0" by (simp add: ca_rep_def)
  then obtain ns where ns: "ca_rep ns l" "list_all (ca_node P C V (xSslConfig c) roots) ns"
    using ca_loop_nodes [OF l] by force
  have "ns \<noteq> []" if "st = 0" using that st ns(1) by (auto simp: ca_rep_def split: if_splits)
  then show ?thesis using c' ns by (auto simp: ca_rep_def ca_certs_def)
qed

lemma configure_setup_result:
  "configure_setup V c = (st, c') \<Longrightarrow> same_socket c c' \<and> xSslConfig c' = xSslConfig c \<and> xRootCaChain c' = xRootCaChain c \<and>
   xClientCert c' = xClientCert c \<and> xPkCtx c' = xPkCtx c \<and>
   (st = 0 \<longrightarrow> xConnectionState c' = STATE_CONFIGURED \<and> (\<exists>x. mbedtls_ssl_setup V (xSslConfig c') x = (MBEDTLS_OK, xSslCtx c')))"
  by (auto simp: configure_setup_def same_socket_def Let_def split: prod.splits if_splits)

lemma same_socket_trans: "same_socket a b \<Longrightarrow> same_socket b c \<Longrightarrow> same_socket a c"
  by (auto simp: same_socket_def)

lemma same_socket_refl [simp]: "same_socket a a"
  by (simp add: same_socket_def)

lemma auth_step_result:
  assumes "(case auth of None \<Rightarrow> Some (0, c, w) | Some (prv, cert) \<Rightarrow> xConfigureCertificateAuth P C V prv cert c w) = Some (0, c', w')"
  shows "same_socket c c' \<and> verify_required (xSslConfig c') = verify_required (xSslConfig c) \<and>
    min_tls12 (xSslConfig c') = min_tls12 (xSslConfig c) \<and> cert_profile (xSslConfig c') = cert_profile (xSslConfig c) \<and>
    (auth \<noteq> None \<longrightarrow> own_cert (xSslConfig c') \<and> check_key_pair V (xSslConfig c') (xClientCert c') (xPkCtx c') = 0)"
proof (cases auth)
  case (Some a)
  then obtain prv cert where a: "xConfigureCertificateAuth P C V prv cert c w = Some (0, c', w')" using assms by (cases a) auto
  have "check_key_pair V ((xSslConfig c)\<lparr>own_cert := True\<rparr>) x y = check_key_pair V (xSslConfig c) x y" for x y
    by (simp add: check_key_pair_def check_crt_def)
  then show ?thesis using auth_result [OF a] by simp
qed (use assms in auto)

lemma configure_steps_socket:
  assumes "configure_steps P C V protos auth roots c w = Some (st, c', w')"
  shows "same_socket c c'"
  using assms
proof (cases rule: configure_steps_cases)
  case step_base
  then show ?thesis using configure_base_result by blast
next
  case (step_auth c1 prv cert)
  then show ?thesis using configure_base_result auth_result same_socket_trans by blast
next
  case (step_options c1 c2)
  then show ?thesis using configure_base_result [OF step_options(1)] auth_step_result [OF step_options(2)]
      configure_options_result [OF step_options(3)] same_socket_trans by blast
next
  case (step_roots c1 c2 w1 c3)
  then show ?thesis using configure_base_result [OF step_roots(1)] auth_step_result [OF step_roots(2)]
      configure_options_result [OF step_roots(3)] configure_roots_result [OF step_roots(4)] same_socket_trans by blast
next
  case (step_setup c1 c2 w1 c3 c4)
  then show ?thesis using configure_base_result [OF step_setup(1)] auth_step_result [OF step_setup(2)]
      configure_options_result [OF step_setup(3)] configure_roots_result [OF step_setup(4)]
      configure_setup_result [OF step_setup(5)] same_socket_trans by blast
qed

text \<open>What a context guarantees that was configured with success.\<close>

definition verifying ::
  "'s psa_env \<Rightarrow> ('s, 'k) pki_crypto \<Rightarrow> ('x, 'k) conf_env \<Rightarrow> bool \<Rightarrow> PkiObject_t list \<Rightarrow> ('x, 'k) tls_context \<Rightarrow> bool" where
  "verifying P C V client roots c \<longleftrightarrow>
     verify_required (xSslConfig c) \<and> min_tls12 (xSslConfig c) \<and> cert_profile (xSslConfig c) = Some (profile_default V) \<and>
     ca_chain (xSslConfig c) \<and>
     (\<exists>ns. ns \<noteq> [] \<and> list_all (ca_node P C V (xSslConfig c) roots) ns \<and>
        xRootCaChain c = concat (map (take 1) (butlast ns)) @ last ns) \<and>
     (client \<longrightarrow> own_cert (xSslConfig c) \<and> check_key_pair V (xSslConfig c) (xClientCert c) (xPkCtx c) = 0)"

lemma same_profile:
  assumes "cert_profile cfg = cert_profile cfg'"
  shows "ca_node P C V cfg roots n = ca_node P C V cfg' roots n" "check_key_pair V cfg x y = check_key_pair V cfg' x y"
  by (simp_all add: ca_node_def check_key_pair_def check_crt_profile [OF assms])

lemma configure_steps_verifying:
  assumes "configure_steps P C V protos auth roots c w = Some (0, c', w')"
  shows "verifying P C V (auth \<noteq> None) roots c' \<and> xConnectionState c' = STATE_CONFIGURED \<and>
    (\<exists>x. mbedtls_ssl_setup V (xSslConfig c') x = (MBEDTLS_OK, xSslCtx c'))"
  using assms
proof (cases rule: configure_steps_cases)
  case (step_setup c1 c2 w1 c3 c4)
  note b = configure_base_result [OF step_setup(1)] and a = auth_step_result [OF step_setup(2)]
    and q = configure_options_result [OF step_setup(3)] and r = configure_roots_result [OF step_setup(4)]
    and s = configure_setup_result [OF step_setup(5)]
  have p: "cert_profile (xSslConfig c3) = cert_profile (xSslConfig c')" "cert_profile (xSslConfig c2) = cert_profile (xSslConfig c')"
    using q r s by simp_all
  have "\<exists>ns. ns \<noteq> [] \<and> list_all (ca_node P C V (xSslConfig c') roots) ns \<and>
      xRootCaChain c' = concat (map (take 1) (butlast ns)) @ last ns"
  proof -
    have "xRootCaChain c' = xRootCaChain c4" using s by simp
    moreover have "\<exists>ns. ns \<noteq> [] \<and> list_all (ca_node P C V (xSslConfig c3) roots) ns \<and>
      xRootCaChain c4 = concat (map (take 1) (butlast ns)) @ last ns" using r by simp
    ultimately show ?thesis unfolding same_profile(1) [OF p(1)] by simp
  qed
  moreover have "own_cert (xSslConfig c') \<and> check_key_pair V (xSslConfig c') (xClientCert c') (xPkCtx c') = 0" if "auth \<noteq> None"
    using a q r s same_profile(2) [OF p(2), of V "xClientCert c'" "xPkCtx c'"] that by simp
  ultimately have "verifying P C V (auth \<noteq> None) roots c'" using b a q r s unfolding verifying_def by simp
  then show ?thesis using s by blast
qed simp_all


subsection \<open>The connection in every run\<close>

lemma configure_result:
  assumes "mbedtls_transport_configure E P C V protos prv cert roots (Some c) w = Some (st, c', w')" "tls_inv c"
  shows "tls_inv c' \<and> open_sockets c' = [] \<and> xConnectionState c' \<noteq> STATE_CONNECTED"
proof -
  obtain c1 where c1: "(if xConnectionState c = STATE_CONNECTED then mbedtls_transport_disconnect E c else Some c) = Some c1"
    "xConnectionState c1 \<noteq> STATE_CONNECTED" "c' = c1 \<or> (\<exists>auth. configure_steps P C V protos auth (the roots) c1 w = Some (st, c', w'))"
    by (rule configure_cases [OF assms(1)]) blast
  have inv: "tls_inv c1"
    using c1(1) assms(2) disconnect_result [of E c c1] by (auto simp: tls_inv_def split: if_splits)
  have "same_socket c1 c'" using c1(3) configure_steps_socket by auto
  then show ?thesis using inv c1(2) by (auto simp: tls_inv_def same_socket_def)
qed

text \<open>
  The contexts that can come about: allocated in memory that happens to hold no notify context, and
  changed by the public operations with any answers of the network and of the libraries, and by the
  notify thread.
\<close>

inductive tls_reach :: "'s psa_env \<Rightarrow> ('s, 'k) pki_crypto \<Rightarrow> ('x, 'k) tls_context \<Rightarrow> bool"
  for P C where
  allocate: "mbedtls_transport_allocate True None x k \<lparr>xSslConfig = mbedtls_ssl_config_init, xRootCaChain = [], xClientCert = [], xPkCtx = None\<rparr>
    = Some c \<Longrightarrow> tls_reach P C c"
| configure: "tls_reach P C c \<Longrightarrow> mbedtls_transport_configure E P C V protos prv cert roots (Some c) w = Some (st, c', w') \<Longrightarrow> tls_reach P C c'"
| connect: "tls_reach P C c \<Longrightarrow> mbedtls_transport_connect E host port r t c = Some (st, c') \<Longrightarrow> tls_reach P C c'"
| disconnect: "tls_reach P C c \<Longrightarrow> mbedtls_transport_disconnect E c = Some c' \<Longrightarrow> tls_reach P C c'"
| recv: "tls_reach P C c \<Longrightarrow> mbedtls_transport_recv E n c = Some (ret, bs, c') \<Longrightarrow> tls_reach P C c'"
| send: "tls_reach P C c \<Longrightarrow> mbedtls_transport_send E bs c = Some (ret, c') \<Longrightarrow> tls_reach P C c'"
| callback: "tls_reach P C c \<Longrightarrow> mbedtls_transport_setrecvcallback E block cb arg (Some c) = Some (e, Some c') \<Longrightarrow> tls_reach P C c'"
| notify: "tls_reach P C c \<Longrightarrow> pxNotifyThreadCtx c = Some n \<Longrightarrow> tls_reach P C (c\<lparr>pxNotifyThreadCtx := Some (notify_step answer n)\<rparr>)"

lemma reach_inv: "tls_reach P C c \<Longrightarrow> tls_inv c"
proof (induction rule: tls_reach.induct)
  case (allocate x k c)
  then show ?case by (auto simp: mbedtls_transport_allocate_def tls_inv_def)
next
  case (disconnect c E c')
  then show ?case using disconnect_result [of E c c'] by (simp add: tls_inv_def)
qed (auto dest: configure_result connect_result recv_inv send_inv setrecvcallback_inv)

text \<open>
  C7. A connection never loses a socket: in every context that can come about by calls of the transport
  functions, whatever the network and the libraries answer, at most the socket the context holds is open,
  a context that is not connected has none, no address list is left allocated, and when the context is
  freed no socket remains.
\<close>

theorem tls_socket_never_lost:
  assumes "tls_reach P C c"
  shows "open_sockets c = owned (xSockHandle c) \<and> addr_lists c = 0 \<and>
    (xConnectionState c = STATE_CONNECTED \<or> open_sockets c = []) \<and>
    mbedtls_transport_free E (Some c) \<in> {None, Some []}"
  using reach_inv [OF assms] free_closes [of c E] by (cases "mbedtls_transport_free E (Some c)") (auto simp: tls_inv_def)

text \<open>For the witnesses: a library that accepts everything, one root certificate in a buffer.\<close>

definition ex_conf :: "(nat, byte list) conf_env" where
  "ex_conf = \<lparr>MBEDTLS_X509_ID_FLAG = \<lambda>i. push_bit (i - 1) 1, BADCERT_BAD_MD = 0x4000, BADCERT_BAD_PK = 0x8000, BADCERT_BAD_KEY = 0x10000,
     profile_default = \<lparr>allowed_mds = -1, allowed_pks = -1, allowed_curves = -1, rsa_min_bitlen = 2048\<rparr>,
     crt_of = \<lambda>ch. \<lparr>sig_md = 1, sig_pk = 1, pk_type_of = PK_RSA, pk_bitlen = 2048, ec_group = 1\<rparr>, crt_pk = \<lambda>ch. Some (hd ch),
     pk_can_do = \<lambda>k t. True, mbedtls_pk_check_pair = \<lambda>a b. MBEDTLS_OK, conf_own_cert = \<lambda>ch k. MBEDTLS_OK,
     psa_crypto_init = PSA_SUCCESS, config_defaults = \<lambda>cfg. (MBEDTLS_OK, cfg), conf_alpn_protocols = \<lambda>l. MBEDTLS_OK,
     conf_max_frag_len = MBEDTLS_OK, crt_alloc = \<lambda>i. True, mbedtls_ssl_init = 0, mbedtls_ssl_setup = \<lambda>cfg x. (MBEDTLS_OK, x + 1)\<rparr>"

definition ex_ctx :: "(nat, byte list) tls_context" where
  "ex_ctx = \<lparr>xConnectionState = STATE_ALLOCATED, xSockHandle = -1, pxNotifyThreadCtx = None, xSslCtx = 0, open_sockets = [],
     addr_lists = 0, now = 0, xSslConfig = mbedtls_ssl_config_init, xRootCaChain = [], xClientCert = [], xPkCtx = None\<rparr>"

lemma ex_configured:
  "\<exists>c'. mbedtls_transport_configure ex_tls_env ex_env ex_crypto ex_conf None None None (Some [OBJ_FORM_DER (Some [48, 1]) 2])
     (Some ex_ctx) ex_world = Some (0, c', ex_world)"
  by (simp add: mbedtls_transport_configure_def configure_steps_def configure_base_def configure_options_def configure_roots_def
      flag_error_def configure_setup_def xConfigureCAChain_def xPkiReadCertificate_def check_crt_def lValidateCertByProfile_def bytes_of_def
      ca_append_def Let_def ex_conf_def ex_ctx_def ex_env_def)

theorem tls_status_enumerated_witness:
  "\<exists>st c' w'. mbedtls_transport_configure ex_tls_env ex_env ex_crypto ex_conf None None None (Some [OBJ_FORM_DER (Some [48, 1]) 2])
     (Some ex_ctx) ex_world = Some (st, c', w') \<and> st \<in> TlsTransportStatus"
  using ex_configured tls_status_enumerated by meson


theorem tls_socket_never_lost_witness:
  "open_sockets ex_ctx = owned (xSockHandle ex_ctx) \<and> mbedtls_transport_free ex_tls_env (Some ex_ctx) \<in> {None, Some []}"
proof -
  have "tls_reach ex_env ex_crypto ex_ctx"
    by (rule tls_reach.allocate [of 0 0]) (simp add: mbedtls_transport_allocate_def ex_ctx_def)
  from tls_socket_never_lost [OF this, of ex_tls_env] show ?thesis by blast
qed

subsection \<open>Where the configuration goes wrong\<close>

text \<open>The status depends on the order of the root certificates: a good one followed by one that cannot be read is
  an error, the other way round it is a success, with the same chain in use.\<close>

lemma tls_last_root_decides:
  assumes good: "\<And>w. xPkiReadCertificate P C a [] w = Some (PKI_SUCCESS, n, w)" "check_crt V (xSslConfig c) n = 0"
    and bad: "\<And>w. xPkiReadCertificate P C b [] w = Some (st, m, w)" "st \<noteq> PKI_SUCCESS"
    and mem: "\<And>i. crt_alloc V i"
  shows "xConfigureCAChain P C V [b, a] c w = Some (TLS_TRANSPORT_SUCCESS, c\<lparr>xRootCaChain := n\<rparr>, w)"
    "xConfigureCAChain P C V [a, b] c w = Some (TLS_TRANSPORT_UNKNOWN_ERROR, c\<lparr>xRootCaChain := n\<rparr>, w)"
proof -
  have e: "pki_error st = MBEDTLS_ERR_OTHER (nat (- pki_value st))" using bad(2) by (cases st) (simp_all add: pki_error_def)
  show "xConfigureCAChain P C V [b, a] c w = Some (TLS_TRANSPORT_SUCCESS, c\<lparr>xRootCaChain := n\<rparr>, w)"
    "xConfigureCAChain P C V [a, b] c w = Some (TLS_TRANSPORT_UNKNOWN_ERROR, c\<lparr>xRootCaChain := n\<rparr>, w)"
    using e by (simp_all add: xConfigureCAChain_def good bad mem flag_error_def ca_append_def ca_certs_def Let_def)
qed

text \<open>A root certificate that fails the check of the profile is no error when another one was loaded.\<close>

lemma tls_bad_root_unnoticed:
  assumes "\<And>w. xPkiReadCertificate P C a [] w = Some (PKI_SUCCESS, n, w)" "check_crt V (xSslConfig c) n = 0"
    and "\<And>w. xPkiReadCertificate P C b [] w = Some (PKI_SUCCESS, m, w)" "check_crt V (xSslConfig c) m > 0"
    and "\<And>i. crt_alloc V i"
  shows "xConfigureCAChain P C V [a, b] c w = Some (TLS_TRANSPORT_SUCCESS, c\<lparr>xRootCaChain := n\<rparr>, w)"
  using assms by (simp add: xConfigureCAChain_def flag_error_def ca_append_def ca_certs_def Let_def)

text \<open>Of a bundle of root certificates that is not the last object only the first certificate is kept.\<close>

lemma tls_bundle_cut:
  assumes "\<And>w. xPkiReadCertificate P C a [] w = Some (PKI_SUCCESS, x # y # rest, w)" "check_crt V (xSslConfig c) (x # y # rest) = 0"
    and "\<And>w. xPkiReadCertificate P C b [] w = Some (PKI_SUCCESS, [z], w)" "check_crt V (xSslConfig c) [z] = 0"
    and "\<And>i. crt_alloc V i"
  shows "xConfigureCAChain P C V [a, b] c w = Some (TLS_TRANSPORT_SUCCESS, c\<lparr>xRootCaChain := [x, z]\<rparr>, w)"
  using assms by (simp add: xConfigureCAChain_def flag_error_def ca_append_def ca_certs_def Let_def)

text \<open>A client certificate that was refused stays at the head of the chain of a context that was never configured:
  the right certificate is appended behind it, and the old one is checked again.\<close>

lemma tls_refused_certificate_stays:
  assumes "xConnectionState c = STATE_ALLOCATED" "f_rng (xSslConfig c)" "xClientCert c = [old]"
    and "xPkiReadPrivateKey P C prv w = Some (PKI_SUCCESS, key, w)" "xPkiReadCertificate P C cert [old] w = Some (PKI_SUCCESS, [old, new], w)"
    and "crt_of V [old, new] = crt_of V [old]" "check_crt V (xSslConfig c) [old] \<noteq> 0"
  shows "\<exists>c'. xConfigureCertificateAuth P C V prv cert c w = Some (TLS_TRANSPORT_CLIENT_CERT_INVALID, c', w)"
  using assms by (simp add: xConfigureCertificateAuth_def check_key_pair_def check_crt_def)

end
