(* ===== verification/OtaTask.thy ===== *)
theory OtaTask
  imports AgentConfig SubSpec
begin

text \<open>
  The task that runs the OTA agent (\<open>source/aws_demos/ota_update_task.c\<close>): the pool of event
  buffers, the two callbacks that turn an incoming publish into an event, the callback of the OTA library,
  the MQTT functions the library is given, and the life of the task from the subscriptions to its end.

  The OTA library and the MQTT library are not in the repository. What they answer is an argument: the
  size of a data block, topic matching, the outcomes of \<open>OTA_Init\<close> and \<open>xTaskCreate\<close>, and the
  sequence of states that \<open>OTA_GetState\<close> reports. An event that the callbacks hand to
  \<open>OTA_SignalEvent\<close> is a result of the model, since its status is ignored.
\<close>

subsection \<open>The pool of event buffers\<close>

abbreviation (input) otaconfigMAX_NUM_OTA_DATA_BUFFERS :: nat where "otaconfigMAX_NUM_OTA_DATA_BUFFERS \<equiv> 3"

record OtaEventData_t =
  ev_data :: "byte list"
  dataLength :: nat
  bufferUsed :: bool

text \<open>The static state: the buffers, whether the mutex exists, and the thing name (the object on the heap
  with its terminator) with the length the store reported.\<close>

record OtaApp =
  eventBuffer :: "OtaEventData_t list"
  pool_lock :: bool
  pcThingName :: "string option"
  uxThingNameLength :: nat

definition prvOTAEventBufferPoolInit :: "nat \<Rightarrow> bool \<Rightarrow> OtaApp \<Rightarrow> bool \<times> OtaApp" where
  "prvOTAEventBufferPoolInit blk mutex_ok a =
     (mutex_ok, a\<lparr>eventBuffer := replicate otaconfigMAX_NUM_OTA_DATA_BUFFERS
                     \<lparr>ev_data = replicate blk 0, dataLength = 0, bufferUsed = False\<rparr>,
                  pool_lock := mutex_ok\<rparr>)"

text \<open>Taking the mutex before it was created fails an assertion of the kernel.\<close>

definition prvOTAEventBufferFree :: "nat \<Rightarrow> OtaApp \<Rightarrow> OtaApp option" where
  "prvOTAEventBufferFree i a = do {
     configASSERT (pool_lock a);
     if i < length (eventBuffer a)
     then Some (a\<lparr>eventBuffer := (eventBuffer a)[i := (eventBuffer a ! i)\<lparr>bufferUsed := False\<rparr>]\<rparr>)
     else None }"

fun first_free :: "OtaEventData_t list \<Rightarrow> nat option" where
  "first_free [] = None"
| "first_free (b # bs) = (if \<not> bufferUsed b then Some 0 else map_option Suc (first_free bs))"

definition prvOTAEventBufferGet :: "OtaApp \<Rightarrow> (nat option \<times> OtaApp) option" where
  "prvOTAEventBufferGet a = do {
     configASSERT (pool_lock a);
     Some (case first_free (eventBuffer a) of
             None \<Rightarrow> (None, a)
           | Some i \<Rightarrow> (Some i, a\<lparr>eventBuffer := (eventBuffer a)[i := (eventBuffer a ! i)\<lparr>bufferUsed := True\<rparr>]\<rparr>)) }"

subsection \<open>The client identifier in a topic\<close>

abbreviation (input) OTA_TOPIC_PREFIX :: string where "OTA_TOPIC_PREFIX \<equiv> ''$aws/things''"

definition OTA_TOPIC_CLIENT_IDENTIFIER_START_IDX :: nat where
  "OTA_TOPIC_CLIENT_IDENTIFIER_START_IDX = length OTA_TOPIC_PREFIX + 1"

text \<open>The loop over the topic from \<open>idx\<close> on; reading the identifier outside its object has no result.\<close>

fun match_loop :: "string option \<Rightarrow> nat \<Rightarrow> nat \<Rightarrow> string \<Rightarrow> bool option" where
  "match_loop ident len matchIdx [] = Some False"
| "match_loop ident len matchIdx (t # ts) =
     (if matchIdx = len then Some (t = CHR ''/'')
      else case ident of
             None \<Rightarrow> None
           | Some s \<Rightarrow> if matchIdx < length s
                       then if s ! matchIdx \<noteq> t then Some False else match_loop ident len (matchIdx + 1) ts
                       else None)"

definition prvMatchClientIdentifierInTopic :: "string \<Rightarrow> string option \<Rightarrow> nat \<Rightarrow> bool option" where
  "prvMatchClientIdentifierInTopic pTopic pcIdentifier len =
     match_loop pcIdentifier len 0 (drop OTA_TOPIC_CLIENT_IDENTIFIER_START_IDX pTopic)"

subsection \<open>Incoming publishes\<close>

datatype OtaEvent_t = OtaAgentEventStart | OtaAgentEventReceivedJobDocument | OtaAgentEventReceivedFileBlock

type_synonym OtaEventMsg_t = "OtaEvent_t \<times> nat option"

text \<open>A publish is its topic and its payload; the argument may be NULL. The result has the event that is
  signalled, if any.\<close>

type_synonym publish = "(string \<times> byte list) option"

text \<open>The part both callbacks share once the topic was matched.\<close>

definition queue_payload :: "nat \<Rightarrow> OtaEvent_t \<Rightarrow> byte list \<Rightarrow> OtaApp \<Rightarrow> (OtaEventMsg_t option \<times> OtaApp) option" where
  "queue_payload blk ev payload a =
     (if length payload \<le> blk
      then do { (pData, a) \<leftarrow> prvOTAEventBufferGet a;
                (case pData of
                   None \<Rightarrow> Some (None, a)
                 | Some i \<Rightarrow> do {
                     d \<leftarrow> mem_write 0 payload (ev_data (eventBuffer a ! i));
                     Some (Some (ev, Some i),
                       a\<lparr>eventBuffer := (eventBuffer a)[i := (eventBuffer a ! i)\<lparr>ev_data := d, dataLength := length payload\<rparr>]\<rparr>) }) }
      else Some (None, a))"

definition prvProcessIncomingData :: "nat \<Rightarrow> publish \<Rightarrow> OtaApp \<Rightarrow> (OtaEventMsg_t option \<times> OtaApp) option" where
  "prvProcessIncomingData blk p a = do {
     configASSERT (p \<noteq> None);
     isMatch \<leftarrow> prvMatchClientIdentifierInTopic (fst (the p)) (pcThingName a) (uxThingNameLength a);
     if isMatch then queue_payload blk OtaAgentEventReceivedFileBlock (snd (the p)) a else Some (None, a) }"

definition prvProcessIncomingJobMessage :: "nat \<Rightarrow> publish \<Rightarrow> OtaApp \<Rightarrow> (OtaEventMsg_t option \<times> OtaApp) option" where
  "prvProcessIncomingJobMessage blk p a = do {
     configASSERT (p \<noteq> None);
     configASSERT (pcThingName a \<noteq> None);
     isMatch \<leftarrow> prvMatchClientIdentifierInTopic (fst (the p)) (pcThingName a) (strlen (the (pcThingName a)));
     if isMatch then queue_payload blk OtaAgentEventReceivedJobDocument (snd (the p)) a else Some (None, a) }"

subsection \<open>The callback of the OTA library\<close>

datatype OtaJobEvent_t = OtaJobEventActivate | OtaJobEventFail | OtaJobEventStartTest | OtaJobEventProcessed
  | OtaJobEventSelfTestFailed | OtaJobEventUpdateComplete | OtaJobEventOther

text \<open>What the callback asks the library to do. The build without TF-M accepts an image under test at once.\<close>

datatype ota_request = ActivateNewImage | SetImageStateAccepted

definition otaAppCallback :: "OtaJobEvent_t \<Rightarrow> nat option \<Rightarrow> OtaApp \<Rightarrow> (ota_request list \<times> OtaApp) option" where
  "otaAppCallback event pData a =
     (case event of
        OtaJobEventActivate \<Rightarrow> Some ([ActivateNewImage], a)
      | OtaJobEventStartTest \<Rightarrow> Some ([SetImageStateAccepted], a)
      | OtaJobEventProcessed \<Rightarrow> do { configASSERT (pData \<noteq> None);
                                   a \<leftarrow> prvOTAEventBufferFree (the pData) a;
                                   Some ([], a) }
      | _ \<Rightarrow> Some ([], a))"

subsection \<open>The MQTT functions of the OTA library\<close>

abbreviation (input) OTA_JOB_TOPIC_FILTER :: string where "OTA_JOB_TOPIC_FILTER \<equiv> ''$aws/things/+/jobs/#''"
abbreviation (input) OTA_DATA_STREAM_TOPIC_FILTER :: string where "OTA_DATA_STREAM_TOPIC_FILTER \<equiv> ''$aws/things/+/streams/#''"
abbreviation (input) OTA_JOB_NOTIFY_TOPIC_FILTER :: string where "OTA_JOB_NOTIFY_TOPIC_FILTER \<equiv> ''$aws/things/+/jobs/notify-next''"
abbreviation (input) OTA_JOB_ACCEPTED_RESPONSE_TOPIC_FILTER :: string where
  "OTA_JOB_ACCEPTED_RESPONSE_TOPIC_FILTER \<equiv> ''$aws/things/+/jobs/$next/get/#''"

text \<open>Function pointers are numbers.\<close>

abbreviation (input) job_message_callback :: nat where "job_message_callback \<equiv> 0"
abbreviation (input) data_callback :: nat where "data_callback \<equiv> 1"

definition prvGetPublishCallbackFromTopic :: "match_topic \<Rightarrow> string \<Rightarrow> nat option" where
  "prvGetPublishCallbackFromTopic mt pcTopicFilter =
     (if mt pcTopicFilter OTA_JOB_TOPIC_FILTER then Some job_message_callback
      else if mt pcTopicFilter OTA_DATA_STREAM_TOPIC_FILTER then Some data_callback else None)"

datatype OtaMqttStatus_t = OtaMqttSuccess | OtaMqttPublishFailed | OtaMqttSubscribeFailed | OtaMqttUnsubscribeFailed

text \<open>\<open>handle\<close> is whether \<open>xGetMqttAgentHandle\<close> returns an agent. The topic filter may be NULL. Its length is not
  passed on: the subscription manager reads up to the terminator.\<close>

definition prvMQTTSubscribe ::
  "match_topic \<Rightarrow> bool \<Rightarrow> MQTTSubscribeInfo_t agent_request \<Rightarrow> task \<Rightarrow> bool \<Rightarrow> string option \<Rightarrow> nat \<Rightarrow> MQTTQoS_t \<Rightarrow>
   SubMgrCtx_t \<Rightarrow> (OtaMqttStatus_t \<times> SubMgrCtx_t) option" where
  "prvMQTTSubscribe mt mem req me handle pFilter filterLength ucQoS s = do {
     configASSERT (pFilter \<noteq> None);
     configASSERT (0 < filterLength);
     (let cb = prvGetPublishCallbackFromTopic mt (take filterLength (the pFilter)) in
      if \<not> handle \<or> cb = None then Some (OtaMqttSubscribeFailed, s)
      else do { (mqttStatus, s) \<leftarrow> MqttAgent_SubscribeSync mem req me True pFilter ucQoS cb 0 s;
                Some (if mqttStatus \<noteq> MQTTSuccess then OtaMqttSubscribeFailed else OtaMqttSuccess, s) }) }"

definition prvMQTTUnsubscribe ::
  "match_topic \<Rightarrow> string agent_request \<Rightarrow> task \<Rightarrow> bool \<Rightarrow> string option \<Rightarrow> nat \<Rightarrow>
   SubMgrCtx_t \<Rightarrow> (OtaMqttStatus_t \<times> SubMgrCtx_t) option" where
  "prvMQTTUnsubscribe mt req me handle pFilter filterLength s = do {
     configASSERT (pFilter \<noteq> None);
     configASSERT (0 < filterLength);
     (let cb = prvGetPublishCallbackFromTopic mt (take filterLength (the pFilter)) in
      if \<not> handle \<or> cb = None then Some (OtaMqttUnsubscribeFailed, s)
      else do { (mqttStatus, s) \<leftarrow> MqttAgent_UnSubscribeSync req me True pFilter cb 0 s;
                Some (if mqttStatus \<noteq> MQTTSuccess then OtaMqttUnsubscribeFailed else OtaMqttSuccess, s) }) }"

text \<open>
  Publishing. The value notified to the task is its only link to the command: \<open>arrivals\<close> are the status
  values \<open>prvCommandCallback\<close> notifies while the task waits, whichever command they belong to, and the
  wait ends with the first. \<open>sent\<close> is the answer of \<open>MQTTAgent_Publish\<close>.
\<close>

abbreviation (input) MQTTSendFailed :: MQTTStatus_t where "MQTTSendFailed \<equiv> 3"

definition prvCommandCallback :: "bool \<Rightarrow> bool \<Rightarrow> MQTTStatus_t option \<Rightarrow> u32 option" where
  "prvCommandCallback has_context has_task pxReturnInfo = do {
     configASSERT has_context;
     configASSERT has_task;
     configASSERT (pxReturnInfo \<noteq> None);
     Some (of_nat (the pxReturnInfo)) }"

definition prvMQTTPublish :: "bool \<Rightarrow> MQTTStatus_t \<Rightarrow> u32 list \<Rightarrow> OtaMqttStatus_t" where
  "prvMQTTPublish handle sent arrivals =
     (if \<not> handle then OtaMqttPublishFailed
      else let mqttStatus = (if sent = MQTTSuccess
                             then (case arrivals of [] \<Rightarrow> MQTTSendFailed | v # _ \<Rightarrow> unat v)
                             else sent) in
           if mqttStatus \<noteq> MQTTSuccess then OtaMqttPublishFailed else OtaMqttSuccess)"

subsection \<open>Waiting for states of the OTA agent\<close>

datatype OtaState_t = OtaAgentStateNoTransition | OtaAgentStateInit | OtaAgentStateReady | OtaAgentStateRequestingJob
  | OtaAgentStateWaitingForJob | OtaAgentStateCreatingFile | OtaAgentStateRequestingFileBlock
  | OtaAgentStateWaitingForFileBlock | OtaAgentStateClosingFile | OtaAgentStateSuspended
  | OtaAgentStateShuttingDown | OtaAgentStateStopped | OtaAgentStateAll

text \<open>The table of names is indexed with the state, which starts at -1.\<close>

definition pOtaAgentStateStrings :: "OtaState_t \<Rightarrow> string option" where
  "pOtaAgentStateStrings st = (case st of
       OtaAgentStateNoTransition \<Rightarrow> None
     | OtaAgentStateInit \<Rightarrow> Some ''Init'' | OtaAgentStateReady \<Rightarrow> Some ''Ready''
     | OtaAgentStateRequestingJob \<Rightarrow> Some ''RequestingJob'' | OtaAgentStateWaitingForJob \<Rightarrow> Some ''WaitingForJob''
     | OtaAgentStateCreatingFile \<Rightarrow> Some ''CreatingFile'' | OtaAgentStateRequestingFileBlock \<Rightarrow> Some ''RequestingFileBlock''
     | OtaAgentStateWaitingForFileBlock \<Rightarrow> Some ''WaitingForFileBlock'' | OtaAgentStateClosingFile \<Rightarrow> Some ''ClosingFile''
     | OtaAgentStateSuspended \<Rightarrow> Some ''Suspended'' | OtaAgentStateShuttingDown \<Rightarrow> Some ''ShuttingDown''
     | OtaAgentStateStopped \<Rightarrow> Some ''Stopped'' | OtaAgentStateAll \<Rightarrow> Some ''All'')"

definition xIsOtaAgentActive :: "OtaState_t \<Rightarrow> bool" where
  "xIsOtaAgentActive st = (case st of
       OtaAgentStateRequestingJob \<Rightarrow> True | OtaAgentStateCreatingFile \<Rightarrow> True | OtaAgentStateRequestingFileBlock \<Rightarrow> True
     | OtaAgentStateWaitingForFileBlock \<Rightarrow> True | OtaAgentStateClosingFile \<Rightarrow> True | _ \<Rightarrow> False)"

text \<open>\<open>st k\<close> is the answer of the \<open>k\<close>-th call of \<open>OTA_GetState\<close>, \<open>stats k\<close> whether the statistics can be read
  then. A loop returns the number of calls that were made.\<close>

partial_function (option) demo_loop :: "(nat \<Rightarrow> OtaState_t) \<Rightarrow> (nat \<Rightarrow> bool) \<Rightarrow> nat \<Rightarrow> nat option" where
  "demo_loop st stats k =
     do { k' \<leftarrow> (if xIsOtaAgentActive (st k) \<and> stats k
                then do { pOtaAgentStateStrings (st (k + 1)); Some (k + 2) } else Some (k + 1));
          if st k' = OtaAgentStateStopped then Some (k' + 1) else demo_loop st stats (k' + 1) }"

partial_function (option) suspend_wait :: "(nat \<Rightarrow> OtaState_t) \<Rightarrow> nat \<Rightarrow> nat option" where
  "suspend_wait st k =
     (if st k = OtaAgentStateSuspended then Some (k + 1)
      else if st (k + 1) = OtaAgentStateStopped then Some (k + 2)
      else suspend_wait st (k + 2))"

text \<open>The result tells whether \<open>OTA_Suspend\<close> was called; its status is ignored.\<close>

definition vSuspendOTAUpdate :: "(nat \<Rightarrow> OtaState_t) \<Rightarrow> (bool \<times> nat) option" where
  "vSuspendOTAUpdate st =
     (if st 0 = OtaAgentStateSuspended then Some (False, 1)
      else if st 1 = OtaAgentStateStopped then Some (False, 2)
      else do { k \<leftarrow> suspend_wait st 2; Some (True, k) })"

partial_function (option) resume_wait :: "(nat \<Rightarrow> OtaState_t) \<Rightarrow> nat \<Rightarrow> nat option" where
  "resume_wait st k = (if st k = OtaAgentStateSuspended then resume_wait st (k + 1) else Some (k + 1))"

definition vResumeOTAUpdate :: "(nat \<Rightarrow> OtaState_t) \<Rightarrow> (bool \<times> nat) option" where
  "vResumeOTAUpdate st =
     (if st 0 = OtaAgentStateSuspended then do { k \<leftarrow> resume_wait st 1; Some (True, k) } else Some (False, 1))"

declare demo_loop.simps [code] suspend_wait.simps [code] resume_wait.simps [code]

subsection \<open>The task\<close>

text \<open>
  What the task meets: the thing name in the store, whether the agent connects in time and has a handle,
  the memory and the broker for subscriptions, the mutex of the pool, and the outcomes of \<open>OTA_Init\<close> and
  \<open>xTaskCreate\<close>.
\<close>

record ota_env =
  oe_getStringHeap :: "KVStoreKey_t \<Rightarrow> (byte list option \<times> nat) option"
  oe_connected :: bool
  oe_handle :: bool
  oe_mem :: bool
  oe_subscribe :: "MQTTSubscribeInfo_t agent_request"
  oe_unsubscribe :: "string agent_request"
  oe_mutex :: bool
  oe_init :: bool
  oe_create :: bool
  oe_block :: nat

text \<open>One subscription of the start, skipped after a failure or without an agent.\<close>

definition ota_subscribe :: "ota_env \<Rightarrow> task \<Rightarrow> bool \<Rightarrow> string \<Rightarrow> MQTTStatus_t \<times> bool \<times> SubMgrCtx_t \<Rightarrow>
   (MQTTStatus_t \<times> bool \<times> SubMgrCtx_t) option" where
  "ota_subscribe E me has_agent f st =
     (case st of (xMQTTStatus, xResult, s) \<Rightarrow>
        if xResult \<and> has_agent
        then do { (xMQTTStatus, s) \<leftarrow> MqttAgent_SubscribeSync (oe_mem E) (oe_subscribe E) me True (Some f) 0
                     (Some job_message_callback) 0 s;
                  Some (xMQTTStatus, xMQTTStatus = MQTTSuccess, s) }
        else Some st)"

definition ota_start :: "ota_env \<Rightarrow> task \<Rightarrow> SubMgrCtx_t \<Rightarrow> OtaApp \<Rightarrow> (MQTTStatus_t \<times> bool \<times> bool \<times> SubMgrCtx_t \<times> OtaApp) option" where
  "ota_start E me s a = do {
     (pc, n) \<leftarrow> oe_getStringHeap E CS_CORE_THING_NAME;
     let a = a\<lparr>pcThingName := map_option (map char_of_byte) pc, uxThingNameLength := n\<rparr>;
     let xResult = (pc \<noteq> None \<and> n \<noteq> 0);
     let has_agent = (xResult \<and> oe_connected E \<and> oe_handle E);
     st \<leftarrow> ota_subscribe E me has_agent OTA_JOB_ACCEPTED_RESPONSE_TOPIC_FILTER (MQTTBadParameter, xResult, s);
     (xMQTTStatus, xResult, s) \<leftarrow> ota_subscribe E me has_agent OTA_JOB_NOTIFY_TOPIC_FILTER st;
     let (xResult, a) = (if xResult then prvOTAEventBufferPoolInit (oe_block E) (oe_mutex E) a else (False, a));
     let xResult = (xResult \<and> oe_init E);
     let xResult = (xResult \<and> oe_create E);
     Some (xMQTTStatus, xResult, has_agent, s, a) }"

definition ota_exit :: "ota_env \<Rightarrow> task \<Rightarrow> MQTTStatus_t \<Rightarrow> bool \<Rightarrow> SubMgrCtx_t \<Rightarrow> OtaApp \<Rightarrow> (SubMgrCtx_t \<times> OtaApp) option" where
  "ota_exit E me xMQTTStatus has_agent s a = do {
     (_, s) \<leftarrow> (if xMQTTStatus = MQTTSuccess
                then MqttAgent_UnSubscribeSync (oe_unsubscribe E) me has_agent (Some OTA_JOB_ACCEPTED_RESPONSE_TOPIC_FILTER)
                       (Some job_message_callback) 0 s
                else Some (xMQTTStatus, s));
     Some (s, a\<lparr>pcThingName := None\<rparr>) }"

text \<open>
  The whole task. While it loops the other tasks and the OTA agent use the subscription tables and the
  pool: \<open>busy\<close> is what they did by the time the loop has ended. The result tells whether the agent was
  sent the start event.
\<close>

definition vOTAUpdateTask ::
  "ota_env \<Rightarrow> task \<Rightarrow> (nat \<Rightarrow> OtaState_t) \<Rightarrow> (nat \<Rightarrow> bool) \<Rightarrow> (SubMgrCtx_t \<times> OtaApp \<Rightarrow> SubMgrCtx_t \<times> OtaApp) \<Rightarrow>
   SubMgrCtx_t \<Rightarrow> OtaApp \<Rightarrow> (bool \<times> SubMgrCtx_t \<times> OtaApp) option" where
  "vOTAUpdateTask E me st stats busy s a = do {
     (xMQTTStatus, xResult, has_agent, s, a) \<leftarrow> ota_start E me s a;
     (s, a) \<leftarrow> (if xResult then do { k \<leftarrow> demo_loop st stats 0; Some (busy (s, a)) } else Some (s, a));
     (s, a) \<leftarrow> ota_exit E me xMQTTStatus has_agent s a;
     Some (xResult, s, a) }"

end
