(* ===== verification/OtaTaskSpec.thy ===== *)
theory OtaTaskSpec
  imports OtaTask
begin

text \<open>
  The properties of the OTA task: topics are matched against the thing name exactly, the payloads of events
  stay intact in distinct buffers until the library has processed them, the loops that wait for the agent
  end when the agent gets there, and what the end of the task leaves behind.
\<close>

subsection \<open>Topics\<close>

lemma match_loop_name:
  "k \<le> length name \<Longrightarrow>
   match_loop (Some (name @ rest)) (length name) k ts = Some (\<exists>r. ts = drop k name @ CHR ''/'' # r)"
proof (induction ts arbitrary: k)
  case (Cons t ts)
  show ?case
  proof (cases "k = length name")
    case False
    with Cons.prems have k: "k < length name" by simp
    then have d: "drop k name = name ! k # drop (k + 1) name" using Cons_nth_drop_Suc [OF k] by simp
    show ?thesis using Cons.IH [of "k + 1"] k d by (auto simp: nth_append)
  qed simp
qed simp

text \<open>A topic is taken exactly when it has the thing name and a slash behind the prefix.\<close>

lemma ota_topic_match:
  assumes "pc = Some (name @ NUL # rest)"
  shows "prvMatchClientIdentifierInTopic topic pc (length name) =
     Some (\<exists>r. drop (length OTA_TOPIC_PREFIX + 1) topic = name @ CHR ''/'' # r)"
  using match_loop_name [of 0 name "NUL # rest"] assms
  by (simp add: prvMatchClientIdentifierInTopic_def OTA_TOPIC_CLIENT_IDENTIFIER_START_IDX_def)

lemma ota_job_topic:
  assumes "pcThingName a = Some (name @ NUL # rest)" "c_string name"
  shows "prvMatchClientIdentifierInTopic topic (pcThingName a) (strlen (the (pcThingName a))) =
     Some (\<exists>r. drop (length OTA_TOPIC_PREFIX + 1) topic = name @ CHR ''/'' # r)"
proof -
  have "strlen (name @ NUL # rest) = length name"
    using assms(2) by (simp add: strlen_def c_str_def takeWhile_append c_string_def)
  with ota_topic_match [OF assms(1)] assms(1) show ?thesis by simp
qed

subsection \<open>Events and their buffers\<close>

definition handler :: "bool \<Rightarrow> nat \<Rightarrow> publish \<Rightarrow> OtaApp \<Rightarrow> (OtaEventMsg_t option \<times> OtaApp) option" where
  "handler job = (if job then prvProcessIncomingJobMessage else prvProcessIncomingData)"

text \<open>
  The system of the two tasks: the state of the application, the events the library has accepted and not yet
  processed (with the payload they came with), and the buffers of events it refused. The library processes an
  accepted event once, in any order, and then calls back with its buffer.
\<close>

record ota_sys =
  sys_app :: OtaApp
  accepted :: "(OtaEvent_t \<times> nat \<times> byte list) list"
  refused :: "nat list"

inductive ota_step :: "nat \<Rightarrow> ota_sys \<Rightarrow> ota_sys \<Rightarrow> bool" for blk where
  Dropped: "handler job blk (Some (topic, pl)) (sys_app S) = Some (None, a) \<Longrightarrow> ota_step blk S (S\<lparr>sys_app := a\<rparr>)"
| Accepted: "handler job blk (Some (topic, pl)) (sys_app S) = Some (Some (ev, Some i), a) \<Longrightarrow>
    ota_step blk S (S\<lparr>sys_app := a, accepted := accepted S @ [(ev, i, pl)]\<rparr>)"
| Refused: "handler job blk (Some (topic, pl)) (sys_app S) = Some (Some (ev, Some i), a) \<Longrightarrow>
    ota_step blk S (S\<lparr>sys_app := a, refused := refused S @ [i]\<rparr>)"
| Processed: "accepted S = xs @ (ev, i, pl) # ys \<Longrightarrow>
    otaAppCallback OtaJobEventProcessed (Some i) (sys_app S) = Some (rq, a) \<Longrightarrow>
    ota_step blk S (S\<lparr>sys_app := a, accepted := xs @ ys\<rparr>)"

definition ota_initial :: "nat \<Rightarrow> OtaApp \<Rightarrow> ota_sys" where
  "ota_initial blk a = \<lparr>sys_app = snd (prvOTAEventBufferPoolInit blk True a), accepted = [], refused = []\<rparr>"

definition intact :: "OtaEventData_t list \<Rightarrow> OtaEvent_t \<times> nat \<times> byte list \<Rightarrow> bool" where
  "intact bufs e = (case e of (ev, i, pl) \<Rightarrow>
     i < length bufs \<and> bufferUsed (bufs ! i) \<and> dataLength (bufs ! i) = length pl \<and> take (length pl) (ev_data (bufs ! i)) = pl)"

definition in_use :: "ota_sys \<Rightarrow> nat list" where
  "in_use S = map (\<lambda>(ev, i, pl). i) (accepted S) @ refused S"

definition ota_inv :: "nat \<Rightarrow> ota_sys \<Rightarrow> bool" where
  "ota_inv blk S =
     (pool_lock (sys_app S) \<and> length (eventBuffer (sys_app S)) = otaconfigMAX_NUM_OTA_DATA_BUFFERS \<and>
      list_all (\<lambda>b. length (ev_data b) = blk) (eventBuffer (sys_app S)) \<and> distinct (in_use S) \<and>
      list_all (\<lambda>i. i < otaconfigMAX_NUM_OTA_DATA_BUFFERS \<and> bufferUsed (eventBuffer (sys_app S) ! i)) (in_use S) \<and>
      list_all (intact (eventBuffer (sys_app S))) (accepted S))"

lemma ota_inv_initial: "ota_inv blk (ota_initial blk a)"
  by (simp add: ota_inv_def ota_initial_def prvOTAEventBufferPoolInit_def in_use_def list_all_iff)

lemma first_free_Some: "first_free bs = Some i \<Longrightarrow> i < length bs \<and> \<not> bufferUsed (bs ! i)"
  by (induction bs arbitrary: i) (auto split: if_splits)

text \<open>The callbacks either leave the state alone or fill a free buffer.\<close>

definition filled :: "nat \<Rightarrow> byte list \<Rightarrow> OtaApp \<Rightarrow> OtaApp" where
  "filled i pl a = a\<lparr>eventBuffer := (eventBuffer a)[i :=
     (eventBuffer a ! i)\<lparr>bufferUsed := True, ev_data := overwrite 0 pl (ev_data (eventBuffer a ! i)), dataLength := length pl\<rparr>]\<rparr>"

lemma queue_payload_cases:
  assumes "queue_payload blk ev pl a = Some (m, a')" "list_all (\<lambda>b. length (ev_data b) = blk) (eventBuffer a)"
  shows "m = None \<and> a' = a \<or>
     (\<exists>i. m = Some (ev, Some i) \<and> i < length (eventBuffer a) \<and> \<not> bufferUsed (eventBuffer a ! i) \<and> length pl \<le> blk \<and> a' = filled i pl a)"
proof (cases "first_free (eventBuffer a)")
  case None
  with assms(1) show ?thesis
    by (auto simp: queue_payload_def prvOTAEventBufferGet_def configASSERT_def split: if_splits)
next
  case (Some i)
  note F = first_free_Some [OF Some]
  then have "length (ev_data (eventBuffer a ! i)) = blk" using assms(2) by (simp add: list_all_length)
  with assms(1) Some F show ?thesis
    by (auto simp: queue_payload_def prvOTAEventBufferGet_def configASSERT_def filled_def split: if_splits)
qed

lemma handler_cases:
  assumes "handler job blk (Some (topic, pl)) a = Some (m, a')" "list_all (\<lambda>b. length (ev_data b) = blk) (eventBuffer a)"
  shows "m = None \<and> a' = a \<or>
     (\<exists>ev i. m = Some (ev, Some i) \<and> i < length (eventBuffer a) \<and> \<not> bufferUsed (eventBuffer a ! i) \<and> length pl \<le> blk \<and> a' = filled i pl a)"
proof -
  have "m = None \<and> a' = a \<or> (\<exists>ev. queue_payload blk ev pl a = Some (m, a'))"
    using assms(1)
    by (auto simp: handler_def prvProcessIncomingJobMessage_def prvProcessIncomingData_def configASSERT_def bind_eq_Some_conv
        split: if_splits)
  with queue_payload_cases [OF _ assms(2)] show ?thesis by blast
qed

text \<open>Filling a free buffer disturbs none that is in use.\<close>

lemma intact_filled:
  assumes "intact (eventBuffer a) e" "\<not> bufferUsed (eventBuffer a ! i)"
  shows "intact (eventBuffer (filled i pl a)) e"
proof -
  obtain ev j q where e: "e = (ev, j, q)" by (cases e)
  with assms have "j \<noteq> i" by (auto simp: intact_def)
  with assms(1) e show ?thesis by (simp add: intact_def filled_def)
qed

lemma ota_inv_filled:
  assumes "ota_inv blk S" "i < length (eventBuffer (sys_app S))" "\<not> bufferUsed (eventBuffer (sys_app S) ! i)" "length pl \<le> blk"
  shows "ota_inv blk (S\<lparr>sys_app := filled i pl (sys_app S), accepted := accepted S @ [(ev, i, pl)]\<rparr>)"
    and "ota_inv blk (S\<lparr>sys_app := filled i pl (sys_app S), refused := refused S @ [i]\<rparr>)"
proof -
  let ?a = "filled i pl (sys_app S)"
  have new: "i \<notin> set (in_use S)" using assms(1,3) by (auto simp: ota_inv_def list_all_iff)
  have len: "length (ev_data (eventBuffer (sys_app S) ! i)) = blk"
    using assms(1,2) by (auto simp: ota_inv_def list_all_length)
  have pool: "pool_lock ?a" "length (eventBuffer ?a) = 3" "list_all (\<lambda>b. length (ev_data b) = blk) (eventBuffer ?a)"
    using assms(1,4) len by (auto simp: ota_inv_def filled_def list_all_iff dest!: set_update_subset_insert [THEN subsetD])
  have used: "\<forall>j \<in> set (in_use S). j < 3 \<and> bufferUsed (eventBuffer ?a ! j)" "i < 3 \<and> bufferUsed (eventBuffer ?a ! i)"
    using assms(1,2) by (auto simp: ota_inv_def filled_def list_all_iff nth_list_update)
  have old: "list_all (intact (eventBuffer ?a)) (accepted S)"
    using assms(1,3) intact_filled by (auto simp: ota_inv_def list_all_iff)
  have new_ok: "intact (eventBuffer ?a) (ev, i, pl)"
    using assms(2,4) len by (simp add: intact_def filled_def)
  show "ota_inv blk (S\<lparr>sys_app := ?a, accepted := accepted S @ [(ev, i, pl)]\<rparr>)"
    using assms(1) new pool used old new_ok by (auto simp: ota_inv_def in_use_def list_all_iff)
  show "ota_inv blk (S\<lparr>sys_app := ?a, refused := refused S @ [i]\<rparr>)"
    using assms(1) new pool used old by (auto simp: ota_inv_def in_use_def list_all_iff)
qed

lemma ota_inv_processed:
  assumes "ota_inv blk S" "accepted S = xs @ (ev, i, pl) # ys"
    and "otaAppCallback OtaJobEventProcessed (Some i) (sys_app S) = Some (rq, a)"
  shows "ota_inv blk (S\<lparr>sys_app := a, accepted := xs @ ys\<rparr>)"
proof -
  let ?bs = "eventBuffer (sys_app S)"
  have a: "a = sys_app S\<lparr>eventBuffer := ?bs[i := (?bs ! i)\<lparr>bufferUsed := False\<rparr>]\<rparr>" "i < length ?bs"
    using assms(3) by (auto simp: otaAppCallback_def prvOTAEventBufferFree_def configASSERT_def split: if_splits)
  have d: "i \<notin> set (in_use (S\<lparr>sys_app := a, accepted := xs @ ys\<rparr>))"
    using assms(1,2) by (auto simp: ota_inv_def in_use_def)
  have len: "length (ev_data (?bs ! i)) = blk" using assms(1) a(2) by (auto simp: ota_inv_def list_all_length)
  have "list_all (intact (eventBuffer a)) (xs @ ys)"
    unfolding list_all_iff
  proof
    fix e assume e: "e \<in> set (xs @ ys)"
    with assms(1,2) have "intact ?bs e" by (auto simp: ota_inv_def list_all_iff)
    moreover have "fst (snd e) \<noteq> i" using d e by (cases e) (force simp: in_use_def)
    ultimately show "intact (eventBuffer a) e" using a by (cases e) (auto simp: intact_def)
  qed
  then show ?thesis
    using assms(1,2) a d len
    by (auto simp: ota_inv_def in_use_def list_all_iff nth_list_update dest!: set_update_subset_insert [THEN subsetD])
qed

inductive_cases ota_stepE: "ota_step blk S S'"

lemma ota_inv_handler:
  assumes "handler job blk (Some (topic, pl)) (sys_app S) = Some (m, a)" "ota_inv blk S"
  shows "m = None \<Longrightarrow> ota_inv blk (S\<lparr>sys_app := a\<rparr>)"
    and "m = Some (ev, Some i) \<Longrightarrow> ota_inv blk (S\<lparr>sys_app := a, accepted := accepted S @ [(ev, i, pl)]\<rparr>)"
    and "m = Some (ev, Some i) \<Longrightarrow> ota_inv blk (S\<lparr>sys_app := a, refused := refused S @ [i]\<rparr>)"
proof -
  have "list_all (\<lambda>b. length (ev_data b) = blk) (eventBuffer (sys_app S))" using assms(2) by (simp add: ota_inv_def)
  note C = handler_cases [OF assms(1) this]
  show "m = None \<Longrightarrow> ota_inv blk (S\<lparr>sys_app := a\<rparr>)" using C assms(2) by (cases S) auto
  show "m = Some (ev, Some i) \<Longrightarrow> ota_inv blk (S\<lparr>sys_app := a, accepted := accepted S @ [(ev, i, pl)]\<rparr>)"
    "m = Some (ev, Some i) \<Longrightarrow> ota_inv blk (S\<lparr>sys_app := a, refused := refused S @ [i]\<rparr>)"
    using C ota_inv_filled [OF assms(2), of i pl] by auto
qed

lemma ota_inv_step: "ota_step blk S S' \<Longrightarrow> ota_inv blk S \<Longrightarrow> ota_inv blk S'"
  by (induction rule: ota_step.induct) (blast intro: ota_inv_handler ota_inv_processed)+

lemma ota_inv_reachable: "rtranclp (ota_step blk) (ota_initial blk a) S \<Longrightarrow> ota_inv blk S"
  by (induction rule: rtranclp_induct) (auto intro: ota_inv_initial ota_inv_step)

lemma in_use_bound:
  assumes "ota_inv blk S"
  shows "length (in_use S) \<le> 3"
proof -
  have "card (set (in_use S)) \<le> card {..<3::nat}"
    using assms by (intro card_mono) (auto simp: ota_inv_def list_all_iff)
  then show ?thesis using assms distinct_card [of "in_use S"] by (simp add: ota_inv_def)
qed

text \<open>
  C9. However publishes arrive and the OTA library accepts, refuses and processes their events, every
  accepted event still has its whole payload, unchanged, in a buffer that is marked as used; no two events
  share a buffer. The buffer of a refused event is never given back: with the accepted events it counts
  against the three buffers of the pool, so after three refusals no event can be pending any more.
\<close>

theorem ota_events_intact:
  assumes "rtranclp (ota_step blk) (ota_initial blk a) S"
  shows "list_all (intact (eventBuffer (sys_app S))) (accepted S) \<and> distinct (map (\<lambda>(ev, i, pl). i) (accepted S)) \<and>
    length (accepted S) + length (refused S) \<le> otaconfigMAX_NUM_OTA_DATA_BUFFERS"
  using ota_inv_reachable [OF assms] in_use_bound [OF ota_inv_reachable [OF assms]]
  by (auto simp: ota_inv_def in_use_def)

text \<open>Once three events were refused every further publish is dropped, for ever.\<close>

lemma refused_grows: "ota_step blk S S' \<Longrightarrow> length (refused S) \<le> length (refused S')"
  by (induction rule: ota_step.induct) simp_all

lemma ota_refused_for_ever:
  assumes "rtranclp (ota_step blk) (ota_initial blk a) S" "length (refused S) = 3" "rtranclp (ota_step blk) S S'"
  shows "accepted S' = [] \<and> length (refused S') = 3"
proof -
  have "length (refused S) \<le> length (refused S')" using assms(3)
    by (induction rule: rtranclp_induct) (auto dest: refused_grows)
  moreover have "ota_inv blk S'" using ota_inv_reachable [OF rtranclp_trans [OF assms(1,3)]] .
  then have "length (accepted S') + length (refused S') \<le> 3" using in_use_bound by (fastforce simp: in_use_def)
  ultimately have "length (accepted S') = 0" "length (refused S') = 3" using assms(2) by linarith+
  then show ?thesis by simp
qed

subsection \<open>Waiting for the agent\<close>

lemma suspend_wait_returns:
  "suspend_wait st (2 * n) \<noteq> None \<longleftrightarrow> (\<exists>m\<ge>n. st (2 * m) = OtaAgentStateSuspended \<or> st (2 * m + 1) = OtaAgentStateStopped)"
proof
  let ?hit = "\<lambda>m. st (2 * m) = OtaAgentStateSuspended \<or> st (2 * m + 1) = OtaAgentStateStopped"
  assume "suspend_wait st (2 * n) \<noteq> None"
  then obtain y where y: "suspend_wait st (2 * n) = Some y" by blast
  have "\<exists>j. st (2 * n + 2 * j) = OtaAgentStateSuspended \<or> st (2 * n + 2 * j + 1) = OtaAgentStateStopped"
  proof (rule suspend_wait.raw_induct [OF _ y, of "\<lambda>st k _. \<exists>j. st (k + 2 * j) = OtaAgentStateSuspended \<or> st (k + 2 * j + 1) = OtaAgentStateStopped"])
    fix w :: "(nat \<Rightarrow> OtaState_t) \<Rightarrow> nat \<Rightarrow> nat option" and st k y
    assume IH: "\<And>st k y. w st k = Some y \<Longrightarrow> \<exists>j. st (k + 2 * j) = OtaAgentStateSuspended \<or> st (k + 2 * j + 1) = OtaAgentStateStopped"
      and eq: "(if st k = OtaAgentStateSuspended then Some (k + 1)
        else if st (k + 1) = OtaAgentStateStopped then Some (k + 2) else w st (k + 2)) = Some y"
    show "\<exists>j. st (k + 2 * j) = OtaAgentStateSuspended \<or> st (k + 2 * j + 1) = OtaAgentStateStopped"
    proof (cases "st k = OtaAgentStateSuspended \<or> st (k + 1) = OtaAgentStateStopped")
      case True
      then show ?thesis by (intro exI [of _ 0]) simp
    next
      case False
      with eq IH [of st "k + 2" y] obtain j where
        "st (k + 2 + 2 * j) = OtaAgentStateSuspended \<or> st (k + 2 + 2 * j + 1) = OtaAgentStateStopped" by auto
      then show ?thesis by (intro exI [of _ "Suc j"]) simp
    qed
  qed
  then obtain j where "?hit (n + j)" by (auto simp: distrib_left)
  then show "\<exists>m\<ge>n. ?hit m" by (intro exI [of _ "n + j"]) simp
next
  assume "\<exists>m\<ge>n. st (2 * m) = OtaAgentStateSuspended \<or> st (2 * m + 1) = OtaAgentStateStopped"
  then obtain m where "n \<le> m" "st (2 * m) = OtaAgentStateSuspended \<or> st (2 * m + 1) = OtaAgentStateStopped" by blast
  then show "suspend_wait st (2 * n) \<noteq> None"
  proof (induction "m - n" arbitrary: n)
    case 0
    then show ?case by (subst suspend_wait.simps) auto
  next
    case (Suc d)
    then have "suspend_wait st (2 * Suc n) \<noteq> None" by (intro Suc.hyps(1)) simp_all
    then show ?case by (subst suspend_wait.simps) auto
  qed
qed

text \<open>
  Suspending returns exactly when a call of \<open>OTA_GetState\<close> in the right place of the pair the condition makes
  shows the state it waits for. When \<open>OTA_Suspend\<close> was refused, and the agent runs on, it never returns.
\<close>

lemma ota_suspend_returns:
  "vSuspendOTAUpdate st \<noteq> None \<longleftrightarrow> (\<exists>m. st (2 * m) = OtaAgentStateSuspended \<or> st (2 * m + 1) = OtaAgentStateStopped)"
proof -
  have "(\<exists>m. st (2 * m) = OtaAgentStateSuspended \<or> st (2 * m + 1) = OtaAgentStateStopped) \<longleftrightarrow>
      (st 0 = OtaAgentStateSuspended \<or> st 1 = OtaAgentStateStopped) \<or>
      (\<exists>m\<ge>1. st (2 * m) = OtaAgentStateSuspended \<or> st (2 * m + 1) = OtaAgentStateStopped)"
    by (metis One_nat_def add_0 le_add2 mult_0_right not0_implies_Suc plus_1_eq_Suc add.commute)
  with suspend_wait_returns [of st 1] show ?thesis by (auto simp: vSuspendOTAUpdate_def split: Option.bind_splits)
qed

lemma demo_loop_returns:
  assumes "\<forall>k\<ge>n. st k = OtaAgentStateStopped" "\<forall>k. st k \<noteq> OtaAgentStateNoTransition"
  shows "\<exists>k'. demo_loop st stats k = Some k'"
proof (induction "n - k" arbitrary: k rule: less_induct)
  case less
  have named: "\<exists>s. pOtaAgentStateStrings (st j) = Some s" for j
    using assms(2) by (cases "st j") (auto simp: pOtaAgentStateStrings_def)
  let ?k = "if xIsOtaAgentActive (st k) \<and> stats k then k + 2 else k + 1"
  have eq: "demo_loop st stats k = (if st ?k = OtaAgentStateStopped then Some (?k + 1) else demo_loop st stats (?k + 1))"
    using named [of "k + 1"] by (subst demo_loop.simps) auto
  show ?case
  proof (cases "st ?k = OtaAgentStateStopped")
    case False
    then have "?k < n" using assms(1) by (meson not_le)
    then have "n - (?k + 1) < n - k" by (auto split: if_splits)
    with less False eq show ?thesis by simp
  qed (simp add: eq)
qed

subsection \<open>The end of the task\<close>

lemma ota_filters:
  "c_string OTA_JOB_NOTIFY_TOPIC_FILTER" "c_string OTA_JOB_ACCEPTED_RESPONSE_TOPIC_FILTER"
  "length OTA_JOB_NOTIFY_TOPIC_FILTER < UINT16_MAX" "length OTA_JOB_ACCEPTED_RESPONSE_TOPIC_FILTER < UINT16_MAX"
  "OTA_JOB_NOTIFY_TOPIC_FILTER \<noteq> OTA_JOB_ACCEPTED_RESPONSE_TOPIC_FILTER"
  "take (length OTA_JOB_ACCEPTED_RESPONSE_TOPIC_FILTER) OTA_JOB_NOTIFY_TOPIC_FILTER \<noteq> OTA_JOB_ACCEPTED_RESPONSE_TOPIC_FILTER"
  by simp_all

lemma ota_subscribe_ok:
  assumes "ota_subscribe E me True f (st0, True, s) = Some (st, ok, s')" "sub_wf s" "owner s = None"
    and "c_string f" "f \<noteq> []" "length f < UINT16_MAX"
  shows "sub_wf s' \<and> owner s' = None \<and> ok = (st = MQTTSuccess) \<and>
     (st = MQTTSuccess \<longrightarrow> no_prefix f s \<longrightarrow> registered f (Some job_message_callback) 0 s') \<and>
     (\<forall>g. no_prefix g s \<longrightarrow> take (length f) g \<noteq> f \<longrightarrow> no_prefix g s')"
proof -
  have q: "prvValidateQoS 0" by (simp add: prvValidateQoS_def)
  obtain st1 s1 where S: "MqttAgent_SubscribeSync (oe_mem E) (oe_subscribe E) me True (Some f) 0 (Some job_message_callback) 0 s = Some (st1, s1)"
    "sub_wf s1" "owner s1 = None" "st1 = MQTTSuccess \<Longrightarrow> no_prefix f s \<Longrightarrow> registered f (Some job_message_callback) 0 s1"
    by (rule subscribe_sync_ok [OF assms(2-6) q, of "oe_mem E" "oe_subscribe E" me job_message_callback 0]) blast
  have "st = st1 \<and> s' = s1 \<and> ok = (st1 = MQTTSuccess)"
    using assms(1) S(1) by (auto simp: ota_subscribe_def)
  with S subscribe_sync_no_prefix [OF S(1) assms(4,6)] show ?thesis by blast
qed

lemma ota_start_registers:
  assumes "ota_start E me s a = Some (MQTTSuccess, ok, agent, s1, a1)" "sub_wf s" "owner s = None"
    and "no_prefix OTA_JOB_NOTIFY_TOPIC_FILTER s"
  shows "sub_wf s1 \<and> owner s1 = None \<and> registered OTA_JOB_NOTIFY_TOPIC_FILTER (Some job_message_callback) 0 s1"
proof -
  obtain pc n where G: "oe_getStringHeap E CS_CORE_THING_NAME = Some (pc, n)"
    using assms(1) by (cases "oe_getStringHeap E CS_CORE_THING_NAME") (auto simp: ota_start_def)
  let ?x = "pc \<noteq> None \<and> n \<noteq> 0"
  let ?has = "?x \<and> oe_connected E \<and> oe_handle E"
  obtain st2 where S1: "ota_subscribe E me ?has OTA_JOB_ACCEPTED_RESPONSE_TOPIC_FILTER (MQTTBadParameter, ?x, s) = Some st2"
    using assms(1) G
    by (cases "ota_subscribe E me ?has OTA_JOB_ACCEPTED_RESPONSE_TOPIC_FILTER (MQTTBadParameter, ?x, s)") (auto simp: ota_start_def)
  obtain st ok1 s2 where st2: "st2 = (st, ok1, s2)" by (cases st2)
  obtain ok2 where S2: "ota_subscribe E me ?has OTA_JOB_NOTIFY_TOPIC_FILTER st2 = Some (MQTTSuccess, ok2, s1)"
    using assms(1) G S1
    by (cases "ota_subscribe E me ?has OTA_JOB_NOTIFY_TOPIC_FILTER st2") (auto simp: ota_start_def Let_def split: prod.splits)
  have has: ?has
  proof (rule ccontr)
    assume "\<not> ?has"
    with S1 have "st = MQTTBadParameter" by (auto simp: ota_subscribe_def st2 simp del: One_nat_def)
    with S2 \<open>\<not> ?has\<close> show False by (auto simp: ota_subscribe_def st2)
  qed
  have "ota_subscribe E me True OTA_JOB_ACCEPTED_RESPONSE_TOPIC_FILTER (MQTTBadParameter, True, s) = Some (st, ok1, s2)"
    using S1 has st2 by simp
  from ota_subscribe_ok [OF this assms(2,3) ota_filters(2) _ ota_filters(4)]
  have A: "sub_wf s2" "owner s2 = None" "ok1 = (st = MQTTSuccess)" "no_prefix OTA_JOB_NOTIFY_TOPIC_FILTER s2"
    using assms(4) ota_filters(6) by blast+
  have ok1
  proof (rule ccontr)
    assume "\<not> ok1"
    with S2 A(3) show False by (simp add: ota_subscribe_def st2)
  qed
  then have "ota_subscribe E me True OTA_JOB_NOTIFY_TOPIC_FILTER (st, True, s2) = Some (MQTTSuccess, ok2, s1)"
    using S2 has st2 by simp
  from ota_subscribe_ok [OF this A(1,2) ota_filters(1) _ ota_filters(3)] A(4)
  show ?thesis by blast
qed


subsection \<open>Witnesses\<close>

text \<open>Subscription tables whose entries 1, 2, ... hold the given filters, each with one callback of the task 1.\<close>

definition ex_tabs :: "string list \<Rightarrow> SubMgrCtx_t" where
  "ex_tabs fs = \<lparr>pxSubscriptions = no_sub # map (\<lambda>f. \<lparr>qos = 0, pTopicFilter = Some f, topicFilterLength = length f\<rparr>) fs
       @ replicate (9 - length fs) no_sub,
     pxSubAckStatus = MQTTSubAckFailure # replicate (length fs) 1 @ replicate (9 - length fs) MQTTSubAckFailure,
     pulSubCbCount = 0 # replicate (length fs) 1 @ replicate (9 - length fs) 0,
     pxCallbacks = map (\<lambda>i. \<lparr>pxIncomingPublishCallback = Some 0, pvIncomingPublishCallbackContext = 0,
         xTaskHandle = Some 1, pxSubInfo = Some (i + 1)\<rparr>) [0..<length fs] @ replicate (10 - length fs) no_cb,
     uxSubscriptionCount = length fs, uxCallbackCount = length fs, owner = None\<rparr>"

lemma ex_replicate: "replicate 10 x = [x, x, x, x, x, x, x, x, x, x]" "replicate 9 x = [x, x, x, x, x, x, x, x, x]" "replicate 8 x = [x, x, x, x, x, x, x, x]" "replicate 7 x = [x, x, x, x, x, x, x]"
  by (simp_all add: numeral_eq_Suc)

lemma ex_vacant: "filter_matches no_sub f" "filter_matches (no_sub\<lparr>qos := q\<rparr>) f"
  by (simp_all add: filter_matches_def strncmp_eq_def no_sub_def)

lemma ex_taken:
  "c_string f \<Longrightarrow> c_string g \<Longrightarrow> f \<noteq> [] \<Longrightarrow>
   filter_matches \<lparr>qos = 0, pTopicFilter = Some f, topicFilterLength = length f\<rparr> g \<longleftrightarrow> (\<exists>r. g = f @ r)"
  by (rule filter_matches_prefix) (simp_all add: wf_sub_def)

lemmas ex_subscribe_simps = subscribe_section_def ex_tabs_def ex_replicate ex_vacant ex_taken Let_def prvGetNewQoS_def
  populate_subscription_def populate_callback_def prvMatchCbCtx_def

lemma ex_subscribed:
  assumes "c_string f" "f \<noteq> []" "length f < UINT16_MAX"
    and "subscribe_section True 1 f (length f) 0 (Some 0) 0 ((ex_tabs fs)\<lparr>owner := Some 1\<rparr>) = Some (0, t, s)"
    and "s\<lparr>owner := None, pxSubAckStatus := (pxSubAckStatus s)[t := 1]\<rparr> = ex_tabs fs'" "owner s = Some 1" "pxSubAckStatus s ! t = MQTTSubAckFailure"
  shows "MqttAgent_SubscribeSync True ex_broker 1 True (Some f) 0 (Some 0) 0 (ex_tabs fs) = Some (0, ex_tabs fs')"
proof -
  have "strnlen f UINT16_MAX = length f" "owner (ex_tabs fs) = None" using assms(1,3) by (simp_all add: strnlen_def strlen_def ex_tabs_def)
  with assms show ?thesis
    by (simp add: MqttAgent_SubscribeSync_def Let_def xLockSubCtx_def xUnlockSubCtx_def ex_send prvValidateQoS_def del: One_nat_def)
qed

lemma ex_first:
  assumes "c_string f" "f \<noteq> []" "length f < UINT16_MAX"
  shows "MqttAgent_SubscribeSync True ex_broker 1 True (Some f) 0 (Some 0) 0 (ex_tabs []) = Some (0, ex_tabs [f])"
  by (rule ex_subscribed [OF assms, of _ 1 "(ex_tabs [f])\<lparr>owner := Some 1, pxSubAckStatus := replicate 10 MQTTSubAckFailure\<rparr>"])
    (use assms in \<open>simp_all add: ex_subscribe_simps\<close>)

lemma ex_second:
  assumes "c_string g" "g \<noteq> []" "length g < UINT16_MAX" "c_string f" "f \<noteq> []" "\<nexists>r. g = f @ r"
  shows "MqttAgent_SubscribeSync True ex_broker 1 True (Some g) 0 (Some 0) 0 (ex_tabs [f]) = Some (0, ex_tabs [f, g])"
  by (rule ex_subscribed [OF assms(1-3), of _ 2 "(ex_tabs [f, g])\<lparr>owner := Some 1,
      pxSubAckStatus := MQTTSubAckFailure # 1 # replicate 8 MQTTSubAckFailure\<rparr>"])
    (use assms in \<open>simp_all add: ex_subscribe_simps\<close>)

lemma ex_tabs_facts:
  assumes "c_string f" "f \<noteq> []" "c_string g" "g \<noteq> []" "f \<noteq> g"
  shows "sub_wf (ex_tabs [])" "sub_wf (ex_tabs [f, g])" "only_sub f 1 (ex_tabs [f, g])" "refs (pxCallbacks (ex_tabs [f, g])) 1 = 1"
    "list_ex (\<lambda>c. prvMatchCbCtx 1 c (Some 1) (Some 0) 0) (pxCallbacks (ex_tabs [f, g]))" "no_prefix h (ex_tabs [])"
    "owner (ex_tabs fs) = None"
proof -
  have i: "i < (10 :: nat) \<Longrightarrow> i = 0 \<or> i = 1 \<or> i = 2 \<or> i = 3 \<or> i = 4 \<or> i = 5 \<or> i = 6 \<or> i = 7 \<or> i = 8 \<or> i = 9" for i by arith
  show "sub_wf (ex_tabs [])"
    by (simp add: sub_wf_def ex_tabs_def ex_replicate refs_def) (use i in fastforce)
  show "sub_wf (ex_tabs [f, g])"
    using assms by (simp add: sub_wf_def ex_tabs_def ex_replicate refs_def wf_sub_def wf_cb_def) (use i in fastforce)
  show "only_sub f 1 (ex_tabs [f, g])" using assms by (simp add: only_sub_def ex_tabs_def ex_replicate upt_rec)
qed (use assms in \<open>simp_all add: refs_def ex_tabs_def ex_replicate prvMatchCbCtx_def no_prefix_def\<close>)

definition ex_ota_env :: ota_env where
  "ex_ota_env = \<lparr>oe_getStringHeap = (\<lambda>k. Some (Some (map byte_of ''dev'' @ [0]), 3)), oe_connected = True, oe_handle = True,
     oe_mem = True, oe_subscribe = ex_broker, oe_unsubscribe = ex_broker, oe_mutex = False, oe_init = True, oe_create = True, oe_block = 4\<rparr>"

definition ex_ota_app :: OtaApp where
  "ex_ota_app = \<lparr>eventBuffer = [], pool_lock = False, pcThingName = None, uxThingNameLength = 0\<rparr>"

lemma ex_ota_unsubscribe: "oe_unsubscribe ex_ota_env = ex_broker"
  by (simp add: ex_ota_env_def)

lemma ex_ota_start:
  "\<exists>a. ota_start ex_ota_env 1 (ex_tabs []) ex_ota_app =
     Some (MQTTSuccess, False, True, ex_tabs [OTA_JOB_ACCEPTED_RESPONSE_TOPIC_FILTER, OTA_JOB_NOTIFY_TOPIC_FILTER], a)"
  using ex_first [of OTA_JOB_ACCEPTED_RESPONSE_TOPIC_FILTER] ex_second [of OTA_JOB_NOTIFY_TOPIC_FILTER OTA_JOB_ACCEPTED_RESPONSE_TOPIC_FILTER]
  by (simp add: ota_start_def ota_subscribe_def ex_ota_env_def prvOTAEventBufferPoolInit_def)


text \<open>A job message of two bytes is accepted and waits in the first buffer.\<close>

definition ex_pending :: ota_sys where
  "ex_pending = \<lparr>sys_app = (ex_ota_app\<lparr>pcThingName := Some (''dev'' @ [NUL]), pool_lock := True,
       eventBuffer := \<lparr>ev_data = [7, 8, 0, 0], dataLength = 2, bufferUsed = True\<rparr> #
         replicate 2 \<lparr>ev_data = [0, 0, 0, 0], dataLength = 0, bufferUsed = False\<rparr>\<rparr>),
     accepted = [(OtaAgentEventReceivedJobDocument, 0, [7, 8])], refused = []\<rparr>"

lemma ex_pending_reached:
  "rtranclp (ota_step 4) (ota_initial 4 (ex_ota_app\<lparr>pcThingName := Some (''dev'' @ [NUL])\<rparr>)) ex_pending"
proof -
  let ?S = "ota_initial 4 (ex_ota_app\<lparr>pcThingName := Some (''dev'' @ [NUL])\<rparr>)"
  have "prvMatchClientIdentifierInTopic ''$aws/things/dev/jobs/notify-next'' (Some (''dev'' @ [NUL])) 3 = Some True"
    using ota_topic_match [of "Some (''dev'' @ [NUL])" "''dev''" "[]" "''$aws/things/dev/jobs/notify-next''"] by (simp add: numeral_eq_Suc)
  moreover have "strlen (''dev'' @ [NUL]) = 3" by (simp add: strlen_def c_str_def)
  ultimately have "handler True 4 (Some (''$aws/things/dev/jobs/notify-next'', [7, 8])) (sys_app ?S) =
      Some (Some (OtaAgentEventReceivedJobDocument, Some 0), sys_app ex_pending)"
    by (simp add: handler_def prvProcessIncomingJobMessage_def queue_payload_def prvOTAEventBufferGet_def ota_initial_def
        prvOTAEventBufferPoolInit_def ex_pending_def ex_ota_app_def mem_write_def overwrite_def numeral_eq_Suc)
  from ota_step.Accepted [OF this] have "ota_step 4 ?S ex_pending"
    by (simp add: ota_initial_def ex_pending_def)
  then show ?thesis by (rule r_into_rtranclp)
qed

theorem ota_events_intact_witness:
  "list_all (intact (eventBuffer (sys_app ex_pending))) [(OtaAgentEventReceivedJobDocument, 0, [7, 8])] \<and>
   length (accepted ex_pending) + length (refused ex_pending) \<le> 3"
  using ota_events_intact [OF ex_pending_reached] by (simp add: ex_pending_def)

end
