(* ===== verification/ConsoleIo.thy ===== *)
theory ConsoleIo
  imports Console
begin

text \<open>
  The table of console functions a command is given (\<open>ConsoleIO_t\<close> of \<open>source/cli/cli_prv.h\<close>), with the three
  functions the commands use, and the table of the UART (\<open>xConsoleIO\<close> of \<open>cli_uart_drv.c\<close>). The locale
  \<open>console_io\<close> says what commands rely on; the driver interprets it.
\<close>

record 'c ConsoleIO_t =
  io_readline :: "'c \<Rightarrow> (nat \<times> string \<times> 'c) option"
  io_write :: "string \<Rightarrow> 'c \<Rightarrow> 'c option"
  io_print :: "string \<Rightarrow> 'c \<Rightarrow> 'c option"

text \<open>The state of the UART console: the driver and the keys that will be pressed. \<open>readline\<close> gives the length of
  the line and the buffer it is in.\<close>

type_synonym 't uart = "'t console \<times> char option list"

definition xConsoleIO :: "'t stream_ops \<Rightarrow> 't uart ConsoleIO_t" where
  "xConsoleIO ops =
     \<lparr>io_readline = \<lambda>(c, keys). do { (n, c, keys) \<leftarrow> uart_readline ops keys c; Some (n, pcInputBuffer c, (c, keys)) },
      io_write = \<lambda>s (c, keys). do { c \<leftarrow> uart_write ops s c; Some (c, keys) },
      io_print = \<lambda>s (c, keys). do { c \<leftarrow> uart_print ops s c; Some (c, keys) }\<rparr>"

text \<open>\<open>out\<close> is the text that was sent, \<open>typed c ls\<close> says that the next lines of the user are \<open>ls\<close>. Output appends to the
  text and takes no input; reading returns the next line, which is never empty.\<close>

locale console_io =
  fixes io :: "'c ConsoleIO_t" and ok :: "'c \<Rightarrow> bool" and sent_text :: "'c \<Rightarrow> string" and typed :: "'c \<Rightarrow> string list \<Rightarrow> bool"
  assumes write_appends: "ok c \<Longrightarrow> \<exists>c'. io_write io s c = Some c' \<and> ok c' \<and> sent_text c' = sent_text c @ s \<and> typed c' = typed c"
    and print_appends: "ok c \<Longrightarrow> \<exists>c'. io_print io s c = Some c' \<and> ok c' \<and> sent_text c' = sent_text c @ c_str s \<and> typed c' = typed c"
    and readline_next: "ok c \<Longrightarrow> typed c (l # ls) \<Longrightarrow> \<exists>buf c'. io_readline io c = Some (length l, buf, c') \<and> c_str buf = l \<and> l \<noteq> [] \<and> ok c' \<and> typed c' ls"
begin

lemma write_obtain:
  assumes "ok c"
  obtains c' where "io_write io s c = Some c'" "ok c'" "sent_text c' = sent_text c @ s" "typed c' = typed c"
  using write_appends [OF assms] by blast

lemma print_obtain:
  assumes "ok c"
  obtains c' where "io_print io s c = Some c'" "ok c'" "sent_text c' = sent_text c @ c_str s" "typed c' = typed c"
  using print_appends [OF assms] by blast

lemma readline_obtain:
  assumes "ok c" "typed c (l # ls)"
  obtains buf c' where "io_readline io c = Some (length l, buf, c')" "c_str buf = l" "l \<noteq> []" "ok c'" "typed c' ls"
  using readline_next [OF assms] by blast

end

text \<open>The lines keys make, by the line editor.\<close>

fun typed_lines :: "char option list \<Rightarrow> string list \<Rightarrow> bool" where
  "typed_lines keys [] = True"
| "typed_lines keys (l # ls) = (case edit_line [] keys of Line l' rest \<Rightarrow> l' = l \<and> typed_lines rest ls | _ \<Rightarrow> False)"

interpretation uart: console_io "xConsoleIO ops" "\<lambda>(c, keys). stream_spec ops sent room \<and> length (pcInputBuffer c) = 128"
    "\<lambda>(c, keys). sent (xUartTxStream c)" "\<lambda>(c, keys). typed_lines keys"
  for ops sent room
proof
  fix s :: string and c :: "'a uart"
  assume ok: "case c of (c, keys) \<Rightarrow> stream_spec ops sent room \<and> length (pcInputBuffer c) = 128"
  obtain d keys where c: "c = (d, keys)" by (cases c)
  have spec: "stream_spec ops sent room" and len: "length (pcInputBuffer d) = 128" using ok c by simp_all
  show "\<exists>c'. io_write (xConsoleIO ops) s c = Some c' \<and> (case c' of (c, keys) \<Rightarrow> stream_spec ops sent room \<and> length (pcInputBuffer c) = 128) \<and>
    (case c' of (c, keys) \<Rightarrow> sent (xUartTxStream c)) = (case c of (c, keys) \<Rightarrow> sent (xUartTxStream c)) @ s \<and>
    (case c' of (c, keys) \<Rightarrow> typed_lines keys) = (case c of (c, keys) \<Rightarrow> typed_lines keys)"
    by (rule uart_write_ok [OF spec, of s d]) (simp add: spec len c xConsoleIO_def)
  show "\<exists>c'. io_print (xConsoleIO ops) s c = Some c' \<and> (case c' of (c, keys) \<Rightarrow> stream_spec ops sent room \<and> length (pcInputBuffer c) = 128) \<and>
    (case c' of (c, keys) \<Rightarrow> sent (xUartTxStream c)) = (case c of (c, keys) \<Rightarrow> sent (xUartTxStream c)) @ c_str s \<and>
    (case c' of (c, keys) \<Rightarrow> typed_lines keys) = (case c of (c, keys) \<Rightarrow> typed_lines keys)"
    by (rule uart_write_ok [OF spec, of "c_str s" d]) (simp add: spec len c xConsoleIO_def uart_print_def)
next
  fix l ls and c :: "'a uart"
  assume ok: "case c of (c, keys) \<Rightarrow> stream_spec ops sent room \<and> length (pcInputBuffer c) = 128"
    and ty: "(case c of (c, keys) \<Rightarrow> typed_lines keys) (l # ls)"
  obtain d keys where c: "c = (d, keys)" by (cases c)
  obtain rest where e: "edit_line [] keys = Line l rest" "typed_lines rest ls" using ty c by (auto split: edited.splits)
  show "\<exists>buf c'. io_readline (xConsoleIO ops) c = Some (length l, buf, c') \<and> c_str buf = l \<and> l \<noteq> [] \<and>
    (case c' of (c, keys) \<Rightarrow> stream_spec ops sent room \<and> length (pcInputBuffer c) = 128) \<and> (case c' of (c, keys) \<Rightarrow> typed_lines keys) ls"
    using readline_edits [of ops sent room d keys] ok c e by (auto simp: readline_as_def xConsoleIO_def)
qed

text \<open>Text that was printed and is typed again: every line ends with a carriage return and a line feed, of which the
  line feed makes an empty line that is passed over.\<close>

definition line_ok :: "string \<Rightarrow> bool" where
  "line_ok l \<longleftrightarrow> l \<noteq> [] \<and> length l < 128 \<and> list_all printable l"

lemma edit_typed:
  assumes "line_ok l"
  shows "edit_line [] (map Some (l @ crlf) @ ks) = Line l (Some (CHR 0x0A) # ks)"
  using assms edit_printable [of l "[]" "map Some crlf @ ks"] by (simp add: line_ok_def ends_line_def)

lemma edit_line_feed: "edit_line [] (Some (CHR 0x0A) # ks) = edit_line [] ks"
  by (simp add: ends_line_def)

lemma typed_lines_feed: "typed_lines (Some (CHR 0x0A) # ks) ls = typed_lines ks ls"
  by (cases ls) (simp_all add: edit_line_feed del: edit_line.simps)

lemma typed_printed:
  assumes "list_all line_ok ls"
  shows "typed_lines (map Some (concat (map (\<lambda>l. l @ crlf) ls)) @ ks) ls"
  using assms
proof (induction ls)
  case (Cons l ls)
  let ?ks = "map Some (concat (map (\<lambda>l. l @ crlf) ls)) @ ks"
  have "edit_line [] (map Some (l @ crlf) @ ?ks) = Line l (Some (CHR 0x0A) # ?ks)"
    using Cons.prems by (intro edit_typed) simp
  moreover have "typed_lines ?ks ls" using Cons by simp
  ultimately show ?case by (simp add: typed_lines_feed)
qed simp

end
