(* ===== verification/CliPem.thy ===== *)
theory CliPem
  imports ConsoleIo PsaStore
begin

text \<open>
  PEM text on the console: \<open>vPrintDer\<close> and \<open>xReadPemFromCliAsDer\<close> of \<open>source/cli/cli_pki.c\<close>. The base64
  functions of Mbed TLS are the record \<open>base64\<close>, with the size of the output buffer as argument; what their
  documentation promises is \<open>base64_spec\<close>.
\<close>

abbreviation (input) PEM_CERT_MAX_LEN :: nat where "PEM_CERT_MAX_LEN \<equiv> 2048"
abbreviation (input) PEM_LINE_ENDING_LEN :: nat where "PEM_LINE_ENDING_LEN \<equiv> 1"
abbreviation (input) PEM_LINE_BUFF_LEN :: nat where "PEM_LINE_BUFF_LEN \<equiv> 64"
abbreviation (input) DER_BYTES_PER_PEM_LINE :: nat where "DER_BYTES_PER_PEM_LINE \<equiv> 48"
abbreviation (input) PEM_BEGIN :: string where "PEM_BEGIN \<equiv> ''-----BEGIN ''"
abbreviation (input) PEM_END :: string where "PEM_END \<equiv> ''-----END ''"
abbreviation (input) PEM_META_SUFFIX :: string where "PEM_META_SUFFIX \<equiv> ''-----''"

record base64 =
  mbedtls_base64_encode :: "nat \<Rightarrow> byte list \<Rightarrow> string option"
  mbedtls_base64_decode :: "nat \<Rightarrow> string \<Rightarrow> byte list option"

subsection \<open>Printing\<close>

text \<open>One line per 48 bytes, put together in \<open>pcLineBuffer\<close>: the text, then a line end and a terminator over
  the terminator of the text. The flag is \<open>lRslt == 0\<close>.\<close>

function print_lines :: "base64 \<Rightarrow> 'c ConsoleIO_t \<Rightarrow> byte list \<Rightarrow> 'c \<Rightarrow> (bool \<times> 'c) option" where
  "print_lines B io der c =
     (if der = [] then Some (True, c)
      else (case mbedtls_base64_encode B (PEM_LINE_BUFF_LEN + 1) (take DER_BYTES_PER_PEM_LINE der) of
              Some text \<Rightarrow> do {
                pcLineBuffer \<leftarrow> mem_write 0 (text @ [NUL]) (replicate (PEM_LINE_BUFF_LEN + 3) (CHR 0xFF));
                pcLineBuffer \<leftarrow> mem_write (length text) (crlf @ [NUL]) pcLineBuffer;
                c \<leftarrow> io_write io (take (length text + 2) pcLineBuffer) c;
                print_lines B io (drop DER_BYTES_PER_PEM_LINE der) c
              }
            | None \<Rightarrow> do { c \<leftarrow> io_print io (crlf @ ''ERROR'' @ crlf) c; Some (False, c) }))"
  by pat_completeness auto
termination by (relation "measure (\<lambda>(B, io, der, c). length der)") auto

declare print_lines.simps [simp del]

definition vPrintDer :: "base64 \<Rightarrow> 'c ConsoleIO_t \<Rightarrow> string \<Rightarrow> string \<Rightarrow> byte list \<Rightarrow> 'c \<Rightarrow> 'c option" where
  "vPrintDer B io pcHeader pcFooter pucDer c = do {
     c \<leftarrow> io_print io pcHeader c;
     (ok, c) \<leftarrow> print_lines B io pucDer c;
     if ok then io_print io pcFooter c else Some c
   }"

subsection \<open>Reading\<close>

text \<open>\<open>strnstr\<close>: whether the pattern occurs in the first \<open>n\<close> characters of the C string.\<close>

fun contains :: "string \<Rightarrow> string \<Rightarrow> bool" where
  "contains pat [] = (pat = [])"
| "contains pat (c # cs) = (take (length pat) (c # cs) = pat \<or> contains pat cs)"

definition strnstr :: "string \<Rightarrow> string \<Rightarrow> nat \<Rightarrow> bool" where
  "strnstr s pat n = contains pat (take n (c_str s))"

text \<open>What a line does: reading goes on with the flag \<open>xBeginFound\<close>, the buffer and \<open>uxDerDataLen\<close>; the text is
  complete; or an error, with the buffer that is then freed.\<close>

datatype pem_step = PemMore bool "byte list" nat | PemEnd | PemError "byte list"

definition pem_decode :: "base64 \<Rightarrow> byte list \<Rightarrow> nat \<Rightarrow> string \<Rightarrow> (bool \<times> byte list \<times> nat) option" where
  "pem_decode B pucDerBuffer uxDerDataLen text =
     (case mbedtls_base64_decode B (PEM_CERT_MAX_LEN - uxDerDataLen) text of
        Some bs \<Rightarrow> do {
          pucDerBuffer \<leftarrow> mem_write uxDerDataLen bs pucDerBuffer;
          configASSERT (uxDerDataLen + length bs < PEM_CERT_MAX_LEN);
          Some (True, pucDerBuffer, uxDerDataLen + length bs)
        }
      | None \<Rightarrow> Some (False, pucDerBuffer, uxDerDataLen))"

text \<open>A line inside the text. After a footer without its ending the line is decoded before the error flag is looked at.\<close>

definition pem_body_line ::
  "base64 \<Rightarrow> 'c ConsoleIO_t \<Rightarrow> byte list \<Rightarrow> nat \<Rightarrow> nat \<Rightarrow> string \<Rightarrow> 'c \<Rightarrow> (pem_step \<times> 'c) option" where
  "pem_body_line B io buf len uxDataRead line c = do {
     let footer = strncmp_eq PEM_END line 9;
     let complete = strnstr (drop 9 line) PEM_META_SUFFIX (u32_sub uxDataRead 9);
     if footer \<and> complete then Some (PemEnd, c)
     else do {
       c \<leftarrow> (if footer then io_print io (''Error: PEM footer does not contain the expected ending: '' @ [CHR 39] @ PEM_META_SUFFIX @ [CHR 39] @ ''.'' @ crlf) c
            else Some c);
       text \<leftarrow> mem_read 0 uxDataRead line;
       (ok, buf, len) \<leftarrow> pem_decode B buf len text;
       Some (if ok \<and> \<not> footer then PemMore True buf len else PemError buf, c)
     }
   }"

definition pem_line ::
  "base64 \<Rightarrow> 'c ConsoleIO_t \<Rightarrow> bool \<Rightarrow> byte list \<Rightarrow> nat \<Rightarrow> nat \<Rightarrow> string \<Rightarrow> 'c \<Rightarrow> (pem_step \<times> 'c) option" where
  "pem_line B io xBeginFound buf len uxDataRead line c =
     (let fail = (\<lambda>msg. do { c \<leftarrow> io_print io msg c; Some (PemError buf, c) }) in
      if uxDataRead = 0 then Some (PemError buf, c)
      else if uxDataRead > 64 then fail (''Error: Current line exceeds maximum line length for a PEM file.'' @ crlf)
      else if len + uxDataRead + PEM_LINE_ENDING_LEN \<ge> PEM_CERT_MAX_LEN
      then fail (''Error: Out of memory to store the given PEM file.'' @ crlf)
      else if \<not> xBeginFound then
        if strncmp_eq PEM_BEGIN line 11 then
          if strnstr (drop 11 line) PEM_META_SUFFIX (u32_sub uxDataRead 11) then Some (PemMore True buf len, c)
          else fail (''Error: PEM header does not contain the expected ending: '' @ [CHR 39] @ PEM_META_SUFFIX @ [CHR 39] @ ''.'' @ crlf)
        else fail (''Error: PEM header does not contain the expected text: '' @ [CHR 39] @ PEM_BEGIN @ [CHR 39] @ ''.'' @ crlf)
      else pem_body_line B io buf len uxDataRead line c)"

text \<open>The loop over the lines may run for ever, when lines that decode to nothing keep coming. The flag of the
  result is \<open>xErrorFlag\<close>.\<close>

partial_function (option) pem_loop ::
  "base64 \<Rightarrow> 'c ConsoleIO_t \<Rightarrow> bool \<Rightarrow> byte list \<Rightarrow> nat \<Rightarrow> 'c \<Rightarrow> (bool \<times> byte list \<times> nat \<times> 'c) option" where
  "pem_loop B io xBeginFound buf len c =
     (if len < PEM_CERT_MAX_LEN then do {
        (lDataRead, line, c) \<leftarrow> io_readline io c;
        (r, c) \<leftarrow> pem_line B io xBeginFound buf len lDataRead line c;
        (case r of
           PemMore xBeginFound buf len \<Rightarrow> pem_loop B io xBeginFound buf len c
         | PemEnd \<Rightarrow> Some (False, buf, len, c)
         | PemError buf \<Rightarrow> Some (True, buf, len, c))
      }
      else Some (False, buf, len, c))"

text \<open>The result is the block with the decoded text and its length, in one more block of the heap.\<close>

definition xReadPemFromCliAsDer ::
  "base64 \<Rightarrow> 'c ConsoleIO_t \<Rightarrow> 's psa_env \<Rightarrow> 'c \<Rightarrow> 's psa_world \<Rightarrow> ((byte list \<times> nat) option \<times> 'c \<times> 's psa_world) option" where
  "xReadPemFromCliAsDer B io E c w =
     (if calloc_ok E (live w) PEM_CERT_MAX_LEN then do {
        let w = w\<lparr>live := live w + 1\<rparr>;
        (xErrorFlag, buf, uxDerDataLen, c) \<leftarrow> pem_loop B io False (replicate PEM_CERT_MAX_LEN 0) 0 c;
        Some (if xErrorFlag then (None, c, mbedtls_free buf w) else (Some (buf, uxDerDataLen), c, w))
      }
      else do {
        c \<leftarrow> io_print io (''Error: Out of memory to store the given PEM file.'' @ crlf) c;
        Some (None, c, w)
      })"

subsection \<open>What base64 promises\<close>

definition base64_char :: "char \<Rightarrow> bool" where
  "base64_char c \<longleftrightarrow> c \<in> set ''ABCDEFGHIJKLMNOPQRSTUVWXYZabcdefghijklmnopqrstuvwxyz0123456789+/=''"

definition base64_length :: "nat \<Rightarrow> nat" where
  "base64_length n = 4 * ((n + 2) div 3)"

text \<open>Encoding needs room for the text and a terminator; the text is decoded to the bytes it came from when they fit;
  and decoding never gives more bytes than it has room for, or characters.\<close>

definition base64_spec :: "base64 \<Rightarrow> bool" where
  "base64_spec B \<longleftrightarrow>
     (\<forall>n bs. base64_length (length bs) < n \<longrightarrow>
        (\<exists>text. mbedtls_base64_encode B n bs = Some text \<and> length text = base64_length (length bs) \<and> list_all base64_char text \<and>
           (\<forall>m. length bs \<le> m \<longrightarrow> mbedtls_base64_decode B m text = Some bs))) \<and>
     (\<forall>m text bs. mbedtls_base64_decode B m text = Some bs \<longrightarrow> length bs \<le> m \<and> length bs \<le> length text)"

lemma base64_encodes:
  assumes "base64_spec B" "base64_length (length bs) < n"
  obtains enc where "mbedtls_base64_encode B n bs = Some enc" "length enc = base64_length (length bs)"
    "list_all base64_char enc" "\<And>m. length bs \<le> m \<Longrightarrow> mbedtls_base64_decode B m enc = Some bs"
  using assms unfolding base64_spec_def by blast

lemma base64_length_mono: "m \<le> n \<Longrightarrow> base64_length m \<le> base64_length n"
  unfolding base64_length_def by (intro mult_le_mono2 div_le_mono) simp

lemma base64_line: "n \<le> 48 \<Longrightarrow> base64_length n \<le> 64"
  using base64_length_mono [of n 48] by (simp add: base64_length_def)

lemma base64_length_bounds: "n \<le> base64_length n" "0 < n \<Longrightarrow> 0 < base64_length n" "n \<le> 48 \<Longrightarrow> base64_length n \<le> n + 18"
proof -
  have "3 * ((n + 2) div 3) + (n + 2) mod 3 = n + 2" "(n + 2) mod 3 < 3" by simp_all
  then show "n \<le> base64_length n" "0 < n \<Longrightarrow> 0 < base64_length n" "n \<le> 48 \<Longrightarrow> base64_length n \<le> n + 18"
    unfolding base64_length_def by linarith+
qed

subsection \<open>The lines of a text\<close>

fun pem_lines :: "base64 \<Rightarrow> byte list \<Rightarrow> string list" where
  "pem_lines B [] = []"
| "pem_lines B (b # bs) = the (mbedtls_base64_encode B (PEM_LINE_BUFF_LEN + 1) (take DER_BYTES_PER_PEM_LINE (b # bs))) #
     pem_lines B (drop DER_BYTES_PER_PEM_LINE (b # bs))"

definition pem_text :: "string list \<Rightarrow> string" where
  "pem_text ls = concat (map (\<lambda>l. l @ crlf) ls)"

lemma pem_text_Nil [simp]: "pem_text [] = []"
  by (simp add: pem_text_def)

lemma pem_text_Cons [simp]: "pem_text (l # ls) = l @ crlf @ pem_text ls"
  by (simp add: pem_text_def)

lemma pem_text_append [simp]: "pem_text (ls @ ls') = pem_text ls @ pem_text ls'"
  by (simp add: pem_text_def)

lemma base64_printable: "base64_char c \<Longrightarrow> printable c \<and> c \<noteq> CHR ''-'' \<and> c \<noteq> NUL"
  by (auto simp: base64_char_def printable_def ends_line_def erases_def)

text \<open>One line: its text, and that it is decoded to its bytes.\<close>

lemma pem_line_text:
  assumes "base64_spec B" "der \<noteq> []"
  obtains enc where "mbedtls_base64_encode B 65 (take 48 der) = Some enc" "length enc = base64_length (min 48 (length der))"
    "enc \<noteq> []" "length enc \<le> 64" "list_all base64_char enc" "c_string enc"
    "\<And>m. min 48 (length der) \<le> m \<Longrightarrow> mbedtls_base64_decode B m enc = Some (take 48 der)"
    "pem_lines B der = enc # pem_lines B (drop 48 der)"
proof -
  have len: "length (take 48 der) = min 48 (length der)" by simp
  have "base64_length (length (take 48 der)) < 65" using base64_line [of "length (take 48 der)"] by simp
  with assms(1) obtain enc where t: "mbedtls_base64_encode B 65 (take 48 der) = Some enc"
    "length enc = base64_length (length (take 48 der))" "list_all base64_char enc"
    "\<And>m. length (take 48 der) \<le> m \<Longrightarrow> mbedtls_base64_decode B m enc = Some (take 48 der)"
    by (rule base64_encodes) blast
  have "0 < length (take 48 der)" "length (take 48 der) \<le> 48" using assms(2) by simp_all
  then have "0 < length enc" "length enc \<le> 64" unfolding t(2) by (auto intro: base64_length_bounds(2) base64_line)
  moreover from this have "enc \<noteq> []" by auto
  moreover have "c_string enc" using t(3) base64_printable by (fastforce simp: c_string_def list_all_iff)
  moreover have "pem_lines B der = enc # pem_lines B (drop 48 der)" using assms(2) t(1) by (cases der) simp_all
  ultimately show ?thesis using that [of enc] t len by simp
qed

lemma pem_lines_ok: "base64_spec B \<Longrightarrow> list_all line_ok (pem_lines B der)"
proof (induction der rule: length_induct)
  case (1 der)
  show ?case
  proof (cases "der = []")
    case False
    obtain enc where "enc \<noteq> []" "length enc \<le> 64" "list_all base64_char enc" "pem_lines B der = enc # pem_lines B (drop 48 der)"
      using 1(2) False by (rule pem_line_text)
    moreover have "list_all line_ok (pem_lines B (drop 48 der))" using 1 False by simp
    ultimately show ?thesis using base64_printable by (auto simp: line_ok_def list_all_iff)
  qed simp
qed

subsection \<open>Printing gives these lines\<close>

lemma line_buffer:
  assumes "length enc \<le> 64"
  shows "\<exists>b. mem_write 0 (enc @ [NUL]) (replicate 67 x) = Some b \<and>
    (\<exists>b'. mem_write (length enc) (crlf @ [NUL]) b = Some b' \<and> take (length enc + 2) b' = enc @ crlf)"
  using assms by (simp add: mem_write_def overwrite_def)

context console_io
begin

lemma print_lines_ok:
  assumes "base64_spec B" "ok c"
  shows "\<exists>c'. print_lines B io der c = Some (True, c') \<and> ok c' \<and> sent_text c' = sent_text c @ pem_text (pem_lines B der) \<and> typed c' = typed c"
  using assms(2)
proof (induction der arbitrary: c rule: length_induct)
  case (1 der)
  show ?case
  proof (cases "der = []")
    case True
    then show ?thesis using 1(2) by (simp add: print_lines.simps)
  next
    case False
    obtain enc where t: "mbedtls_base64_encode B 65 (take 48 der) = Some enc" "length enc \<le> 64"
      "pem_lines B der = enc # pem_lines B (drop 48 der)"
      using assms(1) False by (rule pem_line_text)
    obtain b b' where b: "mem_write 0 (enc @ [NUL]) (replicate 67 (CHR 0xFF)) = Some b"
      "mem_write (length enc) (crlf @ [NUL]) b = Some b'" "take (length enc + 2) b' = enc @ crlf"
      using line_buffer [OF t(2)] by blast
    obtain c1 where c1: "io_write io (enc @ crlf) c = Some c1" "ok c1" "sent_text c1 = sent_text c @ enc @ crlf" "typed c1 = typed c"
      using 1(2) by (rule write_obtain)
    have "length (drop 48 der) < length der" using False by simp
    with 1(1) c1(2) obtain c2 where "print_lines B io (drop 48 der) c1 = Some (True, c2)" "ok c2"
      "sent_text c2 = sent_text c1 @ pem_text (pem_lines B (drop 48 der))" "typed c2 = typed c1" by blast
    then show ?thesis using False t(1,3) b c1 by (simp add: print_lines.simps [of B io der])
  qed
qed

lemma vPrintDer_ok:
  assumes "base64_spec B" "ok c" "c_string h" "c_string f"
  obtains c' where "vPrintDer B io h f der c = Some c'" "ok c'" "sent_text c' = sent_text c @ h @ pem_text (pem_lines B der) @ f" "typed c' = typed c"
proof -
  obtain c1 where c1: "io_print io h c = Some c1" "ok c1" "sent_text c1 = sent_text c @ c_str h" "typed c1 = typed c"
    using assms(2) by (rule print_obtain)
  obtain c2 where c2: "print_lines B io der c1 = Some (True, c2)" "ok c2" "sent_text c2 = sent_text c1 @ pem_text (pem_lines B der)" "typed c2 = typed c1"
    using print_lines_ok [OF assms(1) c1(2)] by blast
  obtain c3 where "io_print io f c2 = Some c3" "ok c3" "sent_text c3 = sent_text c2 @ c_str f" "typed c3 = typed c2"
    using c2(2) by (rule print_obtain)
  then show ?thesis using that [of c3] c1 c2 assms(3,4) by (simp add: vPrintDer_def)
qed

end

subsection \<open>Reading them gives the bytes\<close>

lemma c_str_take: "c_str buf = l \<Longrightarrow> take (length l) buf = l \<and> length l \<le> length buf"
  using takeWhile_eq_take [of "\<lambda>c. c \<noteq> NUL" buf] length_takeWhile_le [of "\<lambda>c. c \<noteq> NUL" buf] by (auto simp: c_str_def)

lemma c_str_drop: "k \<le> length (c_str buf) \<Longrightarrow> c_str (drop k buf) = drop k (c_str buf)"
proof (induction k arbitrary: buf)
  case (Suc k)
  then show ?case by (cases buf) (auto simp: c_str_def split: if_splits)
qed simp

lemma contains_append: "contains pat (xs @ pat @ ys)"
proof (induction xs)
  case Nil
  show ?case
  proof (cases "pat @ ys")
    case (Cons a list)
    then have "take (length pat) (a # list) = pat" by (metis append_eq_conv_conj)
    then show ?thesis using Cons by simp
  qed simp
qed simp

text \<open>The header and the footer with a label.\<close>

definition pem_header :: "string \<Rightarrow> string" where
  "pem_header lab = PEM_BEGIN @ lab @ PEM_META_SUFFIX"

definition pem_footer :: "string \<Rightarrow> string" where
  "pem_footer lab = PEM_END @ lab @ PEM_META_SUFFIX"

lemma length_marks [simp]: "length (pem_header lab) = 16 + length lab" "length (pem_footer lab) = 14 + length lab"
  by (simp_all add: pem_header_def pem_footer_def)

lemma suffix_found:
  assumes "c_str line = pre @ lab @ PEM_META_SUFFIX" "k + length lab < 64" "length pre = k" "n = length (c_str line)"
  shows "strnstr (drop k line) PEM_META_SUFFIX (u32_sub n k)"
proof -
  have "c_str (drop k line) = lab @ PEM_META_SUFFIX" using assms(1,3) by (simp add: c_str_drop)
  moreover have "u32_sub n k = length lab + 5" using assms by simp
  ultimately show ?thesis using contains_append [of PEM_META_SUFFIX lab "[]"] by (simp add: strnstr_def)
qed

lemma begin_found:
  assumes "c_str line = pem_header lab" "length lab < 48" "c_string lab" "len + length lab + 17 < 2048"
  shows "pem_line B io False buf len (length (pem_header lab)) line c = Some (PemMore True buf len, c)"
proof -
  have "strnstr (drop 11 line) PEM_META_SUFFIX (u32_sub (length (pem_header lab)) 11)"
    using assms(1,2) by (intro suffix_found [of line PEM_BEGIN lab]) (simp_all add: pem_header_def)
  moreover have "strncmp_eq PEM_BEGIN line 11" using assms(1) by (simp add: strncmp_eq_def pem_header_def)
  ultimately show ?thesis using assms(2,4) by (simp add: pem_line_def Let_def)
qed

lemma end_found:
  assumes "c_str line = pem_footer lab" "length lab \<le> 50" "c_string lab" "len + length lab + 15 < 2048"
  shows "pem_line B io True buf len (length (pem_footer lab)) line c = Some (PemEnd, c)"
proof -
  have "strnstr (drop 9 line) PEM_META_SUFFIX (u32_sub (length (pem_footer lab)) 9)"
    using assms(1,2) by (intro suffix_found [of line PEM_END lab]) (simp_all add: pem_footer_def)
  moreover have "strncmp_eq PEM_END line 9" using assms(1) by (simp add: strncmp_eq_def pem_footer_def)
  ultimately show ?thesis using assms(2,4) by (simp add: pem_line_def pem_body_line_def Let_def)
qed

lemma body_line:
  assumes "c_str line = enc" "list_all base64_char enc" "enc \<noteq> []" "length enc \<le> 64" "len + length enc + 1 < 2048"
    and "mbedtls_base64_decode B (2048 - len) enc = Some bs" "length bs \<le> length enc" "length buf = 2048"
  shows "pem_line B io True buf len (length enc) line c = Some (PemMore True (overwrite len bs buf) (len + length bs), c)"
proof -
  have "\<not> strncmp_eq PEM_END line 9"
    using assms(1-3) base64_printable by (cases enc) (auto simp: strncmp_eq_def)
  moreover have "mem_read 0 (length enc) line = Some enc" using c_str_take [OF assms(1)] by simp
  moreover have "pem_decode B buf len enc = Some (True, overwrite len bs buf, len + length bs)"
    using assms by (simp add: pem_decode_def)
  ultimately show ?thesis using assms(3-5) by (simp add: pem_line_def pem_body_line_def Let_def)
qed

lemma take_overwrite_end: "len + length bs \<le> length buf \<Longrightarrow> take (len + length bs) (overwrite len bs buf) = take len buf @ bs"
  by (simp add: overwrite_def)

context console_io
begin

lemma pem_loop_body:
  assumes spec: "base64_spec B" and lab: "4 \<le> length lab" "length lab \<le> 50" "c_string lab"
    and "ok c" "typed c (pem_lines B der @ pem_footer lab # ls)" "length buf = 2048" "len < 2048"
  shows "\<exists>buf' len' c'. pem_loop B io True buf len c = Some (\<not> len + length der + length lab + 15 < 2048, buf', len', c') \<and> ok c' \<and>
    (len + length der + length lab + 15 < 2048 \<longrightarrow> len' = len + length der \<and> take len' buf' = take len buf @ der \<and> length buf' = 2048 \<and> typed c' ls)"
  using assms(5-)
proof (induction der arbitrary: c buf len rule: length_induct)
  case (1 der)
  show ?case
  proof (cases "der = []")
    case True
    obtain line c1 where r: "io_readline io c = Some (length (pem_footer lab), line, c1)" "c_str line = pem_footer lab" "ok c1" "typed c1 ls"
      using 1(2,3) True by (auto elim: readline_obtain)
    show ?thesis
    proof (cases "len + length lab + 15 < 2048")
      case fits: True
      then show ?thesis using True r 1(4,5) end_found [OF r(2) lab(2,3) fits, of B io buf c1] by (subst pem_loop.simps) simp
    next
      case False
      obtain c2 where "io_print io (''Error: Out of memory to store the given PEM file.'' @ crlf) c1 = Some c2" "ok c2"
        using r(3) by (rule print_obtain)
      then show ?thesis using True False r(1) 1(5) lab by (subst pem_loop.simps) (simp add: pem_line_def)
    qed
  next
    case False
    obtain enc where t: "length enc = base64_length (min 48 (length der))" "enc \<noteq> []" "length enc \<le> 64" "list_all base64_char enc"
      "\<And>m. min 48 (length der) \<le> m \<Longrightarrow> mbedtls_base64_decode B m enc = Some (take 48 der)"
      "pem_lines B der = enc # pem_lines B (drop 48 der)"
      using spec False by (rule pem_line_text) blast
    obtain line c1 where r: "io_readline io c = Some (length enc, line, c1)" "c_str line = enc" "ok c1"
      "typed c1 (pem_lines B (drop 48 der) @ pem_footer lab # ls)"
      using 1(2,3) t(6) by (auto elim: readline_obtain)
    have b: "min 48 (length der) \<le> length enc" "length enc \<le> min 48 (length der) + 18"
      unfolding t(1) using base64_length_bounds(1,3) [of "min 48 (length der)"] by simp_all
    show ?thesis
    proof (cases "len + length enc + 1 < 2048")
      case True
      have "pem_line B io True buf len (length enc) line c1 =
          Some (PemMore True (overwrite len (take 48 der) buf) (len + length (take 48 der)), c1)"
      proof (rule body_line [OF r(2) t(4) _ t(3) True])
        show "enc \<noteq> []" by (rule t(2))
        show "mbedtls_base64_decode B (2048 - len) enc = Some (take 48 der)" using True b by (intro t(5)) linarith
        show "length (take 48 der) \<le> length enc" using b(1) by (simp only: length_take min.commute)
      qed (rule 1(4))
      then have step: "pem_loop B io True buf len c = pem_loop B io True (overwrite len (take 48 der) buf) (len + length (take 48 der)) c1"
        using r(1) 1(5) by (subst pem_loop.simps) simp
      have len: "len + length (take 48 der) < 2048" using True b by simp
      have sum: "len + length (take 48 der) + length (drop 48 der) = len + length der" by simp
      have "length (drop 48 der) < length der" using False by simp
      from 1(1) [rule_format, OF this r(3,4), of "overwrite len (take 48 der) buf", OF _ len]
      show ?thesis unfolding step sum using 1(4) len take_overwrite_end [of len "take 48 der" buf] by auto
    next
      case no: False
      obtain c2 where "io_print io (''Error: Out of memory to store the given PEM file.'' @ crlf) c1 = Some c2" "ok c2"
        using r(3) by (rule print_obtain)
      moreover have "\<not> len + length der + length lab + 15 < 2048" using no b(2) lab(1) min.cobounded2 [of 48 "length der"] by linarith
      ultimately show ?thesis using no r(1) 1(5) t(2,3) by (subst pem_loop.simps) (simp add: pem_line_def)
    qed
  qed
qed

text \<open>The whole text: it is read exactly when it fits.\<close>

lemma read_pem:
  assumes "base64_spec B" "4 \<le> length lab" "length lab < 48" "c_string lab" "ok c"
    and "typed c (pem_header lab # pem_lines B der @ pem_footer lab # ls)" "calloc_ok E (live w) 2048"
  shows "\<exists>r c' w'. xReadPemFromCliAsDer B io E c w = Some (r, c', w') \<and> ok c' \<and>
    (if length der + length lab + 15 < 2048
     then \<exists>buf. r = Some (buf, length der) \<and> take (length der) buf = der \<and> w' = w\<lparr>live := live w + 1\<rparr> \<and> typed c' ls
     else \<exists>x. r = None \<and> live w' = live w \<and> freed w' = freed w @ [x])"
proof -
  obtain line c1 where r: "io_readline io c = Some (length (pem_header lab), line, c1)" "c_str line = pem_header lab" "ok c1"
    "typed c1 (pem_lines B der @ pem_footer lab # ls)"
    using assms(5,6) by (auto elim: readline_obtain)
  have "pem_loop B io False (replicate 2048 0) 0 c = pem_loop B io True (replicate 2048 0) 0 c1"
    using r(1) begin_found [OF r(2) assms(3,4), of 0 B io "replicate 2048 0" c1] assms(3) by (subst pem_loop.simps) simp
  moreover obtain buf len c2 where "pem_loop B io True (replicate 2048 0) 0 c1 = Some (\<not> length der + length lab + 15 < 2048, buf, len, c2)" "ok c2"
    "length der + length lab + 15 < 2048 \<longrightarrow> len = length der \<and> take len buf = der \<and> typed c2 ls"
    using pem_loop_body [OF assms(1,2) _ assms(4) r(3,4), of "replicate 2048 0" 0] assms(3) by auto
  ultimately show ?thesis using assms(7)
    by (cases "length der + length lab + 15 < 2048") (auto simp add: xReadPemFromCliAsDer_def mbedtls_free_def)
qed

end

end
