(* ===== verification/CliPemSpec.thy ===== *)
theory CliPemSpec
  imports CliPem PkiObject
begin

text \<open>
  A printed PEM text is read back; and a base64 codec, which shows that \<open>base64_spec\<close> can hold.
\<close>

lemma pem_marks:
  assumes "list_all printable lab"
  shows "c_string lab" "c_string (pem_header lab @ crlf)" "c_string (pem_footer lab @ crlf)"
  using printable_line [OF assms] by (simp_all add: pem_header_def pem_footer_def)

lemma pem_printed:
  assumes "base64_spec B" "stream_spec ops sent room" "length (pcInputBuffer c) = 128" "list_all printable lab"
  obtains c' keys' where "vPrintDer B (xConsoleIO ops) (pem_header lab @ crlf) (pem_footer lab @ crlf) der (c, keys) = Some (c', keys')"
    "sent (xUartTxStream c') = sent (xUartTxStream c) @ pem_text (pem_header lab # pem_lines B der @ [pem_footer lab])"
proof -
  have ok: "case (c, keys) of (c, keys) \<Rightarrow> stream_spec ops sent room \<and> length (pcInputBuffer c) = 128" using assms(2,3) by simp
  show ?thesis
    by (rule uart.vPrintDer_ok [OF assms(1) ok pem_marks(2,3) [OF assms(4)], of der]) (case_tac c', rule that, auto)
qed

lemma pem_read_back:
  assumes "base64_spec B" "stream_spec ops sent room" "length (pcInputBuffer d) = 128" "calloc_ok E (live w) PEM_CERT_MAX_LEN"
    and lab: "list_all printable lab" "4 \<le> length lab" "length lab < 48"
  obtains r d' keys' w' where
    "xReadPemFromCliAsDer B (xConsoleIO ops) E (d, map Some (pem_text (pem_header lab # pem_lines B der @ [pem_footer lab]))) w = Some (r, (d', keys'), w')"
    "length (pcInputBuffer d') = 128"
    "if length der + length lab + 15 < PEM_CERT_MAX_LEN
     then \<exists>buf. r = Some (buf, length der) \<and> take (length der) buf = der \<and> w' = w\<lparr>live := live w + 1\<rparr>
     else r = None \<and> live w' = live w"
proof -
  let ?ls = "pem_header lab # pem_lines B der @ [pem_footer lab]"
  have "list_all line_ok ?ls"
    using pem_lines_ok [OF assms(1)] lab by (auto simp: line_ok_def pem_header_def pem_footer_def printable_def ends_line_def erases_def)
  then have ty: "typed_lines (map Some (pem_text ?ls)) ?ls" using typed_printed [of ?ls "[]"] by (simp only: pem_text_def append_Nil2)
  have d: "case (d, map Some (pem_text ?ls)) of (c, keys) \<Rightarrow> stream_spec ops sent room \<and> length (pcInputBuffer c) = 128"
    using assms(2,3) by simp
  have ty2: "(case (d, map Some (pem_text ?ls)) of (c, keys) \<Rightarrow> typed_lines keys) ?ls" using ty by (simp only: prod.case)
  from uart.read_pem [OF assms(1) lab(2,3) pem_marks(1) [OF lab(1)] d ty2 assms(4)] obtain r d' w' where
    rd: "xReadPemFromCliAsDer B (xConsoleIO ops) E (d, map Some (pem_text ?ls)) w = Some (r, d', w')"
      "case d' of (c, keys) \<Rightarrow> stream_spec ops sent room \<and> length (pcInputBuffer c) = 128"
    and how: "if length der + length lab + 15 < 2048
      then \<exists>buf. r = Some (buf, length der) \<and> take (length der) buf = der \<and> w' = w\<lparr>live := live w + 1\<rparr> \<and> (case d' of (c, keys) \<Rightarrow> typed_lines keys) []
      else \<exists>x. r = None \<and> live w' = live w \<and> freed w' = freed w @ [x]"
    by blast
  have "if length der + length lab + 15 < 2048 then \<exists>buf. r = Some (buf, length der) \<and> take (length der) buf = der \<and> w' = w\<lparr>live := live w + 1\<rparr>
     else r = None \<and> live w' = live w"
    using how by (simp split: if_splits) blast
  with rd show ?thesis by (cases d') (rule that [of r _ _ w'], auto)
qed


text \<open>A codec: three bytes become four characters, the last group is filled up with equals signs.\<close>

definition base64_alphabet :: string where
  "base64_alphabet = ''ABCDEFGHIJKLMNOPQRSTUVWXYZabcdefghijklmnopqrstuvwxyz0123456789+/''"

definition sextet :: "nat \<Rightarrow> char" where
  "sextet n = base64_alphabet ! (n mod 64)"

definition sextet_value :: "char \<Rightarrow> nat" where
  "sextet_value c = length (takeWhile (\<lambda>x. x \<noteq> c) base64_alphabet)"

definition pad :: char where "pad = CHR ''=''"

fun encode_groups :: "byte list \<Rightarrow> string" where
  "encode_groups [] = []"
| "encode_groups [a] = [sextet (unat a div 4), sextet (unat a mod 4 * 16), pad, pad]"
| "encode_groups [a, b] = [sextet (unat a div 4), sextet (unat a mod 4 * 16 + unat b div 16), sextet (unat b mod 16 * 4), pad]"
| "encode_groups (a # b # c # bs) =
     sextet (unat a div 4) # sextet (unat a mod 4 * 16 + unat b div 16) # sextet (unat b mod 16 * 4 + unat c div 64) #
     sextet (unat c mod 64) # encode_groups bs"

definition octet :: "nat \<Rightarrow> byte" where
  "octet n = word_of_nat (n mod 256)"

definition first_octet :: "char \<Rightarrow> char \<Rightarrow> byte" where
  "first_octet p q = octet (sextet_value p * 4 + sextet_value q div 16)"

definition second_octet :: "char \<Rightarrow> char \<Rightarrow> byte" where
  "second_octet q r = octet (sextet_value q * 16 + sextet_value r div 4)"

definition third_octet :: "char \<Rightarrow> char \<Rightarrow> byte" where
  "third_octet r s = octet (sextet_value r * 64 + sextet_value s)"

fun decode_groups :: "string \<Rightarrow> byte list option" where
  "decode_groups [] = Some []"
| "decode_groups (p # q # r # s # cs) = do {
     rest \<leftarrow> decode_groups cs;
     Some (if r = pad then [first_octet p q] else if s = pad then [first_octet p q, second_octet q r]
           else first_octet p q # second_octet q r # third_octet r s # rest)
   }"
| "decode_groups _ = None"

definition ex_base64 :: base64 where
  "ex_base64 =
     \<lparr>mbedtls_base64_encode = \<lambda>n bs. if base64_length (length bs) < n then Some (encode_groups bs) else None,
      mbedtls_base64_decode = \<lambda>n cs. (case decode_groups cs of Some bs \<Rightarrow> if length bs \<le> n then Some bs else None | None \<Rightarrow> None)\<rparr>"

lemma length_alphabet [simp]: "length base64_alphabet = 64"
  by (simp add: base64_alphabet_def)

lemma distinct_alphabet: "distinct base64_alphabet"
  by (simp add: base64_alphabet_def)

lemma takeWhile_nth_distinct: "distinct xs \<Longrightarrow> i < length xs \<Longrightarrow> length (takeWhile (\<lambda>x. x \<noteq> xs ! i) xs) = i"
proof (induction xs arbitrary: i)
  case (Cons x xs)
  then show ?case by (cases i) auto
qed simp

lemma sextet_value [simp]: "n < 64 \<Longrightarrow> sextet_value (sextet n) = n"
  using takeWhile_nth_distinct [OF distinct_alphabet, of n] by (simp add: sextet_def sextet_value_def)

lemma sextet_char [simp]: "base64_char (sextet n)"
proof -
  have "base64_alphabet ! (n mod 64) \<in> set base64_alphabet" by (intro nth_mem) simp
  then show ?thesis by (auto simp: sextet_def base64_char_def base64_alphabet_def)
qed

lemma sextet_not_pad [simp]: "sextet n \<noteq> pad"
proof -
  have "base64_alphabet ! (n mod 64) \<in> set base64_alphabet" by (intro nth_mem) simp
  moreover have "pad \<notin> set base64_alphabet" by (simp add: base64_alphabet_def pad_def)
  ultimately show ?thesis by (metis sextet_def)
qed

lemma pad_char [simp]: "base64_char pad"
  by (simp add: base64_char_def pad_def)

lemma octet_eq [simp]: "n mod 256 = unat b \<Longrightarrow> octet n = b"
  by (simp add: octet_def)

lemma unat_byte: "unat (b :: byte) < 256"
  using unsigned_less [where ?'a = nat, of b] by simp

lemma first_octet [simp]: "m < 16 \<Longrightarrow> first_octet (sextet (unat a div 4)) (sextet (unat a mod 4 * 16 + m)) = a"
  using unat_byte [of a] by (simp add: first_octet_def)

lemma second_octet [simp]: "m < 4 \<Longrightarrow> k < 4 \<Longrightarrow> second_octet (sextet (k * 16 + unat b div 16)) (sextet (unat b mod 16 * 4 + m)) = b"
  using unat_byte [of b] by (simp add: second_octet_def)

lemma third_octet [simp]: "k < 16 \<Longrightarrow> third_octet (sextet (k * 4 + unat c div 64)) (sextet (unat c mod 64)) = c"
  using unat_byte [of c] by (simp add: third_octet_def)

lemma byte_parts [simp]: "unat (b :: byte) div 16 < 16" "unat (b :: byte) div 64 < 4"
  using unat_byte [of b] by simp_all

lemma decode_encode: "decode_groups (encode_groups bs) = Some bs"
  using first_octet [of 0] second_octet [of 0]
  by (induction bs rule: encode_groups.induct) simp_all

lemma length_encode: "length (encode_groups bs) = base64_length (length bs)"
  by (induction bs rule: encode_groups.induct) (simp_all add: base64_length_def, presburger)

lemma encode_chars: "list_all base64_char (encode_groups bs)"
  by (induction bs rule: encode_groups.induct) simp_all

lemma length_decode: "decode_groups cs = Some bs \<Longrightarrow> length bs \<le> length cs"
  by (induction cs arbitrary: bs rule: decode_groups.induct) (auto simp: Let_def split: bind_splits)

lemma ex_base64_spec: "base64_spec ex_base64"
  by (auto simp: base64_spec_def ex_base64_def length_encode encode_chars decode_encode split: option.splits if_splits dest: length_decode)


end
