(* ===== verification/CliPki.thy ===== *)
theory CliPki
  imports CliPemSpec AgentConfig
begin

text \<open>
  The \<open>pki\<close> command (\<open>source/cli/cli_pki.c\<close>): keys, signing requests and certificates are generated, imported
  and exported as PEM text on the console. The objects are those of \<open>PkiObject\<close>, the thing name comes from the
  key/value store. The functions of Mbed TLS that build requests and certificates are the record \<open>x509_ops\<close>.
  An argument of the command is the memory from its first character on, with whatever follows its terminator.
  The blocks that belong to the contexts of Mbed TLS are not followed.
\<close>

abbreviation (input) LABEL_PUB_IDX :: nat where "LABEL_PUB_IDX \<equiv> 3"
abbreviation (input) LABEL_PRV_IDX :: nat where "LABEL_PRV_IDX \<equiv> 4"
abbreviation (input) LABEL_IDX :: nat where "LABEL_IDX \<equiv> LABEL_PUB_IDX"
abbreviation (input) CSR_BUFFER_LEN :: nat where "CSR_BUFFER_LEN \<equiv> 2048"

text \<open>Results of Mbed TLS are integers here: negative for an error. The functions that write DER give the length
  and the buffer, with the bytes at its end.\<close>

record 'k x509_ops =
  csr_set_subject_name :: "byte list \<Rightarrow> int"
  csr_set_key_usage :: int
  csr_set_ns_cert_type :: int
  csr_der :: "byte list \<Rightarrow> 'k option \<Rightarrow> int \<times> byte list"
  crt_set_ns_cert_type :: int
  mpi_fill_random :: int
  crt_set_serial :: int
  crt_set_validity :: int
  crt_set_subject_name :: "byte list \<Rightarrow> int"
  crt_set_issuer_name :: "byte list \<Rightarrow> int"
  crt_set_basic_constraints :: int
  crt_set_subject_key_identifier :: int
  crt_set_authority_key_identifier :: int
  crt_set_key_usage :: int
  crt_der :: "byte list \<Rightarrow> 'k option \<Rightarrow> int \<times> byte list"

text \<open>What all parts of the command use: the codec, the console, the labels, the storage and key services, the longest
  label, the X.509 functions, and the getters of the key/value store with the heap they are used with.\<close>

record ('c, 's, 'k) pki_env =
  codec :: base64
  console :: "'c ConsoleIO_t"
  labels :: pki_config
  store :: "'s psa_env"
  crypto :: "('s, 'k) pki_crypto"
  configTLS_MAX_LABEL_LEN :: nat
  x509 :: "'k x509_ops"
  kv_size :: "KVStoreKey_t \<Rightarrow> nat option"
  kv_string :: "KVStoreKey_t \<Rightarrow> byte list option \<Rightarrow> nat \<Rightarrow> (nat \<times> byte list option) option"
  pvPortMalloc :: "nat \<Rightarrow> byte list option"

text \<open>Steps that are skipped after the first negative result.\<close>

fun run_steps :: "int \<Rightarrow> int list \<Rightarrow> int" where
  "run_steps lError [] = lError"
| "run_steps lError (e # es) = (if lError \<ge> 0 then run_steps e es else lError)"

definition label_arg :: "nat \<Rightarrow> string list \<Rightarrow> string \<Rightarrow> string" where
  "label_arg i ppcArgv dflt = (if length ppcArgv > i then ppcArgv ! i else dflt @ [NUL])"

text \<open>A block for the DER text: whether there is one, and the heap with it.\<close>

definition der_block :: "'s psa_env \<Rightarrow> 's psa_world \<Rightarrow> bool \<times> 's psa_world" where
  "der_block E w = (if calloc_ok E (live w) CSR_BUFFER_LEN then (True, w\<lparr>live := live w + 1\<rparr>) else (False, w))"

definition free_block :: "bool \<Rightarrow> byte list \<Rightarrow> 's psa_world \<Rightarrow> 's psa_world" where
  "free_block have contents w = (if have then mbedtls_free contents w else w)"

text \<open>The subject name: \<open>CN=\<close> and the thing name behind it, in a block of the size of both.\<close>

definition subject_name_prefix :: "byte list" where
  "subject_name_prefix = map byte_of ''CN=''"

definition subject_name :: "('c, 's, 'k) pki_env \<Rightarrow> nat \<Rightarrow> byte list option option" where
  "subject_name P xSubjectNameLen =
     (case pvPortMalloc P xSubjectNameLen of
        None \<Rightarrow> Some None
      | Some pcSubjectName \<Rightarrow> do {
          pcSubjectName \<leftarrow> (if xSubjectNameLen = 0 then Some pcSubjectName
            else mem_write 0 (take (xSubjectNameLen - 1) subject_name_prefix @ [0]) pcSubjectName);
          (n, rest) \<leftarrow> kv_string P CS_CORE_THING_NAME (Some (drop 3 pcSubjectName)) (u32_sub xSubjectNameLen 3);
          Some (Some (take 3 pcSubjectName @ (case rest of Some b \<Rightarrow> b | None \<Rightarrow> [])))
        })"

text \<open>DER text that was written to the end of its buffer is moved to the front.\<close>

definition written_der :: "int \<times> byte list \<Rightarrow> (int \<times> byte list) option" where
  "written_der r =
     (case r of (lError, buf) \<Rightarrow>
        if lError > 0
        then do { configASSERT (int CSR_BUFFER_LEN > lError); Some (0, drop (CSR_BUFFER_LEN - nat lError) buf) }
        else Some (lError, []))"

subsection \<open>Generating\<close>

text \<open>A request is written whether or not there is a block for it, and a subject name that could not be allocated
  is used: both run into NULL.\<close>

definition csr_steps :: "('c, 's, 'k) pki_env \<Rightarrow> bool \<Rightarrow> 'k option \<Rightarrow> (int \<times> byte list) option" where
  "csr_steps P have key = do {
     n \<leftarrow> kv_size P CS_CORE_THING_NAME;
     pcSubjectName \<leftarrow> subject_name P (n + 3);
     name \<leftarrow> pcSubjectName;
     let lError = run_steps 0 [csr_set_subject_name (x509 P) name, csr_set_key_usage (x509 P), csr_set_ns_cert_type (x509 P)];
     if lError \<ge> 0 then do { configASSERT have; written_der (csr_der (x509 P) name key) }
     else Some (lError, [])
   }"

definition vSubCommand_GenerateCsr ::
  "('c, 's, 'k) pki_env \<Rightarrow> string list \<Rightarrow> 'c \<Rightarrow> 's psa_world \<Rightarrow> ('c \<times> 's psa_world) option" where
  "vSubCommand_GenerateCsr P ppcArgv c w = do {
     let pcPrvKeyLabel = label_arg LABEL_IDX ppcArgv (TLS_KEY_PRV_LABEL (labels P));
     let xPrvKeyObj = xPkiObjectFromLabel (labels P) (Some pcPrvKeyLabel);
     let (have, w) = der_block (store P) w;
     (xStatus, key, w) \<leftarrow> xPkiReadPrivateKey (store P) (crypto P) xPrvKeyObj w;
     (lError, der) \<leftarrow> (if xStatus = PKI_SUCCESS then csr_steps P have key else Some (- 1, []));
     c \<leftarrow> (if lError \<ge> 0 \<and> der \<noteq> [] \<and> have
       then vPrintDer (codec P) (console P) (pem_header ''CERTIFICATE REQUEST'' @ crlf) (pem_footer ''CERTIFICATE REQUEST'' @ crlf) der c
       else Some c);
     Some (c, free_block have der w)
   }"

definition crt_steps :: "('c, 's, 'k) pki_env \<Rightarrow> bool \<Rightarrow> 'k option \<Rightarrow> (int \<times> byte list) option" where
  "crt_steps P have key =
     (let lError = run_steps 0 [crt_set_ns_cert_type (x509 P), mpi_fill_random (x509 P), crt_set_serial (x509 P), crt_set_validity (x509 P)] in
      if lError < 0 then Some (lError, [])
      else do {
        n \<leftarrow> kv_size P CS_CORE_THING_NAME;
        pcSubjectName \<leftarrow> (if n + 3 > 3 then subject_name P (n + 3) else Some None);
        (case pcSubjectName of
           None \<Rightarrow> Some (- 1, [])
         | Some name \<Rightarrow>
             let lError = run_steps lError [crt_set_subject_name (x509 P) name, crt_set_issuer_name (x509 P) name,
               crt_set_basic_constraints (x509 P), crt_set_subject_key_identifier (x509 P),
               crt_set_authority_key_identifier (x509 P), crt_set_key_usage (x509 P)] in
             if lError \<ge> 0 then do { configASSERT have; written_der (crt_der (x509 P) name key) }
             else Some (lError, []))
      })"

definition x509_failed :: "mbedtls_err \<Rightarrow> bool" where
  "x509_failed e \<longleftrightarrow> e \<noteq> MBEDTLS_OK \<and> (\<forall>n. e \<noteq> MBEDTLS_POSITIVE n)"

text \<open>The new certificate is parsed in its own block, stored, and printed whatever became of storing it. The block is
  freed with the context only when it could be parsed.\<close>

definition vSubCommand_GenerateCertificate ::
  "('c, 's, 'k) pki_env \<Rightarrow> string list \<Rightarrow> 'c \<Rightarrow> 's psa_world \<Rightarrow> ('c \<times> 's psa_world) option" where
  "vSubCommand_GenerateCertificate P ppcArgv c w = do {
     let pcCertLabel = label_arg LABEL_IDX ppcArgv (TLS_CERT_LABEL (labels P));
     let pcPrvKeyLabel = label_arg LABEL_PRV_IDX ppcArgv (TLS_KEY_PRV_LABEL (labels P));
     let (have, w) = der_block (store P) w;
     let xPrvKeyObject = xPkiObjectFromLabel (labels P) (Some pcPrvKeyLabel);
     (xResult, key, w) \<leftarrow> xPkiReadPrivateKey (store P) (crypto P) xPrvKeyObject w;
     (lError, der) \<leftarrow> (if xResult = PKI_SUCCESS then crt_steps P have key else Some (0, []));
     (if lError \<ge> 0 \<and> der \<noteq> [] \<and> have
      then (case mbedtls_x509_crt_parse_der (store P) der of
              (e, certs) \<Rightarrow>
                if x509_failed e then Some (c, w)
                else do {
                  (xResult, w) \<leftarrow> xPkiWriteCertificate (labels P) (store P) (crypto P) (Some pcCertLabel) (concat (take 1 certs)) w;
                  c \<leftarrow> vPrintDer (codec P) (console P) (pem_header ''CERTIFICATE'' @ crlf) (pem_footer ''CERTIFICATE'' @ crlf) der c;
                  Some (c, mbedtls_free der w)
                })
      else Some (c, free_block have der w))
   }"

text \<open>The name of the public key is written with the length of the name of the private key.\<close>

definition vSubCommand_GenerateKey ::
  "('c, 's, 'k) pki_env \<Rightarrow> string list \<Rightarrow> 'c \<Rightarrow> 's psa_world \<Rightarrow> ('c \<times> 's psa_world) option" where
  "vSubCommand_GenerateKey P ppcArgv c w = do {
     let (pcPrvKeyLabel, pcPubKeyLabel) =
       (if length ppcArgv > LABEL_PRV_IDX then (ppcArgv ! LABEL_PRV_IDX, ppcArgv ! LABEL_PUB_IDX)
        else (TLS_KEY_PRV_LABEL (labels P) @ [NUL], TLS_KEY_PUB_LABEL (labels P) @ [NUL]));
     let n = strnlen pcPrvKeyLabel (configTLS_MAX_LABEL_LEN P);
     (xStatus, pucPublicKeyDer, w) \<leftarrow> xPkiGenerateECKeypair (labels P) (crypto P) (Some pcPrvKeyLabel) (Some pcPubKeyLabel) w;
     c \<leftarrow> (if xStatus = PKI_SUCCESS then do {
         c \<leftarrow> io_print (console P) (''SUCCESS: Key pair generated and stored in'' @ crlf) c;
         c \<leftarrow> io_print (console P) ''Private Key Label: '' c;
         prv \<leftarrow> mem_read 0 n pcPrvKeyLabel;
         c \<leftarrow> io_write (console P) prv c;
         c \<leftarrow> io_print (console P) (crlf @ ''Public Key Label: '') c;
         pub \<leftarrow> mem_read 0 n pcPubKeyLabel;
         c \<leftarrow> io_write (console P) pub c;
         io_print (console P) crlf c
       }
       else io_print (console P) (''ERROR: Failed to generate public/private key pair.'' @ crlf) c);
     (case pucPublicKeyDer of
        None \<Rightarrow> Some (c, w)
      | Some der \<Rightarrow> do {
          c \<leftarrow> (if der \<noteq> []
            then vPrintDer (codec P) (console P) (pem_header ''PUBLIC KEY'' @ crlf) (pem_footer ''PUBLIC KEY'' @ crlf) der c
            else Some c);
          Some (c, mbedtls_free der w)
        })
   }"

subsection \<open>Importing\<close>

text \<open>\<open>strncpy\<close> into the buffer of a label, which a label that is too long fills without a terminator. Its length is
  then taken with \<open>strnlen\<close>, which never gives more than its limit.\<close>

definition label_buffer :: "nat \<Rightarrow> string \<Rightarrow> string" where
  "label_buffer n s = take (n + 1) (c_str s @ replicate (n + 1) NUL)"

text \<open>Printing a label from its buffer runs on behind the buffer when there is no terminator.\<close>

definition print_label :: "'c ConsoleIO_t \<Rightarrow> string \<Rightarrow> 'c \<Rightarrow> 'c option" where
  "print_label io label c = do { configASSERT (NUL \<in> set label); io_print io label c }"

definition label_message :: "'c ConsoleIO_t \<Rightarrow> string \<Rightarrow> string \<Rightarrow> string \<Rightarrow> 'c \<Rightarrow> 'c option" where
  "label_message io before label after c = do {
     c \<leftarrow> io_print io before c;
     c \<leftarrow> print_label io label c;
     io_print io after c
   }"

text \<open>An empty text fails the assertion. The result is the certificate that was parsed.\<close>

definition xReadPemFromCliToX509Crt ::
  "('c, 's, 'k) pki_env \<Rightarrow> 'c \<Rightarrow> 's psa_world \<Rightarrow> (byte list option \<times> 'c \<times> 's psa_world) option" where
  "xReadPemFromCliToX509Crt P c w = do {
     (r, c, w) \<leftarrow> xReadPemFromCliAsDer (codec P) (console P) (store P) c w;
     (case r of
        None \<Rightarrow> Some (None, c, w)
      | Some (buf, uxDerDataLen) \<Rightarrow> do {
          configASSERT (uxDerDataLen > 0);
          (case mbedtls_x509_crt_parse_der (store P) (take uxDerDataLen buf) of
             (e, certs) \<Rightarrow>
               Some (if x509_failed e then (None, c, mbedtls_free buf w) else (Some (concat (take 1 certs)), c, w)))
        })
   }"

definition vSubCommand_ImportCertificate ::
  "('c, 's, 'k) pki_env \<Rightarrow> string list \<Rightarrow> 'c \<Rightarrow> 's psa_world \<Rightarrow> ('c \<times> 's psa_world) option" where
  "vSubCommand_ImportCertificate P ppcArgv c w = do {
     let n = configTLS_MAX_LABEL_LEN P;
     let pcCertLabel = label_buffer n (label_arg LABEL_IDX ppcArgv (TLS_CERT_LABEL (labels P)));
     if strnlen pcCertLabel n > n
     then do {
       c \<leftarrow> label_message (console P) (''Error: Certificate label: '' @ [CHR 39]) pcCertLabel
         ([CHR 39] @ '' is longer than the configured maximum length.'' @ crlf) c;
       Some (c, w)
     }
     else do {
       (r, c, w) \<leftarrow> xReadPemFromCliToX509Crt P c w;
       (case r of
          None \<Rightarrow> Some (c, w)
        | Some raw \<Rightarrow> do {
            (xStatus, w) \<leftarrow> xPkiWriteCertificate (labels P) (store P) (crypto P) (Some pcCertLabel) raw w;
            c \<leftarrow> label_message (console P)
              (if xStatus = PKI_SUCCESS then ''Success: Certificate loaded to label: '' @ [CHR 39]
               else ''Error: failed to save certificate to label: '' @ [CHR 39]) pcCertLabel ([CHR 39] @ ''.'' @ crlf) c;
            Some (c, w)
          })
     }
   }"

definition vSubCommand_ImportPubKey ::
  "('c, 's, 'k) pki_env \<Rightarrow> string list \<Rightarrow> 'c \<Rightarrow> 's psa_world \<Rightarrow> ('c \<times> 's psa_world) option" where
  "vSubCommand_ImportPubKey P ppcArgv c w = do {
     let n = configTLS_MAX_LABEL_LEN P;
     let pcPubKeyLabel = label_buffer n (label_arg LABEL_IDX ppcArgv (OTA_SIGNING_KEY_LABEL (labels P)));
     if strnlen pcPubKeyLabel n > n
     then do {
       c \<leftarrow> label_message (console P) (''Error: Public Key label: '' @ [CHR 39]) pcPubKeyLabel
         ([CHR 39] @ '' is longer than the configured maximum length.'' @ crlf) c;
       Some (c, w)
     }
     else do {
       (r, c, w) \<leftarrow> xReadPemFromCliAsDer (codec P) (console P) (store P) c w;
       (case r of
          None \<Rightarrow> Some (c, w)
        | Some (buf, uxDerDataLen) \<Rightarrow> do {
            let der = take uxDerDataLen buf;
            (c, w) \<leftarrow> (case mbedtls_pk_parse_public_key (crypto P) der of
              (MBEDTLS_OK, Some key) \<Rightarrow> do {
                (xStatus, w) \<leftarrow> xPkiWritePubKey (labels P) (store P) (crypto P) (Some pcPubKeyLabel) der key w;
                c \<leftarrow> label_message (console P)
                  (if xStatus = PKI_SUCCESS then ''Success: Public Key loaded to label: '' @ [CHR 39]
                   else ''Error: failed to save public key to label: '' @ [CHR 39]) pcPubKeyLabel ([CHR 39] @ ''.'' @ crlf) c;
                Some (c, w)
              }
            | _ \<Rightarrow> do { c \<leftarrow> io_print (console P) ''ERROR: Failed to parse public key.'' c; Some (c, w) });
            Some (c, mbedtls_free buf w)
          })
     }
   }"

subsection \<open>Exporting\<close>

definition vSubCommand_ExportCertificate ::
  "('c, 's, 'k) pki_env \<Rightarrow> string list \<Rightarrow> 'c \<Rightarrow> 's psa_world \<Rightarrow> ('c \<times> 's psa_world) option" where
  "vSubCommand_ExportCertificate P ppcArgv c w = do {
     let pcCertLabel = label_arg LABEL_IDX ppcArgv (TLS_CERT_LABEL (labels P));
     (xStatus, chain, w) \<leftarrow> xPkiReadCertificate (store P) (crypto P) (xPkiObjectFromLabel (labels P) (Some pcCertLabel)) [] w;
     c \<leftarrow> (if xStatus = PKI_SUCCESS
       then vPrintDer (codec P) (console P) (pem_header ''CERTIFICATE'' @ crlf) (pem_footer ''CERTIFICATE'' @ crlf) (concat (take 1 chain)) c
       else Some c);
     Some (c, w)
   }"

definition vSubCommand_ExportKey ::
  "('c, 's, 'k) pki_env \<Rightarrow> string list \<Rightarrow> 'c \<Rightarrow> 's psa_world \<Rightarrow> ('c \<times> 's psa_world) option" where
  "vSubCommand_ExportKey P ppcArgv c w = do {
     let pcPubKeyLabel = label_arg LABEL_IDX ppcArgv (TLS_KEY_PUB_LABEL (labels P));
     (xStatus, pucPublicKeyDer, w) \<leftarrow> xPkiReadPublicKeyDer (store P) (crypto P) (xPkiObjectFromLabel (labels P) (Some pcPubKeyLabel)) w;
     c \<leftarrow> io_print (console P) (if xStatus = PKI_SUCCESS then ''Public Key Label: ''
       else ''ERROR: Failed to locate public key with label: '' @ [CHR 39]) c;
     label \<leftarrow> mem_read 0 (strnlen pcPubKeyLabel (configTLS_MAX_LABEL_LEN P)) pcPubKeyLabel;
     c \<leftarrow> io_write (console P) label c;
     c \<leftarrow> io_print (console P) crlf c;
     (case pucPublicKeyDer of
        None \<Rightarrow> Some (c, w)
      | Some der \<Rightarrow>
          if der \<noteq> [] then do {
            c \<leftarrow> vPrintDer (codec P) (console P) (pem_header ''PUBLIC KEY'' @ crlf) (pem_footer ''PUBLIC KEY'' @ crlf) der c;
            Some (c, mbedtls_free der w)
          }
          else Some (c, w))
   }"

subsection \<open>The command\<close>

definition xCommandDef_pki :: CLI_Command_Definition_t where
  "xCommandDef_pki = \<lparr>pcCommand = ''pki'', pcHelpString =
     ''pki:'' @ crlf @
     ''    Perform public/private key operations.'' @ crlf @
     ''    Usage:'' @ crlf @
     ''    pki <verb> <object> <args>'' @ crlf @
     ''        Valid verbs are { generate, import, export, list }'' @ crlf @
     ''        Valid object types are { key, csr, cert }'' @ crlf @
     ''        Arguments should be specified in --<arg_name> <value>'' @ crlf @ [CHR 0x0A] @
     ''    pki generate key <label_public> <label_private> <algorithm> <algorithm_param>'' @ crlf @
     ''        Generates a new private key to be stored in the specified labels'' @ crlf @ [CHR 0x0A] @
     ''    pki generate csr <label>'' @ crlf @
     ''        Generates a new Certificate Signing Request using the private key'' @ crlf @
     ''        with the specified label.'' @ crlf @
     ''        If no label is specified, the default tls private key is used.'' @ crlf @ [CHR 0x0A] @
     ''    pki generate cert <cert_label> <private_key_label>'' @ crlf @
     ''        Generate a new self-signed certificate'' @ crlf @ [CHR 0x0A] @
     ''    pki import cert <label>'' @ crlf @
     ''        Import a certificate into the given slot. The certificate should be '' @ crlf @
     ''        copied into the terminal in PEM format, ending with two blank lines.'' @ crlf @ [CHR 0x0A] @
     ''    pki export cert <label>'' @ crlf @
     ''        Export the certificate with the given label in pem format.'' @ crlf @
     ''        When no label is specified, the default certificate is exported.'' @ crlf @ [CHR 0x0A] @
     ''    pki import key <label>'' @ crlf @
     ''        Import a public key into the given slot. The key should be '' @ crlf @
     ''        copied into the terminal in PEM format, ending with two blank lines.'' @ crlf @ [CHR 0x0A] @
     ''    pki export key <label>'' @ crlf @
     ''        Export the public portion of the key with the specified label.'' @ crlf @ [CHR 0x0A]\<rparr>"

text \<open>What an object type that the verb does not know is answered.\<close>

definition invalid_object :: "string \<Rightarrow> string \<Rightarrow> 'c ConsoleIO_t \<Rightarrow> 'c \<Rightarrow> 'c option" where
  "invalid_object verb pcObject io c = do {
     c \<leftarrow> io_print io (''Error: Invalid object type: '' @ [CHR 39]) c;
     c \<leftarrow> io_print io pcObject c;
     io_print io ([CHR 39] @ '' specified for '' @ verb @ '' command.'' @ crlf) c
   }"

definition vCommand_PKI ::
  "('c, 's, 'k) pki_env \<Rightarrow> string list \<Rightarrow> 'c \<Rightarrow> 's psa_world \<Rightarrow> ('c \<times> 's psa_world) option" where
  "vCommand_PKI P ppcArgv c w =
     (let argc = length ppcArgv;
          verb = (\<lambda>v. argc > 1 \<and> strcmp_eq v (ppcArgv ! 1));
          object = (\<lambda>v. strcmp_eq v (ppcArgv ! 2));
          run = (\<lambda>f. do { (c, w) \<leftarrow> f P ppcArgv c w; Some (True, c, w) });
          invalid = (\<lambda>v. do { c \<leftarrow> invalid_object v (ppcArgv ! 2) (console P) c; Some (False, c, w) }) in
      do {
        (xSuccess, c, w) \<leftarrow>
          (if verb ''generate'' then
             if argc > 2 then
               if object ''key'' then run vSubCommand_GenerateKey
               else if object ''csr'' then run vSubCommand_GenerateCsr
               else if object ''cert'' then run vSubCommand_GenerateCertificate
               else invalid ''generate''
             else do {
               c \<leftarrow> io_print (console P) (''Error: Not enough arguments to '' @ [CHR 39] @ ''pki generate'' @ [CHR 39] @ '' command.'' @ crlf) c;
               Some (False, c, w)
             }
           else if verb ''import'' \<and> argc > 2 then
             if object ''key'' then run vSubCommand_ImportPubKey
             else if object ''cert'' then run vSubCommand_ImportCertificate
             else invalid ''import''
           else if verb ''export'' \<and> argc > 2 then
             if object ''key'' then run vSubCommand_ExportKey
             else if object ''cert'' then run vSubCommand_ExportCertificate
             else invalid ''import''
           else Some (False, c, w));
        (if xSuccess then Some (c, w)
         else do { c \<leftarrow> io_print (console P) (pcHelpString xCommandDef_pki) c; Some (c, w) })
      })"

end
