(* ===== verification/CliPkiSpec.thy ===== *)
theory CliPkiSpec
  imports CliPki
begin

text \<open>
  Certificates travel from one device to another as text, and a signing request names the device.
\<close>

subsection \<open>Labels\<close>

lemma label_buffer_short:
  assumes "c_string l" "length l \<le> n"
  shows "NUL \<in> set (label_buffer n l)" "c_str (label_buffer n l) = l" "\<not> n < strnlen (label_buffer n l) n"
proof -
  have b: "label_buffer n l = l @ replicate (n + 1 - length l) NUL" using assms by (simp add: label_buffer_def min_def del: replicate_Suc)
  then show "NUL \<in> set (label_buffer n l)" using assms(2) by simp
  have "replicate (n + 1 - length l) NUL = NUL # replicate (n - length l) NUL" using assms(2) by (simp add: Suc_diff_le)
  then show "c_str (label_buffer n l) = l" unfolding b using assms(1) by (simp add: c_str_NUL)
  show "\<not> n < strnlen (label_buffer n l) n" by (simp add: strnlen_def)
qed

text \<open>Whatever the label, the test for its length passes; a label that is too long has no terminator in its buffer, and
  nothing that prints it returns.\<close>

lemma label_length_never_refused: "\<not> n < strnlen s n"
  by (simp add: strnlen_def)

lemma label_too_long:
  assumes "n < length (c_str s)"
  shows "label_message io before (label_buffer n s) after c = None"
proof -
  have "label_buffer n s = take (n + 1) (c_str s)" using assms by (simp add: label_buffer_def)
  moreover have "NUL \<notin> set (c_str s)" using c_string_c_str [of s] by (simp add: c_string_def)
  ultimately have "NUL \<notin> set (label_buffer n s)" by (auto dest: in_set_takeD)
  then show ?thesis by (simp add: label_message_def print_label_def configASSERT_def)
qed

context console_io
begin

lemma label_message_ok:
  assumes "ok c" "NUL \<in> set label" "c_string before" "c_string after"
  obtains c' where "label_message io before label after c = Some c'" "ok c'" "sent_text c' = sent_text c @ before @ c_str label @ after"
proof -
  obtain c1 where c1: "io_print io before c = Some c1" "ok c1" "sent_text c1 = sent_text c @ c_str before"
    using assms(1) by (rule print_obtain)
  obtain c2 where c2: "io_print io label c1 = Some c2" "ok c2" "sent_text c2 = sent_text c1 @ c_str label"
    using c1(2) by (rule print_obtain)
  obtain c3 where "io_print io after c2 = Some c3" "ok c3" "sent_text c3 = sent_text c2 @ c_str after"
    using c2(2) by (rule print_obtain)
  then show ?thesis using that [of c3] c1 c2 assms(2-4) by (simp add: label_message_def print_label_def)
qed

end

lemma uart_label_message:
  assumes "stream_spec ops sent room" "length (pcInputBuffer c) = 128" "NUL \<in> set label" "c_string before" "c_string after"
  obtains c' keys' where "label_message (xConsoleIO ops) before label after (c, keys) = Some (c', keys')"
    "sent (xUartTxStream c') = sent (xUartTxStream c) @ before @ c_str label @ after"
proof -
  have ok: "case (c, keys) of (c, keys) \<Rightarrow> stream_spec ops sent room \<and> length (pcInputBuffer c) = 128" using assms(1,2) by simp
  show ?thesis by (rule uart.label_message_ok [OF ok assms(3-5)]) (case_tac c', rule that, auto)
qed

subsection \<open>Certificates\<close>

lemma object_of_buffer: "c_str a = c_str b \<Longrightarrow> xPkiObjectFromLabel cfg (Some a) = xPkiObjectFromLabel cfg (Some b)"
  by (simp add: xPkiObjectFromLabel_def strcmp_eq_def)

lemma command_export_cert:
  "vCommand_PKI P [''pki'', ''export'', ''cert'', l] c w = vSubCommand_ExportCertificate P [''pki'', ''export'', ''cert'', l] c w"
  by (simp add: vCommand_PKI_def strcmp_eq_def c_str_def Let_def bind_assoc case_prod_unfold)

lemma command_import_cert:
  "vCommand_PKI P [''pki'', ''import'', ''cert'', l] c w = vSubCommand_ImportCertificate P [''pki'', ''import'', ''cert'', l] c w"
  by (simp add: vCommand_PKI_def strcmp_eq_def c_str_def Let_def bind_assoc case_prod_unfold)

lemma write_certificate_ps:
  assumes "storage_spec (ps E) contents" "xPkiObjectFromLabel cfg (Some l) = OBJ_FORM_PSA_PS u"
  obtains st v where "xPkiWriteCertificate cfg E C (Some l) raw w = Some (st, v)"
    "st = PKI_SUCCESS \<longrightarrow> contents (ps_state v) u = Some raw"
proof -
  obtain e v where e: "lWriteCertificateToPsaPS E u raw w = (e, v)" by (cases "lWriteCertificateToPsaPS E u raw w")
  then show ?thesis using that [of "xPrvMbedtlsErrToPkiStatus e" v] assms write_ps_success(1) [OF assms(1) e]
    by (simp add: xPkiWriteCertificate_def)
qed

text \<open>
  C12. A certificate goes from one device to another as text: when the certificate of a label can be read on the
  first device and has at most 2021 bytes, \<open>pki export cert\<close> prints it, and \<open>pki import cert\<close> on the other, with
  this text typed in, ends with the success message only if exactly these bytes are stored under the label given
  there; otherwise it ends with the error message. Neither command fails an assertion or waits for more.
\<close>

theorem pki_certificate_travels:
  assumes codec: "base64_spec (codec P)" "codec Q = codec P"
    and c: "console P = xConsoleIO ops" "stream_spec ops sent room" "length (pcInputBuffer c) = 128"
    and d: "console Q = xConsoleIO ops'" "stream_spec ops' sent' room'" "length (pcInputBuffer d) = 128"
    and stored: "xPkiReadCertificate (store P) (crypto P) (xPkiObjectFromLabel (labels P) (Some l)) [] w = Some (PKI_SUCCESS, [raw], w1)"
    and raw: "raw \<noteq> []" "length raw \<le> 2021" "mbedtls_x509_crt_parse_der (store Q) raw = (MBEDTLS_OK, [raw])"
    and l': "c_string l'" "length l' \<le> configTLS_MAX_LABEL_LEN Q" "xPkiObjectFromLabel (labels Q) (Some l') = OBJ_FORM_PSA_PS u"
    and Q: "storage_spec (ps (store Q)) contents" "calloc_ok (store Q) (live v) PEM_CERT_MAX_LEN"
  shows "\<exists>c1 keys1 text d1 keys2 v1 before.
    vCommand_PKI P [''pki'', ''export'', ''cert'', l] (c, keys) w = Some ((c1, keys1), w1) \<and>
    sent (xUartTxStream c1) = sent (xUartTxStream c) @ text \<and>
    vCommand_PKI Q [''pki'', ''import'', ''cert'', l'] (d, map Some text) v = Some ((d1, keys2), v1) \<and>
    (sent' (xUartTxStream d1) = before @ ''Success: Certificate loaded to label: '' @ [CHR 39] @ l' @ [CHR 39] @ ''.'' @ crlf \<and>
       contents (ps_state v1) u = Some raw \<or>
     sent' (xUartTxStream d1) = before @ ''Error: failed to save certificate to label: '' @ [CHR 39] @ l' @ [CHR 39] @ ''.'' @ crlf)"
proof -
  let ?lab = "''CERTIFICATE''" and ?b = "label_buffer (configTLS_MAX_LABEL_LEN Q) l'"
  let ?ls = "pem_header ?lab # pem_lines (codec P) raw @ [pem_footer ?lab]"
  obtain c1 keys1 where pr: "vPrintDer (codec P) (xConsoleIO ops) (pem_header ?lab @ crlf) (pem_footer ?lab @ crlf) raw (c, keys) = Some (c1, keys1)"
    "sent (xUartTxStream c1) = sent (xUartTxStream c) @ pem_text ?ls"
    by (rule pem_printed [OF codec(1) c(2,3), of ?lab raw keys]) (simp_all add: printable_def ends_line_def erases_def)
  have ex: "vCommand_PKI P [''pki'', ''export'', ''cert'', l] (c, keys) w = Some ((c1, keys1), w1)"
    using stored pr(1) c(1) by (simp add: command_export_cert vSubCommand_ExportCertificate_def label_arg_def)
  have lab: "list_all printable ?lab" "4 \<le> length ?lab" "length ?lab < 48" by (simp_all add: printable_def ends_line_def erases_def)
  have fits: "(length raw + length ?lab + 15 < 2048) = True" using raw(2) by simp
  obtain buf d1 keys2 where rd: "xReadPemFromCliAsDer (codec P) (xConsoleIO ops') (store Q) (d, map Some (pem_text ?ls)) v =
      Some (Some (buf, length raw), (d1, keys2), v\<lparr>live := live v + 1\<rparr>)" "take (length raw) buf = raw" "length (pcInputBuffer d1) = 128"
    by (rule pem_read_back [OF codec(1) d(2,3) Q(2) lab, of raw]) (auto simp only: fits if_True)
  note lb = label_buffer_short [OF l'(1,2)]
  have obj: "xPkiObjectFromLabel (labels Q) (Some ?b) = OBJ_FORM_PSA_PS u"
    using object_of_buffer [of ?b l'] lb(2) l'(1,3) by simp
  obtain st v1 where wr: "xPkiWriteCertificate (labels Q) (store Q) (crypto Q) (Some ?b) raw (v\<lparr>live := live v + 1\<rparr>) = Some (st, v1)"
    "st = PKI_SUCCESS \<longrightarrow> contents (ps_state v1) u = Some raw"
    by (rule write_certificate_ps [OF Q(1) obj, of "crypto Q" raw "v\<lparr>live := live v + 1\<rparr>"]) blast
  let ?m = "if st = PKI_SUCCESS then ''Success: Certificate loaded to label: '' @ [CHR 39] else ''Error: failed to save certificate to label: '' @ [CHR 39]"
  obtain d2 keys3 where ms: "label_message (xConsoleIO ops') ?m ?b ([CHR 39] @ ''.'' @ crlf) (d1, keys2) = Some (d2, keys3)"
    "sent' (xUartTxStream d2) = sent' (xUartTxStream d1) @ ?m @ l' @ [CHR 39] @ ''.'' @ crlf"
    by (rule uart_label_message [OF d(2) rd(3) lb(1), of ?m "[CHR 39] @ ''.'' @ crlf" keys2]) (use lb(2) in auto)
  have im: "vCommand_PKI Q [''pki'', ''import'', ''cert'', l'] (d, map Some (pem_text ?ls)) v = Some ((d2, keys3), v1)"
    using rd(1,2) wr(1) ms(1) lb(3) raw codec(2) d(1)
    by (simp add: command_import_cert vSubCommand_ImportCertificate_def xReadPemFromCliToX509Crt_def label_arg_def x509_failed_def)
  have out: "sent' (xUartTxStream d2) = sent' (xUartTxStream d1) @ ''Success: Certificate loaded to label: '' @ [CHR 39] @ l' @ [CHR 39] @ ''.'' @ crlf \<and>
       contents (ps_state v1) u = Some raw \<or>
     sent' (xUartTxStream d2) = sent' (xUartTxStream d1) @ ''Error: failed to save certificate to label: '' @ [CHR 39] @ l' @ [CHR 39] @ ''.'' @ crlf"
    using ms(2) wr(2) by (cases "st = PKI_SUCCESS") simp_all
  show ?thesis by (intro exI conjI) (rule ex, rule pr(2), rule im, rule out)
qed

subsection \<open>Signing requests\<close>

text \<open>The environment with the getters of the build: the cache of the key/value store.\<close>

definition kv_wired :: "('c, 's, 'k) pki_env \<Rightarrow> defaults \<Rightarrow> kv_state \<Rightarrow> bool" where
  "kv_wired P dfl s \<longleftrightarrow> kv_size P = KVStore_getSize prvGetCacheEntryLength dfl s \<and>
     kv_string P = (\<lambda>k buf n. KVStore_getString xprvCopyValueFromCache dfl s k buf n)"

lemma subject_name_thing:
  assumes "malloc_spec mal" "cache_inv s" "kv_wired P (kvStoreDefaults lit) s"
    and "kv_view s 0 = Some (KV_TYPE_STRING, thing @ [0])" "length thing + 4 < 2 ^ 32"
    and "pvPortMalloc P (length thing + 4) = Some b" "length b = length thing + 4"
  shows "kv_size P CS_CORE_THING_NAME = Some (length thing + 1)"
    "subject_name P (length thing + 4) = Some (Some (subject_name_prefix @ thing @ [0]))"
proof -
  have c: "malloc_spec mal \<and> cache_inv s" using assms(1,2) by simp
  have ty: "dfl_type (kvStoreDefaults lit) 0 = KV_TYPE_STRING" by (simp add: kvStoreDefaults_def KV_DFLT_STRING_def)
  show "kv_size P CS_CORE_THING_NAME = Some (length thing + 1)"
    using kvc.len_hit [OF c _ assms(4)] assms(3) by (simp add: kv_wired_def KVStore_getSize_def)
  have p: "length subject_name_prefix = 3" by (simp add: subject_name_prefix_def)
  let ?b = "overwrite 0 (subject_name_prefix @ [0]) b"
  have b: "take 3 ?b = subject_name_prefix" "length (drop 3 ?b) = length thing + 1"
    using assms(7) p by (simp_all add: overwrite_def)
  have "KVStore_getString xprvCopyValueFromCache (kvStoreDefaults lit) s 0 (Some (drop 3 ?b)) (length thing + 1) =
      Some (length thing, Some (thing @ [0]))"
    using kvc.getString_value [OF c _ ty assms(4), of "length thing + 1" "drop 3 ?b"] b(2) by (simp add: list_update_append)
  moreover have "u32_sub (length thing + 4) 3 = length thing + 1" using assms(5) by simp
  ultimately show "subject_name P (length thing + 4) = Some (Some (subject_name_prefix @ thing @ [0]))"
    using assms(3,6,7) b(1) p by (simp add: subject_name_def kv_wired_def)
qed

lemma command_generate_csr:
  "vCommand_PKI P [''pki'', ''generate'', ''csr'', l] c w = vSubCommand_GenerateCsr P [''pki'', ''generate'', ''csr'', l] c w"
  by (simp add: vCommand_PKI_def strcmp_eq_def c_str_def Let_def bind_assoc case_prod_unfold)

text \<open>
  C14. \<open>pki generate csr\<close> prints the signing request for the name of this device: when the key/value store holds the thing
  name, the key of the label can be read, and the library builds the request for the subject \<open>CN=\<close> followed by
  exactly that name, the text on the console is the PEM form of the request, whose bytes the library left
  at the end of the buffer; the buffer is given back.
\<close>

theorem pki_csr_names_device:
  assumes kv: "malloc_spec mal" "cache_inv s" "kv_wired P (kvStoreDefaults lit) s"
      "kv_view s 0 = Some (KV_TYPE_STRING, thing @ [0])" "length thing + 4 < 2 ^ 32"
      "pvPortMalloc P (length thing + 4) = Some b" "length b = length thing + 4"
    and c: "base64_spec (codec P)" "console P = xConsoleIO ops" "stream_spec ops sent room" "length (pcInputBuffer c) = 128"
    and w: "calloc_ok (store P) (live w) CSR_BUFFER_LEN"
    and key: "xPkiReadPrivateKey (store P) (crypto P) (xPkiObjectFromLabel (labels P) (Some l)) (w\<lparr>live := live w + 1\<rparr>) = Some (PKI_SUCCESS, key, w1)"
    and lib: "csr_set_subject_name (x509 P) (subject_name_prefix @ thing @ [0]) \<ge> 0" "csr_set_key_usage (x509 P) \<ge> 0" "csr_set_ns_cert_type (x509 P) \<ge> 0"
    and der: "csr_der (x509 P) (subject_name_prefix @ thing @ [0]) key = (int n, buf)" "0 < n" "n < CSR_BUFFER_LEN" "length buf = CSR_BUFFER_LEN"
  shows "\<exists>c1 keys1. vCommand_PKI P [''pki'', ''generate'', ''csr'', l] (c, keys) w =
      Some ((c1, keys1), mbedtls_free (drop (CSR_BUFFER_LEN - n) buf) w1) \<and>
    sent (xUartTxStream c1) = sent (xUartTxStream c) @
      pem_text (pem_header ''CERTIFICATE REQUEST'' # pem_lines (codec P) (drop (CSR_BUFFER_LEN - n) buf) @ [pem_footer ''CERTIFICATE REQUEST''])"
proof -
  let ?der = "drop (CSR_BUFFER_LEN - n) buf"
  note N = subject_name_thing [OF kv]
  have "run_steps 0 [csr_set_subject_name (x509 P) (subject_name_prefix @ thing @ [0]), csr_set_key_usage (x509 P), csr_set_ns_cert_type (x509 P)] \<ge> 0"
    using lib by simp
  then have steps: "csr_steps P True key = Some (0, ?der)"
    using N der by (simp add: csr_steps_def written_der_def add.commute)
  have ne: "?der \<noteq> []" using der(2-4) by simp
  obtain c1 keys1 where pr: "vPrintDer (codec P) (console P) (pem_header ''CERTIFICATE REQUEST'' @ crlf) (pem_footer ''CERTIFICATE REQUEST'' @ crlf) ?der (c, keys) = Some (c1, keys1)"
    "sent (xUartTxStream c1) = sent (xUartTxStream c) @
      pem_text (pem_header ''CERTIFICATE REQUEST'' # pem_lines (codec P) ?der @ [pem_footer ''CERTIFICATE REQUEST''])"
    unfolding c(2) by (rule pem_printed [OF c(1,3,4), of "''CERTIFICATE REQUEST''" ?der keys]) (simp_all add: printable_def ends_line_def erases_def)
  have "vCommand_PKI P [''pki'', ''generate'', ''csr'', l] (c, keys) w = Some ((c1, keys1), mbedtls_free ?der w1)"
    unfolding command_generate_csr vSubCommand_GenerateCsr_def
    using w key steps ne pr(1) by (simp add: label_arg_def der_block_def free_block_def)
  then show ?thesis using pr(2) by blast
qed

subsection \<open>Witnesses\<close>

definition ex_x509 :: "byte list x509_ops" where
  "ex_x509 =
     \<lparr>csr_set_subject_name = \<lambda>n. 0, csr_set_key_usage = 0, csr_set_ns_cert_type = 0,
      csr_der = \<lambda>n k. (5, replicate 2043 0 @ take 5 n), crt_set_ns_cert_type = 0, mpi_fill_random = 0, crt_set_serial = 0,
      crt_set_validity = 0, crt_set_subject_name = \<lambda>n. 0, crt_set_issuer_name = \<lambda>n. 0, crt_set_basic_constraints = 0,
      crt_set_subject_key_identifier = 0, crt_set_authority_key_identifier = 0, crt_set_key_usage = 0,
      crt_der = \<lambda>n k. (5, replicate 2043 0 @ take 5 n)\<rparr>"

definition ex_slot_crypto :: "(nat \<rightharpoonup> byte list, byte list) pki_crypto" where
  "ex_slot_crypto = ex_crypto\<lparr>crypto_init_key := \<lambda>i w. Some (MBEDTLS_OK, Some [9], w)\<rparr>"

definition ex_pki_env :: "((string \<times> nat) uart, nat \<rightharpoonup> byte list, byte list) pki_env" where
  "ex_pki_env = \<lparr>codec = ex_base64, console = xConsoleIO ex_stream, labels = ex_pki, store = ex_env, crypto = ex_slot_crypto,
     configTLS_MAX_LABEL_LEN = 32, x509 = ex_x509,
     kv_size = KVStore_getSize prvGetCacheEntryLength (kvStoreDefaults (\<lambda>k. 0)) ex_cfg,
     kv_string = (\<lambda>k buf n. KVStore_getString xprvCopyValueFromCache (kvStoreDefaults (\<lambda>k. 0)) ex_cfg k buf n),
     pvPortMalloc = \<lambda>n. Some (replicate n 0)\<rparr>"

lemma ex_pki_env_parts:
  "base64_spec (codec ex_pki_env)" "console ex_pki_env = xConsoleIO ex_stream" "storage_spec (ps (store ex_pki_env)) (\<lambda>m. m)"
  "kv_wired ex_pki_env (kvStoreDefaults (\<lambda>k. 0)) ex_cfg" "calloc_ok (store ex_pki_env) (live ex_world) 2048"
  by (simp_all add: ex_pki_env_def ex_base64_spec ex_env_def ex_storage_spec kv_wired_def ex_world_def)

text \<open>A certificate with the number 3 that is on the first device is stored under the label of a root certificate.\<close>

definition ex_holder :: "(nat \<rightharpoonup> byte list) psa_world" where
  "ex_holder = ex_world\<lparr>ps_state := Map.empty(3 \<mapsto> [48, 3, 2])\<rparr>"

theorem pki_certificate_travels_witness:
  "\<exists>c1 keys1 text d1 keys2 v1 before.
    vCommand_PKI ex_pki_env [''pki'', ''export'', ''cert'', ''cert''] (ex_console, []) ex_holder = Some ((c1, keys1), ex_holder\<lparr>live := 1\<rparr>) \<and>
    fst (xUartTxStream c1) = fst (xUartTxStream ex_console) @ text \<and>
    vCommand_PKI ex_pki_env [''pki'', ''import'', ''cert'', ''ca''] (ex_console, map Some text) ex_world = Some ((d1, keys2), v1) \<and>
    (fst (xUartTxStream d1) = before @ ''Success: Certificate loaded to label: '' @ [CHR 39] @ ''ca'' @ [CHR 39] @ ''.'' @ crlf \<and>
       ps_state v1 4 = Some [48, 3, 2] \<or>
     fst (xUartTxStream d1) = before @ ''Error: failed to save certificate to label: '' @ [CHR 39] @ ''ca'' @ [CHR 39] @ ''.'' @ crlf)"
proof -
  have src: "xPkiObjectFromLabel (labels ex_pki_env) (Some ''cert'') = OBJ_FORM_PSA_PS 3"
    "xPkiObjectFromLabel (labels ex_pki_env) (Some ''ca'') = OBJ_FORM_PSA_PS 4"
    by (simp_all add: ex_pki_env_def xPkiObjectFromLabel_def ex_pki_def strcmp_eq_def c_str_def)
  have rd: "xPkiReadCertificate (store ex_pki_env) (crypto ex_pki_env) (xPkiObjectFromLabel (labels ex_pki_env) (Some ''cert'')) [] ex_holder =
      Some (PKI_SUCCESS, [[48, 3, 2]], ex_holder\<lparr>live := 1\<rparr>)"
    unfolding src by (simp add: ex_pki_env_def xPkiReadCertificate_def lReadCertificateFromPsaPS_def lReadObjectFromPsaPs_def read_object_def
        parse_certificate_def ex_env_def ex_storage_def ex_holder_def ex_world_def is_pem_def)
  have "mbedtls_x509_crt_parse_der (store ex_pki_env) [48, 3, 2] = (MBEDTLS_OK, [[48, 3, 2]])" "length ''ca'' \<le> configTLS_MAX_LABEL_LEN ex_pki_env"
    by (simp_all add: ex_pki_env_def ex_env_def)
  from pki_certificate_travels [OF ex_pki_env_parts(1) refl ex_pki_env_parts(2) ex_stream_spec ex_console_buffer
      ex_pki_env_parts(2) ex_stream_spec ex_console_buffer rd _ _ this(1) _ this(2) src(2) ex_pki_env_parts(3,5), of "[]"]
  show ?thesis by simp
qed

theorem pki_csr_names_device_witness:
  "\<exists>c1 keys1 w1. vCommand_PKI ex_pki_env [''pki'', ''generate'', ''csr'', ''prv''] (ex_console, []) ex_world = Some ((c1, keys1), w1) \<and>
    fst (xUartTxStream c1) = fst (xUartTxStream ex_console) @
      pem_text (pem_header ''CERTIFICATE REQUEST'' # pem_lines ex_base64 (subject_name_prefix @ [0x74, 0]) @ [pem_footer ''CERTIFICATE REQUEST''])"
proof -
  have key: "xPkiReadPrivateKey (store ex_pki_env) (crypto ex_pki_env) (xPkiObjectFromLabel (labels ex_pki_env) (Some ''prv''))
      (ex_world\<lparr>live := live ex_world + 1\<rparr>) = Some (PKI_SUCCESS, Some [9], ex_world\<lparr>live := live ex_world + 1\<rparr>)"
    by (simp add: ex_pki_env_def xPkiObjectFromLabel_def ex_pki_def strcmp_eq_def c_str_def xPkiReadPrivateKey_def ex_slot_crypto_def)
  have name: "take 5 (subject_name_prefix @ [0x74] @ [0]) = subject_name_prefix @ [0x74, 0]"
    by (simp add: subject_name_prefix_def)
  have der: "csr_der (x509 ex_pki_env) (subject_name_prefix @ [0x74] @ [0]) (Some [9]) = (int 5, replicate 2043 0 @ subject_name_prefix @ [0x74, 0])"
    using name by (simp add: ex_pki_env_def ex_x509_def)
  have mem: "pvPortMalloc ex_pki_env (length [0x74 :: byte] + 4) = Some (replicate 5 0)" "length (replicate 5 (0 :: byte)) = length [0x74 :: byte] + 4"
    by (simp_all add: ex_pki_env_def numeral_eq_Suc)
  have lib: "csr_set_subject_name (x509 ex_pki_env) (subject_name_prefix @ [0x74] @ [0]) \<ge> 0" "csr_set_key_usage (x509 ex_pki_env) \<ge> 0"
    "csr_set_ns_cert_type (x509 ex_pki_env) \<ge> 0" by (simp_all add: ex_pki_env_def ex_x509_def)
  have buf: "length (replicate 2043 0 @ subject_name_prefix @ [0x74, 0 :: byte]) = 2048"
    "drop (2048 - 5) (replicate 2043 0 @ subject_name_prefix @ [0x74, 0 :: byte]) = subject_name_prefix @ [0x74, 0]"
    by (simp_all add: subject_name_prefix_def)
  have "length [0x74 :: byte] + 4 < 2 ^ 32" by simp
  from pki_csr_names_device [OF first_fit_spec ex_cfg_inv ex_pki_env_parts(4) ex_cfg_view(1) this mem ex_pki_env_parts(1,2)
      ex_stream_spec ex_console_buffer ex_pki_env_parts(5) key lib der _ _ buf(1), of "[]"]
  show ?thesis unfolding buf(2) by (auto simp: ex_pki_env_def)
qed

end
