(* ===== verification/ShadowTask.thy ===== *)
theory ShadowTask
  imports AgentConfig CLib
begin

text \<open>
  The device shadow task (\<open>source/aws_demos/shadow_device_task.c\<close>): it reports the state \<open>powerOn\<close> of the device to
  the cloud service and takes the state the service asks for. The callbacks run in the task of the MQTT agent
  while this task waits or sleeps. The JSON parser and the functions for the names of topics are parameters.
\<close>

subsection \<open>State\<close>

abbreviation (input) shadowexampleINVALID_POWERON_STATE :: u32 where "shadowexampleINVALID_POWERON_STATE \<equiv> 2"

text \<open>A topic is the buffer it is in, possibly NULL, and its length. \<open>notifications\<close> is the notification value
  of the task; \<open>ulCurrentVersion\<close> is the static variable of the delta callback, \<open>led_on\<close> the light.\<close>

record ShadowDeviceCtx_t =
  pcDeviceName :: "string option"
  ucDeviceNameLen :: nat
  TopicUpdate :: "string option \<times> nat"
  TopicUpdateDelta :: "string option \<times> nat"
  TopicUpdateAccepted :: "string option \<times> nat"
  TopicUpdateRejected :: "string option \<times> nat"
  TopicDelete :: "string option \<times> nat"
  ulCurrentPowerOnState :: u32
  ulReportedPowerOnState :: u32
  ulClientToken :: u32
  notifications :: nat
  ulCurrentVersion :: u32
  led_on :: bool

definition zero_shadow :: ShadowDeviceCtx_t where
  "zero_shadow = \<lparr>pcDeviceName = None, ucDeviceNameLen = 0, TopicUpdate = (None, 0), TopicUpdateDelta = (None, 0),
     TopicUpdateAccepted = (None, 0), TopicUpdateRejected = (None, 0), TopicDelete = (None, 0), ulCurrentPowerOnState = 0,
     ulReportedPowerOnState = 0, ulClientToken = 0, notifications = 0, ulCurrentVersion = 0, led_on = False\<rparr>"

text \<open>The JSON library: whether a document is valid, and where the value of a key begins in it.\<close>

record json_ops =
  JSON_Validate :: "string \<Rightarrow> bool"
  JSON_Search :: "string \<Rightarrow> string \<Rightarrow> string option"

text \<open>The shadow library: the length of a topic for a name of so many characters, and writing it into a buffer. A flag
  tells success; the result has the buffer and the length.\<close>

datatype ShadowTopicStringType_t = ShadowTopicStringTypeUpdate | ShadowTopicStringTypeUpdateDelta
  | ShadowTopicStringTypeUpdateAccepted | ShadowTopicStringTypeUpdateRejected | ShadowTopicStringTypeDelete

record shadow_lib =
  SHADOW_TOPIC_LENGTH :: "ShadowTopicStringType_t \<Rightarrow> nat \<Rightarrow> nat"
  Shadow_GetTopicString :: "ShadowTopicStringType_t \<Rightarrow> string \<Rightarrow> nat \<Rightarrow> string option \<Rightarrow> nat \<Rightarrow> bool \<times> string option \<times> nat"

subsection \<open>Start\<close>

definition shadow_topic :: "shadow_lib \<Rightarrow> (nat \<Rightarrow> string option) \<Rightarrow> ShadowTopicStringType_t \<Rightarrow> string \<Rightarrow> nat \<Rightarrow> bool \<times> string option \<times> nat" where
  "shadow_topic L pvPortMalloc ty name n =
     (let len = SHADOW_TOPIC_LENGTH L ty n in Shadow_GetTopicString L ty name n (pvPortMalloc len) len)"

text \<open>A name whose stored size does not fit a byte is not read at all; the length is only set when it fits.\<close>

definition prvInitializeCtx ::
  "shadow_lib \<Rightarrow> (nat \<Rightarrow> string option) \<Rightarrow> (KVStoreKey_t \<Rightarrow> nat) \<Rightarrow> (KVStoreKey_t \<Rightarrow> string option) \<Rightarrow> ShadowDeviceCtx_t \<Rightarrow>
   bool \<times> ShadowDeviceCtx_t" where
  "prvInitializeCtx L pvPortMalloc getSize getStringHeap ctx =
     (let ctx = ctx\<lparr>pcDeviceName := None\<rparr>;
          ctx = (if getSize CS_CORE_THING_NAME \<le> 255
            then let name = getStringHeap CS_CORE_THING_NAME;
                     len = (case name of None \<Rightarrow> 0 | Some s \<Rightarrow> strnlen s (getSize CS_CORE_THING_NAME));
                     ctx = ctx\<lparr>pcDeviceName := name\<rparr>
                 in (if len < 255 then ctx\<lparr>ucDeviceNameLen := len\<rparr> else ctx)
            else ctx) in
      case pcDeviceName ctx of
        None \<Rightarrow> (False, ctx)
      | Some name \<Rightarrow>
          if ucDeviceNameLen ctx = 0 then (False, ctx)
          else let topic = (\<lambda>ty. shadow_topic L pvPortMalloc ty name (ucDeviceNameLen ctx));
                   (ok1, t1) = topic ShadowTopicStringTypeUpdate;
                   (ok2, t2) = topic ShadowTopicStringTypeUpdateDelta;
                   (ok3, t3) = topic ShadowTopicStringTypeUpdateAccepted;
                   (ok4, t4) = topic ShadowTopicStringTypeUpdateRejected;
                   (ok5, t5) = topic ShadowTopicStringTypeDelete
               in (ok1 \<and> ok2 \<and> ok3 \<and> ok4 \<and> ok5,
                   ctx\<lparr>TopicUpdate := t1, TopicUpdateDelta := t2, TopicUpdateAccepted := t3, TopicUpdateRejected := t4, TopicDelete := t5\<rparr>))"

text \<open>The filters are read up to their terminator: a buffer without one is read beyond its end.\<close>

definition filter_of :: "string option \<times> nat \<Rightarrow> string option option" where
  "filter_of t =
     (case fst t of None \<Rightarrow> Some None | Some buf \<Rightarrow> do { configASSERT (NUL \<in> set buf); Some (Some (c_str buf)) })"

abbreviation (input) delta_callback :: nat where "delta_callback \<equiv> 0"
abbreviation (input) accepted_callback :: nat where "accepted_callback \<equiv> 1"
abbreviation (input) rejected_callback :: nat where "rejected_callback \<equiv> 2"

type_synonym shadow_subscribe = "string option \<Rightarrow> nat \<Rightarrow> SubMgrCtx_t \<Rightarrow> (MQTTStatus_t \<times> SubMgrCtx_t) option"

definition prvSubscribeToShadowUpdateTopics :: "shadow_subscribe \<Rightarrow> ShadowDeviceCtx_t \<Rightarrow> SubMgrCtx_t \<Rightarrow> (bool \<times> SubMgrCtx_t) option" where
  "prvSubscribeToShadowUpdateTopics subscribe ctx s = do {
     f \<leftarrow> filter_of (TopicUpdateDelta ctx);
     (xStatus, s) \<leftarrow> subscribe f delta_callback s;
     (xStatus, s) \<leftarrow> (if xStatus \<noteq> MQTTSuccess then Some (xStatus, s)
       else do { f \<leftarrow> filter_of (TopicUpdateAccepted ctx); subscribe f accepted_callback s });
     (xStatus, s) \<leftarrow> (if xStatus \<noteq> MQTTSuccess then Some (xStatus, s)
       else do { f \<leftarrow> filter_of (TopicUpdateRejected ctx); subscribe f rejected_callback s });
     Some (xStatus = MQTTSuccess, s)
   }"

subsection \<open>Callbacks\<close>

text \<open>\<open>JSON_Search\<close> with the key, then \<open>strtoul\<close> at the value.\<close>

definition json_number :: "json_ops \<Rightarrow> string \<Rightarrow> string \<Rightarrow> u32 option" where
  "json_number J doc key = map_option (\<lambda>v. fst (strtoul v)) (JSON_Search J doc key)"

definition prvIncomingPublishUpdateDeltaCallback :: "json_ops \<Rightarrow> string \<Rightarrow> ShadowDeviceCtx_t \<Rightarrow> ShadowDeviceCtx_t" where
  "prvIncomingPublishUpdateDeltaCallback J payload ctx =
     (if \<not> JSON_Validate J payload then ctx
      else case json_number J payload ''version'' of
        None \<Rightarrow> ctx
      | Some ulVersion \<Rightarrow>
          if ulVersion \<le> ulCurrentVersion ctx then ctx
          else let ctx = ctx\<lparr>ulCurrentVersion := ulVersion\<rparr> in
            (case json_number J payload ''state.powerOn'' of
               None \<Rightarrow> ctx
             | Some ulNewState \<Rightarrow> ctx\<lparr>ulCurrentPowerOnState := ulNewState, led_on := (ulNewState = 1)\<rparr>))"

text \<open>The token of a response, if it is the one that is waited for, which is 0 while none is.\<close>

definition response_for_us :: "json_ops \<Rightarrow> string \<Rightarrow> ShadowDeviceCtx_t \<Rightarrow> bool" where
  "response_for_us J payload ctx \<longleftrightarrow> JSON_Validate J payload \<and> json_number J payload ''clientToken'' = Some (ulClientToken ctx)"

definition prvIncomingPublishUpdateAcceptedCallback :: "json_ops \<Rightarrow> string \<Rightarrow> ShadowDeviceCtx_t \<Rightarrow> ShadowDeviceCtx_t" where
  "prvIncomingPublishUpdateAcceptedCallback J payload ctx =
     (if response_for_us J payload ctx
      then let ctx = (case json_number J payload ''state.reported.powerOn'' of
                        None \<Rightarrow> ctx
                      | Some v \<Rightarrow> ctx\<lparr>ulReportedPowerOnState := v\<rparr>)
           in ctx\<lparr>notifications := notifications ctx + 1\<rparr>
      else ctx)"

definition prvIncomingPublishUpdateRejectedCallback :: "json_ops \<Rightarrow> string \<Rightarrow> ShadowDeviceCtx_t \<Rightarrow> ShadowDeviceCtx_t" where
  "prvIncomingPublishUpdateRejectedCallback J payload ctx =
     (if response_for_us J payload ctx then ctx\<lparr>notifications := notifications ctx + 1\<rparr> else ctx)"

text \<open>A publish on one of the three topics.\<close>

datatype shadow_event = Delta string | Accepted string | Rejected string

fun shadow_callback :: "json_ops \<Rightarrow> shadow_event \<Rightarrow> ShadowDeviceCtx_t \<Rightarrow> ShadowDeviceCtx_t" where
  "shadow_callback J (Delta p) ctx = prvIncomingPublishUpdateDeltaCallback J p ctx"
| "shadow_callback J (Accepted p) ctx = prvIncomingPublishUpdateAcceptedCallback J p ctx"
| "shadow_callback J (Rejected p) ctx = prvIncomingPublishUpdateRejectedCallback J p ctx"

subsection \<open>The report\<close>

text \<open>The document, by its format string, and the length the source computes from the format string.\<close>

definition report_json :: "u32 \<Rightarrow> u32 \<Rightarrow> string" where
  "report_json state token =
     ''{'' @ quote @ ''state'' @ quote @ '':{'' @ quote @ ''reported'' @ quote @ '':{'' @ quote @ ''powerOn'' @ quote @ '':'' @ dec (unat state) @
     ''}'' @ ''},'' @ quote @ ''clientToken'' @ quote @ '':'' @ quote @ zero_pad 6 (dec (unat token)) @ quote @ ''}''"

definition shadowexampleSHADOW_REPORTED_JSON :: string where
  "shadowexampleSHADOW_REPORTED_JSON =
     ''{'' @ quote @ ''state'' @ quote @ '':{'' @ quote @ ''reported'' @ quote @ '':{'' @ quote @ ''powerOn'' @ quote @ '':%1u'' @
     ''}'' @ ''},'' @ quote @ ''clientToken'' @ quote @ '':'' @ quote @ ''%06lu'' @ quote @ ''}''"

definition shadowexampleSHADOW_REPORTED_JSON_LENGTH :: nat where
  "shadowexampleSHADOW_REPORTED_JSON_LENGTH = (length shadowexampleSHADOW_REPORTED_JSON + 1) - 2"

text \<open>The buffer is cleared, the document printed into it, and the whole buffer is the payload.\<close>

definition update_document :: "u32 \<Rightarrow> u32 \<Rightarrow> string" where
  "update_document state token =
     (let n = shadowexampleSHADOW_REPORTED_JSON_LENGTH + 1; s = snprintf n (report_json state token)
      in s @ replicate (n - length s) NUL)"

subsection \<open>The task\<close>

text \<open>Waiting for a response: callbacks run until one has notified the task, or until the time is over, which is the
  end of the list. The value of the notification is returned and then one less; the events left come later.\<close>

fun wait_notified :: "json_ops \<Rightarrow> shadow_event list \<Rightarrow> ShadowDeviceCtx_t \<Rightarrow> nat \<times> ShadowDeviceCtx_t \<times> shadow_event list" where
  "wait_notified J evs ctx =
     (if notifications ctx > 0 then (notifications ctx, ctx\<lparr>notifications := notifications ctx - 1\<rparr>, evs)
      else case evs of
        [] \<Rightarrow> (0, ctx, [])
      | e # evs \<Rightarrow> wait_notified J evs (shadow_callback J e ctx))"

declare wait_notified.simps [simp del]

text \<open>One round of the loop: \<open>tick\<close> is the tick count, \<open>publish\<close> tells whether the command was taken, \<open>evs\<close> comes
  while the task waits for the response, \<open>later\<close> while it sleeps. The result has the payload that was published.\<close>

definition shadow_round ::
  "json_ops \<Rightarrow> u32 \<Rightarrow> bool \<Rightarrow> shadow_event list \<Rightarrow> shadow_event list \<Rightarrow> ShadowDeviceCtx_t \<Rightarrow> string option \<times> ShadowDeviceCtx_t" where
  "shadow_round J tick publish evs later ctx =
     (if ulCurrentPowerOnState ctx = ulReportedPowerOnState ctx
      then (None, fold (shadow_callback J) (evs @ later) ctx)
      else
        let ctx = ctx\<lparr>ulClientToken := tick mod 1000000\<rparr>;
            doc = update_document (ulCurrentPowerOnState ctx) (ulClientToken ctx);
            (ctx, evs) =
              (if publish
               then (case wait_notified J evs ctx of (n, ctx, evs) \<Rightarrow>
                       (if n = 0 then ctx\<lparr>ulReportedPowerOnState := shadowexampleINVALID_POWERON_STATE\<rparr> else ctx, evs))
               else (ctx, evs));
            ctx = ctx\<lparr>ulClientToken := 0\<rparr>
        in (if publish then Some doc else None, fold (shadow_callback J) (evs @ later) ctx))"

text \<open>The task until its loop; the flag tells whether the loop is entered, otherwise the task deletes itself.\<close>

definition vShadowDeviceTask ::
  "shadow_lib \<Rightarrow> (nat \<Rightarrow> string option) \<Rightarrow> (KVStoreKey_t \<Rightarrow> nat) \<Rightarrow> (KVStoreKey_t \<Rightarrow> string option) \<Rightarrow> shadow_subscribe \<Rightarrow>
   SubMgrCtx_t \<Rightarrow> (bool \<times> ShadowDeviceCtx_t \<times> SubMgrCtx_t) option" where
  "vShadowDeviceTask L pvPortMalloc getSize getStringHeap subscribe s =
     (let (xStatus, ctx) = prvInitializeCtx L pvPortMalloc getSize getStringHeap zero_shadow in
      if xStatus then do { (xStatus, s) \<leftarrow> prvSubscribeToShadowUpdateTopics subscribe ctx s; Some (xStatus, ctx, s) }
      else Some (False, ctx, s))"

end
