(* ===== verification/ShadowSpec.thy ===== *)
theory ShadowSpec
  imports ShadowTask
begin

text \<open>
  What a report of the device shadow task comes to: the document, an answered report, and what strays in.
\<close>

subsection \<open>The document\<close>

lemma report_length: "shadowexampleSHADOW_REPORTED_JSON_LENGTH = 59"
  by (simp add: shadowexampleSHADOW_REPORTED_JSON_LENGTH_def shadowexampleSHADOW_REPORTED_JSON_def quote_def)

lemma length_report: "length (report_json s t) = 52 + length (dec (unat s)) + length (zero_pad 6 (dec (unat t)))"
  by (simp add: report_json_def quote_def)

lemma c_string_report: "c_string (report_json s t)"
proof -
  have "c_string (zero_pad 6 (dec n))" for n using c_string_dec [of n] by (simp add: zero_pad_def c_string_def)
  then show ?thesis by (simp add: report_json_def quote_def)
qed

lemma dec_one_digit: "length (dec n) \<le> 1 \<longleftrightarrow> n < 10"
proof
  assume "length (dec n) \<le> 1"
  show "n < 10"
  proof (rule ccontr)
    assume "\<not> n < 10"
    then have "dec n = dec (n div 10) @ [digit (n mod 10)]" by (simp add: dec.simps)
    then have "length (dec n) = length (dec (n div 10)) + 1" by simp
    with \<open>length (dec n) \<le> 1\<close> show False by simp
  qed
qed (simp add: dec.simps)

text \<open>
  The payload of a report is the whole JSON document only for a state of one digit: for a token of at most
  six digits the text in the payload is the document exactly when the state is below 10, and then the payload
  has one more character, the terminator, at its end. A greater state, which the cloud service can ask for,
  gives a document that is cut off, so that it can never be reported.
\<close>

lemma shadow_report_document:
  assumes "token < 1000000"
  shows "(c_str (update_document state token) = report_json state token \<longleftrightarrow> state < 10) \<and>
    (state < 10 \<longrightarrow> update_document state token = report_json state token @ [NUL]) \<and>
    (\<exists>cut. report_json state token = c_str (update_document state token) @ cut)"
proof -
  let ?r = "report_json state token"
  have t: "unat token < 10 ^ 6" using assms by (simp add: word_less_nat_alt)
  have len: "length ?r = 58 + length (dec (unat state))"
    using length_zero_pad [OF dec_length [OF t]] by (simp add: length_report)
  have ne: "0 < length (dec (unat state))" by simp
  have doc: "update_document state token = take 59 ?r @ replicate (60 - length (take 59 ?r)) NUL"
    by (simp add: update_document_def Let_def snprintf_def report_length)
  have n: "length (take 59 ?r) = 59" using len ne unfolding length_take by linarith
  then have doc': "update_document state token = take 59 ?r @ [NUL]" unfolding doc by simp
  have "c_string (take 59 ?r)" using c_string_report [of state token] by (auto simp: c_string_def dest: in_set_takeD)
  then have c: "c_str (update_document state token) = take 59 ?r" unfolding doc' by (rule c_str_NUL)
  have one: "state < 10 \<longleftrightarrow> length ?r \<le> 59"
    using dec_one_digit [of "unat state"] by (simp add: len word_less_nat_alt)
  then have all: "state < 10 \<Longrightarrow> take 59 ?r = ?r" by simp
  moreover have "take 59 ?r = ?r \<Longrightarrow> state < 10" using one n by (metis order_refl)
  moreover have "\<exists>cut. ?r = take 59 ?r @ cut" by (metis append_take_drop_id)
  ultimately show ?thesis unfolding c using doc' by auto
qed

text \<open>The token of the document is the one a response with it gives back.\<close>

lemma shadow_token_roundtrip:
  assumes "token < 1000000"
  shows "fst (strtoul (zero_pad 6 (dec (unat token)) @ quote @ rest)) = token"
proof -
  have "unat token < 2 ^ 32" using unat_u32_less [of token] by simp
  from strtoul_zero_pad [OF this, of "quote @ rest" 6] show ?thesis by (simp add: quote_def isdigit_def)
qed

subsection \<open>Callbacks\<close>

text \<open>The responses that carry a token, and what a publish does that carries no answer.\<close>

fun answers :: "json_ops \<Rightarrow> u32 \<Rightarrow> shadow_event \<Rightarrow> bool" where
  "answers J t (Delta p) = False"
| "answers J t (Accepted p) = (JSON_Validate J p \<and> json_number J p ''clientToken'' = Some t)"
| "answers J t (Rejected p) = (JSON_Validate J p \<and> json_number J p ''clientToken'' = Some t)"

fun delta_only :: "json_ops \<Rightarrow> shadow_event \<Rightarrow> ShadowDeviceCtx_t \<Rightarrow> ShadowDeviceCtx_t" where
  "delta_only J (Delta p) ctx = prvIncomingPublishUpdateDeltaCallback J p ctx"
| "delta_only J _ ctx = ctx"

lemma no_answer: "\<not> answers J (ulClientToken ctx) e \<Longrightarrow> shadow_callback J e ctx = delta_only J e ctx"
  by (cases e) (auto simp: prvIncomingPublishUpdateAcceptedCallback_def prvIncomingPublishUpdateRejectedCallback_def response_for_us_def)

lemma delta_only_keeps [simp]:
  "ulClientToken (delta_only J e ctx) = ulClientToken ctx" "notifications (delta_only J e ctx) = notifications ctx"
  "ulReportedPowerOnState (delta_only J e ctx) = ulReportedPowerOnState ctx"
  by (cases e; simp add: prvIncomingPublishUpdateDeltaCallback_def Let_def split: option.split)+

lemma delta_only_update [simp]:
  "delta_only J e (ctx\<lparr>ulClientToken := t\<rparr>) = (delta_only J e ctx)\<lparr>ulClientToken := t\<rparr>"
  "delta_only J e (ctx\<lparr>notifications := n\<rparr>) = (delta_only J e ctx)\<lparr>notifications := n\<rparr>"
  "delta_only J e (ctx\<lparr>ulReportedPowerOnState := v\<rparr>) = (delta_only J e ctx)\<lparr>ulReportedPowerOnState := v\<rparr>"
  by (cases e; simp add: prvIncomingPublishUpdateDeltaCallback_def Let_def split: option.split)+

lemma deltas_keep [simp]:
  "ulClientToken (fold (delta_only J) es ctx) = ulClientToken ctx" "notifications (fold (delta_only J) es ctx) = notifications ctx"
  "ulReportedPowerOnState (fold (delta_only J) es ctx) = ulReportedPowerOnState ctx"
  by (induction es arbitrary: ctx) simp_all

lemma deltas_update [simp]:
  "fold (delta_only J) es (ctx\<lparr>ulClientToken := t\<rparr>) = (fold (delta_only J) es ctx)\<lparr>ulClientToken := t\<rparr>"
  "fold (delta_only J) es (ctx\<lparr>notifications := n\<rparr>) = (fold (delta_only J) es ctx)\<lparr>notifications := n\<rparr>"
  "fold (delta_only J) es (ctx\<lparr>ulReportedPowerOnState := v\<rparr>) = (fold (delta_only J) es ctx)\<lparr>ulReportedPowerOnState := v\<rparr>"
  by (induction es arbitrary: ctx) simp_all

lemma no_answers: "list_all (\<lambda>e. \<not> answers J (ulClientToken ctx) e) es \<Longrightarrow> fold (shadow_callback J) es ctx = fold (delta_only J) es ctx"
  by (induction es arbitrary: ctx) (simp_all add: no_answer)

lemma wait_no_answers:
  assumes "notifications ctx = 0" "list_all (\<lambda>e. \<not> answers J (ulClientToken ctx) e) es"
  shows "wait_notified J (es @ evs) ctx = wait_notified J evs (fold (delta_only J) es ctx)"
  using assms
proof (induction es arbitrary: ctx)
  case (Cons e es)
  have "wait_notified J ((e # es) @ evs) ctx = wait_notified J (es @ evs) (delta_only J e ctx)"
    using Cons.prems by (subst wait_notified.simps) (simp add: no_answer)
  then show ?case using Cons.IH [of "delta_only J e ctx"] Cons.prems by simp
qed simp


text \<open>
  While no report is on its way the token 0 is waited for: a response on the accepted topic whose token is not a number, as
  another client may choose it, sets the last reported state and leaves a notification. The next report is then
  taken as answered at once: without any response it does not end with the invalid state that makes the task
  send it again.
\<close>

lemma shadow_stray_response:
  assumes "ulClientToken ctx = 0" "notifications ctx = 0" "ulCurrentPowerOnState ctx = ulReportedPowerOnState ctx"
    and "JSON_Validate J p" "json_number J p ''clientToken'' = Some 0" "json_number J p ''state.reported.powerOn'' = Some v"
    and "v \<noteq> ulCurrentPowerOnState ctx"
  shows "\<exists>doc ctx'. snd (shadow_round J tick True [] [Accepted p] ctx) = ctx' \<and> notifications ctx' = 1 \<and>
    shadow_round J tick' True [] [] ctx' = (Some doc, ctx'\<lparr>notifications := 0\<rparr>) \<and> ulReportedPowerOnState ctx' = v"
proof -
  have "snd (shadow_round J tick True [] [Accepted p] ctx) = ctx\<lparr>ulReportedPowerOnState := v, notifications := 1\<rparr>"
    using assms by (simp add: shadow_round_def prvIncomingPublishUpdateAcceptedCallback_def response_for_us_def)
  moreover have "wait_notified J [] (c\<lparr>notifications := 1\<rparr>) = (1, c\<lparr>notifications := 0\<rparr>, [])" for c
    by (subst wait_notified.simps) simp
  ultimately show ?thesis using assms(1,7)
    by (simp add: shadow_round_def Let_def) (simp add: wait_notified.simps)
qed

subsection \<open>Witnesses\<close>

text \<open>Documents of one character: an answer for the token 5, an answer without a number, and a delta.\<close>

definition ex_json :: json_ops where
  "ex_json = \<lparr>JSON_Validate = \<lambda>p. True,
     JSON_Search = \<lambda>p k.
       if p = ''a'' \<and> k = ''clientToken'' then Some ''5'' else if p = ''s'' \<and> k = ''clientToken'' then Some ''x''
       else if p = ''d'' \<and> k = ''version'' then Some ''7'' else if p = ''d'' \<and> k = ''state.powerOn'' then Some ''1''
       else if k = ''state.reported.powerOn'' then Some ''1'' else None\<rparr>"

lemma ex_numbers:
  "json_number ex_json ''a'' ''clientToken'' = Some 5" "json_number ex_json ''s'' ''clientToken'' = Some 0"
  "json_number ex_json ''d'' ''clientToken'' = None" "json_number ex_json ''a'' ''state.reported.powerOn'' = Some 1"
  "json_number ex_json ''s'' ''state.reported.powerOn'' = Some 1"
  by (simp_all add: json_number_def ex_json_def strtoul_def number_parts_def digits_value_def isspace_def isdigit_def)




end
