(* ===== verification/DefenderMetrics.thy ===== *)
theory DefenderMetrics
  imports CLib
begin

text \<open>
  The report of the device defender task: the metrics of the network (\<open>source/aws_demos/defender_metrics_collector_lwip.c\<close>)
  and the document around them (\<open>prvCollectDeviceMetrics\<close> and the encoding steps of \<open>vDefenderAgentTask\<close> in
  \<open>defender_task.c\<close>). The encoder of the CBOR library is the record \<open>cbor_ops\<close>, the lists of the network stack are the
  record \<open>net_state\<close>. Logging and the lock of the network stack are left out.
\<close>

type_synonym u64 = "64 word"
type_synonym CborError = u32

abbreviation (input) CborNoError :: CborError where "CborNoError \<equiv> 0"
abbreviation (input) CborUnknownError :: CborError where "CborUnknownError \<equiv> 1"

text \<open>Opening a container gives the encoder of the container beside the outer one, closing it brings the outer
  one up to date. A container of indefinite length has no count.\<close>

record 'e cbor_ops =
  cbor_encode_text_stringz :: "string \<Rightarrow> 'e \<Rightarrow> CborError \<times> 'e"
  cbor_encode_uint :: "u64 \<Rightarrow> 'e \<Rightarrow> CborError \<times> 'e"
  cbor_encoder_create_map :: "nat option \<Rightarrow> 'e \<Rightarrow> CborError \<times> 'e \<times> 'e"
  cbor_encoder_create_array :: "nat \<Rightarrow> 'e \<Rightarrow> CborError \<times> 'e \<times> 'e"
  cbor_encoder_close_container :: "'e \<Rightarrow> 'e \<Rightarrow> CborError \<times> 'e"

text \<open>The network stack: the counters of the interfaces, the control blocks, the default interface, the name of an
  interface, and the text of an address for a buffer of some length.\<close>

record netif_counters =
  ifinoctets :: u32
  ifoutoctets :: u32
  ifinucastpkts :: u32
  ifinnucastpkts :: u32
  ifoutucastpkts :: u32
  ifoutnucastpkts :: u32

record listen_pcb =
  state_listen :: bool
  port_netif_idx :: nat
  port_local :: u16

record 'ip tcp_pcb =
  remote_ip :: 'ip
  remote_port :: u16
  conn_netif_idx :: nat
  conn_local :: u16

record 'ip net_state =
  netif_list :: "netif_counters list"
  tcp_listen_pcbs :: "listen_pcb list"
  udp_pcbs :: "listen_pcb list"
  tcp_active_pcbs :: "'ip tcp_pcb list"
  netif_default :: "nat option"
  netif_index_to_name :: "nat \<Rightarrow> string option"
  ipaddr_ntoa_r :: "'ip \<Rightarrow> nat \<Rightarrow> string option"
  IPADDR_STRLEN_MAX :: nat

subsection \<open>Entries\<close>

definition cbor_add_kv_uint :: "'e cbor_ops \<Rightarrow> string \<Rightarrow> u64 \<Rightarrow> 'e \<Rightarrow> CborError \<times> 'e" where
  "cbor_add_kv_uint ops pcKey xUInt e =
     (let (xError, e) = cbor_encode_text_stringz ops pcKey e;
          (xError', e) = cbor_encode_uint ops xUInt e
      in (xError OR xError', e))"

definition cbor_add_kv_str :: "'e cbor_ops \<Rightarrow> string \<Rightarrow> string \<Rightarrow> 'e \<Rightarrow> CborError \<times> 'e" where
  "cbor_add_kv_str ops pcKey pcValue e =
     (let (xError, e) = cbor_encode_text_stringz ops pcKey e;
          (xError', e) = cbor_encode_text_stringz ops pcValue e
      in (xError OR xError', e))"

definition sum_counters :: "('a \<Rightarrow> u32) \<Rightarrow> 'a list \<Rightarrow> u64" where
  "sum_counters f xs = sum_list (map (\<lambda>x. ucast (f x)) xs)"

text \<open>The errors of the first two counters are forgotten when the third is written.\<close>

definition xGetNetworkStats :: "'e cbor_ops \<Rightarrow> 'ip net_state \<Rightarrow> 'e \<Rightarrow> CborError \<times> 'e" where
  "xGetNetworkStats ops net m =
     (let (xError, m) = cbor_encode_text_stringz ops ''ns'' m;
          (xError, m, ns) = (if xError = CborNoError then cbor_encoder_create_map ops (Some 4) m else (xError, m, m));
          xPktsIn = sum_counters ifinnucastpkts (netif_list net) + sum_counters ifinucastpkts (netif_list net);
          xPktsOut = sum_counters ifoutucastpkts (netif_list net) + sum_counters ifoutnucastpkts (netif_list net);
          (xError, ns) =
            (if xError = CborNoError
             then let (_, ns) = cbor_add_kv_uint ops ''pi'' xPktsIn ns;
                      (_, ns) = cbor_add_kv_uint ops ''po'' xPktsOut ns;
                      (xError, ns) = cbor_add_kv_uint ops ''bi'' (sum_counters ifinoctets (netif_list net)) ns;
                      (xError', ns) = cbor_add_kv_uint ops ''bo'' (sum_counters ifoutoctets (netif_list net)) ns
                  in (xError OR xError', ns)
             else (xError, ns))
      in if xError = CborNoError then cbor_encoder_close_container ops m ns else (xError, m))"

definition pcGetNetifName :: "'ip net_state \<Rightarrow> nat \<Rightarrow> string option" where
  "pcGetNetifName net ucNetifIdx =
     (if ucNetifIdx = 0
      then (case netif_default net of Some num \<Rightarrow> netif_index_to_name net num | None \<Rightarrow> Some ''any'')
      else netif_index_to_name net ucNetifIdx)"

subsection \<open>Ports\<close>

text \<open>One port of a list.\<close>

definition append_port :: "'e cbor_ops \<Rightarrow> 'ip net_state \<Rightarrow> listen_pcb \<Rightarrow> 'e \<Rightarrow> CborError \<times> 'e" where
  "append_port ops net p pts =
     (let (xError, pts, pt) =
        (case pcGetNetifName net (port_netif_idx p) of
           Some name \<Rightarrow>
             let (xError, pts, pt) = cbor_encoder_create_map ops (Some 2) pts;
                 (xError, pt) = (if xError = CborNoError then cbor_add_kv_str ops ''if'' name pt else (xError, pt))
             in (xError, pts, pt)
         | None \<Rightarrow> cbor_encoder_create_map ops (Some 1) pts);
        (xError, pt) = (if xError = CborNoError then cbor_add_kv_uint ops ''pt'' (ucast (port_local p)) pt else (xError, pt))
      in if xError = CborNoError then cbor_encoder_close_container ops pts pt else (xError, pts))"

text \<open>The loop over a list: an error of one element is forgotten with the next.\<close>

fun append_all :: "('a \<Rightarrow> 'e \<Rightarrow> CborError \<times> 'e) \<Rightarrow> 'a list \<Rightarrow> CborError \<times> 'e \<Rightarrow> CborError \<times> 'e" where
  "append_all f [] r = r"
| "append_all f (x # xs) r = append_all f xs (f x (snd r))"

definition xAppendTcpPtsToList :: "'e cbor_ops \<Rightarrow> 'ip net_state \<Rightarrow> 'e \<Rightarrow> CborError \<times> 'e" where
  "xAppendTcpPtsToList ops net pts = append_all (append_port ops net) (tcp_listen_pcbs net) (CborNoError, pts)"

definition xAppendUdpPtsToList :: "'e cbor_ops \<Rightarrow> 'ip net_state \<Rightarrow> 'e \<Rightarrow> CborError \<times> 'e" where
  "xAppendUdpPtsToList ops net pts = append_all (append_port ops net) (udp_pcbs net) (CborNoError, pts)"

text \<open>A map with the number of elements, and a list of them when there are any.\<close>

definition counted_list ::
  "'e cbor_ops \<Rightarrow> string \<Rightarrow> nat \<Rightarrow> ('e \<Rightarrow> CborError \<times> 'e) \<Rightarrow> CborError \<times> 'e \<Rightarrow> CborError \<times> 'e" where
  "counted_list ops key n add r =
     (case r of (xError, m) \<Rightarrow>
       let (xError, m, tp) =
             (if xError = CborNoError then cbor_encoder_create_map ops (Some (if n > 0 then 2 else 1)) m else (xError, m, m));
           (xError, tp) = (if xError = CborNoError then cbor_add_kv_uint ops ''t'' (word_of_nat n) tp else (xError, tp));
           (xError, tp) =
             (if n > 0
              then let (xError, tp) = (if xError = CborNoError then cbor_encode_text_stringz ops key tp else (xError, tp));
                       (xError, tp, pts) = (if xError = CborNoError then cbor_encoder_create_array ops n tp else (xError, tp, tp));
                       (xError, pts) = (if xError = CborNoError then add pts else (xError, pts))
                   in (if xError = CborNoError then cbor_encoder_close_container ops tp pts else (xError, tp))
              else (xError, tp))
       in if xError = CborNoError then cbor_encoder_close_container ops m tp else (xError, m))"

definition xCountListeningTcpPorts :: "'ip net_state \<Rightarrow> nat" where
  "xCountListeningTcpPorts net = length (filter state_listen (tcp_listen_pcbs net))"

definition xGetListeningTcpPorts :: "'e cbor_ops \<Rightarrow> 'ip net_state \<Rightarrow> 'e \<Rightarrow> CborError \<times> 'e" where
  "xGetListeningTcpPorts ops net m =
     counted_list ops ''pts'' (xCountListeningTcpPorts net) (xAppendTcpPtsToList ops net) (cbor_encode_text_stringz ops ''tp'' m)"

definition xCountListeningUdpPorts :: "'ip net_state \<Rightarrow> nat" where
  "xCountListeningUdpPorts net = length (udp_pcbs net)"

definition xGetListeningUdpPorts :: "'e cbor_ops \<Rightarrow> 'ip net_state \<Rightarrow> 'e \<Rightarrow> CborError \<times> 'e" where
  "xGetListeningUdpPorts ops net m =
     counted_list ops ''pts'' (xCountListeningUdpPorts net) (xAppendUdpPtsToList ops net) (cbor_encode_text_stringz ops ''up'' m)"

subsection \<open>Connections\<close>

text \<open>A character constant of C is an \<open>int\<close>, so the two \<open>sizeof\<close> count four characters each.\<close>

definition IPADDR_PORT_STR_LEN :: "'ip net_state \<Rightarrow> nat" where
  "IPADDR_PORT_STR_LEN net = IPADDR_STRLEN_MAX net + 4 + 5 + 4"

definition xIpAddrPortToString :: "'ip net_state \<Rightarrow> nat \<Rightarrow> 'ip \<Rightarrow> u16 \<Rightarrow> string option" where
  "xIpAddrPortToString net xBuffLen pxIpAddr usPort =
     (case ipaddr_ntoa_r net pxIpAddr xBuffLen of
        None \<Rightarrow> None
      | Some s \<Rightarrow>
          let s' = s @ '':'' @ dec (unat usPort)
          in if length s' \<le> xBuffLen then Some (snprintf xBuffLen s') else None)"

definition append_connection :: "'e cbor_ops \<Rightarrow> 'ip net_state \<Rightarrow> 'ip tcp_pcb \<Rightarrow> 'e \<Rightarrow> CborError \<times> 'e" where
  "append_connection ops net p cs =
     (let (xError, cs, c) = cbor_encoder_create_map ops (Some 3) cs;
          (xError, c) =
            (if xError = CborNoError
             then (case xIpAddrPortToString net (IPADDR_PORT_STR_LEN net) (remote_ip p) (remote_port p) of
                     Some s \<Rightarrow> cbor_add_kv_str ops ''rad'' s c
                   | None \<Rightarrow> (CborUnknownError, c))
             else (xError, c));
          (xError, c) =
            (case pcGetNetifName net (conn_netif_idx p) of
               Some name \<Rightarrow> if xError = CborNoError then cbor_add_kv_str ops ''li'' name c else (xError, c)
             | None \<Rightarrow> (CborUnknownError, c));
          (xError, c) = (if xError = CborNoError then cbor_add_kv_uint ops ''lp'' (ucast (conn_local p)) c else (xError, c))
      in if xError = CborNoError then cbor_encoder_close_container ops cs c else (xError, cs))"

definition xAppendTcpConnectionsToList :: "'e cbor_ops \<Rightarrow> 'ip net_state \<Rightarrow> 'e \<Rightarrow> CborError \<times> 'e" where
  "xAppendTcpConnectionsToList ops net cs = append_all (append_connection ops net) (tcp_active_pcbs net) (CborNoError, cs)"

definition xGetEstablishedConnections :: "'e cbor_ops \<Rightarrow> 'ip net_state \<Rightarrow> 'e \<Rightarrow> CborError \<times> 'e" where
  "xGetEstablishedConnections ops net m =
     (let (xError, m) = cbor_encode_text_stringz ops ''tc'' m;
          (xError, m, tc) = (if xError = CborNoError then cbor_encoder_create_map ops (Some 1) m else (xError, m, m));
          (xError, tc) = (if xError = CborNoError then cbor_encode_text_stringz ops ''ec'' tc else (xError, tc));
          (xError, tc) = counted_list ops ''cs'' (length (tcp_active_pcbs net)) (xAppendTcpConnectionsToList ops net) (xError, tc)
      in if xError = CborNoError then cbor_encoder_close_container ops m tc else (xError, m))"

subsection \<open>The report\<close>

definition prvCollectDeviceMetrics :: "'e cbor_ops \<Rightarrow> 'ip net_state \<Rightarrow> 'e \<Rightarrow> CborError \<times> 'e" where
  "prvCollectDeviceMetrics ops net e =
     (let (xError, e) = cbor_encode_text_stringz ops ''met'' e;
          (xError, e, m) = (if xError = CborNoError then cbor_encoder_create_map ops None e else (xError, e, e));
          (xError, m) = (if xError = CborNoError then xGetNetworkStats ops net m else (xError, m));
          (xError, m) = (if xError = CborNoError then xGetListeningTcpPorts ops net m else (xError, m));
          (xError, m) = (if xError = CborNoError then xGetListeningUdpPorts ops net m else (xError, m));
          (xError, m) = (if xError = CborNoError then xGetEstablishedConnections ops net m else (xError, m))
      in if xError = CborNoError then cbor_encoder_close_container ops e m else (xError, e))"

text \<open>The steps of the task: a map of indefinite length with the header and the metrics. The error of the text \<open>v\<close> is
  overwritten by that of its value.\<close>

definition build_report :: "'e cbor_ops \<Rightarrow> 'ip net_state \<Rightarrow> u32 \<Rightarrow> 'e \<Rightarrow> CborError \<times> 'e" where
  "build_report ops net ulReportId xEncoder =
     (let (xError, xEncoder, m) = cbor_encoder_create_map ops None xEncoder;
          (xError, m) = (if xError = CborNoError then cbor_encode_text_stringz ops ''hed'' m else (xError, m));
          (xError, m, h) = (if xError = CborNoError then cbor_encoder_create_map ops (Some 2) m else (xError, m, m));
          (xError, h) = (if xError = CborNoError then cbor_add_kv_uint ops ''rid'' (ucast ulReportId) h else (xError, h));
          (xError, h) =
            (if xError = CborNoError
             then let (_, h) = cbor_encode_text_stringz ops ''v'' h in cbor_encode_text_stringz ops ''1.0'' h
             else (xError, h));
          (xError, m) = (if xError = CborNoError then cbor_encoder_close_container ops m h else (xError, m));
          (xError, m) = (if xError = CborNoError then prvCollectDeviceMetrics ops net m else (xError, m))
      in if xError = CborNoError then cbor_encoder_close_container ops xEncoder m else (xError, xEncoder))"

end
