(* ===== verification/DefenderTask.thy ===== *)
theory DefenderTask
  imports DefenderMetrics AgentConfig
begin

text \<open>
  The device defender task (\<open>source/aws_demos/defender_task.c\<close>): its topics, its subscriptions, and its rounds, in
  each of which it publishes the report of \<open>DefenderMetrics\<close> and waits for the answer. The callbacks run in the task
  of the MQTT agent, here while this task waits or sleeps. The functions for the names of topics are parameters.
\<close>

subsection \<open>State\<close>

datatype ReportStatus_t = ReportStatusNotReceived | ReportStatusAccepted | ReportStatusRejected | ReportStatusInvalid

fun status_code :: "ReportStatus_t \<Rightarrow> u32" where
  "status_code ReportStatusNotReceived = 0"
| "status_code ReportStatusAccepted = 1"
| "status_code ReportStatusRejected = 2"
| "status_code ReportStatusInvalid = 3"

text \<open>The context, and the two notifications of the task: a value, and whether it has not been taken yet.\<close>

record DefenderAgentCtx_t =
  def_pcDeviceId :: "string option"
  uxDeviceIdLen :: nat
  pcPublishTopic :: "string option"
  pcAcceptedTopic :: "string option"
  pcRejectedTopic :: "string option"
  usPublishTopicLen :: u16
  xWaitingForCallback :: bool
  puback_notify :: "u32 \<times> bool"
  response_notify :: "u32 \<times> bool"

definition zero_defender :: "u32 \<times> bool \<Rightarrow> u32 \<times> bool \<Rightarrow> DefenderAgentCtx_t" where
  "zero_defender a r = \<lparr>def_pcDeviceId = None, uxDeviceIdLen = 0, pcPublishTopic = None, pcAcceptedTopic = None, pcRejectedTopic = None,
     usPublishTopicLen = 0, xWaitingForCallback = False, puback_notify = a, response_notify = r\<rparr>"

definition prvClearCtx :: "DefenderAgentCtx_t \<Rightarrow> DefenderAgentCtx_t" where
  "prvClearCtx ctx = zero_defender (puback_notify ctx) (response_notify ctx)"

text \<open>The defender library: \<open>Defender_GetTopic\<close> gets the size of the buffer, the name and its length; it gives whether it succeeded,
  the contents of the buffer, and the length it wrote.\<close>

record defender_lib =
  DEFENDER_API_CBOR_ACCEPTED :: string
  DEFENDER_API_CBOR_REJECTED :: string
  DEFENDER_API_LENGTH_CBOR_PUBLISH :: "nat \<Rightarrow> nat"
  Defender_GetTopic :: "u16 \<Rightarrow> string \<Rightarrow> u16 \<Rightarrow> bool \<times> string \<times> u16"

definition prvBuildDefenderTopicStrings :: "defender_lib \<Rightarrow> bool \<Rightarrow> DefenderAgentCtx_t \<Rightarrow> bool \<times> DefenderAgentCtx_t" where
  "prvBuildDefenderTopicStrings L mem ctx =
     (let ctx = ctx\<lparr>pcAcceptedTopic := Some (DEFENDER_API_CBOR_ACCEPTED L), pcRejectedTopic := Some (DEFENDER_API_CBOR_REJECTED L),
            usPublishTopicLen := word_of_nat (DEFENDER_API_LENGTH_CBOR_PUBLISH L (uxDeviceIdLen ctx))\<rparr>
      in if \<not> mem then (False, ctx\<lparr>pcPublishTopic := None\<rparr>)
         else let (ok, buf, usLenWritten) =
                    Defender_GetTopic L (usPublishTopicLen ctx) (the (def_pcDeviceId ctx)) (word_of_nat (uxDeviceIdLen ctx));
                  xRslt = (ok \<and> usLenWritten = usPublishTopicLen ctx)
              in (xRslt, ctx\<lparr>pcPublishTopic := (if xRslt then Some buf else None)\<rparr>))"

text \<open>The two callbacks by number, and what the task needs of its surroundings.\<close>

abbreviation (input) accepted_report_callback :: nat where "accepted_report_callback \<equiv> 1"
abbreviation (input) rejected_report_callback :: nat where "rejected_report_callback \<equiv> 2"

record defender_env =
  de_lib :: defender_lib
  de_getStringHeap :: "KVStoreKey_t \<Rightarrow> (byte list option \<times> nat) option"
  de_topic_mem :: bool
  de_has_agent :: bool
  de_mem :: bool
  de_subscribe :: "MQTTSubscribeInfo_t agent_request"
  de_unsubscribe :: "string agent_request"

definition prvSubscribeToDefenderTopics :: "defender_env \<Rightarrow> task \<Rightarrow> DefenderAgentCtx_t \<Rightarrow> SubMgrCtx_t \<Rightarrow> (bool \<times> SubMgrCtx_t) option" where
  "prvSubscribeToDefenderTopics E me ctx s = do {
     (xStatus, s) \<leftarrow> MqttAgent_SubscribeSync (de_mem E) (de_subscribe E) me (de_has_agent E) (pcAcceptedTopic ctx) 1
       (Some accepted_report_callback) 0 s;
     (xStatus, s) \<leftarrow> (if xStatus \<noteq> MQTTSuccess then Some (xStatus, s)
       else MqttAgent_SubscribeSync (de_mem E) (de_subscribe E) me (de_has_agent E) (pcRejectedTopic ctx) 1
         (Some rejected_report_callback) 0 s);
     Some (xStatus = MQTTSuccess, s)
   }"

definition prvUnsubscribeFromDefenderTopics :: "defender_env \<Rightarrow> task \<Rightarrow> DefenderAgentCtx_t \<Rightarrow> SubMgrCtx_t \<Rightarrow> SubMgrCtx_t option" where
  "prvUnsubscribeFromDefenderTopics E me ctx s = do {
     (_, s) \<leftarrow> MqttAgent_UnSubscribeSync (de_unsubscribe E) me (de_has_agent E) (pcAcceptedTopic ctx) (Some accepted_report_callback) 0 s;
     (_, s) \<leftarrow> MqttAgent_UnSubscribeSync (de_unsubscribe E) me (de_has_agent E) (pcRejectedTopic ctx) (Some rejected_report_callback) 0 s;
     Some s
   }"

subsection \<open>Callbacks\<close>

definition prvPublishOpCb :: "u32 \<Rightarrow> DefenderAgentCtx_t \<Rightarrow> DefenderAgentCtx_t" where
  "prvPublishOpCb returnCode ctx = (if xWaitingForCallback ctx then ctx\<lparr>puback_notify := (returnCode, True)\<rparr> else ctx)"

definition prvValidateDefenderResponse :: "string \<Rightarrow> bool" where
  "prvValidateDefenderResponse pcDefenderResponse = True"

definition prvReportAcceptedCallback :: "string \<Rightarrow> DefenderAgentCtx_t \<Rightarrow> DefenderAgentCtx_t" where
  "prvReportAcceptedCallback payload ctx =
     (if xWaitingForCallback ctx
      then let ulResponseStatus = (if prvValidateDefenderResponse payload then ReportStatusAccepted else ReportStatusInvalid)
           in ctx\<lparr>response_notify := (status_code ulResponseStatus, True)\<rparr>
      else ctx)"

definition prvReportRejectedCallback :: "string \<Rightarrow> DefenderAgentCtx_t \<Rightarrow> DefenderAgentCtx_t" where
  "prvReportRejectedCallback payload ctx =
     (if xWaitingForCallback ctx
      then let ulResponseStatus = (if prvValidateDefenderResponse payload then ReportStatusRejected else ReportStatusInvalid)
           in ctx\<lparr>response_notify := (status_code ulResponseStatus, True)\<rparr>
      else ctx)"

text \<open>What the MQTT agent may do: end the publish command with a return code, or deliver a response.\<close>

datatype defender_event = PubDone u32 | ReportAccepted string | ReportRejected string

fun defender_callback :: "defender_event \<Rightarrow> DefenderAgentCtx_t \<Rightarrow> DefenderAgentCtx_t" where
  "defender_callback (PubDone c) ctx = prvPublishOpCb c ctx"
| "defender_callback (ReportAccepted p) ctx = prvReportAcceptedCallback p ctx"
| "defender_callback (ReportRejected p) ctx = prvReportRejectedCallback p ctx"

subsection \<open>Rounds\<close>

text \<open>\<open>xTaskNotifyWaitIndexed\<close>: callbacks run until the notification is there, or until the time is over, which is the end of
  the list. The value is passed out in both cases; it is cleared when the notification is taken. The events left come later.\<close>

fun wait_puback :: "defender_event list \<Rightarrow> DefenderAgentCtx_t \<Rightarrow> bool \<times> u32 \<times> DefenderAgentCtx_t \<times> defender_event list" where
  "wait_puback evs ctx =
     (if snd (puback_notify ctx) then (True, fst (puback_notify ctx), ctx\<lparr>puback_notify := (0, False)\<rparr>, evs)
      else case evs of [] \<Rightarrow> (False, fst (puback_notify ctx), ctx, []) | e # evs \<Rightarrow> wait_puback evs (defender_callback e ctx))"

fun wait_response :: "defender_event list \<Rightarrow> DefenderAgentCtx_t \<Rightarrow> bool \<times> u32 \<times> DefenderAgentCtx_t \<times> defender_event list" where
  "wait_response evs ctx =
     (if snd (response_notify ctx) then (True, fst (response_notify ctx), ctx\<lparr>response_notify := (0, False)\<rparr>, evs)
      else case evs of [] \<Rightarrow> (False, fst (response_notify ctx), ctx, []) | e # evs \<Rightarrow> wait_response evs (defender_callback e ctx))"

declare wait_puback.simps [simp del] wait_response.simps [simp del]

text \<open>Publishing: \<open>publish\<close> is the status of the command, \<open>evs\<close> comes in the time it waits for the acknowledgement.
  The value passed out replaces \<open>MQTTIllegalState\<close> also when the time is over.\<close>

definition prvPublishDeviceMetricsReport ::
  "u32 \<Rightarrow> defender_event list \<Rightarrow> DefenderAgentCtx_t \<Rightarrow> bool \<times> DefenderAgentCtx_t \<times> defender_event list" where
  "prvPublishDeviceMetricsReport publish evs ctx =
     (let ctx = ctx\<lparr>xWaitingForCallback := True\<rparr>;
          ulStatus = publish;
          (ulStatus, ctx, evs) =
            (if ulStatus = 0 then (case wait_puback evs ctx of (_, v, ctx, evs) \<Rightarrow> (v, ctx, evs)) else (ulStatus, ctx, evs))
      in (ulStatus = 0, ctx, evs))"

text \<open>One round: \<open>tick\<close> is the tick count, \<open>e0\<close> the encoder on the empty buffer, \<open>acks\<close> comes while the task waits for the
  acknowledgement, \<open>answers\<close> while it waits for the response, \<open>later\<close> while it sleeps. The result has the encoder of the
  report that was published, if one was, whether publishing is said to have succeeded, and the status of the report.\<close>

record 'ip defender_inputs =
  di_net :: "'ip net_state"
  di_tick :: u32
  di_publish :: u32
  di_acks :: "defender_event list"
  di_answers :: "defender_event list"
  di_later :: "defender_event list"

fun report_status :: "u32 \<Rightarrow> ReportStatus_t" where
  "report_status v = (if v = 1 then ReportStatusAccepted else if v = 2 then ReportStatusRejected
     else if v = 3 then ReportStatusInvalid else ReportStatusNotReceived)"

definition defender_round ::
  "'e cbor_ops \<Rightarrow> 'e \<Rightarrow> 'ip defender_inputs \<Rightarrow> DefenderAgentCtx_t \<Rightarrow> ('e \<times> bool) option \<times> ReportStatus_t \<times> DefenderAgentCtx_t" where
  "defender_round ops e0 i ctx =
     (let (xError, xEncoder) = build_report ops (di_net i) (di_tick i) e0;
          (published, ctx, evs) =
            (if xError = CborNoError
             then (case prvPublishDeviceMetricsReport (di_publish i) (di_acks i) ctx of
                     (xSuccess, ctx, evs) \<Rightarrow> (Some (xEncoder, xSuccess), ctx, evs))
             else (None, ctx, di_acks i));
          (notified, ulNotificationValue, ctx, evs) = wait_response (evs @ di_answers i) ctx;
          xReportStatus = (if notified then report_status ulNotificationValue else ReportStatusNotReceived);
          ctx = ctx\<lparr>xWaitingForCallback := False\<rparr>
      in (published, xReportStatus, fold defender_callback (evs @ di_later i) ctx))"

text \<open>The loop, for the rounds it has done so far. Nothing sets \<open>xExitFlag\<close> once the loop is entered.\<close>

fun defender_rounds :: "'e cbor_ops \<Rightarrow> 'e \<Rightarrow> 'ip defender_inputs list \<Rightarrow> DefenderAgentCtx_t \<Rightarrow> ReportStatus_t list \<times> DefenderAgentCtx_t" where
  "defender_rounds ops e0 [] ctx = ([], ctx)"
| "defender_rounds ops e0 (i # is) ctx =
     (case defender_round ops e0 i ctx of (_, st, ctx) \<Rightarrow> case defender_rounds ops e0 is ctx of (sts, ctx) \<Rightarrow> (st # sts, ctx))"

subsection \<open>The task\<close>

text \<open>The task until its loop; when it does not enter the loop it unsubscribes, clears its context and ends.\<close>

definition vDefenderAgentTask :: "defender_env \<Rightarrow> task \<Rightarrow> SubMgrCtx_t \<Rightarrow> (bool \<times> DefenderAgentCtx_t \<times> SubMgrCtx_t) option" where
  "vDefenderAgentTask E me s = do {
     (pc, n) \<leftarrow> de_getStringHeap E CS_CORE_THING_NAME;
     let ctx = (zero_defender (0, False) (0, False))\<lparr>def_pcDeviceId := map_option (map char_of_byte) pc, uxDeviceIdLen := n\<rparr>;
     let xSuccess = (pc \<noteq> None \<and> n > 0 \<and> n < UINT16_MAX);
     let (xSuccess, ctx) = (if xSuccess then prvBuildDefenderTopicStrings (de_lib E) (de_topic_mem E) ctx else (xSuccess, ctx));
     (xSuccess, s) \<leftarrow> (if xSuccess then prvSubscribeToDefenderTopics E me ctx s else Some (xSuccess, s));
     if xSuccess then Some (True, ctx, s)
     else do { s \<leftarrow> prvUnsubscribeFromDefenderTopics E me ctx s; Some (False, prvClearCtx ctx, s) }
   }"

end
