(* ===== verification/DefenderSpec.thy ===== *)
theory DefenderSpec
  imports DefenderMetrics
begin

text \<open>
  The report of the defender task is a well-formed CBOR document with the state of the network in it.
\<close>

subsection \<open>Documents\<close>

text \<open>A CBOR document as the sequence of its heads and texts, and as a tree.\<close>

datatype cbor_token = CText string | CUint u64 | CMap "nat option" | CArray nat | CBreak

datatype cbor = Text string | Uint u64 | Fields "(string \<times> cbor) list" | OpenFields "(string \<times> cbor) list" | Items "cbor list"

text \<open>The tokens of a tree: a definite container has the number of its elements, an indefinite one a break at its end.\<close>

fun tokens :: "cbor \<Rightarrow> cbor_token list" where
  "tokens (Text s) = [CText s]"
| "tokens (Uint n) = [CUint n]"
| "tokens (Fields kvs) = CMap (Some (length kvs)) # concat (map (\<lambda>(k, v). CText k # tokens v) kvs)"
| "tokens (OpenFields kvs) = CMap None # concat (map (\<lambda>(k, v). CText k # tokens v) kvs) @ [CBreak]"
| "tokens (Items vs) = CArray (length vs) # concat (map tokens vs)"

text \<open>The number of bytes a token takes.\<close>

definition head_size :: "nat \<Rightarrow> nat" where
  "head_size n = (if n < 24 then 1 else if n < 2 ^ 8 then 2 else if n < 2 ^ 16 then 3 else if n < 2 ^ 32 then 5 else 9)"

fun token_size :: "cbor_token \<Rightarrow> nat" where
  "token_size (CText s) = head_size (length s) + length s"
| "token_size (CUint n) = head_size (unat n)"
| "token_size (CMap (Some n)) = head_size n"
| "token_size (CMap None) = 1"
| "token_size (CArray n) = head_size n"
| "token_size CBreak = 1"

definition size_of :: "cbor_token list \<Rightarrow> nat" where
  "size_of ts = sum_list (map token_size ts)"

lemma size_of_simps [simp]: "size_of [] = 0" "size_of (t # ts) = token_size t + size_of ts" "size_of (ts @ ts') = size_of ts + size_of ts'"
  by (simp_all add: size_of_def)

text \<open>What the report relies on of an encoder: \<open>toks\<close> is what it has written, with everything of the outer containers, and \<open>room\<close> the
  number of items its container is still to get, if that is known. An operation succeeds when its bytes fit into the buffer of \<open>cap\<close> bytes and
  its container has room for it, and a container can be closed once it has its items.\<close>

definition takes :: "nat option \<Rightarrow> nat \<Rightarrow> bool" where
  "takes r k \<longleftrightarrow> (case r of None \<Rightarrow> True | Some n \<Rightarrow> k \<le> n)"

definition less_room :: "nat \<Rightarrow> nat option \<Rightarrow> nat option" where
  "less_room k r = map_option (\<lambda>n. n - k) r"

definition fits :: "('e \<Rightarrow> cbor_token list) \<Rightarrow> ('e \<Rightarrow> nat option) \<Rightarrow> nat \<Rightarrow> nat \<Rightarrow> cbor_token list \<Rightarrow> 'e \<Rightarrow> bool" where
  "fits toks room cap k ts e \<longleftrightarrow> size_of (toks e) + size_of ts \<le> cap \<and> takes (room e) k"

text \<open>The operation \<open>f\<close> writes the \<open>k\<close> items \<open>ts\<close> wherever they fit.\<close>

definition emits ::
  "('e \<Rightarrow> cbor_token list) \<Rightarrow> ('e \<Rightarrow> nat option) \<Rightarrow> nat \<Rightarrow> ('e \<Rightarrow> CborError \<times> 'e) \<Rightarrow> nat \<Rightarrow> cbor_token list \<Rightarrow> bool" where
  "emits toks room cap f k ts \<longleftrightarrow>
     (\<forall>e. fits toks room cap k ts e \<longrightarrow> (\<exists>e'. f e = (CborNoError, e') \<and> toks e' = toks e @ ts \<and> room e' = less_room k (room e)))"

definition opens ::
  "('e \<Rightarrow> cbor_token list) \<Rightarrow> ('e \<Rightarrow> nat option) \<Rightarrow> nat \<Rightarrow> ('e \<Rightarrow> CborError \<times> 'e \<times> 'e) \<Rightarrow> cbor_token \<Rightarrow> nat option \<Rightarrow> bool" where
  "opens toks room cap f t n \<longleftrightarrow>
     (\<forall>e. fits toks room cap 1 [t] e \<longrightarrow>
        (\<exists>p c. f e = (CborNoError, p, c) \<and> room p = less_room 1 (room e) \<and> toks c = toks e @ [t] \<and> room c = n))"

definition closes :: "('e \<Rightarrow> cbor_token list) \<Rightarrow> ('e \<Rightarrow> nat option) \<Rightarrow> nat \<Rightarrow> ('e \<Rightarrow> 'e \<Rightarrow> CborError \<times> 'e) \<Rightarrow> nat option \<Rightarrow> cbor_token list \<Rightarrow> bool" where
  "closes toks room cap f r ts \<longleftrightarrow>
     (\<forall>p c. room c = r \<and> size_of (toks c) + size_of ts \<le> cap \<longrightarrow>
        (\<exists>p'. f p c = (CborNoError, p') \<and> toks p' = toks c @ ts \<and> room p' = room p))"

definition cbor_spec :: "'e cbor_ops \<Rightarrow> ('e \<Rightarrow> cbor_token list) \<Rightarrow> ('e \<Rightarrow> nat option) \<Rightarrow> nat \<Rightarrow> bool" where
  "cbor_spec ops toks room cap \<longleftrightarrow>
     (\<forall>s. emits toks room cap (cbor_encode_text_stringz ops s) 1 [CText s]) \<and>
     (\<forall>n. emits toks room cap (cbor_encode_uint ops n) 1 [CUint n]) \<and>
     (\<forall>n. opens toks room cap (cbor_encoder_create_map ops (Some n)) (CMap (Some n)) (Some (2 * n))) \<and>
     opens toks room cap (cbor_encoder_create_map ops None) (CMap None) None \<and>
     (\<forall>n. opens toks room cap (cbor_encoder_create_array ops n) (CArray n) (Some n)) \<and>
     closes toks room cap (cbor_encoder_close_container ops) (Some 0) [] \<and>
     closes toks room cap (cbor_encoder_close_container ops) None [CBreak]"

declare token_size.simps [simp del]

subsection \<open>Steps and containers\<close>

text \<open>The ways in which the code puts steps together: skipping the second one after an error, keeping both errors, forgetting
  the first one, and filling a container.\<close>

definition seq_ok :: "('e \<Rightarrow> CborError \<times> 'e) \<Rightarrow> ('e \<Rightarrow> CborError \<times> 'e) \<Rightarrow> 'e \<Rightarrow> CborError \<times> 'e" where
  "seq_ok f g e = (case f e of (x, e) \<Rightarrow> if x = CborNoError then g e else (x, e))"

definition seq_or :: "('e \<Rightarrow> CborError \<times> 'e) \<Rightarrow> ('e \<Rightarrow> CborError \<times> 'e) \<Rightarrow> 'e \<Rightarrow> CborError \<times> 'e" where
  "seq_or f g e = (case f e of (x, e) \<Rightarrow> case g e of (y, e) \<Rightarrow> (x OR y, e))"

definition seq_any :: "('e \<Rightarrow> CborError \<times> 'e) \<Rightarrow> ('e \<Rightarrow> CborError \<times> 'e) \<Rightarrow> 'e \<Rightarrow> CborError \<times> 'e" where
  "seq_any f g e = (case f e of (_, e) \<Rightarrow> g e)"

definition contained ::
  "'e cbor_ops \<Rightarrow> ('e \<Rightarrow> CborError \<times> 'e \<times> 'e) \<Rightarrow> ('e \<Rightarrow> CborError \<times> 'e) \<Rightarrow> 'e \<Rightarrow> CborError \<times> 'e" where
  "contained ops create body e =
     (case create e of (x, p, c) \<Rightarrow>
        if x = CborNoError then case body c of (y, c) \<Rightarrow> if y = CborNoError then cbor_encoder_close_container ops p c else (y, p)
        else (x, p))"

lemmas step_defs = seq_ok_def seq_or_def seq_any_def contained_def Let_def

text \<open>The steps of the code are brought into this form by moving the conditions and cases outwards.\<close>

lemma case_if: "(case (if b then p else q) of (x, y) \<Rightarrow> h x y) = (if b then case p of (x, y) \<Rightarrow> h x y else case q of (x, y) \<Rightarrow> h x y)"
  by simp

lemma case_case: "(case (case p of (a, b) \<Rightarrow> f a b) of (x, y) \<Rightarrow> h x y) = (case p of (a, b) \<Rightarrow> case f a b of (x, y) \<Rightarrow> h x y)"
  by (simp split: prod.split)

lemmas outwards = case_if case_case prod.case if_True if_False simp_thms

lemma emitsE:
  assumes "emits toks room cap f k ts" "fits toks room cap k ts e"
  obtains e' where "f e = (CborNoError, e')" "toks e' = toks e @ ts" "room e' = less_room k (room e)"
  using assms by (auto simp: emits_def)

lemma takes_less: "takes r (j + k) \<Longrightarrow> takes r j \<and> takes (less_room j r) k"
  by (cases r) (auto simp: takes_def less_room_def)

lemma less_less [simp]: "less_room k (less_room j r) = less_room (j + k) r"
  by (cases r) (auto simp: less_room_def)

lemma emits_both:
  assumes "emits toks room cap f j ts" "emits toks room cap g k ts'" "fits toks room cap (j + k) (ts @ ts') e"
  obtains e1 e2 where "f e = (CborNoError, e1)" "g e1 = (CborNoError, e2)" "toks e2 = toks e @ ts @ ts'" "room e2 = less_room (j + k) (room e)"
proof -
  have room: "takes (room e) j \<and> takes (less_room j (room e)) k" using assms(3) by (intro takes_less) (simp add: fits_def)
  have "fits toks room cap j ts e" using assms(3) room by (simp add: fits_def)
  with assms(1) obtain e1 where e1: "f e = (CborNoError, e1)" "toks e1 = toks e @ ts" "room e1 = less_room j (room e)" by (rule emitsE)
  have "fits toks room cap k ts' e1" using assms(3) room e1 by (simp add: fits_def)
  with assms(2) obtain e2 where "g e1 = (CborNoError, e2)" "toks e2 = toks e1 @ ts'" "room e2 = less_room k (room e1)" by (rule emitsE)
  with e1 that show ?thesis by simp
qed

lemma emits_seq:
  assumes "emits toks room cap f j ts" "emits toks room cap g k ts'"
  shows "emits toks room cap (seq_ok f g) (j + k) (ts @ ts')" "emits toks room cap (seq_or f g) (j + k) (ts @ ts')"
    "emits toks room cap (seq_any f g) (j + k) (ts @ ts')"
  unfolding emits_def by (auto elim!: emits_both [OF assms] simp: step_defs)

lemma emits_skip: "emits toks room cap (\<lambda>e. (CborNoError, e)) 0 []"
  by (simp add: emits_def less_room_def option.map_ident)

lemma emits_contained:
  assumes "opens toks room cap create t r" "emits toks room cap body k ts" "takes r k" "less_room k r = r'"
    and "closes toks room cap (cbor_encoder_close_container ops) r' ts'"
  shows "emits toks room cap (contained ops create body) 1 (t # ts @ ts')"
  unfolding emits_def
proof (intro allI impI)
  fix e
  assume fit: "fits toks room cap 1 (t # ts @ ts') e"
  then have "fits toks room cap 1 [t] e" by (simp add: fits_def)
  then obtain p c where c: "create e = (CborNoError, p, c)" "room p = less_room 1 (room e)" "toks c = toks e @ [t]" "room c = r"
    using assms(1) unfolding opens_def by blast
  have "fits toks room cap k ts c" using fit c(3,4) assms(3) by (simp add: fits_def)
  with assms(2) obtain c' where c': "body c = (CborNoError, c')" "toks c' = toks c @ ts" "room c' = less_room k (room c)" by (rule emitsE)
  have "room c' = r'" "size_of (toks c') + size_of ts' \<le> cap" using fit c c' assms(4) by (simp_all add: fits_def)
  then obtain p' where "cbor_encoder_close_container ops p c' = (CborNoError, p')" "toks p' = toks c' @ ts'" "room p' = room p"
    using assms(5) unfolding closes_def by blast
  with c c' show "\<exists>e'. contained ops create body e = (CborNoError, e') \<and> toks e' = toks e @ t # ts @ ts' \<and> room e' = less_room 1 (room e)"
    by (simp add: contained_def)
qed

lemma emits_text: "cbor_spec ops toks room cap \<Longrightarrow> emits toks room cap (cbor_encode_text_stringz ops s) 1 [CText s]"
  and emits_uint: "cbor_spec ops toks room cap \<Longrightarrow> emits toks room cap (cbor_encode_uint ops n) 1 [CUint n]"
  by (simp_all add: cbor_spec_def)

lemma emits_map:
  assumes "cbor_spec ops toks room cap" "emits toks room cap body k ts" "k = 2 * n"
  shows "emits toks room cap (contained ops (cbor_encoder_create_map ops (Some n)) body) 1 (CMap (Some n) # ts)"
  using emits_contained [OF _ assms(2), of _ _ "Some k" "Some 0" ops "[]"] assms(1,3)
  by (simp add: cbor_spec_def takes_def less_room_def)

lemma emits_open_map:
  assumes "cbor_spec ops toks room cap" "emits toks room cap body k ts"
  shows "emits toks room cap (contained ops (cbor_encoder_create_map ops None) body) 1 (CMap None # ts @ [CBreak])"
  using emits_contained [OF _ assms(2), of _ _ None None ops "[CBreak]"] assms(1)
  by (simp add: cbor_spec_def takes_def less_room_def)

lemma emits_array:
  assumes "cbor_spec ops toks room cap" "emits toks room cap body n ts"
  shows "emits toks room cap (contained ops (cbor_encoder_create_array ops n) body) 1 (CArray n # ts)"
  using emits_contained [OF _ assms(2), of _ _ "Some n" "Some 0" ops "[]"] assms(1)
  by (simp add: cbor_spec_def takes_def less_room_def)

lemma emits_kv:
  assumes "cbor_spec ops toks room cap"
  shows "emits toks room cap (cbor_add_kv_uint ops k n) 2 [CText k, CUint n]"
    and "emits toks room cap (cbor_add_kv_str ops k v) 2 [CText k, CText v]"
proof -
  have "cbor_add_kv_uint ops k n = seq_or (cbor_encode_text_stringz ops k) (cbor_encode_uint ops n)"
    and "cbor_add_kv_str ops k v = seq_or (cbor_encode_text_stringz ops k) (cbor_encode_text_stringz ops v)"
    by (simp_all add: fun_eq_iff cbor_add_kv_uint_def cbor_add_kv_str_def seq_or_def)
  then show "emits toks room cap (cbor_add_kv_uint ops k n) 2 [CText k, CUint n]"
    and "emits toks room cap (cbor_add_kv_str ops k v) 2 [CText k, CText v]"
    using emits_seq(2) [OF emits_text [OF assms] emits_uint [OF assms]] emits_seq(2) [OF emits_text [OF assms] emits_text [OF assms]]
    by (simp_all add: numeral_2_eq_2)
qed

lemma emits_all:
  assumes "\<And>x. x \<in> set xs \<Longrightarrow> emits toks room cap (f x) 1 (g x)"
  shows "emits toks room cap (\<lambda>e. append_all f xs (CborNoError, e)) (length xs) (concat (map g xs))"
  using assms
proof (induction xs)
  case (Cons x xs)
  then have x: "emits toks room cap (f x) 1 (g x)" and xs: "emits toks room cap (\<lambda>e. append_all f xs (CborNoError, e)) (length xs) (concat (map g xs))"
    by simp_all
  show ?case unfolding emits_def by (auto elim!: emits_both [OF x xs, unfolded plus_1_eq_Suc])
qed (simp add: emits_skip)

text \<open>One way to show that a step writes a tree: its form, and the rules for the forms.\<close>

lemma emits_as: "f = f' \<Longrightarrow> emits toks room cap f' k' ts' \<Longrightarrow> k' = k \<Longrightarrow> ts' = ts \<Longrightarrow> emits toks room cap f k ts"
  by simp

lemmas emits_rules = emits_seq emits_map emits_open_map emits_array emits_kv emits_text emits_uint

subsection \<open>The parts of the report\<close>

text \<open>The report as a tree, read off the lists of the network stack.\<close>

definition stats_tree :: "'ip net_state \<Rightarrow> cbor" where
  "stats_tree net = Fields
     [(''pi'', Uint (sum_counters ifinnucastpkts (netif_list net) + sum_counters ifinucastpkts (netif_list net))),
      (''po'', Uint (sum_counters ifoutucastpkts (netif_list net) + sum_counters ifoutnucastpkts (netif_list net))),
      (''bi'', Uint (sum_counters ifinoctets (netif_list net))), (''bo'', Uint (sum_counters ifoutoctets (netif_list net)))]"

definition port_tree :: "'ip net_state \<Rightarrow> listen_pcb \<Rightarrow> cbor" where
  "port_tree net p = Fields
     ((case pcGetNetifName net (port_netif_idx p) of Some name \<Rightarrow> [(''if'', Text name)] | None \<Rightarrow> []) @
      [(''pt'', Uint (ucast (port_local p)))])"

definition counted_tree :: "string \<Rightarrow> cbor list \<Rightarrow> cbor" where
  "counted_tree key xs = Fields ((''t'', Uint (word_of_nat (length xs))) # (if xs = [] then [] else [(key, Items xs)]))"

text \<open>Everything about a connection is known: its address as text, and its interface.\<close>

definition connection_known :: "'ip net_state \<Rightarrow> 'ip tcp_pcb \<Rightarrow> bool" where
  "connection_known net p \<longleftrightarrow>
     xIpAddrPortToString net (IPADDR_PORT_STR_LEN net) (remote_ip p) (remote_port p) \<noteq> None \<and> pcGetNetifName net (conn_netif_idx p) \<noteq> None"

definition connection_tree :: "'ip net_state \<Rightarrow> 'ip tcp_pcb \<Rightarrow> cbor" where
  "connection_tree net p = Fields
     [(''rad'', Text (the (xIpAddrPortToString net (IPADDR_PORT_STR_LEN net) (remote_ip p) (remote_port p)))),
      (''li'', Text (the (pcGetNetifName net (conn_netif_idx p)))), (''lp'', Uint (ucast (conn_local p)))]"

definition metrics_fields :: "'ip net_state \<Rightarrow> (string \<times> cbor) list" where
  "metrics_fields net =
     [(''ns'', stats_tree net), (''tp'', counted_tree ''pts'' (map (port_tree net) (tcp_listen_pcbs net))),
      (''up'', counted_tree ''pts'' (map (port_tree net) (udp_pcbs net))),
      (''tc'', Fields [(''ec'', counted_tree ''cs'' (map (connection_tree net) (tcp_active_pcbs net)))])]"

definition report_tree :: "'ip net_state \<Rightarrow> u32 \<Rightarrow> cbor" where
  "report_tree net rid = OpenFields
     [(''hed'', Fields [(''rid'', Uint (ucast rid)), (''v'', Text ''1.0'')]), (''met'', OpenFields (metrics_fields net))]"

text \<open>What the report needs of the network stack: listening control blocks listen, and connections are known.\<close>

definition net_ok :: "'ip net_state \<Rightarrow> bool" where
  "net_ok net \<longleftrightarrow> list_all state_listen (tcp_listen_pcbs net) \<and> list_all (connection_known net) (tcp_active_pcbs net)"

lemma port_emits:
  assumes "cbor_spec ops toks room cap"
  shows "emits toks room cap (append_port ops net p) 1 (tokens (port_tree net p))"
proof (cases "pcGetNetifName net (port_netif_idx p)")
  case None
  show ?thesis
    by (rule emits_as [where f' = "contained ops (cbor_encoder_create_map ops (Some 1)) (cbor_add_kv_uint ops ''pt'' (ucast (port_local p)))"])
      (rule emits_rules assms | simp add: fun_eq_iff append_port_def contained_def port_tree_def None split: prod.split)+
next
  case (Some name)
  show ?thesis
    by (rule emits_as [where f' = "contained ops (cbor_encoder_create_map ops (Some 2))
          (seq_ok (cbor_add_kv_str ops ''if'' name) (cbor_add_kv_uint ops ''pt'' (ucast (port_local p))))"])
      (rule emits_rules assms | simp add: fun_eq_iff append_port_def contained_def seq_ok_def port_tree_def Some split: prod.split)+
qed
lemma stats_form: "xGetNetworkStats ops net = seq_ok (cbor_encode_text_stringz ops ''ns'') (contained ops (cbor_encoder_create_map ops (Some 4))
    (seq_any (cbor_add_kv_uint ops ''pi'' (sum_counters ifinnucastpkts (netif_list net) + sum_counters ifinucastpkts (netif_list net)))
    (seq_any (cbor_add_kv_uint ops ''po'' (sum_counters ifoutucastpkts (netif_list net) + sum_counters ifoutnucastpkts (netif_list net)))
    (seq_or (cbor_add_kv_uint ops ''bi'' (sum_counters ifinoctets (netif_list net)))
      (cbor_add_kv_uint ops ''bo'' (sum_counters ifoutoctets (netif_list net)))))))"
  by (rule ext, unfold xGetNetworkStats_def step_defs) (simp only: outwards cong: if_cong prod.case_cong)

lemma stats_emits:
  assumes "cbor_spec ops toks room cap"
  shows "emits toks room cap (xGetNetworkStats ops net) 2 (CText ''ns'' # tokens (stats_tree net))"
  by (rule emits_as [OF stats_form]) (rule emits_rules assms | simp add: stats_tree_def)+

lemma connection_emits:
  assumes "cbor_spec ops toks room cap" "connection_known net p"
  shows "emits toks room cap (append_connection ops net p) 1 (tokens (connection_tree net p))"
proof -
  obtain s name where known: "xIpAddrPortToString net (IPADDR_PORT_STR_LEN net) (remote_ip p) (remote_port p) = Some s"
    "pcGetNetifName net (conn_netif_idx p) = Some name" using assms(2) by (auto simp: connection_known_def)
  have "append_connection ops net p = contained ops (cbor_encoder_create_map ops (Some 3))
      (seq_ok (cbor_add_kv_str ops ''rad'' s) (seq_ok (cbor_add_kv_str ops ''li'' name) (cbor_add_kv_uint ops ''lp'' (ucast (conn_local p)))))"
    by (rule ext, unfold append_connection_def step_defs known option.case) (simp only: outwards cong: if_cong prod.case_cong)
  then show ?thesis by (rule emits_as) (rule emits_rules assms | simp add: connection_tree_def known)+
qed

lemma counted_form: "(\<lambda>m. counted_list ops key n add (CborNoError, m)) = contained ops (cbor_encoder_create_map ops (Some (if n > 0 then 2 else 1)))
    (seq_ok (cbor_add_kv_uint ops ''t'' (word_of_nat n))
      (if n > 0 then seq_ok (cbor_encode_text_stringz ops key) (contained ops (cbor_encoder_create_array ops n) add) else (\<lambda>e. (CborNoError, e))))"
  by (cases "n > 0"; rule ext, unfold counted_list_def step_defs) (auto simp: outwards split: prod.split)

lemma counted_emits:
  assumes "cbor_spec ops toks room cap" "emits toks room cap add (length xs) (concat (map tokens xs))"
  shows "emits toks room cap (\<lambda>m. counted_list ops key (length xs) add (CborNoError, m)) 1 (tokens (counted_tree key xs))"
proof (cases "xs = []")
  case True
  then show ?thesis by (intro emits_as [OF counted_form]) (rule emits_rules emits_skip assms | simp add: counted_tree_def)+
next
  case False
  then show ?thesis by (intro emits_as [OF counted_form]) (rule emits_rules assms | simp add: counted_tree_def)+
qed

lemma counted_error: "x \<noteq> CborNoError \<Longrightarrow> counted_list ops key n add (x, m) = (x, m)"
  by (simp add: counted_list_def)

lemma counted_seq: "counted_list ops key n add (f m) = seq_ok f (\<lambda>m. counted_list ops key n add (CborNoError, m)) m"
  by (auto simp: seq_ok_def counted_error split: prod.split)

lemma list_emits:
  assumes "\<And>x. x \<in> set xs \<Longrightarrow> emits toks room cap (f x) 1 (tokens (g x))"
  shows "emits toks room cap (\<lambda>e. append_all f xs (CborNoError, e)) (length (map g xs)) (concat (map tokens (map g xs)))"
  using emits_all [OF assms] by (simp add: comp_def)

lemma tcp_ports_emits:
  assumes "cbor_spec ops toks room cap" "list_all state_listen (tcp_listen_pcbs net)"
  shows "emits toks room cap (xGetListeningTcpPorts ops net) 2 (CText ''tp'' # tokens (counted_tree ''pts'' (map (port_tree net) (tcp_listen_pcbs net))))"
proof -
  have "xCountListeningTcpPorts net = length (map (port_tree net) (tcp_listen_pcbs net))"
    using assms(2) by (simp add: xCountListeningTcpPorts_def list_all_iff)
  then have "xGetListeningTcpPorts ops net = seq_ok (cbor_encode_text_stringz ops ''tp'')
      (\<lambda>m. counted_list ops ''pts'' (length (map (port_tree net) (tcp_listen_pcbs net))) (xAppendTcpPtsToList ops net) (CborNoError, m))"
    by (intro ext) (simp only: xGetListeningTcpPorts_def, rule counted_seq)
  then show ?thesis unfolding xAppendTcpPtsToList_def [abs_def]
    by (rule emits_as [OF _ emits_seq(1) [OF emits_text [OF assms(1)] counted_emits [OF assms(1) list_emits [OF port_emits [OF assms(1)]]]]]) simp_all
qed

lemma udp_ports_emits:
  assumes "cbor_spec ops toks room cap"
  shows "emits toks room cap (xGetListeningUdpPorts ops net) 2 (CText ''up'' # tokens (counted_tree ''pts'' (map (port_tree net) (udp_pcbs net))))"
proof -
  have "xGetListeningUdpPorts ops net = seq_ok (cbor_encode_text_stringz ops ''up'')
      (\<lambda>m. counted_list ops ''pts'' (length (map (port_tree net) (udp_pcbs net))) (xAppendUdpPtsToList ops net) (CborNoError, m))"
    by (intro ext) (simp only: xGetListeningUdpPorts_def xCountListeningUdpPorts_def length_map, rule counted_seq)
  then show ?thesis unfolding xAppendUdpPtsToList_def [abs_def]
    by (rule emits_as [OF _ emits_seq(1) [OF emits_text [OF assms(1)] counted_emits [OF assms(1) list_emits [OF port_emits [OF assms(1)]]]]]) simp_all
qed

lemma connections_emits:
  assumes "cbor_spec ops toks room cap" "list_all (connection_known net) (tcp_active_pcbs net)"
  shows "emits toks room cap (xGetEstablishedConnections ops net) 2
     (CText ''tc'' # tokens (Fields [(''ec'', counted_tree ''cs'' (map (connection_tree net) (tcp_active_pcbs net)))]))"
proof -
  let ?cs = "\<lambda>m. counted_list ops ''cs'' (length (map (connection_tree net) (tcp_active_pcbs net))) (xAppendTcpConnectionsToList ops net) (CborNoError, m)"
  have "xGetEstablishedConnections ops net = seq_ok (cbor_encode_text_stringz ops ''tc'') (contained ops (cbor_encoder_create_map ops (Some 1))
        (seq_ok (cbor_encode_text_stringz ops ''ec'') ?cs))"
    by (auto simp: fun_eq_iff xGetEstablishedConnections_def step_defs counted_error split: prod.split)
  moreover have "emits toks room cap ?cs 1 (tokens (counted_tree ''cs'' (map (connection_tree net) (tcp_active_pcbs net))))"
    unfolding xAppendTcpConnectionsToList_def [abs_def] using assms(2)
    by (intro counted_emits [OF assms(1)] list_emits connection_emits [OF assms(1)]) (simp add: list_all_iff)
  ultimately show ?thesis by - (rule emits_as, assumption, (rule emits_rules assms(1) | assumption | simp)+)
qed

lemma metrics_form: "prvCollectDeviceMetrics ops net = seq_ok (cbor_encode_text_stringz ops ''met'') (contained ops (cbor_encoder_create_map ops None)
    (seq_ok (xGetNetworkStats ops net) (seq_ok (xGetListeningTcpPorts ops net)
    (seq_ok (xGetListeningUdpPorts ops net) (xGetEstablishedConnections ops net)))))"
  by (rule ext, unfold prvCollectDeviceMetrics_def step_defs) (simp only: outwards cong: if_cong prod.case_cong)

lemma metrics_emits:
  assumes "cbor_spec ops toks room cap" "net_ok net"
  shows "emits toks room cap (prvCollectDeviceMetrics ops net) 2 (CText ''met'' # tokens (OpenFields (metrics_fields net)))"
  using assms(2) unfolding net_ok_def
  by (intro emits_as [OF metrics_form])
    (rule emits_seq emits_text emits_open_map stats_emits tcp_ports_emits udp_ports_emits connections_emits assms(1) | simp add: metrics_fields_def)+

lemma report_form: "build_report ops net rid = contained ops (cbor_encoder_create_map ops None) (seq_ok (cbor_encode_text_stringz ops ''hed'')
    (seq_ok (contained ops (cbor_encoder_create_map ops (Some 2)) (seq_ok (cbor_add_kv_uint ops ''rid'' (ucast rid))
      (seq_any (cbor_encode_text_stringz ops ''v'') (cbor_encode_text_stringz ops ''1.0''))))
    (prvCollectDeviceMetrics ops net)))"
  by (rule ext, unfold build_report_def step_defs) (simp only: outwards cong: if_cong prod.case_cong)


text \<open>An encoder that keeps the tokens, and a small network.\<close>

type_synonym token_buffer = "cbor_token list \<times> nat option"

definition put_token :: "nat \<Rightarrow> cbor_token \<Rightarrow> token_buffer \<Rightarrow> CborError \<times> token_buffer" where
  "put_token cap t e = (if fits fst snd cap 1 [t] e then (CborNoError, fst e @ [t], less_room 1 (snd e)) else (CborUnknownError, e))"

definition open_with :: "nat \<Rightarrow> cbor_token \<Rightarrow> nat option \<Rightarrow> token_buffer \<Rightarrow> CborError \<times> token_buffer \<times> token_buffer" where
  "open_with cap t n e = (case put_token cap t e of (x, p) \<Rightarrow> (x, p, fst p, n))"

definition token_encoder :: "nat \<Rightarrow> token_buffer cbor_ops" where
  "token_encoder cap =
     \<lparr>cbor_encode_text_stringz = (\<lambda>s. put_token cap (CText s)), cbor_encode_uint = (\<lambda>n. put_token cap (CUint n)),
      cbor_encoder_create_map = (\<lambda>n. open_with cap (CMap n) (map_option ((*) 2) n)),
      cbor_encoder_create_array = (\<lambda>n. open_with cap (CArray n) (Some n)),
      cbor_encoder_close_container = (\<lambda>p c.
        if snd c = None \<and> size_of (fst c) + 1 \<le> cap then (CborNoError, fst c @ [CBreak], snd p)
        else if snd c = Some 0 then (CborNoError, fst c, snd p) else (CborUnknownError, p))\<rparr>"

lemma token_encoder_spec: "cbor_spec (token_encoder cap) fst snd cap"
  by (simp add: cbor_spec_def emits_def opens_def closes_def token_encoder_def open_with_def put_token_def token_size.simps)

definition small_net :: "nat net_state" where
  "small_net = \<lparr>netif_list = [\<lparr>ifinoctets = 100, ifoutoctets = 200, ifinucastpkts = 3, ifinnucastpkts = 4, ifoutucastpkts = 5, ifoutnucastpkts = 6\<rparr>],
     tcp_listen_pcbs = [], udp_pcbs = [\<lparr>state_listen = False, port_netif_idx = 0, port_local = 68\<rparr>],
     tcp_active_pcbs = [\<lparr>remote_ip = 1, remote_port = 8883, conn_netif_idx = 1, conn_local = 49153\<rparr>],
     netif_default = Some 1, netif_index_to_name = (\<lambda>_. Some ''en1''), ipaddr_ntoa_r = (\<lambda>_ _. Some ''10.0.0.1''), IPADDR_STRLEN_MAX = 16\<rparr>"


end
