(* ===== verification/DefenderTaskSpec.thy ===== *)
theory DefenderTaskSpec
  imports DefenderTask DefenderSpec
begin

text \<open>What the defender task takes for the end of its publish and for the answer to its report.\<close>

subsection \<open>Acknowledgements\<close>

fun acks :: "defender_event list \<Rightarrow> u32 list" where
  "acks [] = []"
| "acks (PubDone c # evs) = c # acks evs"
| "acks (_ # evs) = acks evs"

lemmas callback_defs = prvPublishOpCb_def prvReportAcceptedCallback_def prvReportRejectedCallback_def prvValidateDefenderResponse_def

lemma waiting_kept [simp]: "xWaitingForCallback (defender_callback e ctx) = xWaitingForCallback ctx"
  by (cases e) (simp_all add: callback_defs Let_def)

lemma idle_callbacks: "\<not> xWaitingForCallback ctx \<Longrightarrow> fold defender_callback evs ctx = ctx"
proof (induction evs)
  case (Cons e evs)
  then show ?case by (cases e) (simp_all add: callback_defs)
qed simp

lemma wait_puback_value:
  "xWaitingForCallback ctx \<Longrightarrow> fst (snd (wait_puback evs ctx)) =
     (if snd (puback_notify ctx) then fst (puback_notify ctx) else case acks evs of [] \<Rightarrow> fst (puback_notify ctx) | c # _ \<Rightarrow> c)"
proof (induction evs arbitrary: ctx)
  case (Cons e evs)
  show ?case
  proof (cases "snd (puback_notify ctx)")
    case False
    then have "fst (snd (wait_puback (e # evs) ctx)) = fst (snd (wait_puback evs (defender_callback e ctx)))"
      by (subst wait_puback.simps) simp
    then show ?thesis using False Cons.prems Cons.IH [of "defender_callback e ctx"] by (cases e) (simp_all add: callback_defs Let_def cong: list.case_cong)
  qed (subst wait_puback.simps, simp)
qed (subst wait_puback.simps, simp)

text \<open>
  When publishing a report is said to have succeeded: the agent has taken the command, and the return code is success, where
  the code is that of an acknowledgement still pending from an earlier report if there is one, otherwise the first to
  come in time, and when none comes the old notification value, which is 0 and so counts as success.
\<close>

lemma defender_publish_result:
  "fst (prvPublishDeviceMetricsReport publish evs ctx) =
     (publish = 0 \<and>
      (if snd (puback_notify ctx) then fst (puback_notify ctx) = 0
       else case acks evs of [] \<Rightarrow> fst (puback_notify ctx) = 0 | c # _ \<Rightarrow> c = 0))"
  using wait_puback_value [of "ctx\<lparr>xWaitingForCallback := True\<rparr>" evs]
  by (cases "publish = 0"; cases "acks evs") (simp_all add: prvPublishDeviceMetricsReport_def Let_def case_prod_unfold)

subsection \<open>Answers\<close>

fun is_answer :: "defender_event \<Rightarrow> bool" where
  "is_answer (PubDone c) = False"
| "is_answer (ReportAccepted p) = True"
| "is_answer (ReportRejected p) = True"

fun answer_code :: "defender_event \<Rightarrow> u32" where
  "answer_code (ReportAccepted p) = 1"
| "answer_code (ReportRejected p) = 2"
| "answer_code (PubDone c) = 0"

definition answers_with :: "u32 \<Rightarrow> defender_event \<Rightarrow> bool" where
  "answers_with v e \<longleftrightarrow> is_answer e \<and> answer_code e = v"

text \<open>A pending response is one of the answers that came, and no answer was lost.\<close>

definition from_answers :: "defender_event list \<Rightarrow> DefenderAgentCtx_t \<Rightarrow> bool" where
  "from_answers evs ctx \<longleftrightarrow>
     (if snd (response_notify ctx) then list_ex (answers_with (fst (response_notify ctx))) evs else \<not> list_ex is_answer evs)"

lemma callback_from_answers:
  "from_answers evs ctx \<Longrightarrow> xWaitingForCallback ctx \<Longrightarrow> from_answers (evs @ [e]) (defender_callback e ctx)"
  by (cases e) (auto simp: from_answers_def answers_with_def callback_defs Let_def split: if_splits)

lemma wait_puback_answers:
  assumes "from_answers before ctx" "xWaitingForCallback ctx" "wait_puback evs ctx = (b, v, ctx', evs')"
  shows "\<exists>seen. evs = seen @ evs' \<and> from_answers (before @ seen) ctx' \<and> xWaitingForCallback ctx'"
  using assms
proof (induction evs arbitrary: before ctx)
  case (Cons e evs)
  show ?case
  proof (cases "snd (puback_notify ctx)")
    case True
    then show ?thesis using Cons.prems by (subst (asm) wait_puback.simps) (auto simp: from_answers_def)
  next
    case False
    then have "wait_puback evs (defender_callback e ctx) = (b, v, ctx', evs')"
      using Cons.prems by (subst (asm) wait_puback.simps) simp
    then have "\<exists>seen. evs = seen @ evs' \<and> from_answers ((before @ [e]) @ seen) ctx' \<and> xWaitingForCallback ctx'"
      using Cons.prems by (intro Cons.IH [of _ "defender_callback e ctx"] callback_from_answers) simp_all
    then show ?thesis by (metis append_Cons append_Nil append_assoc)
  qed
next
  case Nil
  then show ?case by (subst (asm) wait_puback.simps) (auto simp: from_answers_def split: if_splits)
qed

lemma wait_response_answers:
  assumes "from_answers before ctx" "xWaitingForCallback ctx" "wait_response evs ctx = (b, v, ctx', evs')"
  shows "\<not> snd (response_notify ctx') \<and>
    (if b then list_ex (answers_with v) (before @ evs) else \<not> list_ex is_answer (before @ evs))"
  using assms
proof (induction evs arbitrary: before ctx)
  case (Cons e evs)
  show ?case
  proof (cases "snd (response_notify ctx)")
    case True
    then show ?thesis using Cons.prems by (subst (asm) wait_response.simps) (auto simp: from_answers_def)
  next
    case False
    then have "wait_response evs (defender_callback e ctx) = (b, v, ctx', evs')"
      using Cons.prems by (subst (asm) wait_response.simps) simp
    then show ?thesis using Cons.prems Cons.IH [of "before @ [e]" "defender_callback e ctx"] callback_from_answers [of before ctx e] by (auto split: if_splits)
  qed
next
  case Nil
  then show ?case by (subst (asm) wait_response.simps) (auto simp: from_answers_def split: if_splits)
qed

lemma wait_response_idle:
  assumes "\<not> snd (response_notify ctx)" "\<not> xWaitingForCallback ctx"
  shows "wait_response evs ctx = (False, fst (response_notify ctx), ctx, [])"
  using assms
proof (induction evs)
  case (Cons e evs)
  then have "defender_callback e ctx = ctx" using idle_callbacks [of ctx "[e]"] by simp
  with Cons show ?case by (subst wait_response.simps) simp
qed (subst wait_response.simps, simp)

text \<open>Between two rounds no response is pending, and none is taken.\<close>

definition resting :: "DefenderAgentCtx_t \<Rightarrow> bool" where
  "resting ctx \<longleftrightarrow> \<not> snd (response_notify ctx) \<and> \<not> xWaitingForCallback ctx"

text \<open>What the status of a report means for what came while the task waited.\<close>

definition status_means :: "'e cbor_ops \<Rightarrow> 'e \<Rightarrow> 'ip defender_inputs \<Rightarrow> ReportStatus_t \<Rightarrow> bool" where
  "status_means ops e0 i st \<longleftrightarrow>
     (let sent = (fst (build_report ops (di_net i) (di_tick i) e0) = CborNoError); evs = di_acks i @ di_answers i in
      case st of
        ReportStatusAccepted \<Rightarrow> sent \<and> list_ex (answers_with 1) evs
      | ReportStatusRejected \<Rightarrow> sent \<and> list_ex (answers_with 2) evs
      | ReportStatusNotReceived \<Rightarrow> \<not> sent \<or> \<not> list_ex is_answer evs
      | ReportStatusInvalid \<Rightarrow> False)"

lemma answers_with_cases: "list_ex (answers_with v) evs \<Longrightarrow> v = 1 \<or> v = 2"
  unfolding list_ex_iff answers_with_def by (metis answer_code.simps(1,2) is_answer.elims(2))

lemma defender_round_means:
  assumes "resting ctx" "defender_round ops e0 i ctx = (published, st, ctx')"
  shows "resting ctx' \<and> status_means ops e0 i st"
proof -
  obtain x enc where b: "build_report ops (di_net i) (di_tick i) e0 = (x, enc)" by (cases "build_report ops (di_net i) (di_tick i) e0")
  show ?thesis
  proof (cases "x = CborNoError")
    case False
    with assms b show ?thesis
      by (auto simp: defender_round_def resting_def wait_response_idle idle_callbacks status_means_def)
  next
    case True
    obtain ok ctx1 evs1 where p: "prvPublishDeviceMetricsReport (di_publish i) (di_acks i) ctx = (ok, ctx1, evs1)"
      by (cases "prvPublishDeviceMetricsReport (di_publish i) (di_acks i) ctx")
    obtain seen where seen: "di_acks i = seen @ evs1" "from_answers seen ctx1" "xWaitingForCallback ctx1"
    proof (cases "di_publish i = 0")
      case True
      obtain n v c es where w: "wait_puback (di_acks i) (ctx\<lparr>xWaitingForCallback := True\<rparr>) = (n, v, c, es)"
        by (cases "wait_puback (di_acks i) (ctx\<lparr>xWaitingForCallback := True\<rparr>)")
      have "from_answers [] (ctx\<lparr>xWaitingForCallback := True\<rparr>)" using assms(1) by (simp add: from_answers_def resting_def)
      from wait_puback_answers [OF this _ w] p w True that show ?thesis by (auto simp: prvPublishDeviceMetricsReport_def Let_def)
    next
      case False
      then show ?thesis using p assms(1) that [of "[]"]
        by (auto simp: prvPublishDeviceMetricsReport_def Let_def from_answers_def resting_def)
    qed
    obtain n v c es where w: "wait_response (evs1 @ di_answers i) ctx1 = (n, v, c, es)" by (cases "wait_response (evs1 @ di_answers i) ctx1")
    note r = wait_response_answers [OF seen(2,3) w]
    have st: "st = (if n then report_status v else ReportStatusNotReceived)" "ctx' = c\<lparr>xWaitingForCallback := False\<rparr>"
      using assms(2) b p w True by (simp_all add: defender_round_def idle_callbacks split: if_splits)
    have rest: "resting ctx'" using r st(2) by (simp add: resting_def)
    show ?thesis
    proof (cases n)
      case False
      then show ?thesis using r st(1) rest seen(1) by (simp add: status_means_def Let_def)
    next
      case True
      then have a: "list_ex (answers_with v) (di_acks i @ di_answers i)" using r seen(1) by simp
      from answers_with_cases [OF this] show ?thesis
        using a True st(1) rest b \<open>x = CborNoError\<close> by (auto simp: status_means_def Let_def)
    qed
  qed
qed



subsection \<open>No report\<close>

definition fails :: "('e \<Rightarrow> CborError \<times> 'e) \<Rightarrow> bool" where
  "fails f \<longleftrightarrow> (\<forall>e. fst (f e) \<noteq> CborNoError)"

lemma fails_seq: "fails g \<Longrightarrow> fails (seq_ok f g)"
  by (simp add: fails_def seq_ok_def case_prod_unfold)

lemma fails_contained: "fails body \<Longrightarrow> fails (contained ops create body)"
  by (simp add: fails_def contained_def case_prod_unfold)

lemma fails_last: "fails (f x) \<Longrightarrow> fails (\<lambda>e. append_all f (xs @ [x]) (CborNoError, e))"
proof -
  have "append_all f (xs @ [x]) r = f x (snd (append_all f xs r))" for r
    by (induction xs arbitrary: r) simp_all
  then show "fails (f x) \<Longrightarrow> fails (\<lambda>e. append_all f (xs @ [x]) (CborNoError, e))" by (simp add: fails_def)
qed

lemma fails_connection: "pcGetNetifName net (conn_netif_idx p) = None \<Longrightarrow> fails (append_connection ops net p)"
  by (auto simp: fails_def append_connection_def Let_def split: prod.split)

lemma fails_connections:
  assumes "tcp_active_pcbs net = ps @ [p]" "pcGetNetifName net (conn_netif_idx p) = None"
  shows "fails (xGetEstablishedConnections ops net)"
proof -
  have "fails (xAppendTcpConnectionsToList ops net)"
    unfolding xAppendTcpConnectionsToList_def [abs_def] assms(1) by (intro fails_last fails_connection assms(2))
  then have "fails (\<lambda>m. counted_list ops ''cs'' (length (tcp_active_pcbs net)) (xAppendTcpConnectionsToList ops net) (CborNoError, m))"
    unfolding counted_form by (simp add: assms(1) fails_contained fails_seq)
  moreover have "xGetEstablishedConnections ops net = seq_ok (cbor_encode_text_stringz ops ''tc'') (contained ops (cbor_encoder_create_map ops (Some 1))
        (seq_ok (cbor_encode_text_stringz ops ''ec'')
          (\<lambda>m. counted_list ops ''cs'' (length (tcp_active_pcbs net)) (xAppendTcpConnectionsToList ops net) (CborNoError, m))))"
    by (auto simp: fun_eq_iff xGetEstablishedConnections_def step_defs counted_error split: prod.split)
  ultimately show ?thesis by (simp add: fails_contained fails_seq)
qed

text \<open>
  The function that names an interface is given the number of the default interface where it needs its index, which is
  one more. When the default interface is the first one, and so has the number 0, which is the index of none, and the last
  connection is not bound to an interface, no report is published, whatever the encoder does.
\<close>

lemma defender_first_interface_no_report:
  assumes "netif_default (di_net i) = Some 0" "netif_index_to_name (di_net i) 0 = None"
    and "tcp_active_pcbs (di_net i) \<noteq> []" "conn_netif_idx (last (tcp_active_pcbs (di_net i))) = 0"
  shows "fst (defender_round ops e0 i ctx) = None"
proof -
  obtain ps p where ps: "tcp_active_pcbs (di_net i) = ps @ [p]" using assms(3) by (meson rev_exhaust)
  have "fails (xGetEstablishedConnections ops (di_net i))"
  proof (rule fails_connections [OF ps])
    have "conn_netif_idx p = 0" using ps assms(4) by simp
    then show "pcGetNetifName (di_net i) (conn_netif_idx p) = None" using assms(1,2) by (simp only: pcGetNetifName_def option.case if_cancel)
  qed
  then have "fails (build_report ops (di_net i) (di_tick i))"
    unfolding report_form metrics_form by (intro fails_contained fails_seq)
  then have "fst (build_report ops (di_net i) (di_tick i) e0) \<noteq> CborNoError" by (simp add: fails_def)
  then show ?thesis by (auto simp: defender_round_def Let_def split: prod.split)
qed

definition first_netif_net :: "nat net_state" where
  "first_netif_net = small_net\<lparr>netif_default := Some 0, netif_index_to_name := (\<lambda>n. if n = 1 then Some ''en0'' else None),
     tcp_active_pcbs := [\<lparr>remote_ip = 1, remote_port = 8883, conn_netif_idx = 0, conn_local = 49153\<rparr>]\<rparr>"


end
