(* ===== verification/MotionSensors.thy ===== *)
theory MotionSensors
  imports AgentConfig CLib
begin

text \<open>
  The task that publishes the readings of the motion sensors (\<open>source/aws_demos/motion_sensors_publish.c\<close>): its topic, the
  document with the readings, and the publish with its acknowledgement. The board support package and
  the MQTT agent are parameters.
\<close>

record axes =
  axis_x :: u32
  axis_y :: u32
  axis_z :: u32

abbreviation (input) MOTION_GYRO :: nat where "MOTION_GYRO \<equiv> 1"
abbreviation (input) MOTION_ACCELERO :: nat where "MOTION_ACCELERO \<equiv> 2"
abbreviation (input) MOTION_MAGNETO :: nat where "MOTION_MAGNETO \<equiv> 4"

record sensor_ops =
  BSP_MOTION_SENSOR_Init :: "nat \<Rightarrow> nat \<Rightarrow> u32"
  BSP_MOTION_SENSOR_Enable :: "nat \<Rightarrow> nat \<Rightarrow> u32"
  BSP_MOTION_SENSOR_SetOutputDataRate :: "nat \<Rightarrow> nat \<Rightarrow> u32"

definition xInitSensors :: "sensor_ops \<Rightarrow> bool" where
  "xInitSensors B =
     (let lBspError = BSP_MOTION_SENSOR_Init B 0 (MOTION_GYRO + MOTION_ACCELERO);
          lBspError = lBspError OR BSP_MOTION_SENSOR_Enable B 0 MOTION_GYRO;
          lBspError = lBspError OR BSP_MOTION_SENSOR_Enable B 0 MOTION_ACCELERO;
          lBspError = lBspError OR BSP_MOTION_SENSOR_SetOutputDataRate B 0 MOTION_GYRO;
          lBspError = lBspError OR BSP_MOTION_SENSOR_SetOutputDataRate B 0 MOTION_ACCELERO;
          lBspError = lBspError OR BSP_MOTION_SENSOR_Init B 1 MOTION_MAGNETO;
          lBspError = lBspError OR BSP_MOTION_SENSOR_Enable B 1 MOTION_MAGNETO;
          lBspError = lBspError OR BSP_MOTION_SENSOR_SetOutputDataRate B 1 MOTION_MAGNETO
      in lBspError = 0)"

subsection \<open>Publishing\<close>

text \<open>The notification of the task is a value and whether it has not been taken yet.\<close>

definition prvPublishCommandCallback :: "u32 \<Rightarrow> u32 \<times> bool \<Rightarrow> u32 \<times> bool" where
  "prvPublishCommandCallback returnCode n = (returnCode, True)"

text \<open>\<open>publish\<close> is the status of the command, \<open>evs\<close> the return codes the callback is run with until the time is over. The
  first one ends the waiting; when none comes the status of the command is what is returned.\<close>

definition prvPublishAndWaitForAck :: "u32 \<Rightarrow> u32 list \<Rightarrow> u32 \<times> bool \<Rightarrow> bool \<times> u32 \<times> bool" where
  "prvPublishAndWaitForAck publish evs n =
     (let n = (fst n, False); xStatus = publish in
      if xStatus = 0
      then let n = (0, False);
               (xResult, ulNotifyValue, n, evs) =
                 (case evs of [] \<Rightarrow> (False, fst n, n, [])
                  | c # evs \<Rightarrow> (True, fst (prvPublishCommandCallback c n), (0, False), evs));
               xStatus = (if xResult then ulNotifyValue else xStatus)
           in (xStatus = 0, fold prvPublishCommandCallback evs n)
      else (xStatus = 0, fold prvPublishCommandCallback evs n))"

subsection \<open>The task\<close>

abbreviation (input) MQTT_PUBLISH_MAX_LEN :: nat where "MQTT_PUBLISH_MAX_LEN \<equiv> 200"
abbreviation (input) MQTT_PUBLICH_TOPIC_STR_LEN :: nat where "MQTT_PUBLICH_TOPIC_STR_LEN \<equiv> 256"

definition json_key :: "string \<Rightarrow> string" where
  "json_key s = quote @ s @ quote @ '':''"

definition axes_document :: "axes \<Rightarrow> string" where
  "axes_document a = ''{'' @ json_key ''x'' @ '' '' @ dec_int (axis_x a) @ '','' @ json_key ''y'' @ '' '' @ dec_int (axis_y a) @ '','' @
     json_key ''z'' @ '' '' @ dec_int (axis_z a) @ ''}''"

definition sensor_document :: "axes \<Rightarrow> axes \<Rightarrow> axes \<Rightarrow> string" where
  "sensor_document accelero gyro magneto = ''{'' @ json_key ''acceleration_mG'' @ axes_document accelero @ '','' @
     json_key ''gyro_mDPS'' @ axes_document gyro @ '','' @ json_key ''magnetometer_mGauss'' @ axes_document magneto @ ''}''"

text \<open>The topic, or \<open>None\<close> when the task does not enter its loop.\<close>

definition sensor_topic :: "string option \<Rightarrow> string option" where
  "sensor_topic pcDeviceId =
     (case pcDeviceId of
        None \<Rightarrow> None
      | Some name \<Rightarrow>
          let s = name @ ''/motion_sensor_data''; lTopicLen = length s
          in if lTopicLen \<le> 0 \<or> lTopicLen > MQTT_PUBLICH_TOPIC_STR_LEN then None else Some (snprintf MQTT_PUBLICH_TOPIC_STR_LEN s))"

text \<open>One round of the loop: the three readings with their errors, whether the agent is connected, and what the agent does.
  The result has the topic and the payload that were handed to the agent, and whether that is said to have succeeded.\<close>

record sensor_inputs =
  si_gyro :: "u32 \<times> axes"
  si_accelero :: "u32 \<times> axes"
  si_magneto :: "u32 \<times> axes"
  si_connected :: bool
  si_publish :: u32
  si_acks :: "u32 list"

definition sensor_round :: "string \<Rightarrow> sensor_inputs \<Rightarrow> u32 \<times> bool \<Rightarrow> (string \<times> string \<times> bool) option \<times> u32 \<times> bool" where
  "sensor_round pcTopicString i n =
     (let lBspError = fst (si_gyro i);
          lBspError = lBspError OR fst (si_accelero i);
          lBspError = lBspError OR fst (si_magneto i)
      in if lBspError = 0
         then let doc = sensor_document (snd (si_accelero i)) (snd (si_gyro i)) (snd (si_magneto i));
                  pcPayloadBuf = snprintf MQTT_PUBLISH_MAX_LEN doc; lbytesWritten = length doc
              in if lbytesWritten < MQTT_PUBLISH_MAX_LEN \<and> si_connected i
                 then (case prvPublishAndWaitForAck (si_publish i) (si_acks i) n of
                         (xResult, n) \<Rightarrow> (Some (pcTopicString, take lbytesWritten pcPayloadBuf, xResult), n))
                 else (None, n)
         else (None, n))"

fun sensor_rounds :: "string \<Rightarrow> sensor_inputs list \<Rightarrow> u32 \<times> bool \<Rightarrow> (string \<times> string \<times> bool) option list" where
  "sensor_rounds t [] n = []"
| "sensor_rounds t (i # is) n = (case sensor_round t i n of (r, n) \<Rightarrow> r # sensor_rounds t is n)"

text \<open>The task, for the rounds it has done so far.\<close>

definition vMotionSensorsPublish ::
  "sensor_ops \<Rightarrow> (KVStoreKey_t \<Rightarrow> string option) \<Rightarrow> sensor_inputs list \<Rightarrow> (string \<times> string \<times> bool) option list" where
  "vMotionSensorsPublish B getStringHeap is =
     (if \<not> xInitSensors B then []
      else case sensor_topic (getStringHeap CS_CORE_THING_NAME) of
        None \<Rightarrow> []
      | Some t \<Rightarrow> sensor_rounds t is (0, False))"

subsection \<open>What is published\<close>

text \<open>Readings of which each takes at most nine characters.\<close>

definition small_reading :: "u32 \<Rightarrow> bool" where
  "small_reading x \<longleftrightarrow> - (10 ^ 8) < sint x \<and> sint x < 10 ^ 9"

definition small_axes :: "axes \<Rightarrow> bool" where
  "small_axes a \<longleftrightarrow> small_reading (axis_x a) \<and> small_reading (axis_y a) \<and> small_reading (axis_z a)"

lemma length_dec_int: "small_reading x \<Longrightarrow> length (dec_int x) \<le> 9"
  using dec_length [of "nat (- sint x)" 8] dec_length [of "nat (sint x)" 9]
  by (auto simp: dec_int_def small_reading_def nat_less_iff)

lemma length_axes: "small_axes a \<Longrightarrow> length (axes_document a) \<le> 46"
  using length_dec_int [of "axis_x a"] length_dec_int [of "axis_y a"] length_dec_int [of "axis_z a"]
  by (simp add: axes_document_def json_key_def quote_def small_axes_def)

lemma length_document: "small_axes a \<Longrightarrow> small_axes g \<Longrightarrow> small_axes m \<Longrightarrow> length (sensor_document a g m) < MQTT_PUBLISH_MAX_LEN"
  using length_axes [of a] length_axes [of g] length_axes [of m]
  by (simp add: sensor_document_def json_key_def quote_def)

text \<open>A round in which the sensors answer and the agent is connected and takes the command.\<close>

definition good_round :: "sensor_inputs \<Rightarrow> bool" where
  "good_round i \<longleftrightarrow> fst (si_gyro i) = 0 \<and> fst (si_accelero i) = 0 \<and> fst (si_magneto i) = 0 \<and> si_connected i \<and> si_publish i = 0 \<and>
     small_axes (snd (si_gyro i)) \<and> small_axes (snd (si_accelero i)) \<and> small_axes (snd (si_magneto i))"

text \<open>What is then published: the whole document, under the whole topic; it counts as failed only when the first return code
  that comes is an error, and as published also when none comes.\<close>

definition publication :: "string \<Rightarrow> sensor_inputs \<Rightarrow> string \<times> string \<times> bool" where
  "publication name i = (name @ ''/motion_sensor_data'',
     sensor_document (snd (si_accelero i)) (snd (si_gyro i)) (snd (si_magneto i)), case si_acks i of [] \<Rightarrow> True | c # _ \<Rightarrow> c = 0)"

lemma good_round_published:
  assumes "good_round i"
  shows "fst (sensor_round t i n) = Some (t, snd (publication name i))"
  using assms length_document [of "snd (si_accelero i)" "snd (si_gyro i)" "snd (si_magneto i)"]
  by (auto simp: sensor_round_def good_round_def publication_def prvPublishAndWaitForAck_def prvPublishCommandCallback_def
      Let_def snprintf_def split: list.split)

text \<open>
  With a name of at most 236 characters, every round in which the sensors answer with readings of at most nine characters and
  the agent is connected publishes the whole document with the nine readings under the whole topic: nothing is cut at the end of
  a buffer. A publish without any acknowledgement counts as done.
\<close>

lemma sensor_rounds_published:
  assumes "xInitSensors B" "getStringHeap CS_CORE_THING_NAME = Some name" "length name \<le> 236" "list_all good_round is"
  shows "vMotionSensorsPublish B getStringHeap is = map (\<lambda>i. Some (publication name i)) is"
proof -
  have "sensor_rounds (name @ ''/motion_sensor_data'') is n = map (\<lambda>i. Some (publication name i)) is" for n
    using assms(4)
  proof (induction "is" arbitrary: n)
    case (Cons i "is")
    obtain r n' where r: "sensor_round (name @ ''/motion_sensor_data'') i n = (r, n')" by (cases "sensor_round (name @ ''/motion_sensor_data'') i n")
    moreover have "r = Some (publication name i)"
      using good_round_published [of i "name @ ''/motion_sensor_data''" n name] r Cons.prems by (simp add: publication_def)
    ultimately show ?case using Cons by simp
  qed simp
  then show ?thesis using assms(1-3) by (simp add: vMotionSensorsPublish_def sensor_topic_def snprintf_def)
qed


end
