(* ===== verification/CliUtils.thy ===== *)
theory CliUtils
  imports ConsoleIo CLib
begin

text \<open>
  The commands of \<open>source/cli/cli_utils.c\<close>: \<open>ps\<close>, \<open>kill\<close>, \<open>killall\<close>, \<open>heapstat\<close> and \<open>uptime\<close>. The tasks of the kernel are the
  record \<open>kernel\<close>, on which the functions of the kernel for tasks act as its manual says. The handle of a task is its number.
  The scratch buffer of the command line has 512 bytes.
\<close>

subsection \<open>Tasks\<close>

datatype eTaskState = eRunning | eReady | eBlocked | eSuspended | eDeleted | eInvalid

record TaskStatus_t =
  xTaskNumber :: u32
  pcTaskName :: string
  eCurrentState :: eTaskState
  uxBasePriority :: u32
  uxCurrentPriority :: u32
  ulRunTimeCounter :: u32
  usStackHighWaterMark :: u16
  pxStack :: u32
  pxEndOfStack :: u32

text \<open>The tasks as \<open>uxTaskGetSystemState\<close> lists them, the total run time it reports, and the task that runs the command.\<close>

record kernel =
  tasks :: "TaskStatus_t list"
  total_runtime :: u32
  cli_task :: u32

type_synonym TaskHandle_t = "u32 option"

definition exists_task :: "u32 \<Rightarrow> kernel \<Rightarrow> bool" where
  "exists_task n k \<longleftrightarrow> n \<in> xTaskNumber ` set (tasks k)"

definition set_state :: "eTaskState \<Rightarrow> u32 \<Rightarrow> kernel \<Rightarrow> kernel" where
  "set_state st n k = k\<lparr>tasks := map (\<lambda>t. if xTaskNumber t = n then t\<lparr>eCurrentState := st\<rparr> else t) (tasks k)\<rparr>"

text \<open>\<open>NULL\<close> stands for the calling task, which does not come back from suspending or deleting itself. A handle of a task
  that is gone must not be used.\<close>

definition vTaskSuspend :: "TaskHandle_t \<Rightarrow> kernel \<Rightarrow> kernel option" where
  "vTaskSuspend h k =
     (case h of None \<Rightarrow> None
      | Some n \<Rightarrow> if n = cli_task k \<or> \<not> exists_task n k then None else Some (set_state eSuspended n k))"

definition vTaskDelete :: "TaskHandle_t \<Rightarrow> kernel \<Rightarrow> kernel option" where
  "vTaskDelete h k =
     (case h of None \<Rightarrow> None
      | Some n \<Rightarrow> if n = cli_task k \<or> \<not> exists_task n k then None
                  else Some (k\<lparr>tasks := filter (\<lambda>t. xTaskNumber t \<noteq> n) (tasks k)\<rparr>))"

definition vTaskResume :: "TaskHandle_t \<Rightarrow> kernel \<Rightarrow> kernel option" where
  "vTaskResume h k =
     (case h of None \<Rightarrow> None
      | Some n \<Rightarrow> if \<not> exists_task n k then None
                  else Some (k\<lparr>tasks := map (\<lambda>t. if xTaskNumber t = n \<and> eCurrentState t = eSuspended then t\<lparr>eCurrentState := eReady\<rparr> else t) (tasks k)\<rparr>))"

text \<open>\<open>xTaskGetHandle\<close> asserts that the name is shorter than \<open>configMAX_TASK_NAME_LEN\<close>.\<close>

abbreviation (input) configMAX_TASK_NAME_LEN :: nat where "configMAX_TASK_NAME_LEN \<equiv> 12"

definition xTaskGetHandle :: "string \<Rightarrow> kernel \<Rightarrow> TaskHandle_t option" where
  "xTaskGetHandle name k = do {
     configASSERT (length name < configMAX_TASK_NAME_LEN);
     Some (map_option xTaskNumber (find (\<lambda>t. pcTaskName t = name) (tasks k)))
   }"

subsection \<open>Signals\<close>

type_synonym Signal_t = u32

definition pcSignaMap :: "(Signal_t \<times> string) list" where
  "pcSignaMap = [(1, ''SIGHUP''), (2, ''SIGINT''), (3, ''SIGQUIT''), (9, ''SIGKILL''), (15, ''SIGTERM''), (23, ''SIGSTOP''),
     (24, ''SIGSTP''), (25, ''SIGCONT'')]"

abbreviation (input) SIGQUIT :: Signal_t where "SIGQUIT \<equiv> 3"
abbreviation (input) SIGTERM :: Signal_t where "SIGTERM \<equiv> 15"
abbreviation (input) SIGSTOP :: Signal_t where "SIGSTOP \<equiv> 23"
abbreviation (input) SIGSTP :: Signal_t where "SIGSTP \<equiv> 24"
abbreviation (input) SIGCONT :: Signal_t where "SIGCONT \<equiv> 25"

definition vSignalTask :: "TaskHandle_t \<Rightarrow> Signal_t \<Rightarrow> kernel \<Rightarrow> kernel option" where
  "vSignalTask xTask xSignal k =
     (if xSignal = SIGQUIT \<or> xSignal = SIGTERM then do { k \<leftarrow> vTaskSuspend xTask k; vTaskDelete xTask k }
      else if xSignal = SIGSTOP \<or> xSignal = SIGSTP then vTaskSuspend xTask k
      else if xSignal = SIGCONT then vTaskResume xTask k
      else Some k)"

text \<open>The loop over the system state, when there is memory for it.\<close>

definition xGetTaskHandleFromID :: "bool \<Rightarrow> u32 \<Rightarrow> kernel \<Rightarrow> TaskHandle_t" where
  "xGetTaskHandleFromID mem uxTaskID k =
     (if mem then map_option xTaskNumber (find (\<lambda>t. xTaskNumber t = uxTaskID) (tasks k)) else None)"

text \<open>An argument that starts with a dash: a number, or a name of the table; an unknown name changes nothing.\<close>

definition signal_of :: "string \<Rightarrow> Signal_t \<Rightarrow> Signal_t" where
  "signal_of pcArg xTargetSignal =
     (let ulSignal = fst (strtoul pcArg) in
      if ulSignal \<noteq> 0 then ulSignal
      else case find (\<lambda>(s, name). name = pcArg) pcSignaMap of Some (s, _) \<Rightarrow> s | None \<Rightarrow> xTargetSignal)"

fun kill_loop :: "bool \<Rightarrow> string list \<Rightarrow> Signal_t \<Rightarrow> u32 \<Rightarrow> kernel \<Rightarrow> kernel option" where
  "kill_loop mem [] xTargetSignal uxTaskId k = Some k"
| "kill_loop mem (arg # args) xTargetSignal uxTaskId k =
     (let dash = (arg \<noteq> [] \<and> hd arg = CHR ''-'');
          xTargetSignal = (if dash then signal_of (tl arg) xTargetSignal else xTargetSignal);
          uxTaskId = (if dash then uxTaskId else fst (strtoul arg))
      in do {
        k \<leftarrow> (if uxTaskId \<noteq> 0 then vSignalTask (xGetTaskHandleFromID mem uxTaskId k) xTargetSignal k else Some k);
        kill_loop mem args xTargetSignal uxTaskId k
      })"

definition vKillCommand :: "bool \<Rightarrow> string list \<Rightarrow> kernel \<Rightarrow> kernel option" where
  "vKillCommand mem ppcArgv k = kill_loop mem ppcArgv SIGTERM 0 k"

fun killall_loop :: "string list \<Rightarrow> Signal_t \<Rightarrow> TaskHandle_t \<Rightarrow> kernel \<Rightarrow> kernel option" where
  "killall_loop [] xTargetSignal xTaskHandle k = Some k"
| "killall_loop (arg # args) xTargetSignal xTaskHandle k =
     (let dash = (arg \<noteq> [] \<and> hd arg = CHR ''-'');
          xTargetSignal = (if dash then signal_of (tl arg) xTargetSignal else xTargetSignal)
      in do {
        xTaskHandle \<leftarrow> (if dash then Some xTaskHandle else xTaskGetHandle arg k);
        k \<leftarrow> (if xTaskHandle \<noteq> None then vSignalTask xTaskHandle xTargetSignal k else Some k);
        killall_loop args xTargetSignal xTaskHandle k
      })"

definition vKillAllCommand :: "string list \<Rightarrow> kernel \<Rightarrow> kernel option" where
  "vKillAllCommand ppcArgv k = killall_loop ppcArgv SIGTERM None k"

subsection \<open>The list of tasks\<close>

abbreviation (input) scratch_len :: nat where "scratch_len \<equiv> 512"

fun pceTaskStateToString :: "eTaskState \<Rightarrow> string" where
  "pceTaskStateToString eRunning = ''RUNNING''"
| "pceTaskStateToString eReady = ''READY''"
| "pceTaskStateToString eBlocked = ''BLOCKED''"
| "pceTaskStateToString eSuspended = ''SUSPENDED''"
| "pceTaskStateToString eDeleted = ''DELETED''"
| "pceTaskStateToString eInvalid = ''UNKNOWN''"

text \<open>The size of the stack in words of four bytes.\<close>

definition ulGetStackDepth :: "TaskStatus_t \<Rightarrow> u32" where
  "ulGetStackDepth t = (pxEndOfStack t - pxStack t) div 4 + 2"

definition CRLF :: string where "CRLF = [CHR 0x0D, CHR 0x0A]"

definition ps_frame :: string where
  "ps_frame = ''+'' @ replicate 82 (CHR ''-'') @ ''+'' @ CRLF"

text \<open>A row of the table; a total of less than 100 and a stack of size 0 are divisions by zero.\<close>

definition ps_row :: "u32 \<Rightarrow> TaskStatus_t \<Rightarrow> string option" where
  "ps_row ulTotalRuntime t = do {
     let ulStackSize = ulGetStackDepth t;
     let hwm = (ucast (usStackHighWaterMark t) :: u32);
     configASSERT (ulStackSize \<noteq> 0);
     let ucStackUsagePct = 100 * (ulStackSize - hwm) div ulStackSize;
     configASSERT (ulTotalRuntime \<noteq> 0);
     Some (''| '' @ left_pad 4 (dec (unat (xTaskNumber t))) @ '' | '' @ right_pad 9 (pceTaskStateToString (eCurrentState t)) @ '' | '' @
       right_pad 16 (pcTaskName t) @ '' |  '' @ left_pad 2 (dec (unat (uxBasePriority t))) @ ''  |  '' @
       left_pad 2 (dec (unat (uxCurrentPriority t))) @ ''  | '' @ left_pad 3 (dec (unat (ulRunTimeCounter t div ulTotalRuntime))) @ ''% | '' @
       left_pad 5 (dec (unat ulStackSize)) @ '' | '' @ left_pad 5 (dec (unat hwm)) @ '' | '' @
       left_pad 3 (dec (unat ucStackUsagePct)) @ ''%  |'' @ CRLF)
   }"

fun print_rows :: "'c ConsoleIO_t \<Rightarrow> u32 \<Rightarrow> TaskStatus_t list \<Rightarrow> 'c \<Rightarrow> 'c option" where
  "print_rows io per_cent [] c = Some c"
| "print_rows io per_cent (t # ts) c = do { s \<leftarrow> ps_row per_cent t; c \<leftarrow> io_print io (snprintf scratch_len s) c; print_rows io per_cent ts c }"

definition prvPSCommand :: "'c ConsoleIO_t \<Rightarrow> bool \<Rightarrow> kernel \<Rightarrow> 'c \<Rightarrow> 'c option" where
  "prvPSCommand io mem k c =
     (if \<not> mem then io_print io ''Error: Not enough memory to complete the operation'' c
      else do {
        let ulTotalRuntime = total_runtime k div 100;
        c \<leftarrow> io_print io (snprintf scratch_len (''Total Runtime: '' @ dec (unat ulTotalRuntime) @ CRLF)) c;
        c \<leftarrow> io_print io ps_frame c;
        c \<leftarrow> io_print io (''| Task |   State   |    Task Name     |___Priority__| %CPU | Stack | Stack | Stack |'' @ CRLF) c;
        c \<leftarrow> io_print io (''|  ID  |           |                  | Base | Cur. |      | Alloc |  HWM  | Usage |'' @ CRLF) c;
        c \<leftarrow> io_print io ps_frame c;
        print_rows io ulTotalRuntime (tasks k) c
      })"

subsection \<open>The heap\<close>

text \<open>The divisor the arguments after the first choose, with the arguments that are reported as unknown. Only an unknown
  argument with a dash makes it 0.\<close>

definition heap_option :: "string \<Rightarrow> nat option" where
  "heap_option arg =
     (if length arg > 1 \<and> arg ! 1 = CHR ''-''
      then (if arg = ''--kilo'' then Some 1000 else if arg = ''--mega'' then Some (1000 * 1000)
            else if arg = ''--kibi'' then Some 1024 else if arg = ''--mebi'' then Some (1024 * 1024)
            else if arg = ''--byte'' then Some 1 else None)
      else if length arg > 1 \<and> (arg ! 1 = CHR ''k'' \<or> arg ! 1 = CHR ''h'') then Some 1024
      else if length arg > 1 \<and> arg ! 1 = CHR ''m'' then Some (1024 * 1024)
      else if length arg > 1 \<and> arg ! 1 = CHR ''b'' then Some 1
      else None)"

fun heap_args :: "'c ConsoleIO_t \<Rightarrow> string list \<Rightarrow> nat \<Rightarrow> 'c \<Rightarrow> (nat \<times> 'c) option" where
  "heap_args io [] xDivisor c = Some (xDivisor, c)"
| "heap_args io (arg # args) xDivisor c =
     (let dash = (arg \<noteq> [] \<and> hd arg = CHR ''-'') in
      case (if dash then heap_option arg else None) of
        Some d \<Rightarrow> heap_args io args d c
      | None \<Rightarrow> do {
          c \<leftarrow> io_print io ''Error: Unrecognized argument: '' c;
          c \<leftarrow> io_print io arg c;
          c \<leftarrow> io_print io CRLF c;
          heap_args io args (if dash then 0 else xDivisor) c
        })"

definition div_symbol :: "nat \<Rightarrow> string" where
  "div_symbol xDivisor =
     (if xDivisor = 1000 then ''(KB)   '' else if xDivisor = 1024 then ''(KiB)  '' else if xDivisor = 1000 * 1000 then ''(MB)   ''
      else if xDivisor = 1024 * 1024 then ''(MiB)  '' else ''(Bytes)'')"

text \<open>A number in hexadecimal with capitals.\<close>

fun hex :: "nat \<Rightarrow> string" where
  "hex n = (let d = (if n mod 16 < 10 then digit (n mod 16) else char_of (55 + n mod 16)) in
     if n < 16 then [d] else hex (n div 16) @ [d])"

declare hex.simps [simp del]

definition heap_row :: "string \<Rightarrow> u32 \<Rightarrow> u32 \<Rightarrow> u32 \<Rightarrow> string" where
  "heap_row name d n pct = ''| '' @ right_pad 16 name @ '' | '' @ right_pad 11 (dec_int d) @ '' | 0x'' @ right_pad 9 (hex (unat n)) @
     '' | '' @ left_pad 3 (dec (unat pct)) @ '' %   |'' @ CRLF"

text \<open>Writing a line with the length that was printed, which is at most that of the buffer.\<close>

definition write_line :: "'c ConsoleIO_t \<Rightarrow> string \<Rightarrow> 'c \<Rightarrow> 'c option" where
  "write_line io s c =
     (let xLen = (if length s \<ge> scratch_len then scratch_len - 1 else length s) in io_write io (take xLen (snprintf scratch_len s)) c)"

abbreviation (input) configTOTAL_HEAP_SIZE :: u32 where "configTOTAL_HEAP_SIZE \<equiv> 256 * 1024"

text \<open>The rows: name, number for the second column, number of bytes, and percentage.\<close>

definition heap_rows :: "u32 \<Rightarrow> u32 \<Rightarrow> u32 \<Rightarrow> u32 \<Rightarrow> (string \<times> u32 \<times> u32 \<times> u32) list" where
  "heap_rows xDivisor xHeapSize xHeapFree xMinHeapFree =
     (let xHeapAlloc = xHeapSize - xHeapFree; xMaxHeapAlloc = xHeapSize - xMinHeapFree;
          pct = (\<lambda>x. (100 * x) div xHeapSize)
      in [(''Heap Total'', xHeapSize div xDivisor, xHeapSize, 100),
          (''Heap Free'', xHeapFree div xDivisor, xHeapFree, pct xHeapFree),
          (''Min. Heap Free'', xMinHeapFree div xDivisor, xMinHeapFree, pct xMinHeapFree),
          (''Heap Alloc.'', xHeapAlloc div xDivisor, xHeapAlloc, pct xHeapAlloc),
          (''Max. Heap Alloc.'', xMaxHeapAlloc div xDivisor, xMaxHeapAlloc, pct xMaxHeapAlloc)])"

fun write_rows :: "'c ConsoleIO_t \<Rightarrow> (string \<times> u32 \<times> u32 \<times> u32) list \<Rightarrow> 'c \<Rightarrow> 'c option" where
  "write_rows io [] c = Some c"
| "write_rows io ((name, d, n, pct) # rows) c = do { c \<leftarrow> write_line io (heap_row name d n pct) c; write_rows io rows c }"

definition vHeapStatCommand :: "'c ConsoleIO_t \<Rightarrow> u32 \<Rightarrow> u32 \<Rightarrow> string list \<Rightarrow> 'c \<Rightarrow> 'c option" where
  "vHeapStatCommand io xHeapFree xMinHeapFree ppcArgv c = do {
     (xDivisor, c) \<leftarrow> heap_args io (tl ppcArgv) 1 c;
     if xDivisor = 0 then Some c
     else do {
       let frame = ''+'' @ replicate 56 (CHR ''-'') @ ''+'' @ CRLF;
       c \<leftarrow> io_print io frame c;
       c \<leftarrow> write_line io (''| Metric           | Dec '' @ right_pad 7 (div_symbol xDivisor) @ '' | Hex (Bytes) | % Total |'' @ CRLF) c;
       c \<leftarrow> io_print io (''|------------------|-------------|-------------|---------|'' @ CRLF) c;
       c \<leftarrow> write_rows io (heap_rows (word_of_nat xDivisor) configTOTAL_HEAP_SIZE xHeapFree xMinHeapFree) c;
       io_print io frame c
     }
   }"

subsection \<open>Time and the other commands\<close>

abbreviation (input) MS_PER_SECOND :: nat where "MS_PER_SECOND \<equiv> 1000"
abbreviation (input) MS_PER_MINUTE :: nat where "MS_PER_MINUTE \<equiv> 60 * 1000"
abbreviation (input) MS_PER_HOUR :: nat where "MS_PER_HOUR \<equiv> 60 * 60 * 1000"
abbreviation (input) MS_PER_DAY :: nat where "MS_PER_DAY \<equiv> 24 * 60 * 60 * 1000"

definition uptime_text :: "nat \<Rightarrow> string" where
  "uptime_text ulMsCount = ''up '' @ dec (ulMsCount div MS_PER_DAY) @ '' day(s) '' @
     zero_pad 2 (dec ((ulMsCount mod MS_PER_DAY) div MS_PER_HOUR)) @ '':'' @
     zero_pad 2 (dec ((ulMsCount mod MS_PER_HOUR) div MS_PER_MINUTE)) @ '':'' @
     zero_pad 2 (dec ((ulMsCount mod MS_PER_MINUTE) div MS_PER_SECOND)) @ ''.'' @
     zero_pad 3 (dec (ulMsCount mod MS_PER_SECOND)) @ CRLF"

text \<open>The tick count is divided by the milliseconds of a tick, which is right when that is 1.\<close>

definition vUptimeCommand :: "'c ConsoleIO_t \<Rightarrow> u32 \<Rightarrow> u32 \<Rightarrow> 'c \<Rightarrow> 'c option" where
  "vUptimeCommand io tick portTICK_PERIOD_MS c =
     (let s = uptime_text (unat (tick div portTICK_PERIOD_MS)); lRslt = length s in
      if lRslt > 0 \<and> lRslt < scratch_len then io_write io (take lRslt (snprintf scratch_len s)) c else Some c)"

text \<open>The platform function has an empty body, so the command returns and nothing is reset.\<close>

definition vPlatformReset :: "'w \<Rightarrow> 'w" where "vPlatformReset w = w"

definition vResetCommand :: "'c ConsoleIO_t \<Rightarrow> 'c \<Rightarrow> 'c option" where
  "vResetCommand io c = do { c \<leftarrow> io_print io ''Resetting device.'' c; Some (vPlatformReset c) }"

text \<open>The assertion fails, so the command does not return.\<close>

definition vAssertCommand :: "'c \<Rightarrow> 'c option" where
  "vAssertCommand c = do { configASSERT False; Some c }"

end
