(* ===== verification/CliUtilsSpec.thy ===== *)
theory CliUtilsSpec
  imports CliUtils
begin

text \<open>What the commands of \<open>CliUtils\<close> do to the tasks, and what they print.\<close>

subsection \<open>Signals\<close>

text \<open>The effect of a signal on the task it is sent to.\<close>

definition ending :: "Signal_t \<Rightarrow> bool" where "ending s \<longleftrightarrow> s = SIGQUIT \<or> s = SIGTERM"
definition stopping :: "Signal_t \<Rightarrow> bool" where "stopping s \<longleftrightarrow> s = SIGSTOP \<or> s = SIGSTP"

definition signalled :: "Signal_t \<Rightarrow> TaskStatus_t \<Rightarrow> TaskStatus_t list" where
  "signalled s t =
     (if ending s then []
      else if stopping s then [t\<lparr>eCurrentState := eSuspended\<rparr>]
      else if s = SIGCONT \<and> eCurrentState t = eSuspended then [t\<lparr>eCurrentState := eReady\<rparr>]
      else [t])"

definition after_signal :: "Signal_t \<Rightarrow> u32 \<Rightarrow> kernel \<Rightarrow> kernel" where
  "after_signal s n k = k\<lparr>tasks := concat (map (\<lambda>t. if xTaskNumber t = n then signalled s t else [t]) (tasks k))\<rparr>"

lemma concat_singletons: "concat (map (\<lambda>t. [f t]) xs) = map f xs"
  by (induction xs) simp_all

lemma concat_filter: "concat (map (\<lambda>t. if P t then [] else [t]) xs) = filter (\<lambda>t. \<not> P t) xs"
  by (induction xs) simp_all

lemma filter_set_state: "filter (\<lambda>t. xTaskNumber t \<noteq> n) (map (\<lambda>t. if xTaskNumber t = n then f t else t) ts) = filter (\<lambda>t. xTaskNumber t \<noteq> n) ts"
  if "\<And>t. xTaskNumber (f t) = xTaskNumber t"
  using that by (induction ts) auto

lemma exists_set_state [simp]: "exists_task n (set_state st m k) = exists_task n k"
proof -
  have "map xTaskNumber (tasks (set_state st m k)) = map xTaskNumber (tasks k)" by (simp add: set_state_def)
  then show ?thesis unfolding exists_task_def by (metis list.set_map)
qed

lemma set_state_simps [simp]: "cli_task (set_state st n k) = cli_task k" "(set_state st n k)\<lparr>tasks := ts\<rparr> = k\<lparr>tasks := ts\<rparr>"
  by (simp_all add: set_state_def)

lemma signal_effect:
  assumes "exists_task n k" "n \<noteq> cli_task k \<or> \<not> ending s \<and> \<not> stopping s"
  shows "vSignalTask (Some n) s k = Some (after_signal s n k)"
proof -
  consider (e) "ending s" | (s) "stopping s" | (c) "s = SIGCONT" | (o) "\<not> ending s" "\<not> stopping s" "s \<noteq> SIGCONT" by blast
  then show ?thesis
  proof cases
    case e
    then have "vSignalTask (Some n) s k = vTaskDelete (Some n) (set_state eSuspended n k)"
      using assms by (auto simp: vSignalTask_def vTaskSuspend_def ending_def)
    moreover have "filter (\<lambda>t. xTaskNumber t \<noteq> n) (tasks (set_state eSuspended n k)) = filter (\<lambda>t. xTaskNumber t \<noteq> n) (tasks k)"
      by (simp add: set_state_def filter_set_state)
    ultimately show ?thesis using assms e
      by (simp add: vTaskDelete_def after_signal_def signalled_def concat_filter cong: if_cong)
  next
    case s
    then have "(if xTaskNumber t = n then signalled s t else [t]) =
        [if xTaskNumber t = n then t\<lparr>eCurrentState := eSuspended\<rparr> else t]" for t
      by (auto simp: signalled_def ending_def stopping_def)
    then have "after_signal s n k = set_state eSuspended n k" by (simp add: after_signal_def set_state_def concat_singletons)
    with s assms show ?thesis by (auto simp: vSignalTask_def vTaskSuspend_def stopping_def)
  next
    case c
    have "(if xTaskNumber t = n then signalled s t else [t]) =
        [if xTaskNumber t = n \<and> eCurrentState t = eSuspended then t\<lparr>eCurrentState := eReady\<rparr> else t]" for t
      using c by (simp add: signalled_def ending_def stopping_def)
    then have "after_signal s n k =
        k\<lparr>tasks := map (\<lambda>t. if xTaskNumber t = n \<and> eCurrentState t = eSuspended then t\<lparr>eCurrentState := eReady\<rparr> else t) (tasks k)\<rparr>"
      by (simp add: after_signal_def concat_singletons)
    with c assms(1) show ?thesis by (simp add: vSignalTask_def vTaskResume_def)
  next
    case o
    then have "(if xTaskNumber t = n then signalled s t else [t]) = [t]" for t by (simp add: signalled_def)
    with o show ?thesis by (simp add: vSignalTask_def after_signal_def ending_def stopping_def)
  qed
qed

text \<open>A word for a signal: its name in the table, or its number.\<close>

definition names_signal :: "string \<Rightarrow> Signal_t \<Rightarrow> bool" where
  "names_signal w s \<longleftrightarrow> (s, w) \<in> set pcSignaMap \<or> s \<noteq> 0 \<and> w = dec (unat s)"

lemma signal_of_word: "names_signal w s \<Longrightarrow> signal_of w s' = s"
  unfolding names_signal_def
proof (elim disjE conjE)
  assume "(s, w) \<in> set pcSignaMap"
  then show ?thesis by (auto simp: pcSignaMap_def signal_of_def strtoul_def number_parts_def isspace_def isdigit_def)
next
  assume "s \<noteq> 0" "w = dec (unat s)"
  then show ?thesis by (simp add: signal_of_def strtoul_dec unat_u32_less)
qed

lemma handle_of_id: "xGetTaskHandleFromID mem n k = (if mem \<and> exists_task n k then Some n else None)"
proof (cases "find (\<lambda>t. xTaskNumber t = n) (tasks k)")
  case None
  then have "\<not> exists_task n k" by (auto simp: find_None_iff exists_task_def)
  with None show ?thesis by (simp add: xGetTaskHandleFromID_def)
next
  case (Some t)
  then have "xTaskNumber t = n \<and> t \<in> set (tasks k)" by (auto simp: find_Some_iff)
  then have "exists_task n k" "xTaskNumber t = n" by (auto simp: exists_task_def)
  with Some show ?thesis by (simp add: xGetTaskHandleFromID_def)
qed



text \<open>A task that is stopped and then continued is ready, and nothing else has changed.\<close>

lemma stop_cont:
  assumes "stopping s"
  shows "after_signal SIGCONT n (after_signal s n k) =
    k\<lparr>tasks := map (\<lambda>t. if xTaskNumber t = n then t\<lparr>eCurrentState := eReady\<rparr> else t) (tasks k)\<rparr>"
proof -
  have "concat (map (\<lambda>t. if xTaskNumber t = n then signalled SIGCONT t else [t])
      (concat (map (\<lambda>t. if xTaskNumber t = n then signalled s t else [t]) ts))) =
    map (\<lambda>t. if xTaskNumber t = n then t\<lparr>eCurrentState := eReady\<rparr> else t) ts" for ts
    using assms by (induction ts) (auto simp: signalled_def ending_def stopping_def)
  then show ?thesis by (simp add: after_signal_def)
qed

subsection \<open>The heap\<close>

lemma length_hex: "n < 16 ^ j \<Longrightarrow> 0 < j \<Longrightarrow> length (hex n) \<le> j"
proof (induction j arbitrary: n)
  case (Suc j)
  show ?case
  proof (cases "n < 16")
    case False
    then have "0 < j" using Suc.prems(1) by (cases j) auto
    moreover have "n div 16 < 16 ^ j" using Suc.prems(1) by (simp add: div_less_iff_less_mult mult.commute)
    ultimately have "length (hex (n div 16)) \<le> j" by (rule Suc.IH [rotated])
    with False show ?thesis by (subst hex.simps) simp
  qed (subst hex.simps, simp)
qed simp

lemma length_padded: "length s \<le> k \<Longrightarrow> length (left_pad k s) = k" "length s \<le> k \<Longrightarrow> length (right_pad k s) = k"
  by (simp_all add: left_pad_def right_pad_def)

lemma length_dec_int_le: "length (dec_int x) \<le> 11"
proof -
  have "sint x < 2 ^ 31" "- (2 ^ 31) \<le> sint x" using sint_lt [of x] sint_ge [of x] by simp_all
  then show ?thesis using dec_length [of "nat (- sint x)" 10] dec_length [of "nat (sint x)" 10]
    by (auto simp: dec_int_def nat_less_iff)
qed

lemma length_heap_row: "length name \<le> 16 \<Longrightarrow> pct \<le> 100 \<Longrightarrow> length (heap_row name d n pct) = 60"
proof -
  assume "length name \<le> 16" "pct \<le> 100"
  moreover have "length (hex (unat n)) \<le> 8" using unat_u32_less [of n] by (intro length_hex) simp_all
  moreover have "length (dec (unat pct)) \<le> 3" using \<open>pct \<le> 100\<close> by (intro dec_length) (simp_all add: word_le_nat_alt)
  ultimately show ?thesis by (simp add: heap_row_def length_padded length_dec_int_le CRLF_def)
qed

text \<open>The percentage of a part of a heap of this size is not wrapped.\<close>

lemma percent_exact:
  fixes x total_size :: u32
  assumes "x \<le> total_size" "unat total_size < 42949673" "total_size \<noteq> 0"
  shows "unat (100 * x div total_size) = 100 * unat x div unat total_size"
proof -
  have "unat x \<le> unat total_size" using assms(1) by (simp add: word_le_nat_alt)
  then have "100 * unat x < 2 ^ 32" using assms(2) by simp
  then have "unat (100 * x) = 100 * unat x" by (simp add: unat_word_ariths)
  then show ?thesis by (simp add: unat_div)
qed

text \<open>
  Every row of \<open>heapstat\<close> is as wide as its frame, and its percentage is that of the number of bytes beside it, rounded down.
\<close>

lemma heapstat_rows:
  assumes "xHeapFree \<le> configTOTAL_HEAP_SIZE" "xMinHeapFree \<le> configTOTAL_HEAP_SIZE"
    and "(name, d, n, pct) \<in> set (heap_rows xDivisor configTOTAL_HEAP_SIZE xHeapFree xMinHeapFree)"
  shows "length (heap_row name d n pct) = 60 \<and> unat pct = 100 * unat n div unat configTOTAL_HEAP_SIZE"
proof -
  have n: "n \<le> configTOTAL_HEAP_SIZE" and pct: "pct = 100 * n div configTOTAL_HEAP_SIZE" and name: "length name \<le> 16"
    using assms by (auto simp: heap_rows_def Let_def word_le_nat_alt unat_sub)
  have p: "unat pct = 100 * unat n div unat configTOTAL_HEAP_SIZE" unfolding pct by (rule percent_exact [OF n]) simp_all
  moreover have "unat n \<le> 262144" using n by (simp add: word_le_nat_alt)
  then have "100 * unat n div unat configTOTAL_HEAP_SIZE \<le> 100" by simp
  with p have "pct \<le> 100" by (simp add: word_le_nat_alt)
  ultimately show ?thesis using length_heap_row name by simp
qed

subsection \<open>Time\<close>

text \<open>Reading the line back: the digits of the days, and the other fields at their places behind them.\<close>

definition read_uptime :: "string \<Rightarrow> nat" where
  "read_uptime s =
     (let s1 = drop 3 s; days = takeWhile isdigit s1; t = drop 8 (dropWhile isdigit s1)
      in ((((digits_value days * 24 + digits_value (take 2 t)) * 60 + digits_value (take 2 (drop 3 t))) * 60 +
           digits_value (take 2 (drop 6 t))) * 1000) + digits_value (take 3 (drop 9 t)))"

lemma mod_div_field: "0 < b \<Longrightarrow> n mod (b * c) div b = n div b mod (c :: nat)"
  by (simp add: mod_mult2_eq)

lemma zero_pad_value: "digits_value (zero_pad k (dec n)) = n"
  by (simp add: zero_pad_def digits_value_zeros digits_value_dec)

lemma zero_pad_2: "n < 100 \<Longrightarrow> length (zero_pad 2 (dec n)) = 2"
  by (intro length_zero_pad dec_length) simp_all

lemma zero_pad_3: "n < 1000 \<Longrightarrow> length (zero_pad 3 (dec n)) = 3"
  by (intro length_zero_pad dec_length) simp_all

lemma while_dec: "takeWhile isdigit (dec n @ CHR '' '' # t) = dec n" "dropWhile isdigit (dec n @ CHR '' '' # t) = CHR '' '' # t"
  using dec_digits [of n] by (simp_all add: takeWhile_append dropWhile_append isdigit_def list_all_iff)

text \<open>The time that \<open>uptime\<close> prints is the tick count, to the millisecond.\<close>

lemma uptime_reads_back: "read_uptime (uptime_text n) = n"
proof -
  let ?h = "n mod 86400000 div 3600000" and ?m = "n mod 3600000 div 60000" and ?s = "n mod 60000 div 1000" and ?ms = "n mod 1000"
  have "?h < 100" "?m < 100" "?s < 100" "?ms < 1000" by (simp_all add: div_less_iff_less_mult)
  then have "length (zero_pad 2 (dec ?h)) = 2" "length (zero_pad 2 (dec ?m)) = 2" "length (zero_pad 2 (dec ?s)) = 2" "length (zero_pad 3 (dec ?ms)) = 3"
    by (simp_all add: zero_pad_2 zero_pad_3)
  then have "read_uptime (uptime_text n) = ((((n div 86400000) * 24 + ?h) * 60 + ?m) * 60 + ?s) * 1000 + ?ms"
    by (simp add: read_uptime_def uptime_text_def while_dec Let_def zero_pad_value digits_value_dec)
  also have "\<dots> = n"
  proof -
    have "?s = n div 1000 mod 60" "?m = n div 1000 div 60 mod 60" "?h = n div 1000 div 60 div 60 mod 24"
      "n div 86400000 = n div 1000 div 60 div 60 div 24"
      using mod_div_field [of 1000 n 60] mod_div_field [of 60000 n 60] mod_div_field [of 3600000 n 24] by (simp_all flip: div_mult2_eq)
    then show ?thesis by (simp only: div_mult_mod_eq)
  qed
  finally show ?thesis .
qed

end
