(* ===== verification/AgentStart.thy ===== *)
theory AgentStart
  imports AgentTask AgentConfig
begin

text \<open>
  The whole task of the MQTT agent (\<open>vMQTTAgentTask\<close> of \<open>src/source/mqtt_agent/mqtt_agent_task.c\<close>): what it allocates before the
  reconnect loop, what it gives to the other tasks, and what it leaves behind when it ends; and the functions with which the
  other tasks wait for it. The answers of the heap, the transport and the MQTT library are the record \<open>start_env\<close>.
\<close>

subsection \<open>Start\<close>

text \<open>The handle the other tasks ask for: none yet, the context of the task, or the block that was this context.\<close>

datatype agent_handle = NoHandle | CtxHandle | FreedHandle

text \<open>What the task owns and what the others see of it.\<close>

record agent_world =
  pucNetworkBuffer :: bool
  pxNetworkContext :: bool
  pxCtx :: "MQTTAgentTaskCtx_t option"
  xDefaultInstanceHandle :: agent_handle
  EVT_MQTT_INIT :: bool
  EVT_MQTT_CONNECTED :: bool
  pool_initialized :: bool
  released :: "freed list"

record start_env =
  buffer_ok :: bool
  transport_ok :: bool
  configure_ok :: bool
  ctx_ok :: bool
  agent_ctx :: "(MQTTStatus_t \<times> MQTTAgentTaskCtx_t) option"
  agent_init :: MQTTStatus_t
  recv_callback_ok :: bool

definition agent_start :: "start_env \<Rightarrow> agent_world \<Rightarrow> (MQTTStatus_t \<times> agent_world) option" where
  "agent_start e w = do {
     let w = w\<lparr>pucNetworkBuffer := buffer_ok e\<rparr>;
     let st = (if buffer_ok e then MQTTSuccess else MQTTNoMemory);
     let (st, w) = (if st = MQTTSuccess
                    then (if transport_ok e then MQTTSuccess else MQTTNoMemory, w\<lparr>pxNetworkContext := transport_ok e\<rparr>) else (st, w));
     let st = (if st = MQTTSuccess \<and> \<not> configure_ok e then MQTTBadParameter else st);
     (st, w) \<leftarrow> (if st = MQTTSuccess
                then (if ctx_ok e then do { (st, c) \<leftarrow> agent_ctx e; Some (st, w\<lparr>pxCtx := Some c\<rparr>) } else Some (MQTTNoMemory, w))
                else Some (st, w));
     let w = (if st = MQTTSuccess then w\<lparr>pool_initialized := True\<rparr> else w);
     let (st, w) = (if st = MQTTSuccess
                    then (agent_init e, if agent_init e = MQTTSuccess then w\<lparr>EVT_MQTT_INIT := True, xDefaultInstanceHandle := CtxHandle\<rparr> else w)
                    else (st, w));
     let st = (if st = MQTTSuccess \<and> \<not> recv_callback_ok e then MQTTBadParameter else st);
     Some (st, w)
   }"

subsection \<open>The loop and the end\<close>

text \<open>The rounds go on until one sets the exit flag.\<close>

fun agent_loop :: "nat \<Rightarrow> task \<Rightarrow> agent_state \<Rightarrow> agent_env list \<Rightarrow> agent_state option" where
  "agent_loop esz me st [] = (if xExitFlag st then Some st else None)"
| "agent_loop esz me st (e # es) =
     (if xExitFlag st then Some st else do { st \<leftarrow> agent_round esz e me st; agent_loop esz me st es })"

text \<open>The state of the loop is the part of the context and the events it works on.\<close>

definition loop_state :: "MQTTStatus_t \<Rightarrow> agent_world \<Rightarrow> MQTTAgentTaskCtx_t \<Rightarrow> agent_state" where
  "loop_state st w c = \<lparr>xSubMgrCtx = cfg_subMgr c, cleanSession = cfg_cleanSession c, evt_mqtt_init = EVT_MQTT_INIT w,
     evt_mqtt_connected = EVT_MQTT_CONNECTED w, xExitFlag = (st \<noteq> MQTTSuccess)\<rparr>"

definition after_loop :: "agent_state \<Rightarrow> agent_world \<Rightarrow> agent_world" where
  "after_loop s w = w\<lparr>pxCtx := map_option (\<lambda>c. c\<lparr>cfg_subMgr := xSubMgrCtx s, cfg_cleanSession := cleanSession s\<rparr>) (pxCtx w),
     EVT_MQTT_INIT := evt_mqtt_init s, EVT_MQTT_CONNECTED := evt_mqtt_connected s\<rparr>"

text \<open>The context and the network context are freed and the events cleared. The network buffer is not freed, and the handle
  keeps its value.\<close>

definition agent_end :: "bool \<Rightarrow> agent_world \<Rightarrow> agent_world" where
  "agent_end has_mutex w =
     (let w = (case pxCtx w of
                 None \<Rightarrow> w
               | Some c \<Rightarrow> w\<lparr>pxCtx := None, released := released w @ prvFreeAgentTaskCtx has_mutex c,
                   xDefaultInstanceHandle := (if xDefaultInstanceHandle w = CtxHandle then FreedHandle else xDefaultInstanceHandle w)\<rparr>)
      in w\<lparr>pxNetworkContext := False, EVT_MQTT_INIT := False, EVT_MQTT_CONNECTED := False\<rparr>)"

definition vMQTTAgentTask :: "nat \<Rightarrow> bool \<Rightarrow> task \<Rightarrow> start_env \<Rightarrow> agent_env list \<Rightarrow> agent_world \<Rightarrow> agent_world option" where
  "vMQTTAgentTask esz has_mutex me e rounds w = do {
     (st, w) \<leftarrow> agent_start e w;
     w \<leftarrow> (case pxCtx w of
             Some c \<Rightarrow> do { s \<leftarrow> agent_loop esz me (loop_state st w c) rounds; Some (after_loop s w) }
           | None \<Rightarrow> Some w);
     Some (agent_end has_mutex w)
   }"

subsection \<open>Waiting for the agent\<close>

text \<open>What another task sees whenever it is woken or has slept: the two events and the handle. Waiting for an event without a
  time limit ends when it is seen.\<close>

type_synonym sight = "bool \<times> bool \<times> agent_handle"

definition sight_of :: "agent_world \<Rightarrow> sight" where
  "sight_of w = (EVT_MQTT_INIT w, EVT_MQTT_CONNECTED w, xDefaultInstanceHandle w)"

definition xGetMqttAgentHandle :: "sight \<Rightarrow> agent_handle" where
  "xGetMqttAgentHandle v = snd (snd v)"

fun wait_handle :: "sight list \<Rightarrow> sight list option" where
  "wait_handle [] = None"
| "wait_handle (v # vs) = (if xGetMqttAgentHandle v = NoHandle then wait_handle vs else Some (v # vs))"

fun vSleepUntilMQTTAgentReady :: "sight list \<Rightarrow> sight list option" where
  "vSleepUntilMQTTAgentReady [] = None"
| "vSleepUntilMQTTAgentReady (v # vs) = (if fst v then wait_handle (v # vs) else vSleepUntilMQTTAgentReady vs)"

fun vSleepUntilMQTTAgentConnected :: "sight list \<Rightarrow> sight list option" where
  "vSleepUntilMQTTAgentConnected [] = None"
| "vSleepUntilMQTTAgentConnected (v # vs) = (if fst (snd v) then Some (v # vs) else vSleepUntilMQTTAgentConnected vs)"

definition xIsMqttAgentConnected :: "sight \<Rightarrow> bool" where
  "xIsMqttAgentConnected v = fst (snd v)"

subsection \<open>What the task leaves behind\<close>

definition before_start :: "agent_world \<Rightarrow> bool" where
  "before_start w \<longleftrightarrow> \<not> pucNetworkBuffer w \<and> \<not> pxNetworkContext w \<and> pxCtx w = None \<and> xDefaultInstanceHandle w = NoHandle \<and>
     \<not> EVT_MQTT_INIT w \<and> \<not> EVT_MQTT_CONNECTED w \<and> released w = []"

text \<open>The handle is given out exactly when everything before it succeeded.\<close>

definition handed_out :: "start_env \<Rightarrow> bool" where
  "handed_out e \<longleftrightarrow> buffer_ok e \<and> transport_ok e \<and> configure_ok e \<and> ctx_ok e \<and>
     (\<exists>c. agent_ctx e = Some (MQTTSuccess, c)) \<and> agent_init e = MQTTSuccess"

lemma agent_start_world:
  assumes "agent_start e w = Some (st, w1)" "before_start w"
  shows "pucNetworkBuffer w1 = buffer_ok e" "xDefaultInstanceHandle w1 = (if handed_out e then CtxHandle else NoHandle)"
    "EVT_MQTT_INIT w1 = handed_out e" "\<not> EVT_MQTT_CONNECTED w1" "released w1 = []"
    "pxCtx w1 \<noteq> None \<longleftrightarrow> buffer_ok e \<and> transport_ok e \<and> configure_ok e \<and> ctx_ok e"
    "st = MQTTSuccess \<longleftrightarrow> handed_out e \<and> recv_callback_ok e"
  using assms by (auto simp: agent_start_def before_start_def handed_out_def bind_eq_Some_conv Let_def split: if_splits)

text \<open>The loop starts in a state at its head.\<close>

lemma agent_loop_reach:
  assumes "agent_reach esz me st" "agent_loop esz me st es = Some st'"
  shows "agent_reach esz me st' \<and> xExitFlag st'"
  using assms
proof (induction es arbitrary: st)
  case (Cons e es)
  then show ?case by (cases "xExitFlag st") (auto simp: bind_eq_Some_conv intro: agent_reach.round)
qed (simp split: if_splits)

lemma wait_handle_some: "wait_handle vs = Some rest \<Longrightarrow> rest \<noteq> [] \<and> xGetMqttAgentHandle (hd rest) \<noteq> NoHandle"
  by (induction vs) (auto split: if_splits)

lemma sleep_ready_some: "vSleepUntilMQTTAgentReady vs = Some rest \<Longrightarrow> rest \<noteq> [] \<and> xGetMqttAgentHandle (hd rest) \<noteq> NoHandle"
  by (induction vs) (auto dest: wait_handle_some split: if_splits)

lemma sleep_ready_none: "\<forall>v \<in> set vs. \<not> fst v \<Longrightarrow> vSleepUntilMQTTAgentReady vs = None"
  by (induction vs) auto

lemma sleep_connected_some: "vSleepUntilMQTTAgentConnected vs = Some rest \<Longrightarrow> rest \<noteq> [] \<and> xIsMqttAgentConnected (hd rest)"
  by (induction vs) (auto simp: xIsMqttAgentConnected_def split: if_splits)


definition ex_agent_world :: agent_world where
  "ex_agent_world = \<lparr>pucNetworkBuffer = False, pxNetworkContext = False, pxCtx = None, xDefaultInstanceHandle = NoHandle,
     EVT_MQTT_INIT = False, EVT_MQTT_CONNECTED = False, pool_initialized = False, released = []\<rparr>"

definition ex_agent_start :: start_env where
  "ex_agent_start = \<lparr>buffer_ok = True, transport_ok = True, configure_ok = True, ctx_ok = True,
     agent_ctx = Some (MQTTSuccess, zero_ctx \<lparr>pxSubscriptions = [], pxSubAckStatus = [], pulSubCbCount = [], pxCallbacks = [],
       uxSubscriptionCount = 0, uxCallbackCount = 0, owner = None\<rparr>),
     agent_init = MQTTSuccess, recv_callback_ok = False\<rparr>"


end
