(* ===== verification/TlsLog.thy ===== *)
theory TlsLog
  imports CLib
begin

text \<open>
  What the TLS transport logs (\<open>src/source/crypto/mbedtls_transport.c\<close>): the reasons why a certificate was refused, the certificates
  it was configured with, and the debug messages of Mbed TLS. A log line is its formatted text. A certificate is given by what
  Mbed TLS has parsed: the attributes of the two names, the bytes of the serial number, and the dates.
\<close>

subsection \<open>Refused certificates\<close>

text \<open>The texts for the flags are those of \<open>MBEDTLS_X509_CRT_ERROR_INFO_LIST\<close>.\<close>

definition pcGetVerifyInfoString :: "(u32 \<Rightarrow> string option) \<Rightarrow> u32 \<Rightarrow> string" where
  "pcGetVerifyInfoString info flag = (case info flag of Some s \<Rightarrow> s | None \<Rightarrow> ''Unknown Failure reason.'')"

function verify_loop :: "(u32 \<Rightarrow> string option) \<Rightarrow> u32 \<Rightarrow> nat \<Rightarrow> string list" where
  "verify_loop info flags i =
     (let mask = push_bit i 1 in
      if i \<ge> 31 then []
      else (if flags AND mask \<noteq> 0 then [''Certificate Verification Failure: '' @ pcGetVerifyInfoString info (flags AND mask)] else [])
        @ verify_loop info flags (i + 1))"
  by pat_completeness auto
termination by (relation "measure (\<lambda>(info, flags, i). 31 - i)") auto

declare verify_loop.simps [simp del]

definition vLogCertificateVerifyResult :: "(u32 \<Rightarrow> string option) \<Rightarrow> u32 \<Rightarrow> string list" where
  "vLogCertificateVerifyResult info flags = verify_loop info flags 0"

subsection \<open>Certificates\<close>

text \<open>The attributes of a name: whether the identifier is that of the common name, and the value.\<close>

type_synonym x509_name = "(bool \<times> string) list"

fun uxGetCertCNFromName :: "x509_name \<Rightarrow> string option" where
  "uxGetCertCNFromName [] = None"
| "uxGetCertCNFromName ((is_cn, val) # pxCertName) = (if is_cn then Some val else uxGetCertCNFromName pxCertName)"

record x509_time =
  t_year :: nat
  t_mon :: nat
  t_day :: nat

record x509_crt =
  subject :: x509_name
  issuer :: x509_name
  serial :: "byte list option"
  valid_from :: x509_time
  valid_to :: x509_time

definition hex_digit :: "nat \<Rightarrow> char" where
  "hex_digit n = ''0123456789ABCDEF'' ! n"

text \<open>\<open>"%.02X"\<close>\<close>

definition hex_byte :: "byte \<Rightarrow> string" where
  "hex_byte b = [hex_digit (unat b div 16), hex_digit (unat b mod 16)]"

text \<open>Two digits and a terminator are written for every byte, into a buffer of 41 characters. The loop ends at the twenty-second
  byte.\<close>

fun serial_loop :: "nat \<Rightarrow> byte list \<Rightarrow> string \<Rightarrow> string option" where
  "serial_loop i [] buf = Some buf"
| "serial_loop i (b # bs) buf =
     (if i = 21 then Some buf
      else do {
        configASSERT (i * 2 + 3 \<le> length buf);
        serial_loop (i + 1) bs (overwrite (i * 2) (hex_byte b @ [NUL]) buf)
      })"

definition date_text :: "x509_time \<Rightarrow> string" where
  "date_text t = zero_pad 4 (dec (t_year t)) @ ''-'' @ zero_pad 2 (dec (t_mon t)) @ ''-'' @ zero_pad 2 (dec (t_day t))"

definition vLogCertInfo :: "x509_crt \<Rightarrow> string option \<Rightarrow> string list option" where
  "vLogCertInfo pxCert pcMessage = do {
     let bytes = (case serial pxCert of None \<Rightarrow> [] | Some bs \<Rightarrow> bs);
     pcSerialNumberHex \<leftarrow> serial_loop 0 bytes (replicate 41 NUL);
     Some (case (pcMessage, uxGetCertCNFromName (subject pxCert), uxGetCertCNFromName (issuer pxCert), serial pxCert) of
       (Some msg, Some subj, Some iss, Some sn) \<Rightarrow>
         [msg @ '' CN='' @ c_str subj @ '', SN:0x'' @ c_str pcSerialNumberHex,
          ''Issuer: CN='' @ c_str iss,
          ''Valid From: '' @ date_text (valid_from pxCert) @ '', Expires: '' @ date_text (valid_to pxCert)]
     | _ \<Rightarrow> [])
   }"

subsection \<open>Debug messages\<close>

definition pcMbedtlsLevelToFrLevel :: "int \<Rightarrow> string" where
  "pcMbedtlsLevelToFrLevel lLevel = (if lLevel = 1 then ''ERR'' else if lLevel = 2 \<or> lLevel = 3 then ''INF'' else ''DBG'')"

text \<open>The two pointers are the rest of the string from the character they point to.\<close>

fun basename_loop :: "string \<Rightarrow> string \<Rightarrow> string" where
  "basename_loop pcBasename [] = pcBasename"
| "basename_loop pcBasename (c # pcIter) = basename_loop (if c = CHR ''/'' \<or> c = CHR 92 then pcIter else pcBasename) pcIter"

definition pcPathToBasename :: "string \<Rightarrow> string" where
  "pcPathToBasename pcFileName = basename_loop (c_str pcFileName) (c_str pcFileName)"

text \<open>The call of \<open>vLoggingPrintf\<close>: level, file, line and format. The message of Mbed TLS is the format.\<close>

definition vTLSDebugPrint :: "int \<Rightarrow> string \<Rightarrow> int \<Rightarrow> string \<Rightarrow> string \<times> string \<times> int \<times> string" where
  "vTLSDebugPrint lLevel pcFileName lLineNumber pcErrStr =
     (pcMbedtlsLevelToFrLevel lLevel, pcPathToBasename pcFileName, lLineNumber, pcErrStr)"

subsection \<open>Lemmas\<close>

text \<open>One line for every bit that is set, from the lowest to the thirty-first.\<close>

lemma verify_loop_bits:
  "verify_loop info flags i = map (\<lambda>k. ''Certificate Verification Failure: '' @ pcGetVerifyInfoString info (push_bit k 1)) (filter (bit flags) [i..<31])"
proof (induction "31 - i" arbitrary: i)
  case 0
  then show ?case by (simp add: verify_loop.simps)
next
  case (Suc n)
  then have i: "i < 31" by simp
  then have up: "[i..<31] = i # [i + 1..<31]" by (simp add: upt_conv_Cons)
  have "flags AND push_bit i (1 :: u32) = (if bit flags i then push_bit i 1 else 0)"
  proof (rule bit_word_eqI)
    fix k assume "k < LENGTH(32)"
    then show "bit (flags AND push_bit i (1 :: u32)) k = bit (if bit flags i then push_bit i (1 :: u32) else 0) k"
      using i by (cases "k = i") (auto simp: bit_simps)
  qed
  moreover have "push_bit i (1 :: u32) \<noteq> 0" using i by simp
  ultimately show ?case using Suc(1) [of "i + 1"] Suc(2) i up by (subst verify_loop.simps) (simp add: Let_def)
qed

lemma hex_digit_no_nul: "n < 16 \<Longrightarrow> hex_digit n \<noteq> NUL"
  using nth_mem [of n "''0123456789ABCDEF''"] by (auto simp: hex_digit_def)

lemma unat_lt2p_byte: "unat (b :: byte) < 256"
  using unsigned_less [of b] by simp

lemma hex_byte_no_nul: "NUL \<notin> set (hex_byte b)"
proof -
  have "unat b div 16 < 16" using unat_lt2p_byte [of b] by simp
  then show ?thesis using hex_digit_no_nul [of "unat b div 16"] hex_digit_no_nul [of "unat b mod 16"] by (auto simp: hex_byte_def)
qed

lemma length_hex_byte [simp]: "length (hex_byte b) = 2" by (simp add: hex_byte_def)

lemma c_string_hex: "c_string (concat (map hex_byte bs))"
  using hex_byte_no_nul by (auto simp: c_string_def)

text \<open>The digits of the bytes so far, with a terminator behind them.\<close>

lemma serial_loop_fits:
  assumes "length buf = 41" "take (i * 2) buf = x" "buf ! (i * 2) = NUL" "i + length bs \<le> 20"
  shows "\<exists>buf'. serial_loop i bs buf = Some buf' \<and> length buf' = 41 \<and>
    take ((i + length bs) * 2) buf' = x @ concat (map hex_byte bs) \<and> buf' ! ((i + length bs) * 2) = NUL"
  using assms
proof (induction bs arbitrary: i buf x)
  case (Cons b bs)
  let ?buf = "overwrite (i * 2) (hex_byte b @ [NUL]) buf"
  have i: "i < 20" using Cons.prems(4) by simp
  have "length ?buf = 41" using Cons.prems(1) i by simp
  moreover have x: "length x = i * 2" using Cons.prems(1,2) i by auto
  then have "take ((i + 1) * 2) ?buf = x @ hex_byte b" using Cons.prems(1,2) i by (simp add: overwrite_def)
  moreover have "?buf ! ((i + 1) * 2) = NUL" using Cons.prems(1) i by (simp add: overwrite_def nth_append)
  ultimately show ?case using Cons.IH [of ?buf "i + 1" "x @ hex_byte b"] Cons.prems(1,4) i by simp
qed simp

lemma serial_loop_overflows:
  "length buf = 41 \<Longrightarrow> i \<le> 20 \<Longrightarrow> i + length bs \<ge> 21 \<Longrightarrow> serial_loop i bs buf = None"
proof (induction bs arbitrary: i buf)
  case (Cons b bs)
  then show ?case by (cases "i = 20") auto
qed simp


text \<open>The name of a file is what follows the last separator.\<close>

definition is_separator :: "char \<Rightarrow> bool" where
  "is_separator c \<longleftrightarrow> c = CHR ''/'' \<or> c = CHR 92"

lemma basename_loop_plain: "\<forall>c \<in> set xs. \<not> is_separator c \<Longrightarrow> basename_loop b xs = b"
  by (induction xs arbitrary: b) (auto simp: is_separator_def)

lemma basename_loop_split:
  "is_separator c \<Longrightarrow> \<forall>c \<in> set ys. \<not> is_separator c \<Longrightarrow> basename_loop b (xs @ c # ys) = ys"
  by (induction xs arbitrary: b) (auto simp: is_separator_def basename_loop_plain)

lemma path_basename:
  assumes "c_string path" "path = xs @ c # ys" "is_separator c" "\<forall>c \<in> set ys. \<not> is_separator c"
  shows "pcPathToBasename path = ys"
  using assms basename_loop_split [OF assms(3,4)] by (simp add: pcPathToBasename_def)

text \<open>
  C40. Logging a certificate writes outside its buffer of 41 characters exactly when the serial number has more than twenty bytes,
  which whoever issued the client or CA certificate the device is configured with chooses. Otherwise, when the certificate has
  both names and a serial number, the first of the three lines has the common name of the subject and every byte of
  the serial number as two digits.
\<close>

theorem cert_log_serial_overflow:
  "if length (case serial crt of None \<Rightarrow> [] | Some bs \<Rightarrow> bs) > 20 then vLogCertInfo crt msg = None
   else \<exists>lines. vLogCertInfo crt msg = Some lines \<and>
     (case (msg, uxGetCertCNFromName (subject crt), uxGetCertCNFromName (issuer crt), serial crt) of
        (Some m, Some subj, Some iss, Some sn) \<Rightarrow>
          length lines = 3 \<and> hd lines = m @ '' CN='' @ c_str subj @ '', SN:0x'' @ concat (map hex_byte sn)
      | _ \<Rightarrow> lines = [])"
proof -
  let ?sn = "case serial crt of None \<Rightarrow> [] | Some bs \<Rightarrow> bs"
  show ?thesis
  proof (cases "length ?sn > 20")
    case True
    then show ?thesis using serial_loop_overflows [of "replicate 41 NUL" 0 ?sn] by (simp add: vLogCertInfo_def)
  next
    case False
    then obtain buf where buf: "serial_loop 0 ?sn (replicate 41 NUL) = Some buf" "length buf = 41"
      "take (length ?sn * 2) buf = concat (map hex_byte ?sn)" "buf ! (length ?sn * 2) = NUL"
      using serial_loop_fits [of "replicate 41 NUL" 0 "[]" ?sn] by auto
    have "buf = concat (map hex_byte ?sn) @ NUL # drop (length ?sn * 2 + 1) buf"
      using id_take_nth_drop [of "length ?sn * 2" buf] buf(2-4) False by simp
    then have "c_str buf = concat (map hex_byte ?sn)" using c_str_NUL [OF c_string_hex [of ?sn]] by metis
    with False buf(1) show ?thesis
      by (auto simp: vLogCertInfo_def split: option.splits)
  qed
qed

end
