(* ===== verification/StartUp.thy ===== *)
theory StartUp
  imports KvNv OtaPal
begin

text \<open>
  The start of the device (\<open>src/source/app_main.c\<close>), the hooks of the kernel and of the network stack
  (\<open>src/source/sys/freertos_kernel_hooks.c\<close>, \<open>freertos_tcp_hooks.c\<close>), the platform functions of the RX65N, and how the OTA port resets the
  device. What is done to the hardware and the kernel is a list of steps. littlefs is the record \<open>lfs_ops\<close> of \<open>KvNv\<close>, with
  the calls that only the start uses in \<open>fs_ops\<close>.
\<close>

subsection \<open>The file system\<close>

definition LFS_ERR_NOENT :: int where "LFS_ERR_NOENT = - 2"

record 'f fs_ops =
  lfs_mount :: "'f \<Rightarrow> int \<times> 'f"
  lfs_format :: "'f \<Rightarrow> int \<times> 'f"
  lfs_mkdir :: "'f \<Rightarrow> string \<Rightarrow> int \<times> 'f"

text \<open>A directory that does not exist is made; the result replaces what \<open>err\<close> was.\<close>

definition make_dir :: "('f, 'h) lfs_ops \<Rightarrow> 'f fs_ops \<Rightarrow> string \<Rightarrow> int \<times> 'f \<Rightarrow> int \<times> 'f" where
  "make_dir L F path = (\<lambda>(err, f). if fst (lfs_stat L f path) = LFS_ERR_NOENT then lfs_mkdir F f path else (err, f))"

text \<open>The result, and whether the file system is given to the other tasks.\<close>

definition fs_init :: "('f, 'h) lfs_ops \<Rightarrow> 'f fs_ops \<Rightarrow> 'f \<Rightarrow> int \<times> bool \<times> 'f" where
  "fs_init L F f =
     (let (err, f) = lfs_mount F f;
          (err, f) = (if err \<noteq> LFS_ERR_OK
                      then (let (err, f) = lfs_format F f in if err = 0 then lfs_mount F f else (err, f))
                      else (err, f));
          (err, f) = make_dir L F ''/cfg'' (err, f);
          (err, f) = make_dir L F ''/ota'' (err, f)
      in (err, err = 0, f))"

text \<open>Another task looks at the pointer once in a second.\<close>

fun pxGetDefaultFsCtx :: "bool list \<Rightarrow> bool list option" where
  "pxGetDefaultFsCtx [] = None"
| "pxGetDefaultFsCtx (exported # later) = (if exported then Some (exported # later) else pxGetDefaultFsCtx later)"

subsection \<open>Start\<close>

datatype init_step = TaskCreate string | FLASH_WaitForLastOperation | otaPal_EarlyInit | EVT_FS_READY | KVStoreInit

fun create_tasks :: "(string \<Rightarrow> bool) \<Rightarrow> string list \<Rightarrow> init_step list option" where
  "create_tasks created [] = Some []"
| "create_tasks created (name # names) =
     do { configASSERT (created name); steps \<leftarrow> create_tasks created names; Some (TaskCreate name # steps) }"

text \<open>Up to the loop in which the task suspends itself. \<open>created\<close> tells which tasks the kernel can create.\<close>

definition vInitTask :: "(string \<Rightarrow> bool) \<Rightarrow> ('f, 'h) lfs_ops \<Rightarrow> 'f fs_ops \<Rightarrow> 'f \<Rightarrow> (init_step list \<times> 'f) option" where
  "vInitTask created L F f = do {
     cli \<leftarrow> create_tasks created [''cli''];
     let (xMountStatus, exported, f) = fs_init L F f;
     let fs = (if xMountStatus = LFS_ERR_OK then [FLASH_WaitForLastOperation, otaPal_EarlyInit, EVT_FS_READY, KVStoreInit] else []);
     tasks \<leftarrow> create_tasks created [''Heartbeat'', ''MxNet'', ''MQTTAgent'', ''OTAUpdate'', ''EnvSense'', ''MotionS'', ''ShadowDevice'', ''AWSDefender''];
     Some (cli @ fs @ [EVT_FS_READY] @ tasks, f)
   }"

text \<open>The flags of the reset register by their masks, in the order in which they are looked at.\<close>

record csr_masks =
  LPWRRSTF :: u32
  WWDGRSTF :: u32
  IWDGRSTF :: u32
  SFTRSTF :: u32
  BORRSTF :: u32
  PINRSTF :: u32
  OBLRSTF :: u32

definition vDetermineResetSource :: "csr_masks \<Rightarrow> u32 \<Rightarrow> u32 \<times> string" where
  "vDetermineResetSource M ulCsrFlags =
     (let ulCsrFlags = ulCsrFlags AND (LPWRRSTF M OR WWDGRSTF M OR IWDGRSTF M OR SFTRSTF M OR BORRSTF M OR PINRSTF M OR OBLRSTF M)
      in (ulCsrFlags,
          if ulCsrFlags AND LPWRRSTF M \<noteq> 0 then ''LPWRRSTF''
          else if ulCsrFlags AND WWDGRSTF M \<noteq> 0 then ''WWDGRSTF: Windowing Watchdog''
          else if ulCsrFlags AND IWDGRSTF M \<noteq> 0 then ''IWDGRSTF: Independent Watchdog''
          else if ulCsrFlags AND SFTRSTF M \<noteq> 0 then ''SFTRSTF: Software''
          else if ulCsrFlags AND BORRSTF M \<noteq> 0 then ''BORRSTF: Brownout''
          else if ulCsrFlags AND OBLRSTF M \<noteq> 0 then ''OBLRSTF: Option Byte Load''
          else if ulCsrFlags AND PINRSTF M \<noteq> 0 then ''PINRSTF: NSRT Pin''
          else ''Unknown''))"

subsection \<open>Hooks\<close>

definition uxRand :: u32 where "uxRand = 0"

text \<open>Both hooks stop the device.\<close>

definition vApplicationMallocFailedHook :: "unit option" where "vApplicationMallocFailedHook = None"

definition vApplicationStackOverflowHook :: "unit option" where "vApplicationStackOverflowHook = None"

datatype reset_step = PetWatchdog | SuspendAll | DyingGasp

text \<open>The reset itself is commented out: the function returns, with the scheduler suspended.\<close>

definition vDoSystemReset :: "bool \<Rightarrow> reset_step list" where
  "vDoSystemReset scheduler_running = [PetWatchdog] @ (if scheduler_running then [SuspendAll] else []) @ [DyingGasp]"

definition xApplicationGetRandomNumber :: "u32 \<times> bool" where
  "xApplicationGetRandomNumber = (uxRand, True)"

definition ulApplicationGetNextSequenceNumber :: "u32 \<Rightarrow> u16 \<Rightarrow> u32 \<Rightarrow> u16 \<Rightarrow> u32" where
  "ulApplicationGetNextSequenceNumber ulSourceAddress usSourcePort ulDestinationAddress usDestinationPort = uxRand"

definition pcApplicationHostnameHook :: string where "pcApplicationHostnameHook = ''FreeRTOS''"

definition lower_char :: "char \<Rightarrow> char" where
  "lower_char c = (if (65 :: nat) \<le> of_char c \<and> of_char c \<le> (90 :: nat) then char_of (of_char c + 32 :: nat) else c)"

definition stricmp_eq :: "string \<Rightarrow> string \<Rightarrow> bool" where
  "stricmp_eq a b \<longleftrightarrow> map lower_char (c_str a) = map lower_char (c_str b)"

definition xApplicationDNSQueryHook :: "string \<Rightarrow> string \<Rightarrow> bool" where
  "xApplicationDNSQueryHook mainDEVICE_NICK_NAME pcName \<longleftrightarrow>
     stricmp_eq pcName pcApplicationHostnameHook \<or> stricmp_eq pcName mainDEVICE_NICK_NAME"

text \<open>The addresses the stack is started with: IP address, net mask, MAC address.\<close>

definition vPlatformInitIpStack :: "byte list \<times> byte list \<times> byte list" where
  "vPlatformInitIpStack =
     (let r = uxRand; octet = (\<lambda>n. ucast (drop_bit n r AND 0xFF))
      in ([169, 254, octet 16, octet 24], [255, 255, 0, 0], [0x00, 0x11, octet 0, octet 8, octet 16, octet 24]))"

subsection \<open>Resetting for an update\<close>

datatype hw_step = SetPsw | InterruptsDisable | RegisterProtectDisable | SoftwareReset | DelayTicks nat

text \<open>The branch for an image that is not accepted is meant to swap the banks first; that call is commented out.\<close>

definition otaPal_ResetDevice :: "OtaImageState_t \<Rightarrow> hw_step list" where
  "otaPal_ResetDevice saved =
     (if saved = OtaImageStateAccepted \<or> saved = OtaImageStateTesting
      then [SetPsw, InterruptsDisable, RegisterProtectDisable, SoftwareReset]
      else [SetPsw, InterruptsDisable, RegisterProtectDisable, SoftwareReset])"

definition otaPal_ActivateNewImage :: "OtaImageState_t \<Rightarrow> hw_step list" where
  "otaPal_ActivateNewImage saved = DelayTicks 5000 # otaPal_ResetDevice saved"

text \<open>The events of the flash driver, and what the two callbacks do with one: any event gives the semaphore, and any event
  ends the wait for the header.\<close>

datatype flash_event = WriteComplete | EraseComplete | OtherFlashEvent nat

definition ota_flashing_callback :: "flash_event \<Rightarrow> nat \<Rightarrow> nat" where
  "ota_flashing_callback event xSemaphoreFlashig = min 1 (xSemaphoreFlashig + 1)"

definition ota_header_flashing_callback :: "flash_event \<Rightarrow> bool \<Rightarrow> bool" where
  "ota_header_flashing_callback event in_progress = False"

subsection \<open>What the start promises\<close>

text \<open>The directories of a file system, and whether it is mounted: mounting changes no directory, formatting removes all, and
  in a mounted file system a path is missing exactly when it is no directory.\<close>

definition fs_spec :: "('f, 'h) lfs_ops \<Rightarrow> 'f fs_ops \<Rightarrow> ('f \<Rightarrow> bool) \<Rightarrow> ('f \<Rightarrow> string set) \<Rightarrow> bool" where
  "fs_spec L F mounted dirs \<longleftrightarrow>
     (\<forall>f. dirs (snd (lfs_mount F f)) = dirs f \<and> (fst (lfs_mount F f) = LFS_ERR_OK \<longrightarrow> mounted (snd (lfs_mount F f)))) \<and>
     (\<forall>f. fst (lfs_format F f) = LFS_ERR_OK \<longrightarrow> dirs (snd (lfs_format F f)) = {}) \<and>
     (\<forall>f p. mounted f \<longrightarrow> (fst (lfs_stat L f p) = LFS_ERR_NOENT \<longleftrightarrow> p \<notin> dirs f)) \<and>
     (\<forall>f p. mounted f \<longrightarrow> mounted (snd (lfs_mkdir F f p)) \<and>
        dirs (snd (lfs_mkdir F f p)) = (if fst (lfs_mkdir F f p) = LFS_ERR_OK then insert p (dirs f) else dirs f))"

lemma make_dir_result:
  assumes "fs_spec L F mounted dirs" "mounted f" "make_dir L F p (e, f) = (e', f')"
  shows "mounted f'" "dirs f \<subseteq> dirs f'" "dirs f' \<subseteq> insert p (dirs f)"
    "e' = (if p \<in> dirs f then e else fst (lfs_mkdir F f p))" "p \<in> dirs f' \<longleftrightarrow> p \<in> dirs f \<or> fst (lfs_mkdir F f p) = LFS_ERR_OK"
proof -
  have stat: "fst (lfs_stat L f p) = LFS_ERR_NOENT \<longleftrightarrow> p \<notin> dirs f" using assms(1,2) unfolding fs_spec_def by blast
  have mk: "mounted (snd (lfs_mkdir F f p))"
    "dirs (snd (lfs_mkdir F f p)) = (if fst (lfs_mkdir F f p) = LFS_ERR_OK then insert p (dirs f) else dirs f)"
    using assms(1,2) unfolding fs_spec_def by blast+
  show "mounted f'" "dirs f \<subseteq> dirs f'" "dirs f' \<subseteq> insert p (dirs f)"
    "e' = (if p \<in> dirs f then e else fst (lfs_mkdir F f p))" "p \<in> dirs f' \<longleftrightarrow> p \<in> dirs f \<or> fst (lfs_mkdir F f p) = LFS_ERR_OK"
    using assms(3) stat mk assms(2) by (cases "lfs_mkdir F f p"; auto simp: make_dir_def split: if_splits)+
qed

text \<open>The mount, after formatting when it has to be.\<close>

definition mounts :: "'f fs_ops \<Rightarrow> 'f \<Rightarrow> 'f \<Rightarrow> bool" where
  "mounts F f f1 \<longleftrightarrow> lfs_mount F f = (LFS_ERR_OK, f1) \<or>
     (\<exists>e f0 f2. lfs_mount F f = (e, f0) \<and> e \<noteq> LFS_ERR_OK \<and> lfs_format F f0 = (LFS_ERR_OK, f2) \<and> lfs_mount F f2 = (LFS_ERR_OK, f1))"

lemma fs_init_mounted:
  assumes "mounts F f f1"
  shows "fs_init L F f = (let (err, f) = make_dir L F ''/ota'' (make_dir L F ''/cfg'' (LFS_ERR_OK, f1)) in (err, err = 0, f))"
  using assms by (auto simp: mounts_def fs_init_def LFS_ERR_OK_def Let_def split: prod.splits)

text \<open>
  On a device that can be mounted, if need be after formatting, the file system is mounted and every directory is kept unless it
  had to be formatted. The other tasks get it when the last directory that was made could be made: \<open>/ota\<close> exists
  then, but \<open>/cfg\<close>, where the key/value store keeps its files, exists only if making it did not fail.
\<close>

lemma fs_init_directories:
  assumes "fs_spec L F mounted dirs" "mounts F f f1" "mounted f1" "fs_init L F f = (err, exported, f')"
  shows "mounted f' \<and> dirs f1 \<subseteq> dirs f' \<and> (lfs_mount F f = (LFS_ERR_OK, f1) \<longrightarrow> dirs f1 = dirs f) \<and>
    (exported \<longleftrightarrow> err = LFS_ERR_OK) \<and> (exported \<longrightarrow> ''/ota'' \<in> dirs f') \<and>
    (''/cfg'' \<in> dirs f' \<longleftrightarrow> ''/cfg'' \<in> dirs f1 \<or> fst (lfs_mkdir F f1 ''/cfg'') = LFS_ERR_OK)"
proof -
  obtain e1 fa where c: "make_dir L F ''/cfg'' (LFS_ERR_OK, f1) = (e1, fa)" by (rule prod.exhaust)
  note C = make_dir_result [OF assms(1,3) c]
  obtain e2 fb where o: "make_dir L F ''/ota'' (e1, fa) = (e2, fb)" by (rule prod.exhaust)
  note O = make_dir_result [OF assms(1) C(1) o]
  have r: "err = e2" "exported \<longleftrightarrow> e2 = 0" "f' = fb" using assms(4) fs_init_mounted [OF assms(2), of L] c o by auto
  have "dirs f1 = dirs f" if "lfs_mount F f = (LFS_ERR_OK, f1)"
    using assms(1) that unfolding fs_spec_def by (metis snd_conv)
  moreover have "''/cfg'' \<in> dirs fb \<longleftrightarrow> ''/cfg'' \<in> dirs fa" using O(2,3) by auto
  moreover have "''/ota'' \<in> dirs fb" if "e2 = LFS_ERR_OK" using that O(2,4,5) by (auto split: if_splits)
  ultimately show ?thesis using r C O by (auto simp: LFS_ERR_OK_def)
qed

text \<open>A device without directories on which \<open>/cfg\<close> cannot be made: the tasks get a file system without it.\<close>

definition ex_stat :: "(bool \<times> string set, nat) lfs_ops" where
  "ex_stat = \<lparr>
     lfs_stat = (\<lambda>f p. (if p \<in> snd f then LFS_ERR_OK else LFS_ERR_NOENT, \<lparr>info_type = 2, info_size = 0\<rparr>)),
     lfs_file_open = (\<lambda>f p flags. (LFS_ERR_NOENT, f, 0)), lfs_file_read = (\<lambda>f h n. (LFS_ERR_INVAL, [], h)),
     lfs_file_write = (\<lambda>f h bs. (LFS_ERR_INVAL, f, h)), lfs_file_sync = (\<lambda>f h. (LFS_ERR_INVAL, f, h)),
     lfs_file_close = (\<lambda>f h. (LFS_ERR_INVAL, f)), lfs_remove = (\<lambda>f p. (LFS_ERR_INVAL, f))\<rparr>"

definition ex_dev :: "(bool \<times> string set) fs_ops" where
  "ex_dev = \<lparr>lfs_mount = (\<lambda>f. (LFS_ERR_OK, (True, snd f))), lfs_format = (\<lambda>f. (LFS_ERR_OK, (False, {}))),
     lfs_mkdir = (\<lambda>f p. if p = ''/cfg'' then (LFS_ERR_INVAL, f) else (LFS_ERR_OK, (fst f, insert p (snd f))))\<rparr>"

lemma ex_dev_spec: "fs_spec ex_stat ex_dev fst snd"
  by (simp add: fs_spec_def ex_stat_def ex_dev_def LFS_ERR_OK_def LFS_ERR_NOENT_def LFS_ERR_INVAL_def)

lemma fs_init_without_cfg:
  "\<exists>err f'. fs_init ex_stat ex_dev (False, {}) = (err, True, f') \<and> ''/ota'' \<in> snd f' \<and> ''/cfg'' \<notin> snd f'"
proof -
  obtain err f' where r: "fs_init ex_stat ex_dev (False, {}) = (err, True, f')"
    by (simp add: fs_init_def make_dir_def ex_stat_def ex_dev_def LFS_ERR_OK_def LFS_ERR_NOENT_def)
  have "mounts ex_dev (False, {}) (True, {})" by (simp add: mounts_def ex_dev_def)
  from fs_init_directories [OF ex_dev_spec this _ r] show ?thesis
    using r by (simp add: ex_dev_def LFS_ERR_OK_def LFS_ERR_INVAL_def)
qed

text \<open>Every device starts with the same addresses.\<close>

lemma addresses_constant: "vPlatformInitIpStack = ([169, 254, 0, 0], [255, 255, 0, 0], [0x00, 0x11, 0, 0, 0, 0])"
  by (simp add: vPlatformInitIpStack_def uxRand_def Let_def)

text \<open>A failed mount is announced like a good one, without the store being loaded.\<close>

lemma init_without_store:
  assumes "fs_init L F f = (err, exported, f')" "err \<noteq> LFS_ERR_OK" "\<forall>n. created n"
  shows "\<exists>steps. vInitTask created L F f = Some (steps, f') \<and> EVT_FS_READY \<in> set steps \<and> KVStoreInit \<notin> set steps"
  using assms by (simp add: vInitTask_def)

end
