(* ===== verification/CliRng.thy ===== *)
theory CliRng
  imports CliPemSpec CLib
begin

text \<open>
  The \<open>rngtest\<close> command (\<open>source/cli/cli_rngtest.c\<close>): random bytes in base64 on the console. What the entropy source of Mbed TLS gives
  is a list, one entry for each block of 64 bytes, \<open>None\<close> for a failure.
\<close>

abbreviation (input) MBEDTLS_ENTROPY_BLOCK_SIZE :: nat where "MBEDTLS_ENTROPY_BLOCK_SIZE \<equiv> 64"

text \<open>\<open>strtoul( s, NULL, 0 )\<close>: the prefix decides about the base.\<close>

definition digit_of :: "char \<Rightarrow> nat" where
  "digit_of c = (let n = of_char c in if 48 \<le> n \<and> n \<le> 57 then n - 48 else if 65 \<le> n \<and> n \<le> 70 then n - 55
     else if 97 \<le> n \<and> n \<le> 102 then n - 87 else 99)"

definition digits_base :: "nat \<Rightarrow> string \<Rightarrow> nat" where
  "digits_base b s = foldl (\<lambda>v c. v * b + digit_of c) 0 (takeWhile (\<lambda>c. digit_of c < b) s)"

definition strtoul0 :: "string \<Rightarrow> u32" where
  "strtoul0 s =
     (let t = dropWhile isspace (c_str s);
          neg = (t \<noteq> [] \<and> hd t = CHR ''-'');
          t = (if t \<noteq> [] \<and> (hd t = CHR ''-'' \<or> hd t = CHR ''+'') then tl t else t);
          n = (if length t > 2 \<and> t ! 0 = CHR ''0'' \<and> t ! 1 \<in> {CHR ''x'', CHR ''X''} \<and> digit_of (t ! 2) < 16 then digits_base 16 (drop 2 t)
               else if t \<noteq> [] \<and> hd t = CHR ''0'' then digits_base 8 t else digits_base 10 t)
      in if 2 ^ 32 \<le> n then - 1 else if neg then - word_of_nat n else word_of_nat n)"

text \<open>The number of bytes written is a \<open>size_t\<close>, which wraps.\<close>

fun rng_loop :: "base64 \<Rightarrow> 'c ConsoleIO_t \<Rightarrow> u32 \<Rightarrow> u32 \<Rightarrow> byte list option list \<Rightarrow> 'c \<Rightarrow> 'c option" where
  "rng_loop B io uxNumRandomBytes uxBytesWritten [] c = (if uxBytesWritten < uxNumRandomBytes then None else Some c)"
| "rng_loop B io uxNumRandomBytes uxBytesWritten (e # es) c =
     (if \<not> uxBytesWritten < uxNumRandomBytes then Some c
      else (case e of
        None \<Rightarrow> io_print io ''Error: mbedtls_entropy_func call failed.'' c
      | Some pucEntropyBuffer \<Rightarrow>
          (case mbedtls_base64_encode B (2 * MBEDTLS_ENTROPY_BLOCK_SIZE) pucEntropyBuffer of
             None \<Rightarrow> io_print io ''Error: mbedtls_base64_encode call failed.'' c
           | Some text \<Rightarrow> do {
               c \<leftarrow> io_write io text c;
               rng_loop B io uxNumRandomBytes (uxBytesWritten + of_nat MBEDTLS_ENTROPY_BLOCK_SIZE) es c
             })))"

definition prvRngTestCommand :: "base64 \<Rightarrow> 'c ConsoleIO_t \<Rightarrow> string list \<Rightarrow> byte list option list \<Rightarrow> 'c \<Rightarrow> 'c option" where
  "prvRngTestCommand B io ppcArgv entropy c = do {
     let uxNumRandomBytes = (if length ppcArgv > 1 then strtoul0 (ppcArgv ! 1) else 2500);
     c \<leftarrow> rng_loop B io uxNumRandomBytes 0 entropy c;
     io_print io (crlf @ ''DONE'' @ crlf) c
   }"

subsection \<open>When it ends\<close>

text \<open>A console on which everything can be printed while it is \<open>ok\<close>.\<close>

definition prints :: "'c ConsoleIO_t \<Rightarrow> ('c \<Rightarrow> bool) \<Rightarrow> bool" where
  "prints io ok \<longleftrightarrow> (\<forall>t c. ok c \<longrightarrow> (\<exists>c'. io_write io t c = Some c' \<and> ok c') \<and> (\<exists>c'. io_print io t c = Some c' \<and> ok c'))"

lemma block_encodes:
  assumes "base64_spec B" "length bs = 64"
  obtains enc where "mbedtls_base64_encode B 128 bs = Some enc"
proof -
  have "base64_length (length bs) < 128" using assms(2) by (simp add: base64_length_def)
  with assms(1) show ?thesis using that by (rule base64_encodes)
qed

lemma rng_loop_ends:
  assumes "base64_spec B" "prints io ok" "\<forall>bs \<in> set bss. length bs = 64"
    and "unat num \<le> 2 ^ 32 - 64" "unat w \<le> unat num + 63" "unat w + 64 * length bss \<ge> unat num" "ok c"
  shows "\<exists>c'. rng_loop B io num w (map Some bss) c = Some c' \<and> ok c'"
  using assms(3,5-7)
proof (induction bss arbitrary: w c)
  case Nil
  then show ?case by (simp add: word_less_nat_alt)
next
  case (Cons bs bss)
  show ?case
  proof (cases "w < num")
    case True
    then have lt: "unat w < unat num" by (simp add: word_less_nat_alt)
    then have w: "unat (w + 64) = unat w + 64" using assms(4) by (simp add: unat_add_lem [THEN iffD1])
    obtain enc where "mbedtls_base64_encode B 128 bs = Some enc" using block_encodes assms(1) Cons.prems(1) by (metis list.set_intros(1))
    moreover obtain c' where c': "io_write io enc c = Some c'" "ok c'" using assms(2) Cons.prems(4) by (auto simp: prints_def)
    moreover have "\<exists>d. rng_loop B io num (w + 64) (map Some bss) c' = Some d \<and> ok d"
      using Cons.prems lt w c'(2) by (intro Cons.IH) auto
    ultimately show ?thesis using True by simp
  qed (use Cons.prems(4) in simp)
qed

lemma rng_loop_for_ever:
  assumes "base64_spec B" "\<forall>bs \<in> set bss. length bs = 64" "unat num > 2 ^ 32 - 64" "64 dvd unat w"
  shows "rng_loop B io num w (map Some bss) c = None"
proof -
  have below: "w < num" if "64 dvd unat w" for w
  proof -
    obtain k where "unat w = 64 * k" using \<open>64 dvd unat w\<close> by (auto simp: dvd_def)
    moreover have "unat w < 2 ^ 32" using unsigned_less [of w] by simp
    ultimately have "unat w \<le> 2 ^ 32 - 64" by simp
    then show ?thesis using assms(3) by (simp add: word_less_nat_alt)
  qed
  show ?thesis using assms(2,4)
  proof (induction bss arbitrary: w c)
    case (Cons bs bss)
    have "unat (w + 64) = (unat w + 64) mod 2 ^ 32" by (simp add: unat_word_ariths)
    then have "64 dvd unat (w + 64)" using Cons.prems(2) by (simp add: dvd_mod_iff)
    then have "rng_loop B io num (w + 64) (map Some bss) c' = None" for c' using Cons.IH Cons.prems(1) by simp
    moreover obtain enc where "mbedtls_base64_encode B 128 bs = Some enc" using block_encodes assms(1) Cons.prems(1) by (metis list.set_intros(1))
    ultimately show ?case using below [OF Cons.prems(2)] by (simp add: bind_eq_None_conv)
  qed (use below in simp)
qed

text \<open>
  C39. With an entropy source that always delivers and a console that prints, \<open>rngtest\<close> ends exactly when the number of bytes
  asked for is at most \<open>2\<^sup>3\<^sup>2 - 64\<close>. For a larger number the count of written bytes wraps to 0 before it gets there, and the
  command prints random bytes for ever.
\<close>

theorem rngtest_ends:
  assumes "base64_spec B" "prints io ok" "ok c" "\<forall>i. length (f i) = 64"
  shows "(\<exists>n. prvRngTestCommand B io ppcArgv (map (\<lambda>i. Some (f i)) [0..<n]) c \<noteq> None) \<longleftrightarrow>
    unat (if length ppcArgv > 1 then strtoul0 (ppcArgv ! 1) else 2500) \<le> 2 ^ 32 - 64"
proof -
  let ?num = "if length ppcArgv > 1 then strtoul0 (ppcArgv ! 1) else 2500"
  have es: "map (\<lambda>i. Some (f i)) [0..<n] = map Some (map f [0..<n])" for n by simp
  have len: "\<forall>bs \<in> set (map f [0..<n]). length bs = 64" for n using assms(4) by simp
  show ?thesis
  proof (cases "unat ?num \<le> 2 ^ 32 - 64")
    case True
    have "unat (0 :: u32) \<le> unat ?num + 63" "unat ?num \<le> unat (0 :: u32) + 64 * length (map f [0..<unat ?num])" by simp_all
    from rng_loop_ends [OF assms(1,2) len True this assms(3)]
    obtain c' where "rng_loop B io ?num 0 (map Some (map f [0..<unat ?num])) c = Some c'" "ok c'" by blast
    moreover from this(2) obtain d where "io_print io (crlf @ ''DONE'' @ crlf) c' = Some d" using assms(2) by (auto simp: prints_def)
    ultimately have "prvRngTestCommand B io ppcArgv (map (\<lambda>i. Some (f i)) [0..<unat ?num]) c = Some d"
      unfolding prvRngTestCommand_def es Let_def by simp
    then show ?thesis using True by blast
  next
    case False
    then have "rng_loop B io ?num 0 (map Some (map f [0..<n])) c = None" for n
      by (intro rng_loop_for_ever [OF assms(1) len]) simp_all
    then have "prvRngTestCommand B io ppcArgv (map (\<lambda>i. Some (f i)) [0..<n]) c = None" for n
      unfolding prvRngTestCommand_def es Let_def by simp
    then show ?thesis using False by simp
  qed
qed

definition ex_printer :: "string ConsoleIO_t" where
  "ex_printer = \<lparr>io_readline = \<lambda>c. None, io_write = \<lambda>t c. Some (c @ t), io_print = \<lambda>t c. Some (c @ t)\<rparr>"

theorem rngtest_ends_witness:
  "(\<nexists>n. prvRngTestCommand ex_base64 ex_printer [''rngtest'', ''0xFFFFFFFF''] (map (\<lambda>i. Some (replicate 64 7)) [0..<n]) [] \<noteq> None) \<and>
   (\<exists>n. prvRngTestCommand ex_base64 ex_printer [''rngtest''] (map (\<lambda>i. Some (replicate 64 7)) [0..<n]) [] \<noteq> None)"
proof -
  have p: "prints ex_printer (\<lambda>c. True)" by (simp add: prints_def ex_printer_def)
  have n: "strtoul0 ''0xFFFFFFFF'' = - 1" by (simp add: strtoul0_def isspace_def c_str_def digit_of_def digits_base_def)
  note t = rngtest_ends [OF ex_base64_spec p TrueI, of "\<lambda>i. replicate 64 7"]
  have "unat (- 1 :: u32) = 4294967295" by (simp add: unsigned_minus_1_eq_mask mask_eq_exp_minus_1)
  then show ?thesis using t [of "[''rngtest'', ''0xFFFFFFFF'']" "[]"] t [of "[''rngtest'']" "[]"] n by simp
qed

end
