(* ===== verification/MbedtlsPort.thy ===== *)
theory MbedtlsPort
  imports NewlibHeap
begin

text \<open>
  What Mbed TLS gets its memory and its mutexes from (\<open>src/source/crypto/mbedtls_port/mbedtls_freertos_port.c\<close>): an allocation that
  is checked for overflow and cleared, a release that wipes the block, and static FreeRTOS mutexes. The heap is that of
  \<open>NewlibHeap\<close>; a released block is returned with the bytes that stay in it.
\<close>

subsection \<open>Memory\<close>

definition mbedtls_platform_calloc :: "allocator \<Rightarrow> nat \<Rightarrow> nat \<Rightarrow> heap \<Rightarrow> (nat option \<times> heap) option" where
  "mbedtls_platform_calloc alloc nmemb sz h =
     (let totalSize = u32_of (nmemb * sz) in
      if totalSize > 0 \<and> totalSize div sz = nmemb
      then (case pvPortMalloc alloc totalSize h of
              (None, h) \<Rightarrow> Some (None, h)
            | (Some p, h) \<Rightarrow> do {
                bs \<leftarrow> h p;
                bs \<leftarrow> mem_write 0 (replicate totalSize 0) bs;
                Some (Some p, h(p \<mapsto> bs))
              })
      else Some (None, h))"

definition mbedtls_platform_free :: "nat \<Rightarrow> nat option \<Rightarrow> heap \<Rightarrow> (byte list \<times> heap) option" where
  "mbedtls_platform_free xHeapStructSize ptr h = do {
     xBlockLen \<leftarrow> malloc_usable_size xHeapStructSize ptr h;
     (case ptr of
        None \<Rightarrow> Some ([], h)
      | Some p \<Rightarrow>
          if xBlockLen > 0
          then do {
            bs \<leftarrow> h p;
            bs \<leftarrow> mem_write 0 (replicate (unat xBlockLen) 0) bs;
            h \<leftarrow> vPortFree ptr h;
            Some (bs, h)
          }
          else Some ([], h))
   }"

subsection \<open>Mutexes\<close>

text \<open>A handle is NULL or a mutex, which is free or held by a task. A call that waits for ever or fails an assertion, in the port
  or in the kernel, does not return.\<close>

type_synonym mutex = "nat option option"

definition mbedtls_platform_mutex_init :: "bool \<Rightarrow> mutex \<Rightarrow> mutex option" where
  "mbedtls_platform_mutex_init created m = do {
     let m = (if created then Some None else None);
     configASSERT (m \<noteq> None);
     Some m
   }"

definition mbedtls_platform_mutex_free :: "mutex \<Rightarrow> mutex option" where
  "mbedtls_platform_mutex_free m = do { configASSERT (m \<noteq> None); Some m }"

definition mbedtls_platform_mutex_lock :: "nat \<Rightarrow> mutex \<Rightarrow> (int \<times> mutex) option" where
  "mbedtls_platform_mutex_lock me m = (case m of Some None \<Rightarrow> Some (0, Some (Some me)) | _ \<Rightarrow> None)"

definition mbedtls_platform_mutex_unlock :: "nat \<Rightarrow> mutex \<Rightarrow> (int \<times> mutex) option" where
  "mbedtls_platform_mutex_unlock me m = do {
     configASSERT (m \<noteq> None);
     configASSERT (m = Some (Some me));
     Some (0, Some None)
   }"

subsection \<open>Lemmas\<close>

text \<open>Dividing the product by the size tells whether it has wrapped.\<close>

lemma overflow_check:
  assumes "0 < u32_of (m * n)"
  shows "u32_of (m * n) div n = m \<longleftrightarrow> m * n < 2 ^ 32"
proof
  assume "u32_of (m * n) div n = m"
  then have "m * n \<le> u32_of (m * n)" by (metis div_times_less_eq_dividend)
  then show "m * n < 2 ^ 32" by (simp add: u32_of_def)
next
  assume "m * n < 2 ^ 32"
  moreover from this have "0 < n" using assms by (cases n) (simp_all add: u32_of_def)
  ultimately show "u32_of (m * n) div n = m" by (simp add: u32_of_def)
qed

lemma free_wipes:
  assumes "heap_ok hs h" "h p = Some bs" "bs \<noteq> []"
  shows "mbedtls_platform_free hs (Some p) h = Some (replicate (length bs) 0, h(p := None))"
proof -
  note u = usable_size [OF assms(1,2)]
  have "0 < (of_nat (length bs) :: u32)" using u(2) assms(3) by (simp add: word_less_nat_alt)
  then show ?thesis using u assms(2) by (simp add: mbedtls_platform_free_def vPortFree_def domIff overwrite_def)
qed

lemma mutex_excludes:
  assumes "mbedtls_platform_mutex_lock t m = Some (r, m')"
  shows "r = 0" "mbedtls_platform_mutex_lock u m' = None" "t \<noteq> u \<Longrightarrow> mbedtls_platform_mutex_unlock u m' = None"
    "mbedtls_platform_mutex_unlock t m' = Some (0, m)"
  using assms by (auto simp: mbedtls_platform_mutex_lock_def mbedtls_platform_mutex_unlock_def split: option.splits)

text \<open>
  C38. Mbed TLS gets an array only if its size is not zero and does not wrap, and every byte of it is zero; otherwise the heap is as
  before. Whatever is written to the array, when it is released the block goes back to the heap wiped to its last byte, and no other
  block is touched.
\<close>

theorem mbedtls_memory_cleared:
  assumes "alloc_spec hs alloc" "heap_ok hs h"
  shows "\<exists>r h'. mbedtls_platform_calloc alloc m n h = Some (r, h') \<and>
    (case r of
       None \<Rightarrow> h' = h \<and> (m * n = 0 \<or> m * n \<ge> 2 ^ 32 \<or> alloc (m * n) h = None)
     | Some p \<Rightarrow> 0 < m * n \<and> m * n < 2 ^ 32 \<and> p \<notin> dom h \<and>
         (\<exists>bs. h' = h(p \<mapsto> bs) \<and> m * n \<le> length bs \<and> take (m * n) bs = replicate (m * n) 0 \<and>
            (\<forall>bs'. length bs' = length bs \<longrightarrow> mbedtls_platform_free hs (Some p) (h'(p \<mapsto> bs')) = Some (replicate (length bs) 0, h))))"
proof (cases "0 < m * n \<and> m * n < 2 ^ 32")
  case False
  then have "\<not> (0 < u32_of (m * n) \<and> u32_of (m * n) div n = m)" using overflow_check by (auto simp: u32_of_def)
  then show ?thesis using False by (auto simp: mbedtls_platform_calloc_def)
next
  case True
  then have t: "u32_of (m * n) = m * n" by (simp add: u32_of_def)
  have d: "u32_of (m * n) div n = m" using True overflow_check t by simp
  show ?thesis
  proof (cases "alloc (m * n) h")
    case None
    then show ?thesis using True t d by (simp add: mbedtls_platform_calloc_def pvPortMalloc_def)
  next
    case (Some a)
    then obtain p bs where a: "alloc (m * n) h = Some (p, bs)" by (cases a) simp
    note new = alloc_new [OF assms(1) a]
    let ?new = "overwrite 0 (replicate (m * n) 0) bs"
    have "mbedtls_platform_calloc alloc m n h = Some (Some p, h(p \<mapsto> ?new))"
      using True t d a new(3) by (simp add: mbedtls_platform_calloc_def pvPortMalloc_def)
    moreover have "mbedtls_platform_free hs (Some p) (h(p \<mapsto> bs')) = Some (replicate (length bs) 0, h)" if "length bs' = length bs" for bs'
    proof -
      have "bs' \<noteq> []" using that new(3) True by auto
      then show ?thesis using free_wipes [of hs "h(p \<mapsto> bs')" p bs'] heap_ok_update(1) [OF assms(2), of p bs'] new that
        by (simp add: domIff fun_upd_idem)
    qed
    moreover have "length ?new = length bs" "take (m * n) ?new = replicate (m * n) 0" using new(3) by (simp_all add: overwrite_def)
    ultimately show ?thesis using True new(1,3) by auto
  qed
qed

theorem mbedtls_memory_cleared_witness:
  "\<exists>h' bs. mbedtls_platform_calloc ex_alloc 3 4 Map.empty = Some (Some 200, h') \<and> h' 200 = Some bs \<and> take 12 bs = replicate 12 0"
proof -
  have ok: "heap_ok 8 Map.empty" by (simp add: heap_ok_def)
  obtain bs where bs: "mbedtls_platform_calloc ex_alloc 3 4 Map.empty = Some (Some 200, [200 \<mapsto> bs])"
    by (simp add: mbedtls_platform_calloc_def u32_of_def pvPortMalloc_def ex_alloc_def)
  have "\<exists>bs'. [200 :: nat \<mapsto> bs] = [200 \<mapsto> bs'] \<and> take 12 bs' = replicate 12 0"
    using mbedtls_memory_cleared [OF ex_alloc_spec ok, of 3 4] unfolding bs by auto
  then show ?thesis using bs by (metis fun_upd_same option.inject)
qed

end
