(* ===== verification/ConsoleTx.thy ===== *)
theory ConsoleTx
  imports Console
begin

text \<open>
  The transmit thread of the console and the plain reading functions (\<open>src/source/logging/cli_uart_drv.c\<close>), over the stream buffers of
  \<open>Console\<close>. What a round of the thread meets is a record: whether the semaphore is free, the message in the log buffer, and whether
  the end of a transmission is ever notified.
\<close>

subsection \<open>Reading\<close>

text \<open>Both functions; they differ in the time limit the kernel gets.\<close>

definition uart_read :: "'t stream_ops \<Rightarrow> nat \<Rightarrow> 't \<Rightarrow> nat \<times> string \<times> 't" where
  "uart_read ops xInputBufferLen t =
     (if xInputBufferLen > 0 then (let (xs, t) = receive ops xInputBufferLen t in (length xs, xs, t)) else (0, [], t))"

definition uart_read_timeout :: "'t stream_ops \<Rightarrow> nat \<Rightarrow> 't \<Rightarrow> nat \<times> string \<times> 't" where
  "uart_read_timeout ops xInputBufferLen t =
     (if xInputBufferLen > 0 then (let (xs, t) = receive ops xInputBufferLen t in (length xs, xs, t)) else (0, [], t))"

subsection \<open>Transmitting\<close>

record tx_env =
  tx_sem :: bool
  tx_message :: string
  tx_complete :: bool

abbreviation (input) CLI_UART_TX_WRITE_SZ_5MS :: nat where "CLI_UART_TX_WRITE_SZ_5MS \<equiv> 64"

text \<open>The characters of the round, from the stream or, when it is empty, from the stream after a log message was put into it.\<close>

definition tx_take :: "'t stream_ops \<Rightarrow> nat \<Rightarrow> tx_env \<Rightarrow> 't console \<Rightarrow> (string \<times> 't console) option" where
  "tx_take ops CLI_UART_TX_STREAM_LEN e c = do {
     let (xs, t) = receive ops CLI_UART_TX_WRITE_SZ_5MS (xUartTxStream c);
     let c = c\<lparr>xUartTxStream := t\<rparr>;
     if xs = [] \<and> tx_sem e
     then do {
       c \<leftarrow> tx_log ops CLI_UART_TX_STREAM_LEN (tx_message e) c;
       if length (tx_message e) > 0
       then (let (xs, t) = receive ops CLI_UART_TX_WRITE_SZ_5MS (xUartTxStream c) in Some (xs, c\<lparr>xUartTxStream := t\<rparr>))
       else Some ([], c)
     }
     else Some (xs, c)
   }"

text \<open>The call that would start a transmission is replaced by the constant \<open>pdTRUE\<close>: the thread only clears its notification
  and waits for the next without a time limit.\<close>

definition tx_round :: "'t stream_ops \<Rightarrow> nat \<Rightarrow> tx_env \<Rightarrow> 't console \<Rightarrow> (string \<times> 't console) option" where
  "tx_round ops CLI_UART_TX_STREAM_LEN e c = do {
     (xs, c) \<leftarrow> tx_take ops CLI_UART_TX_STREAM_LEN e c;
     if length xs > 0 then do { configASSERT (tx_complete e); Some (xs, c) } else Some ([], c)
   }"

text \<open>The characters of the given rounds.\<close>

fun vTxThread :: "'t stream_ops \<Rightarrow> nat \<Rightarrow> tx_env list \<Rightarrow> 't console \<Rightarrow> (string \<times> 't console) option" where
  "vTxThread ops CLI_UART_TX_STREAM_LEN [] c = Some ([], c)"
| "vTxThread ops CLI_UART_TX_STREAM_LEN (e # es) c = do {
     (xs, c) \<leftarrow> tx_round ops CLI_UART_TX_STREAM_LEN e c;
     (ys, c) \<leftarrow> vTxThread ops CLI_UART_TX_STREAM_LEN es c;
     Some (xs @ ys, c)
   }"

subsection \<open>Lemmas\<close>

text \<open>A stream is a queue: what was sent is received in order. \<open>queued\<close> is what it holds.\<close>

definition queue_spec :: "'t stream_ops \<Rightarrow> ('t \<Rightarrow> string) \<Rightarrow> bool" where
  "queue_spec ops queued \<longleftrightarrow>
     (\<forall>n t xs t'. receive ops n t = (xs, t') \<longrightarrow> xs = take n (queued t) \<and> queued t' = drop n (queued t))"

lemma queue_receive: "queue_spec ops queued \<Longrightarrow> receive ops n t = (xs, t') \<Longrightarrow> xs = take n (queued t) \<and> queued t' = drop n (queued t)"
  unfolding queue_spec_def by blast

text \<open>While it is waited for no log message, the thread takes what the stream holds, in order.\<close>

lemma tx_round_takes:
  assumes "queue_spec ops queued" "tx_complete e" "queued (xUartTxStream c) \<noteq> []"
  shows "\<exists>c'. tx_round ops len e c = Some (take 64 (queued (xUartTxStream c)), c') \<and>
    queued (xUartTxStream c') = drop 64 (queued (xUartTxStream c))"
proof -
  obtain xs t where r: "receive ops 64 (xUartTxStream c) = (xs, t)" by (rule prod.exhaust)
  note q = queue_receive [OF assms(1) r]
  then have "xs \<noteq> []" using assms(3) by (cases "queued (xUartTxStream c)") auto
  then show ?thesis using q r assms(2) by (simp add: tx_round_def tx_take_def)
qed

lemma vTxThread_takes:
  assumes "queue_spec ops queued" "\<forall>e \<in> set es. tx_complete e" "64 * (length es - 1) < length (queued (xUartTxStream c))"
  shows "\<exists>c'. vTxThread ops len es c = Some (take (64 * length es) (queued (xUartTxStream c)), c') \<and>
    queued (xUartTxStream c') = drop (64 * length es) (queued (xUartTxStream c))"
  using assms(2,3)
proof (induction es arbitrary: c)
  case (Cons e es)
  have ne: "queued (xUartTxStream c) \<noteq> []" using Cons.prems(2) by auto
  have e: "tx_complete e" using Cons.prems(1) by simp
  from tx_round_takes [OF assms(1) e ne, of len]
  obtain c1 where c1: "tx_round ops len e c = Some (take 64 (queued (xUartTxStream c)), c1)"
    "queued (xUartTxStream c1) = drop 64 (queued (xUartTxStream c))" by blast
  show ?case
  proof (cases es)
    case Nil
    then show ?thesis using c1 by simp
  next
    case (Cons e2 es2)
    have "64 * (length es - 1) < length (queued (xUartTxStream c1))" using Cons.prems(2) c1(2) Cons by simp
    then obtain c2 where "vTxThread ops len es c1 = Some (take (64 * length es) (queued (xUartTxStream c1)), c2)"
      "queued (xUartTxStream c2) = drop (64 * length es) (queued (xUartTxStream c1))"
      using Cons.IH [of c1] Cons.prems(1) by auto
    then show ?thesis using c1 by (simp add: take_add add.commute)
  qed
qed simp

text \<open>Nothing in the program starts a transmission or uses \<open>txCompleteCallback\<close>, so the notification never comes: the thread waits for
  ever as soon as there is something to write.\<close>

lemma tx_thread_blocks:
  assumes "queue_spec ops queued" "\<not> tx_complete e" "queued (xUartTxStream c) \<noteq> []"
  shows "vTxThread ops len (e # es) c = None"
proof -
  obtain xs t where r: "receive ops 64 (xUartTxStream c) = (xs, t)" by (rule prod.exhaust)
  note q = queue_receive [OF assms(1) r]
  then have "xs \<noteq> []" using assms(3) by (cases "queued (xUartTxStream c)") auto
  then show ?thesis using r assms(2) by (simp add: tx_round_def tx_take_def)
qed

end
