(* ===== verification/OtaTables.thy ===== *)
theory OtaTables
  imports OtaTask
begin

text \<open>
  What the OTA task gives to the OTA library when it starts (\<open>prvSetOtaInterfaces\<close> and \<open>prvSetOTAAppBuffer\<close> of
  \<open>src/source/aws_demos/ota_update_task.c\<close>): the table of the functions the library calls, and the buffers it works in. A pointer to
  a function is the function's name, a buffer is the field of \<open>xAppStaticBuffer\<close> it points to.
\<close>

record OtaInterfaces_t =
  event_init :: string
  event_send :: string
  event_recv :: string
  event_deinit :: string
  timer_start :: string
  timer_stop :: string
  timer_delete :: string
  mem_malloc :: string
  mem_free :: string
  mqtt_subscribe :: string
  mqtt_publish :: string
  mqtt_unsubscribe :: string
  pal_getPlatformImageState :: string
  pal_setPlatformImageState :: string
  pal_writeBlock :: string
  pal_activate :: string
  pal_closeFile :: string
  pal_reset :: string
  pal_abort :: string
  pal_createFile :: string

definition prvSetOtaInterfaces :: "OtaInterfaces_t option \<Rightarrow> OtaInterfaces_t option" where
  "prvSetOtaInterfaces pOtaInterfaces = do {
     configASSERT (pOtaInterfaces \<noteq> None);
     Some \<lparr>event_init = ''OtaInitEvent_FreeRTOS'', event_send = ''OtaSendEvent_FreeRTOS'', event_recv = ''OtaReceiveEvent_FreeRTOS'',
       event_deinit = ''OtaDeinitEvent_FreeRTOS'', timer_start = ''OtaStartTimer_FreeRTOS'', timer_stop = ''OtaStopTimer_FreeRTOS'',
       timer_delete = ''OtaDeleteTimer_FreeRTOS'', mem_malloc = ''Malloc_FreeRTOS'', mem_free = ''Free_FreeRTOS'',
       mqtt_subscribe = ''prvMQTTSubscribe'', mqtt_publish = ''prvMQTTPublish'', mqtt_unsubscribe = ''prvMQTTUnsubscribe'',
       pal_getPlatformImageState = ''otaPal_GetPlatformImageState'', pal_setPlatformImageState = ''otaPal_SetPlatformImageState'',
       pal_writeBlock = ''otaPal_WriteBlock'', pal_activate = ''otaPal_ActivateNewImage'', pal_closeFile = ''otaPal_CloseFile'',
       pal_reset = ''otaPal_ResetDevice'', pal_abort = ''otaPal_Abort'', pal_createFile = ''otaPal_CreateFileForRx''\<rparr>
   }"

datatype app_buffer = updateFilePath | certFilePath | streamName | decodeMem | bitmap

text \<open>The sizes with which the buffers are declared; \<open>bitmap_size\<close> is the library's \<open>OTA_MAX_BLOCK_BITMAP_SIZE\<close>.\<close>

fun declared_size :: "nat \<Rightarrow> nat \<Rightarrow> app_buffer \<Rightarrow> nat" where
  "declared_size otaconfigLOG2_FILE_BLOCK_SIZE bitmap_size updateFilePath = 260"
| "declared_size otaconfigLOG2_FILE_BLOCK_SIZE bitmap_size certFilePath = 260"
| "declared_size otaconfigLOG2_FILE_BLOCK_SIZE bitmap_size streamName = 128"
| "declared_size otaconfigLOG2_FILE_BLOCK_SIZE bitmap_size decodeMem = push_bit otaconfigLOG2_FILE_BLOCK_SIZE 1"
| "declared_size otaconfigLOG2_FILE_BLOCK_SIZE bitmap_size bitmap = bitmap_size"

record OtaAppBuffer_t =
  pUpdateFilePath :: app_buffer
  updateFilePathsize :: nat
  pCertFilePath :: app_buffer
  certFilePathSize :: nat
  pStreamName :: app_buffer
  streamNameSize :: nat
  pDecodeMemory :: app_buffer
  decodeMemorySize :: nat
  pFileBitmap :: app_buffer
  fileBitmapSize :: nat

definition prvSetOTAAppBuffer :: "nat \<Rightarrow> nat \<Rightarrow> OtaAppBuffer_t" where
  "prvSetOTAAppBuffer otaconfigLOG2_FILE_BLOCK_SIZE OTA_MAX_BLOCK_BITMAP_SIZE =
     \<lparr>pUpdateFilePath = updateFilePath, updateFilePathsize = 260, pCertFilePath = certFilePath, certFilePathSize = 260,
      pStreamName = streamName, streamNameSize = 128, pDecodeMemory = decodeMem,
      decodeMemorySize = push_bit otaconfigLOG2_FILE_BLOCK_SIZE 1, pFileBitmap = bitmap, fileBitmapSize = OTA_MAX_BLOCK_BITMAP_SIZE\<rparr>"

text \<open>The library is told the size with which each buffer is declared, and no buffer twice.\<close>

lemma app_buffer_sizes:
  "let b = prvSetOTAAppBuffer l n; fields = [(pUpdateFilePath b, updateFilePathsize b), (pCertFilePath b, certFilePathSize b),
     (pStreamName b, streamNameSize b), (pDecodeMemory b, decodeMemorySize b), (pFileBitmap b, fileBitmapSize b)]
   in distinct (map fst fields) \<and> (\<forall>(p, k) \<in> set fields. k = declared_size l n p)"
  by (simp add: prvSetOTAAppBuffer_def)

end
