(* ===== verification/ByteQueue.thy ===== *)
theory ByteQueue
  imports Prelude
begin

text \<open>
  The byte queues of the serial driver (\<open>src/target/rx65n/smc_gen/r_byteq/src/r_byteq.c\<close>): ring buffers over memory of the caller, with a
  static table of 32 control blocks, as configured by \<open>r_byteq_config.h\<close>. A handle is NULL or the index of a control block; \<open>mem\<close> maps
  the addresses of the callers' buffers to their bytes. Arguments that point to where a result goes are whether they are not NULL.
\<close>

subsection \<open>Control blocks\<close>

datatype byteq_err_t = BYTEQ_SUCCESS | BYTEQ_ERR_NULL_PTR | BYTEQ_ERR_INVALID_ARG | BYTEQ_ERR_MALLOC_FAIL
  | BYTEQ_ERR_NO_MORE_CTRL_BLKS | BYTEQ_ERR_QUEUE_FULL | BYTEQ_ERR_QUEUE_EMPTY

record byteq_ctrl_t =
  buffer :: "nat option"
  qsize :: u16
  count :: u16
  in_index :: u16
  out_index :: u16

record byteq_state =
  g_qcb :: "byteq_ctrl_t list"
  qcb_init :: bool
  mem :: "nat \<rightharpoonup> byte list"

type_synonym byteq_hdl_t = "nat option"

abbreviation (input) BYTEQ_CFG_MAX_CTRL_BLKS :: nat where "BYTEQ_CFG_MAX_CTRL_BLKS \<equiv> 32"

text \<open>The first block from \<open>i\<close> on that is available.\<close>

fun first_available :: "nat \<Rightarrow> byteq_ctrl_t list \<Rightarrow> nat option" where
  "first_available i [] = None"
| "first_available i (q # qs) = (if buffer q = None then Some i else first_available (i + 1) qs)"

text \<open>The first call marks all blocks as available.\<close>

definition init_blocks :: "byteq_state \<Rightarrow> byteq_state" where
  "init_blocks s = (if \<not> qcb_init s then s\<lparr>g_qcb := map (\<lambda>q. q\<lparr>buffer := None\<rparr>) (g_qcb s), qcb_init := True\<rparr> else s)"

definition R_BYTEQ_Open :: "nat option \<Rightarrow> u16 \<Rightarrow> bool \<Rightarrow> byteq_state \<Rightarrow> byteq_err_t \<times> byteq_hdl_t \<times> byteq_state" where
  "R_BYTEQ_Open p_buf sz p_hdl s =
     (if \<not> p_hdl then (BYTEQ_ERR_INVALID_ARG, None, s)
      else if p_buf = None then (BYTEQ_ERR_NULL_PTR, None, s)
      else if sz < 2 then (BYTEQ_ERR_INVALID_ARG, None, s)
      else (let s = init_blocks s in
            case first_available 0 (g_qcb s) of
              None \<Rightarrow> (BYTEQ_ERR_NO_MORE_CTRL_BLKS, None, s)
            | Some i \<Rightarrow> (BYTEQ_SUCCESS, Some i,
                s\<lparr>g_qcb := (g_qcb s)[i := \<lparr>buffer = p_buf, qsize = sz, count = 0, in_index = 0, out_index = 0\<rparr>]\<rparr>)))"

definition R_BYTEQ_Close :: "byteq_hdl_t \<Rightarrow> byteq_state \<Rightarrow> byteq_err_t \<times> byteq_state" where
  "R_BYTEQ_Close hdl s =
     (case hdl of
        None \<Rightarrow> (BYTEQ_ERR_NULL_PTR, s)
      | Some h \<Rightarrow> (BYTEQ_SUCCESS, s\<lparr>g_qcb := (g_qcb s)[h := (g_qcb s ! h)\<lparr>buffer := None\<rparr>]\<rparr>))"

subsection \<open>Bytes\<close>

definition next_index :: "u16 \<Rightarrow> u16 \<Rightarrow> u16" where
  "next_index sz i = (let i = i + 1 in if i \<ge> sz then 0 else i)"

text \<open>Putting a byte in two parts: the byte and the index, and the count. The queues are configured without protection, so their caller
  keeps interrupts out. A buffer pointer that is NULL or an index behind the buffer is an error.\<close>

definition put_byte :: "nat \<Rightarrow> byte \<Rightarrow> byteq_state \<Rightarrow> byteq_state option" where
  "put_byte h b s = do {
     let q = g_qcb s ! h;
     p \<leftarrow> buffer q;
     bs \<leftarrow> mem s p;
     bs \<leftarrow> arr_set (unat (in_index q)) b bs;
     Some (s\<lparr>mem := (mem s)(p \<mapsto> bs), g_qcb := (g_qcb s)[h := q\<lparr>in_index := next_index (qsize q) (in_index q)\<rparr>]\<rparr>)
   }"

definition set_count :: "nat \<Rightarrow> u16 \<Rightarrow> byteq_state \<Rightarrow> byteq_state" where
  "set_count h n s = s\<lparr>g_qcb := (g_qcb s)[h := (g_qcb s ! h)\<lparr>count := n\<rparr>]\<rparr>"

definition R_BYTEQ_Put :: "byteq_hdl_t \<Rightarrow> byte \<Rightarrow> byteq_state \<Rightarrow> (byteq_err_t \<times> byteq_state) option" where
  "R_BYTEQ_Put hdl b s =
     (case hdl of
        None \<Rightarrow> Some (BYTEQ_ERR_NULL_PTR, s)
      | Some h \<Rightarrow>
          if count (g_qcb s ! h) \<ge> qsize (g_qcb s ! h) then Some (BYTEQ_ERR_QUEUE_FULL, s)
          else do {
            s \<leftarrow> put_byte h b s;
            Some (BYTEQ_SUCCESS, set_count h (count (g_qcb s ! h) + 1) s)
          })"

definition R_BYTEQ_Get :: "byteq_hdl_t \<Rightarrow> bool \<Rightarrow> byteq_state \<Rightarrow> (byteq_err_t \<times> byte option \<times> byteq_state) option" where
  "R_BYTEQ_Get hdl p_byte s =
     (case hdl of
        None \<Rightarrow> Some (BYTEQ_ERR_NULL_PTR, None, s)
      | Some h \<Rightarrow>
          (let q = g_qcb s ! h in
           if \<not> p_byte then Some (BYTEQ_ERR_INVALID_ARG, None, s)
           else if count q = 0 then Some (BYTEQ_ERR_QUEUE_EMPTY, None, s)
           else do {
             p \<leftarrow> buffer q;
             bs \<leftarrow> mem s p;
             b \<leftarrow> arr_get (unat (out_index q)) bs;
             Some (BYTEQ_SUCCESS, Some b,
               s\<lparr>g_qcb := (g_qcb s)[h := q\<lparr>out_index := next_index (qsize q) (out_index q), count := count q - 1\<rparr>]\<rparr>)
           }))"

definition R_BYTEQ_Flush :: "byteq_hdl_t \<Rightarrow> byteq_state \<Rightarrow> byteq_err_t \<times> byteq_state" where
  "R_BYTEQ_Flush hdl s =
     (case hdl of
        None \<Rightarrow> (BYTEQ_ERR_NULL_PTR, s)
      | Some h \<Rightarrow> (BYTEQ_SUCCESS, s\<lparr>g_qcb := (g_qcb s)[h := (g_qcb s ! h)\<lparr>in_index := 0, out_index := 0, count := 0\<rparr>]\<rparr>))"

definition R_BYTEQ_Used :: "byteq_hdl_t \<Rightarrow> bool \<Rightarrow> byteq_state \<Rightarrow> byteq_err_t \<times> u16 option" where
  "R_BYTEQ_Used hdl p_cnt s =
     (case hdl of
        None \<Rightarrow> (BYTEQ_ERR_NULL_PTR, None)
      | Some h \<Rightarrow> if \<not> p_cnt then (BYTEQ_ERR_INVALID_ARG, None) else (BYTEQ_SUCCESS, Some (count (g_qcb s ! h))))"

definition R_BYTEQ_Unused :: "byteq_hdl_t \<Rightarrow> bool \<Rightarrow> byteq_state \<Rightarrow> byteq_err_t \<times> u16 option" where
  "R_BYTEQ_Unused hdl p_cnt s =
     (case hdl of
        None \<Rightarrow> (BYTEQ_ERR_NULL_PTR, None)
      | Some h \<Rightarrow> if \<not> p_cnt then (BYTEQ_ERR_INVALID_ARG, None)
          else (BYTEQ_SUCCESS, Some (qsize (g_qcb s ! h) - count (g_qcb s ! h))))"

definition R_BYTEQ_GetVersion :: u32 where
  "R_BYTEQ_GetVersion = push_bit 16 2 OR 0"

subsection \<open>Rings\<close>

text \<open>The \<open>n\<close> bytes from index \<open>i\<close> on, in a ring of \<open>sz\<close> places.\<close>

definition ring :: "byte list \<Rightarrow> nat \<Rightarrow> nat \<Rightarrow> nat \<Rightarrow> byte list" where
  "ring bs sz i n = map (\<lambda>k. bs ! ((i + k) mod sz)) [0..<n]"

lemma length_ring [simp]: "length (ring bs sz i n) = n" by (simp add: ring_def)

lemma ring_0 [simp]: "ring bs sz i 0 = []" by (simp add: ring_def)

lemma mod_add_neq:
  assumes "k < n" "n < (sz :: nat)"
  shows "(i + k) mod sz \<noteq> (i + n) mod sz"
proof
  assume "(i + k) mod sz = (i + n) mod sz"
  then have "sz dvd (i + n) - (i + k)" using assms(1) by (intro mod_eq_dvd_iff_nat [THEN iffD1]) simp_all
  then show False using assms by (auto dest: dvd_imp_le)
qed

lemma ring_put:
  assumes "n < sz" "sz \<le> length bs"
  shows "ring (bs[(i + n) mod sz := b]) sz i (Suc n) = ring bs sz i n @ [b]"
proof -
  have "(i + n) mod sz < sz" using assms(1) by simp
  then have "(i + n) mod sz < length bs" using assms(2) by simp
  moreover have "bs[(i + n) mod sz := b] ! ((i + k) mod sz) = bs ! ((i + k) mod sz)" if "k < n" for k
    using mod_add_neq [OF that assms(1), of i] by simp
  ultimately show ?thesis by (simp add: ring_def)
qed

lemma ring_get:
  assumes "i < sz"
  shows "ring bs sz i (Suc n) = bs ! i # ring bs sz ((i + 1) mod sz) n"
proof -
  have "map (\<lambda>k. bs ! ((i + k) mod sz)) [0..<Suc n] = bs ! (i mod sz) # map (\<lambda>k. bs ! ((i + Suc k) mod sz)) [0..<n]"
    by (simp add: upt_conv_Cons map_Suc_upt [symmetric] del: upt_Suc)
  moreover have "(i + Suc k) mod sz = ((i + 1) mod sz + k) mod sz" for k by (simp add: mod_add_left_eq)
  ultimately show ?thesis using assms by (simp add: ring_def)
qed

lemma unat_next_index:
  assumes "unat i < unat sz"
  shows "unat (next_index sz i) = (unat i + 1) mod unat sz"
proof -
  have "unat sz < 2 ^ 16" using unsigned_less [of sz] by simp
  then have "unat (i + 1) = unat i + 1" using assms by (simp add: unat_word_ariths)
  then show ?thesis using assms by (cases "unat i + 1 = unat sz") (auto simp: next_index_def word_le_nat_alt Let_def)
qed

subsection \<open>What the queues promise\<close>

text \<open>A control block that is in use has a ring in its buffer, and no two have the same buffer.\<close>

definition ctrl_ok :: "(nat \<rightharpoonup> byte list) \<Rightarrow> byteq_ctrl_t \<Rightarrow> bool" where
  "ctrl_ok m q \<longleftrightarrow> (\<forall>p. buffer q = Some p \<longrightarrow>
     (\<exists>bs. m p = Some bs \<and> unat (qsize q) \<le> length bs \<and> 2 \<le> unat (qsize q) \<and> unat (count q) \<le> unat (qsize q) \<and>
        unat (out_index q) < unat (qsize q) \<and> unat (in_index q) = (unat (out_index q) + unat (count q)) mod unat (qsize q)))"

definition byteq_ok :: "byteq_state \<Rightarrow> bool" where
  "byteq_ok s \<longleftrightarrow> length (g_qcb s) = 32 \<and> (\<not> qcb_init s \<longrightarrow> (\<forall>q \<in> set (g_qcb s). buffer q = None)) \<and>
     (\<forall>h < 32. ctrl_ok (mem s) (g_qcb s ! h)) \<and>
     (\<forall>h < 32. \<forall>k < 32. h \<noteq> k \<longrightarrow> buffer (g_qcb s ! h) \<noteq> None \<longrightarrow> buffer (g_qcb s ! h) \<noteq> buffer (g_qcb s ! k))"

text \<open>The abstract state: the size and the bytes of every queue that is open.\<close>

type_synonym fifos = "nat \<rightharpoonup> nat \<times> byte list"

definition view :: "(nat \<rightharpoonup> byte list) \<Rightarrow> byteq_ctrl_t \<Rightarrow> (nat \<times> byte list) option" where
  "view m q = map_option (\<lambda>p. (unat (qsize q), ring (the (m p)) (unat (qsize q)) (unat (out_index q)) (unat (count q)))) (buffer q)"

definition fifos_of :: "byteq_state \<Rightarrow> fifos" where
  "fifos_of s h = (if h < length (g_qcb s) then view (mem s) (g_qcb s ! h) else None)"

text \<open>The operations, with a result that is an error code and a handle, a byte or a number.\<close>

datatype byteq_op = Open nat u16 | Close nat | Put nat byte | Get nat | Flush nat | Used nat | Unused nat

type_synonym byteq_result = "byteq_err_t \<times> nat option"

fun byteq_step :: "byteq_state \<Rightarrow> byteq_op \<Rightarrow> (byteq_result \<times> byteq_state) option" where
  "byteq_step s (Open p sz) = (case R_BYTEQ_Open (Some p) sz True s of (e, h, s) \<Rightarrow> Some ((e, h), s))"
| "byteq_step s (Close h) = (case R_BYTEQ_Close (Some h) s of (e, s) \<Rightarrow> Some ((e, None), s))"
| "byteq_step s (Put h b) = do { (e, s) \<leftarrow> R_BYTEQ_Put (Some h) b s; Some ((e, None), s) }"
| "byteq_step s (Get h) = do { (e, b, s) \<leftarrow> R_BYTEQ_Get (Some h) True s; Some ((e, map_option unat b), s) }"
| "byteq_step s (Flush h) = (case R_BYTEQ_Flush (Some h) s of (e, s) \<Rightarrow> Some ((e, None), s))"
| "byteq_step s (Used h) = (case R_BYTEQ_Used (Some h) True s of (e, n) \<Rightarrow> Some ((e, map_option unat n), s))"
| "byteq_step s (Unused h) = (case R_BYTEQ_Unused (Some h) True s of (e, n) \<Rightarrow> Some ((e, map_option unat n), s))"

fun fifo_step :: "fifos \<Rightarrow> byteq_op \<Rightarrow> byteq_result \<times> fifos" where
  "fifo_step m (Open p sz) =
     (if sz < 2 then ((BYTEQ_ERR_INVALID_ARG, None), m)
      else case find (\<lambda>h. m h = None) [0..<32] of
        None \<Rightarrow> ((BYTEQ_ERR_NO_MORE_CTRL_BLKS, None), m)
      | Some h \<Rightarrow> ((BYTEQ_SUCCESS, Some h), m(h \<mapsto> (unat sz, []))))"
| "fifo_step m (Close h) = ((BYTEQ_SUCCESS, None), m(h := None))"
| "fifo_step m (Put h b) = (case the (m h) of (n, xs) \<Rightarrow>
     if length xs = n then ((BYTEQ_ERR_QUEUE_FULL, None), m) else ((BYTEQ_SUCCESS, None), m(h \<mapsto> (n, xs @ [b]))))"
| "fifo_step m (Get h) = (case the (m h) of
     (n, []) \<Rightarrow> ((BYTEQ_ERR_QUEUE_EMPTY, None), m) | (n, x # xs) \<Rightarrow> ((BYTEQ_SUCCESS, Some (unat x)), m(h \<mapsto> (n, xs))))"
| "fifo_step m (Flush h) = (case the (m h) of (n, xs) \<Rightarrow> ((BYTEQ_SUCCESS, None), m(h \<mapsto> (n, []))))"
| "fifo_step m (Used h) = (case the (m h) of (n, xs) \<Rightarrow> ((BYTEQ_SUCCESS, Some (length xs)), m))"
| "fifo_step m (Unused h) = (case the (m h) of (n, xs) \<Rightarrow> ((BYTEQ_SUCCESS, Some (n - length xs)), m))"

text \<open>What the caller has to keep: a buffer is there, large enough and not used by another queue; a handle is open.\<close>

fun op_pre :: "byteq_state \<Rightarrow> byteq_op \<Rightarrow> bool" where
  "op_pre s (Open p sz) \<longleftrightarrow> (\<exists>bs. mem s p = Some bs \<and> unat sz \<le> length bs) \<and> (\<forall>q \<in> set (g_qcb s). buffer q \<noteq> Some p)"
| "op_pre s (Close h) \<longleftrightarrow> h \<in> dom (fifos_of s)"
| "op_pre s (Put h b) \<longleftrightarrow> h \<in> dom (fifos_of s)"
| "op_pre s (Get h) \<longleftrightarrow> h \<in> dom (fifos_of s)"
| "op_pre s (Flush h) \<longleftrightarrow> h \<in> dom (fifos_of s)"
| "op_pre s (Used h) \<longleftrightarrow> h \<in> dom (fifos_of s)"
| "op_pre s (Unused h) \<longleftrightarrow> h \<in> dom (fifos_of s)"

subsection \<open>Simulation\<close>

text \<open>Runs of a step function and of an abstract one, and that every operation of a run finds its precondition.\<close>

fun run_ops :: "('s \<Rightarrow> 'o \<Rightarrow> ('r \<times> 's) option) \<Rightarrow> 'o list \<Rightarrow> 's \<Rightarrow> ('r list \<times> 's) option" where
  "run_ops stp [] s = Some ([], s)"
| "run_ops stp (a # ops) s = do { (r, s) \<leftarrow> stp s a; (rs, s) \<leftarrow> run_ops stp ops s; Some (r # rs, s) }"

fun run_abs :: "('a \<Rightarrow> 'o \<Rightarrow> 'r \<times> 'a) \<Rightarrow> 'o list \<Rightarrow> 'a \<Rightarrow> 'r list \<times> 'a" where
  "run_abs stp [] m = ([], m)"
| "run_abs stp (a # ops) m = (case stp m a of (r, m) \<Rightarrow> case run_abs stp ops m of (rs, m) \<Rightarrow> (r # rs, m))"

fun legal :: "('s \<Rightarrow> 'o \<Rightarrow> ('r \<times> 's) option) \<Rightarrow> ('s \<Rightarrow> 'o \<Rightarrow> bool) \<Rightarrow> 'o list \<Rightarrow> 's \<Rightarrow> bool" where
  "legal stp pre [] s \<longleftrightarrow> True"
| "legal stp pre (a # ops) s \<longleftrightarrow> pre s a \<and> (case stp s a of None \<Rightarrow> True | Some (r, s) \<Rightarrow> legal stp pre ops s)"

text \<open>Steps that simulate the steps of an abstract state, when their preconditions hold.\<close>

locale simulates =
  fixes stp :: "'s \<Rightarrow> 'o \<Rightarrow> ('r \<times> 's) option" and astp :: "'a \<Rightarrow> 'o \<Rightarrow> 'r \<times> 'a"
    and inv :: "'s \<Rightarrow> bool" and pre :: "'s \<Rightarrow> 'o \<Rightarrow> bool" and abs :: "'s \<Rightarrow> 'a"
  assumes sim: "inv s \<Longrightarrow> pre s a \<Longrightarrow> \<exists>r s'. stp s a = Some (r, s') \<and> inv s' \<and> astp (abs s) a = (r, abs s')"
begin

lemma run_simulates:
  "inv s \<Longrightarrow> legal stp pre ops s \<Longrightarrow> \<exists>rs s'. run_ops stp ops s = Some (rs, s') \<and> inv s' \<and> run_abs astp ops (abs s) = (rs, abs s')"
proof (induction ops arbitrary: s)
  case (Cons a ops)
  then have "pre s a" by simp
  from sim [OF Cons.prems(1) this] obtain r s1 where s1: "stp s a = Some (r, s1)" "inv s1" "astp (abs s) a = (r, abs s1)" by blast
  then have "legal stp pre ops s1" using Cons.prems(2) by simp
  from Cons.IH [OF s1(2) this] show ?case using s1 by auto
qed simp

end

subsection \<open>Every operation\<close>

text \<open>Replacing one control block, and the bytes of its buffer, changes that queue only.\<close>

lemma update_block:
  assumes ok: "byteq_ok s" and h: "h < 32" and q: "ctrl_ok m q" and init: "qcb_init s \<or> buffer q = None"
    and own: "\<forall>k < 32. k \<noteq> h \<longrightarrow> buffer q \<noteq> None \<longrightarrow> buffer (g_qcb s ! k) \<noteq> buffer q"
    and m: "\<forall>p. m p \<noteq> mem s p \<longrightarrow> buffer q = Some p"
  shows "byteq_ok (s\<lparr>mem := m, g_qcb := (g_qcb s)[h := q]\<rparr>)"
    "fifos_of (s\<lparr>mem := m, g_qcb := (g_qcb s)[h := q]\<rparr>) = (fifos_of s)(h := view m q)"
proof -
  have len: "length (g_qcb s) = 32" using ok by (simp add: byteq_ok_def)
  have same: "m p = mem s p" if "k < 32" "k \<noteq> h" "buffer (g_qcb s ! k) = Some p" for k p
    using m own that by (metis option.distinct(1))
  then have "ctrl_ok m (g_qcb s ! k)" if "k < 32" "k \<noteq> h" for k
    using ok that by (simp add: byteq_ok_def ctrl_ok_def)
  moreover have "buffer x = None" if "\<not> qcb_init s" "x \<in> set ((g_qcb s)[h := q])" for x
    using that init ok set_update_subset_insert [of "g_qcb s" h q] by (auto simp: byteq_ok_def)
  ultimately show "byteq_ok (s\<lparr>mem := m, g_qcb := (g_qcb s)[h := q]\<rparr>)"
    using ok q own len h by (auto simp: byteq_ok_def nth_list_update)
  have "view m (g_qcb s ! k) = view (mem s) (g_qcb s ! k)" if "k < 32" "k \<noteq> h" for k
    using same [OF that] by (cases "buffer (g_qcb s ! k)") (simp_all add: view_def)
  then show "fifos_of (s\<lparr>mem := m, g_qcb := (g_qcb s)[h := q]\<rparr>) = (fifos_of s)(h := view m q)"
    using len h by (auto simp: fifos_of_def fun_eq_iff nth_list_update)
qed

text \<open>An open queue: its block, and what its bytes are.\<close>

lemma open_queue:
  assumes "byteq_ok s" "h \<in> dom (fifos_of s)"
  obtains p bs q where "h < 32" "g_qcb s ! h = q" "buffer q = Some p" "mem s p = Some bs" "unat (qsize q) \<le> length bs" "2 \<le> unat (qsize q)"
    "unat (count q) \<le> unat (qsize q)" "unat (out_index q) < unat (qsize q)"
    "unat (in_index q) = (unat (out_index q) + unat (count q)) mod unat (qsize q)" "qcb_init s"
    "fifos_of s h = Some (unat (qsize q), ring bs (unat (qsize q)) (unat (out_index q)) (unat (count q)))"
    "\<forall>k < 32. k \<noteq> h \<longrightarrow> buffer (g_qcb s ! k) \<noteq> buffer q"
proof -
  let ?q = "g_qcb s ! h"
  have h: "h < 32" using assms by (auto simp: byteq_ok_def fifos_of_def split: if_splits)
  then obtain p where p: "buffer ?q = Some p" using assms by (auto simp: byteq_ok_def fifos_of_def view_def)
  then obtain bs where "mem s p = Some bs" "unat (qsize ?q) \<le> length bs" "2 \<le> unat (qsize ?q)" "unat (count ?q) \<le> unat (qsize ?q)"
    "unat (out_index ?q) < unat (qsize ?q)" "unat (in_index ?q) = (unat (out_index ?q) + unat (count ?q)) mod unat (qsize ?q)"
    using assms(1) h unfolding byteq_ok_def ctrl_ok_def by blast
  moreover have "qcb_init s" using assms(1) h p by (auto simp: byteq_ok_def)
  moreover have "\<forall>k < 32. k \<noteq> h \<longrightarrow> buffer (g_qcb s ! k) \<noteq> buffer ?q" using assms(1) h p unfolding byteq_ok_def by (metis option.distinct(1))
  ultimately show ?thesis using that [OF h refl p] assms(1) h p by (simp add: byteq_ok_def fifos_of_def view_def)
qed


lemma first_available_None: "first_available i qs = None \<longleftrightarrow> (\<forall>q \<in> set qs. buffer q \<noteq> None)"
  by (induction qs arbitrary: i) auto

lemma first_available_find:
  "first_available i qs = find (\<lambda>h. buffer (qs ! (h - i)) = None) [i..<i + length qs]"
proof (induction qs arbitrary: i)
  case (Cons q qs)
  have "[i..<i + length (q # qs)] = i # [Suc i..<Suc i + length qs]" by (simp add: upt_conv_Cons del: upt_Suc)
  moreover have "find (\<lambda>h. buffer ((q # qs) ! (h - i)) = None) [Suc i..<Suc i + length qs]
    = find (\<lambda>h. buffer (qs ! (h - Suc i)) = None) [Suc i..<Suc i + length qs]"
    by (rule find_cong) (auto simp: nth_Cons')
  ultimately show ?case using Cons [of "Suc i"] by simp
qed simp

lemma init_blocks:
  assumes "byteq_ok s"
  shows "byteq_ok (init_blocks s)" "fifos_of (init_blocks s) = fifos_of s"
  using assms by (auto simp: init_blocks_def byteq_ok_def ctrl_ok_def fifos_of_def view_def fun_eq_iff)

lemma byteq_open:
  assumes "byteq_ok s" "op_pre s (Open p sz)"
  shows "\<exists>r s'. byteq_step s (Open p sz) = Some (r, s') \<and> byteq_ok s' \<and> fifo_step (fifos_of s) (Open p sz) = (r, fifos_of s')"
proof (cases "sz < 2")
  case True
  then show ?thesis using assms by (simp add: R_BYTEQ_Open_def)
next
  case False
  let ?s = "init_blocks s"
  note ok = init_blocks(1) [OF assms(1)] and abs = init_blocks(2) [OF assms(1)]
  have "first_available 0 (g_qcb ?s) = find (\<lambda>h. buffer (g_qcb ?s ! h) = None) [0..<32]"
    using first_available_find [of 0 "g_qcb ?s"] ok by (simp add: byteq_ok_def)
  also have "\<dots> = find (\<lambda>h. fifos_of s h = None) [0..<32]"
    using ok by (intro find_cong refl) (auto simp: abs [symmetric] fifos_of_def view_def byteq_ok_def)
  finally have f: "first_available 0 (g_qcb ?s) = find (\<lambda>h. fifos_of s h = None) [0..<32]" .
  show ?thesis
  proof (cases "first_available 0 (g_qcb ?s)")
    case None
    then show ?thesis using False f ok abs by (simp add: R_BYTEQ_Open_def Let_def)
  next
    case (Some h)
    let ?q = "\<lparr>buffer = Some p, qsize = sz, count = 0, in_index = 0, out_index = 0\<rparr>"
    have h: "h < 32" using Some f by (auto simp: find_Some_iff)
    have sz: "2 \<le> unat sz" using False by (simp add: word_less_nat_alt)
    have q: "ctrl_ok (mem ?s) ?q" using assms(2) sz by (auto simp: ctrl_ok_def init_blocks_def)
    have own: "\<forall>k < 32. k \<noteq> h \<longrightarrow> buffer ?q \<noteq> None \<longrightarrow> buffer (g_qcb ?s ! k) \<noteq> buffer ?q"
      using assms by (auto simp: byteq_ok_def init_blocks_def)
    have "qcb_init ?s \<or> buffer ?q = None" by (simp add: init_blocks_def)
    from update_block [OF ok h q this own]
    have "byteq_ok (?s\<lparr>g_qcb := (g_qcb ?s)[h := ?q]\<rparr>)" "fifos_of (?s\<lparr>g_qcb := (g_qcb ?s)[h := ?q]\<rparr>) = (fifos_of s)(h \<mapsto> (unat sz, []))"
      by (simp_all add: view_def abs)
    then show ?thesis using False Some f by (simp add: R_BYTEQ_Open_def Let_def)
  qed
qed


lemma unat_count_up:
  assumes "unat (n :: u16) < unat (sz :: u16)"
  shows "unat (n + 1) = unat n + 1"
proof -
  have "unat sz < 2 ^ 16" using unsigned_less [of sz] by simp
  then show ?thesis using assms by (simp add: unat_word_ariths)
qed

lemma byteq_put:
  assumes "byteq_ok s" "op_pre s (Put h b)"
  shows "\<exists>r s'. byteq_step s (Put h b) = Some (r, s') \<and> byteq_ok s' \<and> fifo_step (fifos_of s) (Put h b) = (r, fifos_of s')"
proof -
  have "h \<in> dom (fifos_of s)" using assms(2) by simp
  from open_queue [OF assms(1) this] obtain p bs q where Q: "h < 32" "g_qcb s ! h = q" "buffer q = Some p" "mem s p = Some bs"
    "unat (qsize q) \<le> length bs" "2 \<le> unat (qsize q)" "unat (count q) \<le> unat (qsize q)" "unat (out_index q) < unat (qsize q)"
    "unat (in_index q) = (unat (out_index q) + unat (count q)) mod unat (qsize q)" "qcb_init s"
    "fifos_of s h = Some (unat (qsize q), ring bs (unat (qsize q)) (unat (out_index q)) (unat (count q)))"
    "\<forall>k < 32. k \<noteq> h \<longrightarrow> buffer (g_qcb s ! k) \<noteq> buffer q" by metis
  have len: "length (g_qcb s) = 32" using assms(1) by (simp add: byteq_ok_def)
  show ?thesis
  proof (cases "qsize q \<le> count q")
    case True
    then have "unat (count q) = unat (qsize q)" using Q(7) by (simp add: word_le_nat_alt)
    then show ?thesis using True Q(2,11) assms(1) by (simp add: R_BYTEQ_Put_def)
  next
    case False
    then have c: "unat (count q) < unat (qsize q)" by (simp add: word_le_nat_alt)
    let ?i = "unat (in_index q)"
    have i: "?i < unat (qsize q)" using Q(6,9) by simp
    let ?q = "q\<lparr>in_index := next_index (qsize q) (in_index q), count := count q + 1\<rparr>" and ?m = "(mem s)(p \<mapsto> bs[?i := b])"
    note n = unat_next_index [OF i] unat_count_up [OF c]
    have "unat (next_index (qsize q) (in_index q)) = (unat (out_index q) + Suc (unat (count q))) mod unat (qsize q)"
      using n(1) Q(9) by (simp add: mod_Suc_eq)
    then have ok: "ctrl_ok ?m ?q" using Q c n(2) by (simp add: ctrl_ok_def)
    have own: "\<forall>k < 32. k \<noteq> h \<longrightarrow> buffer ?q \<noteq> None \<longrightarrow> buffer (g_qcb s ! k) \<noteq> buffer ?q" using Q(12) by simp
    have m: "\<forall>x. ?m x \<noteq> mem s x \<longrightarrow> buffer ?q = Some x" using Q(3) by simp
    have u: "byteq_ok (s\<lparr>mem := ?m, g_qcb := (g_qcb s)[h := ?q]\<rparr>)"
      "fifos_of (s\<lparr>mem := ?m, g_qcb := (g_qcb s)[h := ?q]\<rparr>) = (fifos_of s)(h := view ?m ?q)"
      using update_block [OF assms(1) Q(1) ok disjI1 [OF Q(10)] own m] by blast+
    have v: "view ?m ?q = Some (unat (qsize q), ring bs (unat (qsize q)) (unat (out_index q)) (unat (count q)) @ [b])"
      using Q(3) n(2) ring_put [OF c Q(5), of "unat (out_index q)" b] Q(9) by (simp add: view_def)
    have "byteq_step s (Put h b) = Some ((BYTEQ_SUCCESS, None), s\<lparr>mem := ?m, g_qcb := (g_qcb s)[h := ?q]\<rparr>)"
      using False Q(1-4) i Q(5) len by (simp add: R_BYTEQ_Put_def put_byte_def set_count_def Let_def)
    then show ?thesis using u v Q(11) c by simp
  qed
qed

lemma byteq_get:
  assumes "byteq_ok s" "op_pre s (Get h)"
  shows "\<exists>r s'. byteq_step s (Get h) = Some (r, s') \<and> byteq_ok s' \<and> fifo_step (fifos_of s) (Get h) = (r, fifos_of s')"
proof -
  have "h \<in> dom (fifos_of s)" using assms(2) by simp
  from open_queue [OF assms(1) this] obtain p bs q where Q: "h < 32" "g_qcb s ! h = q" "buffer q = Some p" "mem s p = Some bs"
    "unat (qsize q) \<le> length bs" "2 \<le> unat (qsize q)" "unat (count q) \<le> unat (qsize q)" "unat (out_index q) < unat (qsize q)"
    "unat (in_index q) = (unat (out_index q) + unat (count q)) mod unat (qsize q)" "qcb_init s"
    "fifos_of s h = Some (unat (qsize q), ring bs (unat (qsize q)) (unat (out_index q)) (unat (count q)))"
    "\<forall>k < 32. k \<noteq> h \<longrightarrow> buffer (g_qcb s ! k) \<noteq> buffer q" by metis
  show ?thesis
  proof (cases "unat (count q)")
    case 0
    then have "count q = 0" by (simp add: unat_eq_0)
    then show ?thesis using 0 Q(2,11) assms(1) by (simp add: R_BYTEQ_Get_def)
  next
    case (Suc c)
    then have nz: "count q \<noteq> 0" by auto
    then have c: "unat (count q - 1) = c" using Suc by (simp add: unat_minus_one)
    let ?q = "q\<lparr>out_index := next_index (qsize q) (out_index q), count := count q - 1\<rparr>"
    note n = unat_next_index [OF Q(8)]
    have "unat (in_index q) = ((unat (out_index q) + 1) mod unat (qsize q) + c) mod unat (qsize q)"
      using Q(9) Suc by (simp add: mod_add_left_eq)
    then have ok: "ctrl_ok (mem s) ?q" using Q n c Suc by (simp add: ctrl_ok_def)
    have own: "\<forall>k < 32. k \<noteq> h \<longrightarrow> buffer ?q \<noteq> None \<longrightarrow> buffer (g_qcb s ! k) \<noteq> buffer ?q" using Q(12) by simp
    note u = update_block [OF assms(1) Q(1) ok _ own, simplified Q(10), simplified]
    have v: "view (mem s) ?q = Some (unat (qsize q), ring bs (unat (qsize q)) ((unat (out_index q) + 1) mod unat (qsize q)) c)"
      using Q(3,4) n c by (simp add: view_def)
    have "fifos_of s h = Some (unat (qsize q), bs ! unat (out_index q) # ring bs (unat (qsize q)) ((unat (out_index q) + 1) mod unat (qsize q)) c)"
      using Q(11) ring_get [OF Q(8), of bs c] Suc by simp
    then show ?thesis using u v nz Q(2-5,8) by (simp add: R_BYTEQ_Get_def Let_def)
  qed
qed

text \<open>The other operations.\<close>

lemma byteq_other:
  assumes "byteq_ok s" "op_pre s a" "a \<in> {Close h, Flush h, Used h, Unused h}"
  shows "\<exists>r s'. byteq_step s a = Some (r, s') \<and> byteq_ok s' \<and> fifo_step (fifos_of s) a = (r, fifos_of s')"
proof -
  have "h \<in> dom (fifos_of s)" using assms(2,3) by auto
  from open_queue [OF assms(1) this] obtain p bs q where Q: "h < 32" "g_qcb s ! h = q" "buffer q = Some p" "mem s p = Some bs"
    "unat (qsize q) \<le> length bs" "2 \<le> unat (qsize q)" "unat (count q) \<le> unat (qsize q)" "qcb_init s"
    "fifos_of s h = Some (unat (qsize q), ring bs (unat (qsize q)) (unat (out_index q)) (unat (count q)))"
    "\<forall>k < 32. k \<noteq> h \<longrightarrow> buffer (g_qcb s ! k) \<noteq> buffer q" by metis
  have "ctrl_ok (mem s) (q\<lparr>buffer := None\<rparr>)" by (simp add: ctrl_ok_def)
  note close = update_block [OF assms(1) Q(1) this, simplified]
  have "ctrl_ok (mem s) (q\<lparr>in_index := 0, out_index := 0, count := 0\<rparr>)" using Q by (simp add: ctrl_ok_def)
  note flush = update_block [OF assms(1) Q(1) this, simplified Q(8), simplified]
  have "unat (qsize q - count q) = unat (qsize q) - unat (count q)" using Q(7) by (simp add: unat_sub word_le_nat_alt)
  then show ?thesis using assms(1,3) Q close flush
    by (auto simp: R_BYTEQ_Close_def R_BYTEQ_Flush_def R_BYTEQ_Used_def R_BYTEQ_Unused_def view_def)
qed

interpretation bq: simulates byteq_step fifo_step byteq_ok op_pre fifos_of
proof
  fix s a assume "byteq_ok s" "op_pre s a"
  then show "\<exists>r s'. byteq_step s a = Some (r, s') \<and> byteq_ok s' \<and> fifo_step (fifos_of s) a = (r, fifos_of s')"
    by (cases a) (blast intro: byteq_open byteq_put byteq_get byteq_other)+
qed


text \<open>The table when the device starts.\<close>

definition byteq_start :: "(nat \<rightharpoonup> byte list) \<Rightarrow> byteq_state" where
  "byteq_start m = \<lparr>g_qcb = replicate 32 \<lparr>buffer = None, qsize = 0, count = 0, in_index = 0, out_index = 0\<rparr>, qcb_init = False, mem = m\<rparr>"

lemma byteq_start: "byteq_ok (byteq_start m)" "fifos_of (byteq_start m) = Map.empty"
  by (auto simp: byteq_start_def byteq_ok_def ctrl_ok_def fifos_of_def view_def fun_eq_iff)

lemma first_available_replicate: "0 < n \<Longrightarrow> buffer z = None \<Longrightarrow> first_available i (replicate n z) = Some i"
  by (cases n) simp_all

text \<open>
  C21. From the start of the device, any sequence of opening, closing, putting, getting, flushing and counting that keeps to the
  handles that are open and to buffers of its own gives exactly the results of up to 32 separate first-in-first-out queues, each bounded by
  the size it was opened with: no byte is lost, repeated, reordered or moved to another queue, and no index leaves its buffer.
\<close>

theorem byteq_refines_fifo:
  assumes "legal byteq_step op_pre ops (byteq_start m)"
  shows "\<exists>rs s. run_ops byteq_step ops (byteq_start m) = Some (rs, s) \<and> byteq_ok s \<and> run_abs fifo_step ops Map.empty = (rs, fifos_of s)"
  using bq.run_simulates [OF byteq_start(1) assms] by (simp add: byteq_start(2))

lemmas byteq_eval = byteq_start_def R_BYTEQ_Open_def init_blocks_def first_available_replicate fifos_of_def view_def
  R_BYTEQ_Put_def R_BYTEQ_Get_def put_byte_def set_count_def next_index_def

theorem byteq_refines_fifo_witness:
  "\<exists>s. run_ops byteq_step [Open 100 2, Put 0 7, Put 0 8, Put 0 9, Get 0, Put 0 9, Get 0] (byteq_start [100 \<mapsto> [0, 0]]) =
     Some ([(BYTEQ_SUCCESS, Some 0), (BYTEQ_SUCCESS, None), (BYTEQ_SUCCESS, None), (BYTEQ_ERR_QUEUE_FULL, None),
       (BYTEQ_SUCCESS, Some 7), (BYTEQ_SUCCESS, None), (BYTEQ_SUCCESS, Some 8)], s) \<and> fifos_of s 0 = Some (2, [9])"
proof -
  let ?ops = "[Open 100 2, Put 0 7, Put 0 8, Put 0 9, Get 0, Put 0 9, Get 0]"
  have l: "legal byteq_step op_pre ?ops (byteq_start [100 \<mapsto> [0, 0]])"
    by (simp add: byteq_eval domIff Let_def)
  obtain h where f: "find (\<lambda>h. (Map.empty :: fifos) h = None) [0..<32] = Some h" "h = 0" by (simp add: upt_rec)
  obtain rs s where r: "run_ops byteq_step ?ops (byteq_start [100 \<mapsto> [0, 0]]) = Some (rs, s)"
    "run_abs fifo_step ?ops Map.empty = (rs, fifos_of s)" using byteq_refines_fifo [OF l] by blast
  moreover have "run_abs fifo_step ?ops Map.empty = ([(BYTEQ_SUCCESS, Some 0), (BYTEQ_SUCCESS, None), (BYTEQ_SUCCESS, None),
    (BYTEQ_ERR_QUEUE_FULL, None), (BYTEQ_SUCCESS, Some 7), (BYTEQ_SUCCESS, None), (BYTEQ_SUCCESS, Some 8)], [0 \<mapsto> (2, [9])])"
    using f by (simp add: upt_rec)
  ultimately show ?thesis by (metis fun_upd_same prod.inject)
qed

end
