(* ===== verification/P11Token.thy ===== *)
theory P11Token
  imports PkiObject
begin

text \<open>
  Certificates and public keys in a PKCS #11 token, the other backend of the PKI objects: the object functions of
  \<open>src/source/crypto/pki/mbedtls_pk_pkcs11.c\<close>, which is compiled with \<open>MBEDTLS_TRANSPORT_PKCS11\<close>. The token, with the two helper
  functions of corePKCS11, the heap and what is called of Mbed TLS are the record \<open>p11_ops\<close>. A call with NULL where the code follows
  the pointer is \<open>None\<close>.
\<close>

subsection \<open>Return values\<close>

type_synonym CK_RV = nat

abbreviation (input) CKR_OK :: CK_RV where "CKR_OK \<equiv> 0"
abbreviation (input) CKR_HOST_MEMORY :: CK_RV where "CKR_HOST_MEMORY \<equiv> 0x2"
abbreviation (input) CKR_GENERAL_ERROR :: CK_RV where "CKR_GENERAL_ERROR \<equiv> 0x5"
abbreviation (input) CKR_FUNCTION_FAILED :: CK_RV where "CKR_FUNCTION_FAILED \<equiv> 0x6"
abbreviation (input) CKR_ARGUMENTS_BAD :: CK_RV where "CKR_ARGUMENTS_BAD \<equiv> 0x7"
abbreviation (input) CKR_FUNCTION_NOT_SUPPORTED :: CK_RV where "CKR_FUNCTION_NOT_SUPPORTED \<equiv> 0x54"
abbreviation (input) CKR_KEY_HANDLE_INVALID :: CK_RV where "CKR_KEY_HANDLE_INVALID \<equiv> 0x60"
abbreviation (input) CKR_OBJECT_HANDLE_INVALID :: CK_RV where "CKR_OBJECT_HANDLE_INVALID \<equiv> 0x82"
abbreviation (input) CKR_SESSION_HANDLE_INVALID :: CK_RV where "CKR_SESSION_HANDLE_INVALID \<equiv> 0xB3"
abbreviation (input) CK_INVALID_HANDLE :: nat where "CK_INVALID_HANDLE \<equiv> 0"

text \<open>The codes of the standard with their names, in the order of the \<open>switch\<close>.\<close>

definition ckr_names :: "(CK_RV \<times> string) list" where
  "ckr_names = [(0x0, ''CKR_OK''), (0x1, ''CKR_CANCEL''), (0x2, ''CKR_HOST_MEMORY''), (0x3, ''CKR_SLOT_ID_INVALID''),
    (0x5, ''CKR_GENERAL_ERROR''), (0x6, ''CKR_FUNCTION_FAILED''), (0x7, ''CKR_ARGUMENTS_BAD''), (0x8, ''CKR_NO_EVENT''),
    (0x9, ''CKR_NEED_TO_CREATE_THREADS''), (0xA, ''CKR_CANT_LOCK''), (0x10, ''CKR_ATTRIBUTE_READ_ONLY''),
    (0x11, ''CKR_ATTRIBUTE_SENSITIVE''), (0x12, ''CKR_ATTRIBUTE_TYPE_INVALID''), (0x13, ''CKR_ATTRIBUTE_VALUE_INVALID''),
    (0x1B, ''CKR_ACTION_PROHIBITED''), (0x20, ''CKR_DATA_INVALID''), (0x21, ''CKR_DATA_LEN_RANGE''), (0x30, ''CKR_DEVICE_ERROR''),
    (0x31, ''CKR_DEVICE_MEMORY''), (0x32, ''CKR_DEVICE_REMOVED''), (0x40, ''CKR_ENCRYPTED_DATA_INVALID''),
    (0x41, ''CKR_ENCRYPTED_DATA_LEN_RANGE''), (0x50, ''CKR_FUNCTION_CANCELED''), (0x51, ''CKR_FUNCTION_NOT_PARALLEL''),
    (0x54, ''CKR_FUNCTION_NOT_SUPPORTED''), (0x60, ''CKR_KEY_HANDLE_INVALID''), (0x62, ''CKR_KEY_SIZE_RANGE''),
    (0x63, ''CKR_KEY_TYPE_INCONSISTENT''), (0x64, ''CKR_KEY_NOT_NEEDED''), (0x65, ''CKR_KEY_CHANGED''), (0x66, ''CKR_KEY_NEEDED''),
    (0x67, ''CKR_KEY_INDIGESTIBLE''), (0x68, ''CKR_KEY_FUNCTION_NOT_PERMITTED''), (0x69, ''CKR_KEY_NOT_WRAPPABLE''),
    (0x6A, ''CKR_KEY_UNEXTRACTABLE''), (0x70, ''CKR_MECHANISM_INVALID''), (0x71, ''CKR_MECHANISM_PARAM_INVALID''),
    (0x82, ''CKR_OBJECT_HANDLE_INVALID''), (0x90, ''CKR_OPERATION_ACTIVE''), (0x91, ''CKR_OPERATION_NOT_INITIALIZED''),
    (0xA0, ''CKR_PIN_INCORRECT''), (0xA1, ''CKR_PIN_INVALID''), (0xA2, ''CKR_PIN_LEN_RANGE''), (0xA3, ''CKR_PIN_EXPIRED''),
    (0xA4, ''CKR_PIN_LOCKED''), (0xB0, ''CKR_SESSION_CLOSED''), (0xB1, ''CKR_SESSION_COUNT''), (0xB3, ''CKR_SESSION_HANDLE_INVALID''),
    (0xB4, ''CKR_SESSION_PARALLEL_NOT_SUPPORTED''), (0xB5, ''CKR_SESSION_READ_ONLY''), (0xB6, ''CKR_SESSION_EXISTS''),
    (0xB7, ''CKR_SESSION_READ_ONLY_EXISTS''), (0xB8, ''CKR_SESSION_READ_WRITE_SO_EXISTS''), (0xC0, ''CKR_SIGNATURE_INVALID''),
    (0xC1, ''CKR_SIGNATURE_LEN_RANGE''), (0xD0, ''CKR_TEMPLATE_INCOMPLETE''), (0xD1, ''CKR_TEMPLATE_INCONSISTENT''),
    (0xE0, ''CKR_TOKEN_NOT_PRESENT''), (0xE1, ''CKR_TOKEN_NOT_RECOGNIZED''), (0xE2, ''CKR_TOKEN_WRITE_PROTECTED''),
    (0xF0, ''CKR_UNWRAPPING_KEY_HANDLE_INVALID''), (0xF1, ''CKR_UNWRAPPING_KEY_SIZE_RANGE''),
    (0xF2, ''CKR_UNWRAPPING_KEY_TYPE_INCONSISTENT''), (0x100, ''CKR_USER_ALREADY_LOGGED_IN''), (0x101, ''CKR_USER_NOT_LOGGED_IN''),
    (0x102, ''CKR_USER_PIN_NOT_INITIALIZED''), (0x103, ''CKR_USER_TYPE_INVALID''), (0x104, ''CKR_USER_ANOTHER_ALREADY_LOGGED_IN''),
    (0x105, ''CKR_USER_TOO_MANY_TYPES''), (0x110, ''CKR_WRAPPED_KEY_INVALID''), (0x112, ''CKR_WRAPPED_KEY_LEN_RANGE''),
    (0x113, ''CKR_WRAPPING_KEY_HANDLE_INVALID''), (0x114, ''CKR_WRAPPING_KEY_SIZE_RANGE''),
    (0x115, ''CKR_WRAPPING_KEY_TYPE_INCONSISTENT''), (0x120, ''CKR_RANDOM_SEED_NOT_SUPPORTED''), (0x121, ''CKR_RANDOM_NO_RNG''),
    (0x130, ''CKR_DOMAIN_PARAMS_INVALID''), (0x140, ''CKR_CURVE_NOT_SUPPORTED''), (0x150, ''CKR_BUFFER_TOO_SMALL''),
    (0x160, ''CKR_SAVED_STATE_INVALID''), (0x170, ''CKR_INFORMATION_SENSITIVE''), (0x180, ''CKR_STATE_UNSAVEABLE''),
    (0x190, ''CKR_CRYPTOKI_NOT_INITIALIZED''), (0x191, ''CKR_CRYPTOKI_ALREADY_INITIALIZED''), (0x1A0, ''CKR_MUTEX_BAD''),
    (0x1A1, ''CKR_MUTEX_NOT_LOCKED''), (0x1B0, ''CKR_NEW_PIN_MODE''), (0x1B1, ''CKR_NEXT_OTP''),
    (0x1B5, ''CKR_EXCEEDED_MAX_ITERATIONS''), (0x1B6, ''CKR_FIPS_SELF_TEST_FAILED''), (0x1B7, ''CKR_LIBRARY_LOAD_FAILED''),
    (0x1B8, ''CKR_PIN_TOO_WEAK''), (0x1B9, ''CKR_PUBLIC_KEY_INVALID''), (0x200, ''CKR_FUNCTION_REJECTED''),
    (0x80000000, ''CKR_VENDOR_DEFINED'')]"

definition pcPKCS11StrError :: "CK_RV \<Rightarrow> string" where
  "pcPKCS11StrError xError = (case map_of ckr_names xError of Some s \<Rightarrow> s | None \<Rightarrow> ''UNKNOWN'')"

text \<open>\<open>( int32_t ) xResult\<close>, read as a code of Mbed TLS: all the codes above but the last are positive numbers.\<close>

definition err_of_ckr :: "CK_RV \<Rightarrow> mbedtls_err" where
  "err_of_ckr r = (if r = CKR_OK then MBEDTLS_OK else if r < 2 ^ 31 then MBEDTLS_POSITIVE r else MBEDTLS_ERR_OTHER (2 ^ 32 - r))"

subsection \<open>The token\<close>

datatype CK_OBJECT_CLASS = CKO_CERTIFICATE | CKO_PUBLIC_KEY | CKO_PRIVATE_KEY

datatype CK_ATTRIBUTE_TYPE = CKA_CLASS | CKA_LABEL | CKA_CERTIFICATE_TYPE | CKA_TOKEN | CKA_VALUE | CKA_KEY_TYPE | CKA_EC_PARAMS
  | CKA_VERIFY | CKA_EC_POINT | CKA_PRIVATE | CKA_SIGN

datatype attr_value = VClass CK_OBJECT_CLASS | VLabel string | VType nat | VTrue | VBytes "byte list"

type_synonym template = "(CK_ATTRIBUTE_TYPE \<times> attr_value) list"

abbreviation (input) CKC_X_509 :: nat where "CKC_X_509 \<equiv> 0"
abbreviation (input) CKK_RSA :: nat where "CKK_RSA \<equiv> 0"
abbreviation (input) CKK_EC :: nat where "CKK_EC \<equiv> 3"

text \<open>\<open>function_list\<close> is what \<open>C_GetFunctionList\<close> returns; the list is NULL when that is an error. Asking for an attribute with a NULL
  buffer gives its length, otherwise its bytes; it does not change the token. \<open>calloc_p11\<close> tells whether the heap has room when so many
  blocks are in use.\<close>

record 's p11_ops =
  function_list :: CK_RV
  xInitializePkcs11Session :: "'s \<Rightarrow> CK_RV \<times> nat \<times> 's"
  C_CloseSession :: "nat \<Rightarrow> 's \<Rightarrow> CK_RV \<times> 's"
  xFindObjectWithLabelAndClass :: "nat \<Rightarrow> string \<Rightarrow> CK_OBJECT_CLASS \<Rightarrow> 's \<Rightarrow> CK_RV \<times> nat"
  C_GetAttributeValue :: "nat \<Rightarrow> nat \<Rightarrow> CK_ATTRIBUTE_TYPE \<Rightarrow> 's \<Rightarrow> CK_RV \<times> byte list"
  C_CreateObject :: "nat \<Rightarrow> template \<Rightarrow> 's \<Rightarrow> CK_RV \<times> nat \<times> 's"
  C_DestroyObject :: "nat \<Rightarrow> nat \<Rightarrow> 's \<Rightarrow> CK_RV \<times> 's"
  C_GenerateKeyPair :: "nat \<Rightarrow> template \<Rightarrow> template \<Rightarrow> 's \<Rightarrow> CK_RV \<times> nat \<times> nat \<times> 's"
  C_GenerateRandom :: "nat \<Rightarrow> nat \<Rightarrow> 's \<Rightarrow> CK_RV \<times> byte list \<times> 's"
  C_SignInit :: "nat \<Rightarrow> nat \<Rightarrow> 's \<Rightarrow> CK_RV \<times> 's"
  C_Sign :: "nat \<Rightarrow> byte list \<Rightarrow> nat \<Rightarrow> 's \<Rightarrow> CK_RV \<times> byte list \<times> 's"
  calloc_p11 :: "nat \<Rightarrow> nat \<Rightarrow> bool"
  x509_crt_parse :: "byte list \<Rightarrow> mbedtls_err \<times> byte list list"
  pkcs11configMAX_LABEL_LENGTH :: nat

record 's p11_world =
  tok :: 's
  blocks :: nat

subsection \<open>Certificates\<close>

text \<open>A missing function list and a missing object are noted in a result that is overwritten.\<close>

definition lReadCertificateFromPKCS11 ::
  "'s p11_ops \<Rightarrow> byte list list \<Rightarrow> nat \<Rightarrow> string \<Rightarrow> nat \<Rightarrow> 's p11_world \<Rightarrow> (mbedtls_err \<times> byte list list \<times> 's p11_world) option" where
  "lReadCertificateFromPKCS11 P chain xP11SessionHandle pcCertificateLabel xLabelLen w = do {
     configASSERT (xP11SessionHandle \<noteq> CK_INVALID_HANDLE);
     configASSERT (xLabelLen \<le> pkcs11configMAX_LABEL_LENGTH P);
     let pcCertLabelCopy = take xLabelLen (c_str pcCertificateLabel);
     let (xResult, xCertObj) = xFindObjectWithLabelAndClass P xP11SessionHandle pcCertLabelCopy CKO_CERTIFICATE (tok w);
     if xResult \<noteq> CKR_OK then Some (err_of_ckr xResult, chain, w)
     else do {
       configASSERT (function_list P = CKR_OK);
       let (xResult, xValue) = C_GetAttributeValue P xP11SessionHandle xCertObj CKA_VALUE (tok w);
       if xResult \<noteq> CKR_OK then Some (err_of_ckr xResult, chain, w)
       else if xValue = [] \<or> \<not> calloc_p11 P (blocks w) (length xValue) then Some (err_of_ckr CKR_HOST_MEMORY, chain, w)
       else (case x509_crt_parse P xValue of (lResult, cs) \<Rightarrow> Some (lResult, chain @ cs, w))
     }
   }"

text \<open>Destroying the object with the label, and creating another. The object is destroyed first.\<close>

definition destroy_found :: "'s p11_ops \<Rightarrow> nat \<Rightarrow> string \<Rightarrow> CK_OBJECT_CLASS \<Rightarrow> 's p11_world \<Rightarrow> CK_RV \<times> 's p11_world" where
  "destroy_found P xSession pcLabel xClass w =
     (case xFindObjectWithLabelAndClass P xSession pcLabel xClass (tok w) of
        (xResult, xHandle) \<Rightarrow>
          if xResult = CKR_OK \<and> xHandle \<noteq> CK_INVALID_HANDLE
          then (case C_DestroyObject P xSession xHandle (tok w) of (xResult, s) \<Rightarrow> (xResult, w\<lparr>tok := s\<rparr>))
          else (xResult, w))"

definition create_object :: "'s p11_ops \<Rightarrow> nat \<Rightarrow> template \<Rightarrow> 's p11_world \<Rightarrow> CK_RV \<times> 's p11_world" where
  "create_object P xSession pxTemplate w =
     (case C_CreateObject P xSession pxTemplate (tok w) of (xResult, h, s) \<Rightarrow> (xResult, w\<lparr>tok := s\<rparr>))"

definition zero_or_minus_one :: "CK_RV \<Rightarrow> mbedtls_err" where
  "zero_or_minus_one xResult = (if xResult = CKR_OK then MBEDTLS_OK else MBEDTLS_ERR_OTHER 1)"

definition lWriteCertificateToPKCS11 ::
  "'s p11_ops \<Rightarrow> byte list \<Rightarrow> nat \<Rightarrow> string \<Rightarrow> nat \<Rightarrow> 's p11_world \<Rightarrow> (mbedtls_err \<times> 's p11_world) option" where
  "lWriteCertificateToPKCS11 P raw xP11SessionHandle pcCertificateLabel uxCertificateLabelLen w = do {
     configASSERT (length raw > 0);
     configASSERT (xP11SessionHandle \<noteq> CK_INVALID_HANDLE);
     configASSERT (uxCertificateLabelLen > 0);
     let label = take uxCertificateLabelLen pcCertificateLabel;
     let (xResult, w) = (if function_list P = CKR_OK then destroy_found P xP11SessionHandle label CKO_CERTIFICATE w else (function_list P, w));
     let (xResult, w) =
       (if xResult = CKR_OK
        then create_object P xP11SessionHandle
               [(CKA_CLASS, VClass CKO_CERTIFICATE), (CKA_LABEL, VLabel label), (CKA_CERTIFICATE_TYPE, VType CKC_X_509),
                (CKA_TOKEN, VTrue), (CKA_VALUE, VBytes raw)] w
        else (xResult, w));
     Some (zero_or_minus_one xResult, w)
   }"

subsection \<open>Public keys\<close>

text \<open>A public key: whether its type is \<open>MBEDTLS_PK_ECKEY\<close>, and the uncompressed point of it, unless it cannot be written.\<close>

record p11_pub_key =
  is_eckey :: bool
  ec_point :: "byte list option"

abbreviation (input) MBEDTLS_ASN1_OCTET_STRING :: byte where "MBEDTLS_ASN1_OCTET_STRING \<equiv> 0x04"

text \<open>The object identifier of the curve P-256 in DER.\<close>

definition pkcs11DER_ENCODED_OID_P256 :: "byte list" where
  "pkcs11DER_ENCODED_OID_P256 = [0x06, 0x08, 0x2A, 0x86, 0x48, 0xCE, 0x3D, 0x03, 0x01, 0x07]"

text \<open>The octet string with the point: the tag, one byte for the length, and the point. The block for it is freed at the end, so it
  is not followed.\<close>

definition ec_point_octets :: "'s p11_ops \<Rightarrow> p11_pub_key \<Rightarrow> 's p11_world \<Rightarrow> CK_RV + byte list" where
  "ec_point_octets P key w =
     (if \<not> is_eckey key then Inl CKR_FUNCTION_NOT_SUPPORTED
      else (case ec_point key of
              None \<Rightarrow> Inl CKR_FUNCTION_FAILED
            | Some pt \<Rightarrow>
                if \<not> calloc_p11 P (blocks w) (length pt + 2) then Inl CKR_HOST_MEMORY
                else if length pt \<le> 255 then Inr (MBEDTLS_ASN1_OCTET_STRING # of_nat (length pt) # pt)
                else Inl CKR_FUNCTION_FAILED))"

definition lWriteEcPublicKeyToPKCS11 ::
  "'s p11_ops \<Rightarrow> p11_pub_key \<Rightarrow> nat \<Rightarrow> string \<Rightarrow> nat \<Rightarrow> 's p11_world \<Rightarrow> (mbedtls_err \<times> 's p11_world) option" where
  "lWriteEcPublicKeyToPKCS11 P key xP11SessionHandle pcPubKeyLabel uxPubKeyLabelLen w = do {
     configASSERT (xP11SessionHandle \<noteq> CK_INVALID_HANDLE);
     configASSERT (uxPubKeyLabelLen > 0);
     let label = take uxPubKeyLabelLen pcPubKeyLabel;
     let (xResult, w) = (if function_list P = CKR_OK then destroy_found P xP11SessionHandle label CKO_PUBLIC_KEY w else (function_list P, w));
     let (xResult, w) =
       (if xResult = CKR_OK
        then (case ec_point_octets P key w of
                Inl e \<Rightarrow> (e, w)
              | Inr octets \<Rightarrow> create_object P xP11SessionHandle
                  [(CKA_CLASS, VClass CKO_PUBLIC_KEY), (CKA_KEY_TYPE, VType CKK_EC), (CKA_LABEL, VLabel label), (CKA_TOKEN, VTrue),
                   (CKA_EC_PARAMS, VBytes pkcs11DER_ENCODED_OID_P256), (CKA_VERIFY, VTrue), (CKA_EC_POINT, VBytes octets)] w)
        else (xResult, w));
     Some (zero_or_minus_one xResult, w)
   }"

subsection \<open>Random numbers\<close>

text \<open>The callback for Mbed TLS, with the session its context points to and the buffer, each possibly NULL; the result of the
  token is passed on.\<close>

definition lPKCS11RandomCallback ::
  "'s p11_ops \<Rightarrow> nat option \<Rightarrow> bool \<Rightarrow> nat \<Rightarrow> 's p11_world \<Rightarrow> mbedtls_err \<times> byte list \<times> 's p11_world" where
  "lPKCS11RandomCallback P pvCtx pucOutput uxLen w =
     (case pvCtx of
        None \<Rightarrow> (MBEDTLS_ERR_OTHER 1, [], w)
      | Some session \<Rightarrow>
          if \<not> pucOutput \<or> function_list P \<noteq> CKR_OK then (MBEDTLS_ERR_OTHER 1, [], w)
          else (case C_GenerateRandom P session uxLen (tok w) of (r, bs, s) \<Rightarrow> (err_of_ckr r, bs, w\<lparr>tok := s\<rparr>)))"

lemma map_of_ckr_distinct: "distinct (map fst ckr_names)"
  by (simp add: ckr_names_def)

end
