(* ===== verification/P11Pk.thy ===== *)
theory P11Pk
  imports P11Token PsaPk
begin

text \<open>
  Keys of a PKCS #11 token as keys of Mbed TLS (the contexts of \<open>src/source/crypto/pki/mbedtls_pk_pkcs11.c\<close>): the private key stays in
  the token, the public part is copied. What is called of Mbed TLS is the record \<open>p11_pk_ops\<close>. The writers of ASN.1 are those of
  \<open>SigDer\<close>.
\<close>

subsection \<open>Contexts\<close>

text \<open>Group and point of the public key; the session and the handle of the private one; \<open>p11_list\<close> tells that the function list has
  been set.\<close>

record p11_ctx =
  p11_grp :: mbedtls_ecp_group_id
  p11_Q :: "int \<times> int \<times> int"
  p11_list :: bool
  p11_session :: nat
  p11_handle :: nat

datatype p11_ref = P11Null | P11EcDsa p11_ctx | P11Rsa p11_ctx

datatype p11_info = NoInfo | mbedtls_pkcs11_pk_ecdsa | mbedtls_pkcs11_pk_rsa

record p11_pk_context =
  p11_pk_ctx :: p11_ref
  p11_pk_info :: p11_info

record p11_pk_ops =
  sizeof_ecdsa :: nat
  sizeof_rsa :: nat
  key_type_of :: "byte list \<Rightarrow> nat"
  ecp_group_load_p256 :: bool
  asn1_octet_string :: "byte list \<Rightarrow> byte list option"
  ecp_point_read_binary :: "byte list \<Rightarrow> (int \<times> int \<times> int) option"
  asn1_len_bytes :: "nat \<Rightarrow> byte list"
  MBEDTLS_ECDSA_MAX_LEN :: nat
  MAX_SIG_LEN_256 :: nat
  ecdsa_read_signature :: "mbedtls_ecp_group_id \<times> (int \<times> int \<times> int) \<Rightarrow> byte list \<Rightarrow> byte list \<Rightarrow> mbedtls_err"
  ec_bitlen :: "mbedtls_ecp_group_id \<Rightarrow> nat"

definition empty_p11_ctx :: p11_ctx where
  "empty_p11_ctx = \<lparr>p11_grp = MBEDTLS_ECP_DP_NONE, p11_Q = (0, 0, 0), p11_list = False, p11_session = CK_INVALID_HANDLE,
     p11_handle = CK_INVALID_HANDLE\<rparr>"

definition p11_ecdsa_ctx_alloc :: "'s p11_ops \<Rightarrow> p11_pk_ops \<Rightarrow> 's p11_world \<Rightarrow> p11_ref \<times> 's p11_world" where
  "p11_ecdsa_ctx_alloc P M w =
     (if calloc_p11 P (blocks w) (sizeof_ecdsa M) then (P11EcDsa empty_p11_ctx, w\<lparr>blocks := blocks w + 1\<rparr>) else (P11Null, w))"

definition p11_rsa_ctx_alloc :: "'s p11_ops \<Rightarrow> p11_pk_ops \<Rightarrow> 's p11_world \<Rightarrow> p11_ref \<times> 's p11_world" where
  "p11_rsa_ctx_alloc P M w =
     (if calloc_p11 P (blocks w) (sizeof_rsa M) then (P11Rsa empty_p11_ctx, w\<lparr>blocks := blocks w + 1\<rparr>) else (P11Null, w))"

definition p11_ecdsa_ctx_free :: "p11_ref \<Rightarrow> 's p11_world \<Rightarrow> 's p11_world" where
  "p11_ecdsa_ctx_free r w = (if r = P11Null then w else w\<lparr>blocks := blocks w - 1\<rparr>)"

definition p11_rsa_ctx_free :: "p11_ref \<Rightarrow> 's p11_world \<Rightarrow> 's p11_world" where
  "p11_rsa_ctx_free r w = (if r = P11Null then w else w\<lparr>blocks := blocks w - 1\<rparr>)"

text \<open>The two attributes are read into blocks whose allocation is not tested; the second call leaves a NULL buffer alone. The group
  is always P-256. The blocks are freed before the result, so only whether there is room for them counts.\<close>

definition p11_ecdsa_ctx_init ::
  "'s p11_ops \<Rightarrow> p11_pk_ops \<Rightarrow> p11_ctx \<Rightarrow> nat \<Rightarrow> nat \<Rightarrow> 's p11_world \<Rightarrow> (CK_RV \<times> p11_ctx) option" where
  "p11_ecdsa_ctx_init P M c xSessionHandle xPkHandle w = do {
     configASSERT (xSessionHandle \<noteq> CK_INVALID_HANDLE);
     configASSERT (xPkHandle \<noteq> CK_INVALID_HANDLE);
     let (r0, params) = C_GetAttributeValue P xSessionHandle xPkHandle CKA_EC_PARAMS (tok w);
     let (r1, point) = C_GetAttributeValue P xSessionHandle xPkHandle CKA_EC_POINT (tok w);
     let xResult = (if r0 \<noteq> CKR_OK then r0 else r1);
     let have_params = (params \<noteq> [] \<and> calloc_p11 P (blocks w) (length params));
     let have_point = calloc_p11 P (blocks w + (if have_params then 1 else 0)) (length point);
     let (xResult, c) = (if xResult = CKR_OK
                         then (if ecp_group_load_p256 M then (xResult, c\<lparr>p11_grp := MBEDTLS_ECP_DP_SECP256R1\<rparr>) else (CKR_FUNCTION_FAILED, c))
                         else (xResult, c));
     (xResult, c) \<leftarrow>
       (if xResult = CKR_OK
        then (if point = [] then Some (CKR_GENERAL_ERROR, c)
              else do {
                configASSERT have_point;
                Some (case asn1_octet_string M point of
                        None \<Rightarrow> (CKR_GENERAL_ERROR, c)
                      | Some pt \<Rightarrow> (case ecp_point_read_binary M pt of None \<Rightarrow> (CKR_GENERAL_ERROR, c) | Some Q \<Rightarrow> (xResult, c\<lparr>p11_Q := Q\<rparr>)))
              })
        else Some (xResult, c));
     Some (xResult, if xResult = CKR_OK then c\<lparr>p11_list := True, p11_session := xSessionHandle, p11_handle := xPkHandle\<rparr> else c)
   }"

text \<open>Nothing of an RSA key is loaded.\<close>

definition p11_rsa_ctx_init :: "p11_ctx \<Rightarrow> nat \<Rightarrow> nat \<Rightarrow> (CK_RV \<times> p11_ctx) option" where
  "p11_rsa_ctx_init c xSessionHandle xPkHandle = do {
     configASSERT (xSessionHandle \<noteq> CK_INVALID_HANDLE);
     configASSERT (xPkHandle \<noteq> CK_INVALID_HANDLE);
     Some (CKR_OK, c)
   }"

definition xPKCS11_initMbedtlsPkContext ::
  "'s p11_ops \<Rightarrow> p11_pk_ops \<Rightarrow> p11_pk_context option \<Rightarrow> nat \<Rightarrow> nat \<Rightarrow> 's p11_world \<Rightarrow> (CK_RV \<times> p11_pk_context option \<times> 's p11_world) option" where
  "xPKCS11_initMbedtlsPkContext P M pxMbedtlsPkCtx xSessionHandle xPkHandle w =
     (case pxMbedtlsPkCtx of
        None \<Rightarrow> Some (CKR_ARGUMENTS_BAD, None, w)
      | Some ctx \<Rightarrow>
          if xSessionHandle = CK_INVALID_HANDLE then Some (CKR_SESSION_HANDLE_INVALID, Some ctx, w)
          else if xPkHandle = CK_INVALID_HANDLE then Some (CKR_KEY_HANDLE_INVALID, Some ctx, w)
          else if function_list P \<noteq> CKR_OK then Some (CKR_FUNCTION_FAILED, Some ctx, w)
          else (case C_GetAttributeValue P xSessionHandle xPkHandle CKA_KEY_TYPE (tok w) of
            (xResult, v) \<Rightarrow>
              if xResult \<noteq> CKR_OK then Some (xResult, Some ctx, w)
              else if key_type_of M v = CKK_EC
              then (case p11_ecdsa_ctx_alloc P M w of
                      (P11EcDsa c, w) \<Rightarrow> do {
                        (xResult, c) \<leftarrow> p11_ecdsa_ctx_init P M c xSessionHandle xPkHandle w;
                        if xResult = CKR_OK then Some (xResult, Some (ctx\<lparr>p11_pk_ctx := P11EcDsa c, p11_pk_info := mbedtls_pkcs11_pk_ecdsa\<rparr>), w)
                        else Some (xResult, Some (ctx\<lparr>p11_pk_ctx := P11Null, p11_pk_info := NoInfo\<rparr>), p11_ecdsa_ctx_free (P11EcDsa c) w)
                      }
                    | (r, w) \<Rightarrow> Some (CKR_FUNCTION_FAILED, Some (ctx\<lparr>p11_pk_ctx := P11Null, p11_pk_info := NoInfo\<rparr>), w))
              else if key_type_of M v = CKK_RSA
              then (case p11_rsa_ctx_alloc P M w of
                      (P11Rsa c, w) \<Rightarrow> do {
                        (xResult, c) \<leftarrow> p11_rsa_ctx_init c xSessionHandle xPkHandle;
                        if xResult = CKR_OK then Some (xResult, Some (ctx\<lparr>p11_pk_ctx := P11Rsa c, p11_pk_info := mbedtls_pkcs11_pk_rsa\<rparr>), w)
                        else Some (xResult, Some (ctx\<lparr>p11_pk_ctx := P11Null, p11_pk_info := NoInfo\<rparr>), p11_rsa_ctx_free (P11Rsa c) w)
                      }
                    | (r, w) \<Rightarrow> Some (CKR_FUNCTION_FAILED, Some (ctx\<lparr>p11_pk_ctx := P11Null, p11_pk_info := NoInfo\<rparr>), w))
              else Some (CKR_FUNCTION_FAILED, Some (ctx\<lparr>p11_pk_ctx := P11Null, p11_pk_info := NoInfo\<rparr>), w)))"

text \<open>The context is always read as one of ECDSA; neither it nor the key is freed.\<close>

definition lPKCS11PkMbedtlsCloseSessionAndFree ::
  "'s p11_ops \<Rightarrow> p11_pk_context option \<Rightarrow> 's p11_world \<Rightarrow> (mbedtls_err \<times> p11_pk_context \<times> 's p11_world) option" where
  "lPKCS11PkMbedtlsCloseSessionAndFree P pxMbedtlsPkCtx w =
     (case pxMbedtlsPkCtx of
        Some ctx \<Rightarrow>
          (if function_list P \<noteq> CKR_OK then Some (MBEDTLS_ERR_OTHER 1, ctx, w)
           else (case p11_pk_ctx ctx of
                   P11EcDsa c \<Rightarrow>
                     (case C_CloseSession P (p11_session c) (tok w) of
                        (xResult, s) \<Rightarrow>
                          if xResult = CKR_OK then Some (MBEDTLS_OK, ctx\<lparr>p11_pk_ctx := P11EcDsa (c\<lparr>p11_session := CK_INVALID_HANDLE\<rparr>)\<rparr>, w\<lparr>tok := s\<rparr>)
                          else Some (MBEDTLS_ERR_OTHER 1, ctx, w\<lparr>tok := s\<rparr>))
                 | _ \<Rightarrow> None))
      | None \<Rightarrow> None)"

subsection \<open>Signatures\<close>

text \<open>The first \<open>n\<close> of the octets in front of a position of the buffer, as an ASN.1 integer. \<open>None\<close> is a result that is not
  positive. The first octet is looked at whatever \<open>n\<close> is.\<close>

definition prvASN1WriteBigIntFromOctetStr ::
  "(nat \<Rightarrow> byte list) \<Rightarrow> nat \<Rightarrow> nat \<Rightarrow> byte list \<Rightarrow> nat \<Rightarrow> byte list \<Rightarrow> (nat \<times> nat \<times> byte list) option" where
  "prvASN1WriteBigIntFromOctetStr L pucPosition pucStart pucOctetStr uxOctetStrLen buf =
     (let uxRequiredLen = (if hd pucOctetStr > 0x7F then uxOctetStrLen + 1 else uxOctetStrLen) in
      if pucPosition - pucStart < uxRequiredLen then None
      else (let p = pucPosition - uxOctetStrLen;
                buf = overwrite p (take uxOctetStrLen pucOctetStr) buf;
                (p, buf) = (if hd pucOctetStr > 0x7F then (p - 1, buf[p - 1 := 0]) else (p, buf))
            in case asn1_put (L uxRequiredLen) p pucStart buf of
                 Inl e \<Rightarrow> None
               | Inr (k, p, buf) \<Rightarrow>
                   (case asn1_put [MBEDTLS_ASN1_INTEGER] p pucStart buf of
                      Inl e \<Rightarrow> None
                    | Inr (k', p, buf) \<Rightarrow> Some (uxRequiredLen + k + k', p, buf))))"

text \<open>The structure is built in a buffer of its own from the end, and copied over the raw signature. The result has the length and
  the buffer of the caller.\<close>

definition prvEcdsaSigToASN1InPlace :: "p11_pk_ops \<Rightarrow> byte list \<Rightarrow> nat \<Rightarrow> (mbedtls_err \<times> nat \<times> byte list) option" where
  "prvEcdsaSigToASN1InPlace M pucSig xSigLen = do {
     configASSERT (length pucSig > xSigLen);
     let xComponentLen = xSigLen div 2;
     let temp = replicate (MBEDTLS_ECDSA_MAX_LEN M) 0;
     Some (case prvASN1WriteBigIntFromOctetStr (asn1_len_bytes M) (length temp) 0 (drop xComponentLen pucSig) xComponentLen temp of
       None \<Rightarrow> (MBEDTLS_ERR_OTHER 1, xSigLen, pucSig)
     | Some (l1, p, temp) \<Rightarrow>
         (case prvASN1WriteBigIntFromOctetStr (asn1_len_bytes M) p 0 pucSig xComponentLen temp of
            None \<Rightarrow> (MBEDTLS_ERR_OTHER 1, xSigLen, pucSig)
          | Some (l2, p, temp) \<Rightarrow>
              (case asn1_put (asn1_len_bytes M (l1 + l2)) p 0 temp of
                 Inl e \<Rightarrow> (MBEDTLS_ERR_OTHER 1, xSigLen, pucSig)
               | Inr (l3, p, temp) \<Rightarrow>
                   (case asn1_put [ASN1_SEQUENCE_TAG] p 0 temp of
                      Inl e \<Rightarrow> (MBEDTLS_ERR_OTHER 1, xSigLen, pucSig)
                    | Inr (l4, p, temp) \<Rightarrow>
                        (let uxLen = l1 + l2 + l3 + l4 in
                         if uxLen \<le> length pucSig then (MBEDTLS_OK, uxLen, overwrite 0 (take uxLen (drop p temp)) pucSig)
                         else (MBEDTLS_ERR_OTHER 1, xSigLen, pucSig))))))
   }"

text \<open>The context may be NULL. A signature that is longer than the buffer is an access outside it. The length counts only with a
  signature; where the code leaves it as it was it is given as 0.\<close>

definition p11_ecdsa_sign ::
  "'s p11_ops \<Rightarrow> p11_pk_ops \<Rightarrow> p11_ctx option \<Rightarrow> byte list \<Rightarrow> byte list \<Rightarrow> 's p11_world \<Rightarrow> (mbedtls_err \<times> nat \<times> byte list \<times> 's p11_world) option" where
  "p11_ecdsa_sign P M pvCtx pucHash pucSig w = do {
     configASSERT (length pucSig > 0);
     configASSERT (length pucHash > 0);
     (case pvCtx of
        None \<Rightarrow> Some (MBEDTLS_ERR_OTHER 1, 0, pucSig, w)
      | Some c \<Rightarrow> do {
          configASSERT (p11_list c);
          let (xResult, s) = C_SignInit P (p11_session c) (p11_handle c) (tok w);
          if xResult \<noteq> CKR_OK then Some (MBEDTLS_ERR_OTHER 1, 0, pucSig, w\<lparr>tok := s\<rparr>)
          else (case C_Sign P (p11_session c) pucHash (length pucSig) s of
            (xResult, raw, s) \<Rightarrow>
              if xResult \<noteq> CKR_OK then Some (MBEDTLS_ERR_OTHER 1, 0, pucSig, w\<lparr>tok := s\<rparr>)
              else do {
                pucSig \<leftarrow> mem_write 0 raw pucSig;
                (e, n, pucSig) \<leftarrow> prvEcdsaSigToASN1InPlace M pucSig (length raw);
                Some (e, n, pucSig, w\<lparr>tok := s\<rparr>)
              })
        })
   }"

definition p11_ecdsa_get_bitlen :: "p11_pk_ops \<Rightarrow> p11_ctx \<Rightarrow> nat" where
  "p11_ecdsa_get_bitlen M c = ec_bitlen M (p11_grp c)"

definition p11_ecdsa_can_do :: "mbedtls_pk_type \<Rightarrow> bool" where
  "p11_ecdsa_can_do xType \<longleftrightarrow> xType = MBEDTLS_PK_ECDSA"

definition p11_rsa_can_do :: "mbedtls_pk_type \<Rightarrow> bool" where
  "p11_rsa_can_do xType \<longleftrightarrow> xType = MBEDTLS_PK_RSA"

definition p11_rsa_sign :: mbedtls_err where
  "p11_rsa_sign = MBEDTLS_ERR_OTHER 1"

definition p11_ecdsa_verify :: "p11_pk_ops \<Rightarrow> p11_ctx \<Rightarrow> byte list \<Rightarrow> byte list \<Rightarrow> mbedtls_err" where
  "p11_ecdsa_verify M c pucHash pucSig = ecdsa_read_signature M (p11_grp c, p11_Q c) pucHash pucSig"

text \<open>The public key is compared with that of the context, then a test hash is signed and verified. Comparing numbers gives 1, 0
  or -1.\<close>

definition mpi_cmp :: "int \<Rightarrow> int \<Rightarrow> mbedtls_err" where
  "mpi_cmp a b = (if a = b then MBEDTLS_OK else if a > b then MBEDTLS_POSITIVE 1 else MBEDTLS_ERR_OTHER 1)"

definition p11_ecdsa_check_pair ::
  "'s p11_ops \<Rightarrow> p11_pk_ops \<Rightarrow> (mbedtls_ecp_group_id \<times> (int \<times> int \<times> int)) option \<Rightarrow> p11_ctx option \<Rightarrow> 's p11_world \<Rightarrow>
    (mbedtls_err \<times> 's p11_world) option" where
  "p11_ecdsa_check_pair P M pvPub pvPrv w =
     (case (pvPub, pvPrv) of
        (Some (grp, X, Y, Z), Some c) \<Rightarrow>
          (let lResult = (if grp = MBEDTLS_ECP_DP_NONE \<or> grp \<noteq> p11_grp c then MBEDTLS_ERR_OTHER 0x4F80 else MBEDTLS_OK);
               lResult = (if lResult = MBEDTLS_OK then mpi_cmp X (fst (p11_Q c)) else lResult);
               lResult = (if lResult = MBEDTLS_OK then mpi_cmp Y (fst (snd (p11_Q c))) else lResult);
               lResult = (if lResult = MBEDTLS_OK then mpi_cmp Z (snd (snd (p11_Q c))) else lResult)
           in if lResult \<noteq> MBEDTLS_OK then Some (lResult, w)
              else do {
                (lResult, n, sig, w) \<leftarrow> p11_ecdsa_sign P M (Some c) test_hash (replicate (MAX_SIG_LEN_256 M) 0) w;
                if lResult = MBEDTLS_OK then Some (ecdsa_read_signature M (grp, X, Y, Z) test_hash (take n sig), w)
                else Some (lResult, w)
              })
      | _ \<Rightarrow> Some (MBEDTLS_ERR_OTHER 1, w))"

subsection \<open>The structure that is written\<close>

definition p11_body :: "byte list \<Rightarrow> byte list" where
  "p11_body xs = (if hd xs > 0x7F then 0 # xs else xs)"

definition p11_int :: "(nat \<Rightarrow> byte list) \<Rightarrow> byte list \<Rightarrow> byte list" where
  "p11_int L xs = MBEDTLS_ASN1_INTEGER # L (length (p11_body xs)) @ p11_body xs"

definition p11_sig :: "(nat \<Rightarrow> byte list) \<Rightarrow> byte list \<Rightarrow> byte list \<Rightarrow> byte list" where
  "p11_sig L r s = (let body = p11_int L r @ p11_int L s in ASN1_SEQUENCE_TAG # L (length body) @ body)"

lemma write_bigint_body:
  assumes "start + length (p11_body xs) \<le> p" "p \<le> length buf" "xs \<noteq> []"
  shows "\<exists>buf'. prvASN1WriteBigIntFromOctetStr L p start (xs @ ys) (length xs) buf =
      (case asn1_put (L (length (p11_body xs))) (p - length (p11_body xs)) start buf' of
         Inl e \<Rightarrow> None
       | Inr (k, p, buf) \<Rightarrow> (case asn1_put [MBEDTLS_ASN1_INTEGER] p start buf of
           Inl e \<Rightarrow> None | Inr (k', p, buf) \<Rightarrow> Some (length (p11_body xs) + k + k', p, buf))) \<and>
    length buf' = length buf \<and> drop (p - length (p11_body xs)) buf' = p11_body xs @ drop p buf"
proof (cases "hd xs > 0x7F")
  case False
  let ?b = "overwrite (p - length xs) xs buf"
  have "drop (p - length xs) ?b = xs @ drop p buf" "length ?b = length buf"
    using assms False by (simp_all add: p11_body_def overwrite_def)
  moreover have body: "p11_body xs = xs" using False by (simp add: p11_body_def)
  moreover have "\<not> p - start < length xs" using assms(1) body by simp
  ultimately show ?thesis unfolding body using False assms(3)
    by (intro exI [of _ ?b]) (simp add: prvASN1WriteBigIntFromOctetStr_def Let_def)
next
  case True
  let ?b = "overwrite (p - length xs) xs buf" let ?c = "?b[p - Suc (length xs) := 0]"
  have room: "start + Suc (length xs) \<le> p" using assms(1) True by (simp add: p11_body_def)
  have b: "drop (p - length xs) ?b = xs @ drop p buf" "length ?b = length buf" using assms(2) room by (simp_all add: overwrite_def)
  have i: "Suc (p - Suc (length xs)) = p - length xs" "p - Suc (length xs) < length ?b" using assms(2) b(2) room by simp_all
  have "drop (p - Suc (length xs)) ?c = 0 # drop (Suc (p - Suc (length xs))) ?c"
    using i(2) by (simp add: Cons_nth_drop_Suc [symmetric])
  also have "\<dots> = 0 # xs @ drop p buf" using i(1) b(1) by simp
  finally have c: "drop (p - Suc (length xs)) ?c = 0 # xs @ drop p buf" .
  have body: "p11_body xs = 0 # xs" using True by (simp add: p11_body_def)
  have "\<not> p - start < Suc (length xs)" using room by simp
  then show ?thesis unfolding body length_Cons using True assms(3) b(2) c
    by (intro exI [of _ ?c]) (simp add: prvASN1WriteBigIntFromOctetStr_def Let_def diff_diff_eq)
qed

lemma write_bigint_ok:
  assumes "start + length (p11_int L xs) \<le> p" "p \<le> length buf" "xs \<noteq> []"
  obtains buf' where "prvASN1WriteBigIntFromOctetStr L p start (xs @ ys) (length xs) buf = Some (length (p11_int L xs), p - length (p11_int L xs), buf')"
    "length buf' = length buf" "drop (p - length (p11_int L xs)) buf' = p11_int L xs @ drop p buf"
proof -
  let ?n = "length (p11_body xs)"
  have n: "start + ?n \<le> p" using assms(1) by (simp add: p11_int_def)
  obtain b where b: "prvASN1WriteBigIntFromOctetStr L p start (xs @ ys) (length xs) buf =
      (case asn1_put (L ?n) (p - ?n) start b of
         Inl e \<Rightarrow> None
       | Inr (k, p, buf) \<Rightarrow> (case asn1_put [MBEDTLS_ASN1_INTEGER] p start buf of
           Inl e \<Rightarrow> None | Inr (k', p, buf) \<Rightarrow> Some (?n + k + k', p, buf)))"
    "length b = length buf" "drop (p - ?n) b = p11_body xs @ drop p buf"
    using write_bigint_body [OF n assms(2,3), of L ys] by blast
  have room: "start + 1 + length (L ?n) \<le> p - ?n" "p - ?n \<le> length b" using assms(1,2) b(2) by (simp_all add: p11_int_def)
  obtain b1 b2 where "asn1_put (L ?n) (p - ?n) start b = Inr (length (L ?n), p - ?n - length (L ?n), b1)"
    "asn1_put [MBEDTLS_ASN1_INTEGER] (p - ?n - length (L ?n)) start b1 = Inr (1, p - ?n - (1 + length (L ?n)), b2)" "length b2 = length b"
    "drop (p - ?n - (1 + length (L ?n))) b2 = MBEDTLS_ASN1_INTEGER # L ?n @ drop (p - ?n) b"
    using put_header [OF room] by metis
  then show ?thesis using that [of b2] b by (simp add: p11_int_def diff_diff_eq add_ac)
qed

text \<open>A raw signature of two numbers of equal length becomes the structure of the two, when there is room for it.\<close>

lemma sig_to_asn1:
  assumes "length r = length s" "r \<noteq> []" "length r + length s < length buf" "take (length r + length s) buf = r @ s"
    and "length (p11_sig (asn1_len_bytes M) r s) \<le> MBEDTLS_ECDSA_MAX_LEN M" "length (p11_sig (asn1_len_bytes M) r s) \<le> length buf"
  shows "prvEcdsaSigToASN1InPlace M buf (length r + length s) =
    Some (MBEDTLS_OK, length (p11_sig (asn1_len_bytes M) r s), overwrite 0 (p11_sig (asn1_len_bytes M) r s) buf)"
proof -
  let ?L = "asn1_len_bytes M" and ?temp = "replicate (MBEDTLS_ECDSA_MAX_LEN M) (0 :: byte)"
  let ?R = "p11_int ?L r" and ?S = "p11_int ?L s" and ?n = "MBEDTLS_ECDSA_MAX_LEN M"
  let ?D = "?L (length ?R + length ?S)"
  have len: "length (p11_sig ?L r s) = 1 + length ?D + length ?R + length ?S" by (simp add: p11_sig_def Let_def)
  have half: "(length r + length s) div 2 = length r" using assms(1) by simp
  have buf: "buf = r @ s @ drop (length r + length s) buf" using assms(4) by (metis append_take_drop_id append_assoc)
  then have d: "drop (length r) buf = s @ drop (length r + length s) buf" by (metis append_eq_conv_conj)
  have s: "s \<noteq> []" using assms(1,2) by auto
  obtain b1 where b1: "prvASN1WriteBigIntFromOctetStr ?L ?n 0 (drop (length r) buf) (length r) ?temp = Some (length ?S, ?n - length ?S, b1)"
    "length b1 = ?n" "drop (?n - length ?S) b1 = ?S"
    using write_bigint_ok [of 0 ?L s ?n ?temp "drop (length r + length s) buf"] assms(1,5) len s d by auto
  have roomR: "0 + length ?R \<le> ?n - length ?S" "?n - length ?S \<le> length b1" using assms(5) len b1(2) by simp_all
  obtain b2 where b2: "prvASN1WriteBigIntFromOctetStr ?L (?n - length ?S) 0 buf (length r) b1 = Some (length ?R, ?n - length ?S - length ?R, b2)"
    "length b2 = ?n" "drop (?n - length ?S - length ?R) b2 = ?R @ ?S"
    using write_bigint_ok [OF roomR assms(2), of "s @ drop (length r + length s) buf"] b1(2,3) buf by metis
  have room: "0 + 1 + length ?D \<le> ?n - length ?S - length ?R" "?n - length ?S - length ?R \<le> length b2" using assms(5) len b2(2) by simp_all
  obtain b3 b4 where b4: "asn1_put ?D (?n - length ?S - length ?R) 0 b2 = Inr (length ?D, ?n - length ?S - length ?R - length ?D, b3)"
    "asn1_put [ASN1_SEQUENCE_TAG] (?n - length ?S - length ?R - length ?D) 0 b3 = Inr (1, ?n - length ?S - length ?R - (1 + length ?D), b4)"
    "drop (?n - length ?S - length ?R - (1 + length ?D)) b4 = ASN1_SEQUENCE_TAG # ?D @ drop (?n - length ?S - length ?R) b2"
    using put_header [OF room] by metis
  have sum: "length ?S + length ?R = length ?R + length ?S" by simp
  have "length ?S + length ?R + length ?D + 1 = length (p11_sig ?L r s)" using len by simp
  moreover have "drop (?n - length ?S - length ?R - (1 + length ?D)) b4 = p11_sig ?L r s" using b4(3) b2(3) by (simp add: p11_sig_def Let_def)
  ultimately show ?thesis using assms(3,6) half b1(1) b2(1) b4(1,2)
    by (simp add: prvEcdsaSigToASN1InPlace_def Let_def sum)
qed

text \<open>It is the encoding DER asks for when the numbers have no superfluous zero in front. Otherwise the zeros stay.\<close>

definition minimal :: "byte list \<Rightarrow> bool" where
  "minimal xs \<longleftrightarrow> xs \<noteq> [] \<and> hd xs \<noteq> 0"

lemma top_bit: "(b :: byte) > 0x7F \<longleftrightarrow> bit b 7"
proof -
  have "unat b < 256" using unsigned_less [of b] by simp
  then have "unat b > 127 \<longleftrightarrow> odd (unat b div 2 ^ 7)" by (auto simp: odd_iff_mod_2_eq_one)
  moreover have "bit b 7 \<longleftrightarrow> bit (unat b) 7" by (simp add: bit_unsigned_iff)
  ultimately show ?thesis by (simp add: word_less_nat_alt bit_iff_odd)
qed

lemma p11_sig_der: "minimal r \<Longrightarrow> minimal s \<Longrightarrow> p11_sig L r s = der_sig L r s"
  by (cases r; cases s) (simp_all add: minimal_def p11_sig_def der_sig_def p11_int_def der_int_def p11_body_def der_body_def top_bit)

lemma p11_keeps_zeros: "p11_body [0, 1] = [0, 1]" "der_body [0, 1] = [1]"
  by (simp_all add: p11_body_def der_body_def)

text \<open>Signing with a token that gives the two numbers.\<close>

lemma p11_sign_structure:
  assumes "p11_list c" "C_SignInit P (p11_session c) (p11_handle c) (tok w) = (CKR_OK, s1)"
    and "C_Sign P (p11_session c) hash (length sig) s1 = (CKR_OK, r @ s, s2)" "hash \<noteq> []"
    and "length r = length s" "r \<noteq> []" "length r + length s < length sig"
    and "length (p11_sig (asn1_len_bytes M) r s) \<le> MBEDTLS_ECDSA_MAX_LEN M" "length (p11_sig (asn1_len_bytes M) r s) \<le> length sig"
  shows "\<exists>sig'. p11_ecdsa_sign P M (Some c) hash sig w = Some (MBEDTLS_OK, length (p11_sig (asn1_len_bytes M) r s), sig', w\<lparr>tok := s2\<rparr>) \<and>
    take (length (p11_sig (asn1_len_bytes M) r s)) sig' = p11_sig (asn1_len_bytes M) r s"
proof -
  let ?sig = "overwrite 0 (r @ s) sig"
  have "length ?sig = length sig" "take (length r + length s) ?sig = r @ s" using assms(7) by (simp_all add: overwrite_def)
  moreover have "sig \<noteq> []" using assms(7) by auto
  ultimately show ?thesis using assms sig_to_asn1 [of r s ?sig M] by (auto simp: p11_ecdsa_sign_def overwrite_def)
qed

end
