(* ===== verification/P11Obj.thy ===== *)
theory P11Obj
  imports P11Pk
begin

text \<open>
  PKI objects in a PKCS #11 token by label (\<open>src/source/crypto/pki/PkiObjectPkcs11.c\<close>). A label may be NULL, the other arguments are
  not. When a session cannot be opened, the handle \<open>xInitializePkcs11Session\<close> gives stands for what the variable holds then.
\<close>

subsection \<open>Helpers\<close>

fun xPrvCkRvToPkiStatus :: "CK_RV \<Rightarrow> PkiStatus_t" where
  "xPrvCkRvToPkiStatus xError =
     (if xError = CKR_OK then PKI_SUCCESS
      else if xError = CKR_OBJECT_HANDLE_INVALID then PKI_ERR_OBJ_NOT_FOUND
      else if xError = CKR_HOST_MEMORY then PKI_ERR_NOMEM
      else if xError = CKR_FUNCTION_FAILED then PKI_ERR_INTERNAL
      else PKI_ERR)"

declare xPrvCkRvToPkiStatus.simps [simp del]

text \<open>The beginning of the DER form of a P-256 key, up to the point.\<close>

definition pucEcP256AsnAndOid :: "byte list" where
  "pucEcP256AsnAndOid = [0x30, 0x59, 0x30, 0x13, 0x06, 0x07, 0x2a, 0x86, 0x48, 0xce, 0x3d, 0x02, 0x01, 0x06, 0x08, 0x2a,
     0x86, 0x48, 0xce, 0x3d, 0x03, 0x01, 0x07, 0x03, 0x42, 0x00]"

text \<open>The attribute with its tag and length is written so that the last two bytes of the header replace them. The block has one
  byte more than that. Whatever fails before the block is there is reported as a lack of memory.\<close>

definition xPrvExportPubKeyDer :: "'s p11_ops \<Rightarrow> nat \<Rightarrow> nat \<Rightarrow> 's p11_world \<Rightarrow> (CK_RV \<times> byte list option \<times> 's p11_world) option" where
  "xPrvExportPubKeyDer P xSession xPublicKeyHandle w =
     (let (xResult, point) = (if function_list P = CKR_OK then C_GetAttributeValue P xSession xPublicKeyHandle CKA_EC_POINT (tok w)
                              else (function_list P, []));
          len = length point + length pucEcP256AsnAndOid - 2 + 1
      in if xResult = CKR_OK \<and> calloc_p11 P (blocks w) len
         then do {
           der \<leftarrow> mem_write (length pucEcP256AsnAndOid - 2) point (replicate len 0);
           der \<leftarrow> mem_write 0 pucEcP256AsnAndOid der;
           Some (CKR_OK, Some der, w\<lparr>blocks := blocks w + 1\<rparr>)
         }
         else Some (CKR_HOST_MEMORY, None, w))"

definition xPrvDestoryObject :: "'s p11_ops \<Rightarrow> nat \<Rightarrow> CK_OBJECT_CLASS \<Rightarrow> string \<Rightarrow> nat \<Rightarrow> 's p11_world \<Rightarrow> (CK_RV \<times> 's p11_world) option" where
  "xPrvDestoryObject P xSessionHandle xClass pcLabel uxLabelLen w = do {
     configASSERT (xSessionHandle \<noteq> 0);
     configASSERT (uxLabelLen > 0);
     Some (if function_list P = CKR_OK then destroy_found P xSessionHandle (take uxLabelLen pcLabel) xClass w else (function_list P, w))
   }"

text \<open>The length of a label is cut at the maximum; it is 0 for NULL.\<close>

definition label_len :: "'s p11_ops \<Rightarrow> string option \<Rightarrow> nat" where
  "label_len P pcLabel = (case pcLabel of None \<Rightarrow> 0 | Some l \<Rightarrow> min (length (c_str l)) (pkcs11configMAX_LABEL_LENGTH P))"

definition open_session :: "'s p11_ops \<Rightarrow> 's p11_world \<Rightarrow> CK_RV \<times> nat \<times> 's p11_world" where
  "open_session P w = (case xInitializePkcs11Session P (tok w) of (xResult, xSession, s) \<Rightarrow> (xResult, xSession, w\<lparr>tok := s\<rparr>))"

definition close_session :: "'s p11_ops \<Rightarrow> nat \<Rightarrow> 's p11_world \<Rightarrow> 's p11_world" where
  "close_session P xSession w = (if xSession \<noteq> 0 then w\<lparr>tok := snd (C_CloseSession P xSession (tok w))\<rparr> else w)"

subsection \<open>Private keys\<close>

text \<open>A find without a result but without an error leaves the status a success; the context is then initialized with the invalid
  handle. The session is not closed when something fails.\<close>

definition xPkcs11InitMbedtlsPkContext ::
  "'s p11_ops \<Rightarrow> p11_pk_ops \<Rightarrow> string option \<Rightarrow> p11_pk_context option \<Rightarrow> 's p11_world \<Rightarrow>
    (PkiStatus_t \<times> p11_pk_context option \<times> nat option \<times> 's p11_world) option" where
  "xPkcs11InitMbedtlsPkContext P M pcLabel pxPkCtx w =
     (if pxPkCtx = None \<or> label_len P pcLabel = 0 then Some (PKI_ERR_ARG_INVALID, pxPkCtx, None, w)
      else (case open_session P w of
        (xResult, xSession, w) \<Rightarrow>
          if xPrvCkRvToPkiStatus xResult \<noteq> PKI_SUCCESS then Some (xPrvCkRvToPkiStatus xResult, pxPkCtx, None, w)
          else (case xFindObjectWithLabelAndClass P xSession (take (label_len P pcLabel) (the pcLabel)) CKO_PRIVATE_KEY (tok w) of
            (xResult, xPkHandle) \<Rightarrow>
              if (xResult \<noteq> CKR_OK \<or> xPkHandle = CK_INVALID_HANDLE) \<and> xPrvCkRvToPkiStatus xResult \<noteq> PKI_SUCCESS
              then Some (xPrvCkRvToPkiStatus xResult, pxPkCtx, None, w)
              else do {
                (xResult, pxPkCtx, w) \<leftarrow> xPKCS11_initMbedtlsPkContext P M pxPkCtx xSession xPkHandle w;
                Some (xPrvCkRvToPkiStatus xResult, pxPkCtx,
                  if xPrvCkRvToPkiStatus xResult = PKI_SUCCESS then Some xSession else None, w)
              })))"

subsection \<open>Certificates\<close>

text \<open>Opening a session, destroying the old object, writing the new one, and closing the session: the shape of both writing
  functions.\<close>

definition write_object ::
  "'s p11_ops \<Rightarrow> CK_OBJECT_CLASS \<Rightarrow> (nat \<Rightarrow> string \<Rightarrow> nat \<Rightarrow> 's p11_world \<Rightarrow> (mbedtls_err \<times> 's p11_world) option) \<Rightarrow> string option \<Rightarrow>
    's p11_world \<Rightarrow> (PkiStatus_t \<times> 's p11_world) option" where
  "write_object P xClass write pcLabel w =
     (let uxLabelLen = label_len P pcLabel in
      if uxLabelLen = 0 then Some (PKI_ERR_ARG_INVALID, w)
      else if function_list P \<noteq> CKR_OK then Some (xPrvCkRvToPkiStatus (function_list P), w)
      else (case open_session P w of
        (xResult, xSession, w) \<Rightarrow> do {
          (xStatus, w) \<leftarrow>
            (if xResult \<noteq> CKR_OK then Some (xPrvCkRvToPkiStatus xResult, w)
             else do {
               (xResult, w) \<leftarrow> xPrvDestoryObject P xSession xClass (the pcLabel) uxLabelLen w;
               if xResult \<noteq> CKR_OK then Some (xPrvCkRvToPkiStatus xResult, w)
               else do { (lRslt, w) \<leftarrow> write xSession (the pcLabel) uxLabelLen w; Some (xPrvMbedtlsErrToPkiStatus lRslt, w) }
             });
          Some (xStatus, close_session P xSession w)
        }))"

definition xPkcs11WriteCertificate :: "'s p11_ops \<Rightarrow> string option \<Rightarrow> byte list \<Rightarrow> 's p11_world \<Rightarrow> (PkiStatus_t \<times> 's p11_world) option" where
  "xPkcs11WriteCertificate P pcLabel raw w = write_object P CKO_CERTIFICATE (lWriteCertificateToPKCS11 P raw) pcLabel w"

definition xPkcs11ReadCertificate ::
  "'s p11_ops \<Rightarrow> byte list list \<Rightarrow> string option \<Rightarrow> 's p11_world \<Rightarrow> (PkiStatus_t \<times> byte list list \<times> 's p11_world) option" where
  "xPkcs11ReadCertificate P chain pcLabel w =
     (let uxLabelLen = label_len P pcLabel in
      if uxLabelLen = 0 then Some (PKI_ERR_ARG_INVALID, chain, w)
      else if function_list P \<noteq> CKR_OK then Some (xPrvCkRvToPkiStatus (function_list P), chain, w)
      else (case open_session P w of
        (xResult, xSession, w) \<Rightarrow> do {
          (xStatus, chain, w) \<leftarrow>
            (if xResult \<noteq> CKR_OK then Some (xPrvCkRvToPkiStatus xResult, chain, w)
             else do {
               (lRslt, chain, w) \<leftarrow> lReadCertificateFromPKCS11 P [] xSession (the pcLabel) uxLabelLen w;
               Some (xPrvMbedtlsErrToPkiStatus lRslt, chain, w)
             });
          Some (xStatus, chain, close_session P xSession w)
        }))"

subsection \<open>Key pairs and public keys\<close>

text \<open>The template of the public key does not ask for an object of the token.\<close>

definition xPkcs11GenerateKeyPairEC ::
  "'s p11_ops \<Rightarrow> string option \<Rightarrow> string option \<Rightarrow> 's p11_world \<Rightarrow> (PkiStatus_t \<times> byte list option \<times> 's p11_world) option" where
  "xPkcs11GenerateKeyPairEC P pcPrivateKeyLabel pcPublicKeyLabel w = do {
     let prvLen = label_len P pcPrivateKeyLabel;
     let pubLen = label_len P pcPublicKeyLabel;
     configASSERT (prvLen > 0);
     configASSERT (pubLen > 0);
     let (xResult, xSession, w) = (if function_list P = CKR_OK then open_session P w else (function_list P, 0, w));
     (xResult, w) \<leftarrow> (if xResult = CKR_OK then xPrvDestoryObject P xSession CKO_PRIVATE_KEY (the pcPrivateKeyLabel) prvLen w else Some (xResult, w));
     (xResult, w) \<leftarrow> (if xResult = CKR_OK then xPrvDestoryObject P xSession CKO_PUBLIC_KEY (the pcPublicKeyLabel) pubLen w else Some (xResult, w));
     (xResult, der, w) \<leftarrow>
       (if xResult = CKR_OK
        then (case C_GenerateKeyPair P xSession
                [(CKA_KEY_TYPE, VType CKK_EC), (CKA_VERIFY, VTrue), (CKA_EC_PARAMS, VBytes pkcs11DER_ENCODED_OID_P256),
                 (CKA_LABEL, VLabel (take pubLen (the pcPublicKeyLabel)))]
                [(CKA_KEY_TYPE, VType CKK_EC), (CKA_TOKEN, VTrue), (CKA_PRIVATE, VTrue), (CKA_SIGN, VTrue),
                 (CKA_LABEL, VLabel (take prvLen (the pcPrivateKeyLabel)))] (tok w) of
              (xResult, xPubKeyHandle, xPrvKeyHandle, s) \<Rightarrow>
                if xResult = CKR_OK
                then do { configASSERT (xPubKeyHandle \<noteq> 0); xPrvExportPubKeyDer P xSession xPubKeyHandle (w\<lparr>tok := s\<rparr>) }
                else Some (xResult, None, w\<lparr>tok := s\<rparr>))
        else Some (xResult, None, w));
     Some (xPrvCkRvToPkiStatus xResult, der, close_session P xSession w)
   }"

text \<open>When a session was opened, the status is that of closing it.\<close>

definition xPkcs11ReadPublicKey ::
  "'s p11_ops \<Rightarrow> string option \<Rightarrow> 's p11_world \<Rightarrow> (PkiStatus_t \<times> byte list option \<times> 's p11_world) option" where
  "xPkcs11ReadPublicKey P pcPubKeyLabel w =
     (case pcPubKeyLabel of
        None \<Rightarrow> Some (PKI_ERR_ARG_INVALID, None, w)
      | Some label \<Rightarrow>
          (let n = length (c_str label) in
           if n = 0 \<or> n > pkcs11configMAX_LABEL_LENGTH P then Some (PKI_ERR_ARG_INVALID, None, w)
           else if function_list P \<noteq> CKR_OK then Some (xPrvCkRvToPkiStatus (function_list P), None, w)
           else (case open_session P w of
             (xResult, xSession, w) \<Rightarrow> do {
               (xStatus, der, w) \<leftarrow>
                 (if xPrvCkRvToPkiStatus xResult \<noteq> PKI_SUCCESS then Some (xPrvCkRvToPkiStatus xResult, None, w)
                  else (case xFindObjectWithLabelAndClass P xSession (c_str label) CKO_PUBLIC_KEY (tok w) of
                    (xResult, xPubKeyHandle) \<Rightarrow>
                      if xPrvCkRvToPkiStatus xResult \<noteq> PKI_SUCCESS then Some (xPrvCkRvToPkiStatus xResult, None, w)
                      else do {
                        (xResult, der, w) \<leftarrow> xPrvExportPubKeyDer P xSession xPubKeyHandle w;
                        Some (xPrvCkRvToPkiStatus xResult, der, w)
                      }));
               let xStatus = (if xSession \<noteq> 0 then xPrvCkRvToPkiStatus (fst (C_CloseSession P xSession (tok w))) else xStatus);
               Some (xStatus, der, close_session P xSession w)
             })))"

definition xPkcs11WritePubKey :: "'s p11_ops \<Rightarrow> string option \<Rightarrow> p11_pub_key \<Rightarrow> 's p11_world \<Rightarrow> (PkiStatus_t \<times> 's p11_world) option" where
  "xPkcs11WritePubKey P pcLabel key w = write_object P CKO_PUBLIC_KEY (lWriteEcPublicKeyToPKCS11 P key) pcLabel w"

subsection \<open>What a token promises\<close>

text \<open>\<open>holds\<close> gives the value of the certificate and the point of the public key with a label. While a session is open objects are found by class and
  label, with the handle 0 when there is none; an attribute of the handle 0 is an error; destroying and creating change the one object.
  Opening and closing sessions change no object.\<close>

type_synonym objects = "CK_OBJECT_CLASS \<times> string \<rightharpoonup> byte list"

definition value_of :: "CK_OBJECT_CLASS \<Rightarrow> CK_ATTRIBUTE_TYPE" where
  "value_of cl = (if cl = CKO_CERTIFICATE then CKA_VALUE else CKA_EC_POINT)"

definition opens :: "'s p11_ops \<Rightarrow> ('s \<Rightarrow> objects) \<Rightarrow> (nat \<Rightarrow> 's \<Rightarrow> bool) \<Rightarrow> bool" where
  "opens P holds opened \<longleftrightarrow>
     (\<forall>s r h s'. xInitializePkcs11Session P s = (r, h, s') \<longrightarrow> r = CKR_OK \<and> h \<noteq> 0 \<and> opened h s' \<and> holds s' = holds s) \<and>
     (\<forall>s h. holds (snd (C_CloseSession P h s)) = holds s)"

definition finds :: "'s p11_ops \<Rightarrow> ('s \<Rightarrow> objects) \<Rightarrow> (nat \<Rightarrow> 's \<Rightarrow> bool) \<Rightarrow> bool" where
  "finds P holds opened \<longleftrightarrow>
     (\<forall>s h cl l. opened h s \<longrightarrow>
        (case holds s (cl, l) of
           None \<Rightarrow> xFindObjectWithLabelAndClass P h l cl s = (CKR_OK, 0)
         | Some v \<Rightarrow> \<exists>i. i \<noteq> 0 \<and> xFindObjectWithLabelAndClass P h l cl s = (CKR_OK, i) \<and>
             C_GetAttributeValue P h i (value_of cl) s = (CKR_OK, v))) \<and>
     (\<forall>s h a. opened h s \<longrightarrow> C_GetAttributeValue P h 0 a s = (CKR_OBJECT_HANDLE_INVALID, []))"

definition changes :: "'s p11_ops \<Rightarrow> ('s \<Rightarrow> objects) \<Rightarrow> (nat \<Rightarrow> 's \<Rightarrow> bool) \<Rightarrow> bool" where
  "changes P holds opened \<longleftrightarrow>
     (\<forall>s h cl l i r s'. opened h s \<longrightarrow> i \<noteq> 0 \<longrightarrow> xFindObjectWithLabelAndClass P h l cl s = (CKR_OK, i) \<longrightarrow>
        C_DestroyObject P h i s = (r, s') \<longrightarrow> opened h s' \<and> (r = CKR_OK \<longrightarrow> holds s' = (holds s)((cl, l) := None))) \<and>
     (\<forall>s h t cl l v r i s'. opened h s \<longrightarrow> C_CreateObject P h t s = (r, i, s') \<longrightarrow>
        map_of t CKA_CLASS = Some (VClass cl) \<longrightarrow> map_of t CKA_LABEL = Some (VLabel l) \<longrightarrow> map_of t (value_of cl) = Some (VBytes v) \<longrightarrow>
        r = CKR_OK \<longrightarrow> holds s' = (holds s)((cl, l) \<mapsto> v))"

definition token_spec :: "'s p11_ops \<Rightarrow> ('s \<Rightarrow> objects) \<Rightarrow> (nat \<Rightarrow> 's \<Rightarrow> bool) \<Rightarrow> bool" where
  "token_spec P holds opened \<longleftrightarrow> function_list P = CKR_OK \<and> opens P holds opened \<and> finds P holds opened \<and> changes P holds opened"

lemma token_session:
  assumes "token_spec P holds opened" "open_session P w = (r, h, w')"
  shows "r = CKR_OK" "h \<noteq> 0" "opened h (tok w')" "holds (tok w') = holds (tok w)" "blocks w' = blocks w"
  using assms by (auto simp: token_spec_def opens_def open_session_def split: prod.splits)

lemma token_close:
  "token_spec P holds opened \<Longrightarrow> holds (tok (close_session P h w)) = holds (tok w)"
  by (simp add: token_spec_def opens_def close_session_def)

lemma token_find:
  assumes "token_spec P holds opened" "opened h s"
  shows "case holds s (cl, l) of
      None \<Rightarrow> xFindObjectWithLabelAndClass P h l cl s = (CKR_OK, 0)
    | Some v \<Rightarrow> \<exists>i. i \<noteq> 0 \<and> xFindObjectWithLabelAndClass P h l cl s = (CKR_OK, i) \<and> C_GetAttributeValue P h i (value_of cl) s = (CKR_OK, v)"
proof -
  have "finds P holds opened" using assms(1) by (simp add: token_spec_def)
  from this [unfolded finds_def, THEN conjunct1, THEN spec, THEN spec, THEN spec, THEN spec, THEN mp, OF assms(2)] show ?thesis .
qed

lemma token_find_none:
  "token_spec P holds opened \<Longrightarrow> opened h s \<Longrightarrow> holds s (cl, l) = None \<Longrightarrow> xFindObjectWithLabelAndClass P h l cl s = (CKR_OK, 0)"
  using token_find [where cl = cl and l = l and s = s and h = h and P = P] by fastforce

lemma token_find_some:
  assumes "token_spec P holds opened" "opened h s" "holds s (cl, l) = Some v"
  obtains i where "i \<noteq> 0" "xFindObjectWithLabelAndClass P h l cl s = (CKR_OK, i)" "C_GetAttributeValue P h i (value_of cl) s = (CKR_OK, v)"
proof -
  have "\<exists>i. i \<noteq> 0 \<and> xFindObjectWithLabelAndClass P h l cl s = (CKR_OK, i) \<and> C_GetAttributeValue P h i (value_of cl) s = (CKR_OK, v)"
    using token_find [OF assms(1,2), where cl = cl and l = l] assms(3) by simp
  then show ?thesis using that by blast
qed

lemma token_invalid_handle:
  "token_spec P holds opened \<Longrightarrow> opened h s \<Longrightarrow> C_GetAttributeValue P h 0 a s = (CKR_OBJECT_HANDLE_INVALID, [])"
  by (simp add: token_spec_def finds_def)

lemma token_destroy:
  assumes "token_spec P holds opened" "opened h (tok w)" "destroy_found P h l cl w = (r, w')"
  shows "opened h (tok w')" "r = CKR_OK \<Longrightarrow> holds (tok w') = (holds (tok w))((cl, l) := None)"
proof -
  have "opened h (tok w') \<and> (r = CKR_OK \<longrightarrow> holds (tok w') = (holds (tok w))((cl, l) := None))"
  proof (cases "holds (tok w) (cl, l)")
    case None
    then show ?thesis using assms token_find_none [OF assms(1,2) None] by (auto simp: destroy_found_def fun_upd_idem)
  next
    case (Some v)
    obtain i where i: "i \<noteq> 0" "xFindObjectWithLabelAndClass P h l cl (tok w) = (CKR_OK, i)" using token_find_some [OF assms(1,2) Some] by blast
    moreover obtain r' s' where d: "C_DestroyObject P h i (tok w) = (r', s')" by (rule prod.exhaust)
    moreover have "opened h s' \<and> (r' = CKR_OK \<longrightarrow> holds s' = (holds (tok w))((cl, l) := None))"
      using assms(1,2) i d unfolding token_spec_def changes_def by blast
    ultimately show ?thesis using assms(3) by (auto simp: destroy_found_def)
  qed
  then show "opened h (tok w')" "r = CKR_OK \<Longrightarrow> holds (tok w') = (holds (tok w))((cl, l) := None)" by blast+
qed

lemma token_create:
  assumes "token_spec P holds opened" "opened h (tok w)" "create_object P h t w = (r, w')"
    and "map_of t CKA_CLASS = Some (VClass cl)" "map_of t CKA_LABEL = Some (VLabel l)" "map_of t (value_of cl) = Some (VBytes v)" "r = CKR_OK"
  shows "holds (tok w') = (holds (tok w))((cl, l) \<mapsto> v)"
proof -
  obtain r' i s' where c: "C_CreateObject P h t (tok w) = (r', i, s')" by (metis prod.exhaust)
  then have "r' = CKR_OK" "tok w' = s'" using assms(3,7) by (auto simp: create_object_def)
  then show ?thesis using assms(1,2,4-6) c unfolding token_spec_def changes_def by blast
qed

end
