(* ===== verification/P11Spec.thy ===== *)
theory P11Spec
  imports P11Obj
begin

text \<open>
  What the PKI objects in a PKCS #11 token guarantee, over any token that keeps \<open>token_spec\<close>: a certificate that was written
  is read back, and what is reported for objects that do not exist.
\<close>

definition good_label :: "'s p11_ops \<Rightarrow> string \<Rightarrow> bool" where
  "good_label P l \<longleftrightarrow> c_string l \<and> l \<noteq> [] \<and> length l \<le> pkcs11configMAX_LABEL_LENGTH P"

lemma good_label_len:
  assumes "good_label P l"
  shows "c_str l = l" "label_len P (Some l) = length l" "0 < length l"
  using assms by (auto simp: good_label_def label_len_def)

lemma ckr_status_success [simp]: "xPrvCkRvToPkiStatus r = PKI_SUCCESS \<longleftrightarrow> r = CKR_OK"
  by (simp add: xPrvCkRvToPkiStatus.simps)

lemma ckr_status_ok [simp]: "xPrvCkRvToPkiStatus 0 = PKI_SUCCESS"
  by (simp add: xPrvCkRvToPkiStatus.simps)

lemma zero_or_minus_one_success [simp]: "xPrvMbedtlsErrToPkiStatus (zero_or_minus_one r) = PKI_SUCCESS \<longleftrightarrow> r = CKR_OK"
  by (simp add: zero_or_minus_one_def)

text \<open>Writing, on an open session.\<close>

lemma write_certificate_session:
  assumes spec: "token_spec P holds opened" and l: "good_label P l" and op: "opened h (tok w)" "h \<noteq> 0" and raw: "raw \<noteq> []"
  obtains r w' where "lWriteCertificateToPKCS11 P raw h l (length l) w = Some (zero_or_minus_one r, w')"
    "r = CKR_OK \<Longrightarrow> holds (tok w') = (holds (tok w))((CKO_CERTIFICATE, l) \<mapsto> raw)"
proof -
  obtain r1 w1 where d: "destroy_found P h l CKO_CERTIFICATE w = (r1, w1)" by (rule prod.exhaust)
  note D = token_destroy [OF spec op(1) d]
  let ?t = "[(CKA_CLASS, VClass CKO_CERTIFICATE), (CKA_LABEL, VLabel l), (CKA_CERTIFICATE_TYPE, VType CKC_X_509), (CKA_TOKEN, VTrue), (CKA_VALUE, VBytes raw)]"
  obtain r2 w2 where c: "create_object P h ?t w1 = (r2, w2)" by (rule prod.exhaust)
  have fl: "function_list P = CKR_OK" using spec by (simp add: token_spec_def)
  show ?thesis
  proof (cases "r1 = CKR_OK")
    case True
    have "r2 = CKR_OK \<Longrightarrow> holds (tok w2) = (holds (tok w))((CKO_CERTIFICATE, l) \<mapsto> raw)"
      using token_create [OF spec D(1) c, of CKO_CERTIFICATE l raw] D(2) True by (simp add: value_of_def)
    moreover have "lWriteCertificateToPKCS11 P raw h l (length l) w = Some (zero_or_minus_one r2, w2)"
      using True d c fl op(2) raw good_label_len [OF l] by (simp add: lWriteCertificateToPKCS11_def)
    ultimately show ?thesis using that by blast
  next
    case False
    then show ?thesis using that [of r1 w1] d fl op(2) raw good_label_len [OF l] by (simp add: lWriteCertificateToPKCS11_def)
  qed
qed

lemma write_certificate:
  assumes spec: "token_spec P holds opened" and l: "good_label P l" and raw: "raw \<noteq> []"
  obtains st w' where "xPkcs11WriteCertificate P (Some l) raw w = Some (st, w')"
    "st = PKI_SUCCESS \<Longrightarrow> holds (tok w') = (holds (tok w))((CKO_CERTIFICATE, l) \<mapsto> raw)"
proof -
  have fl: "function_list P = CKR_OK" using spec by (simp add: token_spec_def)
  obtain r h w1 where o: "open_session P w = (r, h, w1)" by (metis prod.exhaust)
  note O = token_session [OF spec o]
  note L = good_label_len [OF l]
  obtain r2 w2 where d: "destroy_found P h l CKO_CERTIFICATE w1 = (r2, w2)" by (rule prod.exhaust)
  note D = token_destroy [OF spec O(3) d]
  have x: "xPrvDestoryObject P h CKO_CERTIFICATE l (length l) w1 = Some (r2, w2)" using O(2) L fl d by (simp add: xPrvDestoryObject_def)
  show ?thesis
  proof (cases "r2 = CKR_OK")
    case False
    then show ?thesis using that [of "xPrvCkRvToPkiStatus r2" "close_session P h w2"] o O L fl x
      by (simp add: xPkcs11WriteCertificate_def write_object_def Let_def)
  next
    case True
    obtain r3 w3 where wr: "lWriteCertificateToPKCS11 P raw h l (length l) w2 = Some (zero_or_minus_one r3, w3)"
      "r3 = CKR_OK \<Longrightarrow> holds (tok w3) = (holds (tok w2))((CKO_CERTIFICATE, l) \<mapsto> raw)"
      using write_certificate_session [OF spec l D(1) O(2) raw] by blast
    have "xPkcs11WriteCertificate P (Some l) raw w = Some (xPrvMbedtlsErrToPkiStatus (zero_or_minus_one r3), close_session P h w3)"
      using o O(1) L fl x True wr(1) by (simp add: xPkcs11WriteCertificate_def write_object_def Let_def)
    moreover have "holds (tok (close_session P h w3)) = (holds (tok w))((CKO_CERTIFICATE, l) \<mapsto> raw)"
      if "xPrvMbedtlsErrToPkiStatus (zero_or_minus_one r3) = PKI_SUCCESS"
    proof -
      have "r3 = CKR_OK" using that by (simp only: zero_or_minus_one_success)
      then show ?thesis using wr(2) D(2) True O(4) token_close [OF spec] by simp
    qed
    ultimately show ?thesis using that by blast
  qed
qed

text \<open>Reading: an object that is there goes to the parser; for one that is not, the error code of the token, a positive number, is taken for
  the number of certificates that could not be parsed.\<close>

lemma read_certificate:
  assumes spec: "token_spec P holds opened" and l: "good_label P l" and heap: "\<forall>n sz. calloc_p11 P n sz"
    and bytes: "\<forall>bs. holds (tok w) (CKO_CERTIFICATE, l) = Some bs \<longrightarrow> bs \<noteq> []"
  shows "\<exists>w'. xPkcs11ReadCertificate P chain (Some l) w =
      Some (case holds (tok w) (CKO_CERTIFICATE, l) of
              None \<Rightarrow> (PKI_SUCCESS, [], w')
            | Some bs \<Rightarrow> (xPrvMbedtlsErrToPkiStatus (fst (x509_crt_parse P bs)), snd (x509_crt_parse P bs), w')) \<and>
    holds (tok w') = holds (tok w)"
proof -
  have fl: "function_list P = CKR_OK" using spec by (simp add: token_spec_def)
  obtain r h w1 where o: "open_session P w = (r, h, w1)" by (metis prod.exhaust)
  note O = token_session [OF spec o]
  note L = good_label_len [OF l]
  have max: "length l \<le> pkcs11configMAX_LABEL_LENGTH P" using l by (simp add: good_label_def)
  have "lReadCertificateFromPKCS11 P [] h l (length l) w1 =
      Some (case holds (tok w) (CKO_CERTIFICATE, l) of
              None \<Rightarrow> (MBEDTLS_POSITIVE CKR_OBJECT_HANDLE_INVALID, [], w1)
            | Some bs \<Rightarrow> (fst (x509_crt_parse P bs), snd (x509_crt_parse P bs), w1))"
  proof (cases "holds (tok w) (CKO_CERTIFICATE, l)")
    case None
    then have "holds (tok w1) (CKO_CERTIFICATE, l) = None" using O(4) by simp
    from token_find_none [OF spec O(3) this] token_invalid_handle [OF spec O(3)] None O(2) L max fl show ?thesis
      by (simp add: lReadCertificateFromPKCS11_def err_of_ckr_def)
  next
    case (Some bs)
    then have "holds (tok w1) (CKO_CERTIFICATE, l) = Some bs" using O(4) by simp
    then obtain i where "i \<noteq> 0" "xFindObjectWithLabelAndClass P h l CKO_CERTIFICATE (tok w1) = (CKR_OK, i)"
      "C_GetAttributeValue P h i (value_of CKO_CERTIFICATE) (tok w1) = (CKR_OK, bs)" by (rule token_find_some [OF spec O(3)])
    then show ?thesis using Some bytes heap O(2) L max fl
      by (simp add: lReadCertificateFromPKCS11_def value_of_def split: prod.splits)
  qed
  then show ?thesis using o O(1,4) L fl token_close [OF spec]
    by (intro exI [of _ "close_session P h w1"]) (auto simp: xPkcs11ReadCertificate_def Let_def split: option.splits)
qed

text \<open>
  C27. With a token that keeps what it is given and a heap with room, writing a certificate returns; when it reports success, the certificate is read back
  under its label and every other label reads as before. Reading a label without a certificate also reports success, with an empty chain: the
  token's error code is positive, and a positive result counts as success.
\<close>

theorem p11_certificate_read_back:
  assumes "token_spec P holds opened" "\<forall>n sz. calloc_p11 P n sz" "\<forall>k bs. holds (tok w) k = Some bs \<longrightarrow> bs \<noteq> []"
    and "good_label P l" "good_label P l'" "raw \<noteq> []"
  shows "\<exists>st w1. xPkcs11WriteCertificate P (Some l) raw w = Some (st, w1) \<and> (st = PKI_SUCCESS \<longrightarrow>
    (\<exists>w2. xPkcs11ReadCertificate P chain (Some l') w1 =
       Some (case (if l' = l then Some raw else holds (tok w) (CKO_CERTIFICATE, l')) of
               None \<Rightarrow> (PKI_SUCCESS, [], w2)
             | Some bs \<Rightarrow> (xPrvMbedtlsErrToPkiStatus (fst (x509_crt_parse P bs)), snd (x509_crt_parse P bs), w2))))"
proof -
  obtain st w1 where w1: "xPkcs11WriteCertificate P (Some l) raw w = Some (st, w1)"
    "st = PKI_SUCCESS \<Longrightarrow> holds (tok w1) = (holds (tok w))((CKO_CERTIFICATE, l) \<mapsto> raw)"
    using write_certificate [OF assms(1,4,6), of w] by blast
  have "\<exists>w2. xPkcs11ReadCertificate P chain (Some l') w1 =
       Some (case (if l' = l then Some raw else holds (tok w) (CKO_CERTIFICATE, l')) of
               None \<Rightarrow> (PKI_SUCCESS, [], w2)
             | Some bs \<Rightarrow> (xPrvMbedtlsErrToPkiStatus (fst (x509_crt_parse P bs)), snd (x509_crt_parse P bs), w2))"
    if "st = PKI_SUCCESS"
  proof -
    have h: "holds (tok w1) (CKO_CERTIFICATE, l') = (if l' = l then Some raw else holds (tok w) (CKO_CERTIFICATE, l'))"
      using w1(2) [OF that] by simp
    then have "\<forall>bs. holds (tok w1) (CKO_CERTIFICATE, l') = Some bs \<longrightarrow> bs \<noteq> []" using assms(3,6) by (auto split: if_splits)
    from read_certificate [OF assms(1,5,2) this, of chain] show ?thesis unfolding h by blast
  qed
  with w1(1) show ?thesis by blast
qed

text \<open>Reading a public key reports what closing the session reports, also when there is no such key.\<close>

lemma p11_public_key_status:
  assumes "token_spec P holds opened" "good_label P l" "\<forall>h s. fst (C_CloseSession P h s) = CKR_OK" "xPkcs11ReadPublicKey P (Some l) w = Some (st, der, w')"
  shows "st = PKI_SUCCESS"
proof -
  obtain r h w1 where o: "open_session P w = (r, h, w1)" by (metis prod.exhaust)
  note O = token_session [OF assms(1) o]
  show ?thesis using assms(2,3,4) O(2) o assms(1) good_label_len [OF assms(2)]
    by (auto simp: xPkcs11ReadPublicKey_def Let_def bind_eq_Some_conv token_spec_def good_label_def split: prod.splits)
qed

text \<open>The document of a public key of P-256 has a byte behind it that does not belong to it.\<close>

lemma p11_export_one_byte_more:
  assumes "function_list P = CKR_OK" "\<forall>n sz. calloc_p11 P n sz"
    and "C_GetAttributeValue P h i CKA_EC_POINT (tok w) = (CKR_OK, 0x04 # 0x41 # pt)" "length pt = 65"
  shows "xPrvExportPubKeyDer P h i w = Some (CKR_OK, Some (pucEcP256AsnAndOid @ pt @ [0]), w\<lparr>blocks := blocks w + 1\<rparr>)"
  using assms by (simp add: xPrvExportPubKeyDer_def pucEcP256AsnAndOid_def overwrite_def)

text \<open>A point of more than 127 bytes gets a length byte that means something else.\<close>

lemma p11_long_point:
  assumes "is_eckey key" "ec_point key = Some pt" "127 < length pt" "length pt \<le> 255" "\<forall>n sz. calloc_p11 P n sz"
  shows "\<exists>b. ec_point_octets P key w = Inr (0x04 # b # pt) \<and> bit b 7"
proof -
  have "bit (of_nat (length pt) :: byte) 7" using assms(3,4) top_bit [of "of_nat (length pt)"] by (simp add: word_less_nat_alt unat_of_nat)
  then show ?thesis using assms by (simp add: ec_point_octets_def)
qed

subsection \<open>An example\<close>

text \<open>A token with room for one object, whose handle is 1.\<close>

type_synonym ex_token = "((CK_OBJECT_CLASS \<times> string) \<times> byte list) option"

definition ex_create :: "template \<Rightarrow> ex_token \<Rightarrow> CK_RV \<times> nat \<times> ex_token" where
  "ex_create t s =
     (case (map_of t CKA_CLASS, map_of t CKA_LABEL) of
        (Some (VClass cl), Some (VLabel l)) \<Rightarrow>
          (case map_of t (value_of cl) of
             Some (VBytes v) \<Rightarrow> if s = None then (CKR_OK, 1, Some ((cl, l), v)) else (0x31, 0, s)
           | _ \<Rightarrow> (0xD0, 0, s))
      | _ \<Rightarrow> (0xD0, 0, s))"

definition ex_p11 :: "ex_token p11_ops" where
  "ex_p11 = \<lparr>function_list = CKR_OK, xInitializePkcs11Session = (\<lambda>s. (CKR_OK, 1, s)), C_CloseSession = (\<lambda>h s. (CKR_OK, s)),
     xFindObjectWithLabelAndClass = (\<lambda>h l cl s. (CKR_OK, case s of Some (k, v) \<Rightarrow> if k = (cl, l) then 1 else 0 | None \<Rightarrow> 0)),
     C_GetAttributeValue = (\<lambda>h i a s. case s of Some (k, v) \<Rightarrow> if i = 1 then (CKR_OK, v) else (CKR_OBJECT_HANDLE_INVALID, [])
       | None \<Rightarrow> (CKR_OBJECT_HANDLE_INVALID, [])),
     C_CreateObject = (\<lambda>h. ex_create), C_DestroyObject = (\<lambda>h i s. (CKR_OK, None)),
     C_GenerateKeyPair = (\<lambda>h a b s. (CKR_FUNCTION_FAILED, 0, 0, s)), C_GenerateRandom = (\<lambda>h n s. (CKR_OK, replicate n 7, s)),
     C_SignInit = (\<lambda>h i s. (CKR_FUNCTION_FAILED, s)), C_Sign = (\<lambda>h bs n s. (CKR_FUNCTION_FAILED, [], s)),
     calloc_p11 = (\<lambda>n sz. True), x509_crt_parse = (\<lambda>bs. (MBEDTLS_OK, [bs])), pkcs11configMAX_LABEL_LENGTH = 32\<rparr>"

definition ex_holds :: "ex_token \<Rightarrow> objects" where
  "ex_holds s = (case s of None \<Rightarrow> Map.empty | Some (k, v) \<Rightarrow> [k \<mapsto> v])"

lemma ex_p11_spec: "token_spec ex_p11 ex_holds (\<lambda>h s. h = 1)"
proof -
  have "opens ex_p11 ex_holds (\<lambda>h s. h = 1)" by (simp add: opens_def ex_p11_def)
  moreover have "finds ex_p11 ex_holds (\<lambda>h s. h = 1)" by (auto simp: finds_def ex_p11_def ex_holds_def split: option.splits)
  moreover have "changes ex_p11 ex_holds (\<lambda>h s. h = 1)"
    by (auto simp: changes_def ex_p11_def ex_holds_def ex_create_def split: option.splits if_splits)
  ultimately show ?thesis by (simp add: token_spec_def ex_p11_def)
qed

theorem p11_certificate_read_back_witness:
  "\<exists>w1 w2 w3. xPkcs11WriteCertificate ex_p11 (Some ''cert'') [1, 2] \<lparr>tok = None, blocks = 0\<rparr> = Some (PKI_SUCCESS, w1) \<and>
     xPkcs11ReadCertificate ex_p11 [] (Some ''cert'') w1 = Some (PKI_SUCCESS, [[1, 2]], w2) \<and>
     xPkcs11ReadCertificate ex_p11 [] (Some ''root'') w1 = Some (PKI_SUCCESS, [], w3)"
proof -
  let ?w = "\<lparr>tok = None, blocks = 0\<rparr> :: ex_token p11_world"
  have heap: "\<forall>n sz. calloc_p11 ex_p11 n sz" and parse: "x509_crt_parse ex_p11 = (\<lambda>bs. (MBEDTLS_OK, [bs]))" by (simp_all add: ex_p11_def)
  have empty: "ex_holds (tok ?w) = Map.empty" by (simp add: ex_holds_def)
  then have ne: "\<forall>k bs. ex_holds (tok ?w) k = Some bs \<longrightarrow> bs \<noteq> []" by simp
  have l: "good_label ex_p11 ''cert''" "good_label ex_p11 ''root''" by (simp_all add: good_label_def c_string_def ex_p11_def)
  obtain w1 where w1: "xPkcs11WriteCertificate ex_p11 (Some ''cert'') [1, 2] ?w = Some (PKI_SUCCESS, w1)"
    using l(1) by (simp add: xPkcs11WriteCertificate_def write_object_def label_len_def c_str_def open_session_def close_session_def xPrvDestoryObject_def destroy_found_def
      lWriteCertificateToPKCS11_def create_object_def ex_p11_def ex_create_def value_of_def zero_or_minus_one_def Let_def)
  note t = p11_certificate_read_back [OF ex_p11_spec heap ne l(1)]
  from t [OF l(1), of "[1, 2]" "[]"] t [OF l(2), of "[1, 2]" "[]"] show ?thesis
    using w1 parse empty by (auto simp: ex_holds_def)
qed

end
