(* ===== verification/Spec2Isabelle.thy ===== *)
theory Spec2Isabelle
  imports KvSpec OtaSpec SubSpec AgentQueue AgentTask AgentConfig Cli CliConf Console Logging
    LfsCrc LfsUtil LfsPort PsaPkSpec NewlibHeap TlsConfig OtaTaskSpec CliPkiSpec
    ShadowSpec DefenderTaskSpec MotionSensors CliUtilsSpec
    AgentStart TlsLog StartUp CliRng MbedtlsPort ConsoleTx OtaTables ByteQueue P11Spec
begin

text \<open>
  A verification library for the firmware of an IoT device on the Renesas RX65N
  (\<open>src/source\<close>, \<open>src/target/rx65n\<close>).

  \<^bold>\<open>The program.\<close> The device keeps its settings in a key/value store, connects to an MQTT broker
  with them over TLS, lets its tasks subscribe to topics through an agent, receives firmware updates over the
  connection and has a command line on a serial port. The parts modelled here and how they meet:

  \<^item> The \<^emph>\<open>key/value store\<close> (\<open>kvstore.c\<close>) reads and writes entries of a RAM cache
    (\<open>kvstore_cache.c\<close>); a commit writes the changed entries to files of littlefs
    (\<open>kvstore_nv_littlefs.c\<close>), and a start reads them back.
  \<^item> The \<^emph>\<open>file system port\<close> (\<open>lfs_port_ospi.c\<close>, \<open>lfs_port_prv.c\<close>, \<open>lfs_config.h\<close>) gives littlefs its block
    device, its lock, its CRC and its bit operations.
  \<^item> The \<^emph>\<open>OTA port\<close> (\<open>ota_pal_rx65n.c\<close>) receives blocks of an image, collects fragments until they
    fill a page, hands pages to a flashing task through a queue, and on closing checks the signature
    and writes the firmware header.
  \<^item> The \<^emph>\<open>MQTT agent\<close> (\<open>mqtt_agent_task.c\<close>, \<open>freertos_command_pool.c\<close>) is configured from the
    key/value store, holds the tables of subscriptions and callbacks under a mutex, and reconnects in
    a loop. The \<^emph>\<open>OTA task\<close> (\<open>ota_update_task.c\<close>) is its client: it subscribes to the job topics, hands
    every job document and block that comes in to the OTA agent through a pool of buffers, and acts on
    what the agent reports. So are the demos: the \<^emph>\<open>shadow task\<close> (\<open>shadow_device_task.c\<close>) keeps a state of the device and
    one in the cloud equal, the \<^emph>\<open>defender task\<close> (\<open>defender_task.c\<close>, \<open>defender_metrics_collector_lwip.c\<close>) reports the state of the
    network, the \<^emph>\<open>sensor task\<close> (\<open>motion_sensors_publish.c\<close>) what the sensors read.
  \<^item> The \<^emph>\<open>TLS transport\<close> (\<open>mbedtls_transport.c\<close>) is the connection of the agent: it is configured with
    certificates and keys, owns a socket, and has a thread that tells the agent when data has come.
  \<^item> The \<^emph>\<open>PKI objects\<close> (\<open>PkiObject.c\<close>, \<open>PkiObjectPsa.c\<close>, \<open>mbedtls_pk_psa.c\<close>, \<open>psa_util.c\<close>) are the
    certificates and keys by label, in buffers, in the storage services of PSA or in the slots of its key service.
    In another configuration they are in a PKCS #11 token (\<open>PkiObjectPkcs11.c\<close>, \<open>mbedtls_pk_pkcs11.c\<close>).
  \<^item> The \<^emph>\<open>command line\<close> (\<open>cli_main.c\<close>, \<open>cli_conf.c\<close>) splits lines into words, finds the command, and
    with \<open>conf\<close> reads, changes and commits the key/value store. Its lines come from the \<^emph>\<open>console\<close>
    (\<open>cli_uart_drv.c\<close>), which edits them and merges the lines of the \<^emph>\<open>log\<close> (\<open>logging.c\<close>) into the output. With
    \<open>pki\<close> (\<open>cli_pki.c\<close>) keys, requests and certificates are made, printed as PEM text and read back. The commands of
    \<open>cli_utils.c\<close> show and signal the tasks and show the heap, \<open>rngtest\<close> (\<open>cli_rngtest.c\<close>) prints random bytes.
  \<^item> The C library and Mbed TLS allocate from the heap of the kernel (\<open>newlibc_stubs.c\<close>, \<open>mbedtls_freertos_port.c\<close>).
  \<^item> The \<^emph>\<open>start\<close> (\<open>app_main.c\<close>) mounts the file system, loads the store and starts all the tasks; the kernel and the network stack
    call hooks (\<open>freertos_kernel_hooks.c\<close>, \<open>freertos_tcp_hooks.c\<close>).

  \<^bold>\<open>Conventions.\<close> A definition has the name of the C function it translates; parts of a long
  function have names of their own and are composed as the function composes them. State is passed
  explicitly in records with the names of the C fields. \<open>None\<close> as the result of an operation stands
  for a call that does not return normally: a failed \<open>configASSERT\<close>, which spins, an access outside
  an object, or waiting for ever. Errors the code reports are values. 32 bit quantities are words or
  naturals with the wrap-around written out. A pointer is an index, an address or the rest of a list,
  as the theory at hand says. Code that is not in the repository (littlefs, the kernel, the heap, the
  network stack, Mbed TLS, PSA, the MQTT library, CBOR, JSON) and the flash driver, which is vendored, are arguments, and what their
  documentation promises is a named predicate: \<open>malloc_spec\<close>, \<open>lfs_spec\<close>, \<open>flash_spec\<close>, \<open>nor_flash\<close>, \<open>mallocs_ok\<close>,
  \<open>alloc_spec\<close>, \<open>rtos_spec\<close>, \<open>stream_spec\<close>, \<open>storage_spec\<close>, \<open>base64_spec\<close>,
  \<open>cbor_spec\<close>, \<open>der_writers\<close>, \<open>slots_work\<close>, \<open>lookups_work\<close>, \<open>token_spec\<close>. Every such predicate is shown to hold of a
  concrete instance in a witness.

  \<^bold>\<open>Theories.\<close>

  \<^item> \<open>Prelude\<close>: buffers, little-endian words, C strings, decimal numbers, array access; shared lemmas. \<open>CLib\<close>: reading and
    printing numbers as the C library does.
  \<^item> \<open>KvStore\<close>: keys, types, defaults and the public operations of \<open>kvstore.c\<close>, over two functions
    for reading and writing an entry; the locale \<open>kv_backend\<close> says what they promise. \<open>KvCache\<close>:
    \<open>kvstore_cache.c\<close> with its heap, the invariant \<open>cache_inv\<close>, the view \<open>kv_view\<close>, and the
    interpretation of \<open>kv_backend\<close>. \<open>KvPersist\<close>: commit and start as clients of a storage, the locale
    \<open>kv_storage\<close>. \<open>KvNv\<close>: \<open>kvstore_nv_littlefs.c\<close>, which interprets it. \<open>KvSpec\<close>: a committed
    string survives a restart; set and get are inverse; setting returns; and what goes wrong.
  \<^item> \<open>LfsCrc\<close>: the table CRC equals division by the polynomial bit by bit, and finds every burst of errors in
    four bytes. \<open>LfsUtil\<close>: the bit operations, with what they compute. \<open>LfsPort\<close>: the block device over a NOR flash;
    an erased block that is programmed reads back as it was programmed.
  \<^item> \<open>OtaFrag\<close>: the list of fragments and its assembly. \<open>OtaFlash\<close>: \<open>otaPal_WriteBlock\<close>, the queue
    and the flashing task. \<open>OtaPal\<close>: the file operations, signature check, header and image states.
    \<open>OtaSpec\<close>: blocks in any order reach the flash; a file is closed with success only with a
    verified signature; the header holds the signature; failures keep the header; and what goes wrong.
  \<^item> \<open>Slots\<close>: in-place compaction of a table, with the locale \<open>slot_table\<close>. \<open>SubMgr\<close>: the subscription
    manager. \<open>SubSpec\<close>: the invariant \<open>sub_wf\<close>, both interpretations of \<open>slot_table\<close>, delivery after
    subscribing, removal, compaction that keeps deliveries, and where the searches go wrong.
  \<^item> \<open>AgentQueue\<close>: the command pool, whose commands are conserved in every run (\<open>pool_run\<close>), and the
    message interface. \<open>AgentTask\<close>: the rounds of the reconnect loop, the states at its head
    (\<open>agent_reach\<close>), who holds the mutex when. \<open>AgentConfig\<close>: the configuration from the store. \<open>AgentStart\<close>: the whole task
    around these rounds, the functions other tasks wait with, and what the task leaves behind when it ends.
  \<^item> \<open>OtaTask\<close>: the pool of event buffers, the callbacks of the publishes and of the agent, the MQTT
    functions the agent is given, the start and the end of the task. \<open>OtaTaskSpec\<close>: what waits in the queue of the agent stays
    as it came; after the task has ended a job message stops the MQTT agent. \<open>OtaTables\<close>: the functions and buffers the library is given.
  \<^item> \<open>ShadowTask\<close>, \<open>ShadowSpec\<close>: the shadow task; an answered report makes the two states equal, and the report is a whole document
    for states of one digit. \<open>DefenderMetrics\<close>: the collector and the report; \<open>DefenderSpec\<close>: the report as a tree, the
    steps of the code as combinations with one rule each (\<open>emits_rules\<close>), and the report that fits is that tree.
    \<open>DefenderTask\<close>, \<open>DefenderTaskSpec\<close>: the rounds of the task, what it takes for an answer, and when it sends nothing.
    \<open>MotionSensors\<close>: the sensor task and what it publishes.
  \<^item> \<open>TlsNotify\<close>: the notify thread as a step function, and when stopping it ends. \<open>TlsSocket\<close>: the callbacks Mbed TLS
    uses on the socket. \<open>TlsTransport\<close>: connecting, disconnecting, sending, receiving, with the invariant \<open>tls_inv\<close>: the
    context owns the only open socket. \<open>TlsConfig\<close>: the configuration; what a configured context verifies; the
    contexts that can come about (\<open>tls_reach\<close>) and their invariant. \<open>TlsLog\<close>: what is logged about certificates, with the length of a
    serial number from which on the log overflows its buffer.
  \<^item> \<open>PsaStore\<close>: objects and certificates in the storage services. \<open>PkiObject\<close>: objects by label; a stored certificate is
    read back, a private key is wiped from the heap. \<open>SigDer\<close>: a raw signature is turned into DER in its own buffer.
    \<open>PsaKeys\<close>: keys in slots: reading a public key as a DER document, storing and generating keys. \<open>PsaKeysSpec\<close>: the writers that work
    from the end of a buffer, the document they make, and what a working key service keeps in its slots (\<open>slots_work\<close>,
    \<open>lookups_work\<close>). \<open>PsaPk\<close>: the contexts of opaque keys, and the key functions the objects of \<open>PkiObject\<close> use. \<open>PsaPkSpec\<close>: a generated
    pair can be read back by label; only keys of P-256 can be used; signatures come in DER.
  \<^item> \<open>P11Token\<close>: certificates and public keys in a PKCS #11 token. \<open>P11Pk\<close>: the contexts of keys that stay in the token, and the
    signature as a structure. \<open>P11Obj\<close>: the operations by label, and what a token promises (\<open>token_spec\<close>). \<open>P11Spec\<close>: a certificate
    that was written is read back; what is reported for objects that are not there.
  \<^item> \<open>Cli\<close>: the dispatcher; its arguments are the words of the line. \<open>CliConf\<close>: the \<open>conf\<close> command,
    whose settings are read back as they were set. \<open>Console\<close>: the line editor, which refines an editor on abstract lines,
    the receiving side of the driver and the command task. \<open>ConsoleTx\<close>: the transmit thread. \<open>Logging\<close>: the line a message becomes.
  \<^item> \<open>ConsoleIo\<close>: the functions commands use for input and output, the locale \<open>console_io\<close> and its interpretation by the
    UART. \<open>CliPem\<close>: printing and reading PEM text. \<open>CliPemSpec\<close>: a printed text is read back when it fits, and a
    base64 codec for the witnesses. \<open>CliPki\<close>: the \<open>pki\<close> command. \<open>CliPkiSpec\<close>: a certificate travels from one device to another as
    text; a signing request names the device. \<open>CliUtils\<close>, \<open>CliUtilsSpec\<close>: \<open>ps\<close>, \<open>kill\<close>, \<open>killall\<close>, \<open>heapstat\<close> and \<open>uptime\<close>; what
    a signal does to the tasks, and that what is printed is right. \<open>CliRng\<close>: the \<open>rngtest\<close> command, and for which numbers it ends.
  \<^item> \<open>NewlibHeap\<close>: \<open>malloc\<close> and its relatives; \<open>realloc\<close> keeps the contents. \<open>MbedtlsPort\<close>: memory and mutexes for Mbed TLS;
    arrays are cleared when they are made and wiped when they are released.
  \<^item> \<open>ByteQueue\<close>: the byte queues of the serial driver (\<open>r_byteq.c\<close>), with the locale \<open>simulates\<close> for runs of steps that simulate abstract
    steps; the table of queues behaves like separate bounded queues.
  \<^item> \<open>StartUp\<close>: the start, the hooks, and the steps of a reset; which directories exist when the other tasks get the file system.

  \<^bold>\<open>Loops.\<close> Loops over arrays and lists are structural or have a measure. A loop that may run for ever is a
  \<open>partial_function\<close>, and its end is part of a property: \<open>write_pages\<close> of the OTA port, \<open>prog_loop\<close> of the file system
  port, \<open>uart_write_loop\<close> of the console, \<open>vStopSocketNotifyTask\<close> and \<open>handshake\<close> of the transport,
  \<open>demo_loop\<close>, \<open>suspend_wait\<close> and \<open>resume_wait\<close> of the OTA task, \<open>pem_loop\<close> of the PEM reader. Loops over what
  arrives from outside (keys, answers of a socket) recurse over the list of what arrives and do not return at its
  end. The loop of the agent's task runs for ever; its rounds are a function and
  the states at its head an inductive predicate. No definition uses fuel.

  \<^bold>\<open>Not modelled.\<close> Delays; hardware registers, of which only the order of the accesses at a reset is given; interrupts other than the
  completion of a flash operation, which is taken to come, and those of the console; the interleaving of tasks inside a critical
  section, which the mutex of the subscription manager excludes (the store's setters take no mutex at all);
  the log output of the functions other than that of the transport; the vector table, the heartbeat lamp, the watchdog and the
  static memory of the kernel's own tasks; and the vendored drivers other than the byte queue. Callbacks of a demo run while its task waits or sleeps, not
  between two of its other steps.
\<close>

end
